(* ===== verification/OIP_Prelude.thy ===== *)
theory OIP_Prelude
  imports Complex_Main "HOL-Library.AList" "HOL-Library.List_Lexorder" "HOL-Library.Char_ord"
begin

text \<open>
  Shared vocabulary of the development: the result type that stands for Python exceptions,
  instants and durations, dictionaries as insertion-ordered association lists, the sorted
  reading of a dictionary that the code uses everywhere it iterates, and the decimal rendering
  of integers that occurs inside identifiers.
\<close>

section \<open>Collections of facts\<close>

named_theorems result_simps \<open>unfolding rules for results and binds\<close>
named_theorems dict_simps \<open>rules for dictionaries as association lists\<close>

section \<open>Results\<close>

text \<open>
  A call that may raise returns \<open>Inl\<close> of the exception or \<open>Inr\<close> of its value.
\<close>

fun bind_result :: "'e + 'a \<Rightarrow> ('a \<Rightarrow> 'e + 'b) \<Rightarrow> 'e + 'b" where
  "bind_result (Inl e) f = Inl e"
| "bind_result (Inr a) f = f a"

lemma bind_result_Inr_iff [result_simps]:
  "bind_result r f = Inr b \<longleftrightarrow> (\<exists>a. r = Inr a \<and> f a = Inr b)"
  by (cases r) auto

lemma bind_result_Inl_iff [result_simps]:
  "bind_result r f = Inl e \<longleftrightarrow> r = Inl e \<or> (\<exists>a. r = Inr a \<and> f a = Inl e)"
  by (cases r) auto

definition is_ok :: "'e + 'a \<Rightarrow> bool" where
  "is_ok r \<longleftrightarrow> (case r of Inl _ \<Rightarrow> False | Inr _ \<Rightarrow> True)"

lemma is_ok_simps [simp, result_simps]:
  "\<not> is_ok (Inl e)" "is_ok (Inr a)"
  by (simp_all add: is_ok_def)

lemma is_ok_iff: "is_ok r \<longleftrightarrow> (\<exists>a. r = Inr a)"
  by (cases r) auto

section \<open>Time\<close>

text \<open>
  A \<^verbatim>\<open>datetime\<close> of the code is timezone-aware and is only ever compared, added to a
  \<^verbatim>\<open>timedelta\<close> or rendered. It is modelled by the instant it denotes, in microseconds
  since the epoch, which is the resolution of Python's datetimes; a \<^verbatim>\<open>timedelta\<close> is a
  number of microseconds, and a \<^verbatim>\<open>time\<close> the microseconds since midnight.
\<close>

type_synonym instant = int
type_synonym duration = int
type_synonym time_of_day = int

section \<open>Dictionaries\<close>

text \<open>
  A Python \<^verbatim>\<open>dict\<close> keeps insertion order, and assigning to a present key keeps its place.
  \<^const>\<open>AList.update\<close> on an association list does exactly that; \<^const>\<open>map_of\<close> is
  \<^verbatim>\<open>get\<close>. \<open>dict_ok\<close> is the invariant that every key occurs once.
\<close>

type_synonym ('k, 'v) dict = "('k \<times> 'v) list"

definition dict_ok :: "('k, 'v) dict \<Rightarrow> bool" where
  "dict_ok d \<longleftrightarrow> distinct (map fst d)"

definition dict_set :: "'k \<Rightarrow> 'v \<Rightarrow> ('k, 'v) dict \<Rightarrow> ('k, 'v) dict" where
  "dict_set k v d = AList.update k v d"

definition dict_get :: "('k, 'v) dict \<Rightarrow> 'k \<Rightarrow> 'v option" where
  "dict_get d k = map_of d k"

definition dict_keys :: "('k, 'v) dict \<Rightarrow> 'k list" where
  "dict_keys d = map fst d"

definition dict_pop :: "'k \<Rightarrow> ('k, 'v) dict \<Rightarrow> ('k, 'v) dict" where
  "dict_pop k d = filter (\<lambda>e. fst e \<noteq> k) d"

text \<open>\<open>tuple(d[key] for key in sorted(d))\<close>, the iteration used by every component.\<close>

definition sorted_values :: "('k :: linorder, 'v) dict \<Rightarrow> 'v list" where
  "sorted_values d = map (\<lambda>k. the (dict_get d k)) (sort (dict_keys d))"

lemma dict_get_set [simp, dict_simps]:
  "dict_get (dict_set k v d) k' = (if k' = k then Some v else dict_get d k')"
  by (simp add: dict_get_def dict_set_def update_conv)

lemma dict_get_Nil [simp]: "dict_get [] k = None"
  by (simp add: dict_get_def)

lemma dict_get_Cons [simp]:
  "dict_get ((k, v) # d) k' = (if k' = k then Some v else dict_get d k')"
  by (simp add: dict_get_def)

lemma dict_ok_Nil [simp]: "dict_ok []"
  by (simp add: dict_ok_def)

lemma dict_ok_set [simp, intro]: "dict_ok d \<Longrightarrow> dict_ok (dict_set k v d)"
  by (simp add: dict_ok_def dict_set_def distinct_update)

lemma dict_keys_set_present:
  "k \<in> set (dict_keys d) \<Longrightarrow> dict_keys (dict_set k v d) = dict_keys d"
  by (simp add: dict_keys_def dict_set_def update_keys)

lemma set_dict_keys_set [simp]:
  "set (dict_keys (dict_set k v d)) = insert k (set (dict_keys d))"
  by (auto simp add: dict_keys_def dict_set_def update_keys)

lemma dict_get_in_keys: "dict_get d k = Some v \<Longrightarrow> k \<in> set (dict_keys d)"
  by (auto simp: dict_get_def dict_keys_def dest: map_of_SomeD intro: image_eqI [rotated])

lemma dict_keys_get: "k \<in> set (dict_keys d) \<longleftrightarrow> (\<exists>v. dict_get d k = Some v)"
  by (auto simp: dict_get_def dict_keys_def weak_map_of_SomeI dest: map_of_SomeD
      intro: image_eqI [rotated])

lemma dict_get_None_iff: "dict_get d k = None \<longleftrightarrow> k \<notin> set (dict_keys d)"
  using dict_keys_get [of k d] by (cases "dict_get d k") auto

lemma dict_get_pop [simp, dict_simps]:
  "dict_get (dict_pop k d) k' = (if k' = k then None else dict_get d k')"
  by (induction d) (auto simp: dict_pop_def dict_get_def)

lemma dict_ok_pop [simp, intro]: "dict_ok d \<Longrightarrow> dict_ok (dict_pop k d)"
  by (auto simp: dict_ok_def dict_pop_def distinct_map_filter)

lemma set_sorted_values:
  "set (sorted_values d) = {v. \<exists>k. dict_get d k = Some v}"
  by (force simp: sorted_values_def dict_keys_get image_iff)

lemma in_sorted_valuesI: "dict_get d k = Some v \<Longrightarrow> v \<in> set (sorted_values d)"
  by (auto simp: set_sorted_values)

lemma in_sorted_valuesE:
  assumes "v \<in> set (sorted_values d)"
  obtains k where "dict_get d k = Some v"
  using assms by (auto simp: set_sorted_values)

lemma sorted_values_Nil [simp]: "sorted_values [] = []"
  by (simp add: sorted_values_def dict_keys_def)

text \<open>Storing back the value a key already has changes no reading of the dictionary.\<close>

lemma dict_set_same: "dict_get d k = Some v \<Longrightarrow> dict_set k v d = d"
  by (induction d) (auto simp: dict_get_def dict_set_def split: if_splits)

lemma sorted_values_cong:
  assumes "dict_keys d = dict_keys d'" and "\<And>k. k \<in> set (dict_keys d) \<Longrightarrow> dict_get d k = dict_get d' k"
  shows "sorted_values d = sorted_values d'"
  using assms by (auto simp: sorted_values_def)

section \<open>Rendering integers\<close>

text \<open>\<open>str(n)\<close> of a Python int, which f-strings use inside identifiers.\<close>

definition digit_char :: "nat \<Rightarrow> char" where
  "digit_char n = char_of (48 + n)"

fun str_nat :: "nat \<Rightarrow> string" where
  "str_nat n = (if n < 10 then [digit_char n] else str_nat (n div 10) @ [digit_char (n mod 10)])"

declare str_nat.simps [simp del]

definition str_int :: "int \<Rightarrow> string" where
  "str_int i = (if i < 0 then CHR ''-'' # str_nat (nat (- i)) else str_nat (nat i))"

lemma digit_char_inj: "m < 10 \<Longrightarrow> n < 10 \<Longrightarrow> digit_char m = digit_char n \<Longrightarrow> m = n"
  by (simp add: digit_char_def char_of_eq_iff of_char_of take_bit_eq_mod)

lemma digit_char_ge: "n < 10 \<Longrightarrow> of_char (digit_char n) = 48 + n"
  by (simp add: digit_char_def of_char_of take_bit_eq_mod)

lemma str_nat_nonempty: "str_nat n \<noteq> []"
  by (subst str_nat.simps) simp

fun digits_value :: "string \<Rightarrow> nat" where
  "digits_value [] = 0"
| "digits_value (c # cs) = (of_char c - 48) * 10 ^ length cs + digits_value cs"

lemma digits_value_append:
  "digits_value (xs @ [c]) = 10 * digits_value xs + (of_char c - 48)"
  by (induction xs) (simp_all add: algebra_simps)

lemma digits_value_str_nat: "digits_value (str_nat n) = n"
proof (induction n rule: str_nat.induct)
  case (1 n)
  show ?case
  proof (cases "n < 10")
    case True
    then show ?thesis by (subst str_nat.simps) (simp add: digit_char_ge)
  next
    case False
    with "1.IH" show ?thesis
      by (subst str_nat.simps) (simp add: digits_value_append digit_char_ge)
  qed
qed

lemma str_nat_inject: "str_nat m = str_nat n \<longleftrightarrow> m = n"
  by (metis digits_value_str_nat)

lemma str_nat_digits: "c \<in> set (str_nat n) \<Longrightarrow> 48 \<le> (of_char c :: nat) \<and> of_char c < (58 :: nat)"
proof (induction n arbitrary: c rule: str_nat.induct)
  case (1 n)
  show ?case
  proof (cases "n < 10")
    case True
    then show ?thesis using "1.prems" by (subst (asm) str_nat.simps) (simp add: digit_char_ge)
  next
    case False
    with "1.prems" have "c \<in> set (str_nat (n div 10)) \<or> c = digit_char (n mod 10)"
      by (subst (asm) str_nat.simps) auto
    with False "1.IH" show ?thesis by (auto simp: digit_char_ge)
  qed
qed

section \<open>Lists\<close>

lemma find_Some_iff_first:
  "find P xs = Some x \<Longrightarrow> x \<in> set xs \<and> P x"
  by (induction xs) (auto split: if_splits)

lemma find_None_iff_none: "find P xs = None \<longleftrightarrow> (\<forall>x\<in>set xs. \<not> P x)"
  by (induction xs) auto

text \<open>\<open>sum(xs)\<close> over ints, from 0 on.\<close>

lemma sum_list_nonneg_int: "(\<And>x. x \<in> set xs \<Longrightarrow> 0 \<le> (x :: int)) \<Longrightarrow> 0 \<le> sum_list xs"
  by (rule sum_list_nonneg)

text \<open>\<open>max(0, \<dots>)\<close>-style running maxima.\<close>

lemma fold_max_ge: "(a :: int) \<le> fold (\<lambda>x m. max m (f x)) xs a"
  by (induction xs arbitrary: a) (auto intro: order_trans [OF max.cobounded1])

lemma fold_max_upper: "x \<in> set xs \<Longrightarrow> (f x :: int) \<le> fold (\<lambda>x m. max m (f x)) xs a"
proof (induction xs arbitrary: a)
  case (Cons y ys)
  show ?case
  proof (cases "x = y")
    case True
    have "f y \<le> max a (f y)" by simp
    also have "\<dots> \<le> fold (\<lambda>x m. max m (f x)) ys (max a (f y))" by (rule fold_max_ge)
    finally show ?thesis using True by simp
  next
    case False
    with Cons show ?thesis by simp
  qed
qed simp

lemma fold_max_le_iff:
  "fold (\<lambda>x m. max m (f x)) xs a \<le> (b :: int) \<longleftrightarrow> a \<le> b \<and> (\<forall>x\<in>set xs. f x \<le> b)"
  by (induction xs arbitrary: a) auto

lemma sum_list_fst_nonneg:
  fixes xs :: "(int \<times> 'b) list"
  shows "\<forall>x\<in>set xs. 0 < fst x \<Longrightarrow> 0 \<le> sum_list (map fst xs)"
  by (induction xs) auto

lemma sum_list_fst_pos:
  fixes xs :: "(int \<times> 'b) list"
  shows "\<forall>x\<in>set xs. 0 < fst x \<Longrightarrow> xs \<noteq> [] \<Longrightarrow> 0 < sum_list (map fst xs)"
  using sum_list_fst_nonneg by (cases xs) fastforce+

end
