(* ===== verification/OIP_Rounding.thy ===== *)
theory OIP_Rounding
  imports OIP_Prelude
begin

text \<open>
  Rounding to a number of significant digits, ties to even. Python's \<^verbatim>\<open>decimal\<close> context (28
  decimal digits; nothing in the repository changes it) and its \<^verbatim>\<open>float\<close> (53 bits) are two
  instances of one function, whose laws (monotone, odd, idempotent) the locale \<open>rounding\<close>
  packages for the clients. Overflow and underflow of the exponent range are not represented.
\<close>

section \<open>Powers\<close>

lemma powi_pred: "0 < p \<Longrightarrow> (x :: rat) powi (int p - 1) = x ^ (p - 1)"
  by (metis One_nat_def Suc_leI of_nat_1 of_nat_diff power_int_of_nat)

section \<open>Rounding to a number of significant digits\<close>

text \<open>Number of base-\<open>b\<close> digits; \<open>0\<close> has none.\<close>

function ndigits :: "int \<Rightarrow> int \<Rightarrow> nat" where
  "ndigits b n = (if n \<le> 0 \<or> b \<le> 1 then 0 else Suc (ndigits b (n div b)))"
  by pat_completeness auto
termination
  by (relation "measure (\<lambda>(b, n). nat n)") (auto simp: zdiv_mono2 int_div_less_self)

declare ndigits.simps [simp del]

lemma ndigits_0 [simp]: "ndigits b 0 = 0"
  by (subst ndigits.simps) simp

lemma ndigits_pos: "1 < b \<Longrightarrow> 0 < n \<Longrightarrow> ndigits b n = Suc (ndigits b (n div b))"
  by (subst ndigits.simps) simp

lemma ndigits_less: "1 < b \<Longrightarrow> 0 \<le> n \<Longrightarrow> n < b ^ ndigits b n"
proof (induction b n rule: ndigits.induct)
  case (1 b n)
  show ?case
  proof (cases "n = 0")
    case True
    then show ?thesis by simp
  next
    case False
    with 1 have "n div b < b ^ ndigits b (n div b)" by (simp add: pos_imp_zdiv_nonneg_iff)
    then have "n div b + 1 \<le> b ^ ndigits b (n div b)" by simp
    then have "b * (n div b + 1) \<le> b * b ^ ndigits b (n div b)" using "1.prems" by (intro mult_left_mono) auto
    moreover have "n < b * (n div b + 1)"
      using "1.prems" pos_mod_bound [of b n] mult_div_mod_eq [of b n] unfolding distrib_left by linarith
    ultimately have "n < b * b ^ ndigits b (n div b)" by linarith
    then show ?thesis using False "1.prems" by (simp add: ndigits_pos)
  qed
qed

lemma ndigits_ge: "1 < b \<Longrightarrow> 0 < n \<Longrightarrow> b ^ (ndigits b n - 1) \<le> n"
proof (induction b n rule: ndigits.induct)
  case (1 b n)
  show ?case
  proof (cases "n div b = 0")
    case True
    with "1.prems" show ?thesis by (simp add: ndigits_pos)
  next
    case False
    with "1.prems" have pos: "0 < n div b" using pos_imp_zdiv_nonneg_iff [of b n] by simp
    with 1 have IH: "b ^ (ndigits b (n div b) - 1) \<le> n div b" by simp
    have "ndigits b (n div b) = Suc (ndigits b (n div b) - 1)"
      using pos "1.prems" by (simp add: ndigits_pos)
    then have "b ^ ndigits b (n div b) = b * b ^ (ndigits b (n div b) - 1)"
      by (metis power_Suc)
    also have "\<dots> \<le> b * (n div b)" using IH "1.prems" by simp
    also have "\<dots> \<le> n" using "1.prems" pos_mod_sign [of b n] mult_div_mod_eq [of b n] by linarith
    finally show ?thesis using "1.prems" by (simp add: ndigits_pos)
  qed
qed

text \<open>The exponent of the leading digit: \<open>b powi adj b x \<le> \<bar>x\<bar> < b powi (adj b x + 1)\<close>.\<close>

definition adj :: "int \<Rightarrow> rat \<Rightarrow> int" where
  "adj b x =
     (if 1 \<le> \<bar>x\<bar> then int (ndigits b \<lfloor>\<bar>x\<bar>\<rfloor>) - 1
      else - int (ndigits b (\<lceil>1 / \<bar>x\<bar>\<rceil> - 1)))"

lemma adj_minus [simp]: "adj b (- x) = adj b x"
  by (simp add: adj_def)

lemma adj_abs [simp]: "adj b \<bar>x\<bar> = adj b x"
  by (simp add: adj_def)

lemma of_int_power_le: "m ^ k \<le> n \<Longrightarrow> (of_int m :: rat) ^ k \<le> of_int n"
  by (metis of_int_le_iff of_int_power)

lemma of_int_less_power: "n < m ^ k \<Longrightarrow> of_int n + 1 \<le> (of_int m :: rat) ^ k"
  by (metis add.commute of_int_1 of_int_add of_int_le_iff of_int_power zless_imp_add1_zle)

lemma adj_bounds_ge1:
  assumes b: "1 < b" and x: "1 \<le> x"
  shows "of_int b powi adj b x \<le> x \<and> x < of_int b powi (adj b x + 1)"
proof -
  let ?n = "\<lfloor>x\<rfloor>" and ?d = "ndigits b \<lfloor>x\<rfloor>"
  have n: "0 < ?n" using x by (simp add: le_floor_iff)
  have fl: "of_int ?n \<le> x" "x < of_int ?n + 1" using floor_correct [of x] by simp_all
  have d: "0 < ?d" using b n by (simp add: ndigits_pos)
  have adj: "adj b x = int (?d - 1)" using x d by (simp add: adj_def of_nat_diff)
  have adj1: "adj b x + 1 = int ?d" using x d by (simp add: adj_def)
  have "of_int b ^ (?d - 1) \<le> x" "x < of_int b ^ ?d"
    using of_int_power_le [OF ndigits_ge [OF b n]] of_int_less_power [OF ndigits_less [OF b, of ?n]] n fl
    by linarith+
  moreover have "of_int b powi adj b x = (of_int b :: rat) ^ (?d - 1)" unfolding adj by simp
  moreover have "of_int b powi (adj b x + 1) = (of_int b :: rat) ^ ?d" unfolding adj1 by simp
  ultimately show ?thesis by simp
qed

lemma adj_bounds_lt1:
  assumes b: "1 < b" and x: "0 < x" "x < 1"
  shows "of_int b powi adj b x \<le> x \<and> x < of_int b powi (adj b x + 1)"
proof -
  let ?n = "\<lceil>1 / x\<rceil> - 1"
  let ?d = "ndigits b ?n"
  have "1 < 1 / x" using x by simp
  then have n: "0 < ?n" by (simp add: less_ceiling_iff)
  have lo: "of_int ?n < 1 / x" by (simp add: algebra_simps) linarith
  have hi: "1 / x \<le> of_int ?n + 1" by simp
  have d: "0 < ?d" using b n by (simp add: ndigits_pos)
  have adj: "adj b x = - int ?d" using x by (simp add: adj_def)
  have bb: "(0 :: rat) < of_int b" using b by simp
  have "of_int ?n + 1 \<le> (of_int b :: rat) ^ ?d"
    using n by (intro of_int_less_power ndigits_less [OF b]) linarith
  with hi have "1 / x \<le> of_int b ^ ?d" by (rule order_trans)
  then have "1 / of_int b ^ ?d \<le> x" using x bb by (simp add: field_simps)
  then have 1: "of_int b powi adj b x \<le> x"
    unfolding adj by (simp add: power_int_minus divide_inverse)
  have "of_int b ^ (?d - 1) < 1 / x" using of_int_power_le [OF ndigits_ge [OF b n]] lo by linarith
  then have "x < 1 / of_int b ^ (?d - 1)" using x bb by (simp add: field_simps)
  moreover have "adj b x + 1 = - int (?d - 1)" unfolding adj using d by (simp add: of_nat_diff)
  ultimately have 2: "x < of_int b powi (adj b x + 1)" by (simp add: power_int_minus divide_inverse)
  from 1 2 show ?thesis ..
qed

lemma adj_bounds:
  assumes "1 < b" "x \<noteq> 0"
  shows "of_int b powi adj b x \<le> \<bar>x\<bar>" and "\<bar>x\<bar> < of_int b powi (adj b x + 1)"
  using adj_bounds_ge1 [of b "\<bar>x\<bar>"] adj_bounds_lt1 [of b "\<bar>x\<bar>"] assms
  by (cases "1 \<le> \<bar>x\<bar>"; auto)+

lemma powi_less_iff:
  assumes "1 < b"
  shows "(of_int b :: rat) powi m < of_int b powi n \<longleftrightarrow> m < n"
proof
  assume "(of_int b :: rat) powi m < of_int b powi n"
  then show "m < n" using power_int_increasing [of n m "of_int b :: rat"] assms by force
qed (use assms in \<open>simp add: power_int_strict_increasing\<close>)

lemma powi_le_iff:
  assumes "1 < b"
  shows "(of_int b :: rat) powi m \<le> of_int b powi n \<longleftrightarrow> m \<le> n"
  using powi_less_iff [OF assms, of n m] by (auto simp: not_less [symmetric])

lemma adj_less_iff_bound:
  assumes b: "1 < b" and x: "x \<noteq> 0"
  shows "adj b x < k \<longleftrightarrow> \<bar>x\<bar> < of_int b powi k"
proof
  assume "adj b x < k"
  then have "(of_int b :: rat) powi (adj b x + 1) \<le> of_int b powi k" using b by (simp add: powi_le_iff)
  with adj_bounds(2) [OF b x] show "\<bar>x\<bar> < of_int b powi k" by linarith
next
  assume "\<bar>x\<bar> < of_int b powi k"
  with adj_bounds(1) [OF b x] have "(of_int b :: rat) powi adj b x < of_int b powi k" by linarith
  with b show "adj b x < k" by (simp add: powi_less_iff)
qed

lemma adj_mono: "1 < b \<Longrightarrow> 0 < x \<Longrightarrow> x \<le> y \<Longrightarrow> adj b x \<le> adj b y"
  using adj_less_iff_bound [of b x "adj b y + 1"] adj_bounds(2) [of b y] by simp

text \<open>The nearest integer, ties to the even one.\<close>

definition round_half_even :: "rat \<Rightarrow> int" where
  "round_half_even x =
     (let f = \<lfloor>x\<rfloor>; r = x - of_int f
      in if r < 1 / 2 then f
         else if 1 / 2 < r then f + 1
         else if even f then f else f + 1)"

lemma round_half_even_of_int [simp]: "round_half_even (of_int n) = n"
  by (simp add: round_half_even_def)

lemma round_half_even_power [simp]: "round_half_even (of_int b ^ k) = b ^ k"
  using round_half_even_of_int [of "b ^ k"] by simp

lemma round_half_even_bounds: "\<lfloor>x\<rfloor> \<le> round_half_even x \<and> round_half_even x \<le> \<lfloor>x\<rfloor> + 1"
  by (simp add: round_half_even_def Let_def)

lemma round_half_even_mono: "x \<le> y \<Longrightarrow> round_half_even x \<le> round_half_even y"
proof -
  assume le: "x \<le> y"
  then have fl: "\<lfloor>x\<rfloor> \<le> \<lfloor>y\<rfloor>" by (rule floor_mono)
  show ?thesis
  proof (cases "\<lfloor>x\<rfloor> = \<lfloor>y\<rfloor>")
    case True
    then show ?thesis using le by (simp add: round_half_even_def Let_def)
  next
    case False
    with fl have "\<lfloor>x\<rfloor> + 1 \<le> \<lfloor>y\<rfloor>" by simp
    with round_half_even_bounds [of x] round_half_even_bounds [of y] show ?thesis by linarith
  qed
qed

lemma round_half_even_minus: "round_half_even (- x) = - round_half_even x"
proof (cases "x = of_int \<lfloor>x\<rfloor>")
  case True
  then have "round_half_even (- x) = round_half_even (of_int (- \<lfloor>x\<rfloor>))" by simp
  also have "\<dots> = - \<lfloor>x\<rfloor>" by (rule round_half_even_of_int)
  also have "\<lfloor>x\<rfloor> = round_half_even (of_int \<lfloor>x\<rfloor>)" by simp
  finally show ?thesis using True by simp
next
  case False
  then have "of_int \<lfloor>x\<rfloor> < x" using of_int_floor_le [of x] by linarith
  then have "\<lfloor>- x\<rfloor> = - \<lfloor>x\<rfloor> - 1" by linarith
  then show ?thesis by (auto simp: round_half_even_def Let_def)
qed

definition rnd_sig :: "int \<Rightarrow> nat \<Rightarrow> rat \<Rightarrow> rat" where
  "rnd_sig b p x =
     (if x = 0 then 0
      else let u = of_int b powi (adj b x - (int p - 1))
           in of_int (round_half_even (x / u)) * u)"

text \<open>The unit in the last place at \<open>x\<close>.\<close>

definition ulp :: "int \<Rightarrow> nat \<Rightarrow> rat \<Rightarrow> rat" where
  "ulp b p x = of_int b powi (adj b x - (int p - 1))"

lemma rnd_sig_nonzero: "x \<noteq> 0 \<Longrightarrow> rnd_sig b p x = of_int (round_half_even (x / ulp b p x)) * ulp b p x"
  by (simp add: rnd_sig_def ulp_def Let_def)

lemma ulp_pos: "1 < b \<Longrightarrow> 0 < ulp b p x"
  by (simp add: ulp_def)

lemma rnd_sig_0 [simp]: "rnd_sig b p 0 = 0"
  by (simp add: rnd_sig_def)

lemma rnd_sig_minus: "rnd_sig b p (- x) = - rnd_sig b p x"
  by (cases "x = 0") (simp_all add: rnd_sig_nonzero ulp_def round_half_even_minus)

lemma powi_split: "1 < b \<Longrightarrow> (of_int b :: rat) powi (m + n) = of_int b powi m * of_int b powi n"
  by (simp add: power_int_add)

lemma scaled_bounds:
  assumes b: "1 < b" and p: "0 < p" and x: "0 < x"
  shows "of_int b ^ (p - 1) \<le> x / ulp b p x" and "x / ulp b p x < of_int b ^ p"
proof -
  have u: "0 < ulp b p x" using b by (rule ulp_pos)
  have "of_int b powi adj b x = of_int b ^ (p - 1) * ulp b p x"
    using p powi_split [OF b, of "int p - 1" "adj b x - (int p - 1)"]
    by (simp add: ulp_def powi_pred)
  moreover have "of_int b powi (adj b x + 1) = of_int b ^ p * ulp b p x"
    using b powi_split [OF b, of "int p" "adj b x - (int p - 1)"]
    by (simp add: ulp_def algebra_simps)
  ultimately show "of_int b ^ (p - 1) \<le> x / ulp b p x" "x / ulp b p x < of_int b ^ p"
    using adj_bounds [OF b, of x] x u by (simp_all add: field_simps)
qed

text \<open>Between the powers that bound the argument: the binade is never left.\<close>

lemma rnd_sig_bounds:
  assumes b: "1 < b" and p: "0 < p" and x: "0 < x"
  shows "of_int b powi adj b x \<le> rnd_sig b p x" and "rnd_sig b p x \<le> of_int b powi (adj b x + 1)"
proof -
  let ?u = "ulp b p x" and ?s = "x / ulp b p x"
  have u: "0 < ?u" using b by (rule ulp_pos)
  have lo: "b ^ (p - 1) \<le> round_half_even ?s"
  proof -
    have "round_half_even (of_int b ^ (p - 1)) \<le> round_half_even ?s"
      using scaled_bounds(1) [OF b p x] by (intro round_half_even_mono) simp
    then show ?thesis by simp
  qed
  have hi: "round_half_even ?s \<le> b ^ p"
  proof -
    have "round_half_even ?s \<le> round_half_even (of_int b ^ p)"
      using scaled_bounds(2) [OF b p x] by (intro round_half_even_mono) simp
    then show ?thesis by simp
  qed
  have "of_int b powi adj b x = of_int (b ^ (p - 1)) * ?u"
    using p powi_split [OF b, of "int p - 1" "adj b x - (int p - 1)"]
    by (simp add: ulp_def powi_pred)
  moreover have "of_int b powi (adj b x + 1) = of_int (b ^ p) * ?u"
    using b powi_split [OF b, of "int p" "adj b x - (int p - 1)"]
    by (simp add: ulp_def algebra_simps)
  moreover have "rnd_sig b p x = of_int (round_half_even ?s) * ?u"
    using x by (simp add: rnd_sig_nonzero)
  moreover have "of_int (b ^ (p - 1)) * ?u \<le> of_int (round_half_even ?s) * ?u"
    using lo u by (intro mult_right_mono) (simp_all only: of_int_le_iff less_imp_le)
  moreover have "of_int (round_half_even ?s) * ?u \<le> of_int (b ^ p) * ?u"
    using hi u by (intro mult_right_mono) (simp_all only: of_int_le_iff less_imp_le)
  ultimately show "of_int b powi adj b x \<le> rnd_sig b p x" "rnd_sig b p x \<le> of_int b powi (adj b x + 1)"
    by simp_all
qed

lemma rnd_sig_mono_pos:
  assumes b: "1 < b" and p: "0 < p" and xy: "0 < x" "x \<le> y"
  shows "rnd_sig b p x \<le> rnd_sig b p y"
proof (cases "adj b x = adj b y")
  case True
  then have eq: "ulp b p x = ulp b p y" by (simp add: ulp_def)
  have u: "0 < ulp b p y" using b by (rule ulp_pos)
  have "round_half_even (x / ulp b p y) \<le> round_half_even (y / ulp b p y)"
    using u xy by (intro round_half_even_mono) (simp add: divide_right_mono)
  then show ?thesis using xy u eq by (simp add: rnd_sig_nonzero)
next
  case False
  then have "adj b x + 1 \<le> adj b y" using adj_mono [OF b xy] by simp
  then have "(of_int b :: rat) powi (adj b x + 1) \<le> of_int b powi adj b y" using b by (simp add: powi_le_iff)
  with rnd_sig_bounds(2) [OF b p xy(1)] rnd_sig_bounds(1) [OF b p, of y] xy
  show ?thesis by linarith
qed

lemma rnd_sig_pos: "1 < b \<Longrightarrow> 0 < p \<Longrightarrow> 0 < x \<Longrightarrow> 0 < rnd_sig b p x"
  by (rule order_less_le_trans [OF _ rnd_sig_bounds(1)]) (simp_all add: zero_less_power_int)

lemma rnd_sig_mono:
  assumes b: "1 < b" and p: "0 < p" and xy: "x \<le> y"
  shows "rnd_sig b p x \<le> rnd_sig b p y"
proof -
  have nonneg: "0 \<le> rnd_sig b p z" if "0 \<le> z" for z
    using rnd_sig_pos [OF b p, of z] that by (cases "z = 0") auto
  consider "0 < x" | "x \<le> 0" "0 \<le> y" | "y < 0" by linarith
  then show ?thesis
  proof cases
    case 1
    then show ?thesis using rnd_sig_mono_pos [OF b p _ xy] by simp
  next
    case 2
    then show ?thesis using nonneg [of y] nonneg [of "- x"] by (simp add: rnd_sig_minus)
  next
    case 3
    then show ?thesis using rnd_sig_mono_pos [OF b p, of "- y" "- x"] xy by (simp add: rnd_sig_minus)
  qed
qed

text \<open>A value with a coefficient of at most \<open>p\<close> digits is its own rounding.\<close>

lemma rnd_sig_exact_pos:
  assumes b: "1 < b" and p: "0 < p" and n: "0 < n" "n \<le> b ^ p"
  shows "rnd_sig b p (of_int n * of_int b powi e) = of_int n * of_int b powi e"
proof -
  let ?x = "of_int n * (of_int b :: rat) powi e"
  let ?k = "e - (adj b ?x - (int p - 1))"
  have bp: "(0 :: rat) < of_int b powi e" using b by simp
  have x: "0 < ?x" using n bp by simp
  have u: "ulp b p ?x = of_int b powi (adj b ?x - (int p - 1))" by (simp add: ulp_def)
  have eq: "?x = of_int n * of_int b powi ?k * ulp b p ?x"
    unfolding u using powi_split [OF b, of ?k "adj b ?x - (int p - 1)"] by simp
  obtain m where m: "of_int n * (of_int b :: rat) powi ?k = of_int m"
  proof (cases "n = b ^ p")
    case True
    have "?x = of_int b powi (e + int p)"
      using True powi_split [OF b, of e "int p"] by (simp add: mult.commute)
    then have "adj b ?x = e + int p"
      using adj_bounds [OF b, of ?x] x b by (simp add: powi_le_iff powi_less_iff)
    then have k: "?k = - 1" by simp
    have "of_int n * (of_int b :: rat) powi ?k = of_int b ^ p * inverse (of_int b)"
      unfolding k by (simp only: True power_int_minus1_right of_int_power of_int_of_nat_eq)
    also have "\<dots> = of_int (b ^ (p - 1))" using b p by (cases p) simp_all
    finally have "of_int n * (of_int b :: rat) powi ?k = of_int (b ^ (p - 1))" .
    with that show ?thesis by blast
  next
    case False
    with n have "n < b ^ p" by simp
    then have "of_int n < (of_int b :: rat) ^ p" by (metis of_int_less_iff of_int_of_nat_eq of_int_power)
    then have "?x < of_int b ^ p * of_int b powi e" using bp by (simp add: mult_strict_right_mono)
    also have "\<dots> = of_int b powi (int p + e)" using powi_split [OF b, of "int p" e] by simp
    finally have "\<bar>?x\<bar> < of_int b powi (int p + e)" using x by simp
    moreover have "?x \<noteq> 0" using x by linarith
    ultimately have "adj b ?x < int p + e" using adj_less_iff_bound [OF b] by blast
    then have "0 \<le> ?k" by simp
    then obtain j where "?k = int j" using nonneg_int_cases by blast
    then have "of_int n * (of_int b :: rat) powi ?k = of_int (n * b ^ j)" by simp
    with that show ?thesis by blast
  qed
  have "?x / ulp b p ?x = of_int m"
    using eq m ulp_pos [OF b, of p ?x] by (metis nonzero_mult_div_cancel_right order_less_irrefl)
  moreover have "?x \<noteq> 0" using x by linarith
  ultimately have "rnd_sig b p ?x = of_int m * ulp b p ?x"
    by (simp only: rnd_sig_nonzero round_half_even_of_int not_False_eq_True)
  with eq m show ?thesis by simp
qed

lemma rnd_sig_exact:
  assumes b: "1 < b" and p: "0 < p" and n: "\<bar>n\<bar> \<le> b ^ p"
  shows "rnd_sig b p (of_int n * of_int b powi e) = of_int n * of_int b powi e"
proof -
  consider "n = 0" | "0 < n" | "0 < - n" by linarith
  then show ?thesis
  proof cases
    case 3
    then have "rnd_sig b p (of_int (- n) * of_int b powi e) = of_int (- n) * of_int b powi e"
      using n by (intro rnd_sig_exact_pos [OF b p]) auto
    then show ?thesis using rnd_sig_minus [of b p "of_int n * of_int b powi e"] by simp
  qed (use n rnd_sig_exact_pos [OF b p] in auto)
qed

lemma rnd_sig_int:
  assumes "1 < b" "0 < p" "\<bar>n\<bar> \<le> b ^ p"
  shows "rnd_sig b p (of_int n) = of_int n"
  using rnd_sig_exact [OF assms, of 0] by simp

lemma rnd_sig_form:
  assumes b: "1 < b" and p: "0 < p"
  obtains n e where "\<bar>n\<bar> \<le> b ^ p" "rnd_sig b p x = of_int n * of_int b powi e"
proof -
  have pos: "\<exists>n e. \<bar>n\<bar> \<le> b ^ p \<and> rnd_sig b p y = of_int n * of_int b powi e" if y: "0 < y" for y
  proof -
    have lo: "0 \<le> round_half_even (y / ulp b p y)"
      using round_half_even_mono [of 0 "y / ulp b p y"] y ulp_pos [OF b, of p y]
        round_half_even_of_int [of 0] by simp
    have "round_half_even (y / ulp b p y) \<le> round_half_even (of_int b ^ p)"
      using scaled_bounds(2) [OF b p y] by (intro round_half_even_mono) simp
    then have "\<bar>round_half_even (y / ulp b p y)\<bar> \<le> b ^ p" using lo by simp
    moreover have "rnd_sig b p y = of_int (round_half_even (y / ulp b p y)) * of_int b powi (adj b y - (int p - 1))"
      using y by (simp add: rnd_sig_nonzero ulp_def)
    ultimately show ?thesis by blast
  qed
  consider "x = 0" | "0 < x" | "0 < - x" by linarith
  then show ?thesis
  proof cases
    case 1
    then show ?thesis using that [of 0 0] b by simp
  next
    case 2
    then show ?thesis using pos that by blast
  next
    case 3
    then obtain n e where "\<bar>n\<bar> \<le> b ^ p" "rnd_sig b p (- x) = of_int n * of_int b powi e" using pos by blast
    then show ?thesis using that [of "- n" e] by (simp add: rnd_sig_minus)
  qed
qed

lemma rnd_sig_idem:
  assumes "1 < b" "0 < p"
  shows "rnd_sig b p (rnd_sig b p x) = rnd_sig b p x"
  using rnd_sig_form [OF assms, of x] rnd_sig_exact [OF assms] by metis

section \<open>The contract of a rounding\<close>

locale rounding =
  fixes rnd :: "rat \<Rightarrow> rat"
  assumes rnd_zero: "rnd 0 = 0"
    and rnd_minus: "rnd (- x) = - rnd x"
    and rnd_mono: "x \<le> y \<Longrightarrow> rnd x \<le> rnd y"
    and rnd_idem: "rnd (rnd x) = rnd x"
begin

lemma nonneg: "0 \<le> x \<Longrightarrow> 0 \<le> rnd x"
  using rnd_mono [of 0 x] by (simp add: rnd_zero)

lemma nonpos: "x \<le> 0 \<Longrightarrow> rnd x \<le> 0"
  using rnd_mono [of x 0] by (simp add: rnd_zero)

lemma abs_rnd: "\<bar>rnd x\<bar> = rnd \<bar>x\<bar>"
  using nonneg [of x] nonpos [of x] by (cases "0 \<le> x") (simp_all add: rnd_minus)

text \<open>A representable bound of the exact value bounds the rounded one.\<close>

lemma le_fixed: "x \<le> r \<Longrightarrow> rnd r = r \<Longrightarrow> rnd x \<le> r"
  using rnd_mono [of x r] by simp

lemma ge_fixed: "r \<le> x \<Longrightarrow> rnd r = r \<Longrightarrow> r \<le> rnd x"
  using rnd_mono [of r x] by simp

lemma sandwich: "lo \<le> x \<Longrightarrow> x \<le> hi \<Longrightarrow> rnd lo = lo \<Longrightarrow> rnd hi = hi \<Longrightarrow> lo \<le> rnd x \<and> rnd x \<le> hi"
  by (simp add: le_fixed ge_fixed)

text \<open>The rounded sum of two representable values exceeds the first iff the second is not negative,
  up to ties: rounding never reverses the direction of a change.\<close>

lemma add_mono_fixed: "rnd a = a \<Longrightarrow> 0 \<le> d \<Longrightarrow> a \<le> rnd (a + d)"
  by (rule ge_fixed) simp_all

lemma diff_mono_fixed: "rnd a = a \<Longrightarrow> 0 \<le> d \<Longrightarrow> rnd (a - d) \<le> a"
  by (rule le_fixed) simp_all

end

definition rnd28 :: "rat \<Rightarrow> rat" where
  "rnd28 = rnd_sig 10 28"

definition rnd53 :: "rat \<Rightarrow> rat" where
  "rnd53 = rnd_sig 2 53"

interpretation ctx: rounding rnd28
  unfolding rnd28_def
  by unfold_locales (simp_all add: rnd_sig_minus rnd_sig_mono rnd_sig_idem)

interpretation flt: rounding rnd53
  unfolding rnd53_def
  by unfold_locales (simp_all add: rnd_sig_minus rnd_sig_mono rnd_sig_idem)

lemma rnd28_pos: "0 < x \<Longrightarrow> 0 < rnd28 x"
  by (simp add: rnd28_def rnd_sig_pos)

lemma rnd28_0 [simp]: "rnd28 0 = 0"
  by (rule ctx.rnd_zero)

lemma rnd28_eq_0_iff [simp]: "rnd28 x = 0 \<longleftrightarrow> x = 0"
  using rnd28_pos [of x] rnd28_pos [of "- x"] by (cases x "0 :: rat" rule: linorder_cases) (auto simp: ctx.rnd_minus)

lemma rnd28_int: "\<bar>n\<bar> \<le> 10 ^ 28 \<Longrightarrow> rnd28 (of_int n) = of_int n"
  unfolding rnd28_def by (rule rnd_sig_int) simp_all

lemma rnd28_numeral [simp]: "(numeral k :: int) \<le> 10 ^ 28 \<Longrightarrow> rnd28 (numeral k) = numeral k"
  using rnd28_int [of "numeral k"] by simp

lemma rnd28_neg_numeral [simp]: "(numeral k :: int) \<le> 10 ^ 28 \<Longrightarrow> rnd28 (- numeral k) = - numeral k"
  by (simp add: ctx.rnd_minus)

lemma rnd28_1 [simp]: "rnd28 1 = 1"
  using rnd28_int [of 1] by simp

text \<open>Values on the grid of \<open>k\<close> decimal places with a short coefficient are exact.\<close>

definition on_grid :: "nat \<Rightarrow> rat \<Rightarrow> bool" where
  "on_grid k x \<longleftrightarrow> x * 10 ^ k \<in> \<int>"

lemma rnd28_grid:
  assumes "on_grid k x" and "\<bar>x\<bar> * 10 ^ k \<le> 10 ^ 28"
  shows "rnd28 x = x"
proof -
  obtain n where n: "x * 10 ^ k = of_int n" using assms(1) by (auto simp: on_grid_def elim: Ints_cases)
  have "\<bar>of_int n :: rat\<bar> \<le> 10 ^ 28" using assms(2) by (simp add: n [symmetric] abs_mult)
  then have le: "\<bar>n\<bar> \<le> 10 ^ 28" by (simp flip: of_int_abs add: of_int_le_numeral_iff)
  have "x = of_int n * of_int 10 powi (- int k)"
    using n by (simp add: power_int_minus field_simps)
  then show ?thesis using rnd_sig_exact [of 10 28 n "- int k"] le by (simp add: rnd28_def)
qed

lemma on_grid_add: "on_grid k x \<Longrightarrow> on_grid k y \<Longrightarrow> on_grid k (x + y)"
  by (simp add: on_grid_def distrib_right)

lemma on_grid_minus: "on_grid k x \<Longrightarrow> on_grid k (- x)"
  by (simp add: on_grid_def)

lemma on_grid_diff: "on_grid k x \<Longrightarrow> on_grid k y \<Longrightarrow> on_grid k (x - y)"
  by (simp add: on_grid_def left_diff_distrib)

lemma on_grid_int_mult: "on_grid k x \<Longrightarrow> on_grid k (of_int n * x)"
  by (simp add: on_grid_def mult.assoc)

lemma on_grid_of_int [simp]: "on_grid k (of_int n)"
  by (simp add: on_grid_def)

text \<open>
  A bound \<open>r\<close> that stays exact when multiplied by any count up to \<open>n\<close>: on the grid of \<open>k\<close> decimal
  places and small enough. Prices and lot counts of the code satisfy it with a wide margin.
\<close>

definition exact_upto :: "nat \<Rightarrow> int \<Rightarrow> rat \<Rightarrow> bool" where
  "exact_upto k n r \<longleftrightarrow> on_grid k r \<and> \<bar>r\<bar> * 10 ^ k * of_int n \<le> 10 ^ 28"

lemma exact_upto_mult:
  assumes "exact_upto k n r" "0 \<le> m" "m \<le> n"
  shows "rnd28 (r * of_int m) = r * of_int m"
proof (rule rnd28_grid [of k])
  show "on_grid k (r * of_int m)"
    using assms(1) on_grid_int_mult [of k r m] by (simp add: exact_upto_def mult.commute)
  have "\<bar>r\<bar> * 10 ^ k * of_int m \<le> \<bar>r\<bar> * 10 ^ k * of_int n"
    using assms(2,3) by (intro mult_left_mono) auto
  also have "\<dots> \<le> 10 ^ 28" using assms(1) by (simp add: exact_upto_def)
  finally show "\<bar>r * of_int m\<bar> * 10 ^ k \<le> 10 ^ 28"
    using assms(2) by (simp add: abs_mult mult.assoc mult.commute mult.left_commute)
qed

lemma rnd28_scaled_between:
  assumes "exact_upto k n lo" "exact_upto k n hi" "0 \<le> m" "m \<le> n"
    and "lo * of_int m \<le> x" "x \<le> hi * of_int m"
  shows "lo * of_int m \<le> rnd28 x" and "rnd28 x \<le> hi * of_int m"
  using ctx.sandwich [OF assms(5,6) exact_upto_mult [OF assms(1,3,4)] exact_upto_mult [OF assms(2,3,4)]]
  by simp_all

text \<open>
  A weighted average computed with rounding at each of its four steps stays between the bounds of
  what is averaged.
\<close>

lemma rounded_average_between:
  assumes lo: "exact_upto k n lo" and hi: "exact_upto k n hi"
    and a: "f \<noteq> 0 \<Longrightarrow> lo \<le> a \<and> a \<le> hi" and p: "lo \<le> p" "p \<le> hi"
    and f: "0 \<le> f" "0 < q" "f + q \<le> n"
  shows "lo \<le> rnd28 (rnd28 (rnd28 (a * of_int f) + rnd28 (p * of_int q)) / of_int (f + q))"
    and "rnd28 (rnd28 (rnd28 (a * of_int f) + rnd28 (p * of_int q)) / of_int (f + q)) \<le> hi"
proof -
  let ?v = "rnd28 (a * of_int f)" and ?w = "rnd28 (p * of_int q)"
  let ?s = "rnd28 (?v + ?w)"
  have v: "lo * of_int f \<le> ?v" "?v \<le> hi * of_int f"
  proof -
    have "lo * of_int f \<le> a * of_int f" "a * of_int f \<le> hi * of_int f"
      using a f(1) by (cases "f = 0"; simp add: mult_right_mono)+
    with rnd28_scaled_between [OF lo hi, of f] f show "lo * of_int f \<le> ?v" "?v \<le> hi * of_int f" by simp_all
  qed
  have w: "lo * of_int q \<le> ?w" "?w \<le> hi * of_int q"
    using rnd28_scaled_between [OF lo hi, of q "p * of_int q"] p f by (simp_all add: mult_right_mono)
  have s: "lo * of_int (f + q) \<le> ?s" "?s \<le> hi * of_int (f + q)"
    using rnd28_scaled_between [OF lo hi, of "f + q" "?v + ?w"] v w f by (simp_all add: distrib_left)
  have pos: "(0 :: rat) < of_int (f + q)" using f by simp
  have "lo \<le> ?s / of_int (f + q)" "?s / of_int (f + q) \<le> hi"
    using s pos by (simp_all only: pos_le_divide_eq pos_divide_le_eq)
  then show "lo \<le> rnd28 (?s / of_int (f + q))" "rnd28 (?s / of_int (f + q)) \<le> hi"
    using rnd28_scaled_between [OF lo hi, of 1] f by simp_all
qed

end
