(* ===== verification/OIP_Decimal.thy ===== *)
theory OIP_Decimal
  imports OIP_Rounding OIP_Prelude
begin

text \<open>
  \<^verbatim>\<open>decimal.Decimal\<close> as a value with the exponent of its representation: \<open>1.0\<close> and \<open>1.00\<close>
  compare equal and render differently, so both parts are kept. Arithmetic rounds the exact
  result in the default context and gives it the exponent the decimal specification prescribes.
  NaN, infinities, the sign of zero and the context's exponent limits are not represented.
\<close>

section \<open>Representation\<close>

datatype decimal = Dec (dval: rat) (dexp: int)

text \<open>\<open>Decimal(n)\<close> of an int, exact.\<close>

definition dec_int :: "int \<Rightarrow> decimal" where
  "dec_int n = Dec (of_int n) 0"

text \<open>
  The end of every arithmetic operation: round to 28 digits; the exponent is the ideal one
  unless the coefficient would be longer than 28 digits.
\<close>

definition dec_fix :: "rat \<Rightarrow> int \<Rightarrow> decimal" where
  "dec_fix x ideal =
     (let v = rnd28 x in Dec v (if v = 0 then ideal else max ideal (adj 10 v - 27)))"

lemma dval_dec_int [simp]: "dval (dec_int n) = of_int n"
  by (simp add: dec_int_def)

lemma dval_dec_fix [simp]: "dval (dec_fix x e) = rnd28 x"
  by (simp add: dec_fix_def Let_def)

instantiation decimal :: "{zero, plus, minus, uminus, times, abs, preorder}"
begin

definition zero_decimal :: decimal where
  "0 = dec_int 0"

definition plus_decimal :: "decimal \<Rightarrow> decimal \<Rightarrow> decimal" where
  "a + b = dec_fix (dval a + dval b) (min (dexp a) (dexp b))"

definition minus_decimal :: "decimal \<Rightarrow> decimal \<Rightarrow> decimal" where
  "a - b = dec_fix (dval a - dval b) (min (dexp a) (dexp b))"

definition uminus_decimal :: "decimal \<Rightarrow> decimal" where
  "- a = dec_fix (- dval a) (dexp a)"

definition times_decimal :: "decimal \<Rightarrow> decimal \<Rightarrow> decimal" where
  "a * b = dec_fix (dval a * dval b) (dexp a + dexp b)"

definition abs_decimal :: "decimal \<Rightarrow> decimal" where
  "\<bar>a\<bar> = dec_fix \<bar>dval a\<bar> (dexp a)"

definition less_eq_decimal :: "decimal \<Rightarrow> decimal \<Rightarrow> bool" where
  "a \<le> b \<longleftrightarrow> dval a \<le> dval b"

definition less_decimal :: "decimal \<Rightarrow> decimal \<Rightarrow> bool" where
  "a < b \<longleftrightarrow> dval a < dval b"

instance
  by standard (auto simp: less_eq_decimal_def less_decimal_def)

end

lemma dval_zero [simp]: "dval 0 = 0"
  by (simp add: zero_decimal_def)

lemma dval_plus [simp]: "dval (a + b) = rnd28 (dval a + dval b)"
  by (simp add: plus_decimal_def)

lemma dval_minus [simp]: "dval (a - b) = rnd28 (dval a - dval b)"
  by (simp add: minus_decimal_def)

lemma dval_uminus [simp]: "dval (- a :: decimal) = - rnd28 (dval a)"
  by (simp add: uminus_decimal_def ctx.rnd_minus)

lemma dval_times [simp]: "dval (a * b) = rnd28 (dval a * dval b)"
  by (simp add: times_decimal_def)

lemma dval_abs [simp]: "dval \<bar>a\<bar> = \<bar>rnd28 (dval a)\<bar>"
  by (simp add: abs_decimal_def ctx.abs_rnd)

lemmas dec_le_iff = less_eq_decimal_def

lemmas dec_less_iff = less_decimal_def

lemma dec_not_le: "\<not> a \<le> b \<longleftrightarrow> b < (a :: decimal)"
  by (auto simp: dec_le_iff dec_less_iff)

lemma dec_not_less: "\<not> a < b \<longleftrightarrow> b \<le> (a :: decimal)"
  by (auto simp: dec_le_iff dec_less_iff)

text \<open>Python's \<^verbatim>\<open>==\<close> and truth value compare numerically; \<^verbatim>\<open>min\<close> and \<^verbatim>\<open>max\<close> keep the
  first of equals.\<close>

definition dec_eq :: "decimal \<Rightarrow> decimal \<Rightarrow> bool" where
  "dec_eq a b \<longleftrightarrow> dval a = dval b"

definition dec_truthy :: "decimal \<Rightarrow> bool" where
  "dec_truthy a \<longleftrightarrow> dval a \<noteq> 0"

definition dec_min :: "decimal \<Rightarrow> decimal \<Rightarrow> decimal" where
  "dec_min a b = (if b < a then b else a)"

definition dec_max :: "decimal \<Rightarrow> decimal \<Rightarrow> decimal" where
  "dec_max a b = (if a < b then b else a)"

text \<open>\<^verbatim>\<open>int(d)\<close> truncates towards zero.\<close>

definition dec_trunc :: "decimal \<Rightarrow> int" where
  "dec_trunc d = (if 0 \<le> dval d then \<lfloor>dval d\<rfloor> else \<lceil>dval d\<rceil>)"

text \<open>\<^verbatim>\<open>sum(xs, Decimal(0))\<close>: from the left, rounding after every step.\<close>

definition dec_sum :: "decimal list \<Rightarrow> decimal" where
  "dec_sum xs = foldl (+) 0 xs"

section \<open>Rendering\<close>

text \<open>
  \<open>str\<close> of a Decimal: coefficient digits and exponent, in scientific notation where the exponent
  is positive or the value is tiny.
\<close>

definition dec_str :: "decimal \<Rightarrow> string" where
  "dec_str d =
     (let digits = str_nat (nat \<lfloor>\<bar>dval d\<bar> * 10 powi (- dexp d)\<rfloor>);
          len = int (length digits);
          left = dexp d + len;
          dot = (if dexp d \<le> 0 \<and> - 6 < left then left else 1);
          body = (if dot \<le> 0 then ''0.'' @ replicate (nat (- dot)) (CHR ''0'') @ digits
                  else if len \<le> dot then digits @ replicate (nat (dot - len)) (CHR ''0'')
                  else take (nat dot) digits @ ''.'' @ drop (nat dot) digits);
          ex = (if left = dot then []
                else ''E'' @ (if left - dot < 0 then [] else ''+'') @ str_int (left - dot))
      in (if dval d < 0 then ''-'' else []) @ body @ ex)"

section \<open>Division\<close>

function trailing_zeros :: "int \<Rightarrow> nat" where
  "trailing_zeros n = (if n \<le> 0 \<or> n mod 10 \<noteq> 0 then 0 else Suc (trailing_zeros (n div 10)))"
  by pat_completeness auto
termination
  by (relation "measure nat") (auto simp: int_div_less_self)

declare trailing_zeros.simps [simp del]

text \<open>
  \<^verbatim>\<open>a / b\<close> for a nonzero divisor (the code guards every division, or the exception is modelled at
  the call). An exact quotient takes the exponent closest to the ideal one, an inexact one is
  rounded to a 28-digit coefficient.
\<close>

definition dec_div :: "decimal \<Rightarrow> decimal \<Rightarrow> decimal" where
  "dec_div a b =
     (let q = dval a / dval b; v = rnd28 q; ideal = dexp a - dexp b; low = adj 10 v - 27
      in Dec v (if v = 0 then ideal
                else if v = q then max low (min ideal (low + int (trailing_zeros \<lfloor>\<bar>v\<bar> * 10 powi (- low)\<rfloor>)))
                else low))"

lemma dval_dec_div [simp]: "dval (dec_div a b) = rnd28 (dval a / dval b)"
  by (simp add: dec_div_def Let_def)

section \<open>Quantize\<close>

text \<open>Half-up (away from zero on ties) to the grid \<open>10 powi e\<close>.\<close>

definition half_up :: "int \<Rightarrow> rat \<Rightarrow> rat" where
  "half_up e x = sgn x * of_int \<lfloor>\<bar>x\<bar> / 10 powi e + 1 / 2\<rfloor> * 10 powi e"

text \<open>\<^verbatim>\<open>d.quantize(10 ** e, ROUND_HALF_UP)\<close>; \<open>None\<close> is InvalidOperation: more than 28 digits.\<close>

definition quantize_half_up :: "int \<Rightarrow> decimal \<Rightarrow> decimal option" where
  "quantize_half_up e d =
     (let v = half_up e (dval d)
      in if v \<noteq> 0 \<and> 28 < adj 10 v - e + 1 then None else Some (Dec v e))"

lemma half_up_0 [simp]: "half_up e 0 = 0"
  by (simp add: half_up_def)

lemma half_up_minus: "half_up e (- x) = - half_up e x"
  by (simp add: half_up_def)

lemma half_up_mono_nonneg: "0 \<le> x \<Longrightarrow> x \<le> y \<Longrightarrow> half_up e x \<le> half_up e y"
proof (cases "x = 0")
  case True
  assume "x \<le> y"
  then show ?thesis using True
    by (auto simp: half_up_def sgn_if intro!: mult_nonneg_nonneg)
next
  case False
  assume "0 \<le> x" "x \<le> y"
  then have "0 < x" "0 < y" "x / 10 powi e \<le> y / 10 powi e"
    using False by (auto intro: divide_right_mono)
  then show ?thesis by (auto simp: half_up_def intro!: mult_right_mono floor_mono)
qed

lemma half_up_mono: "x \<le> y \<Longrightarrow> half_up e x \<le> half_up e y"
proof -
  assume xy: "x \<le> y"
  consider "0 \<le> x" | "x < 0" "0 \<le> y" | "y < 0" using xy by linarith
  then show ?thesis
  proof cases
    case 1
    then show ?thesis using half_up_mono_nonneg xy by blast
  next
    case 2
    then show ?thesis using half_up_mono_nonneg [of 0 y e] half_up_mono_nonneg [of 0 "- x" e]
      by (simp add: half_up_minus)
  next
    case 3
    then show ?thesis using half_up_mono_nonneg [of "- y" "- x" e] xy by (simp add: half_up_minus)
  qed
qed

lemma half_up_fixed: "half_up e (of_int n * 10 powi e) = of_int n * 10 powi e"
proof -
  have p: "(0 :: rat) < 10 powi e" by simp
  have "\<lfloor>of_int \<bar>n\<bar> + 1 / 2 :: rat\<rfloor> = \<bar>n\<bar>" by linarith
  then show ?thesis using p by (simp add: half_up_def abs_mult sgn_mult) (auto simp: sgn_if)
qed

lemma half_up_form: "\<exists>n. half_up e x = of_int n * 10 powi e"
proof -
  have "half_up e x = of_int ((if 0 < x then 1 else if x = 0 then 0 else - 1) * \<lfloor>\<bar>x\<bar> / 10 powi e + 1 / 2\<rfloor>) * 10 powi e"
    by (auto simp: half_up_def sgn_if)
  then show ?thesis by blast
qed

interpretation half_up: rounding "half_up e" for e
proof
  show "half_up e (half_up e x) = half_up e x" for x
    using half_up_form [of e x] half_up_fixed by auto
qed (simp_all add: half_up_minus half_up_mono)

lemma half_up_error: "\<bar>half_up e x - x\<bar> \<le> 10 powi e / 2"
proof -
  let ?g = "10 powi e :: rat"
  have g: "0 < ?g" by simp
  have pos: "\<bar>half_up e y - y\<bar> \<le> ?g / 2" if "0 < y" for y
  proof -
    let ?f = "\<lfloor>y / ?g + 1 / 2\<rfloor>"
    have m: "(y / ?g + 1 / 2) * ?g = y + ?g / 2" using g by (simp add: distrib_right)
    have "of_int ?f * ?g \<le> (y / ?g + 1 / 2) * ?g" using g by (intro mult_right_mono) linarith+
    moreover have "(y / ?g + 1 / 2) * ?g \<le> (of_int ?f + 1) * ?g"
      using g by (intro mult_right_mono) linarith+
    ultimately have "of_int ?f * ?g \<le> y + ?g / 2" "y + ?g / 2 \<le> of_int ?f * ?g + ?g"
      unfolding m by (simp_all add: distrib_right)
    then have "\<bar>of_int ?f * ?g - y\<bar> \<le> ?g / 2" unfolding abs_le_iff by linarith
    then show ?thesis using that by (simp add: half_up_def)
  qed
  consider "x = 0" | "0 < x" | "0 < - x" by linarith
  then show ?thesis
  proof cases
    case 3
    then have "\<bar>- half_up e x + x\<bar> \<le> ?g / 2" using pos [of "- x"] by (simp add: half_up_minus)
    then show ?thesis by (simp add: abs_minus_commute add.commute)
  qed (use pos g in auto)
qed

section \<open>Binary floating point\<close>

text \<open>\<^verbatim>\<open>m / n\<close> of two ints is a correctly rounded float, and \<^verbatim>\<open>int\<close> of a float truncates.\<close>

definition int_truediv :: "int \<Rightarrow> int \<Rightarrow> rat" where
  "int_truediv m n = rnd53 (of_int m / of_int n)"

definition float_trunc :: "rat \<Rightarrow> int" where
  "float_trunc x = (if 0 \<le> x then \<lfloor>x\<rfloor> else \<lceil>x\<rceil>)"

text \<open>
  Truncating the float quotient of two moderate ints is exact integer division: a quotient that is
  not an integer stays far enough below the next one for the rounding not to reach it.
\<close>

lemma float_trunc_truediv:
  assumes m: "0 \<le> m" and t: "0 < t" and small: "m + t \<le> 2 ^ 52"
  shows "float_trunc (int_truediv m t) = m div t"
proof -
  let ?n = "m div t" and ?x = "of_int m / of_int t :: rat"
  define j where "j = ndigits 2 (t - 1)"
  have j: "t \<le> 2 ^ j" "2 ^ j < 2 * t"
  proof -
    show "t \<le> 2 ^ j" using ndigits_less [of 2 "t - 1"] t by (simp add: j_def)
    show "2 ^ j < 2 * t"
    proof (cases "t = 1")
      case False
      then have "2 ^ (j - 1) \<le> t - 1" "0 < j"
        using ndigits_ge [of 2 "t - 1"] ndigits_pos [of 2 "t - 1"] t by (simp_all add: j_def)
      then show ?thesis by (cases j) auto
    qed (simp add: j_def)
  qed
  have dm: "m = ?n * t + m mod t" by simp
  have n: "0 \<le> ?n" "?n * t \<le> m" "m < (?n + 1) * t"
  proof -
    show "0 \<le> ?n" using m t by (simp add: pos_imp_zdiv_nonneg_iff)
    show "?n * t \<le> m" using dm pos_mod_sign [OF t, of m] by linarith
    show "m < (?n + 1) * t" using dm pos_mod_bound [OF t, of m] by (simp only: distrib_right mult_1_left)
  qed
  have "?n \<le> m" using n t by (smt (verit) mult_le_cancel_left1)
  have low: "of_int ?n \<le> ?x" using n(2) t by (simp add: pos_le_divide_eq flip: of_int_mult)
  have fixn: "rnd53 (of_int ?n) = of_int ?n"
    unfolding rnd53_def by (rule rnd_sig_int) (use n \<open>?n \<le> m\<close> small t in auto)
  have ge: "of_int ?n \<le> rnd53 ?x" using flt.ge_fixed [OF low fixn] .
  let ?c = "(?n + 1) * 2 ^ j - 1"
  let ?r = "of_int ?c * of_int 2 powi (- int j) :: rat"
  have r: "?r = of_int ?n + 1 - 1 / 2 ^ j"
    by (simp add: power_int_minus field_simps)
  have "(?n + 1) * 2 ^ j \<le> (?n + 1) * (2 * t)" using j n by (intro mult_left_mono) auto
  also have "\<dots> \<le> 2 ^ 53" using n small by (simp add: algebra_simps)
  finally have c: "\<bar>?c\<bar> \<le> 2 ^ 53"
    using n mult_pos_pos [of "?n + 1" "2 ^ j"] by auto
  have fixr: "rnd53 ?r = ?r" unfolding rnd53_def by (rule rnd_sig_exact) (use c in auto)
  have below: "?x \<le> of_int ?n + 1 - 1 / of_int t"
  proof -
    have "of_int m \<le> (of_int ((?n + 1) * t - 1) :: rat)" using n by (simp only: of_int_le_iff)
    then have "?x \<le> of_int ((?n + 1) * t - 1) / of_int t" using t by (intro divide_right_mono) auto
    also have "\<dots> = of_int ?n + 1 - 1 / of_int t" using t by (simp add: field_simps)
    finally show ?thesis .
  qed
  have "of_int t \<le> (2 ^ j :: rat)"
    using j(1) by (metis of_int_le_iff of_int_numeral of_int_power)
  then have "1 / 2 ^ j \<le> (1 / of_int t :: rat)"
    using t by (intro divide_left_mono) auto
  with below have "?x \<le> ?r" unfolding r by linarith
  then have "rnd53 ?x \<le> ?r" using fixr by (rule flt.le_fixed)
  moreover have "0 < (1 / 2 ^ j :: rat)" by simp
  ultimately have "rnd53 ?x < of_int ?n + 1" unfolding r by linarith
  with ge have "\<lfloor>rnd53 ?x\<rfloor> = ?n" by linarith
  moreover have "0 \<le> rnd53 ?x" using ge n by (meson of_int_0_le_iff order_trans)
  ultimately show ?thesis by (simp add: float_trunc_def int_truediv_def)
qed

end
