(* ===== verification/Intents.thy ===== *)
theory Intents
  imports OIP_Decimal
begin

text \<open>
  \<^verbatim>\<open>oipulse/backtest/intents.py\<close> and \<^verbatim>\<open>oipulse/trading/intents.py\<close>: sides, order types, the
  single-leg intent a strategy returns, the multi-leg account-scoped intent, their validation,
  and the explicit conversion of the first into the second. Identity is content-addressed: the
  hash of the canonical rendering is the parameter \<open>digest\<close> of the functions that need it, and
  what it is applied to is spelled out. The free-text fields \<open>reason\<close>, \<open>rationale_ref\<close> and
  \<open>evidence_refs\<close> are kept, because identity excluding them is part of the contract.
\<close>

section \<open>Sides and order types\<close>

datatype side = BUY | SELL

definition side_sign :: "side \<Rightarrow> int" where
  "side_sign s = (if s = BUY then 1 else - 1)"

datatype order_type = MARKET | LIMIT

lemma side_sign_simps [simp]: "side_sign BUY = 1" "side_sign SELL = - 1"
  by (simp_all add: side_sign_def)

section \<open>The strategy's intent (backtest/intents.py)\<close>

datatype intent_error =
    NonPositiveQuantity | LimitWithoutPrice | MarketWithPrice | NonPositiveLimit
  | HorizonBeforeDecision | NoLegs | NoAccount | KnowledgeBeforeMarket | DecisionBeforeMarket
  | BornExpired

record strategy_intent =
  si_run_id :: string
  si_strategy_id :: string
  si_strategy_version :: int
  si_instrument_id :: int
  si_side :: side
  si_quantity :: int
  si_order_type :: order_type
  si_decision_time :: instant
  si_knowledge_horizon :: instant
  si_limit_price :: "decimal option"
  si_reason :: string
  si_evidence_refs :: "string list"

text \<open>\<open>__post_init__\<close>: the first violated condition, in the order of the code.\<close>

definition strategy_intent_check :: "strategy_intent \<Rightarrow> intent_error option" where
  "strategy_intent_check i =
     (if si_quantity i \<le> 0 then Some NonPositiveQuantity
      else if si_order_type i = LIMIT \<and> si_limit_price i = None then Some LimitWithoutPrice
      else if si_order_type i = MARKET \<and> si_limit_price i \<noteq> None then Some MarketWithPrice
      else if si_knowledge_horizon i < si_decision_time i then Some HorizonBeforeDecision
      else None)"

text \<open>What the identity of a strategy intent is computed from.\<close>

type_synonym strategy_content =
  "string \<times> string \<times> int \<times> int \<times> side \<times> int \<times> order_type \<times> instant \<times> instant \<times> decimal option"

definition strategy_intent_content :: "strategy_intent \<Rightarrow> strategy_content" where
  "strategy_intent_content i =
     (si_run_id i, si_strategy_id i, si_strategy_version i, si_instrument_id i, si_side i,
      si_quantity i, si_order_type i, si_decision_time i, si_knowledge_horizon i, si_limit_price i)"

definition strategy_intent_id :: "(strategy_content \<Rightarrow> string) \<Rightarrow> strategy_intent \<Rightarrow> string" where
  "strategy_intent_id digest i = ''ti_'' @ take 32 (digest (strategy_intent_content i))"

section \<open>The account-scoped intent (trading/intents.py)\<close>

datatype intent_source = STRATEGY | SIGNAL | MANUAL

datatype time_in_force = DAY | IOC

record intent_leg =
  leg_instrument_id :: int
  leg_side :: side
  leg_quantity :: int
  leg_order_type :: order_type
  leg_limit_price :: "decimal option"

definition leg_check :: "intent_leg \<Rightarrow> intent_error option" where
  "leg_check l =
     (if leg_quantity l \<le> 0 then Some NonPositiveQuantity
      else if leg_order_type l = LIMIT \<and> leg_limit_price l = None then Some LimitWithoutPrice
      else if leg_order_type l = MARKET \<and> leg_limit_price l \<noteq> None then Some MarketWithPrice
      else case leg_limit_price l of
             None \<Rightarrow> None
           | Some p \<Rightarrow> if p \<le> 0 then Some NonPositiveLimit else None)"

record intent_constraints =
  ic_max_slippage :: "decimal option"
  ic_valid_until :: "instant option"
  ic_all_or_none :: bool

definition no_constraints :: intent_constraints where
  "no_constraints = \<lparr>ic_max_slippage = None, ic_valid_until = None, ic_all_or_none = False\<rparr>"

record trade_intent =
  ti_account_id :: string
  ti_source :: intent_source
  ti_source_ref :: string
  ti_legs :: "intent_leg list"
  ti_market_time :: instant
  ti_knowledge_time :: instant
  ti_decision_time :: instant
  ti_time_in_force :: time_in_force
  ti_constraints :: intent_constraints
  ti_rationale_ref :: string
  ti_state_checkpoint_ref :: string
  ti_build_context_id :: string
  ti_signal_id :: string
  ti_signal_version :: int
  ti_strategy_id :: string
  ti_strategy_version :: int
  ti_client_order_intent_id :: string
  ti_reason :: string
  ti_evidence_refs :: "string list"

definition trade_intent_check :: "trade_intent \<Rightarrow> intent_error option" where
  "trade_intent_check i =
     (if ti_legs i = [] then Some NoLegs
      else if ti_account_id i = [] then Some NoAccount
      else if ti_knowledge_time i < ti_market_time i then Some KnowledgeBeforeMarket
      else if ti_decision_time i < ti_market_time i then Some DecisionBeforeMarket
      else case ic_valid_until (ti_constraints i) of
             None \<Rightarrow> None
           | Some t \<Rightarrow> if t < ti_decision_time i then Some BornExpired else None)"

text \<open>
  A well-formed intent is one the constructors accept: every leg passed its own check before
  the intent was built.
\<close>

definition trade_intent_ok :: "trade_intent \<Rightarrow> bool" where
  "trade_intent_ok i \<longleftrightarrow> trade_intent_check i = None \<and> (\<forall>l\<in>set (ti_legs i). leg_check l = None)"

text \<open>
  The content the digest covers: every semantic field, including the version tags of signal and
  strategy, excluding \<open>reason\<close>, \<open>evidence_refs\<close> and \<open>rationale_ref\<close>.
\<close>

type_synonym intent_content =
  "string \<times> intent_source \<times> string \<times> intent_leg list \<times> (instant \<times> instant \<times> instant)
   \<times> time_in_force \<times> intent_constraints \<times> string \<times> string \<times> (string \<times> int) \<times> (string \<times> int) \<times> string"

definition intent_content :: "trade_intent \<Rightarrow> intent_content" where
  "intent_content i =
     (ti_account_id i, ti_source i, ti_source_ref i, ti_legs i,
      (ti_market_time i, ti_knowledge_time i, ti_decision_time i),
      ti_time_in_force i, ti_constraints i, ti_state_checkpoint_ref i, ti_build_context_id i,
      (ti_signal_id i, ti_signal_version i), (ti_strategy_id i, ti_strategy_version i),
      ti_client_order_intent_id i)"

definition content_digest :: "(intent_content \<Rightarrow> string) \<Rightarrow> trade_intent \<Rightarrow> string" where
  "content_digest digest i = digest (intent_content i)"

definition intent_id :: "(intent_content \<Rightarrow> string) \<Rightarrow> trade_intent \<Rightarrow> string" where
  "intent_id digest i = ''int_'' @ take 32 (content_digest digest i)"

definition idempotency_key :: "(intent_content \<Rightarrow> string) \<Rightarrow> trade_intent \<Rightarrow> string" where
  "idempotency_key digest i =
     (if ti_client_order_intent_id i \<noteq> [] then ti_client_order_intent_id i else intent_id digest i)"

definition total_quantity :: "trade_intent \<Rightarrow> int" where
  "total_quantity i = sum_list (map leg_quantity (ti_legs i))"

definition is_multi_leg :: "trade_intent \<Rightarrow> bool" where
  "is_multi_leg i \<longleftrightarrow> 1 < length (ti_legs i)"

definition has_expired :: "trade_intent \<Rightarrow> instant \<Rightarrow> bool" where
  "has_expired i ts \<longleftrightarrow>
     (case ic_valid_until (ti_constraints i) of None \<Rightarrow> False | Some t \<Rightarrow> t < ts)"

text \<open>\<open>f"{strategy_id}@v{strategy_version}"\<close>\<close>

definition strategy_label :: "string \<Rightarrow> int \<Rightarrow> string" where
  "strategy_label name v = name @ ''@v'' @ str_int v"

text \<open>
  \<open>from_strategy_intent\<close>: build the leg, then the intent; either constructor may refuse.
\<close>

definition from_strategy_intent ::
  "strategy_intent \<Rightarrow> string \<Rightarrow> instant \<Rightarrow> string \<Rightarrow> string \<Rightarrow> string \<Rightarrow> int \<Rightarrow> string \<Rightarrow>
   time_in_force \<Rightarrow> duration option \<Rightarrow> intent_error + trade_intent" where
  "from_strategy_intent i account market_time checkpoint build_ctx signal signal_version rationale tif valid_for =
     (let leg = \<lparr>leg_instrument_id = si_instrument_id i, leg_side = si_side i,
                 leg_quantity = si_quantity i, leg_order_type = si_order_type i,
                 leg_limit_price = si_limit_price i\<rparr>;
          t = \<lparr>ti_account_id = account, ti_source = STRATEGY,
               ti_source_ref = strategy_label (si_strategy_id i) (si_strategy_version i),
               ti_legs = [leg],
               ti_market_time = market_time,
               ti_knowledge_time = si_knowledge_horizon i,
               ti_decision_time = si_decision_time i,
               ti_time_in_force = tif,
               ti_constraints = no_constraints\<lparr>ic_valid_until :=
                   (case valid_for of None \<Rightarrow> None | Some d \<Rightarrow> Some (si_decision_time i + d))\<rparr>,
               ti_rationale_ref = rationale,
               ti_state_checkpoint_ref = checkpoint,
               ti_build_context_id = build_ctx,
               ti_signal_id = signal, ti_signal_version = signal_version,
               ti_strategy_id = si_strategy_id i, ti_strategy_version = si_strategy_version i,
               ti_client_order_intent_id = [],
               ti_reason = si_reason i, ti_evidence_refs = si_evidence_refs i\<rparr>
      in case leg_check leg of
           Some e \<Rightarrow> Inl e
         | None \<Rightarrow> (case trade_intent_check t of Some e \<Rightarrow> Inl e | None \<Rightarrow> Inr t))"

section \<open>Facts about well-formed intents\<close>

lemma leg_ok_quantity_pos: "leg_check l = None \<Longrightarrow> 0 < leg_quantity l"
  by (auto simp: leg_check_def split: if_splits)

lemma leg_ok_limit_pos: "leg_check l = None \<Longrightarrow> leg_limit_price l = Some p \<Longrightarrow> 0 < dval p"
  by (auto simp: leg_check_def dec_le_iff split: if_splits option.splits)

lemma trade_intent_ok_legs: "trade_intent_ok i \<Longrightarrow> ti_legs i \<noteq> []"
  by (auto simp: trade_intent_ok_def trade_intent_check_def)

lemma trade_intent_ok_quantity: "trade_intent_ok i \<Longrightarrow> l \<in> set (ti_legs i) \<Longrightarrow> 0 < leg_quantity l"
  by (auto simp: trade_intent_ok_def leg_ok_quantity_pos)

lemma sum_list_ge_member:
  "(\<And>x. x \<in> set xs \<Longrightarrow> 0 \<le> f x) \<Longrightarrow> y \<in> set xs \<Longrightarrow> (f y :: int) \<le> sum_list (map f xs)"
proof (induction xs)
  case (Cons x xs)
  have "0 \<le> sum_list (map f xs)" using Cons.prems(1) by (intro sum_list_nonneg) auto
  with Cons show ?case by (cases "y = x") (auto simp: add_increasing)
qed simp

lemma total_quantity_ge_leg:
  "trade_intent_ok i \<Longrightarrow> l \<in> set (ti_legs i) \<Longrightarrow> leg_quantity l \<le> total_quantity i"
  unfolding total_quantity_def
  by (rule sum_list_ge_member) (auto dest: trade_intent_ok_quantity)

lemma total_quantity_pos: "trade_intent_ok i \<Longrightarrow> 0 < total_quantity i"
proof -
  assume ok: "trade_intent_ok i"
  then obtain l where l: "l \<in> set (ti_legs i)"
    using trade_intent_ok_legs by (metis list.set_sel(1))
  show ?thesis
    using total_quantity_ge_leg [OF ok l] trade_intent_ok_quantity [OF ok l] by linarith
qed

lemma no_constraints_simps [simp]:
  "ic_max_slippage no_constraints = None" "ic_valid_until no_constraints = None"
  "ic_all_or_none no_constraints = False"
  by (simp_all add: no_constraints_def)


end
