(* ===== verification/Orders.thy ===== *)
theory Orders
  imports Intents
begin

text \<open>
  \<^verbatim>\<open>oipulse/trading/orders.py\<close>: the order state machine and the event-sourced order aggregate.
  The transition table is a function from states to lists of states, the order is a record with
  every field of the class but \<open>reject_detail\<close> (free text), and every operation returns either
  the exception it raises or the new order. Free-text entries of event payloads are left out;
  the typed entries (quantity, price, reason, provider status) are kept.
\<close>

section \<open>Vocabularies\<close>

datatype execution_venue = PAPER_VENUE | BROKER_VENUE

datatype order_state =
    CREATED | SUBMITTING | SUBMITTED | ACCEPTED | OPEN | PARTIALLY_FILLED | FILLED
  | CANCEL_PENDING | CANCELLED | REJECTED | EXPIRED | UNKNOWN | PENDING_RECONCILIATION

datatype reject_reason =
    INSUFFICIENT_CASH | INVALID_QUANTITY | NO_PRICE_AVAILABLE | STALE_MARKET_STATE
  | ACCOUNT_NOT_ACTIVE | EXCEEDS_ORDER_LIMIT | SLIPPAGE_EXCEEDED | INTENT_EXPIRED
  | ALL_OR_NONE_UNFILLABLE | RISK_REJECTED | EXECUTION_REJECTED

definition all_order_states :: "order_state list" where
  "all_order_states =
     [CREATED, SUBMITTING, SUBMITTED, ACCEPTED, OPEN, PARTIALLY_FILLED, FILLED, CANCEL_PENDING,
      CANCELLED, REJECTED, EXPIRED, UNKNOWN, PENDING_RECONCILIATION]"

section \<open>The transition table\<close>

fun permitted_transitions :: "order_state \<Rightarrow> order_state list" where
  "permitted_transitions CREATED = [SUBMITTING, ACCEPTED, REJECTED]"
| "permitted_transitions SUBMITTING = [SUBMITTED, ACCEPTED, REJECTED, UNKNOWN]"
| "permitted_transitions SUBMITTED =
     [ACCEPTED, OPEN, PARTIALLY_FILLED, FILLED, CANCEL_PENDING, CANCELLED, REJECTED, EXPIRED, UNKNOWN]"
| "permitted_transitions ACCEPTED =
     [OPEN, PARTIALLY_FILLED, FILLED, CANCEL_PENDING, CANCELLED, REJECTED, EXPIRED, UNKNOWN]"
| "permitted_transitions OPEN =
     [PARTIALLY_FILLED, FILLED, CANCEL_PENDING, CANCELLED, EXPIRED, UNKNOWN]"
| "permitted_transitions PARTIALLY_FILLED =
     [PARTIALLY_FILLED, FILLED, CANCEL_PENDING, CANCELLED, EXPIRED, UNKNOWN]"
| "permitted_transitions CANCEL_PENDING = [PARTIALLY_FILLED, FILLED, CANCELLED, EXPIRED, UNKNOWN]"
| "permitted_transitions UNKNOWN = [PENDING_RECONCILIATION]"
| "permitted_transitions PENDING_RECONCILIATION =
     [ACCEPTED, OPEN, PARTIALLY_FILLED, FILLED, CANCELLED, REJECTED, EXPIRED, UNKNOWN]"
| "permitted_transitions FILLED = []"
| "permitted_transitions CANCELLED = []"
| "permitted_transitions REJECTED = []"
| "permitted_transitions EXPIRED = []"

definition is_terminal :: "order_state \<Rightarrow> bool" where
  "is_terminal s \<longleftrightarrow> s \<in> {FILLED, CANCELLED, REJECTED, EXPIRED}"

section \<open>The aggregate\<close>

datatype payload_value = PInt int | PDec decimal | PReason reject_reason | PText string

record order_event =
  oe_order_id :: string
  oe_sequence :: int
  oe_from_state :: "order_state option"
  oe_to_state :: order_state
  oe_occurred_at :: instant
  oe_trigger :: string
  oe_payload :: "(string \<times> payload_value) list"

text \<open>\<open>f"{order_id}:{sequence}"\<close>\<close>

definition event_key :: "order_event \<Rightarrow> string" where
  "event_key e = oe_order_id e @ '':'' @ str_int (oe_sequence e)"

record paper_order =
  po_order_id :: string
  po_account_id :: string
  po_intent_id :: string
  po_instrument_id :: int
  po_side :: side
  po_quantity :: int
  po_order_type :: order_type
  po_created_at :: instant
  po_limit_price :: "decimal option"
  po_state :: order_state
  po_filled_quantity :: int
  po_average_fill_price :: "decimal option"
  po_reject_reason :: "reject_reason option"
  po_events :: "order_event list"
  po_signal_id :: string
  po_signal_version :: int
  po_strategy_id :: string
  po_strategy_version :: int
  po_state_checkpoint_ref :: string
  po_build_context_id :: string
  po_knowledge_time :: "instant option"
  po_decision_time :: "instant option"
  po_config_digest :: string
  po_authorizing_risk_decision_id :: string
  po_authorizing_decision_sequence :: "int option"
  po_venue :: execution_venue
  po_client_order_attempt_id :: string
  po_provider_order_id :: "string option"
  po_provider_status :: "string option"
  po_provider_event_time :: "instant option"
  po_received_at :: "instant option"
  po_extras :: "(string \<times> string) list"

datatype order_error =
    InvalidTransition string order_state order_state
  | OrderValueError
  | MissingOrder string
  | LiveExecutionDisabled
  | BrokerTimeout

type_synonym 'a order_result = "order_error + 'a"

text \<open>\<open>__post_init__\<close>: what construction and every \<^verbatim>\<open>replace\<close> check.\<close>

definition order_ok :: "paper_order \<Rightarrow> bool" where
  "order_ok od \<longleftrightarrow>
     0 < po_quantity od
     \<and> 0 \<le> po_filled_quantity od \<and> po_filled_quantity od \<le> po_quantity od
     \<and> (po_authorizing_risk_decision_id od \<noteq> []) = (po_authorizing_decision_sequence od \<noteq> None)"

definition validated :: "paper_order \<Rightarrow> paper_order order_result" where
  "validated od = (if order_ok od then Inr od else Inl OrderValueError)"

definition remaining_quantity :: "paper_order \<Rightarrow> int" where
  "remaining_quantity od = po_quantity od - po_filled_quantity od"

definition is_authorized :: "paper_order \<Rightarrow> bool" where
  "is_authorized od \<longleftrightarrow>
     po_state od = REJECTED
     \<or> (po_authorizing_risk_decision_id od \<noteq> [] \<and> po_authorizing_decision_sequence od \<noteq> None)"

definition is_open :: "paper_order \<Rightarrow> bool" where
  "is_open od \<longleftrightarrow>
     po_state od \<in> {SUBMITTING, SUBMITTED, ACCEPTED, OPEN, PARTIALLY_FILLED, CANCEL_PENDING}"

definition is_unresolved :: "paper_order \<Rightarrow> bool" where
  "is_unresolved od \<longleftrightarrow> po_state od \<in> {UNKNOWN, PENDING_RECONCILIATION}"

definition next_sequence :: "paper_order \<Rightarrow> int" where
  "next_sequence od = int (length (po_events od)) + 1"

section \<open>Transitions\<close>

definition transition ::
  "paper_order \<Rightarrow> order_state \<Rightarrow> instant \<Rightarrow> string \<Rightarrow> (string \<times> payload_value) list \<Rightarrow> paper_order order_result" where
  "transition od target ts trigger payload =
     (if target \<notin> set (permitted_transitions (po_state od))
      then Inl (InvalidTransition (po_order_id od) (po_state od) target)
      else let event = \<lparr>oe_order_id = po_order_id od, oe_sequence = next_sequence od,
                        oe_from_state = Some (po_state od), oe_to_state = target,
                        oe_occurred_at = ts, oe_trigger = trigger, oe_payload = payload\<rparr>
           in Inr (od\<lparr>po_state := target, po_events := po_events od @ [event]\<rparr>))"

text \<open>\<open>self.average_fill_price or Decimal(0)\<close>\<close>

definition prior_average :: "paper_order \<Rightarrow> decimal" where
  "prior_average od =
     (case po_average_fill_price od of None \<Rightarrow> 0 | Some p \<Rightarrow> if dec_truthy p then p else 0)"

definition apply_fill ::
  "paper_order \<Rightarrow> int \<Rightarrow> decimal \<Rightarrow> instant \<Rightarrow> string \<Rightarrow> paper_order order_result" where
  "apply_fill od quantity price ts trigger =
     (if quantity \<le> 0 then Inl OrderValueError
      else if remaining_quantity od < quantity then Inl OrderValueError
      else let filled = po_filled_quantity od + quantity;
               prior_value = prior_average od * dec_int (po_filled_quantity od);
               average = dec_div (prior_value + price * dec_int quantity) (dec_int filled);
               target = (if filled = po_quantity od then FILLED else PARTIALLY_FILLED)
           in bind_result
                (transition od target ts trigger [(''quantity'', PInt quantity), (''price'', PDec price)])
                (\<lambda>moved. validated (moved\<lparr>po_filled_quantity := filled, po_average_fill_price := Some average\<rparr>)))"

definition reject :: "paper_order \<Rightarrow> reject_reason \<Rightarrow> instant \<Rightarrow> paper_order order_result" where
  "reject od reason ts =
     bind_result (transition od REJECTED ts ''reject'' [(''reason'', PReason reason)])
       (\<lambda>moved. Inr (moved\<lparr>po_reject_reason := Some reason\<rparr>))"

definition cancel :: "paper_order \<Rightarrow> instant \<Rightarrow> paper_order order_result" where
  "cancel od ts = transition od CANCELLED ts ''cancel'' []"

definition expire :: "paper_order \<Rightarrow> instant \<Rightarrow> paper_order order_result" where
  "expire od ts = transition od EXPIRED ts ''expire'' []"

text \<open>
  \<open>derive_id\<close>: the prefix and 32 hex digits of the hash of intent, leg and account.
\<close>

definition derive_order_id :: "(string \<times> int \<times> string \<Rightarrow> string) \<Rightarrow> string \<Rightarrow> int \<Rightarrow> string \<Rightarrow> string" where
  "derive_order_id digest intent leg account = ''ord_'' @ take 32 (digest (intent, leg, account))"

section \<open>Behaviour of the single operations\<close>

lemma all_order_states_complete: "s \<in> set all_order_states"
  by (cases s) (simp_all add: all_order_states_def)

lemma is_terminal_iff: "is_terminal s \<longleftrightarrow> permitted_transitions s = []"
  by (cases s) (simp_all add: is_terminal_def)

lemma is_terminal_simps [simp]:
  "is_terminal FILLED" "is_terminal CANCELLED" "is_terminal REJECTED" "is_terminal EXPIRED"
  "\<not> is_terminal CREATED" "\<not> is_terminal SUBMITTING" "\<not> is_terminal SUBMITTED"
  "\<not> is_terminal ACCEPTED" "\<not> is_terminal OPEN" "\<not> is_terminal PARTIALLY_FILLED"
  "\<not> is_terminal CANCEL_PENDING" "\<not> is_terminal UNKNOWN" "\<not> is_terminal PENDING_RECONCILIATION"
  by (simp_all add: is_terminal_def)

lemma transition_Inr_iff:
  "transition od target ts trigger payload = Inr od' \<longleftrightarrow>
     target \<in> set (permitted_transitions (po_state od))
     \<and> od' = od\<lparr>po_state := target,
                po_events := po_events od @
                  [\<lparr>oe_order_id = po_order_id od, oe_sequence = next_sequence od,
                    oe_from_state = Some (po_state od), oe_to_state = target,
                    oe_occurred_at = ts, oe_trigger = trigger, oe_payload = payload\<rparr>]\<rparr>"
  by (auto simp: transition_def Let_def)

lemma transition_Inl_iff:
  "transition od target ts trigger payload = Inl e \<longleftrightarrow>
     target \<notin> set (permitted_transitions (po_state od))
     \<and> e = InvalidTransition (po_order_id od) (po_state od) target"
  by (auto simp: transition_def Let_def)

lemma transition_not_terminal: "transition od target ts trigger payload = Inr od' \<Longrightarrow> \<not> is_terminal (po_state od)"
  by (auto simp: transition_Inr_iff is_terminal_iff)

lemma transition_fields:
  assumes "transition od target ts trigger payload = Inr od'"
  shows "po_state od' = target" and "po_order_id od' = po_order_id od"
    and "po_quantity od' = po_quantity od" and "po_filled_quantity od' = po_filled_quantity od"
    and "po_average_fill_price od' = po_average_fill_price od"
    and "po_instrument_id od' = po_instrument_id od" and "po_strategy_id od' = po_strategy_id od"
    and "po_intent_id od' = po_intent_id od" and "po_side od' = po_side od"
    and "po_provider_order_id od' = po_provider_order_id od"
    and "po_client_order_attempt_id od' = po_client_order_attempt_id od"
  using assms by (auto simp: transition_Inr_iff)

lemma order_ok_transition: "transition od target ts trigger payload = Inr od' \<Longrightarrow> order_ok od' = order_ok od"
  by (auto simp: transition_Inr_iff order_ok_def)

text \<open>
  The whole of \<open>apply_fill\<close> on a valid order: it raises exactly on a non-positive quantity, on
  an overfill, and where the table has no edge; the final validation never fails.
\<close>

lemma apply_fill_Inr_iff:
  assumes ok: "order_ok od"
  shows "apply_fill od q p ts trigger = Inr od' \<longleftrightarrow>
     0 < q \<and> q \<le> remaining_quantity od
     \<and> (\<exists>moved. transition od (if po_filled_quantity od + q = po_quantity od then FILLED else PARTIALLY_FILLED)
                  ts trigger [(''quantity'', PInt q), (''price'', PDec p)] = Inr moved
          \<and> od' = moved\<lparr>po_filled_quantity := po_filled_quantity od + q,
                        po_average_fill_price := Some (dec_div
                          (prior_average od * dec_int (po_filled_quantity od) + p * dec_int q)
                          (dec_int (po_filled_quantity od + q)))\<rparr>)"
  (is "?l = ?r")
proof
  assume ?l
  then show ?r
    by (auto simp: apply_fill_def Let_def bind_result_Inr_iff validated_def split: if_splits)
next
  assume r: ?r
  then obtain moved where m: "transition od (if po_filled_quantity od + q = po_quantity od then FILLED else PARTIALLY_FILLED)
      ts trigger [(''quantity'', PInt q), (''price'', PDec p)] = Inr moved" by blast
  have "order_ok (moved\<lparr>po_filled_quantity := po_filled_quantity od + q, po_average_fill_price := Some a\<rparr>)" for a
    using ok r order_ok_transition [OF m] transition_fields(3) [OF m]
    by (simp add: order_ok_def remaining_quantity_def)
  then show ?l using r m
    by (auto simp: apply_fill_def Let_def bind_result_Inr_iff validated_def)
qed

lemma order_ok_apply_fill: "order_ok od \<Longrightarrow> apply_fill od q p ts trigger = Inr od' \<Longrightarrow> order_ok od'"
  by (auto simp: apply_fill_def Let_def bind_result_Inr_iff validated_def split: if_splits)

lemma apply_fill_fields:
  assumes "order_ok od" "apply_fill od q p ts trigger = Inr od'"
  shows "po_filled_quantity od' = po_filled_quantity od + q" and "po_quantity od' = po_quantity od"
    and "po_order_id od' = po_order_id od" and "po_instrument_id od' = po_instrument_id od"
    and "po_strategy_id od' = po_strategy_id od"
    and "po_provider_order_id od' = po_provider_order_id od"
    and "po_client_order_attempt_id od' = po_client_order_attempt_id od"
    and "po_state od' = (if po_filled_quantity od' = po_quantity od' then FILLED else PARTIALLY_FILLED)"
  using assms by (auto simp: apply_fill_Inr_iff transition_Inr_iff)

lemma apply_fill_not_terminal:
  "order_ok od \<Longrightarrow> apply_fill od q p ts trigger = Inr od' \<Longrightarrow> \<not> is_terminal (po_state od)"
  by (auto simp: apply_fill_Inr_iff dest: transition_not_terminal)

lemma reject_Inr_iff:
  "reject od r ts = Inr od' \<longleftrightarrow>
     (\<exists>moved. transition od REJECTED ts ''reject'' [(''reason'', PReason r)] = Inr moved
        \<and> od' = moved\<lparr>po_reject_reason := Some r\<rparr>)"
  by (auto simp: reject_def bind_result_Inr_iff)

lemma order_ok_reject: "reject od r ts = Inr od' \<Longrightarrow> order_ok od' = order_ok od"
  by (auto simp: reject_Inr_iff order_ok_def dest!: order_ok_transition)

end
