(* ===== verification/State_Machine.thy ===== *)
theory State_Machine
  imports OIP_Prelude
begin

text \<open>
  The discipline every lifecycle of the code follows: a declared table of permitted transitions
  and a set of terminal states. \<open>legal_path\<close> is a run through a table; the locale collects what
  holds of every machine whose terminal states are exactly those without an edge.
\<close>

fun legal_path :: "('s \<Rightarrow> 's list) \<Rightarrow> 's \<Rightarrow> 's list \<Rightarrow> bool" where
  "legal_path permitted s [] \<longleftrightarrow> True"
| "legal_path permitted s (t # ts) \<longleftrightarrow> t \<in> set (permitted s) \<and> legal_path permitted t ts"

definition path_end :: "'s \<Rightarrow> 's list \<Rightarrow> 's" where
  "path_end s ts = last (s # ts)"

lemma path_end_Nil [simp]: "path_end s [] = s"
  by (simp add: path_end_def)

lemma path_end_Cons [simp]: "path_end s (t # ts) = path_end t ts"
  by (simp add: path_end_def)

lemma path_end_snoc [simp]: "path_end s (ts @ [t]) = t"
  by (simp add: path_end_def)

lemma legal_path_append:
  "legal_path P s (ts @ us) \<longleftrightarrow> legal_path P s ts \<and> legal_path P (path_end s ts) us"
  by (induction ts arbitrary: s) auto

text \<open>A set of states no edge leaves is never left.\<close>

lemma legal_path_closed:
  assumes "\<And>s t. s \<in> A \<Longrightarrow> t \<in> set (P s) \<Longrightarrow> t \<in> A"
  shows "s \<in> A \<Longrightarrow> legal_path P s ts \<Longrightarrow> set ts \<subseteq> A"
  using assms by (induction ts arbitrary: s) (simp, fastforce)

text \<open>If every edge into \<open>B\<close> starts in \<open>A\<close>, a path from outside that reaches \<open>B\<close> passes through \<open>A\<close>.\<close>

lemma legal_path_gate:
  assumes "\<And>s t. t \<in> set (P s) \<Longrightarrow> t \<in> B \<Longrightarrow> s \<in> A"
  shows "legal_path P s ts \<Longrightarrow> t \<in> set ts \<Longrightarrow> t \<in> B \<Longrightarrow> \<exists>a\<in>set (s # butlast ts). a \<in> A"
proof (induction ts arbitrary: s)
  case (Cons u us)
  show ?case
  proof (cases "t = u")
    case True
    then show ?thesis using Cons.prems assms by force
  next
    case False
    then have "\<exists>a\<in>set (u # butlast us). a \<in> A" "us \<noteq> []" using Cons by auto
    then show ?thesis by auto
  qed
qed simp

locale state_machine =
  fixes permitted :: "'s \<Rightarrow> 's list" and terminal :: "'s \<Rightarrow> bool"
  assumes terminal_iff: "terminal s \<longleftrightarrow> permitted s = []"
begin

lemma terminal_no_step: "terminal s \<Longrightarrow> t \<notin> set (permitted s)"
  by (simp add: terminal_iff)

lemma terminal_absorbing: "terminal s \<Longrightarrow> legal_path permitted s ts \<Longrightarrow> ts = []"
  by (cases ts) (auto dest: terminal_no_step)

text \<open>A terminal state can only be the last of a path.\<close>

lemma terminal_only_last:
  "legal_path permitted s (ts @ t # us) \<Longrightarrow> terminal t \<Longrightarrow> us = []"
  by (auto simp: legal_path_append dest: terminal_absorbing)

lemma progress: "\<not> terminal s \<Longrightarrow> \<exists>t. legal_path permitted s [t]"
  by (cases "permitted s") (auto simp: terminal_iff)

end

end
