(* ===== verification/Order_History.thy ===== *)
theory Order_History
  imports Orders State_Machine
begin

text \<open>
  The order aggregate is event-sourced: its history is the sequence of its events. This theory
  runs the operations of \<^verbatim>\<open>orders.py\<close> as a step relation, and proves by rule induction that
  the state, the filled quantity and the sequence numbers of every order that can arise are the
  ones its events tell, together with the path properties of the machine (no way back to
  submission, no way out of UNKNOWN but reconciliation, terminal states absorbing).
\<close>

interpretation order_machine: state_machine permitted_transitions is_terminal
  by unfold_locales (rule is_terminal_iff)

section \<open>The operations as a step relation\<close>

text \<open>No entry called \<open>quantity\<close>: the payloads of every transition but a fill.\<close>

definition no_quantity :: "(string \<times> payload_value) list \<Rightarrow> bool" where
  "no_quantity pl \<longleftrightarrow> ''quantity'' \<notin> fst ` set pl"

text \<open>The fields \<^verbatim>\<open>replace\<close> may change beside the methods: identities and provider evidence.\<close>

definition same_lifecycle :: "paper_order \<Rightarrow> paper_order \<Rightarrow> bool" where
  "same_lifecycle od od' \<longleftrightarrow>
     po_order_id od' = po_order_id od \<and> po_state od' = po_state od \<and> po_events od' = po_events od
     \<and> po_quantity od' = po_quantity od \<and> po_filled_quantity od' = po_filled_quantity od
     \<and> po_average_fill_price od' = po_average_fill_price od"

inductive order_step :: "paper_order \<Rightarrow> paper_order \<Rightarrow> bool" where
  step_move: "transition od target ts trigger pl = Inr od' \<Longrightarrow> no_quantity pl \<Longrightarrow> order_step od od'"
| step_fill: "apply_fill od q p ts trigger = Inr od' \<Longrightarrow> order_step od od'"
| step_reject: "reject od r ts = Inr od' \<Longrightarrow> order_step od od'"
| step_meta: "same_lifecycle od od' \<Longrightarrow> order_ok od' \<Longrightarrow> order_step od od'"

text \<open>A freshly constructed order: no event, nothing filled, state CREATED.\<close>

definition fresh_order :: "paper_order \<Rightarrow> bool" where
  "fresh_order od \<longleftrightarrow>
     order_ok od \<and> po_state od = CREATED \<and> po_events od = [] \<and> po_filled_quantity od = 0
     \<and> po_average_fill_price od = None"

inductive reachable_order :: "paper_order \<Rightarrow> bool" where
  reach_fresh: "fresh_order od \<Longrightarrow> reachable_order od"
| reach_step: "reachable_order od \<Longrightarrow> order_step od od' \<Longrightarrow> reachable_order od'"

inductive_cases order_stepE: "order_step od od'"

section \<open>What the events tell\<close>

definition states_of :: "order_event list \<Rightarrow> order_state list" where
  "states_of es = map oe_to_state es"

definition filled_of_event :: "order_event \<Rightarrow> int" where
  "filled_of_event e =
     (case map_of (oe_payload e) ''quantity'' of Some (PInt q) \<Rightarrow> q | _ \<Rightarrow> 0)"

definition filled_of :: "order_event list \<Rightarrow> int" where
  "filled_of es = sum_list (map filled_of_event es)"

text \<open>Every event leaves the state the one before it reached.\<close>

fun from_chain :: "order_state \<Rightarrow> order_event list \<Rightarrow> bool" where
  "from_chain s [] \<longleftrightarrow> True"
| "from_chain s (e # es) \<longleftrightarrow> oe_from_state e = Some s \<and> from_chain (oe_to_state e) es"

definition history_ok :: "paper_order \<Rightarrow> bool" where
  "history_ok od \<longleftrightarrow>
     order_ok od
     \<and> legal_path permitted_transitions CREATED (states_of (po_events od))
     \<and> po_state od = path_end CREATED (states_of (po_events od))
     \<and> from_chain CREATED (po_events od)
     \<and> map oe_sequence (po_events od) = map int [1..<length (po_events od) + 1]
     \<and> (\<forall>e\<in>set (po_events od). oe_order_id e = po_order_id od)
     \<and> filled_of (po_events od) = po_filled_quantity od"

lemma states_of_snoc [simp]: "states_of (es @ [e]) = states_of es @ [oe_to_state e]"
  by (simp add: states_of_def)

lemma filled_of_snoc [simp]: "filled_of (es @ [e]) = filled_of es + filled_of_event e"
  by (simp add: filled_of_def)

lemma from_chain_snoc:
  "from_chain s (es @ [e]) \<longleftrightarrow>
     from_chain s es \<and> oe_from_state e = Some (path_end s (states_of es))"
  by (induction es arbitrary: s) (auto simp: states_of_def)

lemma filled_of_no_quantity: "no_quantity (oe_payload e) \<Longrightarrow> filled_of_event e = 0"
proof -
  assume "no_quantity (oe_payload e)"
  then have "map_of (oe_payload e) ''quantity'' = None"
    by (simp add: no_quantity_def map_of_eq_None_iff)
  then show ?thesis by (simp add: filled_of_event_def)
qed

text \<open>Appending one event is the only thing an operation does to the history.\<close>

lemma history_ok_append:
  assumes "history_ok od" and "transition od target ts trigger pl = Inr moved"
    and "order_ok od'"
    and "po_events od' = po_events moved" "po_state od' = po_state moved" "po_order_id od' = po_order_id moved"
    and "po_filled_quantity od' = po_filled_quantity od + filled_of_event (last (po_events moved))"
  shows "history_ok od'"
  using assms
  by (auto simp: history_ok_def transition_Inr_iff legal_path_append from_chain_snoc next_sequence_def)

lemma history_ok_step: "order_step od od' \<Longrightarrow> history_ok od \<Longrightarrow> history_ok od'"
proof (induction rule: order_step.induct)
  case (step_move od target ts trigger pl od')
  then show ?case
    by (intro history_ok_append [OF step_move.prems step_move.hyps(1)])
      (auto simp: transition_Inr_iff filled_of_no_quantity history_ok_def order_ok_def)
next
  case (step_fill od q p ts trigger od')
  then have ok: "order_ok od" by (simp add: history_ok_def)
  from step_fill.hyps obtain moved where
    m: "transition od (if po_filled_quantity od + q = po_quantity od then FILLED else PARTIALLY_FILLED)
          ts trigger [(''quantity'', PInt q), (''price'', PDec p)] = Inr moved"
    and od': "\<exists>a. od' = moved\<lparr>po_filled_quantity := po_filled_quantity od + q, po_average_fill_price := a\<rparr>"
    by (auto simp: apply_fill_Inr_iff [OF ok])
  have "filled_of_event (last (po_events moved)) = q"
    using m by (auto simp: transition_Inr_iff filled_of_event_def)
  then show ?case using od' order_ok_apply_fill [OF ok step_fill.hyps]
    by (intro history_ok_append [OF step_fill.prems m]) auto
next
  case (step_reject od r ts od')
  then obtain moved where
    m: "transition od REJECTED ts ''reject'' [(''reason'', PReason r)] = Inr moved"
    and od': "od' = moved\<lparr>po_reject_reason := Some r\<rparr>"
    by (auto simp: reject_Inr_iff)
  have "filled_of_event (last (po_events moved)) = 0" "po_filled_quantity moved = po_filled_quantity od"
    using m by (auto simp: transition_Inr_iff filled_of_event_def)
  moreover have "order_ok od'" using step_reject by (simp add: order_ok_reject history_ok_def)
  ultimately show ?case using od'
    by (intro history_ok_append [OF step_reject.prems m]) auto
next
  case (step_meta od od')
  then show ?case by (auto simp: same_lifecycle_def history_ok_def)
qed

lemma history_ok_fresh: "fresh_order od \<Longrightarrow> history_ok od"
  by (simp add: fresh_order_def history_ok_def states_of_def filled_of_def)

lemma reachable_history_ok: "reachable_order od \<Longrightarrow> history_ok od"
  by (induction rule: reachable_order.induct) (auto intro: history_ok_fresh history_ok_step)

section \<open>Properties of the machine\<close>

lemma enters_SUBMITTING: "SUBMITTING \<in> set (permitted_transitions s) \<longleftrightarrow> s = CREATED"
  by (cases s) simp_all

lemma never_enters_CREATED: "CREATED \<notin> set (permitted_transitions s)"
  by (cases s) simp_all

lemma leaves_UNKNOWN: "t \<in> set (permitted_transitions UNKNOWN) \<longleftrightarrow> t = PENDING_RECONCILIATION"
  by simp

lemma legal_path_no_CREATED: "legal_path permitted_transitions s ts \<Longrightarrow> CREATED \<notin> set ts"
  by (induction ts arbitrary: s) (auto simp: never_enters_CREATED)

lemma legal_path_no_SUBMITTING:
  "legal_path permitted_transitions s ts \<Longrightarrow> s \<noteq> CREATED \<Longrightarrow> SUBMITTING \<notin> set ts"
proof (induction ts arbitrary: s)
  case (Cons t ts)
  then have "t \<noteq> SUBMITTING" by (auto simp: enters_SUBMITTING)
  moreover have "t \<noteq> CREATED" using Cons.prems(1) legal_path_no_CREATED by fastforce
  ultimately show ?case using Cons.IH [of t] Cons.prems by auto
qed simp

text \<open>
  An ambiguous order can never be submitted again. Whatever sequence of transitions the
  table permits from UNKNOWN, its first step is PENDING_RECONCILIATION and neither CREATED nor
  SUBMITTING occurs in it; and no path of any order enters SUBMITTING except as its very first
  step from CREATED.
\<close>

theorem never_resubmitted:
  assumes "legal_path permitted_transitions s ts"
  shows "(SUBMITTING \<in> set ts \<longrightarrow> s = CREATED \<and> hd ts = SUBMITTING \<and> SUBMITTING \<notin> set (tl ts))
    \<and> (s = UNKNOWN \<and> ts \<noteq> [] \<longrightarrow>
        hd ts = PENDING_RECONCILIATION \<and> SUBMITTING \<notin> set ts \<and> CREATED \<notin> set ts)"
proof (intro conjI impI)
  assume sub: "SUBMITTING \<in> set ts"
  then show "s = CREATED" using assms legal_path_no_SUBMITTING by blast
  from sub obtain t us where ts: "ts = t # us" by (cases ts) auto
  with assms have "SUBMITTING \<notin> set us"
    using legal_path_no_CREATED [OF assms] legal_path_no_SUBMITTING [of t us] by auto
  with sub ts show "hd ts = SUBMITTING" "SUBMITTING \<notin> set (tl ts)" by auto
next
  assume u: "s = UNKNOWN \<and> ts \<noteq> []"
  with assms show "hd ts = PENDING_RECONCILIATION" by (cases ts) auto
  from u show "SUBMITTING \<notin> set ts" "CREATED \<notin> set ts"
    using legal_path_no_SUBMITTING [OF assms] legal_path_no_CREATED [OF assms] by auto
qed

theorem never_resubmitted_witness:
  "legal_path permitted_transitions UNKNOWN [PENDING_RECONCILIATION, OPEN, FILLED]
   \<and> SUBMITTING \<notin> set [PENDING_RECONCILIATION, OPEN, FILLED]"
proof -
  have p: "legal_path permitted_transitions UNKNOWN [PENDING_RECONCILIATION, OPEN, FILLED]" by simp
  then show ?thesis using never_resubmitted [OF p] by simp
qed

text \<open>
  Claim C8: event sourcing. For every order that construction and the operations can produce, the
  order's state is where its recorded events lead from CREATED along permitted transitions, each
  event starts where the previous one ended, the sequence numbers are 1, 2, 3 and so on without a
  gap, every event carries the order's own id, the filled quantity is the sum of the quantities
  the fill events record, and it never exceeds the order's quantity.
\<close>

theorem order_history_sound:
  assumes "reachable_order od"
  shows "po_state od = path_end CREATED (states_of (po_events od))
    \<and> legal_path permitted_transitions CREATED (states_of (po_events od))
    \<and> from_chain CREATED (po_events od)
    \<and> map oe_sequence (po_events od) = map int [1..<length (po_events od) + 1]
    \<and> (\<forall>e\<in>set (po_events od). oe_order_id e = po_order_id od)
    \<and> po_filled_quantity od = filled_of (po_events od)
    \<and> 0 \<le> po_filled_quantity od \<and> po_filled_quantity od \<le> po_quantity od"
  using reachable_history_ok [OF assms] by (auto simp: history_ok_def order_ok_def)

text \<open>A small order used by the witnesses.\<close>

definition sample_order :: paper_order where
  "sample_order =
     \<lparr>po_order_id = ''ord_1'', po_account_id = ''acct'', po_intent_id = ''int_1'', po_instrument_id = 7,
      po_side = BUY, po_quantity = 5, po_order_type = MARKET, po_created_at = 0, po_limit_price = None,
      po_state = CREATED, po_filled_quantity = 0, po_average_fill_price = None, po_reject_reason = None,
      po_events = [], po_signal_id = [], po_signal_version = 0, po_strategy_id = ''s'',
      po_strategy_version = 1, po_state_checkpoint_ref = [], po_build_context_id = [],
      po_knowledge_time = None, po_decision_time = None, po_config_digest = [],
      po_authorizing_risk_decision_id = [], po_authorizing_decision_sequence = None,
      po_venue = PAPER_VENUE, po_client_order_attempt_id = [], po_provider_order_id = None,
      po_provider_status = None, po_provider_event_time = None, po_received_at = None, po_extras = []\<rparr>"

lemma sample_order_fresh: "fresh_order sample_order"
  by (simp add: fresh_order_def sample_order_def order_ok_def)

definition sample_accepted :: paper_order where
  "sample_accepted =
     (case transition sample_order ACCEPTED 1 ''paper_venue_accept'' [] of Inr od \<Rightarrow> od | Inl _ \<Rightarrow> sample_order)"

lemma sample_accepted_step: "transition sample_order ACCEPTED 1 ''paper_venue_accept'' [] = Inr sample_accepted"
  by (simp add: sample_accepted_def transition_def sample_order_def Let_def)

lemma sample_accepted_reachable: "reachable_order sample_accepted"
  using reach_step [OF reach_fresh [OF sample_order_fresh] step_move [OF sample_accepted_step]]
  by (simp add: no_quantity_def)

lemma sample_accepted_fields:
  "po_state sample_accepted = ACCEPTED" "po_quantity sample_accepted = 5"
  "po_filled_quantity sample_accepted = 0" "po_average_fill_price sample_accepted = None"
  "order_ok sample_accepted"
  by (simp_all add: sample_accepted_def transition_def sample_order_def order_ok_def Let_def)

theorem order_history_sound_witness:
  "reachable_order sample_accepted \<and> po_state sample_accepted = ACCEPTED
   \<and> po_filled_quantity sample_accepted = filled_of (po_events sample_accepted)"
  using order_history_sound [OF sample_accepted_reachable] sample_accepted_reachable
    sample_accepted_fields by simp

text \<open>
  Terminal orders are immutable. Once an order is FILLED, CANCELLED, REJECTED or
  EXPIRED, no sequence of operations changes its state, its history, its filled quantity or its
  average price; only identities and provider evidence can still be recorded on it.
\<close>

theorem terminal_order_immutable:
  assumes "order_step\<^sup>*\<^sup>* od od'" and "is_terminal (po_state od)"
  shows "same_lifecycle od od'"
  using assms
proof (induction rule: rtranclp_induct)
  case base
  then show ?case by (simp add: same_lifecycle_def)
next
  case (step y z)
  then have y: "same_lifecycle od y" "is_terminal (po_state y)"
    by (simp_all add: same_lifecycle_def)
  from step.hyps(2) have "same_lifecycle y z"
  proof (cases rule: order_step.cases)
    case (step_move target ts trigger pl)
    then show ?thesis using y(2) transition_not_terminal by blast
  next
    case (step_fill q p ts trigger)
    then show ?thesis using y(2)
      by (auto simp: apply_fill_def Let_def bind_result_Inr_iff split: if_splits
          dest: transition_not_terminal)
  next
    case (step_reject r ts)
    then show ?thesis using y(2) by (auto simp: reject_Inr_iff dest: transition_not_terminal)
  qed
  with y(1) show ?case by (simp add: same_lifecycle_def)
qed

definition sample_rejected :: paper_order where
  "sample_rejected = sample_order\<lparr>po_state := REJECTED\<rparr>"

theorem terminal_order_immutable_witness:
  "is_terminal (po_state sample_rejected)
   \<and> order_step\<^sup>*\<^sup>* sample_rejected (sample_rejected\<lparr>po_provider_status := Some ''REJECTED''\<rparr>)
   \<and> same_lifecycle sample_rejected (sample_rejected\<lparr>po_provider_status := Some ''REJECTED''\<rparr>)"
proof -
  let ?od = "sample_rejected" and ?od' = "sample_rejected\<lparr>po_provider_status := Some ''REJECTED''\<rparr>"
  have "order_step ?od ?od'"
    by (rule step_meta) (simp_all add: same_lifecycle_def order_ok_def sample_rejected_def sample_order_def)
  then have st: "order_step\<^sup>*\<^sup>* ?od ?od'" by blast
  moreover have t: "is_terminal (po_state ?od)" by (simp add: sample_rejected_def)
  ultimately show ?thesis using terminal_order_immutable [OF st t] by blast
qed

section \<open>Fills\<close>

text \<open>A run of fills on one order, stopping at the first one that raises.\<close>

fun apply_fills :: "paper_order \<Rightarrow> (int \<times> decimal \<times> instant) list \<Rightarrow> paper_order order_result" where
  "apply_fills od [] = Inr od"
| "apply_fills od ((q, p, ts) # fs) =
     bind_result (apply_fill od q p ts ''paper_fill'') (\<lambda>od'. apply_fills od' fs)"

lemma dval_prior_average: "dval (prior_average od) = (case po_average_fill_price od of None \<Rightarrow> 0 | Some p \<Rightarrow> dval p)"
  by (simp add: prior_average_def dec_truthy_def split: option.splits)

text \<open>The invariant of a run: the average price is between the bounds once anything is filled.\<close>

definition average_within :: "rat \<Rightarrow> rat \<Rightarrow> paper_order \<Rightarrow> bool" where
  "average_within lo hi od \<longleftrightarrow>
     (po_filled_quantity od \<noteq> 0 \<longrightarrow>
        (\<exists>a. po_average_fill_price od = Some a \<and> lo \<le> dval a \<and> dval a \<le> hi))"

lemma average_within_apply_fill:
  assumes ok: "order_ok od" and fill: "apply_fill od q p ts trigger = Inr od'"
    and avg: "average_within lo hi od" and p: "lo \<le> dval p" "dval p \<le> hi"
    and lo: "exact_upto k (po_quantity od) lo" and hi: "exact_upto k (po_quantity od) hi"
  shows "average_within lo hi od'"
proof -
  let ?f = "po_filled_quantity od" and ?a = "prior_average od"
  have q: "0 < q" "?f + q \<le> po_quantity od" and f: "0 \<le> ?f"
    using fill ok by (auto simp: apply_fill_Inr_iff remaining_quantity_def order_ok_def)
  have new: "po_average_fill_price od' = Some (dec_div (?a * dec_int ?f + p * dec_int q) (dec_int (?f + q)))"
    using fill by (auto simp: apply_fill_Inr_iff [OF ok])
  have a: "?f \<noteq> 0 \<Longrightarrow> lo \<le> dval ?a \<and> dval ?a \<le> hi"
    using avg by (auto simp: average_within_def dval_prior_average)
  show ?thesis
    using rounded_average_between [OF lo hi a p f q] by (simp add: average_within_def new)
qed

lemma apply_fills_run:
  assumes "order_ok od" "apply_fills od fs = Inr od'" "average_within lo hi od"
    and "\<forall>(q, p, ts)\<in>set fs. lo \<le> dval p \<and> dval p \<le> hi"
    and "exact_upto k (po_quantity od) lo" "exact_upto k (po_quantity od) hi"
  shows "average_within lo hi od' \<and> order_ok od' \<and> po_quantity od' = po_quantity od
    \<and> po_filled_quantity od' = po_filled_quantity od + sum_list (map fst fs)
    \<and> (fs \<noteq> [] \<longrightarrow> po_state od' = (if po_filled_quantity od' = po_quantity od' then FILLED else PARTIALLY_FILLED))"
  using assms
proof (induction fs arbitrary: od)
  case (Cons x fs)
  obtain q p ts where x: "x = (q, p, ts)" by (cases x)
  with Cons.prems(2) obtain od1 where 1: "apply_fill od q p ts ''paper_fill'' = Inr od1"
    and 2: "apply_fills od1 fs = Inr od'" by (auto simp: bind_result_Inr_iff)
  note flds = apply_fill_fields [OF Cons.prems(1) 1]
  have avg: "average_within lo hi od1"
    using Cons.prems x by (intro average_within_apply_fill [OF Cons.prems(1) 1 _ _ _ Cons.prems(5,6)]) auto
  have "order_ok od1" using order_ok_apply_fill [OF Cons.prems(1) 1] .
  then show ?case
    using Cons.IH [OF _ 2 avg] Cons.prems flds x 2 by (cases fs) auto
qed simp

lemma accepted_fills_positive:
  assumes "order_ok od" "apply_fills od fs = Inr od'"
  shows "\<forall>x\<in>set fs. 0 < fst x"
  using assms
proof (induction fs arbitrary: od)
  case (Cons y ys)
  obtain q p ts where y: "y = (q, p, ts)" by (cases y)
  with Cons.prems obtain od1 where 1: "apply_fill od q p ts ''paper_fill'' = Inr od1"
    and 2: "apply_fills od1 ys = Inr od'" by (auto simp: bind_result_Inr_iff)
  with Cons y show ?case
    using order_ok_apply_fill [OF Cons.prems(1) 1] by (auto simp: apply_fill_Inr_iff [OF Cons.prems(1)])
qed simp

text \<open>
  Any run of fills the order accepts fills it exactly by the sum of the fills, never
  beyond its quantity, leaves it FILLED exactly when nothing remains, and the recorded average
  price, although every product, sum and quotient behind it is rounded to 28 digits, lies between
  the lowest and the highest fill price. The bounds must be exact decimals on a price grid of
  \<open>k\<close> places that a 28-digit coefficient can hold at the order's quantity.
\<close>

theorem fills_are_accounted_for:
  assumes "order_ok od" "po_filled_quantity od = 0" "fs \<noteq> []"
    and "apply_fills od fs = Inr od'"
    and "\<forall>(q, p, ts)\<in>set fs. lo \<le> dval p \<and> dval p \<le> hi"
    and "exact_upto k (po_quantity od) lo" "exact_upto k (po_quantity od) hi"
  shows "po_filled_quantity od' = sum_list (map fst fs)
    \<and> sum_list (map fst fs) \<le> po_quantity od
    \<and> (po_state od' = FILLED \<longleftrightarrow> sum_list (map fst fs) = po_quantity od)
    \<and> (\<exists>a. po_average_fill_price od' = Some a \<and> lo \<le> dval a \<and> dval a \<le> hi)"
proof -
  have "average_within lo hi od" using assms(2) by (simp add: average_within_def)
  note run = apply_fills_run [OF assms(1,4) this assms(5-7)]
  have "0 < sum_list (map fst fs)"
    using accepted_fills_positive [OF assms(1,4)] assms(3) by (rule sum_list_fst_pos)
  then show ?thesis using run assms(2,3)
    by (auto simp: average_within_def order_ok_def)
qed

theorem fills_are_accounted_for_witness:
  "\<exists>od'. apply_fills sample_accepted [(3, Dec 10 0, 2), (2, Dec (41 / 2) (- 1), 3)] = Inr od'
     \<and> po_filled_quantity od' = 5 \<and> po_state od' = FILLED
     \<and> (\<exists>a. po_average_fill_price od' = Some a \<and> 10 \<le> dval a \<and> dval a \<le> 41 / 2)"
proof -
  let ?fs = "[(3 :: int, Dec 10 0, 2 :: int), (2, Dec (41 / 2) (- 1), 3)]"
  have "is_ok (apply_fills sample_accepted ?fs)" by code_simp
  then obtain od' where run: "apply_fills sample_accepted ?fs = Inr od'" by (auto simp: is_ok_iff)
  have lo: "exact_upto 1 (po_quantity sample_accepted) 10"
    and hi: "exact_upto 1 (po_quantity sample_accepted) (41 / 2)"
    by (simp_all add: exact_upto_def on_grid_def sample_accepted_fields)
  have b: "\<forall>(q, p, ts)\<in>set ?fs. 10 \<le> dval p \<and> dval p \<le> 41 / 2" by simp
  show ?thesis
    using fills_are_accounted_for [OF _ _ _ run b lo hi] run
    by (auto simp: sample_accepted_fields)
qed

end
