(* ===== verification/Risk_Inputs.thy ===== *)
theory Risk_Inputs
  imports Intents "HOL-Library.Product_Lexorder" "HOL-Library.Multiset"
begin

text \<open>
  \<^verbatim>\<open>oipulse/trading/risk/policy.py\<close> and \<^verbatim>\<open>oipulse/trading/risk/state.py\<close>: what an evaluation
  reads. The limits of a policy (\<open>None\<close> is "not configured"), and the risk state, an immutable
  value whose constructor sorts every collection so that its identity cannot depend on the order
  rows arrived in. \<open>as_of\<close> is the one datetime whose wall clock matters (the session window), so
  the state keeps its UTC offset beside the instant. SHA-256 of canonical JSON is the parameter
  \<open>digest\<close>, applied to the content spelled out here.
\<close>

section \<open>Policy (risk/policy.py)\<close>

datatype limit_category =
    POSITION_LIMIT | ORDER_LIMIT | CAPITAL_LIMIT | LOSS_LIMIT | EXPOSURE_LIMIT
  | CONCENTRATION_LIMIT | DATA_LIMIT | BROKER_LIMIT | SESSION_LIMIT | KILL_SWITCH_LIMIT

record session_window =
  sw_opens_at :: time_of_day
  sw_closes_at :: time_of_day
  sw_expiry_day_closes_at :: "time_of_day option"

definition window_contains :: "session_window \<Rightarrow> time_of_day \<Rightarrow> bool \<Rightarrow> bool" where
  "window_contains w candidate is_expiry_day =
     (let closes = (case sw_expiry_day_closes_at w of
                      Some c \<Rightarrow> if is_expiry_day then c else sw_closes_at w
                    | None \<Rightarrow> sw_closes_at w)
      in sw_opens_at w \<le> candidate \<and> candidate \<le> closes)"

record risk_limits =
  max_position_per_instrument :: "int option"
  max_position_per_underlying :: "int option"
  max_position_per_strategy :: "int option"
  max_order_quantity :: "int option"
  max_order_notional :: "decimal option"
  max_orders_per_interval :: "int option"
  orders_interval :: duration
  max_deployed_capital :: "decimal option"
  max_capital_utilisation :: "decimal option"
  max_leverage :: "decimal option"
  max_daily_loss :: "decimal option"
  max_drawdown :: "decimal option"
  max_loss_per_strategy :: "decimal option"
  max_net_delta :: "decimal option"
  max_gross_delta :: "decimal option"
  max_gross_gamma :: "decimal option"
  max_gross_vega :: "decimal option"
  max_gross_theta :: "decimal option"
  max_underlying_concentration :: "decimal option"
  max_expiry_concentration :: "decimal option"
  max_strike_concentration :: "decimal option"
  reject_unreliable_state :: bool
  max_state_staleness :: "duration option"
  min_state_coverage :: "decimal option"
  require_healthy_venue :: bool
  session :: "session_window option"

text \<open>The defaults of the class: nothing configured, the two switches on.\<close>

definition default_limits :: risk_limits where
  "default_limits = \<lparr>
     max_position_per_instrument = None, max_position_per_underlying = None,
     max_position_per_strategy = None, max_order_quantity = None, max_order_notional = None,
     max_orders_per_interval = None, orders_interval = 60 * 1000000,
     max_deployed_capital = None, max_capital_utilisation = None, max_leverage = None,
     max_daily_loss = None, max_drawdown = None, max_loss_per_strategy = None,
     max_net_delta = None, max_gross_delta = None, max_gross_gamma = None,
     max_gross_vega = None, max_gross_theta = None,
     max_underlying_concentration = None, max_expiry_concentration = None,
     max_strike_concentration = None,
     reject_unreliable_state = True, max_state_staleness = None, min_state_coverage = None,
     require_healthy_venue = True, session = None\<rparr>"

definition clock :: "int \<Rightarrow> int \<Rightarrow> time_of_day" where
  "clock h m = (h * 60 + m) * 60 * 1000000"

definition conservative_limits :: risk_limits where
  "conservative_limits = \<lparr>
     max_position_per_instrument = Some 500, max_position_per_underlying = Some 2000,
     max_position_per_strategy = Some 2000, max_order_quantity = Some 250,
     max_order_notional = Some (Dec 200000 0),
     max_orders_per_interval = Some 10, orders_interval = 60 * 1000000,
     max_deployed_capital = Some (Dec 500000 0), max_capital_utilisation = Some (Dec (1 / 2) (- 1)),
     max_leverage = Some (Dec 2 0),
     max_daily_loss = Some (Dec 25000 0), max_drawdown = Some (Dec 50000 0),
     max_loss_per_strategy = Some (Dec 25000 0),
     max_net_delta = Some (Dec 5000 0), max_gross_delta = Some (Dec 10000 0),
     max_gross_gamma = Some (Dec 500 0), max_gross_vega = Some (Dec 20000 0),
     max_gross_theta = Some (Dec 20000 0),
     max_underlying_concentration = Some (Dec (3 / 5) (- 1)),
     max_expiry_concentration = Some (Dec (4 / 5) (- 1)),
     max_strike_concentration = Some (Dec (2 / 5) (- 1)),
     reject_unreliable_state = True, max_state_staleness = Some (30 * 1000000),
     min_state_coverage = Some (Dec (9 / 10) (- 1)),
     require_healthy_venue = True,
     session = Some \<lparr>sw_opens_at = clock 9 15, sw_closes_at = clock 15 30,
                     sw_expiry_day_closes_at = Some (clock 15 30)\<rparr>\<rparr>"

text \<open>\<open>dict(pairs)\<close>: a later pair replaces the value of an earlier one.\<close>

definition dict_of :: "('k \<times> 'v) list \<Rightarrow> ('k, 'v) dict" where
  "dict_of ps = foldl (\<lambda>d (k, v). dict_set k v d) [] ps"

record risk_policy =
  pol_id :: string
  pol_version :: int
  pol_limits :: risk_limits
  pol_description :: string
  pol_scope :: "(string \<times> string) list"

datatype policy_error = PolicyWithoutIdentifier | PolicyVersionBelowOne

definition policy_check :: "risk_policy \<Rightarrow> policy_error option" where
  "policy_check p =
     (if pol_id p = [] then Some PolicyWithoutIdentifier
      else if pol_version p < 1 then Some PolicyVersionBelowOne
      else None)"

definition policy_label :: "risk_policy \<Rightarrow> string" where
  "policy_label p = pol_id p @ ''@v'' @ str_int (pol_version p)"

type_synonym policy_content =
  "string \<times> int \<times> string \<times> (string, string) dict \<times> risk_limits"

definition policy_digest :: "(policy_content \<Rightarrow> string) \<Rightarrow> risk_policy \<Rightarrow> string" where
  "policy_digest digest p =
     ''rpol_'' @ take 32 (digest (pol_id p, pol_version p, pol_description p,
                                 dict_of (sort (pol_scope p)), pol_limits p))"

section \<open>State (risk/state.py)\<close>

datatype venue_health = PAPER_SIMULATED | HEALTHY | DEGRADED | UNAVAILABLE | UNKNOWN_HEALTH

definition is_usable :: "venue_health \<Rightarrow> bool" where
  "is_usable h \<longleftrightarrow> h = PAPER_SIMULATED \<or> h = HEALTHY"

record position_snapshot =
  ps_instrument_id :: int
  ps_quantity :: int
  ps_average_price :: decimal
  ps_underlying_id :: "int option"
  ps_expiry_id :: "int option"
  ps_strike :: "decimal option"
  ps_mark :: "decimal option"

definition notional :: "position_snapshot \<Rightarrow> decimal option" where
  "notional p =
     (case ps_mark p of None \<Rightarrow> None | Some m \<Rightarrow> Some \<bar>m * dec_int (ps_quantity p)\<bar>)"

record exposure_snapshot =
  ex_gross_notional :: "decimal option"
  ex_net_notional :: "decimal option"
  ex_net_delta :: "decimal option"
  ex_gross_delta :: "decimal option"
  ex_gross_gamma :: "decimal option"
  ex_gross_vega :: "decimal option"
  ex_gross_theta :: "decimal option"
  ex_by_underlying :: "(int \<times> decimal) list"
  ex_by_expiry :: "(int \<times> decimal) list"
  ex_by_strike :: "(string \<times> decimal) list"

definition no_exposure :: exposure_snapshot where
  "no_exposure = \<lparr>ex_gross_notional = None, ex_net_notional = None, ex_net_delta = None,
     ex_gross_delta = None, ex_gross_gamma = None, ex_gross_vega = None, ex_gross_theta = None,
     ex_by_underlying = [], ex_by_expiry = [], ex_by_strike = []\<rparr>"

record state_quality =
  sq_status :: string
  sq_coverage_ratio :: "decimal option"
  sq_staleness :: "duration option"
  sq_market_state_ref :: string
  sq_build_context_id :: string

record kill_switch =
  ks_engaged :: bool
  ks_halted_strategies :: "string list"
  ks_reason :: string
  ks_engaged_at :: "instant option"

definition halts :: "kill_switch \<Rightarrow> string \<Rightarrow> bool" where
  "halts k strategy \<longleftrightarrow> ks_engaged k \<or> strategy \<in> set (ks_halted_strategies k)"

record risk_state =
  rs_account_id :: string
  rs_as_of :: instant
  rs_utc_offset :: duration
  rs_knowledge_time :: instant
  rs_cash :: decimal
  rs_equity :: decimal
  rs_positions :: "position_snapshot list"
  rs_exposure :: exposure_snapshot
  rs_quality :: state_quality
  rs_kill_switch :: kill_switch
  rs_reserved_cash :: decimal
  rs_realized_pnl :: decimal
  rs_unrealized_pnl :: decimal
  rs_daily_loss :: decimal
  rs_drawdown :: decimal
  rs_loss_by_strategy :: "(string \<times> decimal) list"
  rs_position_by_strategy :: "(string \<times> int) list"
  rs_instrument_underlying :: "(int \<times> int) list"
  rs_marks :: "(int \<times> decimal) list"
  rs_pending_intent_ids :: "string list"
  rs_orders_in_interval :: int
  rs_venue_health :: venue_health
  rs_is_expiry_day :: bool

text \<open>\<open>sorted\<close> of pairs whose second component is a Decimal: by key, then by numeric value.\<close>

definition sort_amounts :: "('k :: linorder \<times> decimal) list \<Rightarrow> ('k \<times> decimal) list" where
  "sort_amounts = sort_key (\<lambda>(k, v). (k, dval v))"

definition sorted_exposure :: "exposure_snapshot \<Rightarrow> exposure_snapshot" where
  "sorted_exposure x = x\<lparr>ex_by_underlying := sort_amounts (ex_by_underlying x),
                        ex_by_expiry := sort_amounts (ex_by_expiry x),
                        ex_by_strike := sort_amounts (ex_by_strike x)\<rparr>"

definition sorted_state :: "risk_state \<Rightarrow> risk_state" where
  "sorted_state s = s\<lparr>
     rs_positions := sort_key ps_instrument_id (rs_positions s),
     rs_loss_by_strategy := sort_amounts (rs_loss_by_strategy s),
     rs_position_by_strategy := sort (rs_position_by_strategy s),
     rs_pending_intent_ids := sort (rs_pending_intent_ids s),
     rs_marks := sort_amounts (rs_marks s),
     rs_instrument_underlying := sort (rs_instrument_underlying s),
     rs_kill_switch := (rs_kill_switch s)\<lparr>
        ks_halted_strategies := sort (ks_halted_strategies (rs_kill_switch s))\<rparr>,
     rs_exposure := sorted_exposure (rs_exposure s)\<rparr>"

datatype state_error = KnowledgeBeforeAsOf

text \<open>The constructor: \<open>__post_init__\<close> refuses a state that knows less than it describes, then sorts.\<close>

definition make_risk_state :: "risk_state \<Rightarrow> state_error + risk_state" where
  "make_risk_state s =
     (if rs_knowledge_time s < rs_as_of s then Inl KnowledgeBeforeAsOf else Inr (sorted_state s))"

subsection \<open>Queries\<close>

definition underlying_of :: "risk_state \<Rightarrow> int \<Rightarrow> int option" where
  "underlying_of s i = map_of (rs_instrument_underlying s) i"

definition mark_for :: "risk_state \<Rightarrow> int \<Rightarrow> decimal option" where
  "mark_for s i = map_of (rs_marks s) i"

definition position_in :: "risk_state \<Rightarrow> int \<Rightarrow> int" where
  "position_in s i =
     (case find (\<lambda>p. ps_instrument_id p = i) (rs_positions s) of
        Some p \<Rightarrow> ps_quantity p | None \<Rightarrow> 0)"

definition position_in_underlying :: "risk_state \<Rightarrow> int option \<Rightarrow> int option" where
  "position_in_underlying s u =
     (case u of
        None \<Rightarrow> None
      | Some u \<Rightarrow>
          if \<exists>p\<in>set (rs_positions s). ps_underlying_id p = None then None
          else Some (sum_list (map (\<lambda>p. \<bar>ps_quantity p\<bar>)
                 (filter (\<lambda>p. ps_underlying_id p = Some u) (rs_positions s)))))"

definition strategy_position :: "risk_state \<Rightarrow> string \<Rightarrow> int" where
  "strategy_position s k =
     (case map_of (rs_position_by_strategy s) k of Some q \<Rightarrow> q | None \<Rightarrow> 0)"

definition strategy_loss :: "risk_state \<Rightarrow> string \<Rightarrow> decimal option" where
  "strategy_loss s k = map_of (rs_loss_by_strategy s) k"

definition available_cash :: "risk_state \<Rightarrow> decimal" where
  "available_cash s = rs_cash s - rs_reserved_cash s"

definition deployed_capital :: "risk_state \<Rightarrow> decimal option" where
  "deployed_capital s = ex_gross_notional (rs_exposure s)"

text \<open>\<open>self.as_of.timetz().replace(tzinfo=None)\<close>: the wall clock of the state's own zone.\<close>

definition wall_clock :: "risk_state \<Rightarrow> time_of_day" where
  "wall_clock s = (rs_as_of s + rs_utc_offset s) mod (24 * 60 * 60 * 1000000)"

subsection \<open>Identity\<close>

text \<open>\<open>as_dict\<close>: the pair lists are rendered as dictionaries, every other field as it is.\<close>

definition state_content :: "risk_state \<Rightarrow> risk_state" where
  "state_content s = s\<lparr>
     rs_loss_by_strategy := dict_of (rs_loss_by_strategy s),
     rs_position_by_strategy := dict_of (rs_position_by_strategy s),
     rs_instrument_underlying := dict_of (rs_instrument_underlying s),
     rs_marks := dict_of (rs_marks s),
     rs_exposure := (rs_exposure s)\<lparr>
        ex_by_underlying := dict_of (ex_by_underlying (rs_exposure s)),
        ex_by_expiry := dict_of (ex_by_expiry (rs_exposure s)),
        ex_by_strike := dict_of (ex_by_strike (rs_exposure s))\<rparr>\<rparr>"

definition risk_state_ref :: "(risk_state \<Rightarrow> string) \<Rightarrow> risk_state \<Rightarrow> string" where
  "risk_state_ref digest s = ''rst_'' @ take 32 (digest (state_content s))"

section \<open>Aggregating exposure\<close>

text \<open>\<open>x or Decimal(0)\<close>\<close>

definition or_zero :: "decimal option \<Rightarrow> decimal" where
  "or_zero m = (case m of None \<Rightarrow> 0 | Some d \<Rightarrow> if dec_truthy d then d else 0)"

definition group_notional :: "(position_snapshot \<Rightarrow> 'k option) \<Rightarrow> position_snapshot list \<Rightarrow> ('k, decimal) dict" where
  "group_notional key ps =
     foldl (\<lambda>out p. case key p of
              None \<Rightarrow> out
            | Some b \<Rightarrow> dict_set b
                (case_option 0 id (dict_get out b) + or_zero (notional p)) out) [] ps"

text \<open>
  \<open>build_exposure\<close>; \<open>greeks\<close> is the supplied mapping, absent keys reading as \<open>None\<close>.
\<close>

definition greeks_only :: "(string \<Rightarrow> decimal option) \<Rightarrow> exposure_snapshot" where
  "greeks_only greeks = no_exposure\<lparr>
     ex_net_delta := greeks ''net_delta'', ex_gross_delta := greeks ''gross_delta'',
     ex_gross_gamma := greeks ''gross_gamma'', ex_gross_vega := greeks ''gross_vega'',
     ex_gross_theta := greeks ''gross_theta''\<rparr>"

definition build_exposure ::
  "position_snapshot list \<Rightarrow> (string \<Rightarrow> decimal option) \<Rightarrow> exposure_snapshot" where
  "build_exposure ps greeks =
     (if \<exists>p\<in>set ps. ps_mark p = None then greeks_only greeks
      else (greeks_only greeks)\<lparr>
        ex_gross_notional := Some (dec_sum (map (\<lambda>p. or_zero (notional p)) ps)),
        ex_net_notional := Some (dec_sum (map (\<lambda>p. or_zero (ps_mark p) * dec_int (ps_quantity p)) ps)),
        ex_by_underlying := sort_amounts (group_notional ps_underlying_id ps),
        ex_by_expiry := sort_amounts (group_notional ps_expiry_id ps),
        ex_by_strike := sort_amounts (group_notional (\<lambda>p. map_option dec_str (ps_strike p)) ps)\<rparr>)"

section \<open>Identity does not depend on row order\<close>

lemma sort_key_rows_eq:
  assumes "set xs = set ys" "distinct (map f xs)" "distinct (map f ys)"
  shows "sort_key f xs = sort_key f ys"
  using assms by (intro map_sorted_distinct_set_unique [of f]) (auto simp: distinct_map)

lemma sort_amounts_rows_eq:
  assumes "set xs = set ys" "distinct (map fst xs)" "distinct (map fst ys)"
  shows "sort_amounts xs = sort_amounts ys"
proof -
  have "distinct (map (\<lambda>(k, v). (k, dval v)) zs)" if "distinct (map fst zs)" for zs :: "('a \<times> decimal) list"
    using that eq_key_imp_eq_value [OF that]
    by (auto simp: distinct_map intro!: inj_onI)
  then show ?thesis using assms unfolding sort_amounts_def by (intro sort_key_rows_eq) auto
qed

lemma sort_rows_eq: "mset xs = mset ys \<Longrightarrow> sort xs = sort ys"
  by (metis mset_sort properties_for_sort sorted_sort)

text \<open>The rows of two states: the same collections in any order, everything else equal.\<close>

definition unordered :: "risk_state \<Rightarrow> risk_state" where
  "unordered s = s\<lparr>
     rs_positions := [], rs_loss_by_strategy := [], rs_position_by_strategy := [],
     rs_pending_intent_ids := [], rs_marks := [], rs_instrument_underlying := [],
     rs_kill_switch := (rs_kill_switch s)\<lparr>ks_halted_strategies := []\<rparr>,
     rs_exposure := (rs_exposure s)\<lparr>ex_by_underlying := [], ex_by_expiry := [], ex_by_strike := []\<rparr>\<rparr>"

definition same_rows :: "risk_state \<Rightarrow> risk_state \<Rightarrow> bool" where
  "same_rows s t \<longleftrightarrow>
     unordered s = unordered t
     \<and> mset (rs_positions s) = mset (rs_positions t)
     \<and> mset (rs_loss_by_strategy s) = mset (rs_loss_by_strategy t)
     \<and> mset (rs_position_by_strategy s) = mset (rs_position_by_strategy t)
     \<and> mset (rs_pending_intent_ids s) = mset (rs_pending_intent_ids t)
     \<and> mset (rs_marks s) = mset (rs_marks t)
     \<and> mset (rs_instrument_underlying s) = mset (rs_instrument_underlying t)
     \<and> mset (ks_halted_strategies (rs_kill_switch s)) = mset (ks_halted_strategies (rs_kill_switch t))
     \<and> mset (ex_by_underlying (rs_exposure s)) = mset (ex_by_underlying (rs_exposure t))
     \<and> mset (ex_by_expiry (rs_exposure s)) = mset (ex_by_expiry (rs_exposure t))
     \<and> mset (ex_by_strike (rs_exposure s)) = mset (ex_by_strike (rs_exposure t))"

text \<open>One row per instrument, strategy and bucket: what the tables behind the rows guarantee.\<close>

definition distinct_rows :: "risk_state \<Rightarrow> bool" where
  "distinct_rows s \<longleftrightarrow>
     distinct (map ps_instrument_id (rs_positions s)) \<and> dict_ok (rs_loss_by_strategy s)
     \<and> dict_ok (rs_marks s) \<and> dict_ok (ex_by_underlying (rs_exposure s))
     \<and> dict_ok (ex_by_expiry (rs_exposure s)) \<and> dict_ok (ex_by_strike (rs_exposure s))"

lemma mset_distinct_map: "mset xs = mset ys \<Longrightarrow> distinct (map f xs) \<Longrightarrow> distinct (map f ys)"
  by (metis mset_eq_imp_distinct_iff mset_map)

lemma amounts_rows: "mset xs = mset ys \<Longrightarrow> dict_ok xs \<Longrightarrow> sort_amounts xs = sort_amounts ys"
  unfolding dict_ok_def by (rule sort_amounts_rows_eq) (auto dest: mset_eq_setD mset_distinct_map)

lemma positions_rows:
  "mset xs = mset ys \<Longrightarrow> distinct (map ps_instrument_id xs)
   \<Longrightarrow> sort_key ps_instrument_id xs = sort_key ps_instrument_id ys"
  by (rule sort_key_rows_eq) (auto dest: mset_eq_setD mset_distinct_map)

lemma exposure_rows:
  assumes "x\<lparr>ex_by_underlying := [], ex_by_expiry := [], ex_by_strike := []\<rparr>
         = y\<lparr>ex_by_underlying := [], ex_by_expiry := [], ex_by_strike := []\<rparr>"
    and "mset (ex_by_underlying x) = mset (ex_by_underlying y)" "dict_ok (ex_by_underlying x)"
    and "mset (ex_by_expiry x) = mset (ex_by_expiry y)" "dict_ok (ex_by_expiry x)"
    and "mset (ex_by_strike x) = mset (ex_by_strike y)" "dict_ok (ex_by_strike x)"
  shows "sorted_exposure x = sorted_exposure y"
  using assms(1) amounts_rows [OF assms(2,3)] amounts_rows [OF assms(4,5)] amounts_rows [OF assms(6,7)]
  by (cases x; cases y) (simp add: sorted_exposure_def)

lemma switch_rows:
  "k\<lparr>ks_halted_strategies := []\<rparr> = l\<lparr>ks_halted_strategies := []\<rparr>
   \<Longrightarrow> mset (ks_halted_strategies k) = mset (ks_halted_strategies l)
   \<Longrightarrow> k\<lparr>ks_halted_strategies := sort (ks_halted_strategies k)\<rparr>
     = l\<lparr>ks_halted_strategies := sort (ks_halted_strategies l)\<rparr>"
  by (cases k; cases l) (auto dest: sort_rows_eq)

lemma unordered_fields:
  assumes "unordered s = unordered t"
  shows "rs_account_id s = rs_account_id t"
    and "rs_as_of s = rs_as_of t"
    and "rs_utc_offset s = rs_utc_offset t"
    and "rs_knowledge_time s = rs_knowledge_time t"
    and "rs_cash s = rs_cash t"
    and "rs_equity s = rs_equity t"
    and "rs_quality s = rs_quality t"
    and "rs_reserved_cash s = rs_reserved_cash t"
    and "rs_realized_pnl s = rs_realized_pnl t"
    and "rs_unrealized_pnl s = rs_unrealized_pnl t"
    and "rs_daily_loss s = rs_daily_loss t"
    and "rs_drawdown s = rs_drawdown t"
    and "rs_orders_in_interval s = rs_orders_in_interval t"
    and "rs_venue_health s = rs_venue_health t"
    and "rs_is_expiry_day s = rs_is_expiry_day t"
    and "(rs_kill_switch s)\<lparr>ks_halted_strategies := []\<rparr> = (rs_kill_switch t)\<lparr>ks_halted_strategies := []\<rparr>"
    and "(rs_exposure s)\<lparr>ex_by_underlying := [], ex_by_expiry := [], ex_by_strike := []\<rparr>
       = (rs_exposure t)\<lparr>ex_by_underlying := [], ex_by_expiry := [], ex_by_strike := []\<rparr>"
  using arg_cong [OF assms, of rs_account_id]
    arg_cong [OF assms, of rs_as_of]
    arg_cong [OF assms, of rs_utc_offset]
    arg_cong [OF assms, of rs_knowledge_time]
    arg_cong [OF assms, of rs_cash]
    arg_cong [OF assms, of rs_equity]
    arg_cong [OF assms, of rs_quality]
    arg_cong [OF assms, of rs_reserved_cash]
    arg_cong [OF assms, of rs_realized_pnl]
    arg_cong [OF assms, of rs_unrealized_pnl]
    arg_cong [OF assms, of rs_daily_loss]
    arg_cong [OF assms, of rs_drawdown]
    arg_cong [OF assms, of rs_orders_in_interval]
    arg_cong [OF assms, of rs_venue_health]
    arg_cong [OF assms, of rs_is_expiry_day]
    arg_cong [OF assms, of rs_kill_switch]
    arg_cong [OF assms, of rs_exposure]
  by (simp_all add: unordered_def)

text \<open>
  Whichever order the rows arrive in, the constructor either refuses both states or
  builds the very same state from both, and so the reference recorded on every decision is the
  same, for any digest.
\<close>

theorem risk_state_row_order:
  assumes "same_rows s t" "distinct_rows s"
  shows "make_risk_state s = make_risk_state t
    \<and> risk_state_ref digest (sorted_state s) = risk_state_ref digest (sorted_state t)"
proof -
  have u: "unordered s = unordered t" using assms(1) by (simp add: same_rows_def)
  note f = unordered_fields [OF u]
  have "sorted_exposure (rs_exposure s) = sorted_exposure (rs_exposure t)"
    using assms unfolding same_rows_def distinct_rows_def by (intro exposure_rows [OF f(17)]) simp_all
  moreover have "(rs_kill_switch s)\<lparr>ks_halted_strategies := sort (ks_halted_strategies (rs_kill_switch s))\<rparr>
       = (rs_kill_switch t)\<lparr>ks_halted_strategies := sort (ks_halted_strategies (rs_kill_switch t))\<rparr>"
    using assms(1) unfolding same_rows_def by (intro switch_rows [OF f(16)]) simp
  moreover have "sort_key ps_instrument_id (rs_positions s) = sort_key ps_instrument_id (rs_positions t)"
      "sort_amounts (rs_loss_by_strategy s) = sort_amounts (rs_loss_by_strategy t)"
      "sort_amounts (rs_marks s) = sort_amounts (rs_marks t)"
      "sort (rs_position_by_strategy s) = sort (rs_position_by_strategy t)"
      "sort (rs_pending_intent_ids s) = sort (rs_pending_intent_ids t)"
      "sort (rs_instrument_underlying s) = sort (rs_instrument_underlying t)"
    using assms unfolding same_rows_def distinct_rows_def
    by (blast intro: positions_rows amounts_rows sort_rows_eq)+
  ultimately have "sorted_state s = sorted_state t"
    unfolding sorted_state_def by (intro risk_state.equality) (simp_all add: f)
  then show ?thesis using f by (simp add: make_risk_state_def)
qed

text \<open>A state with two positions and two marks, and the same rows in another order.\<close>

definition sample_position :: "int \<Rightarrow> int \<Rightarrow> position_snapshot" where
  "sample_position i q = \<lparr>ps_instrument_id = i, ps_quantity = q, ps_average_price = Dec 100 0,
     ps_underlying_id = Some 1, ps_expiry_id = None, ps_strike = None, ps_mark = Some (Dec 100 0)\<rparr>"

definition sample_state :: risk_state where
  "sample_state = \<lparr>rs_account_id = ''acc'', rs_as_of = clock 10 0, rs_utc_offset = 0,
     rs_knowledge_time = clock 10 0, rs_cash = Dec 500000 0, rs_equity = Dec 500000 0,
     rs_positions = [sample_position 7 10, sample_position 8 20],
     rs_exposure = no_exposure\<lparr>ex_gross_notional := Some (Dec 3000 0),
        ex_net_delta := Some (Dec 10 0), ex_gross_delta := Some (Dec 10 0),
        ex_gross_gamma := Some (Dec 10 0), ex_gross_vega := Some (Dec 10 0),
        ex_gross_theta := Some (Dec 10 0),
        ex_by_underlying := [(1, Dec 1500 0), (2, Dec 1500 0)],
        ex_by_expiry := [(1, Dec 1500 0), (2, Dec 1500 0)],
        ex_by_strike := [(''90'', Dec 1000 0), (''95'', Dec 1000 0), (''99'', Dec 1000 0)]\<rparr>,
     rs_quality = \<lparr>sq_status = ''GOOD'', sq_coverage_ratio = Some (Dec 1 0), sq_staleness = Some 1000000,
        sq_market_state_ref = ''ms'', sq_build_context_id = ''bc''\<rparr>,
     rs_kill_switch = \<lparr>ks_engaged = False, ks_halted_strategies = [], ks_reason = [], ks_engaged_at = None\<rparr>,
     rs_reserved_cash = 0, rs_realized_pnl = 0, rs_unrealized_pnl = 0, rs_daily_loss = 0, rs_drawdown = 0,
     rs_loss_by_strategy = [], rs_position_by_strategy = [(''mom'', 30)],
     rs_instrument_underlying = [(7, 1), (8, 1)], rs_marks = [(7, Dec 100 0), (8, Dec 100 0)],
     rs_pending_intent_ids = [], rs_orders_in_interval = 0, rs_venue_health = PAPER_SIMULATED,
     rs_is_expiry_day = False\<rparr>"

theorem risk_state_row_order_witness:
  "make_risk_state (sample_state\<lparr>rs_positions := [sample_position 8 20, sample_position 7 10],
      rs_marks := [(8, Dec 100 0), (7, Dec 100 0)]\<rparr>) = make_risk_state sample_state"
  by (rule risk_state_row_order [THEN conjunct1])
    (simp_all add: same_rows_def distinct_rows_def unordered_def sample_state_def sample_position_def
      no_exposure_def dict_ok_def)

end
