(* ===== verification/Risk_Decision.thy ===== *)
theory Risk_Decision
  imports Risk_Inputs
begin

text \<open>
  \<^verbatim>\<open>oipulse/trading/risk/decision.py\<close>: the evidence of one limit and the decision record. The
  class renders thresholds and observations as strings; the model keeps them typed
  (\<open>evidence\<close>), because \<open>_resize\<close> reads them back as decimals. The prose fields \<open>reason\<close> and
  \<open>detail\<close> and the unused \<open>extras\<close> are left out.
\<close>

section \<open>Vocabularies and evidence\<close>

datatype risk_verdict = APPROVED | REJECTED_BY_RISK | MODIFIED

datatype limit_status = PASSED | BREACHED | NOT_CONFIGURED | NOT_EVALUABLE

definition blocks :: "limit_status \<Rightarrow> bool" where
  "blocks s \<longleftrightarrow> s = BREACHED"

datatype authorization_reading =
  AS_UNEVALUATED | AS_APPROVED | AS_MODIFIED | AS_REJECTED | AS_EXPIRED

text \<open>
  A rendered value: a number (\<open>decimal_str\<close> of an int or a Decimal), a float of seconds, a
  datetime, a wall-clock time or window, or a word.
\<close>

datatype evidence =
    Num decimal | Seconds duration | Moment instant | Wall time_of_day
  | Window time_of_day time_of_day | Word string

record limit_evaluation =
  le_category :: limit_category
  le_limit_id :: string
  le_status :: limit_status
  le_limit_value :: "evidence option"
  le_observed_value :: "evidence option"
  le_headroom :: "evidence option"

section \<open>The decision\<close>

record risk_decision =
  rd_intent_id :: string
  rd_sequence_no :: int
  rd_verdict :: risk_verdict
  rd_evaluated :: bool
  rd_risk_state_ref :: string
  rd_risk_evaluation_time :: "instant option"
  rd_inputs_digest :: string
  rd_approved_until :: "instant option"
  rd_policy_id :: string
  rd_policy_version :: int
  rd_policy_digest :: string
  rd_requested_quantity :: int
  rd_approved_quantity :: int
  rd_approved_legs :: "(int \<times> int) list"
  rd_limits_evaluated :: "limit_evaluation list"
  rd_knowledge_horizon :: "instant option"

datatype decision_error =
    SequenceBelowOne | DecisionWithoutIntent | NegativeApproval | ApprovalEnlarges
  | ApprovalWithoutHorizon | RejectionWithQuantity

text \<open>\<open>__post_init__\<close>: the first violated condition; the accepted record has its legs sorted.\<close>

definition decision_check :: "risk_decision \<Rightarrow> decision_error option" where
  "decision_check d =
     (if rd_sequence_no d < 1 then Some SequenceBelowOne
      else if rd_intent_id d = [] then Some DecisionWithoutIntent
      else if rd_approved_quantity d < 0 then Some NegativeApproval
      else if rd_requested_quantity d < rd_approved_quantity d then Some ApprovalEnlarges
      else if rd_verdict d = APPROVED \<and> rd_approved_until d = None then Some ApprovalWithoutHorizon
      else if rd_verdict d = REJECTED_BY_RISK \<and> rd_approved_quantity d \<noteq> 0 then Some RejectionWithQuantity
      else None)"

definition make_decision :: "risk_decision \<Rightarrow> decision_error + risk_decision" where
  "make_decision d =
     (case decision_check d of
        Some e \<Rightarrow> Inl e
      | None \<Rightarrow> Inr (d\<lparr>rd_approved_legs := sort (rd_approved_legs d)\<rparr>))"

definition is_approved :: "risk_decision \<Rightarrow> bool" where
  "is_approved d \<longleftrightarrow> rd_verdict d \<in> {APPROVED, MODIFIED}"

definition is_actionable_at :: "risk_decision \<Rightarrow> instant \<Rightarrow> bool" where
  "is_actionable_at d ts \<longleftrightarrow>
     (if \<not> is_approved d \<or> \<not> rd_evaluated d then False
      else if rd_approved_quantity d \<le> 0 then False
      else case rd_approved_until d of None \<Rightarrow> True | Some u \<Rightarrow> ts \<le> u)"

definition authorizes :: "risk_decision \<Rightarrow> string \<Rightarrow> instant \<Rightarrow> bool" where
  "authorizes d intent ts \<longleftrightarrow> intent = rd_intent_id d \<and> is_actionable_at d ts"

definition authorization_status :: "risk_decision \<Rightarrow> instant \<Rightarrow> authorization_reading" where
  "authorization_status d ts =
     (if \<not> rd_evaluated d then AS_UNEVALUATED
      else if rd_verdict d = REJECTED_BY_RISK then AS_REJECTED
      else if \<not> is_actionable_at d ts then AS_EXPIRED
      else if rd_verdict d = MODIFIED then AS_MODIFIED
      else AS_APPROVED)"

definition breaches :: "risk_decision \<Rightarrow> limit_evaluation list" where
  "breaches d = filter (\<lambda>e. blocks (le_status e)) (rd_limits_evaluated d)"

definition unevaluable :: "risk_decision \<Rightarrow> limit_evaluation list" where
  "unevaluable d = filter (\<lambda>e. le_status e = NOT_EVALUABLE) (rd_limits_evaluated d)"

section \<open>Identity\<close>

text \<open>
  The hash functions of the layer: SHA-256 of the canonical JSON of each kind of content, and of
  the \<open>intent:sequence\<close> string.
\<close>

type_synonym decision_content =
  "(string \<times> int \<times> risk_verdict \<times> bool) \<times> (string \<times> string \<times> string)
   \<times> (int \<times> int \<times> (int \<times> int) list) \<times> limit_evaluation list"

record hashes =
  h_intent :: "intent_content \<Rightarrow> string"
  h_policy :: "policy_content \<Rightarrow> string"
  h_state :: "risk_state \<Rightarrow> string"
  h_inputs :: "string \<times> string \<times> string \<Rightarrow> string"
  h_text :: "string \<Rightarrow> string"
  h_decision :: "decision_content \<Rightarrow> string"

definition risk_decision_id :: "hashes \<Rightarrow> risk_decision \<Rightarrow> string" where
  "risk_decision_id h d =
     ''rdec_'' @ take 32 (h_text h (rd_intent_id d @ '':'' @ str_int (rd_sequence_no d)))"

definition decision_content :: "risk_decision \<Rightarrow> decision_content" where
  "decision_content d =
     ((rd_intent_id d, rd_sequence_no d, rd_verdict d, rd_evaluated d),
      (rd_risk_state_ref d, rd_inputs_digest d, rd_policy_digest d),
      (rd_requested_quantity d, rd_approved_quantity d, rd_approved_legs d),
      rd_limits_evaluated d)"

definition decision_digest :: "hashes \<Rightarrow> risk_decision \<Rightarrow> string" where
  "decision_digest h d = take 32 (h_decision h (decision_content d))"

definition inputs_digest_for :: "hashes \<Rightarrow> string \<Rightarrow> string \<Rightarrow> string \<Rightarrow> string" where
  "inputs_digest_for h intent_digest pol_digest state_ref =
     ''rin_'' @ take 32 (h_inputs h (intent_digest, pol_digest, state_ref))"

section \<open>Facts\<close>

lemma make_decision_Inr_iff:
  "make_decision d = Inr d' \<longleftrightarrow>
     decision_check d = None \<and> d' = d\<lparr>rd_approved_legs := sort (rd_approved_legs d)\<rparr>"
  by (auto simp: make_decision_def split: option.splits)

lemma actionable_facts:
  assumes "is_actionable_at d ts"
  shows "rd_evaluated d" and "is_approved d" and "0 < rd_approved_quantity d"
    and "rd_approved_until d = Some u \<Longrightarrow> ts \<le> u"
  using assms by (auto simp: is_actionable_at_def split: if_splits option.splits)

lemma actionable_verdict: "is_actionable_at d ts \<Longrightarrow> rd_verdict d \<noteq> REJECTED_BY_RISK"
  using actionable_facts(2) [of d ts] by (auto simp: is_approved_def)

text \<open>An approval, once it has lapsed, does not come back.\<close>

lemma actionable_antimono: "is_actionable_at d ts \<Longrightarrow> us \<le> ts \<Longrightarrow> is_actionable_at d us"
  by (auto simp: is_actionable_at_def split: if_splits option.splits)

text \<open>
  The status shown to a reader and the authority a decision carries agree: a decision
  reads APPROVED or MODIFIED at a time exactly when it is actionable then, and an approval that
  has lapsed never becomes actionable again.
\<close>

theorem status_agrees_with_authority:
  "(is_actionable_at d ts \<longleftrightarrow> authorization_status d ts \<in> {AS_APPROVED, AS_MODIFIED})
   \<and> (authorization_status d ts = AS_EXPIRED \<longrightarrow> ts \<le> us \<longrightarrow> authorization_status d us = AS_EXPIRED)"
  by (auto simp: authorization_status_def dest: actionable_facts(1) actionable_verdict actionable_antimono
      split: if_splits)

definition sample_decision :: risk_decision where
  "sample_decision = \<lparr>rd_intent_id = ''int_1'', rd_sequence_no = 1, rd_verdict = APPROVED,
     rd_evaluated = True, rd_risk_state_ref = ''rst_1'', rd_risk_evaluation_time = Some 100,
     rd_inputs_digest = ''rin_1'', rd_approved_until = Some 130, rd_policy_id = ''p'',
     rd_policy_version = 1, rd_policy_digest = ''rpol_1'', rd_requested_quantity = 5,
     rd_approved_quantity = 5, rd_approved_legs = [(0, 5)], rd_limits_evaluated = [],
     rd_knowledge_horizon = Some 100\<rparr>"

theorem status_agrees_with_authority_witness:
  "is_actionable_at sample_decision 130 \<and> authorization_status sample_decision 131 = AS_EXPIRED
   \<and> authorization_status sample_decision 200 = AS_EXPIRED"
proof -
  have e: "authorization_status sample_decision 131 = AS_EXPIRED" by code_simp
  have a: "authorization_status sample_decision 130 = AS_APPROVED" by code_simp
  show ?thesis
    using status_agrees_with_authority [of sample_decision 131 200]
      status_agrees_with_authority [of sample_decision 130 200] e a by simp
qed

end
