(* ===== verification/Risk_Limits.thy ===== *)
theory Risk_Limits
  imports Risk_Decision
begin

text \<open>
  \<^verbatim>\<open>oipulse/trading/risk/limits.py\<close>: the twenty-seven checks, each a pure function of intent,
  state and limits that returns one evaluation, and the fixed order in which all of them run.
\<close>

section \<open>Shared shapes\<close>

definition not_configured :: "limit_category \<Rightarrow> string \<Rightarrow> limit_evaluation" where
  "not_configured c i = \<lparr>le_category = c, le_limit_id = i, le_status = NOT_CONFIGURED,
     le_limit_value = None, le_observed_value = None, le_headroom = None\<rparr>"

definition not_evaluable :: "limit_category \<Rightarrow> string \<Rightarrow> evidence \<Rightarrow> limit_evaluation" where
  "not_evaluable c i v = \<lparr>le_category = c, le_limit_id = i, le_status = NOT_EVALUABLE,
     le_limit_value = Some v, le_observed_value = None, le_headroom = None\<rparr>"

definition compare_limit :: "limit_category \<Rightarrow> string \<Rightarrow> decimal \<Rightarrow> decimal \<Rightarrow> limit_evaluation" where
  "compare_limit c i observed limit = \<lparr>le_category = c, le_limit_id = i,
     le_status = (if limit < observed then BREACHED else PASSED),
     le_limit_value = Some (Num limit), le_observed_value = Some (Num observed),
     le_headroom = Some (Num (limit - observed))\<rparr>"

definition leg_price :: "risk_state \<Rightarrow> intent_leg \<Rightarrow> decimal option" where
  "leg_price s l =
     (case leg_limit_price l of Some p \<Rightarrow> Some p | None \<Rightarrow> mark_for s (leg_instrument_id l))"

text \<open>The sum over legs, abandoned at the first leg without a price.\<close>

fun add_notionals :: "risk_state \<Rightarrow> intent_leg list \<Rightarrow> decimal \<Rightarrow> decimal option" where
  "add_notionals s [] acc = Some acc"
| "add_notionals s (l # ls) acc =
     (case leg_price s l of
        None \<Rightarrow> None
      | Some p \<Rightarrow> add_notionals s ls (acc + p * dec_int (leg_quantity l)))"

definition intent_notional :: "trade_intent \<Rightarrow> risk_state \<Rightarrow> decimal option" where
  "intent_notional i s = add_notionals s (ti_legs i) 0"

type_synonym limit_check = "trade_intent \<Rightarrow> risk_state \<Rightarrow> risk_limits \<Rightarrow> limit_evaluation"

section \<open>Position\<close>

definition resulting_position :: "risk_state \<Rightarrow> intent_leg \<Rightarrow> int" where
  "resulting_position s l =
     \<bar>position_in s (leg_instrument_id l) + leg_quantity l * side_sign (leg_side l)\<bar>"

definition check_position_per_instrument :: limit_check where
  "check_position_per_instrument i s ls =
     (case max_position_per_instrument ls of
        None \<Rightarrow> not_configured POSITION_LIMIT ''max_position_per_instrument''
      | Some limit \<Rightarrow>
          compare_limit POSITION_LIMIT ''max_position_per_instrument''
            (dec_int (fold (\<lambda>l worst. max worst (resulting_position s l)) (ti_legs i) 0)) (dec_int limit))"

text \<open>The worst resulting position per underlying, \<open>None\<close> at the first leg that cannot be grouped.\<close>

fun worst_underlying :: "risk_state \<Rightarrow> intent_leg list \<Rightarrow> int \<Rightarrow> int option" where
  "worst_underlying s [] worst = Some worst"
| "worst_underlying s (l # ls) worst =
     (case position_in_underlying s (underlying_of s (leg_instrument_id l)) of
        None \<Rightarrow> None
      | Some current \<Rightarrow> worst_underlying s ls (max worst (current + leg_quantity l)))"

definition check_position_per_underlying :: limit_check where
  "check_position_per_underlying i s ls =
     (case max_position_per_underlying ls of
        None \<Rightarrow> not_configured POSITION_LIMIT ''max_position_per_underlying''
      | Some limit \<Rightarrow>
          (case worst_underlying s (ti_legs i) 0 of
             None \<Rightarrow> not_evaluable POSITION_LIMIT ''max_position_per_underlying'' (Num (dec_int limit))
           | Some worst \<Rightarrow> compare_limit POSITION_LIMIT ''max_position_per_underlying''
                             (dec_int worst) (dec_int limit)))"

definition check_position_per_strategy :: limit_check where
  "check_position_per_strategy i s ls =
     (case max_position_per_strategy ls of
        None \<Rightarrow> not_configured POSITION_LIMIT ''max_position_per_strategy''
      | Some limit \<Rightarrow>
          if ti_strategy_id i = []
          then not_evaluable POSITION_LIMIT ''max_position_per_strategy'' (Num (dec_int limit))
          else compare_limit POSITION_LIMIT ''max_position_per_strategy''
                 (dec_int (\<bar>strategy_position s (ti_strategy_id i)\<bar> + total_quantity i)) (dec_int limit))"

section \<open>Order\<close>

text \<open>\<open>max\<close> over the legs; the empty list, on which Python's \<open>max\<close> raises, is refused by the intent.\<close>

definition largest_leg :: "trade_intent \<Rightarrow> int" where
  "largest_leg i =
     (case ti_legs i of [] \<Rightarrow> 0 | l # ls \<Rightarrow> fold (\<lambda>l worst. max worst (leg_quantity l)) ls (leg_quantity l))"

definition check_order_quantity :: limit_check where
  "check_order_quantity i s ls =
     (case max_order_quantity ls of
        None \<Rightarrow> not_configured ORDER_LIMIT ''max_order_quantity''
      | Some limit \<Rightarrow>
          compare_limit ORDER_LIMIT ''max_order_quantity'' (dec_int (largest_leg i)) (dec_int limit))"

definition check_order_notional :: limit_check where
  "check_order_notional i s ls =
     (case max_order_notional ls of
        None \<Rightarrow> not_configured ORDER_LIMIT ''max_order_notional''
      | Some limit \<Rightarrow>
          (case intent_notional i s of
             None \<Rightarrow> not_evaluable ORDER_LIMIT ''max_order_notional'' (Num limit)
           | Some n \<Rightarrow> compare_limit ORDER_LIMIT ''max_order_notional'' n limit))"

definition check_order_rate :: limit_check where
  "check_order_rate i s ls =
     (case max_orders_per_interval ls of
        None \<Rightarrow> not_configured ORDER_LIMIT ''max_orders_per_interval''
      | Some limit \<Rightarrow>
          compare_limit ORDER_LIMIT ''max_orders_per_interval''
            (dec_int (rs_orders_in_interval s + int (length (ti_legs i)))) (dec_int limit))"

section \<open>Capital\<close>

definition check_deployed_capital :: limit_check where
  "check_deployed_capital i s ls =
     (case max_deployed_capital ls of
        None \<Rightarrow> not_configured CAPITAL_LIMIT ''max_deployed_capital''
      | Some limit \<Rightarrow>
          (case deployed_capital s of
             None \<Rightarrow> not_evaluable CAPITAL_LIMIT ''max_deployed_capital'' (Num limit)
           | Some deployed \<Rightarrow>
               (case intent_notional i s of
                  None \<Rightarrow> not_evaluable CAPITAL_LIMIT ''max_deployed_capital'' (Num limit)
                | Some n \<Rightarrow> compare_limit CAPITAL_LIMIT ''max_deployed_capital'' (deployed + n) limit)))"

definition check_capital_utilisation :: limit_check where
  "check_capital_utilisation i s ls =
     (case max_capital_utilisation ls of
        None \<Rightarrow> not_configured CAPITAL_LIMIT ''max_capital_utilisation''
      | Some limit \<Rightarrow>
          (case deployed_capital s of
             None \<Rightarrow> not_evaluable CAPITAL_LIMIT ''max_capital_utilisation'' (Num limit)
           | Some deployed \<Rightarrow>
               if rs_equity s \<le> 0
               then not_evaluable CAPITAL_LIMIT ''max_capital_utilisation'' (Num limit)
               else (case intent_notional i s of
                       None \<Rightarrow> not_evaluable CAPITAL_LIMIT ''max_capital_utilisation'' (Num limit)
                     | Some n \<Rightarrow> compare_limit CAPITAL_LIMIT ''max_capital_utilisation''
                                   (dec_div (deployed + n) (rs_equity s)) limit)))"

definition check_leverage :: limit_check where
  "check_leverage i s ls =
     (case max_leverage ls of
        None \<Rightarrow> not_configured CAPITAL_LIMIT ''max_leverage''
      | Some limit \<Rightarrow>
          (case ex_gross_notional (rs_exposure s) of
             None \<Rightarrow> not_evaluable CAPITAL_LIMIT ''max_leverage'' (Num limit)
           | Some gross \<Rightarrow>
               if rs_equity s \<le> 0
               then not_evaluable CAPITAL_LIMIT ''max_leverage'' (Num limit)
               else (case intent_notional i s of
                       None \<Rightarrow> not_evaluable CAPITAL_LIMIT ''max_leverage'' (Num limit)
                     | Some n \<Rightarrow> compare_limit CAPITAL_LIMIT ''max_leverage''
                                   (dec_div (gross + n) (rs_equity s)) limit)))"

text \<open>What the buy legs require; sells are skipped.\<close>

fun add_required :: "risk_state \<Rightarrow> intent_leg list \<Rightarrow> decimal \<Rightarrow> decimal option" where
  "add_required s [] required = Some required"
| "add_required s (l # ls) required =
     (if side_sign (leg_side l) < 0 then add_required s ls required
      else case leg_price s l of
             None \<Rightarrow> None
           | Some p \<Rightarrow> add_required s ls (required + p * dec_int (leg_quantity l)))"

definition check_cash_sufficiency :: limit_check where
  "check_cash_sufficiency i s ls =
     (case add_required s (ti_legs i) 0 of
        None \<Rightarrow> not_evaluable CAPITAL_LIMIT ''cash_sufficiency'' (Num (available_cash s))
      | Some required \<Rightarrow>
          compare_limit CAPITAL_LIMIT ''cash_sufficiency'' required (available_cash s))"

section \<open>Loss\<close>

definition loss_check :: "decimal option \<Rightarrow> decimal \<Rightarrow> string \<Rightarrow> limit_evaluation" where
  "loss_check limit observed limit_id =
     (case limit of
        None \<Rightarrow> not_configured LOSS_LIMIT limit_id
      | Some l \<Rightarrow> compare_limit LOSS_LIMIT limit_id observed l)"

definition check_daily_loss :: limit_check where
  "check_daily_loss i s ls = loss_check (max_daily_loss ls) (rs_daily_loss s) ''max_daily_loss''"

definition check_drawdown :: limit_check where
  "check_drawdown i s ls = loss_check (max_drawdown ls) (rs_drawdown s) ''max_drawdown''"

definition check_strategy_loss :: limit_check where
  "check_strategy_loss i s ls =
     (case max_loss_per_strategy ls of
        None \<Rightarrow> not_configured LOSS_LIMIT ''max_loss_per_strategy''
      | Some limit \<Rightarrow>
          if ti_strategy_id i = []
          then not_evaluable LOSS_LIMIT ''max_loss_per_strategy'' (Num limit)
          else compare_limit LOSS_LIMIT ''max_loss_per_strategy''
                 (case strategy_loss s (ti_strategy_id i) of None \<Rightarrow> 0 | Some loss \<Rightarrow> loss) limit)"

section \<open>Exposure\<close>

definition exposure_check :: "decimal option \<Rightarrow> decimal option \<Rightarrow> string \<Rightarrow> limit_evaluation" where
  "exposure_check limit observed limit_id =
     (case limit of
        None \<Rightarrow> not_configured EXPOSURE_LIMIT limit_id
      | Some l \<Rightarrow>
          (case observed of
             None \<Rightarrow> not_evaluable EXPOSURE_LIMIT limit_id (Num l)
           | Some v \<Rightarrow> compare_limit EXPOSURE_LIMIT limit_id \<bar>v\<bar> l))"

definition check_net_delta :: limit_check where
  "check_net_delta i s ls =
     exposure_check (max_net_delta ls) (ex_net_delta (rs_exposure s)) ''max_net_delta''"

definition check_gross_delta :: limit_check where
  "check_gross_delta i s ls =
     exposure_check (max_gross_delta ls) (ex_gross_delta (rs_exposure s)) ''max_gross_delta''"

definition check_gross_gamma :: limit_check where
  "check_gross_gamma i s ls =
     exposure_check (max_gross_gamma ls) (ex_gross_gamma (rs_exposure s)) ''max_gross_gamma''"

definition check_gross_vega :: limit_check where
  "check_gross_vega i s ls =
     exposure_check (max_gross_vega ls) (ex_gross_vega (rs_exposure s)) ''max_gross_vega''"

definition check_gross_theta :: limit_check where
  "check_gross_theta i s ls =
     exposure_check (max_gross_theta ls) (ex_gross_theta (rs_exposure s)) ''max_gross_theta''"

section \<open>Concentration\<close>

definition concentration ::
  "decimal list \<Rightarrow> decimal option \<Rightarrow> decimal option \<Rightarrow> string \<Rightarrow> limit_evaluation" where
  "concentration buckets gross limit limit_id =
     (case limit of
        None \<Rightarrow> not_configured CONCENTRATION_LIMIT limit_id
      | Some l \<Rightarrow>
          (case gross of
             None \<Rightarrow> not_evaluable CONCENTRATION_LIMIT limit_id (Num l)
           | Some g \<Rightarrow>
               if g \<le> 0
               then \<lparr>le_category = CONCENTRATION_LIMIT, le_limit_id = limit_id, le_status = PASSED,
                     le_limit_value = Some (Num l), le_observed_value = Some (Num 0), le_headroom = None\<rparr>
               else (case buckets of
                       [] \<Rightarrow> not_evaluable CONCENTRATION_LIMIT limit_id (Num l)
                     | v # vs \<Rightarrow> compare_limit CONCENTRATION_LIMIT limit_id (dec_div (foldl dec_max v vs) g) l)))"

definition check_underlying_concentration :: limit_check where
  "check_underlying_concentration i s ls =
     concentration (map snd (ex_by_underlying (rs_exposure s))) (ex_gross_notional (rs_exposure s))
       (max_underlying_concentration ls) ''max_underlying_concentration''"

definition check_expiry_concentration :: limit_check where
  "check_expiry_concentration i s ls =
     concentration (map snd (ex_by_expiry (rs_exposure s))) (ex_gross_notional (rs_exposure s))
       (max_expiry_concentration ls) ''max_expiry_concentration''"

definition check_strike_concentration :: limit_check where
  "check_strike_concentration i s ls =
     concentration (map snd (ex_by_strike (rs_exposure s))) (ex_gross_notional (rs_exposure s))
       (max_strike_concentration ls) ''max_strike_concentration''"

section \<open>Data\<close>

text \<open>\<open>str.upper\<close> on ASCII letters, the alphabet of the quality vocabulary.\<close>

definition upper_char :: "char \<Rightarrow> char" where
  "upper_char c = (if CHR ''a'' \<le> c \<and> c \<le> CHR ''z'' then char_of (of_char c - 32 :: nat) else c)"

definition check_state_quality :: limit_check where
  "check_state_quality i s ls =
     (if \<not> reject_unreliable_state ls then not_configured DATA_LIMIT ''reject_unreliable_state''
      else let status = map upper_char (sq_status (rs_quality s)) in
        if status = ''UNKNOWN''
        then not_evaluable DATA_LIMIT ''reject_unreliable_state'' (Word ''True'')
        else \<lparr>le_category = DATA_LIMIT, le_limit_id = ''reject_unreliable_state'',
              le_status = (if status = ''UNRELIABLE'' then BREACHED else PASSED),
              le_limit_value = Some (Word ''not UNRELIABLE''), le_observed_value = Some (Word status),
              le_headroom = None\<rparr>)"

text \<open>
  \<open>Decimal(str(d.total_seconds()))\<close>: seconds with up to six places and at least one. The float
  in between holds every duration below about thirty years exactly enough for its shortest
  rendering to be this decimal.
\<close>

definition seconds_decimal :: "duration \<Rightarrow> decimal" where
  "seconds_decimal d =
     Dec (of_int d / 10 ^ 6) (if d = 0 then - 1 else - max 1 (6 - int (trailing_zeros \<bar>d\<bar>)))"

definition check_state_staleness :: limit_check where
  "check_state_staleness i s ls =
     (case max_state_staleness ls of
        None \<Rightarrow> not_configured DATA_LIMIT ''max_state_staleness''
      | Some limit \<Rightarrow>
          (case sq_staleness (rs_quality s) of
             None \<Rightarrow> not_evaluable DATA_LIMIT ''max_state_staleness'' (Seconds limit)
           | Some staleness \<Rightarrow> compare_limit DATA_LIMIT ''max_state_staleness''
               (seconds_decimal staleness) (seconds_decimal limit)))"

definition check_state_coverage :: limit_check where
  "check_state_coverage i s ls =
     (case min_state_coverage ls of
        None \<Rightarrow> not_configured DATA_LIMIT ''min_state_coverage''
      | Some limit \<Rightarrow>
          (case sq_coverage_ratio (rs_quality s) of
             None \<Rightarrow> not_evaluable DATA_LIMIT ''min_state_coverage'' (Num limit)
           | Some coverage \<Rightarrow>
               \<lparr>le_category = DATA_LIMIT, le_limit_id = ''min_state_coverage'',
                le_status = (if coverage < limit then BREACHED else PASSED),
                le_limit_value = Some (Num limit), le_observed_value = Some (Num coverage),
                le_headroom = Some (Num (coverage - limit))\<rparr>))"

section \<open>Broker, session, kill switch\<close>

fun health_word :: "venue_health \<Rightarrow> string" where
  "health_word PAPER_SIMULATED = ''PAPER_SIMULATED''"
| "health_word HEALTHY = ''HEALTHY''"
| "health_word DEGRADED = ''DEGRADED''"
| "health_word UNAVAILABLE = ''UNAVAILABLE''"
| "health_word UNKNOWN_HEALTH = ''UNKNOWN''"

definition check_venue_health :: limit_check where
  "check_venue_health i s ls =
     (if \<not> require_healthy_venue ls then not_configured BROKER_LIMIT ''require_healthy_venue''
      else \<lparr>le_category = BROKER_LIMIT, le_limit_id = ''require_healthy_venue'',
            le_status = (if is_usable (rs_venue_health s) then PASSED else BREACHED),
            le_limit_value = Some (Word ''usable venue''),
            le_observed_value = Some (Word (health_word (rs_venue_health s))), le_headroom = None\<rparr>)"

definition check_session_window :: limit_check where
  "check_session_window i s ls =
     (case session ls of
        None \<Rightarrow> not_configured SESSION_LIMIT ''session_window''
      | Some w \<Rightarrow>
          \<lparr>le_category = SESSION_LIMIT, le_limit_id = ''session_window'',
           le_status = (if window_contains w (wall_clock s) (rs_is_expiry_day s) then PASSED else BREACHED),
           le_limit_value = Some (Window (sw_opens_at w) (sw_closes_at w)),
           le_observed_value = Some (Wall (wall_clock s)), le_headroom = None\<rparr>)"

definition check_kill_switch :: limit_check where
  "check_kill_switch i s ls =
     (let halted = halts (rs_kill_switch s) (ti_strategy_id i) in
      \<lparr>le_category = KILL_SWITCH_LIMIT, le_limit_id = ''kill_switch'',
       le_status = (if halted then BREACHED else PASSED),
       le_limit_value = Some (Word ''not engaged''),
       le_observed_value = Some (Word (if halted then ''ENGAGED'' else ''CLEAR'')), le_headroom = None\<rparr>)"

section \<open>All of them, in order\<close>

definition all_checks :: "limit_check list" where
  "all_checks =
     [check_kill_switch, check_session_window, check_venue_health, check_state_quality,
      check_state_staleness, check_state_coverage, check_order_quantity, check_order_notional,
      check_order_rate, check_position_per_instrument, check_position_per_underlying,
      check_position_per_strategy, check_cash_sufficiency, check_deployed_capital,
      check_capital_utilisation, check_leverage, check_daily_loss, check_drawdown,
      check_strategy_loss, check_net_delta, check_gross_delta, check_gross_gamma,
      check_gross_vega, check_gross_theta, check_underlying_concentration,
      check_expiry_concentration, check_strike_concentration]"

definition evaluate_all :: "trade_intent \<Rightarrow> risk_state \<Rightarrow> risk_limits \<Rightarrow> limit_evaluation list" where
  "evaluate_all i s ls = map (\<lambda>check. check i s ls) all_checks"

section \<open>What a clear evaluation says\<close>

text \<open>An evaluation that neither blocks nor stays open.\<close>

definition clear :: "limit_evaluation \<Rightarrow> bool" where
  "clear e \<longleftrightarrow> le_status e \<noteq> BREACHED \<and> le_status e \<noteq> NOT_EVALUABLE"

named_theorems clear_simps \<open>what a clear evaluation of each check says\<close>

lemma clear_shapes [simp]:
  "clear (not_configured c i)" "\<not> clear (not_evaluable c i v)"
  "clear (compare_limit c i x l) \<longleftrightarrow> x \<le> l"
  by (auto simp: clear_def not_configured_def not_evaluable_def compare_limit_def dec_le_iff dec_less_iff)

lemma dec_int_le [simp]: "dec_int m \<le> dec_int n \<longleftrightarrow> m \<le> n"
  by (simp add: dec_le_iff)

lemma resulting_position_nonneg [simp]: "0 \<le> resulting_position s l"
  by (simp add: resulting_position_def)

lemma position_in_underlying_nonneg: "position_in_underlying s u = Some c \<Longrightarrow> 0 \<le> c"
  by (auto simp: position_in_underlying_def split: option.splits if_splits intro!: sum_list_nonneg)

lemma clear_kill_switch [clear_simps]:
  "clear (check_kill_switch i s ls) \<longleftrightarrow> \<not> halts (rs_kill_switch s) (ti_strategy_id i)"
  by (simp add: check_kill_switch_def clear_def Let_def)

lemma clear_session_window [clear_simps]:
  "clear (check_session_window i s ls) \<longleftrightarrow>
     (\<forall>w. session ls = Some w \<longrightarrow> window_contains w (wall_clock s) (rs_is_expiry_day s))"
  by (simp add: check_session_window_def clear_def not_configured_def split: option.splits)

lemma clear_venue_health [clear_simps]:
  "clear (check_venue_health i s ls) \<longleftrightarrow> (require_healthy_venue ls \<longrightarrow> is_usable (rs_venue_health s))"
  by (simp add: check_venue_health_def clear_def not_configured_def)

lemma clear_state_quality [clear_simps]:
  "clear (check_state_quality i s ls) \<longleftrightarrow>
     (reject_unreliable_state ls \<longrightarrow>
        map upper_char (sq_status (rs_quality s)) \<notin> {''UNKNOWN'', ''UNRELIABLE''})"
  by (simp add: check_state_quality_def clear_def not_configured_def not_evaluable_def Let_def)

lemma clear_state_staleness [clear_simps]:
  "clear (check_state_staleness i s ls) \<longleftrightarrow>
     (\<forall>m. max_state_staleness ls = Some m \<longrightarrow> (\<exists>d. sq_staleness (rs_quality s) = Some d \<and> d \<le> m))"
  by (simp add: check_state_staleness_def seconds_decimal_def dec_le_iff divide_right_mono
      divide_le_cancel split: option.splits)

lemma clear_state_coverage [clear_simps]:
  "clear (check_state_coverage i s ls) \<longleftrightarrow>
     (\<forall>m. min_state_coverage ls = Some m \<longrightarrow> (\<exists>c. sq_coverage_ratio (rs_quality s) = Some c \<and> m \<le> c))"
  by (auto simp: check_state_coverage_def clear_def not_configured_def not_evaluable_def dec_le_iff dec_less_iff
      split: option.splits)

lemma largest_leg_le_iff:
  "ti_legs i \<noteq> [] \<Longrightarrow> largest_leg i \<le> m \<longleftrightarrow> (\<forall>l\<in>set (ti_legs i). leg_quantity l \<le> m)"
  by (cases "ti_legs i") (auto simp: largest_leg_def fold_max_le_iff)

lemma clear_order_quantity [clear_simps]:
  "ti_legs i \<noteq> [] \<Longrightarrow> clear (check_order_quantity i s ls) \<longleftrightarrow>
     (\<forall>m. max_order_quantity ls = Some m \<longrightarrow> (\<forall>l\<in>set (ti_legs i). leg_quantity l \<le> m))"
  by (simp add: check_order_quantity_def largest_leg_le_iff split: option.splits)

lemma clear_order_notional [clear_simps]:
  "clear (check_order_notional i s ls) \<longleftrightarrow>
     (\<forall>m. max_order_notional ls = Some m \<longrightarrow> (\<exists>n. intent_notional i s = Some n \<and> n \<le> m))"
  by (simp add: check_order_notional_def split: option.splits)

lemma clear_order_rate [clear_simps]:
  "clear (check_order_rate i s ls) \<longleftrightarrow>
     (\<forall>m. max_orders_per_interval ls = Some m \<longrightarrow> rs_orders_in_interval s + int (length (ti_legs i)) \<le> m)"
  by (simp add: check_order_rate_def split: option.splits)

lemma clear_position_per_instrument [clear_simps]:
  "ti_legs i \<noteq> [] \<Longrightarrow> clear (check_position_per_instrument i s ls) \<longleftrightarrow>
     (\<forall>m. max_position_per_instrument ls = Some m \<longrightarrow> (\<forall>l\<in>set (ti_legs i). resulting_position s l \<le> m))"
  by (cases "ti_legs i")
    (auto simp: check_position_per_instrument_def fold_max_le_iff
      intro: order_trans [OF resulting_position_nonneg] split: option.splits)

lemma worst_underlying_le_iff:
  "(\<exists>w. worst_underlying s legs a = Some w \<and> w \<le> m) \<longleftrightarrow>
     a \<le> m \<and> (\<forall>l\<in>set legs. \<exists>c. position_in_underlying s (underlying_of s (leg_instrument_id l)) = Some c
                              \<and> c + leg_quantity l \<le> m)"
proof (induction legs arbitrary: a)
  case (Cons l legs)
  then show ?case
    by (cases "position_in_underlying s (underlying_of s (leg_instrument_id l))") auto
qed simp

lemma clear_position_per_underlying [clear_simps]:
  assumes "trade_intent_ok i"
  shows "clear (check_position_per_underlying i s ls) \<longleftrightarrow>
     (\<forall>m. max_position_per_underlying ls = Some m \<longrightarrow>
        (\<forall>l\<in>set (ti_legs i). \<exists>c. position_in_underlying s (underlying_of s (leg_instrument_id l)) = Some c
                              \<and> c + leg_quantity l \<le> m))"
proof -
  obtain l legs where l: "ti_legs i = l # legs" using trade_intent_ok_legs [OF assms] by (cases "ti_legs i") auto
  have "0 \<le> m" if "position_in_underlying s u = Some c" "c + leg_quantity l \<le> m" for u c m
    using position_in_underlying_nonneg [OF that(1)] that(2) trade_intent_ok_quantity [OF assms, of l] l by simp
  then have nn: "0 \<le> m \<and> (\<forall>l\<in>set (ti_legs i). \<exists>c. position_in_underlying s (underlying_of s (leg_instrument_id l)) = Some c
        \<and> c + leg_quantity l \<le> m) \<longleftrightarrow> (\<forall>l\<in>set (ti_legs i). \<exists>c. position_in_underlying s (underlying_of s (leg_instrument_id l)) = Some c
        \<and> c + leg_quantity l \<le> m)" for m
    using l by auto
  show ?thesis
    using worst_underlying_le_iff [of s "ti_legs i" 0, unfolded nn]
    by (auto simp: check_position_per_underlying_def split: option.splits)
qed

lemma clear_position_per_strategy [clear_simps]:
  "clear (check_position_per_strategy i s ls) \<longleftrightarrow>
     (\<forall>m. max_position_per_strategy ls = Some m \<longrightarrow>
        ti_strategy_id i \<noteq> [] \<and> \<bar>strategy_position s (ti_strategy_id i)\<bar> + total_quantity i \<le> m)"
  by (simp add: check_position_per_strategy_def split: option.splits)

lemma clear_cash_sufficiency [clear_simps]:
  "clear (check_cash_sufficiency i s ls) \<longleftrightarrow>
     (\<exists>required. add_required s (ti_legs i) 0 = Some required \<and> required \<le> available_cash s)"
  by (simp add: check_cash_sufficiency_def split: option.splits)

lemma clear_deployed_capital [clear_simps]:
  "clear (check_deployed_capital i s ls) \<longleftrightarrow>
     (\<forall>m. max_deployed_capital ls = Some m \<longrightarrow>
        (\<exists>d n. deployed_capital s = Some d \<and> intent_notional i s = Some n \<and> d + n \<le> m))"
  by (simp add: check_deployed_capital_def split: option.splits)

lemma clear_capital_utilisation [clear_simps]:
  "clear (check_capital_utilisation i s ls) \<longleftrightarrow>
     (\<forall>m. max_capital_utilisation ls = Some m \<longrightarrow>
        (\<exists>d n. deployed_capital s = Some d \<and> intent_notional i s = Some n \<and> 0 < dval (rs_equity s)
           \<and> dec_div (d + n) (rs_equity s) \<le> m))"
  by (auto simp: check_capital_utilisation_def dec_le_iff split: option.splits)

lemma clear_leverage [clear_simps]:
  "clear (check_leverage i s ls) \<longleftrightarrow>
     (\<forall>m. max_leverage ls = Some m \<longrightarrow>
        (\<exists>g n. ex_gross_notional (rs_exposure s) = Some g \<and> intent_notional i s = Some n
           \<and> 0 < dval (rs_equity s) \<and> dec_div (g + n) (rs_equity s) \<le> m))"
  by (auto simp: check_leverage_def dec_le_iff split: option.splits)

lemma clear_loss_check [simp]:
  "clear (loss_check limit v i) \<longleftrightarrow> (\<forall>m. limit = Some m \<longrightarrow> v \<le> m)"
  by (simp add: loss_check_def split: option.splits)

lemma clear_strategy_loss [clear_simps]:
  "clear (check_strategy_loss i s ls) \<longleftrightarrow>
     (\<forall>m. max_loss_per_strategy ls = Some m \<longrightarrow>
        ti_strategy_id i \<noteq> []
        \<and> (case strategy_loss s (ti_strategy_id i) of None \<Rightarrow> 0 | Some loss \<Rightarrow> loss) \<le> m)"
  by (simp add: check_strategy_loss_def split: option.splits)

lemma clear_exposure_check [simp]:
  "clear (exposure_check limit v i) \<longleftrightarrow> (\<forall>m. limit = Some m \<longrightarrow> (\<exists>x. v = Some x \<and> \<bar>x\<bar> \<le> m))"
  by (simp add: exposure_check_def split: option.splits)

lemma dval_foldl_dec_max: "dval (foldl dec_max v vs) \<le> x \<longleftrightarrow> dval v \<le> x \<and> (\<forall>w\<in>set vs. dval w \<le> x)"
  by (induction vs arbitrary: v) (auto simp: dec_max_def dec_less_iff)

lemma foldl_dec_max_in: "foldl dec_max v vs \<in> set (v # vs)"
  by (induction vs arbitrary: v) (auto simp: dec_max_def)

text \<open>The largest bucket is within the cap exactly when every bucket is.\<close>

lemma clear_concentration [simp]:
  "clear (concentration buckets gross limit i) \<longleftrightarrow>
     (\<forall>m. limit = Some m \<longrightarrow>
        (\<exists>g. gross = Some g \<and>
           (0 < dval g \<longrightarrow> buckets \<noteq> [] \<and> (\<forall>v\<in>set buckets. dec_div v g \<le> m))))"
proof -
  have key: "dec_div (foldl dec_max v vs) g \<le> m \<longleftrightarrow> (\<forall>w\<in>set (v # vs). dec_div w g \<le> m)" if "0 < dval g" for v vs g m
  proof
    assume top: "dec_div (foldl dec_max v vs) g \<le> m"
    show "\<forall>w\<in>set (v # vs). dec_div w g \<le> m"
    proof
      fix w assume "w \<in> set (v # vs)"
      then have "dval w / dval g \<le> dval (foldl dec_max v vs) / dval g"
        using that dval_foldl_dec_max [of v vs "dval (foldl dec_max v vs)"] by (intro divide_right_mono) auto
      from ctx.rnd_mono [OF this] show "dec_div w g \<le> m" using top by (simp add: dec_le_iff)
    qed
  qed (use foldl_dec_max_in in blast)
  show ?thesis
  proof (cases limit)
    case limit: (Some m)
    show ?thesis
    proof (cases gross)
      case gross: (Some g)
      show ?thesis
      proof (cases "g \<le> 0")
        case True
        then show ?thesis by (simp add: concentration_def limit gross clear_def dec_le_iff)
      next
        case False
        then have g: "0 < dval g" by (simp add: dec_le_iff)
        show ?thesis
          by (cases buckets) (use g in \<open>simp_all add: concentration_def limit gross False key\<close>)
      qed
    qed (simp add: concentration_def limit)
  qed (simp add: concentration_def)
qed

lemmas clear_plain [clear_simps] =
  check_daily_loss_def check_drawdown_def check_net_delta_def check_gross_delta_def
  check_gross_gamma_def check_gross_vega_def check_gross_theta_def
  check_underlying_concentration_def check_expiry_concentration_def check_strike_concentration_def

section \<open>A declarative reading of the policy\<close>

definition if_set :: "'a option \<Rightarrow> ('a \<Rightarrow> bool) \<Rightarrow> bool" where
  "if_set limit P \<longleftrightarrow> (\<forall>m. limit = Some m \<longrightarrow> P m)"

definition bounded_exposure :: "decimal option \<Rightarrow> decimal option \<Rightarrow> bool" where
  "bounded_exposure limit v \<longleftrightarrow> if_set limit (\<lambda>m. \<exists>x. v = Some x \<and> \<bar>x\<bar> \<le> m)"

definition spread_out :: "decimal option \<Rightarrow> decimal option \<Rightarrow> decimal list \<Rightarrow> bool" where
  "spread_out limit gross buckets \<longleftrightarrow>
     if_set limit (\<lambda>m. \<exists>g. gross = Some g \<and>
        (0 < dval g \<longrightarrow> buckets \<noteq> [] \<and> (\<forall>v\<in>set buckets. dec_div v g \<le> m)))"

text \<open>
  What the policy demands of intent and state, one clause per limit, with no status and no order
  of evaluation: a configured limit needs its inputs and its bound.
\<close>

definition permits :: "risk_limits \<Rightarrow> trade_intent \<Rightarrow> risk_state \<Rightarrow> bool" where
  "permits ls i s \<longleftrightarrow>
     \<not> halts (rs_kill_switch s) (ti_strategy_id i)
     \<and> if_set (session ls) (\<lambda>w. window_contains w (wall_clock s) (rs_is_expiry_day s))
     \<and> (require_healthy_venue ls \<longrightarrow> is_usable (rs_venue_health s))
     \<and> (reject_unreliable_state ls \<longrightarrow>
          map upper_char (sq_status (rs_quality s)) \<notin> {''UNKNOWN'', ''UNRELIABLE''})
     \<and> if_set (max_state_staleness ls) (\<lambda>m. \<exists>d. sq_staleness (rs_quality s) = Some d \<and> d \<le> m)
     \<and> if_set (min_state_coverage ls) (\<lambda>m. \<exists>c. sq_coverage_ratio (rs_quality s) = Some c \<and> m \<le> c)
     \<and> if_set (max_order_quantity ls) (\<lambda>m. \<forall>l\<in>set (ti_legs i). leg_quantity l \<le> m)
     \<and> if_set (max_order_notional ls) (\<lambda>m. \<exists>n. intent_notional i s = Some n \<and> n \<le> m)
     \<and> if_set (max_orders_per_interval ls)
          (\<lambda>m. rs_orders_in_interval s + int (length (ti_legs i)) \<le> m)
     \<and> if_set (max_position_per_instrument ls)
          (\<lambda>m. \<forall>l\<in>set (ti_legs i). resulting_position s l \<le> m)
     \<and> if_set (max_position_per_underlying ls) (\<lambda>m. \<forall>l\<in>set (ti_legs i).
          \<exists>c. position_in_underlying s (underlying_of s (leg_instrument_id l)) = Some c
              \<and> c + leg_quantity l \<le> m)
     \<and> if_set (max_position_per_strategy ls) (\<lambda>m. ti_strategy_id i \<noteq> []
          \<and> \<bar>strategy_position s (ti_strategy_id i)\<bar> + total_quantity i \<le> m)
     \<and> (\<exists>required. add_required s (ti_legs i) 0 = Some required \<and> required \<le> available_cash s)
     \<and> if_set (max_deployed_capital ls) (\<lambda>m. \<exists>d n. deployed_capital s = Some d
          \<and> intent_notional i s = Some n \<and> d + n \<le> m)
     \<and> if_set (max_capital_utilisation ls) (\<lambda>m. \<exists>d n. deployed_capital s = Some d
          \<and> intent_notional i s = Some n \<and> 0 < dval (rs_equity s) \<and> dec_div (d + n) (rs_equity s) \<le> m)
     \<and> if_set (max_leverage ls) (\<lambda>m. \<exists>g n. ex_gross_notional (rs_exposure s) = Some g
          \<and> intent_notional i s = Some n \<and> 0 < dval (rs_equity s) \<and> dec_div (g + n) (rs_equity s) \<le> m)
     \<and> if_set (max_daily_loss ls) (\<lambda>m. rs_daily_loss s \<le> m)
     \<and> if_set (max_drawdown ls) (\<lambda>m. rs_drawdown s \<le> m)
     \<and> if_set (max_loss_per_strategy ls) (\<lambda>m. ti_strategy_id i \<noteq> []
          \<and> (case strategy_loss s (ti_strategy_id i) of None \<Rightarrow> 0 | Some loss \<Rightarrow> loss) \<le> m)
     \<and> bounded_exposure (max_net_delta ls) (ex_net_delta (rs_exposure s))
     \<and> bounded_exposure (max_gross_delta ls) (ex_gross_delta (rs_exposure s))
     \<and> bounded_exposure (max_gross_gamma ls) (ex_gross_gamma (rs_exposure s))
     \<and> bounded_exposure (max_gross_vega ls) (ex_gross_vega (rs_exposure s))
     \<and> bounded_exposure (max_gross_theta ls) (ex_gross_theta (rs_exposure s))
     \<and> spread_out (max_underlying_concentration ls) (ex_gross_notional (rs_exposure s))
          (map snd (ex_by_underlying (rs_exposure s)))
     \<and> spread_out (max_expiry_concentration ls) (ex_gross_notional (rs_exposure s))
          (map snd (ex_by_expiry (rs_exposure s)))
     \<and> spread_out (max_strike_concentration ls) (ex_gross_notional (rs_exposure s))
          (map snd (ex_by_strike (rs_exposure s)))"

lemma evaluate_all_clear_iff:
  assumes "trade_intent_ok i"
  shows "(\<forall>e\<in>set (evaluate_all i s ls). clear e) \<longleftrightarrow> permits ls i s"
  unfolding permits_def if_set_def bounded_exposure_def spread_out_def evaluate_all_def all_checks_def
  by (simp only: list.map list.set ball_simps clear_simps clear_loss_check clear_exposure_check clear_concentration
      trade_intent_ok_legs [OF assms] assms not_False_eq_True simp_thms)

text \<open>The identifiers of the evidence, in order, whatever the inputs.\<close>

definition limit_ids :: "string list" where
  "limit_ids =
     [''kill_switch'', ''session_window'', ''require_healthy_venue'', ''reject_unreliable_state'',
      ''max_state_staleness'', ''min_state_coverage'', ''max_order_quantity'', ''max_order_notional'',
      ''max_orders_per_interval'', ''max_position_per_instrument'', ''max_position_per_underlying'',
      ''max_position_per_strategy'', ''cash_sufficiency'', ''max_deployed_capital'',
      ''max_capital_utilisation'', ''max_leverage'', ''max_daily_loss'', ''max_drawdown'',
      ''max_loss_per_strategy'', ''max_net_delta'', ''max_gross_delta'', ''max_gross_gamma'',
      ''max_gross_vega'', ''max_gross_theta'', ''max_underlying_concentration'',
      ''max_expiry_concentration'', ''max_strike_concentration'']"

lemma shape_ids [simp]:
  "le_limit_id (not_configured c i) = i" "le_limit_id (not_evaluable c i v) = i"
  "le_limit_id (compare_limit c i x l) = i" "le_limit_id (loss_check b x i) = i"
  "le_limit_id (exposure_check b y i) = i" "le_limit_id (concentration vs g b i) = i"
  by (auto simp: not_configured_def not_evaluable_def compare_limit_def loss_check_def exposure_check_def
      concentration_def split: option.splits list.splits)

lemma check_ids:
  "le_limit_id (check_kill_switch i s ls) = ''kill_switch''"
  "le_limit_id (check_session_window i s ls) = ''session_window''"
  "le_limit_id (check_venue_health i s ls) = ''require_healthy_venue''"
  "le_limit_id (check_state_quality i s ls) = ''reject_unreliable_state''"
  "le_limit_id (check_state_staleness i s ls) = ''max_state_staleness''"
  "le_limit_id (check_state_coverage i s ls) = ''min_state_coverage''"
  "le_limit_id (check_order_quantity i s ls) = ''max_order_quantity''"
  "le_limit_id (check_order_notional i s ls) = ''max_order_notional''"
  "le_limit_id (check_order_rate i s ls) = ''max_orders_per_interval''"
  "le_limit_id (check_position_per_instrument i s ls) = ''max_position_per_instrument''"
  "le_limit_id (check_position_per_underlying i s ls) = ''max_position_per_underlying''"
  "le_limit_id (check_position_per_strategy i s ls) = ''max_position_per_strategy''"
  "le_limit_id (check_cash_sufficiency i s ls) = ''cash_sufficiency''"
  "le_limit_id (check_deployed_capital i s ls) = ''max_deployed_capital''"
  "le_limit_id (check_capital_utilisation i s ls) = ''max_capital_utilisation''"
  "le_limit_id (check_leverage i s ls) = ''max_leverage''"
  "le_limit_id (check_strategy_loss i s ls) = ''max_loss_per_strategy''"
  "le_limit_id (check_daily_loss i s ls) = ''max_daily_loss''"
  "le_limit_id (check_drawdown i s ls) = ''max_drawdown''"
  "le_limit_id (check_net_delta i s ls) = ''max_net_delta''"
  "le_limit_id (check_gross_delta i s ls) = ''max_gross_delta''"
  "le_limit_id (check_gross_gamma i s ls) = ''max_gross_gamma''"
  "le_limit_id (check_gross_vega i s ls) = ''max_gross_vega''"
  "le_limit_id (check_gross_theta i s ls) = ''max_gross_theta''"
  "le_limit_id (check_underlying_concentration i s ls) = ''max_underlying_concentration''"
  "le_limit_id (check_expiry_concentration i s ls) = ''max_expiry_concentration''"
  "le_limit_id (check_strike_concentration i s ls) = ''max_strike_concentration''"
  by (auto simp: clear_plain check_kill_switch_def check_session_window_def check_venue_health_def
      check_state_quality_def check_state_staleness_def check_state_coverage_def
      check_order_quantity_def check_order_notional_def check_order_rate_def
      check_position_per_instrument_def check_position_per_underlying_def
      check_position_per_strategy_def check_cash_sufficiency_def check_deployed_capital_def
      check_capital_utilisation_def check_leverage_def check_strategy_loss_def Let_def
      split: option.splits)

text \<open>
  Every evaluation carries the same twenty-seven identifiers in the same order,
  whatever the inputs: nothing short-circuits, and no limit is reported twice.
\<close>

theorem evidence_is_complete:
  "map le_limit_id (evaluate_all i s ls) = limit_ids \<and> distinct limit_ids"
proof
  show "map le_limit_id (evaluate_all i s ls) = limit_ids"
    by (simp add: evaluate_all_def all_checks_def limit_ids_def check_ids)
  show "distinct limit_ids" by code_simp
qed

end
