(* ===== verification/Risk_Engine.thy ===== *)
theory Risk_Engine
  imports Risk_Limits
begin

text \<open>
  \<^verbatim>\<open>oipulse/trading/risk/engine.py\<close> and \<^verbatim>\<open>oipulse/trading/risk/gate.py\<close>: one evaluation of an
  intent against a state under a policy, the resizing of size-only breaches, and the pass-through
  gate. Both gates satisfy one interface, the locale \<open>risk_gate\<close>.
\<close>

section \<open>The engine\<close>

record risk_engine =
  eng_policy :: risk_policy
  eng_approval_validity :: duration
  eng_allow_resizing :: bool

definition default_approval_validity :: duration where
  "default_approval_validity = 30 * 1000000"

definition resizable :: "string list" where
  "resizable =
     [''max_order_quantity'', ''max_position_per_instrument'',
      ''max_position_per_underlying'', ''max_position_per_strategy'']"

text \<open>\<open>_check_horizon\<close>\<close>

definition check_horizon :: "risk_state \<Rightarrow> instant \<Rightarrow> limit_evaluation option" where
  "check_horizon s horizon =
     (if horizon < rs_knowledge_time s
      then Some \<lparr>le_category = DATA_LIMIT, le_limit_id = ''knowledge_horizon'', le_status = BREACHED,
                 le_limit_value = Some (Moment horizon),
                 le_observed_value = Some (Moment (rs_knowledge_time s)), le_headroom = None\<rparr>
      else None)"

text \<open>
  The loop of \<open>_resize\<close>: each breach takes its excess off the requested total. Only the four
  resizable limits get here and their evidence is always a pair of numbers; a missing value
  gives up.
\<close>

fun resize_over :: "int \<Rightarrow> limit_evaluation list \<Rightarrow> int \<Rightarrow> int option" where
  "resize_over requested [] allowed = Some (max allowed 0)"
| "resize_over requested (b # bs) allowed =
     (case (le_limit_value b, le_observed_value b) of
        (Some (Num limit), Some (Num observed)) \<Rightarrow>
          (let excess = observed - limit in
           if excess \<le> 0 then resize_over requested bs allowed
           else resize_over requested bs (min allowed (requested - dec_trunc excess)))
      | _ \<Rightarrow> None)"

definition resize :: "risk_engine \<Rightarrow> trade_intent \<Rightarrow> limit_evaluation list \<Rightarrow> int option" where
  "resize e i bs =
     (if \<not> eng_allow_resizing e then None
      else if \<exists>b\<in>set bs. le_limit_id b \<notin> set resizable then None
      else resize_over (total_quantity i) bs (total_quantity i))"

text \<open>\<open>_scale_legs\<close>: float quotients truncated, the remainder to the earliest legs.\<close>

definition scaled_floors :: "trade_intent \<Rightarrow> int \<Rightarrow> int list" where
  "scaled_floors i approved =
     map (\<lambda>l. float_trunc (int_truediv (leg_quantity l * approved) (total_quantity i))) (ti_legs i)"

definition scale_legs :: "trade_intent \<Rightarrow> int \<Rightarrow> (int \<times> int) list" where
  "scale_legs i approved =
     (if total_quantity i = 0 then []
      else let floors = scaled_floors i approved; remainder = approved - sum_list floors
           in map (\<lambda>(k, q). (int k, if int k < remainder then q + 1 else q)) (enumerate 0 floors))"

text \<open>The fields every decision of one evaluation shares, and the ones its outcome sets.\<close>

definition engine_decision ::
  "hashes \<Rightarrow> risk_engine \<Rightarrow> trade_intent \<Rightarrow> risk_state \<Rightarrow> int \<Rightarrow> instant \<Rightarrow> instant \<Rightarrow>
   risk_verdict \<Rightarrow> int \<Rightarrow> (int \<times> int) list \<Rightarrow> instant option \<Rightarrow> limit_evaluation list \<Rightarrow> risk_decision" where
  "engine_decision h e i s seq ts horizon verdict approved legs until evaluations =
     \<lparr>rd_intent_id = intent_id (h_intent h) i,
      rd_sequence_no = seq,
      rd_verdict = verdict,
      rd_evaluated = True,
      rd_risk_state_ref = risk_state_ref (h_state h) s,
      rd_risk_evaluation_time = Some ts,
      rd_inputs_digest = inputs_digest_for h (content_digest (h_intent h) i)
         (policy_digest (h_policy h) (eng_policy e)) (risk_state_ref (h_state h) s),
      rd_approved_until = until,
      rd_policy_id = pol_id (eng_policy e),
      rd_policy_version = pol_version (eng_policy e),
      rd_policy_digest = policy_digest (h_policy h) (eng_policy e),
      rd_requested_quantity = total_quantity i,
      rd_approved_quantity = approved,
      rd_approved_legs = legs,
      rd_limits_evaluated = evaluations,
      rd_knowledge_horizon = Some horizon\<rparr>"

definition evaluate ::
  "hashes \<Rightarrow> risk_engine \<Rightarrow> trade_intent \<Rightarrow> risk_state \<Rightarrow> int \<Rightarrow> instant \<Rightarrow> instant option \<Rightarrow>
   decision_error + risk_decision" where
  "evaluate h e i s seq ts knowledge_horizon =
     (let horizon = (case knowledge_horizon of Some k \<Rightarrow> k | None \<Rightarrow> ts);
          decide = engine_decision h e i s seq ts horizon
      in case check_horizon s horizon of
           Some violation \<Rightarrow> make_decision (decide REJECTED_BY_RISK 0 [] None [violation])
         | None \<Rightarrow>
             (let evaluations = evaluate_all i s (pol_limits (eng_policy e));
                  breached = filter (\<lambda>ev. le_status ev = BREACHED) evaluations;
                  unevaluable = filter (\<lambda>ev. le_status ev = NOT_EVALUABLE) evaluations
              in if unevaluable \<noteq> [] then make_decision (decide REJECTED_BY_RISK 0 [] None evaluations)
                 else if breached \<noteq> []
                 then (case resize e i breached of
                         Some q \<Rightarrow>
                           if 0 < q
                           then make_decision (decide MODIFIED q (scale_legs i q)
                                  (Some (ts + eng_approval_validity e)) evaluations)
                           else make_decision (decide REJECTED_BY_RISK 0 [] None evaluations)
                       | None \<Rightarrow> make_decision (decide REJECTED_BY_RISK 0 [] None evaluations))
                 else make_decision (decide APPROVED (total_quantity i)
                        (map (\<lambda>(k, l). (int k, leg_quantity l)) (enumerate 0 (ti_legs i)))
                        (Some (ts + eng_approval_validity e)) evaluations)))"

section \<open>The pass-through gate\<close>

definition unevaluated_gate ::
  "hashes \<Rightarrow> trade_intent \<Rightarrow> risk_state \<Rightarrow> int \<Rightarrow> instant \<Rightarrow> instant option \<Rightarrow>
   decision_error + risk_decision" where
  "unevaluated_gate h i s seq ts knowledge_horizon =
     make_decision
       \<lparr>rd_intent_id = intent_id (h_intent h) i, rd_sequence_no = seq, rd_verdict = APPROVED,
        rd_evaluated = False, rd_risk_state_ref = risk_state_ref (h_state h) s,
        rd_risk_evaluation_time = Some ts, rd_inputs_digest = [], rd_approved_until = Some ts,
        rd_policy_id = [], rd_policy_version = 0, rd_policy_digest = [],
        rd_requested_quantity = total_quantity i, rd_approved_quantity = total_quantity i,
        rd_approved_legs = [], rd_limits_evaluated = [],
        rd_knowledge_horizon = Some (case knowledge_horizon of Some k \<Rightarrow> k | None \<Rightarrow> ts)\<rparr>"

section \<open>Distributing an approved total\<close>

lemma sum_list_bump:
  "0 \<le> r \<Longrightarrow> sum_list (map (\<lambda>(k, q). if int k < r then q + 1 else q) (enumerate n xs)) =
     sum_list xs + max 0 (min (r - int n) (int (length xs)))"
  by (induction xs arbitrary: n) auto

lemma sum_floors:
  assumes "0 < (t :: int)"
  shows "t * (\<Sum>x\<leftarrow>xs. (x * a) div t) = a * sum_list xs - (\<Sum>x\<leftarrow>xs. (x * a) mod t)"
proof (induction xs)
  case (Cons x xs)
  have "t * ((x * a) div t) + (x * a) mod t = x * a" by (rule mult_div_mod_eq)
  with Cons show ?case by (simp add: distrib_left algebra_simps)
qed simp

lemma sum_mods:
  assumes "0 < (t :: int)"
  shows "0 \<le> (\<Sum>x\<leftarrow>xs. (x * a) mod t)" and "(\<Sum>x\<leftarrow>xs. (x * a) mod t) \<le> int (length xs) * (t - 1)"
  using assms by (induction xs) (simp_all add: add_mono distrib_right pos_mod_bound zle_diff1_eq)

lemma floors_remainder:
  assumes t: "0 < t" and s: "sum_list xs = t" and a: "0 \<le> a"
  shows "0 \<le> a - (\<Sum>x\<leftarrow>xs. (x * a) div t) \<and> a - (\<Sum>x\<leftarrow>xs. (x * a) div t) \<le> int (length xs)"
proof -
  let ?d = "a - (\<Sum>x\<leftarrow>xs. (x * a) div t)"
  have e: "t * ?d = (\<Sum>x\<leftarrow>xs. (x * a) mod t)"
    using sum_floors [OF t, of a xs] s by (simp add: right_diff_distrib mult.commute)
  then have "0 \<le> t * ?d" "t * ?d \<le> int (length xs) * (t - 1)" using sum_mods [OF t, of a xs] by simp_all
  moreover from this have "t * ?d \<le> t * int (length xs)" by (simp add: algebra_simps) 
  ultimately show ?thesis using t by (simp add: zero_le_mult_iff)
qed

text \<open>With totals up to \<open>2 ^ 25\<close> the truncated float quotients are the exact ones.\<close>

lemma scaled_floors_exact:
  assumes ok: "trade_intent_ok i" and a: "0 \<le> a" "a \<le> total_quantity i" and small: "total_quantity i \<le> 2 ^ 25"
  shows "scaled_floors i a = map (\<lambda>q. (q * a) div total_quantity i) (map leg_quantity (ti_legs i))"
proof -
  have "float_trunc (int_truediv (leg_quantity l * a) (total_quantity i)) = (leg_quantity l * a) div total_quantity i"
    if l: "l \<in> set (ti_legs i)" for l
  proof (rule float_trunc_truediv)
    have q: "0 < leg_quantity l" "leg_quantity l \<le> total_quantity i"
      using trade_intent_ok_quantity [OF ok l] total_quantity_ge_leg [OF ok l] by simp_all
    show "0 \<le> leg_quantity l * a" using q a by simp
    have "leg_quantity l * a \<le> 2 ^ 25 * 2 ^ 25" using q a small by (intro mult_mono) auto
    then show "leg_quantity l * a + total_quantity i \<le> 2 ^ 52" using small by simp
  qed (rule total_quantity_pos [OF ok])
  then show ?thesis by (simp add: scaled_floors_def)
qed

lemma share_bounds:
  assumes "0 < q" "0 \<le> a" "a \<le> t" "0 < (t :: int)"
  shows "0 \<le> (q * a) div t" and "(q * a) div t \<le> q" and "a < t \<Longrightarrow> (q * a) div t + 1 \<le> q"
proof -
  show "0 \<le> (q * a) div t" using assms by (simp add: pos_imp_zdiv_nonneg_iff)
  have "q * a \<le> q * t" using assms by (intro mult_left_mono) auto
  then show "(q * a) div t \<le> q" using assms by (metis nonzero_mult_div_cancel_right zdiv_mono1 order_less_irrefl)
  assume "a < t"
  then have "q * a < q * t" using assms by simp
  moreover have "(q * a) div t * t \<le> q * a"
    using div_mult_mod_eq [of "q * a" t] pos_mod_sign [OF assms(4), of "q * a"] by linarith
  ultimately have "(q * a) div t * t < q * t" by linarith
  then show "(q * a) div t + 1 \<le> q" using assms by simp
qed

lemma scale_legs_form:
  assumes "trade_intent_ok i"
  shows "scale_legs i a =
     map (\<lambda>(k, q). (int k, if int k < a - sum_list (scaled_floors i a) then q + 1 else q))
       (enumerate 0 (scaled_floors i a))"
  using total_quantity_pos [OF assms] by (simp add: scale_legs_def Let_def)

lemma scale_legs_indices:
  "trade_intent_ok i \<Longrightarrow> map fst (scale_legs i a) = map int [0..<length (ti_legs i)]"
  by (simp add: scale_legs_form scaled_floors_def case_prod_beta comp_def flip: map_map [of int fst, unfolded comp_def])

text \<open>
  An approved total is distributed over the legs exactly: one share per leg, the shares
  sum to the total, none exceeds the quantity its leg asked for, and each is within one unit of
  the proportional share, although the code computes the shares with floating-point division. The
  bound of \<open>2 ^ 25\<close> units on the intent keeps every product well inside a float's 53 bits.
\<close>

theorem scaled_legs_exact:
  assumes ok: "trade_intent_ok i" and a: "0 < a" "a \<le> total_quantity i"
    and small: "total_quantity i \<le> 2 ^ 25"
  shows "sum_list (map snd (scale_legs i a)) = a
    \<and> map fst (scale_legs i a) = map int [0..<length (ti_legs i)]
    \<and> list_all2 (\<lambda>(k, q) l. 0 \<le> q \<and> q \<le> leg_quantity l
         \<and> \<bar>q * total_quantity i - leg_quantity l * a\<bar> \<le> total_quantity i) (scale_legs i a) (ti_legs i)"
proof -
  let ?t = "total_quantity i" and ?qs = "map leg_quantity (ti_legs i)"
  let ?r = "a - sum_list (scaled_floors i a)"
  have t: "0 < ?t" using total_quantity_pos [OF ok] .
  have floors: "scaled_floors i a = map (\<lambda>q. (q * a) div ?t) ?qs"
    using scaled_floors_exact [OF ok _ _ small] a by simp
  have r: "0 \<le> ?r \<and> ?r \<le> int (length (scaled_floors i a))"
    using floors_remainder [OF t, of ?qs a] a floors by (simp add: total_quantity_def comp_def)
  have full: "?r = 0" if "a = ?t"
    unfolding floors using that t by (simp add: comp_def) (simp add: total_quantity_def)
  have "sum_list (map snd (scale_legs i a)) = a"
    using sum_list_bump [of ?r 0 "scaled_floors i a"] r
    by (simp add: scale_legs_form [OF ok] case_prod_unfold comp_def)
  moreover have "list_all2 (\<lambda>(k, q) l. 0 \<le> q \<and> q \<le> leg_quantity l
         \<and> \<bar>q * ?t - leg_quantity l * a\<bar> \<le> ?t) (scale_legs i a) (ti_legs i)"
  proof (rule list_all2_all_nthI)
    show "length (scale_legs i a) = length (ti_legs i)"
      by (simp add: scale_legs_form [OF ok] scaled_floors_def)
    fix n assume "n < length (scale_legs i a)"
    then have n: "n < length (ti_legs i)" by (simp add: scale_legs_form [OF ok] scaled_floors_def)
    let ?q = "leg_quantity (ti_legs i ! n)"
    have q: "0 < ?q" using trade_intent_ok_quantity [OF ok] n by simp
    have nth: "scale_legs i a ! n = (int n, if int n < ?r then (?q * a) div ?t + 1 else (?q * a) div ?t)"
      using n by (simp add: scale_legs_form [OF ok] nth_enumerate_eq floors)
    note share = share_bounds [OF q less_imp_le [OF a(1)] a(2) t]
    have "(?q * a) div ?t * ?t + (?q * a) mod ?t = ?q * a" by (rule div_mult_mod_eq)
    with pos_mod_bound [OF t, of "?q * a"] pos_mod_sign [OF t, of "?q * a"]
    have near: "\<bar>(?q * a) div ?t * ?t - ?q * a\<bar> \<le> ?t" "\<bar>((?q * a) div ?t + 1) * ?t - ?q * a\<bar> \<le> ?t"
      by (simp_all only: distrib_right mult_1_left)
    have lt: "a < ?t" if "int n < ?r"
    proof -
      have "a \<noteq> ?t" using full that by linarith
      then show ?thesis using a(2) by simp
    qed
    show "(case scale_legs i a ! n of (k, q) \<Rightarrow> \<lambda>l. 0 \<le> q \<and> q \<le> leg_quantity l
         \<and> \<bar>q * ?t - leg_quantity l * a\<bar> \<le> ?t) (ti_legs i ! n)"
      unfolding nth using share near lt by (cases "int n < ?r") simp_all
  qed
  ultimately show ?thesis using scale_legs_indices [OF ok] by simp
qed

definition two_leg_intent :: "int \<Rightarrow> int \<Rightarrow> trade_intent" where
  "two_leg_intent p q = \<lparr>ti_account_id = ''acc'', ti_source = STRATEGY, ti_source_ref = ''mom@v1'',
     ti_legs = [\<lparr>leg_instrument_id = 7, leg_side = BUY, leg_quantity = p, leg_order_type = MARKET,
                 leg_limit_price = None\<rparr>,
                \<lparr>leg_instrument_id = 8, leg_side = SELL, leg_quantity = q, leg_order_type = MARKET,
                 leg_limit_price = None\<rparr>],
     ti_market_time = clock 10 0, ti_knowledge_time = clock 10 0, ti_decision_time = clock 10 0,
     ti_time_in_force = DAY, ti_constraints = no_constraints, ti_rationale_ref = [],
     ti_state_checkpoint_ref = [], ti_build_context_id = [], ti_signal_id = [], ti_signal_version = 0,
     ti_strategy_id = ''mom'', ti_strategy_version = 1, ti_client_order_intent_id = [],
     ti_reason = [], ti_evidence_refs = []\<rparr>"

lemma two_leg_intent_ok: "0 < p \<Longrightarrow> 0 < q \<Longrightarrow> trade_intent_ok (two_leg_intent p q)"
  by (simp add: two_leg_intent_def trade_intent_ok_def trade_intent_check_def leg_check_def)

lemma two_leg_total: "total_quantity (two_leg_intent p q) = p + q"
  by (simp add: two_leg_intent_def total_quantity_def)

theorem scaled_legs_exact_witness:
  "sum_list (map snd (scale_legs (two_leg_intent 100 33) 50)) = 50"
  using scaled_legs_exact [OF two_leg_intent_ok, of 100 33 50] by (simp add: two_leg_total)

section \<open>The interface of a risk gate\<close>

text \<open>
  What both gates promise the submission path: the decision is about this intent and this
  sequence number, says whether rules were applied, and never approves more than was asked.
\<close>

locale risk_gate =
  fixes decide :: "hashes \<Rightarrow> trade_intent \<Rightarrow> risk_state \<Rightarrow> int \<Rightarrow> instant \<Rightarrow> instant option \<Rightarrow>
      decision_error + risk_decision"
    and evaluates_risk :: bool
  assumes decides: "trade_intent_ok i \<Longrightarrow> 1 \<le> seq \<Longrightarrow> is_ok (decide h i s seq ts k)"
    and about: "decide h i s seq ts k = Inr d \<Longrightarrow>
      rd_intent_id d = intent_id (h_intent h) i \<and> rd_sequence_no d = seq
      \<and> rd_evaluated d = evaluates_risk \<and> rd_requested_quantity d = total_quantity i
      \<and> decision_check d = None"
begin

lemma within_request:
  "decide h i s seq ts k = Inr d \<Longrightarrow> 0 \<le> rd_approved_quantity d \<and> rd_approved_quantity d \<le> total_quantity i"
  using about [of h i s seq ts k d] by (auto simp: decision_check_def split: if_splits)

lemma pass_through_is_powerless:
  "\<not> evaluates_risk \<Longrightarrow> decide h i s seq ts k = Inr d \<Longrightarrow> \<not> is_actionable_at d us"
  using about [of h i s seq ts k d] actionable_facts(1) by blast

lemma other_intent_unauthorized:
  "decide h i s seq ts k = Inr d \<Longrightarrow> x \<noteq> intent_id (h_intent h) i \<Longrightarrow> \<not> authorizes d x us"
  using about [of h i s seq ts k d] by (simp add: authorizes_def)

lemma approval_positive:
  "decide h i s seq ts k = Inr d \<Longrightarrow> is_actionable_at d us \<Longrightarrow>
     evaluates_risk \<and> 0 < rd_approved_quantity d \<and> rd_approved_quantity d \<le> total_quantity i"
  using within_request pass_through_is_powerless actionable_facts(3) by blast

end

lemma intent_id_nonempty [simp]: "intent_id d i \<noteq> []"
  by (simp add: intent_id_def)

interpretation pass_through: risk_gate unevaluated_gate False
proof
  show "is_ok (unevaluated_gate h i s seq ts k)" if "trade_intent_ok i" "1 \<le> seq" for h i s seq ts k
    using that total_quantity_pos [OF that(1)]
    by (simp add: unevaluated_gate_def make_decision_def decision_check_def)
qed (auto simp: unevaluated_gate_def make_decision_Inr_iff decision_check_def split: if_splits)

text \<open>The shape of every decision of the engine.\<close>

lemma resize_over_bounds: "resize_over t bs a = Some q \<Longrightarrow> 0 \<le> q \<and> q \<le> max a 0"
proof (induction t bs a rule: resize_over.induct)
  case (2 t b bs a)
  then show ?case
    by (fastforce simp: Let_def split: option.splits evidence.splits if_splits
        intro: order_trans [of q "max (min a x) 0" for x])
qed simp

lemma sorted_enumerate: "sort (map (\<lambda>(k, x). (int k, f k x)) (enumerate n xs)) =
    map (\<lambda>(k, x). (int k, f k x)) (enumerate n xs)"
proof -
  have "sorted (map (\<lambda>(k, x). (int k, f k x)) (enumerate n xs))"
    by (induction xs arbitrary: n) (force simp: less_eq_prod_def in_set_enumerate_eq)+
  then show ?thesis by (rule sorted_sort_id)
qed

lemma sort_scale_legs: "sort (scale_legs i q) = scale_legs i q"
  using sorted_enumerate [of "\<lambda>k x. if int k < q - sum_list (scaled_floors i q) then x + 1 else x :: int" 0]
  by (simp add: scale_legs_def Let_def)

definition all_legs :: "trade_intent \<Rightarrow> (int \<times> int) list" where
  "all_legs i = map (\<lambda>(k, l). (int k, leg_quantity l)) (enumerate 0 (ti_legs i))"

lemma sort_all_legs: "sort (all_legs i) = all_legs i"
  unfolding all_legs_def using sorted_enumerate [of "\<lambda>_. leg_quantity" 0] .

lemma resize_bounds: "trade_intent_ok i \<Longrightarrow> resize e i bs = Some q \<Longrightarrow> 0 \<le> q \<and> q \<le> total_quantity i"
  using resize_over_bounds [of "total_quantity i" bs "total_quantity i" q] total_quantity_pos [of i]
  by (auto simp: resize_def split: if_splits)

text \<open>The outcome as a function: verdict, quantity, legs, horizon and evidence.\<close>

definition breached_limits :: "risk_engine \<Rightarrow> trade_intent \<Rightarrow> risk_state \<Rightarrow> limit_evaluation list" where
  "breached_limits e i s =
     filter (\<lambda>ev. le_status ev = BREACHED) (evaluate_all i s (pol_limits (eng_policy e)))"

definition all_evaluable :: "risk_engine \<Rightarrow> trade_intent \<Rightarrow> risk_state \<Rightarrow> bool" where
  "all_evaluable e i s \<longleftrightarrow>
     (\<forall>ev\<in>set (evaluate_all i s (pol_limits (eng_policy e))). le_status ev \<noteq> NOT_EVALUABLE)"

lemma make_engine_decision:
  assumes "1 \<le> seq" "0 \<le> q" "q \<le> total_quantity i"
    and "v = APPROVED \<Longrightarrow> until \<noteq> None" "v = REJECTED_BY_RISK \<Longrightarrow> q = 0"
    and "sort legs = legs"
  shows "make_decision (engine_decision h e i s seq ts horizon v q legs until evs) =
    Inr (engine_decision h e i s seq ts horizon v q legs until evs)"
  using assms by (simp add: make_decision_def decision_check_def engine_decision_def)

lemma evaluate_cases:
  assumes ok: "trade_intent_ok i" and seq: "1 \<le> seq"
  obtains
    (look_ahead) ev where "(case k of Some x \<Rightarrow> x | None \<Rightarrow> ts) < rs_knowledge_time s"
      "evaluate h e i s seq ts k = Inr (engine_decision h e i s seq ts (case k of Some x \<Rightarrow> x | None \<Rightarrow> ts)
         REJECTED_BY_RISK 0 [] None [ev])"
  | (refused) "rs_knowledge_time s \<le> (case k of Some x \<Rightarrow> x | None \<Rightarrow> ts)"
      "\<not> all_evaluable e i s \<or> breached_limits e i s \<noteq> []
         \<and> (resize e i (breached_limits e i s) = None \<or> resize e i (breached_limits e i s) = Some 0)"
      "evaluate h e i s seq ts k = Inr (engine_decision h e i s seq ts (case k of Some x \<Rightarrow> x | None \<Rightarrow> ts)
         REJECTED_BY_RISK 0 [] None (evaluate_all i s (pol_limits (eng_policy e))))"
  | (resized) q where "rs_knowledge_time s \<le> (case k of Some x \<Rightarrow> x | None \<Rightarrow> ts)"
      "all_evaluable e i s" "breached_limits e i s \<noteq> []"
      "resize e i (breached_limits e i s) = Some q" "0 < q" "q \<le> total_quantity i"
      "evaluate h e i s seq ts k = Inr (engine_decision h e i s seq ts (case k of Some x \<Rightarrow> x | None \<Rightarrow> ts)
         MODIFIED q (scale_legs i q) (Some (ts + eng_approval_validity e))
         (evaluate_all i s (pol_limits (eng_policy e))))"
  | (approved) "rs_knowledge_time s \<le> (case k of Some x \<Rightarrow> x | None \<Rightarrow> ts)"
      "all_evaluable e i s" "breached_limits e i s = []"
      "evaluate h e i s seq ts k = Inr (engine_decision h e i s seq ts (case k of Some x \<Rightarrow> x | None \<Rightarrow> ts)
         APPROVED (total_quantity i) (all_legs i) (Some (ts + eng_approval_validity e))
         (evaluate_all i s (pol_limits (eng_policy e))))"
proof -
  define hz where "hz = (case k of Some x \<Rightarrow> x | None \<Rightarrow> ts)"
  let ?evs = "evaluate_all i s (pol_limits (eng_policy e))" and ?bs = "breached_limits e i s"
  let ?reject = "\<lambda>evs. engine_decision h e i s seq ts hz REJECTED_BY_RISK 0 [] None evs"
  have T: "0 \<le> total_quantity i" using total_quantity_pos [OF ok] by simp
  have reject: "make_decision (?reject evs) = Inr (?reject evs)" for evs
    by (rule make_engine_decision [OF seq]) (simp_all add: T)
  have full: "make_decision (engine_decision h e i s seq ts hz APPROVED (total_quantity i) (all_legs i) (Some u) evs)
      = Inr (engine_decision h e i s seq ts hz APPROVED (total_quantity i) (all_legs i) (Some u) evs)" for u evs
    by (rule make_engine_decision [OF seq]) (simp_all add: T sort_all_legs)
  have part: "make_decision (engine_decision h e i s seq ts hz MODIFIED q (scale_legs i q) (Some u) evs)
      = Inr (engine_decision h e i s seq ts hz MODIFIED q (scale_legs i q) (Some u) evs)"
    if "resize e i ?bs = Some q" for q u evs
    by (rule make_engine_decision [OF seq]) (use resize_bounds [OF ok that] in \<open>simp_all add: sort_scale_legs\<close>)
  have ev: "evaluate h e i s seq ts k =
      (case check_horizon s hz of
         Some violation \<Rightarrow> Inr (?reject [violation])
       | None \<Rightarrow> if \<not> all_evaluable e i s then Inr (?reject ?evs)
                else if ?bs \<noteq> []
                then (case resize e i ?bs of
                        Some q \<Rightarrow> if 0 < q then Inr (engine_decision h e i s seq ts hz MODIFIED q (scale_legs i q)
                                                     (Some (ts + eng_approval_validity e)) ?evs)
                                  else Inr (?reject ?evs)
                      | None \<Rightarrow> Inr (?reject ?evs))
                else Inr (engine_decision h e i s seq ts hz APPROVED (total_quantity i) (all_legs i)
                       (Some (ts + eng_approval_validity e)) ?evs))"
  proof -
    have ae: "all_evaluable e i s \<longleftrightarrow> filter (\<lambda>ev. le_status ev = NOT_EVALUABLE) ?evs = []"
      by (simp add: all_evaluable_def filter_empty_conv)
    show ?thesis
      unfolding evaluate_def Let_def hz_def [symmetric] breached_limits_def [symmetric] ae all_legs_def [symmetric]
      by (cases "resize e i ?bs") (simp_all only: reject full part option.case)
  qed
  show thesis
  proof (cases "hz < rs_knowledge_time s")
    case True
    then show thesis
      using ev by (intro look_ahead [of "the (check_horizon s hz)"]) (simp_all add: check_horizon_def hz_def [symmetric])
  next
    case hor: False
    show thesis
    proof (cases "all_evaluable e i s \<and> (?bs = [] \<or> (\<exists>q. resize e i ?bs = Some q \<and> 0 < q))")
      case False
      then have "evaluate h e i s seq ts k = Inr (?reject ?evs)"
        using ev hor by (auto simp: check_horizon_def split: option.splits)
      with False hor show thesis
        using resize_bounds [OF ok, of e ?bs]
        by (intro refused; cases "resize e i ?bs") (auto simp: hz_def [symmetric] not_less less_le)
    next
      case True
      show thesis
      proof (cases "?bs = []")
        case nb: True
        then show thesis
          using True hor ev by (intro approved) (simp_all add: hz_def [symmetric] check_horizon_def)
      next
        case False
        with True obtain q where q: "resize e i ?bs = Some q" "0 < q" by blast
        show thesis
          by (rule resized [of q])
            (use False True hor ev q resize_bounds [OF ok q(1)] in
              \<open>simp_all add: hz_def [symmetric] check_horizon_def\<close>)
      qed
    qed
  qed
qed

lemma engine_decision_simps [simp]:
  "rd_intent_id (engine_decision h e i s seq ts hz v q legs until evs) = intent_id (h_intent h) i"
  "rd_sequence_no (engine_decision h e i s seq ts hz v q legs until evs) = seq"
  "rd_verdict (engine_decision h e i s seq ts hz v q legs until evs) = v"
  "rd_evaluated (engine_decision h e i s seq ts hz v q legs until evs)"
  "rd_approved_until (engine_decision h e i s seq ts hz v q legs until evs) = until"
  "rd_requested_quantity (engine_decision h e i s seq ts hz v q legs until evs) = total_quantity i"
  "rd_approved_quantity (engine_decision h e i s seq ts hz v q legs until evs) = q"
  "rd_approved_legs (engine_decision h e i s seq ts hz v q legs until evs) = legs"
  "rd_limits_evaluated (engine_decision h e i s seq ts hz v q legs until evs) = evs"
  "rd_knowledge_horizon (engine_decision h e i s seq ts hz v q legs until evs) = Some hz"
  by (simp_all add: engine_decision_def)

interpretation engine: risk_gate "\<lambda>h. evaluate h e" True for e
proof
  show "is_ok (evaluate h e i s seq ts k)" if "trade_intent_ok i" "1 \<le> seq" for h i s seq ts k
    using that by (cases rule: evaluate_cases [where h = h and e = e and i = i and s = s and seq = seq and ts = ts and k = k]) simp_all
  show "rd_intent_id d = intent_id (h_intent h) i \<and> rd_sequence_no d = seq \<and> rd_evaluated d = True
      \<and> rd_requested_quantity d = total_quantity i \<and> decision_check d = None"
    if "evaluate h e i s seq ts k = Inr d" for h i s seq ts k d
    using that
    by (auto simp: evaluate_def Let_def make_decision_Inr_iff decision_check_def split: option.splits if_splits)
qed

text \<open>A decision is a full approval exactly when the state is readable and the policy permits.\<close>

lemma clear_all_iff:
  "(\<forall>ev\<in>set (evaluate_all i s (pol_limits (eng_policy e))). clear ev) \<longleftrightarrow>
     all_evaluable e i s \<and> breached_limits e i s = []"
  by (auto simp: clear_def all_evaluable_def breached_limits_def filter_empty_conv)

definition sample_hashes :: hashes where
  "sample_hashes = \<lparr>h_intent = (\<lambda>_. ''i''), h_policy = (\<lambda>_. ''p''), h_state = (\<lambda>_. ''s''),
     h_inputs = (\<lambda>_. ''n''), h_text = (\<lambda>_. ''t''), h_decision = (\<lambda>_. ''d'')\<rparr>"

definition sample_engine :: "risk_limits \<Rightarrow> bool \<Rightarrow> risk_engine" where
  "sample_engine ls resizing = \<lparr>eng_policy = \<lparr>pol_id = ''p'', pol_version = 1, pol_limits = ls,
       pol_description = [], pol_scope = []\<rparr>,
     eng_approval_validity = default_approval_validity, eng_allow_resizing = resizing\<rparr>"

lemma sample_engine_simps [simp]:
  "pol_limits (eng_policy (sample_engine ls r)) = ls" "eng_allow_resizing (sample_engine ls r) = r"
  by (simp_all add: sample_engine_def)

lemma rnd28_le_cents: "x \<le> of_int n / 10 ^ k \<Longrightarrow> \<bar>n\<bar> \<le> 10 ^ 28 \<Longrightarrow> rnd28 x \<le> of_int n / 10 ^ k"
  using rnd_sig_exact [of 10 28 n "- int k"]
  by (intro ctx.le_fixed) (simp_all add: rnd28_def power_int_minus field_simps)

lemma sample_permitted: "permits conservative_limits (two_leg_intent 10 5) sample_state"
proof -
  have "rnd28 (9 / 1000) \<le> of_int 5 / 10 ^ 1" "rnd28 (1 / 2) \<le> of_int 6 / 10 ^ 1"
    "rnd28 (1 / 3) \<le> of_int 4 / 10 ^ 1"
    by (rule rnd28_le_cents; simp)+
  then show ?thesis
    unfolding permits_def if_set_def bounded_exposure_def spread_out_def
    by (simp add: conservative_limits_def sample_state_def two_leg_intent_def halts_def
        window_contains_def wall_clock_def clock_def is_usable_def intent_notional_def leg_price_def mark_for_def
        resulting_position_def position_in_def sample_position_def
        position_in_underlying_def underlying_of_def strategy_position_def total_quantity_def available_cash_def
        deployed_capital_def strategy_loss_def dec_le_iff no_exposure_def upper_char_def)
qed

text \<open>
  Claim C24: no setting rescues an intent the kill switch halts, nor one evaluated against a state
  that knows more than the evaluation may: whatever the policy and even with resizing on, the
  decision is a rejection, approves nothing, and authorizes no intent at any time.
\<close>

theorem hard_stops_never_authorize:
  assumes "trade_intent_ok i" "1 \<le> seq"
    and "halts (rs_kill_switch s) (ti_strategy_id i)
       \<or> (case k of Some x \<Rightarrow> x | None \<Rightarrow> ts) < rs_knowledge_time s"
  shows "\<exists>d. evaluate h e i s seq ts k = Inr d \<and> rd_verdict d = REJECTED_BY_RISK
    \<and> rd_approved_quantity d = 0 \<and> \<not> authorizes d x us"
proof -
  have kill: "check_kill_switch i s (pol_limits (eng_policy e)) \<in> set (breached_limits e i s)"
    if "halts (rs_kill_switch s) (ti_strategy_id i)"
    using that by (simp add: breached_limits_def evaluate_all_def all_checks_def check_kill_switch_def)
  have none: "resize e i (breached_limits e i s) = None"
    if "halts (rs_kill_switch s) (ti_strategy_id i)"
    using kill [OF that] by (auto simp: resize_def resizable_def check_ids intro!: bexI)
  show ?thesis
    using assms kill none
    by (cases rule: evaluate_cases [where h = h and e = e and i = i and s = s and seq = seq and ts = ts and k = k])
      (auto simp: authorizes_def dest: actionable_verdict)
qed

definition halted_state :: risk_state where
  "halted_state = sample_state\<lparr>rs_kill_switch := \<lparr>ks_engaged = True, ks_halted_strategies = [],
     ks_reason = [], ks_engaged_at = None\<rparr>\<rparr>"

theorem hard_stops_never_authorize_witness:
  "\<exists>d. evaluate sample_hashes (sample_engine default_limits True) (two_leg_intent 10 5) halted_state 1
     (clock 10 0) None = Inr d \<and> rd_verdict d = REJECTED_BY_RISK \<and> \<not> authorizes d ''int_i'' (clock 10 0)"
proof -
  have ok: "trade_intent_ok (two_leg_intent 10 5)" by (simp add: two_leg_intent_ok)
  have halt: "halts (rs_kill_switch halted_state) (ti_strategy_id (two_leg_intent 10 5))"
    by (simp add: halts_def halted_state_def)
  show ?thesis
    using hard_stops_never_authorize [OF ok _ disjI1 [OF halt], where seq = 1 and h = sample_hashes and
        e = "sample_engine default_limits True" and ts = "clock 10 0" and k = None and
        x = "''int_i''" and us = "clock 10 0"] by auto
qed

section \<open>Resizing\<close>

text \<open>The evidence of a resizable breach is a pair of integers.\<close>

definition int_breach :: "limit_evaluation \<Rightarrow> int \<Rightarrow> int \<Rightarrow> bool" where
  "int_breach b m x \<longleftrightarrow> m < x \<and> le_limit_value b = Some (Num (dec_int m))
     \<and> le_observed_value b = Some (Num (dec_int x))"

lemma compare_int_breach:
  "le_status (compare_limit c i (dec_int x) (dec_int m)) = BREACHED \<Longrightarrow>
     int_breach (compare_limit c i (dec_int x) (dec_int m)) m x"
  by (auto simp: compare_limit_def int_breach_def dec_less_iff split: if_splits)

lemma resizable_breach:
  assumes "b \<in> set (breached_limits e i s)" "le_limit_id b \<in> set resizable"
  shows "\<exists>m x. int_breach b m x"
proof -
  let ?ls = "pol_limits (eng_policy e)"
  have st: "le_status b = BREACHED" using assms(1) by (simp add: breached_limits_def)
  have "b \<in> set (evaluate_all i s ?ls)" using assms(1) by (simp add: breached_limits_def)
  then have "b \<in> {check_order_quantity i s ?ls, check_position_per_instrument i s ?ls,
      check_position_per_underlying i s ?ls, check_position_per_strategy i s ?ls}"
    using assms(2) unfolding evaluate_all_def all_checks_def resizable_def list.map list.set
    by (elim insertE emptyE; simp add: check_ids)
  then show ?thesis using st
    by (auto simp: check_order_quantity_def check_position_per_instrument_def
        check_position_per_underlying_def check_position_per_strategy_def not_configured_def
        not_evaluable_def split: option.splits if_splits dest!: compare_int_breach)
qed

lemma int_excess:
  assumes "m < x"
  shows "\<not> dec_int x - dec_int m \<le> 0" and "1 \<le> dec_trunc (dec_int x - dec_int m)"
proof -
  have "1 \<le> rnd28 (of_int x - of_int m)"
    using assms by (intro ctx.ge_fixed) (simp_all flip: of_int_diff)
  then show "\<not> dec_int x - dec_int m \<le> 0" "1 \<le> dec_trunc (dec_int x - dec_int m)"
    by (auto simp: dec_le_iff dec_trunc_def)
qed

lemma resize_over_less:
  "\<forall>b\<in>set bs. \<exists>m x. int_breach b m x \<Longrightarrow> bs \<noteq> [] \<Longrightarrow>
     \<exists>q. resize_over t bs a = Some q \<and> q \<le> max (t - 1) 0"
proof (induction bs arbitrary: a)
  case (Cons b bs)
  then obtain m x where b: "int_breach b m x" by auto
  let ?a = "min a (t - dec_trunc (dec_int x - dec_int m))"
  have step: "resize_over t (b # bs) a = resize_over t bs ?a"
    using b int_excess(1) [of m x] by (simp add: int_breach_def Let_def)
  show ?case
  proof (cases bs)
    case Nil
    then show ?thesis using step int_excess(2) [of m x] b by (simp add: int_breach_def)
  next
    case (Cons c cs)
    then show ?thesis using Cons.IH Cons.prems step by simp
  qed
qed simp

text \<open>
  A reduced approval is given only where the operator asked for it, only when every
  limit could be checked and every breach is one of the four size limits, and it is a real
  reduction: positive and strictly below the request, which itself is untouched.
\<close>

theorem modified_only_for_size:
  assumes "trade_intent_ok i" "1 \<le> seq"
    and "evaluate h e i s seq ts k = Inr d" "rd_verdict d = MODIFIED"
  shows "eng_allow_resizing e
    \<and> (\<forall>ev\<in>set (rd_limits_evaluated d). le_status ev \<noteq> NOT_EVALUABLE)
    \<and> breaches d \<noteq> [] \<and> (\<forall>b\<in>set (breaches d). le_limit_id b \<in> set resizable)
    \<and> 0 < rd_approved_quantity d \<and> rd_approved_quantity d < total_quantity i
    \<and> rd_requested_quantity d = total_quantity i"
  using assms(1,2)
proof (cases rule: evaluate_cases [where h = h and e = e and i = i and s = s and seq = seq and ts = ts and k = k])
  case (resized q)
  have br: "breaches d = breached_limits e i s" "rd_approved_quantity d = q"
    using resized(7) assms(3) by (simp_all add: breaches_def breached_limits_def blocks_def)
  have ids: "eng_allow_resizing e" "\<forall>b\<in>set (breached_limits e i s). le_limit_id b \<in> set resizable"
    and over: "resize_over (total_quantity i) (breached_limits e i s) (total_quantity i) = Some q"
    using resized(4) by (auto simp: resize_def split: if_splits)
  have "q \<le> max (total_quantity i - 1) 0"
    using resize_over_less [of "breached_limits e i s" "total_quantity i" "total_quantity i"] resizable_breach ids(2)
      resized(3) over by force
  then show ?thesis
    using br ids resized assms(3) by (auto simp: all_evaluable_def)
qed (use assms in auto)

text \<open>The legs of a reduced approval share out exactly what is approved.\<close>

lemma modified_legs:
  assumes "trade_intent_ok i" "1 \<le> seq"
    and "evaluate h e i s seq ts k = Inr d" "rd_verdict d = MODIFIED"
  shows "(total_quantity i \<le> 2 ^ 25 \<longrightarrow> sum_list (map snd (rd_approved_legs d)) = rd_approved_quantity d
        \<and> list_all2 (\<lambda>(_, q) l. 0 \<le> q \<and> q \<le> leg_quantity l) (rd_approved_legs d) (ti_legs i))
    \<and> rd_approved_until d = Some (ts + eng_approval_validity e)"
  using assms(1,2)
proof (cases rule: evaluate_cases [where h = h and e = e and i = i and s = s and seq = seq and ts = ts and k = k])
  case (resized q)
  have "sum_list (map snd (scale_legs i q)) = q
      \<and> list_all2 (\<lambda>(_, q) l. 0 \<le> q \<and> q \<le> leg_quantity l) (scale_legs i q) (ti_legs i)" if "total_quantity i \<le> 2 ^ 25"
    using scaled_legs_exact [OF assms(1) resized(5,6) that] by (auto elim: list_all2_mono)
  then show ?thesis using resized(7) assms(3) by auto
qed (use assms in auto)

subsection \<open>A concrete reduction\<close>

text \<open>Only the order size is configured; everything else of the default policy.\<close>

definition size_policy :: "int \<Rightarrow> risk_limits" where
  "size_policy m = default_limits\<lparr>max_order_quantity := Some m\<rparr>"

lemmas plain_state =
  sample_state_def two_leg_intent_def halts_def is_usable_def leg_price_def mark_for_def available_cash_def
  upper_char_def default_limits_def

lemma size_policy_evaluations:
  "breached_limits (sample_engine (size_policy 250) True) (two_leg_intent 300 300) sample_state
     = [compare_limit ORDER_LIMIT ''max_order_quantity'' (dec_int 300) (dec_int 250)]"
  "all_evaluable (sample_engine (size_policy 250) True) (two_leg_intent 300 300) sample_state"
  by (simp_all add: breached_limits_def all_evaluable_def evaluate_all_def all_checks_def size_policy_def
      check_kill_switch_def check_session_window_def check_venue_health_def check_state_quality_def
      check_state_staleness_def check_state_coverage_def check_order_quantity_def check_order_notional_def
      check_order_rate_def check_position_per_instrument_def check_position_per_underlying_def
      check_position_per_strategy_def check_cash_sufficiency_def check_deployed_capital_def
      check_capital_utilisation_def check_leverage_def check_strategy_loss_def clear_plain loss_check_def
      exposure_check_def concentration_def largest_leg_def not_configured_def compare_limit_def
      plain_state dec_less_iff)

lemma resize_example:
  "resize (sample_engine (size_policy 250) True) (two_leg_intent 300 300)
     [compare_limit ORDER_LIMIT ''max_order_quantity'' (dec_int 300) (dec_int 250)] = Some 550"
  by (simp add: resize_def resizable_def two_leg_total compare_limit_def dec_le_iff dec_trunc_def Let_def)

lemma scale_example: "scale_legs (two_leg_intent 300 300) 550 = [(0, 275), (1, 275)]"
proof -
  have "scaled_floors (two_leg_intent 300 300) 550 = [275, 275]"
    using scaled_floors_exact [OF two_leg_intent_ok, of 300 300 550]
    by (simp add: two_leg_total) (simp add: two_leg_intent_def)
  then show ?thesis by (simp add: scale_legs_def two_leg_total Let_def)
qed

lemma size_policy_decision:
  obtains d where "evaluate sample_hashes (sample_engine (size_policy 250) True) (two_leg_intent 300 300)
      sample_state 1 (clock 10 0) None = Inr d" "rd_verdict d = MODIFIED" "rd_approved_quantity d = 550"
    "rd_approved_legs d = [(0, 275), (1, 275)]"
proof -
  have ok: "trade_intent_ok (two_leg_intent 300 300)" by (simp add: two_leg_intent_ok)
  have "1 \<le> (1 :: int)" by simp
  from ok this show thesis
    by (cases rule: evaluate_cases [where h = sample_hashes and e = "sample_engine (size_policy 250) True" and
          s = sample_state and ts = "clock 10 0" and k = None])
      (use that in \<open>auto simp: size_policy_evaluations resize_example scale_example, simp_all add: sample_state_def\<close>)
qed

theorem modified_only_for_size_witness:
  "\<exists>d. evaluate sample_hashes (sample_engine (size_policy 250) True) (two_leg_intent 300 300)
      sample_state 1 (clock 10 0) None = Inr d
    \<and> 0 < rd_approved_quantity d \<and> rd_approved_quantity d < 600"
proof -
  obtain d where d: "evaluate sample_hashes (sample_engine (size_policy 250) True) (two_leg_intent 300 300)
      sample_state 1 (clock 10 0) None = Inr d" "rd_verdict d = MODIFIED"
    by (rule size_policy_decision)
  show ?thesis
    using modified_only_for_size [OF two_leg_intent_ok _ d] d(1) by (auto simp: two_leg_total)
qed

subsection \<open>The engine, outcome by outcome\<close>

text \<open>
  Claim C3: The engine is fail-closed and complete. On a well-formed intent it always decides; it
  approves in full exactly when the state was assembled within the knowledge horizon and every
  clause of the policy, read declaratively, holds of intent and state: a missing input or a
  breach of any of the twenty-seven limits is never a full approval, and nothing else withholds one.
  A full approval carries every leg and lapses after the engine's validity. The only other approval is a
  reduced one: resizing is on, every limit could be checked, there is a breach and each breach is one of
  the four size limits, and what is approved is positive and strictly less than what was asked, handed
  out over the legs without remainder and never above what a leg asked for (for totals up to \<open>2 ^ 25\<close>,
  where the float quotients are exact), with the same validity. Every other outcome is a rejection that
  approves no quantity and no leg and has no validity.
\<close>

theorem engine_approves_iff_permitted:
  assumes "trade_intent_ok i" "1 \<le> seq"
  shows "\<exists>d. evaluate h e i s seq ts k = Inr d
    \<and> (rd_verdict d = APPROVED \<longleftrightarrow>
         rs_knowledge_time s \<le> (case k of Some x \<Rightarrow> x | None \<Rightarrow> ts)
         \<and> permits (pol_limits (eng_policy e)) i s)
    \<and> (rd_verdict d = APPROVED \<longrightarrow>
         rd_approved_quantity d = total_quantity i \<and> rd_approved_legs d = all_legs i
         \<and> rd_approved_until d = Some (ts + eng_approval_validity e))
    \<and> (rd_verdict d = MODIFIED \<longrightarrow>
         eng_allow_resizing e \<and> (\<forall>ev\<in>set (rd_limits_evaluated d). le_status ev \<noteq> NOT_EVALUABLE)
         \<and> breaches d \<noteq> [] \<and> (\<forall>b\<in>set (breaches d). le_limit_id b \<in> set resizable)
         \<and> 0 < rd_approved_quantity d \<and> rd_approved_quantity d < total_quantity i
         \<and> (total_quantity i \<le> 2 ^ 25 \<longrightarrow> sum_list (map snd (rd_approved_legs d)) = rd_approved_quantity d
              \<and> list_all2 (\<lambda>(_, q) l. 0 \<le> q \<and> q \<le> leg_quantity l) (rd_approved_legs d) (ti_legs i))
         \<and> rd_approved_until d = Some (ts + eng_approval_validity e))
    \<and> (rd_verdict d \<noteq> APPROVED \<and> rd_verdict d \<noteq> MODIFIED \<longrightarrow>
         rd_verdict d = REJECTED_BY_RISK \<and> rd_approved_quantity d = 0 \<and> rd_approved_legs d = []
         \<and> rd_approved_until d = None)"
proof -
  obtain d where d: "evaluate h e i s seq ts k = Inr d"
    using engine.decides [OF assms, of h e s ts k] unfolding is_ok_iff by blast
  have full: "(rd_verdict d = APPROVED \<longleftrightarrow> rs_knowledge_time s \<le> (case k of Some x \<Rightarrow> x | None \<Rightarrow> ts)
        \<and> permits (pol_limits (eng_policy e)) i s)
      \<and> (rd_verdict d = APPROVED \<longrightarrow> rd_approved_quantity d = total_quantity i \<and> rd_approved_legs d = all_legs i
        \<and> rd_approved_until d = Some (ts + eng_approval_validity e))"
    using assms d by (cases rule: evaluate_cases [where h = h and e = e and i = i and s = s and seq = seq and ts = ts and k = k])
      (auto simp: evaluate_all_clear_iff [OF assms(1), symmetric] clear_all_iff)
  have none: "rd_verdict d \<noteq> APPROVED \<and> rd_verdict d \<noteq> MODIFIED \<longrightarrow>
      rd_verdict d = REJECTED_BY_RISK \<and> rd_approved_quantity d = 0 \<and> rd_approved_legs d = [] \<and> rd_approved_until d = None"
    using assms d by (cases rule: evaluate_cases [where h = h and e = e and i = i and s = s and seq = seq and ts = ts and k = k]) auto
  show ?thesis
    using d full none modified_only_for_size [OF assms d] modified_legs [OF assms d] by blast
qed

theorem engine_approves_iff_permitted_witness:
  "(\<exists>d. evaluate sample_hashes (sample_engine conservative_limits False)
     (two_leg_intent 10 5) sample_state 1 (clock 10 0) None = Inr d \<and> rd_verdict d = APPROVED)
   \<and> (\<exists>d. evaluate sample_hashes (sample_engine (size_policy 250) True)
     (two_leg_intent 300 300) sample_state 1 (clock 10 0) None = Inr d
     \<and> rd_verdict d = MODIFIED \<and> 0 < rd_approved_quantity d \<and> rd_approved_quantity d < 600
     \<and> sum_list (map snd (rd_approved_legs d)) = rd_approved_quantity d)"
proof -
  have ok: "trade_intent_ok (two_leg_intent 10 5)" "trade_intent_ok (two_leg_intent 300 300)" by (simp_all add: two_leg_intent_ok)
  have "permits conservative_limits (two_leg_intent 10 5) sample_state" by (rule sample_permitted)
  moreover have "rs_knowledge_time sample_state \<le> clock 10 0" by (simp add: sample_state_def)
  ultimately have approved: "\<exists>d. evaluate sample_hashes (sample_engine conservative_limits False)
     (two_leg_intent 10 5) sample_state 1 (clock 10 0) None = Inr d \<and> rd_verdict d = APPROVED"
    using engine_approves_iff_permitted [OF ok(1), where seq = 1 and h = sample_hashes and
        e = "sample_engine conservative_limits False" and s = sample_state and ts = "clock 10 0" and k = None]
    by auto
  obtain d where d: "evaluate sample_hashes (sample_engine (size_policy 250) True) (two_leg_intent 300 300)
      sample_state 1 (clock 10 0) None = Inr d" "rd_verdict d = MODIFIED"
    by (rule size_policy_decision)
  from engine_approves_iff_permitted [OF ok(2), where seq = 1 and h = sample_hashes and
      e = "sample_engine (size_policy 250) True" and s = sample_state and ts = "clock 10 0" and k = None] d
  have "0 < rd_approved_quantity d \<and> rd_approved_quantity d < 600 \<and> sum_list (map snd (rd_approved_legs d)) = rd_approved_quantity d"
    by (auto simp: two_leg_total)
  with approved d show ?thesis by blast
qed

text \<open>
  With more than one leg the reduction does not always cure the breach it answers. Two
  legs of 300 against an order limit of 250 exceed it by 50 each; the engine takes 50 off the
  total of 600 and approves 275 per leg, and re-evaluating the approved intent breaches the very
  same limit.
\<close>

theorem reduced_legs_can_still_breach:
  "\<exists>d. evaluate sample_hashes (sample_engine (size_policy 250) True) (two_leg_intent 300 300)
      sample_state 1 (clock 10 0) None = Inr d
    \<and> rd_verdict d = MODIFIED \<and> rd_approved_legs d = [(0, 275), (1, 275)]
    \<and> is_actionable_at d (clock 10 0)
    \<and> le_status (check_order_quantity (two_leg_intent 275 275) sample_state (size_policy 250)) = BREACHED"
proof -
  obtain d where d: "evaluate sample_hashes (sample_engine (size_policy 250) True) (two_leg_intent 300 300)
      sample_state 1 (clock 10 0) None = Inr d" "rd_verdict d = MODIFIED" "rd_approved_quantity d = 550"
    "rd_approved_legs d = [(0, 275), (1, 275)]"
    by (rule size_policy_decision)
  have ok: "trade_intent_ok (two_leg_intent 300 300)" "1 \<le> (1 :: int)" by (simp_all add: two_leg_intent_ok)
  from ok have "is_actionable_at d (clock 10 0)"
    by (cases rule: evaluate_cases [where h = sample_hashes and e = "sample_engine (size_policy 250) True" and
          s = sample_state and ts = "clock 10 0" and k = None])
      (use d in \<open>auto simp: is_actionable_at_def is_approved_def sample_engine_def default_approval_validity_def\<close>)
  moreover have "le_status (check_order_quantity (two_leg_intent 275 275) sample_state (size_policy 250)) = BREACHED"
    by (simp add: check_order_quantity_def size_policy_def largest_leg_def two_leg_intent_def compare_limit_def
        dec_less_iff)
  ultimately show ?thesis using d by blast
qed

subsection \<open>What a reduction of one leg guarantees\<close>

definition with_quantity :: "trade_intent \<Rightarrow> intent_leg \<Rightarrow> int \<Rightarrow> trade_intent" where
  "with_quantity i l q = i\<lparr>ti_legs := [l\<lparr>leg_quantity := q\<rparr>]\<rparr>"

lemma int_excess_exact:
  assumes "m < x" "t \<le> 10 ^ 28" "0 < t - dec_trunc (dec_int x - dec_int m)"
  shows "dec_trunc (dec_int x - dec_int m) = x - m"
proof -
  have e: "dec_trunc (dec_int x - dec_int m) = \<lfloor>rnd28 (of_int (x - m))\<rfloor>"
    using int_excess(1) [OF assms(1)] by (simp add: dec_trunc_def dec_le_iff)
  show ?thesis
  proof (cases "x - m \<le> 10 ^ 28")
    case True
    then have "rnd28 (of_int (x - m)) = of_int (x - m)" using assms(1) by (intro rnd28_int) simp
    then show ?thesis unfolding e by simp
  next
    case False
    have "rnd28 (of_int (10 ^ 28)) = of_int (10 ^ 28)" by (rule rnd28_int) simp
    then have "of_int (10 ^ 28) \<le> rnd28 (of_int (x - m))"
      using False by (intro ctx.ge_fixed) (simp_all only: of_int_le_iff)
    then have "10 ^ 28 \<le> \<lfloor>rnd28 (of_int (x - m))\<rfloor>" by (simp only: le_floor_iff)
    then show ?thesis using assms(2,3) e by linarith
  qed
qed

lemma resize_over_each:
  assumes "resize_over t bs a = Some q" "0 < q" "b \<in> set bs" "int_breach b m x" "t \<le> 10 ^ 28"
    and "\<forall>b\<in>set bs. \<exists>m x. int_breach b m x"
  shows "q + x \<le> t + m"
  using assms
proof (induction bs arbitrary: a)
  case (Cons c cs)
  obtain n y where c: "int_breach c n y" using Cons.prems(6) by auto
  have step: "resize_over t cs (min a (t - dec_trunc (dec_int y - dec_int n))) = Some q"
    using Cons.prems(1) c int_excess(1) [of n y] by (simp add: int_breach_def Let_def)
  show ?case
  proof (cases "b = c")
    case True
    then have nm: "dec_int n = dec_int m" "dec_int y = dec_int x" "m < x"
      using c Cons.prems(4) by (auto simp: int_breach_def)
    have "q \<le> t - dec_trunc (dec_int x - dec_int m)"
      using resize_over_bounds [OF step] Cons.prems(2) nm by (auto simp: min_def max_def split: if_splits)
    then show ?thesis using int_excess_exact [OF nm(3) Cons.prems(5)] Cons.prems(2) by simp
  next
    case False
    then show ?thesis using Cons.IH [OF step] Cons.prems by simp
  qed
qed simp

lemma modified_each:
  assumes "trade_intent_ok i" "1 \<le> seq" "evaluate h e i s seq ts k = Inr d" "rd_verdict d = MODIFIED"
    and "total_quantity i \<le> 10 ^ 28"
    and "b \<in> set (breached_limits e i s)" "int_breach b m x"
  shows "rd_approved_quantity d + x \<le> total_quantity i + m"
  using assms(1,2)
proof (cases rule: evaluate_cases [where h = h and e = e and i = i and s = s and seq = seq and ts = ts and k = k])
  case (resized q)
  have over: "resize_over (total_quantity i) (breached_limits e i s) (total_quantity i) = Some q"
    "\<forall>b\<in>set (breached_limits e i s). le_limit_id b \<in> set resizable"
    using resized(4) by (auto simp: resize_def split: if_splits)
  show ?thesis
    using resize_over_each [OF over(1) resized(5) assms(6,7,5)] over(2) resizable_breach resized(7) assms(3) by auto
qed (use assms in auto)

text \<open>A check whose observation is the leg's quantity plus a constant is cured by the reduction.\<close>

lemma modified_cures:
  assumes d: "trade_intent_ok i" "1 \<le> seq" "evaluate h e i s seq ts k = Inr d" "rd_verdict d = MODIFIED"
    and small: "total_quantity i \<le> 10 ^ 28"
    and chk: "compare_limit c n (dec_int (v + total_quantity i)) (dec_int m)
       \<in> set (evaluate_all i s (pol_limits (eng_policy e)))"
  shows "v + rd_approved_quantity d \<le> m"
proof (cases "v + total_quantity i \<le> m")
  case True
  then show ?thesis using modified_only_for_size [OF d] by linarith
next
  case False
  let ?b = "compare_limit c n (dec_int (v + total_quantity i)) (dec_int m)"
  have "le_status ?b = BREACHED" using False by (simp add: compare_limit_def dec_less_iff)
  then have "?b \<in> set (breached_limits e i s)" "int_breach ?b m (v + total_quantity i)"
    using chk compare_int_breach by (simp_all add: breached_limits_def)
  from modified_each [OF d small this] show ?thesis by simp
qed

lemma check_member:
  "check_order_quantity i s ls \<in> set (evaluate_all i s ls)"
  "check_position_per_instrument i s ls \<in> set (evaluate_all i s ls)"
  "check_position_per_underlying i s ls \<in> set (evaluate_all i s ls)"
  "check_position_per_strategy i s ls \<in> set (evaluate_all i s ls)"
  by (simp_all add: evaluate_all_def all_checks_def)

text \<open>
  For an intent of one leg that does not cross zero, a reduction does cure what it
  answers: evaluated again with the approved quantity, none of the four size limits is breached
  or unevaluable, whichever of them were breached before and by how much.
\<close>

theorem single_leg_reduction_cures:
  assumes ok: "trade_intent_ok i" "1 \<le> seq"
    and d: "evaluate h e i s seq ts k = Inr d" "rd_verdict d = MODIFIED"
    and leg: "ti_legs i = [l]" and small: "total_quantity i \<le> 10 ^ 28"
    and side: "0 \<le> position_in s (leg_instrument_id l) * side_sign (leg_side l)"
  shows "\<forall>c\<in>{check_order_quantity, check_position_per_instrument, check_position_per_underlying,
      check_position_per_strategy}.
      clear (c (with_quantity i l (rd_approved_quantity d)) s (pol_limits (eng_policy e)))"
proof -
  let ?ls = "pol_limits (eng_policy e)" and ?q = "rd_approved_quantity d"
  let ?i = "with_quantity i l ?q" and ?Q = "total_quantity i"
  note cures = modified_cures [OF ok d small]
  note facts = modified_only_for_size [OF ok d]
  have Q: "leg_quantity l = ?Q" using leg by (simp add: total_quantity_def)
  have legs: "ti_legs ?i = [l\<lparr>leg_quantity := ?q\<rparr>]" "total_quantity ?i = ?q" "ti_strategy_id ?i = ti_strategy_id i"
    by (simp_all add: with_quantity_def total_quantity_def)
  have open_evs: "\<forall>ev\<in>set (evaluate_all i s ?ls). le_status ev \<noteq> NOT_EVALUABLE"
    using ok
  proof (cases rule: evaluate_cases [where h = h and e = e and i = i and s = s and seq = seq and ts = ts and k = k])
    case (resized q)
    then show ?thesis by (simp add: all_evaluable_def)
  qed (use d in auto)
  have "clear (check_order_quantity ?i s ?ls)"
  proof (cases "max_order_quantity ?ls")
    case (Some m)
    then have "0 + ?q \<le> m"
      using check_member(1) [of i s ?ls] leg Q
      by (intro cures [where c = ORDER_LIMIT and n = "''max_order_quantity''"])
        (simp add: check_order_quantity_def largest_leg_def)
    then show ?thesis using Some legs by (simp add: clear_order_quantity)
  qed (simp add: check_order_quantity_def)
  moreover have "clear (check_position_per_strategy ?i s ?ls)"
  proof (cases "max_position_per_strategy ?ls")
    case (Some m)
    have id: "ti_strategy_id i \<noteq> []"
      using open_evs check_member(4) [of i s ?ls] Some
      by (auto simp: check_position_per_strategy_def not_evaluable_def split: if_splits)
    then have "\<bar>strategy_position s (ti_strategy_id i)\<bar> + ?q \<le> m"
      using check_member(4) [of i s ?ls] Some
      by (intro cures [where c = POSITION_LIMIT and n = "''max_position_per_strategy''"])
        (simp add: check_position_per_strategy_def)
    then show ?thesis using Some id legs by (simp add: clear_position_per_strategy)
  qed (simp add: check_position_per_strategy_def)
  moreover have "clear (check_position_per_instrument ?i s ?ls)"
  proof (cases "max_position_per_instrument ?ls")
    case (Some m)
    let ?p = "position_in s (leg_instrument_id l)"
    have abs: "\<bar>?p + x * side_sign (leg_side l)\<bar> = \<bar>?p\<bar> + x" if "0 < x" for x
      using side that by (cases "leg_side l") auto
    have "\<bar>?p\<bar> + ?q \<le> m"
      using check_member(2) [of i s ?ls] Some leg Q abs [of ?Q] facts
      by (intro cures [where c = POSITION_LIMIT and n = "''max_position_per_instrument''"])
        (simp add: check_position_per_instrument_def resulting_position_def)
    then show ?thesis using Some legs abs [of ?q] facts
      by (simp add: clear_position_per_instrument resulting_position_def)
  qed (simp add: check_position_per_instrument_def)
  moreover have "clear (check_position_per_underlying ?i s ?ls)"
  proof (cases "max_position_per_underlying ?ls")
    case (Some m)
    have "\<exists>c. position_in_underlying s (underlying_of s (leg_instrument_id l)) = Some c"
      using open_evs check_member(3) [of i s ?ls] Some leg
      by (auto simp: check_position_per_underlying_def not_evaluable_def split: option.splits)
    then obtain c where c: "position_in_underlying s (underlying_of s (leg_instrument_id l)) = Some c" by blast
    have "c + ?q \<le> m"
      using check_member(3) [of i s ?ls] Some leg Q c position_in_underlying_nonneg [OF c] facts
      by (intro cures [where c = POSITION_LIMIT and n = "''max_position_per_underlying''"])
        (simp add: check_position_per_underlying_def)
    then show ?thesis using Some c legs position_in_underlying_nonneg [OF c] facts
      by (simp add: check_position_per_underlying_def)
  qed (simp add: check_position_per_underlying_def)
  ultimately show ?thesis by simp
qed

definition one_leg_intent :: "int \<Rightarrow> trade_intent" where
  "one_leg_intent q = (two_leg_intent q q)\<lparr>ti_legs := [\<lparr>leg_instrument_id = 7, leg_side = BUY,
     leg_quantity = q, leg_order_type = MARKET, leg_limit_price = None\<rparr>]\<rparr>"

lemma one_leg_intent_ok: "0 < q \<Longrightarrow> trade_intent_ok (one_leg_intent q)"
  by (simp add: one_leg_intent_def two_leg_intent_def trade_intent_ok_def trade_intent_check_def leg_check_def)

lemma one_leg_total: "total_quantity (one_leg_intent q) = q"
  by (simp add: one_leg_intent_def total_quantity_def)

lemmas check_defs =
  check_kill_switch_def check_session_window_def check_venue_health_def check_state_quality_def
  check_state_staleness_def check_state_coverage_def check_order_quantity_def check_order_notional_def
  check_order_rate_def check_position_per_instrument_def check_position_per_underlying_def
  check_position_per_strategy_def check_cash_sufficiency_def check_deployed_capital_def
  check_capital_utilisation_def check_leverage_def check_strategy_loss_def clear_plain loss_check_def
  exposure_check_def concentration_def

definition short_state :: risk_state where
  "short_state = sample_state\<lparr>rs_positions := [sample_position 7 (- 600)]\<rparr>"

definition position_policy :: "int \<Rightarrow> risk_limits" where
  "position_policy m = default_limits\<lparr>max_position_per_instrument := Some m\<rparr>"

text \<open>A reduction of one leg, given the only breach and the size it leaves.\<close>

lemma one_leg_reduction:
  assumes "breached_limits e (one_leg_intent p) s = [b]" "all_evaluable e (one_leg_intent p) s"
    and "resize e (one_leg_intent p) [b] = Some q" "0 < q" "0 < p" "rs_knowledge_time s \<le> ts"
  obtains d where "evaluate h e (one_leg_intent p) s 1 ts None = Inr d" "rd_verdict d = MODIFIED"
    "rd_approved_quantity d = q"
proof -
  have ok: "trade_intent_ok (one_leg_intent p)" "1 \<le> (1 :: int)" using assms by (simp_all add: one_leg_intent_ok)
  from ok show thesis
    by (cases rule: evaluate_cases [where h = h and e = e and s = s and ts = ts and k = None])
      (use that assms in auto)
qed

lemma one_leg_example:
  "breached_limits (sample_engine (size_policy 250) True) (one_leg_intent 300) sample_state
     = [compare_limit ORDER_LIMIT ''max_order_quantity'' (dec_int 300) (dec_int 250)]"
  "all_evaluable (sample_engine (size_policy 250) True) (one_leg_intent 300) sample_state"
  "resize (sample_engine (size_policy 250) True) (one_leg_intent 300)
     [compare_limit ORDER_LIMIT ''max_order_quantity'' (dec_int 300) (dec_int 250)] = Some 250"
  by (simp_all add: breached_limits_def all_evaluable_def evaluate_all_def all_checks_def size_policy_def
      check_defs largest_leg_def not_configured_def compare_limit_def one_leg_intent_def
      plain_state dec_less_iff)
    (simp add: resize_def resizable_def total_quantity_def dec_le_iff dec_trunc_def Let_def)

theorem single_leg_reduction_cures_witness:
  "\<exists>d. evaluate sample_hashes (sample_engine (size_policy 250) True) (one_leg_intent 300) sample_state 1
      (clock 10 0) None = Inr d
    \<and> clear (check_order_quantity (with_quantity (one_leg_intent 300) (hd (ti_legs (one_leg_intent 300)))
        (rd_approved_quantity d)) sample_state (size_policy 250))"
proof -
  have "rs_knowledge_time sample_state \<le> clock 10 0" by (simp add: sample_state_def)
  then obtain d where d: "evaluate sample_hashes (sample_engine (size_policy 250) True) (one_leg_intent 300)
      sample_state 1 (clock 10 0) None = Inr d" "rd_verdict d = MODIFIED"
    using one_leg_reduction [OF one_leg_example, where ts = "clock 10 0" and h = sample_hashes] by auto
  have "ti_legs (one_leg_intent 300) = [hd (ti_legs (one_leg_intent 300))]" by (simp add: one_leg_intent_def)
  moreover have "0 \<le> position_in sample_state (leg_instrument_id (hd (ti_legs (one_leg_intent 300))))
      * side_sign (leg_side (hd (ti_legs (one_leg_intent 300))))"
    by (simp add: one_leg_intent_def sample_state_def position_in_def sample_position_def)
  ultimately have "clear (check_order_quantity (with_quantity (one_leg_intent 300)
      (hd (ti_legs (one_leg_intent 300))) (rd_approved_quantity d)) sample_state (size_policy 250))"
    using single_leg_reduction_cures [OF one_leg_intent_ok _ d, of "hd (ti_legs (one_leg_intent 300))"]
    by (simp add: one_leg_total)
  then show ?thesis using d(1) by blast
qed

lemma crossing_example:
  "breached_limits (sample_engine (position_policy 500) True) (one_leg_intent 90) short_state
     = [compare_limit POSITION_LIMIT ''max_position_per_instrument'' (dec_int 510) (dec_int 500)]"
  "all_evaluable (sample_engine (position_policy 500) True) (one_leg_intent 90) short_state"
  "resize (sample_engine (position_policy 500) True) (one_leg_intent 90)
     [compare_limit POSITION_LIMIT ''max_position_per_instrument'' (dec_int 510) (dec_int 500)] = Some 80"
  by (simp_all add: breached_limits_def all_evaluable_def evaluate_all_def all_checks_def position_policy_def
      check_defs not_configured_def compare_limit_def one_leg_intent_def short_state_def
      resulting_position_def position_in_def sample_position_def plain_state dec_less_iff)
    (simp add: resize_def resizable_def total_quantity_def dec_le_iff dec_trunc_def Let_def)

text \<open>
  A reduction can also make things worse where the order reduces a position. Short 600
  against a limit of 500, buying back 90 leaves 510 and breaches by 10; the engine approves 80
  instead, which leaves 520.
\<close>

theorem reduced_cover_breaches_more:
  "\<exists>d. evaluate sample_hashes (sample_engine (position_policy 500) True) (one_leg_intent 90) short_state 1
      (clock 10 0) None = Inr d
    \<and> rd_verdict d = MODIFIED \<and> rd_approved_quantity d = 80
    \<and> resulting_position short_state (hd (ti_legs (one_leg_intent 90))) = 510
    \<and> resulting_position short_state (hd (ti_legs (one_leg_intent 80))) = 520"
proof -
  have "rs_knowledge_time short_state \<le> clock 10 0" by (simp add: sample_state_def short_state_def)
  then obtain d where "evaluate sample_hashes (sample_engine (position_policy 500) True) (one_leg_intent 90)
      short_state 1 (clock 10 0) None = Inr d" "rd_verdict d = MODIFIED" "rd_approved_quantity d = 80"
    using one_leg_reduction [OF crossing_example, where ts = "clock 10 0" and h = sample_hashes] by auto
  then show ?thesis
    by (simp add: resulting_position_def position_in_def short_state_def one_leg_intent_def sample_position_def)
qed

section \<open>Reproducibility and the pass-through\<close>

text \<open>
  Re-evaluating the same intent against the same state under the same policy and horizon
  at another moment yields a decision with the same digest and the same inputs digest: when the
  work ran is recorded but is not part of what was decided.
\<close>

theorem evaluation_reproducible:
  assumes "evaluate h e i s seq ts (Some hz) = Inr d" "evaluate h e i s seq us (Some hz) = Inr d'"
  shows "decision_digest h d = decision_digest h d' \<and> rd_inputs_digest d = rd_inputs_digest d'
    \<and> risk_decision_id h d = risk_decision_id h d'"
proof -
  have "decision_content d = decision_content d' \<and> rd_inputs_digest d = rd_inputs_digest d'
      \<and> rd_intent_id d = rd_intent_id d' \<and> rd_sequence_no d = rd_sequence_no d'"
    using assms
    by (auto simp: evaluate_def Let_def make_decision_Inr_iff engine_decision_def decision_content_def
        split: option.splits if_splits)
  then show ?thesis by (simp add: decision_digest_def risk_decision_id_def)
qed

theorem evaluation_reproducible_witness:
  "\<exists>d d'. evaluate sample_hashes (sample_engine (size_policy 250) True) (one_leg_intent 300) sample_state 1
      (clock 10 0) (Some (clock 10 0)) = Inr d
    \<and> evaluate sample_hashes (sample_engine (size_policy 250) True) (one_leg_intent 300) sample_state 1
      (clock 10 1) (Some (clock 10 0)) = Inr d'
    \<and> decision_digest sample_hashes d = decision_digest sample_hashes d'"
proof -
  let ?ev = "\<lambda>ts. evaluate sample_hashes (sample_engine (size_policy 250) True) (one_leg_intent 300)
      sample_state 1 ts (Some (clock 10 0))"
  have "is_ok (?ev ts)" for ts using engine.decides [of "one_leg_intent 300" 1] by (simp add: one_leg_intent_ok)
  then obtain d d' where "?ev (clock 10 0) = Inr d" "?ev (clock 10 1) = Inr d'" unfolding is_ok_iff by meson
  then show ?thesis using evaluation_reproducible by blast
qed

text \<open>
  The gate of an account without a policy records its absence and authorizes nothing:
  its decision says APPROVED for the full quantity, yet no intent is authorized by it at any time
  and a reader is shown UNEVALUATED.
\<close>

theorem pass_through_never_authorizes:
  assumes "trade_intent_ok i" "1 \<le> seq"
  shows "\<exists>d. unevaluated_gate h i s seq ts k = Inr d \<and> rd_verdict d = APPROVED
    \<and> rd_approved_quantity d = total_quantity i
    \<and> \<not> authorizes d x us \<and> authorization_status d us = AS_UNEVALUATED"
proof -
  obtain d where d: "unevaluated_gate h i s seq ts k = Inr d"
    using pass_through.decides [OF assms, of h s ts k] unfolding is_ok_iff by blast
  then have "\<not> is_actionable_at d us" using pass_through.pass_through_is_powerless by simp
  moreover have "\<not> rd_evaluated d" using pass_through.about [OF d] by simp
  moreover have "rd_verdict d = APPROVED" "rd_approved_quantity d = total_quantity i"
    using d by (simp_all add: unevaluated_gate_def make_decision_Inr_iff)
  ultimately show ?thesis using d by (simp add: authorizes_def authorization_status_def)
qed

theorem pass_through_never_authorizes_witness:
  "\<exists>d. unevaluated_gate sample_hashes (one_leg_intent 5) sample_state 1 (clock 10 0) None = Inr d
    \<and> \<not> authorizes d ''int_i'' (clock 10 0)"
  using pass_through_never_authorizes [OF one_leg_intent_ok, of 5 1 sample_hashes sample_state "clock 10 0" None
      "''int_i''" "clock 10 0"] by auto

end
