(* ===== verification/Submission.thy ===== *)
theory Submission
  imports Risk_Engine
begin

text \<open>
  \<^verbatim>\<open>oipulse/trading/oms/authorization.py\<close>: the gate between a risk decision and a submission.
  A refusal is a value; its prose \<open>detail\<close> is left out.
\<close>

datatype authorization_refusal =
    NO_DECISION | DECISION_REJECTED | DECISION_EXPIRED | DECISION_NOT_EVALUATED | WRONG_INTENT
  | ORDER_INTENT_MISMATCH | ZERO_APPROVED_QUANTITY | QUANTITY_EXCEEDS_APPROVAL | CAPABILITY_DENIED_BY_GATE

record submission_authorization =
  sa_authorized :: bool
  sa_intent_id :: string
  sa_order_id :: string
  sa_refusal :: "authorization_refusal option"
  sa_decision_id :: string
  sa_decision_sequence :: "int option"
  sa_approved_quantity :: int

definition refused_submission :: "string \<Rightarrow> string \<Rightarrow> authorization_refusal \<Rightarrow> submission_authorization" where
  "refused_submission intent order refusal =
     \<lparr>sa_authorized = False, sa_intent_id = intent, sa_order_id = order, sa_refusal = Some refusal,
      sa_decision_id = [], sa_decision_sequence = None, sa_approved_quantity = 0\<rparr>"

definition authorize_submission ::
  "hashes \<Rightarrow> trade_intent \<Rightarrow> risk_decision option \<Rightarrow> string \<Rightarrow> string \<Rightarrow> int \<Rightarrow> instant \<Rightarrow>
   submission_authorization" where
  "authorize_submission h i decision order_id order_intent_id order_quantity ts =
     (let intent = intent_id (h_intent h) i;
          refuse = refused_submission intent order_id
      in if order_intent_id \<noteq> intent then refuse ORDER_INTENT_MISMATCH
         else case decision of
                None \<Rightarrow> refuse NO_DECISION
              | Some d \<Rightarrow>
                  if rd_intent_id d \<noteq> intent then refuse WRONG_INTENT
                  else if \<not> rd_evaluated d then refuse DECISION_NOT_EVALUATED
                  else if \<not> is_approved d then refuse DECISION_REJECTED
                  else if \<not> is_actionable_at d ts then refuse DECISION_EXPIRED
                  else if rd_approved_quantity d \<le> 0 then refuse ZERO_APPROVED_QUANTITY
                  else if rd_approved_quantity d < order_quantity then refuse QUANTITY_EXCEEDS_APPROVAL
                  else \<lparr>sa_authorized = True, sa_intent_id = intent, sa_order_id = order_id,
                        sa_refusal = None, sa_decision_id = risk_decision_id h d,
                        sa_decision_sequence = Some (rd_sequence_no d),
                        sa_approved_quantity = rd_approved_quantity d\<rparr>)"

lemma authorized_None [simp]: "\<not> sa_authorized (authorize_submission h i None oid oint q ts)"
  by (simp add: authorize_submission_def refused_submission_def Let_def)

lemma authorized_Some:
  "sa_authorized (authorize_submission h i (Some d) oid oint q ts) \<longleftrightarrow>
     oint = intent_id (h_intent h) i \<and> rd_intent_id d = intent_id (h_intent h) i \<and> rd_evaluated d
     \<and> is_approved d \<and> is_actionable_at d ts \<and> 0 < rd_approved_quantity d \<and> q \<le> rd_approved_quantity d"
  by (simp add: authorize_submission_def refused_submission_def Let_def not_le not_less)

text \<open>The gate is open exactly for a decision that authorizes this intent now, within its quantity.\<close>

lemma authorized_iff:
  "sa_authorized (authorize_submission h i decision oid oint q ts) \<longleftrightarrow>
     (\<exists>d. decision = Some d \<and> oint = intent_id (h_intent h) i
        \<and> authorizes d (intent_id (h_intent h) i) ts \<and> q \<le> rd_approved_quantity d)"
  by (cases decision) (auto simp: authorized_Some authorizes_def dest: actionable_facts)

lemma authorized_fields:
  assumes "sa_authorized (authorize_submission h i (Some d) oid oint q ts)"
  shows "sa_decision_id (authorize_submission h i (Some d) oid oint q ts) = risk_decision_id h d"
    and "sa_decision_sequence (authorize_submission h i (Some d) oid oint q ts) = Some (rd_sequence_no d)"
  using assms by (auto simp: authorize_submission_def refused_submission_def Let_def split: if_splits)

lemma authorized_names_decision:
  assumes "sa_authorized (authorize_submission h i decision oid oint q ts)"
  shows "sa_decision_id (authorize_submission h i decision oid oint q ts) \<noteq> []"
    and "sa_decision_sequence (authorize_submission h i decision oid oint q ts) \<noteq> None"
  using assms authorized_fields [of h i _ oid oint q ts]
  by (cases decision; simp add: risk_decision_id_def)+

text \<open>
  The submission gate is exactly the conjunction the design asks for: it opens if and
  only if a decision is given, it and the order belong to this intent, the decision was evaluated,
  approves a quantity, has not lapsed at the supplied market time, and covers the order. A refusal
  always names a reason. One of the reasons can never be given: an evaluated approval of zero
  quantity is not actionable, so it is reported as expired.
\<close>

theorem submission_gate_exact:
  "(sa_authorized (authorize_submission h i decision oid oint q ts) \<longleftrightarrow>
      (\<exists>d. decision = Some d \<and> oint = intent_id (h_intent h) i \<and> rd_intent_id d = intent_id (h_intent h) i
         \<and> rd_evaluated d \<and> is_approved d \<and> 0 < rd_approved_quantity d
         \<and> (case rd_approved_until d of None \<Rightarrow> True | Some u \<Rightarrow> ts \<le> u)
         \<and> q \<le> rd_approved_quantity d))
   \<and> (sa_authorized (authorize_submission h i decision oid oint q ts) \<longleftrightarrow>
        sa_refusal (authorize_submission h i decision oid oint q ts) = None)
   \<and> sa_refusal (authorize_submission h i decision oid oint q ts) \<noteq> Some ZERO_APPROVED_QUANTITY"
proof (intro conjI)
  show "sa_authorized (authorize_submission h i decision oid oint q ts) \<longleftrightarrow>
      (\<exists>d. decision = Some d \<and> oint = intent_id (h_intent h) i \<and> rd_intent_id d = intent_id (h_intent h) i
         \<and> rd_evaluated d \<and> is_approved d \<and> 0 < rd_approved_quantity d
         \<and> (case rd_approved_until d of None \<Rightarrow> True | Some u \<Rightarrow> ts \<le> u)
         \<and> q \<le> rd_approved_quantity d)"
    by (cases decision) (auto simp: authorized_Some is_actionable_at_def)
  show "sa_authorized (authorize_submission h i decision oid oint q ts) \<longleftrightarrow>
        sa_refusal (authorize_submission h i decision oid oint q ts) = None"
    by (auto simp: authorize_submission_def refused_submission_def Let_def split: option.splits)
  show "sa_refusal (authorize_submission h i decision oid oint q ts) \<noteq> Some ZERO_APPROVED_QUANTITY"
    by (auto simp: authorize_submission_def refused_submission_def Let_def is_actionable_at_def split: option.splits)
qed

end
