(* ===== verification/Broker.thy ===== *)
theory Broker
  imports Orders
begin

text \<open>
  \<^verbatim>\<open>oipulse/trading/brokers/capability.py\<close>, \<^verbatim>\<open>protocol.py\<close> and \<^verbatim>\<open>upstox.py\<close>: what an adapter
  may do, the provider's value types, and the protocol as a record of functions over the state of
  a venue. A call returns the venue after it and either the exception or the answer; a query does
  not change the venue. The free text of an acknowledgement (\<open>reason\<close>) is left out.
\<close>

section \<open>Capabilities (brokers/capability.py)\<close>

datatype execution_capability = SIMULATE | QUERY_PROVIDER | LIVE_SUBMIT

text \<open>\<open>None\<close> is passing; the only other outcome is the exception.\<close>

definition require_capability ::
  "execution_capability list \<Rightarrow> execution_capability \<Rightarrow> order_error option" where
  "require_capability granted needed =
     (if needed = LIVE_SUBMIT then Some LiveExecutionDisabled
      else if needed \<notin> set granted then Some LiveExecutionDisabled
      else None)"

section \<open>Provider values (brokers/protocol.py)\<close>

datatype provider_status =
  PS_OPEN | PS_PARTIALLY_FILLED | PS_FILLED | PS_CANCELLED | PS_REJECTED | PS_EXPIRED | PS_UNKNOWN

text \<open>\<open>status.value\<close>\<close>

fun status_word :: "provider_status \<Rightarrow> string" where
  "status_word PS_OPEN = ''OPEN''"
| "status_word PS_PARTIALLY_FILLED = ''PARTIALLY_FILLED''"
| "status_word PS_FILLED = ''FILLED''"
| "status_word PS_CANCELLED = ''CANCELLED''"
| "status_word PS_REJECTED = ''REJECTED''"
| "status_word PS_EXPIRED = ''EXPIRED''"
| "status_word PS_UNKNOWN = ''UNKNOWN''"

record order_request =
  rq_client_order_attempt_id :: string
  rq_order_id :: string
  rq_instrument_id :: int
  rq_side :: side
  rq_quantity :: int
  rq_order_type :: order_type
  rq_limit_price :: "decimal option"
  rq_requested_at :: "instant option"

record broker_ack =
  ba_client_order_attempt_id :: string
  ba_accepted :: bool
  ba_provider_order_id :: "string option"
  ba_provider_status :: "provider_status option"
  ba_provider_time :: "instant option"
  ba_received_at :: "instant option"

record broker_order =
  bo_provider_order_id :: string
  bo_status :: provider_status
  bo_instrument_id :: int
  bo_side :: side
  bo_quantity :: int
  bo_filled_quantity :: int
  bo_average_price :: "decimal option"
  bo_client_order_attempt_id :: "string option"
  bo_provider_time :: "instant option"
  bo_received_at :: "instant option"
  bo_raw_status :: string

record broker_fill =
  bf_provider_fill_id :: "string option"
  bf_provider_order_id :: string
  bf_instrument_id :: int
  bf_side :: side
  bf_quantity :: int
  bf_price :: decimal
  bf_fees :: decimal
  bf_provider_time :: "instant option"
  bf_received_at :: "instant option"

definition has_provider_identity :: "broker_fill \<Rightarrow> bool" where
  "has_provider_identity f \<longleftrightarrow> (case bf_provider_fill_id f of None \<Rightarrow> False | Some i \<Rightarrow> i \<noteq> [])"

text \<open>
  The provider's own execution id where there is one, else a digest of the content. Order id,
  instrument, side, quantity, price and time are what the digest covers; fees and the time of
  receipt are not.
\<close>

type_synonym fill_content = "string \<times> int \<times> side \<times> int \<times> decimal \<times> instant option"

definition dedup_key :: "(fill_content \<Rightarrow> string) \<Rightarrow> broker_fill \<Rightarrow> string" where
  "dedup_key digest f =
     (case bf_provider_fill_id f of
        Some (c # cs) \<Rightarrow> ''pfid:'' @ c # cs
      | _ \<Rightarrow> ''digest:'' @ take 32 (digest (bf_provider_order_id f, bf_instrument_id f, bf_side f,
                bf_quantity f, bf_price f, bf_provider_time f)))"

record broker_position =
  bp_instrument_id :: int
  bp_quantity :: int
  bp_average_price :: "decimal option"
  bp_provider_time :: "instant option"

record broker_order_event =
  be_provider_order_id :: string
  be_status :: provider_status
  be_provider_time :: "instant option"
  be_received_at :: "instant option"
  be_filled_quantity :: "int option"

section \<open>The protocol\<close>

record 'v broker_adapter =
  ad_capabilities :: "execution_capability list"
  ad_place_order :: "'v \<Rightarrow> order_request \<Rightarrow> 'v \<times> (order_error + broker_ack)"
  ad_cancel_order :: "'v \<Rightarrow> string \<Rightarrow> 'v \<times> (order_error + broker_ack)"
  ad_modify_order :: "'v \<Rightarrow> string \<Rightarrow> 'v \<times> (order_error + broker_ack)"
  ad_get_order :: "'v \<Rightarrow> string \<Rightarrow> order_error + broker_order option"
  ad_list_orders :: "'v \<Rightarrow> instant \<Rightarrow> order_error + broker_order list"
  ad_list_trades :: "'v \<Rightarrow> instant \<Rightarrow> order_error + broker_fill list"
  ad_get_positions :: "'v \<Rightarrow> order_error + broker_position list"

section \<open>The live boundary (brokers/upstox.py)\<close>

text \<open>
  No capability at all: every method's capability check raises, so the calls below it are never
  reached; the venue is left as it was.
\<close>

definition refuse :: "execution_capability \<Rightarrow> order_error + 'a" where
  "refuse needed = (case require_capability [] needed of
     Some e \<Rightarrow> Inl e | None \<Rightarrow> Inl LiveExecutionDisabled)"

definition upstox_adapter :: "'v broker_adapter" where
  "upstox_adapter = \<lparr>
     ad_capabilities = [],
     ad_place_order = (\<lambda>v _. (v, refuse LIVE_SUBMIT)),
     ad_cancel_order = (\<lambda>v _. (v, refuse LIVE_SUBMIT)),
     ad_modify_order = (\<lambda>v _. (v, refuse LIVE_SUBMIT)),
     ad_get_order = (\<lambda>_ _. refuse QUERY_PROVIDER),
     ad_list_orders = (\<lambda>_ _. refuse QUERY_PROVIDER),
     ad_list_trades = (\<lambda>_ _. refuse QUERY_PROVIDER),
     ad_get_positions = (\<lambda>_. refuse QUERY_PROVIDER)\<rparr>"

lemma refuse_always [simp]: "refuse needed = Inl LiveExecutionDisabled"
  by (simp add: refuse_def require_capability_def)

end
