(* ===== verification/OMS.thy ===== *)
theory OMS
  imports Submission Order_History Broker
begin

text \<open>
  \<^verbatim>\<open>oipulse/trading/oms/manager.py\<close>: the order manager. Its state is the record
  \<open>order_manager\<close>; every method takes it, the state of the venue behind the adapter and the
  supplied market time, and returns both states and either the exception or the value, because
  the code stores intermediate states before a call that may raise. A coroutine runs to its end
  before the next starts.
\<close>

section \<open>State and results\<close>

datatype submission_result_kind =
  ACKNOWLEDGED | REJECTED_BY_VENUE | AMBIGUOUS | NOT_AUTHORIZED | CAPABILITY_DENIED

definition attempt_id_for :: "hashes \<Rightarrow> string \<Rightarrow> int \<Rightarrow> string" where
  "attempt_id_for h order_id attempt =
     ''coa_'' @ take 24 (h_text h (order_id @ '':'' @ str_int attempt))"

record submission_outcome =
  so_kind :: submission_result_kind
  so_order :: paper_order
  so_authorization :: submission_authorization
  so_ack :: "broker_ack option"

record order_manager =
  om_venue :: execution_venue
  om_orders :: "(string, paper_order) dict"
  om_attempts :: "(string, int) dict"
  om_sent :: "string set"

definition new_manager :: "execution_venue \<Rightarrow> order_manager" where
  "new_manager v = \<lparr>om_venue = v, om_orders = [], om_attempts = [], om_sent = {}\<rparr>"

section \<open>Reading\<close>

definition om_order :: "order_manager \<Rightarrow> string \<Rightarrow> paper_order option" where
  "om_order m oid = dict_get (om_orders m) oid"

definition all_orders :: "order_manager \<Rightarrow> paper_order list" where
  "all_orders m = sorted_values (om_orders m)"

definition unresolved :: "order_manager \<Rightarrow> paper_order list" where
  "unresolved m = filter is_unresolved (all_orders m)"

definition attempts_for :: "order_manager \<Rightarrow> string \<Rightarrow> int" where
  "attempts_for m oid = (case dict_get (om_attempts m) oid of None \<Rightarrow> 0 | Some n \<Rightarrow> n)"

definition blocks_new_intents :: "order_manager \<Rightarrow> int \<Rightarrow> string \<Rightarrow> bool" where
  "blocks_new_intents m instrument strategy \<longleftrightarrow>
     (\<exists>od\<in>set (unresolved m). po_instrument_id od = instrument \<and> po_strategy_id od = strategy)"

definition store :: "order_manager \<Rightarrow> paper_order \<Rightarrow> order_manager" where
  "store m od = m\<lparr>om_orders := dict_set (po_order_id od) od (om_orders m)\<rparr>"

definition track :: "order_manager \<Rightarrow> paper_order \<Rightarrow> order_manager \<times> paper_order" where
  "track m od = (store m od, od)"

section \<open>Submission\<close>

type_synonym ('v, 'a) oms_result = "'v \<times> order_manager \<times> (order_error + 'a)"

definition outcome ::
  "submission_result_kind \<Rightarrow> paper_order \<Rightarrow> submission_authorization \<Rightarrow> broker_ack option \<Rightarrow> submission_outcome" where
  "outcome k od auth ack = \<lparr>so_kind = k, so_order = od, so_authorization = auth, so_ack = ack\<rparr>"

text \<open>Store a changed order and hand out its outcome; an exception leaves the manager as it is.\<close>

definition settle ::
  "'v \<Rightarrow> order_manager \<Rightarrow> paper_order order_result \<Rightarrow> (paper_order \<Rightarrow> 'a) \<Rightarrow> ('v, 'a) oms_result" where
  "settle v m r f = (case r of Inl e \<Rightarrow> (v, m, Inl e) | Inr od \<Rightarrow> (v, store m od, Inr (f od)))"

definition with_ack :: "paper_order \<Rightarrow> broker_ack \<Rightarrow> paper_order" where
  "with_ack od ack = od\<lparr>
     po_provider_order_id := ba_provider_order_id ack,
     po_provider_status := map_option status_word (ba_provider_status ack),
     po_provider_event_time := ba_provider_time ack,
     po_received_at := ba_received_at ack\<rparr>"

text \<open>\<open>_apply_ack\<close>\<close>

definition apply_ack ::
  "'v \<Rightarrow> order_manager \<Rightarrow> paper_order \<Rightarrow> broker_ack \<Rightarrow> submission_authorization \<Rightarrow> instant \<Rightarrow>
   ('v, submission_outcome) oms_result" where
  "apply_ack v m od ack auth ts =
     (if \<not> ba_accepted ack
      then settle v m
             (bind_result (transition od REJECTED ts ''provider_reject'' [])
                (\<lambda>r. validated (with_ack (r\<lparr>po_reject_reason := Some EXECUTION_REJECTED\<rparr>) ack)))
             (\<lambda>r. outcome REJECTED_BY_VENUE r auth (Some ack))
      else settle v m
             (bind_result (transition od SUBMITTED ts ''provider_ack'' []) (\<lambda>s. validated (with_ack s ack)))
             (\<lambda>s. outcome ACKNOWLEDGED s auth (Some ack)))"

definition request_for :: "paper_order \<Rightarrow> string \<Rightarrow> instant \<Rightarrow> order_request" where
  "request_for od attempt ts =
     \<lparr>rq_client_order_attempt_id = attempt, rq_order_id = po_order_id od,
      rq_instrument_id = po_instrument_id od, rq_side = po_side od, rq_quantity = po_quantity od,
      rq_order_type = po_order_type od, rq_limit_price = po_limit_price od, rq_requested_at = Some ts\<rparr>"

text \<open>The order in the shape it is sent in.\<close>

definition working_order ::
  "order_manager \<Rightarrow> paper_order \<Rightarrow> string \<Rightarrow> submission_authorization \<Rightarrow> instant \<Rightarrow> paper_order order_result" where
  "working_order m od attempt auth ts =
     bind_result (transition od SUBMITTING ts ''oms_submit'' [])
       (\<lambda>w. validated (w\<lparr>po_venue := om_venue m,
                         po_client_order_attempt_id := attempt,
                         po_authorizing_risk_decision_id := sa_decision_id auth,
                         po_authorizing_decision_sequence := sa_decision_sequence auth\<rparr>))"

text \<open>The second half of \<open>submit\<close>: the request goes out, and the three things that can come back.\<close>

definition send ::
  "'v broker_adapter \<Rightarrow> 'v \<Rightarrow> order_manager \<Rightarrow> paper_order \<Rightarrow> string \<Rightarrow> submission_authorization \<Rightarrow> instant \<Rightarrow>
   ('v, submission_outcome) oms_result" where
  "send A v m w attempt auth ts =
     (let (v', r) = ad_place_order A v (request_for w attempt ts)
      in case r of
           Inr ack \<Rightarrow> apply_ack v' m w ack auth ts
         | Inl e \<Rightarrow>
             if e = LiveExecutionDisabled
             then settle v' m
                    (bind_result (transition w REJECTED ts ''capability_denied'' [])
                       (\<lambda>r. validated (r\<lparr>po_reject_reason := Some EXECUTION_REJECTED\<rparr>)))
                    (\<lambda>r. outcome CAPABILITY_DENIED r auth None)
             else if e = BrokerTimeout
             then settle v' m (transition w UNKNOWN ts ''submission_timeout'' [])
                    (\<lambda>u. outcome AMBIGUOUS u auth None)
             else (v', m, Inl e))"

definition submit ::
  "hashes \<Rightarrow> 'v broker_adapter \<Rightarrow> 'v \<Rightarrow> order_manager \<Rightarrow> paper_order \<Rightarrow> trade_intent \<Rightarrow>
   risk_decision option \<Rightarrow> instant \<Rightarrow> ('v, submission_outcome) oms_result" where
  "submit h A v m od i decision ts =
     (let auth = authorize_submission h i decision (po_order_id od) (po_intent_id od) (po_quantity od) ts
      in if \<not> sa_authorized auth
         then settle v m (reject od RISK_REJECTED ts) (\<lambda>r. outcome NOT_AUTHORIZED r auth None)
         else if blocks_new_intents m (po_instrument_id od) (po_strategy_id od)
         then settle v m (reject od RISK_REJECTED ts) (\<lambda>r. outcome NOT_AUTHORIZED r auth None)
         else
           let attempt = attempts_for m (po_order_id od) + 1;
               client_attempt = attempt_id_for h (po_order_id od) attempt
           in if client_attempt \<in> om_sent m
              then (v, m, Inr (outcome AMBIGUOUS
                      (case om_order m (po_order_id od) of Some s \<Rightarrow> s | None \<Rightarrow> od) auth None))
              else case working_order m od client_attempt auth ts of
                     Inl e \<Rightarrow> (v, m, Inl e)
                   | Inr w \<Rightarrow>
                       send A v ((store m w)\<lparr>om_attempts := dict_set (po_order_id od) attempt (om_attempts m),
                                            om_sent := insert client_attempt (om_sent m)\<rparr>)
                         w client_attempt auth ts)"

section \<open>Recovery and cancelling\<close>

text \<open>\<open>self._orders[order_id] = \<dots>\<close> and return it; an exception on the way leaves the manager as it is.\<close>

definition put ::
  "order_manager \<Rightarrow> string \<Rightarrow> paper_order order_result \<Rightarrow> order_manager \<times> paper_order order_result" where
  "put m oid r =
     (case r of Inl e \<Rightarrow> (m, Inl e)
              | Inr od \<Rightarrow> (m\<lparr>om_orders := dict_set oid od (om_orders m)\<rparr>, Inr od))"

definition escalate_to_reconciliation ::
  "order_manager \<Rightarrow> string \<Rightarrow> instant \<Rightarrow> order_manager \<times> paper_order order_result" where
  "escalate_to_reconciliation m oid ts =
     (case om_order m oid of
        None \<Rightarrow> (m, Inl (MissingOrder oid))
      | Some od \<Rightarrow> put m oid (transition od PENDING_RECONCILIATION ts ''escalate_to_reconciliation'' []))"

definition request_cancel ::
  "'v broker_adapter \<Rightarrow> 'v \<Rightarrow> order_manager \<Rightarrow> string \<Rightarrow> instant \<Rightarrow> ('v, paper_order) oms_result" where
  "request_cancel A v m oid ts =
     (case om_order m oid of
        None \<Rightarrow> (v, m, Inl (MissingOrder oid))
      | Some od \<Rightarrow>
          (case transition od CANCEL_PENDING ts ''cancel_requested'' [] of
             Inl e \<Rightarrow> (v, m, Inl e)
           | Inr pending \<Rightarrow>
               let m1 = m\<lparr>om_orders := dict_set oid pending (om_orders m)\<rparr> in
               (case po_provider_order_id pending of
                  None \<Rightarrow> (v, put m1 oid (transition pending UNKNOWN ts ''cancel_without_provider_id'' []))
                | Some pid \<Rightarrow>
                    (case ad_cancel_order A v pid of
                       (v', Inl e) \<Rightarrow>
                         if e = BrokerTimeout
                         then (v', put m1 oid (transition pending UNKNOWN ts ''cancel_timeout'' []))
                         else (v', m1, Inl e)
                     | (v', Inr ack) \<Rightarrow>
                         let status = map_option status_word (ba_provider_status ack) in
                         if \<not> ba_accepted ack
                         then (v', put m1 oid (validated (pending\<lparr>po_provider_status := status\<rparr>)))
                         else (v', put m1 oid
                                (bind_result (transition pending CANCELLED ts ''provider_cancel_ack'' [])
                                   (\<lambda>c. validated (c\<lparr>po_provider_status := status\<rparr>))))))))"

section \<open>Bookkeeping for the reconciler\<close>

definition apply_provider_state ::
  "order_manager \<Rightarrow> string \<Rightarrow> order_state \<Rightarrow> string \<Rightarrow> instant \<Rightarrow> order_manager \<times> paper_order order_result" where
  "apply_provider_state m oid target provider_status ts =
     (case om_order m oid of
        None \<Rightarrow> (m, Inl (MissingOrder oid))
      | Some od \<Rightarrow>
          if po_state od = target then (m, Inr od)
          else put m oid (bind_result
                 (transition od target ts ''reconciliation'' [(''provider_status'', PText provider_status)])
                 (\<lambda>moved. validated (moved\<lparr>po_provider_status := Some provider_status\<rparr>))))"

definition adopt_provider_identity ::
  "order_manager \<Rightarrow> string \<Rightarrow> string \<Rightarrow> order_manager \<times> paper_order order_result" where
  "adopt_provider_identity m oid pid =
     (case om_order m oid of
        None \<Rightarrow> (m, Inl (MissingOrder oid))
      | Some od \<Rightarrow>
          if po_provider_order_id od \<notin> {None, Some pid} then (m, Inl OrderValueError)
          else put m oid (validated (od\<lparr>po_provider_order_id := Some pid\<rparr>)))"

definition record_fill ::
  "order_manager \<Rightarrow> string \<Rightarrow> int \<Rightarrow> decimal \<Rightarrow> instant \<Rightarrow> order_manager \<times> paper_order order_result" where
  "record_fill m oid quantity price ts =
     (case om_order m oid of
        None \<Rightarrow> (m, Inl (MissingOrder oid))
      | Some od \<Rightarrow> put m oid (apply_fill od quantity price ts ''provider_fill''))"

end
