(* ===== verification/Reconcile.thy ===== *)
theory Reconcile
  imports OMS
begin

text \<open>
  \<^verbatim>\<open>oipulse/trading/reconciliation/mapping.py\<close>, \<^verbatim>\<open>model.py\<close> and \<^verbatim>\<open>engine.py\<close>: the mapping from
  the venue's words to order states, the record of a reconciliation run, and the reconciler. The
  reconciler holds its manager, the keys of the fills it has seen and its runs; the adapter only
  answers queries, so its state is an argument. The free text of discrepancies (\<open>detail\<close>) is left
  out, and the values that are rendered with \<^verbatim>\<open>str\<close> are kept as numbers.
\<close>

section \<open>Provider words and order states (mapping.py)\<close>

fun canonical_state_for :: "provider_status \<Rightarrow> order_state option" where
  "canonical_state_for PS_OPEN = Some OPEN"
| "canonical_state_for PS_PARTIALLY_FILLED = Some PARTIALLY_FILLED"
| "canonical_state_for PS_FILLED = Some FILLED"
| "canonical_state_for PS_CANCELLED = Some CANCELLED"
| "canonical_state_for PS_REJECTED = Some REJECTED"
| "canonical_state_for PS_EXPIRED = Some EXPIRED"
| "canonical_state_for PS_UNKNOWN = None"

definition provider_is_terminal :: "provider_status \<Rightarrow> bool" where
  "provider_is_terminal s \<longleftrightarrow>
     (case canonical_state_for s of None \<Rightarrow> False | Some t \<Rightarrow> t \<in> {FILLED, CANCELLED, REJECTED, EXPIRED})"

definition reconciled_state :: "broker_order \<Rightarrow> order_state option" where
  "reconciled_state b =
     (case canonical_state_for (bo_status b) of
        None \<Rightarrow> None
      | Some mapped \<Rightarrow>
          if mapped = OPEN \<and> 0 < bo_filled_quantity b
          then Some (if bo_quantity b \<le> bo_filled_quantity b then FILLED else PARTIALLY_FILLED)
          else Some mapped)"

section \<open>Runs (model.py)\<close>

datatype reconciliation_trigger =
  EVENT_DRIVEN | STARTUP | PERIODIC | POST_DISCONNECT | SESSION_BOUNDARY | MANUAL

datatype discrepancy_kind =
    MATCH | PROVIDER_AHEAD | OMS_AHEAD | QUANTITY_MISMATCH | PRICE_MISMATCH | STATUS_MISMATCH
  | MISSING_AT_PROVIDER | MISSING_LOCALLY | INSUFFICIENT_EVIDENCE

definition kind_is_clean :: "discrepancy_kind \<Rightarrow> bool" where
  "kind_is_clean k \<longleftrightarrow> k = MATCH"

datatype resolution =
    NOTHING_TO_DO | ORDER_STATE_APPLIED | FILL_INSERTED | POSITION_CORRECTED | RECORDED_ONLY | UNRESOLVED

record discrepancy =
  di_kind :: discrepancy_kind
  di_resolution :: resolution
  di_order_id :: "string option"
  di_provider_order_id :: "string option"
  di_local_state :: "order_state option"
  di_provider_status :: "provider_status option"
  di_local_value :: "int option"
  di_provider_value :: "int option"

definition needs_attention :: "discrepancy \<Rightarrow> bool" where
  "needs_attention d \<longleftrightarrow> di_resolution d \<in> {RECORDED_ONLY, UNRESOLVED}"

record reconciliation_outcome =
  ro_matched :: int
  ro_discrepancies :: int
  ro_resolved :: int
  ro_needs_attention :: int
  ro_fills_inserted :: int
  ro_orders_updated :: int
  ro_unresolved_orders :: int

definition outcome_is_clean :: "reconciliation_outcome \<Rightarrow> bool" where
  "outcome_is_clean o' \<longleftrightarrow> ro_needs_attention o' = 0 \<and> ro_unresolved_orders o' = 0"

record reconciliation_run =
  rr_run_id :: string
  rr_trigger :: reconciliation_trigger
  rr_as_of :: instant
  rr_scope :: string
  rr_discrepancies :: "discrepancy list"
  rr_outcome :: reconciliation_outcome
  rr_provider_snapshot :: "broker_order list"
  rr_local_snapshot :: "paper_order list"
  rr_started_at :: "instant option"
  rr_completed_at :: "instant option"

text \<open>
  What \<open>content_digest\<close> covers: everything but the run id and the execution times. The snapshots
  are the objects that \<open>as_dict\<close> renders.
\<close>

type_synonym run_content =
  "reconciliation_trigger \<times> instant \<times> string \<times> discrepancy list \<times> reconciliation_outcome
   \<times> broker_order list \<times> paper_order list"

definition run_content :: "reconciliation_run \<Rightarrow> run_content" where
  "run_content r = (rr_trigger r, rr_as_of r, rr_scope r, rr_discrepancies r, rr_outcome r,
     rr_provider_snapshot r, rr_local_snapshot r)"

definition run_digest :: "(run_content \<Rightarrow> string) \<Rightarrow> reconciliation_run \<Rightarrow> string" where
  "run_digest digest r = ''rec_'' @ take 32 (digest (run_content r))"

definition attention_required :: "reconciliation_run \<Rightarrow> discrepancy list" where
  "attention_required r = filter needs_attention (rr_discrepancies r)"

section \<open>The reconciler (engine.py)\<close>

record reconciler =
  rc_manager :: order_manager
  rc_applied_fills :: "string set"
  rc_runs :: "reconciliation_run list"

definition new_reconciler :: "order_manager \<Rightarrow> reconciler" where
  "new_reconciler m = \<lparr>rc_manager = m, rc_applied_fills = {}, rc_runs = []\<rparr>"

subsection \<open>Adopting identities\<close>

definition by_attempt :: "broker_order list \<Rightarrow> paper_order \<Rightarrow> broker_order option" where
  "by_attempt pos od = find (\<lambda>b. bo_client_order_attempt_id b = Some (po_client_order_attempt_id od)) pos"

definition lacks_identity :: "paper_order \<Rightarrow> bool" where
  "lacks_identity od \<longleftrightarrow> po_provider_order_id od = None \<and> po_client_order_attempt_id od \<noteq> []"

primrec adopt_identities ::
  "broker_order list \<Rightarrow> paper_order list \<Rightarrow> order_manager \<Rightarrow> order_manager \<times> (order_error + unit)" where
  "adopt_identities pos [] m = (m, Inr ())"
| "adopt_identities pos (od # ods) m =
     (if \<not> lacks_identity od then adopt_identities pos ods m
      else case by_attempt pos od of
             None \<Rightarrow> adopt_identities pos ods m
           | Some b \<Rightarrow>
               (case adopt_provider_identity m (po_order_id od) (bo_provider_order_id b) of
                  (m', Inl e) \<Rightarrow> (m', Inl e)
                | (m', Inr _) \<Rightarrow> adopt_identities pos ods m'))"

subsection \<open>Fills\<close>

definition order_for_provider_id :: "order_manager \<Rightarrow> string \<Rightarrow> paper_order option" where
  "order_for_provider_id m pid = find (\<lambda>od. po_provider_order_id od = Some pid) (all_orders m)"

text \<open>A discrepancy with every optional field at its default.\<close>

definition discrepancy_of :: "discrepancy_kind \<Rightarrow> resolution \<Rightarrow> discrepancy" where
  "discrepancy_of k r = \<lparr>di_kind = k, di_resolution = r, di_order_id = None, di_provider_order_id = None,
     di_local_state = None, di_provider_status = None, di_local_value = None, di_provider_value = None\<rparr>"

definition unattributed_fill :: "broker_fill \<Rightarrow> discrepancy" where
  "unattributed_fill f = (discrepancy_of MISSING_LOCALLY RECORDED_ONLY)
     \<lparr>di_provider_order_id := Some (bf_provider_order_id f), di_provider_value := Some (bf_quantity f)\<rparr>"

definition failed_fill :: "paper_order \<Rightarrow> broker_fill \<Rightarrow> discrepancy" where
  "failed_fill od f = (discrepancy_of QUANTITY_MISMATCH UNRESOLVED)
     \<lparr>di_order_id := Some (po_order_id od), di_provider_order_id := Some (bf_provider_order_id f),
      di_provider_value := Some (bf_quantity f)\<rparr>"

definition inserted_fill :: "paper_order \<Rightarrow> broker_fill \<Rightarrow> discrepancy" where
  "inserted_fill od f = (discrepancy_of PROVIDER_AHEAD FILL_INSERTED)
     \<lparr>di_order_id := Some (po_order_id od), di_provider_order_id := Some (bf_provider_order_id f),
      di_provider_value := Some (bf_quantity f)\<rparr>"

text \<open>The exceptions \<open>except (ValueError, InvalidTransition)\<close> catches.\<close>

fun is_fill_error :: "order_error \<Rightarrow> bool" where
  "is_fill_error (InvalidTransition _ _ _) = True"
| "is_fill_error OrderValueError = True"
| "is_fill_error _ = False"

text \<open>One turn of the loop: the discrepancies it appends and what it adds to the count.\<close>

definition absorb_fill ::
  "(fill_content \<Rightarrow> string) \<Rightarrow> instant \<Rightarrow> broker_fill \<Rightarrow> order_manager \<times> string set \<Rightarrow>
   (order_manager \<times> string set) \<times> (order_error + discrepancy list \<times> int)" where
  "absorb_fill digest ts f = (\<lambda>(m, applied).
     let key = dedup_key digest f in
     if key \<in> applied then ((m, applied), Inr ([], 0))
     else case order_for_provider_id m (bf_provider_order_id f) of
            None \<Rightarrow> ((m, insert key applied), Inr ([unattributed_fill f], 0))
          | Some od \<Rightarrow>
              (case record_fill m (po_order_id od) (bf_quantity f) (bf_price f) ts of
                 (m', Inl e) \<Rightarrow>
                   if is_fill_error e
                   then ((m', insert key applied), Inr ([failed_fill od f], 0))
                   else ((m', applied), Inl e)
               | (m', Inr _) \<Rightarrow> ((m', insert key applied), Inr ([inserted_fill od f], 1))))"

primrec absorb_fills ::
  "(fill_content \<Rightarrow> string) \<Rightarrow> instant \<Rightarrow> broker_fill list \<Rightarrow> order_manager \<times> string set \<Rightarrow>
   (order_manager \<times> string set) \<times> (order_error + discrepancy list \<times> int)" where
  "absorb_fills digest ts [] s = (s, Inr ([], 0))"
| "absorb_fills digest ts (f # fs) s =
     (case absorb_fill digest ts f s of
        (s', Inl e) \<Rightarrow> (s', Inl e)
      | (s', Inr (ds, n)) \<Rightarrow>
          (case absorb_fills digest ts fs s' of
             (s'', Inl e) \<Rightarrow> (s'', Inl e)
           | (s'', Inr (ds', n')) \<Rightarrow> (s'', Inr (ds @ ds', n + n'))))"

text \<open>\<open>_apply_fills\<close>: in the order of their keys.\<close>

definition apply_fills_pass where
  "apply_fills_pass digest ts fills s = absorb_fills digest ts (sort_key (dedup_key digest) fills) s"

subsection \<open>Classifying one order\<close>

definition by_provider_id :: "broker_order list \<Rightarrow> (string, broker_order) dict" where
  "by_provider_id pos = foldl (\<lambda>d b. dict_set (bo_provider_order_id b) b d) [] pos"

definition match_order :: "broker_order list \<Rightarrow> paper_order \<Rightarrow> broker_order option" where
  "match_order pos od =
     (case po_provider_order_id od of
        Some pid \<Rightarrow> dict_get (by_provider_id pos) pid
      | None \<Rightarrow> if po_client_order_attempt_id od \<noteq> [] then by_attempt pos od else None)"

text \<open>\<open>progression.index(s)\<close>, None for the ValueError.\<close>

definition progression :: "order_state list" where
  "progression = [CREATED, SUBMITTING, SUBMITTED, ACCEPTED, OPEN, CANCEL_PENDING, PARTIALLY_FILLED, FILLED]"

fun index_of :: "'a \<Rightarrow> 'a list \<Rightarrow> nat option" where
  "index_of x [] = None"
| "index_of x (y # ys) = (if x = y then Some 0 else map_option Suc (index_of x ys))"

definition who_is_ahead :: "order_state \<Rightarrow> order_state \<Rightarrow> discrepancy_kind" where
  "who_is_ahead locally target =
     (if locally \<in> {UNKNOWN, PENDING_RECONCILIATION} then PROVIDER_AHEAD
      else case (index_of locally progression, index_of target progression) of
             (Some l, Some t) \<Rightarrow> if l < t then PROVIDER_AHEAD else if t < l then OMS_AHEAD else MATCH
           | _ \<Rightarrow> STATUS_MISMATCH)"

definition unlisted :: "paper_order \<Rightarrow> discrepancy" where
  "unlisted od =
     (if is_unresolved od then discrepancy_of MISSING_AT_PROVIDER RECORDED_ONLY
      else if is_terminal (po_state od) then discrepancy_of MATCH NOTHING_TO_DO
      else discrepancy_of MISSING_AT_PROVIDER RECORDED_ONLY)
     \<lparr>di_order_id := Some (po_order_id od), di_local_state := Some (po_state od)\<rparr>"

definition compared :: "paper_order \<Rightarrow> broker_order \<Rightarrow> discrepancy_kind \<Rightarrow> resolution \<Rightarrow> discrepancy" where
  "compared od b k r = (discrepancy_of k r)
     \<lparr>di_order_id := Some (po_order_id od), di_provider_order_id := Some (bo_provider_order_id b),
      di_local_state := Some (po_state od), di_provider_status := Some (bo_status b)\<rparr>"

fun is_invalid_transition :: "order_error \<Rightarrow> bool" where
  "is_invalid_transition (InvalidTransition _ _ _) = True"
| "is_invalid_transition _ = False"

text \<open>\<open>Reconciler._apply_provider_state\<close>\<close>

definition move_to_provider ::
  "instant \<Rightarrow> order_manager \<Rightarrow> paper_order \<Rightarrow> broker_order \<Rightarrow> order_state \<Rightarrow>
   order_manager \<times> (order_error + discrepancy \<times> string option)" where
  "move_to_provider ts m od b target =
     (case apply_provider_state m (po_order_id od) target (status_word (bo_status b)) ts of
        (m', Inl e) \<Rightarrow>
          if is_invalid_transition e
          then (m', Inr (compared od b STATUS_MISMATCH UNRESOLVED, Some (bo_provider_order_id b)))
          else (m', Inl e)
      | (m', Inr _) \<Rightarrow>
          (m', Inr (compared od b (who_is_ahead (po_state od) target) ORDER_STATE_APPLIED,
                    Some (bo_provider_order_id b))))"

definition reconcile_order ::
  "instant \<Rightarrow> broker_order list \<Rightarrow> order_manager \<Rightarrow> paper_order \<Rightarrow>
   order_manager \<times> (order_error + discrepancy \<times> string option)" where
  "reconcile_order ts pos m od =
     (case match_order pos od of
        None \<Rightarrow> (m, Inr (unlisted od, None))
      | Some b \<Rightarrow>
          (case reconciled_state b of
             None \<Rightarrow> (m, Inr (compared od b INSUFFICIENT_EVIDENCE UNRESOLVED, Some (bo_provider_order_id b)))
           | Some target \<Rightarrow>
               if po_state od = target
               then if po_filled_quantity od \<noteq> bo_filled_quantity b
                    then (m, Inr ((compared od b QUANTITY_MISMATCH RECORDED_ONLY)
                               \<lparr>di_local_value := Some (po_filled_quantity od),
                                di_provider_value := Some (bo_filled_quantity b)\<rparr>,
                             Some (bo_provider_order_id b)))
                    else (m, Inr (compared od b MATCH NOTHING_TO_DO, Some (bo_provider_order_id b)))
               else move_to_provider ts m od b target))"

text \<open>The loop over the orders, with the provider ids it has accounted for.\<close>

primrec status_pass ::
  "instant \<Rightarrow> broker_order list \<Rightarrow> paper_order list \<Rightarrow> order_manager \<Rightarrow>
   order_manager \<times> (order_error + discrepancy list \<times> string list)" where
  "status_pass ts pos [] m = (m, Inr ([], []))"
| "status_pass ts pos (od # ods) m =
     (case reconcile_order ts pos m od of
        (m', Inl e) \<Rightarrow> (m', Inl e)
      | (m', Inr (d, consumed)) \<Rightarrow>
          (case status_pass ts pos ods m' of
             (m'', Inl e) \<Rightarrow> (m'', Inl e)
           | (m'', Inr (ds, ids)) \<Rightarrow>
               (m'', Inr (d # ds, (case consumed of None \<Rightarrow> ids | Some i \<Rightarrow> i # ids)))))"

definition unknown_at_venue :: "broker_order \<Rightarrow> discrepancy" where
  "unknown_at_venue b = (discrepancy_of MISSING_LOCALLY RECORDED_ONLY)
     \<lparr>di_provider_order_id := Some (bo_provider_order_id b), di_provider_status := Some (bo_status b)\<rparr>"

definition count_if :: "('a \<Rightarrow> bool) \<Rightarrow> 'a list \<Rightarrow> int" where
  "count_if P xs = int (length (filter P xs))"

definition summarise :: "discrepancy list \<Rightarrow> int \<Rightarrow> reconciliation_outcome" where
  "summarise ds fills_inserted = \<lparr>
     ro_matched = count_if (\<lambda>d. kind_is_clean (di_kind d)) ds,
     ro_discrepancies = count_if (\<lambda>d. \<not> kind_is_clean (di_kind d)) ds,
     ro_resolved = count_if (\<lambda>d. di_resolution d \<in> {ORDER_STATE_APPLIED, FILL_INSERTED, POSITION_CORRECTED}) ds,
     ro_needs_attention = count_if needs_attention ds,
     ro_fills_inserted = fills_inserted,
     ro_orders_updated = count_if (\<lambda>d. di_resolution d = ORDER_STATE_APPLIED) ds,
     ro_unresolved_orders = count_if (\<lambda>d. di_resolution d = UNRESOLVED) ds\<rparr>"

subsection \<open>One pass\<close>

text \<open>The pass over given answers of the venue: identities, then fills, then states, then strangers.\<close>

definition reconcile_with ::
  "(fill_content \<Rightarrow> string) \<Rightarrow> broker_order list \<Rightarrow> broker_fill list \<Rightarrow> reconciler \<Rightarrow>
   reconciliation_trigger \<Rightarrow> instant \<Rightarrow> string \<Rightarrow> string \<Rightarrow>
   reconciler \<times> (order_error + reconciliation_run)" where
  "reconcile_with digest pos fills rc trigger ts run_id scope =
     (let local_orders = all_orders (rc_manager rc) in
      case adopt_identities pos local_orders (rc_manager rc) of
        (m1, Inl e) \<Rightarrow> (rc\<lparr>rc_manager := m1\<rparr>, Inl e)
      | (m1, Inr _) \<Rightarrow>
        (case apply_fills_pass digest ts fills (m1, rc_applied_fills rc) of
           ((m2, applied), Inl e) \<Rightarrow> (rc\<lparr>rc_manager := m2, rc_applied_fills := applied\<rparr>, Inl e)
         | ((m2, applied), Inr (ds, inserted)) \<Rightarrow>
           (case status_pass ts pos (all_orders m2) m2 of
              (m3, Inl e) \<Rightarrow> (rc\<lparr>rc_manager := m3, rc_applied_fills := applied\<rparr>, Inl e)
            | (m3, Inr (ds', matched)) \<Rightarrow>
                let strangers = map unknown_at_venue (filter (\<lambda>b. bo_provider_order_id b \<notin> set matched) pos);
                    all = ds @ ds' @ strangers;
                    run = \<lparr>rr_run_id = run_id, rr_trigger = trigger, rr_as_of = ts, rr_scope = scope,
                           rr_discrepancies = all, rr_outcome = summarise all inserted,
                           rr_provider_snapshot = pos, rr_local_snapshot = local_orders,
                           rr_started_at = None, rr_completed_at = None\<rparr>
                in (\<lparr>rc_manager = m3, rc_applied_fills = applied, rc_runs = rc_runs rc @ [run]\<rparr>, Inr run))))"

definition reconcile ::
  "(fill_content \<Rightarrow> string) \<Rightarrow> 'v broker_adapter \<Rightarrow> 'v \<Rightarrow> reconciler \<Rightarrow>
   reconciliation_trigger \<Rightarrow> instant \<Rightarrow> instant \<Rightarrow> string \<Rightarrow> string \<Rightarrow>
   reconciler \<times> (order_error + reconciliation_run)" where
  "reconcile digest A v rc trigger since ts run_id scope =
     (case ad_list_orders A v since of
        Inl e \<Rightarrow> (rc, Inl e)
      | Inr pos \<Rightarrow>
          (case ad_list_trades A v since of
             Inl e \<Rightarrow> (rc, Inl e)
           | Inr fills \<Rightarrow> reconcile_with digest pos fills rc trigger ts run_id scope))"

text \<open>\<open>startup_gate\<close>, its reason left out.\<close>

definition startup_gate :: "reconciliation_run option \<Rightarrow> bool" where
  "startup_gate run = (case run of None \<Rightarrow> False | Some r \<Rightarrow> outcome_is_clean (rr_outcome r))"

end
