(* ===== verification/Paper_Venue.thy ===== *)
theory Paper_Venue
  imports Broker
begin

text \<open>
  \<^verbatim>\<open>oipulse/trading/brokers/paper.py\<close>, the provider surface of the simulated venue: its own
  book, trades and events, its declared faults, and every call of the protocol. Fault sets are
  lists of the ids they name. The venue's \<open>submit\<close>, \<open>cancel\<close> and \<open>status\<close> on local orders
  belong to the paper execution path and are not part of this theory.
\<close>

section \<open>State\<close>

record venue_faults =
  vf_lose_ack_for :: "string list"
  vf_drop_request_for :: "string list"
  vf_reject_for :: "string list"
  vf_venue_cancelled :: "string list"
  vf_hide_from_queries :: "string list"

definition no_faults :: venue_faults where
  "no_faults = \<lparr>vf_lose_ack_for = [], vf_drop_request_for = [], vf_reject_for = [],
     vf_venue_cancelled = [], vf_hide_from_queries = []\<rparr>"

record paper_venue =
  pv_faults :: venue_faults
  pv_book :: "(string, broker_order) dict"
  pv_trades :: "broker_fill list"
  pv_events :: "broker_order_event list"
  pv_next_id :: int

definition fresh_venue :: "venue_faults \<Rightarrow> paper_venue" where
  "fresh_venue f = \<lparr>pv_faults = f, pv_book = [], pv_trades = [], pv_events = [], pv_next_id = 1\<rparr>"

definition venue_capabilities :: "execution_capability list" where
  "venue_capabilities = [SIMULATE, QUERY_PROVIDER]"

section \<open>Placing and cancelling\<close>

text \<open>\<open>f"paper-{n:06d}"\<close>\<close>

definition provider_id_of :: "int \<Rightarrow> string" where
  "provider_id_of n = ''paper-'' @ replicate (6 - length (str_int n)) (CHR ''0'') @ str_int n"

definition allocate_provider_id :: "paper_venue \<Rightarrow> paper_venue \<times> string" where
  "allocate_provider_id v = (v\<lparr>pv_next_id := pv_next_id v + 1\<rparr>, provider_id_of (pv_next_id v))"

definition place_order ::
  "paper_venue \<Rightarrow> order_request \<Rightarrow> paper_venue \<times> (order_error + broker_ack)" where
  "place_order v rq =
     (case require_capability venue_capabilities SIMULATE of
        Some e \<Rightarrow> (v, Inl e)
      | None \<Rightarrow>
          let attempt = rq_client_order_attempt_id rq in
          if attempt \<in> set (vf_drop_request_for (pv_faults v)) then (v, Inl BrokerTimeout)
          else
            let (v1, pid) = allocate_provider_id v;
                entry = \<lparr>bo_provider_order_id = pid, bo_status = PS_OPEN,
                         bo_instrument_id = rq_instrument_id rq, bo_side = rq_side rq,
                         bo_quantity = rq_quantity rq, bo_filled_quantity = 0,
                         bo_average_price = None, bo_client_order_attempt_id = Some attempt,
                         bo_provider_time = rq_requested_at rq, bo_received_at = None,
                         bo_raw_status = ''open''\<rparr>;
                v2 = v1\<lparr>pv_book := dict_set pid entry (pv_book v1)\<rparr>
            in if attempt \<in> set (vf_reject_for (pv_faults v))
               then (v2\<lparr>pv_book := dict_set pid
                          (entry\<lparr>bo_status := PS_REJECTED, bo_raw_status := ''rejected''\<rparr>) (pv_book v2)\<rparr>,
                     Inr \<lparr>ba_client_order_attempt_id = attempt, ba_accepted = False,
                          ba_provider_order_id = Some pid, ba_provider_status = Some PS_REJECTED,
                          ba_provider_time = rq_requested_at rq, ba_received_at = rq_requested_at rq\<rparr>)
               else if attempt \<in> set (vf_lose_ack_for (pv_faults v)) then (v2, Inl BrokerTimeout)
               else (v2, Inr \<lparr>ba_client_order_attempt_id = attempt, ba_accepted = True,
                              ba_provider_order_id = Some pid, ba_provider_status = Some PS_OPEN,
                              ba_provider_time = rq_requested_at rq, ba_received_at = rq_requested_at rq\<rparr>))"

definition plain_ack :: "string \<Rightarrow> bool \<Rightarrow> string \<Rightarrow> provider_status option \<Rightarrow> broker_ack" where
  "plain_ack attempt accepted pid status =
     \<lparr>ba_client_order_attempt_id = attempt, ba_accepted = accepted, ba_provider_order_id = Some pid,
      ba_provider_status = status, ba_provider_time = None, ba_received_at = None\<rparr>"

definition cancel_order ::
  "paper_venue \<Rightarrow> string \<Rightarrow> paper_venue \<times> (order_error + broker_ack)" where
  "cancel_order v pid =
     (case require_capability venue_capabilities SIMULATE of
        Some e \<Rightarrow> (v, Inl e)
      | None \<Rightarrow>
          (case dict_get (pv_book v) pid of
             None \<Rightarrow> (v, Inr (plain_ack [] False pid None))
           | Some existing \<Rightarrow>
               let attempt = (case bo_client_order_attempt_id existing of None \<Rightarrow> [] | Some a \<Rightarrow> a) in
               if bo_status existing = PS_FILLED
               then (v, Inr (plain_ack attempt False pid (Some PS_FILLED)))
               else (v\<lparr>pv_book := dict_set pid
                        (existing\<lparr>bo_status := PS_CANCELLED, bo_raw_status := ''cancelled''\<rparr>) (pv_book v)\<rparr>,
                     Inr (plain_ack attempt True pid (Some PS_CANCELLED)))))"

definition modify_order ::
  "paper_venue \<Rightarrow> string \<Rightarrow> paper_venue \<times> (order_error + broker_ack)" where
  "modify_order v pid =
     (case require_capability venue_capabilities SIMULATE of
        Some e \<Rightarrow> (v, Inl e)
      | None \<Rightarrow> (v, Inr (plain_ack [] False pid None)))"

section \<open>Queries\<close>

text \<open>\<open>_resolved\<close>: a cancellation the venue made on its own.\<close>

definition venue_view :: "paper_venue \<Rightarrow> broker_order \<Rightarrow> broker_order" where
  "venue_view v b =
     (if bo_provider_order_id b \<in> set (vf_venue_cancelled (pv_faults v))
      then b\<lparr>bo_status := PS_CANCELLED, bo_raw_status := ''cancelled_by_venue''\<rparr>
      else b)"

definition query :: "'a \<Rightarrow> order_error + 'a" where
  "query x = (case require_capability venue_capabilities QUERY_PROVIDER of
     Some e \<Rightarrow> Inl e | None \<Rightarrow> Inr x)"

definition get_order :: "paper_venue \<Rightarrow> string \<Rightarrow> order_error + broker_order option" where
  "get_order v pid =
     query (if pid \<in> set (vf_hide_from_queries (pv_faults v)) then None
            else map_option (venue_view v) (dict_get (pv_book v) pid))"

definition since_ok :: "instant option \<Rightarrow> instant \<Rightarrow> bool" where
  "since_ok t since = (case t of None \<Rightarrow> True | Some t \<Rightarrow> since \<le> t)"

definition list_orders :: "paper_venue \<Rightarrow> instant \<Rightarrow> order_error + broker_order list" where
  "list_orders v since =
     query (filter (\<lambda>b. since_ok (bo_provider_time b) since)
              (map (\<lambda>k. venue_view v (the (dict_get (pv_book v) k)))
                 (filter (\<lambda>k. k \<notin> set (vf_hide_from_queries (pv_faults v))) (sort (dict_keys (pv_book v))))))"

definition list_trades ::
  "(fill_content \<Rightarrow> string) \<Rightarrow> paper_venue \<Rightarrow> instant \<Rightarrow> order_error + broker_fill list" where
  "list_trades digest v since =
     query (filter (\<lambda>f. since_ok (bf_provider_time f) since) (sort_key (dedup_key digest) (pv_trades v)))"

text \<open>Positions folded from the venue's own trades.\<close>

definition signed_quantity :: "broker_fill \<Rightarrow> int" where
  "signed_quantity f = bf_quantity f * side_sign (bf_side f)"

definition position_totals :: "broker_fill list \<Rightarrow> (int, int) dict" where
  "position_totals fs =
     foldl (\<lambda>totals f. dict_set (bf_instrument_id f)
        (case_option 0 id (dict_get totals (bf_instrument_id f)) + signed_quantity f) totals) [] fs"

definition get_positions :: "paper_venue \<Rightarrow> order_error + broker_position list" where
  "get_positions v =
     query (map (\<lambda>(i, q). \<lparr>bp_instrument_id = i, bp_quantity = q, bp_average_price = None,
                          bp_provider_time = None\<rparr>)
              (filter (\<lambda>(i, q). q \<noteq> 0) (sort_key fst (position_totals (pv_trades v)))))"

section \<open>Executions at the venue\<close>

text \<open>\<open>venue_fill\<close>; an unknown id is the KeyError of the subscript.\<close>

definition venue_fill ::
  "paper_venue \<Rightarrow> string \<Rightarrow> int \<Rightarrow> decimal \<Rightarrow> instant \<Rightarrow> string option \<Rightarrow> decimal \<Rightarrow>
   order_error + (paper_venue \<times> broker_fill)" where
  "venue_fill v pid quantity price ts fill_id fees =
     (case dict_get (pv_book v) pid of
        None \<Rightarrow> Inl (MissingOrder pid)
      | Some existing \<Rightarrow>
          let filled = bo_filled_quantity existing + quantity;
              complete = bo_quantity existing \<le> filled;
              entry = existing\<lparr>bo_filled_quantity := filled,
                        bo_status := (if complete then PS_FILLED else PS_PARTIALLY_FILLED),
                        bo_average_price := Some price,
                        bo_raw_status := (if complete then ''complete'' else ''partial'')\<rparr>;
              fill = \<lparr>bf_provider_fill_id = fill_id, bf_provider_order_id = pid,
                      bf_instrument_id = bo_instrument_id existing, bf_side = bo_side existing,
                      bf_quantity = quantity, bf_price = price, bf_fees = fees,
                      bf_provider_time = Some ts, bf_received_at = Some ts\<rparr>
          in Inr (v\<lparr>pv_book := dict_set pid entry (pv_book v),
                    pv_trades := pv_trades v @ [fill],
                    pv_events := pv_events v @ [\<lparr>be_provider_order_id = pid, be_status = bo_status entry,
                       be_provider_time = Some ts, be_received_at = Some ts,
                       be_filled_quantity = Some filled\<rparr>]\<rparr>, fill))"

definition paper_adapter :: "(fill_content \<Rightarrow> string) \<Rightarrow> paper_venue broker_adapter" where
  "paper_adapter digest = \<lparr>
     ad_capabilities = venue_capabilities,
     ad_place_order = place_order, ad_cancel_order = cancel_order, ad_modify_order = modify_order,
     ad_get_order = get_order, ad_list_orders = list_orders, ad_list_trades = list_trades digest,
     ad_get_positions = get_positions\<rparr>"

end
