(* ===== verification/OMS_Guarantees.thy ===== *)
theory OMS_Guarantees
  imports OMS_Safety
begin

text \<open>
  Further guarantees of the order manager: an attempt id reaches the venue at most once over any
  run, every outcome of a submission is backed by what the venue said or failed to say, a
  cancellation is believed only on the venue's word, and one place where the manager loses track
  of an unresolved order.
\<close>

section \<open>Attempts are sent once\<close>

lemma submit_sends:
  obtains (kept) "fst (submit h A v m od i decision ts) = v"
      "om_sent m \<subseteq> om_sent (fst (snd (submit h A v m od i decision ts)))"
  | (sent) a where "fst (submit h A v m od i decision ts) = fst (ad_place_order A v (request_for od a ts))"
      "a \<notin> om_sent m" "om_sent (fst (snd (submit h A v m od i decision ts))) = insert a (om_sent m)"
proof -
  let ?auth = "authorize_submission h i decision (po_order_id od) (po_intent_id od) (po_quantity od) ts"
  let ?n = "attempts_for m (po_order_id od) + 1"
  let ?a = "attempt_id_for h (po_order_id od) ?n"
  show thesis
  proof (cases "sa_authorized ?auth \<and> \<not> blocks_new_intents m (po_instrument_id od) (po_strategy_id od)
      \<and> ?a \<notin> om_sent m \<and> is_ok (working_order m od ?a ?auth ts)")
    case False
    then have "fst (submit h A v m od i decision ts) = v \<and> om_sent (fst (snd (submit h A v m od i decision ts))) = om_sent m"
      by (auto simp: submit_def Let_def is_ok_def split: sum.split)
    then show thesis using kept by simp
  next
    case True
    then obtain w where w: "working_order m od ?a ?auth ts = Inr w" by (auto simp: is_ok_iff)
    show thesis
      by (rule sent [of ?a]) (use True w working_order_facts [OF w] in \<open>simp_all add: submit_def Let_def send_venue\<close>)
  qed
qed

text \<open>The same calls over a venue that remembers which attempts it was sent.\<close>

definition logged :: "'v broker_adapter \<Rightarrow> ('v \<times> string list) broker_adapter" where
  "logged A = \<lparr>
     ad_capabilities = ad_capabilities A,
     ad_place_order = (\<lambda>(v, ids) rq. let (v', r) = ad_place_order A v rq
        in ((v', ids @ [rq_client_order_attempt_id rq]), r)),
     ad_cancel_order = (\<lambda>(v, ids) pid. let (v', r) = ad_cancel_order A v pid in ((v', ids), r)),
     ad_modify_order = (\<lambda>(v, ids) pid. let (v', r) = ad_modify_order A v pid in ((v', ids), r)),
     ad_get_order = (\<lambda>(v, ids) pid. ad_get_order A v pid),
     ad_list_orders = (\<lambda>(v, ids) since. ad_list_orders A v since),
     ad_list_trades = (\<lambda>(v, ids) since. ad_list_trades A v since),
     ad_get_positions = (\<lambda>(v, ids). ad_get_positions A v)\<rparr>"

lemma logged_place: "snd (fst (ad_place_order (logged A) x rq)) = snd x @ [rq_client_order_attempt_id rq]"
  by (cases x) (simp add: logged_def split: prod.split)

lemma logged_cancel: "snd (fst (ad_cancel_order (logged A) x pid)) = snd x"
  by (cases x) (simp add: logged_def split: prod.split)

definition sent_ok :: "('v \<times> string list) \<times> order_manager \<Rightarrow> bool" where
  "sent_ok x \<longleftrightarrow> distinct (snd (fst x)) \<and> set (snd (fst x)) \<subseteq> om_sent (snd x)"

lemma put_sent [simp]: "om_sent (fst (put m oid r)) = om_sent m"
  by (cases r) (simp_all add: put_def)

lemma request_cancel_sent: "om_sent (fst (snd (request_cancel A v m oid ts))) = om_sent m"
  by (simp add: request_cancel_def Let_def split: option.split sum.split prod.split)

lemma request_cancel_venue:
  "fst (request_cancel A v m oid ts) = v \<or> (\<exists>pid. fst (request_cancel A v m oid ts) = fst (ad_cancel_order A v pid))"
  by (auto simp: request_cancel_def Let_def split: option.split sum.split prod.split) (metis fst_conv)+

lemma kept_sent:
  "om_sent (fst (track m od)) = om_sent m"
  "om_sent (fst (escalate_to_reconciliation m oid ts)) = om_sent m"
  "om_sent (fst (apply_provider_state m oid target w ts)) = om_sent m"
  "om_sent (fst (adopt_provider_identity m oid pid)) = om_sent m"
  "om_sent (fst (record_fill m oid q p ts)) = om_sent m"
  by (simp_all add: track_def store_def escalate_to_reconciliation_def apply_provider_state_def
      adopt_provider_identity_def record_fill_def split: option.split)

lemma sent_ok_submit:
  assumes "submit h (logged A) x m od i d ts = (x', m', r)" "sent_ok (x, m)"
  shows "sent_ok (x', m')"
proof (cases rule: submit_sends [of h "logged A" x m od i d ts])
  case kept
  then show ?thesis using assms by (auto simp: sent_ok_def)
next
  case (sent a)
  have "snd x' = snd x @ [a]" using sent(1) assms(1) logged_place [of A x] by (simp add: request_for_def)
  then show ?thesis using assms sent(2,3) by (auto simp: sent_ok_def)
qed

lemma sent_ok_cancel:
  assumes "request_cancel (logged A) x m oid ts = (x', m', r)" "sent_ok (x, m)"
  shows "sent_ok (x', m')"
proof -
  have "snd x' = snd x"
    using request_cancel_venue [of "logged A" x m oid ts] assms(1) by (auto simp: logged_cancel)
  moreover have "om_sent m' = om_sent m" using request_cancel_sent [of "logged A" x m oid ts] assms(1) by simp
  ultimately show ?thesis using assms(2) by (simp add: sent_ok_def)
qed

lemma sent_ok_step: "oms_step h (logged A) x y \<Longrightarrow> sent_ok x \<Longrightarrow> sent_ok y"
proof (induction rule: oms_step.induct)
  case (do_submit od v m i d ts v' m' r)
  then show ?case using sent_ok_submit by blast
next
  case (do_cancel v m oid ts v' m' r)
  then show ?case using sent_ok_cancel by blast
qed (simp_all add: sent_ok_def kept_sent)

lemma sent_ok_run: "(oms_step h (logged A))\<^sup>*\<^sup>* x y \<Longrightarrow> sent_ok x \<Longrightarrow> sent_ok y"
  by (induction rule: rtranclp_induct) (auto dest: sent_ok_step)

section \<open>A small system for the witnesses\<close>

definition live_intent :: trade_intent where
  "live_intent = one_leg_intent 5"

definition live_order :: paper_order where
  "live_order = sample_order\<lparr>po_intent_id := intent_id (h_intent sample_hashes) live_intent\<rparr>"

definition live_decision :: risk_decision where
  "live_decision = sample_decision\<lparr>rd_intent_id := intent_id (h_intent sample_hashes) live_intent\<rparr>"

text \<open>The id of the first attempt at \<open>live_order\<close>, a venue that swallows it, and one that does not.\<close>

definition first_attempt :: string where
  "first_attempt = attempt_id_for sample_hashes ''ord_1'' 1"

definition deaf_venue :: paper_venue where
  "deaf_venue = fresh_venue (no_faults\<lparr>vf_drop_request_for := [first_attempt]\<rparr>)"

definition key_of :: "fill_content \<Rightarrow> string" where
  "key_of = (\<lambda>_. ''k'')"

abbreviation venue_calls :: "paper_venue broker_adapter" where
  "venue_calls \<equiv> paper_adapter key_of"

definition live_submit :: "'v broker_adapter \<Rightarrow> 'v \<Rightarrow> ('v, submission_outcome) oms_result" where
  "live_submit A v = submit sample_hashes A v (new_manager PAPER_VENUE) live_order live_intent (Some live_decision) 120"

lemma live_order_reachable: "reachable_order live_order"
  by (rule reach_fresh) (simp add: live_order_def sample_order_def fresh_order_def order_ok_def)

text \<open>
  Claim C13: over any run of the manager, from an empty manager and a venue that keeps a log of the
  attempt ids it is sent, no attempt id is ever sent twice, and every id the venue saw is one the
  manager remembers as sent.
\<close>

theorem attempts_sent_at_most_once:
  assumes "(oms_step h (logged A))\<^sup>*\<^sup>* ((v, []), new_manager venue) ((v', ids), m)"
  shows "distinct ids \<and> set ids \<subseteq> om_sent m"
  using sent_ok_run [OF assms] by (simp add: sent_ok_def new_manager_def)

theorem attempts_sent_at_most_once_witness:
  "\<exists>v m. (oms_step sample_hashes (logged venue_calls))\<^sup>*\<^sup>*
      ((fresh_venue no_faults, []), new_manager PAPER_VENUE) ((v, [first_attempt]), m)
    \<and> distinct [first_attempt] \<and> first_attempt \<in> om_sent m"
proof -
  have ids: "snd (fst (live_submit (logged venue_calls) (fresh_venue no_faults, []))) = [first_attempt]"
    by code_simp
  then obtain v m r where run: "live_submit (logged venue_calls) (fresh_venue no_faults, []) = ((v, [first_attempt]), m, r)"
    by (cases "live_submit (logged venue_calls) (fresh_venue no_faults, [])") auto
  have "(oms_step sample_hashes (logged venue_calls))\<^sup>*\<^sup>*
      ((fresh_venue no_faults, []), new_manager PAPER_VENUE) ((v, [first_attempt]), m)"
    by (rule r_into_rtranclp, rule do_submit [OF live_order_reachable run [unfolded live_submit_def]])
  then show ?thesis using attempts_sent_at_most_once [of sample_hashes venue_calls] by fastforce
qed

section \<open>Outcomes and evidence\<close>

text \<open>What is in the outcome is also what the manager stores.\<close>

definition recorded :: "order_manager \<Rightarrow> submission_outcome \<Rightarrow> bool" where
  "recorded m oc \<longleftrightarrow> om_order m (po_order_id (so_order oc)) = Some (so_order oc)"

text \<open>What a submission outcome may claim, given the answer the venue gave to the request.\<close>

definition backed_by :: "(order_error + broker_ack) \<Rightarrow> submission_outcome \<Rightarrow> bool" where
  "backed_by answer oc \<longleftrightarrow>
     (case so_kind oc of
        ACKNOWLEDGED \<Rightarrow> po_state (so_order oc) = SUBMITTED
          \<and> (\<exists>a. answer = Inr a \<and> ba_accepted a \<and> so_ack oc = Some a
               \<and> po_provider_order_id (so_order oc) = ba_provider_order_id a)
      | REJECTED_BY_VENUE \<Rightarrow> po_state (so_order oc) = REJECTED
          \<and> (\<exists>a. answer = Inr a \<and> \<not> ba_accepted a \<and> so_ack oc = Some a)
      | AMBIGUOUS \<Rightarrow> po_state (so_order oc) = UNKNOWN \<and> answer = Inl BrokerTimeout \<and> so_ack oc = None
      | CAPABILITY_DENIED \<Rightarrow> po_state (so_order oc) = REJECTED \<and> answer = Inl LiveExecutionDisabled
      | NOT_AUTHORIZED \<Rightarrow> False)"

lemma settle_Inr:
  "settle v m r f = (v', m', Inr oc) \<longleftrightarrow> (\<exists>od. r = Inr od \<and> v' = v \<and> m' = store m od \<and> oc = f od)"
  by (cases r) (auto simp: settle_def)

lemma om_order_store [simp]: "om_order (store m od) oid = (if oid = po_order_id od then Some od else om_order m oid)"
  by (simp add: om_order_def store_def)

lemma send_backed:
  assumes "send A v m w a auth ts = (v', m', Inr oc)"
  shows "recorded m' oc \<and> po_order_id (so_order oc) = po_order_id w
    \<and> backed_by (snd (ad_place_order A v (request_for w a ts))) oc"
  using assms
  by (auto simp: send_def Let_def apply_ack_def settle_Inr outcome_def recorded_def backed_by_def
      bind_result_Inr_iff validated_def transition_Inr_iff with_ack_def
      split: prod.splits sum.splits if_splits)

text \<open>
  Claim C21: every outcome of a submission is backed by evidence. A refusal leaves the venue
  untouched and the order rejected. Otherwise either this attempt had been sent before, in which
  case nothing happens, or the request went out and the outcome is what the venue's answer
  supports: acknowledged only on its acceptance, rejected only on its rejection or the missing
  capability, and silence leaves the order UNKNOWN, never accepted and never rejected. The order in
  the outcome is the one the manager holds.
\<close>

theorem submission_outcomes_have_evidence:
  assumes "submit h A v m od i decision ts = (v', m', Inr oc)"
  shows "if so_kind oc = NOT_AUTHORIZED
      then v' = v \<and> so_ack oc = None \<and> po_state (so_order oc) = REJECTED \<and> recorded m' oc
      else (so_kind oc = AMBIGUOUS \<and> so_ack oc = None \<and> v' = v \<and> m' = m
              \<and> attempt_id_for h (po_order_id od) (attempts_for m (po_order_id od) + 1) \<in> om_sent m)
        \<or> (recorded m' oc \<and> (\<exists>rq. backed_by (snd (ad_place_order A v rq)) oc \<and> v' = fst (ad_place_order A v rq)
              \<and> rq_order_id rq = po_order_id (so_order oc) \<and> rq_quantity rq = po_quantity od))"
proof -
  let ?auth = "authorize_submission h i decision (po_order_id od) (po_intent_id od) (po_quantity od) ts"
  let ?n = "attempts_for m (po_order_id od) + 1"
  let ?a = "attempt_id_for h (po_order_id od) ?n"
  consider (refused) "\<not> sa_authorized ?auth \<or> blocks_new_intents m (po_instrument_id od) (po_strategy_id od)"
    | (again) "sa_authorized ?auth" "\<not> blocks_new_intents m (po_instrument_id od) (po_strategy_id od)" "?a \<in> om_sent m"
    | (sent) "sa_authorized ?auth" "\<not> blocks_new_intents m (po_instrument_id od) (po_strategy_id od)" "?a \<notin> om_sent m"
    by blast
  then show ?thesis
  proof cases
    case refused
    then have "settle v m (reject od RISK_REJECTED ts) (\<lambda>r. outcome NOT_AUTHORIZED r ?auth None) = (v', m', Inr oc)"
      using assms by (auto simp: submit_def Let_def split: if_splits)
    then show ?thesis by (auto simp: settle_Inr outcome_def recorded_def dest: reject_fields)
  next
    case again
    then show ?thesis using assms by (auto simp: submit_def Let_def outcome_def)
  next
    case sent
    then obtain w where w: "working_order m od ?a ?auth ts = Inr w"
      and s: "send A v ((store m w)\<lparr>om_attempts := dict_set (po_order_id od) ?n (om_attempts m),
                             om_sent := insert ?a (om_sent m)\<rparr>) w ?a ?auth ts = (v', m', Inr oc)"
      using assms by (auto simp: submit_def Let_def split: sum.splits)
    let ?rq = "request_for w ?a ts"
    have rq: "?rq = request_for od ?a ts" "rq_order_id ?rq = po_order_id w"
      using working_order_facts [OF w] by (simp_all add: request_for_def)
    have "v' = fst (ad_place_order A v ?rq)" using send_venue(1) [of A v _ w ?a ?auth ts] s by (metis fst_conv)
    moreover have "so_kind oc \<noteq> NOT_AUTHORIZED" using send_backed [OF s] by (auto simp: backed_by_def)
    moreover have "rq_quantity ?rq = po_quantity od" using rq by (simp add: request_for_def)
    ultimately show ?thesis using send_backed [OF s] rq(2) by auto
  qed
qed

theorem submission_outcomes_have_evidence_witness:
  "\<exists>v m oc. live_submit venue_calls deaf_venue = (v, m, Inr oc) \<and> so_kind oc = AMBIGUOUS
     \<and> recorded m oc \<and> po_state (so_order oc) = UNKNOWN"
proof -
  have "case snd (snd (live_submit venue_calls deaf_venue)) of Inl _ \<Rightarrow> False | Inr oc \<Rightarrow> so_kind oc = AMBIGUOUS"
    by code_simp
  then obtain v m oc where run: "live_submit venue_calls deaf_venue = (v, m, Inr oc)" and k: "so_kind oc = AMBIGUOUS"
    by (cases "live_submit venue_calls deaf_venue") (auto split: sum.splits)
  have "om_sent (new_manager PAPER_VENUE) = {}" by (simp add: new_manager_def)
  then show ?thesis
    using submission_outcomes_have_evidence [OF run [unfolded live_submit_def]] run k
    by (auto simp: backed_by_def)
qed

section \<open>Cancellation\<close>

text \<open>
  Claim C29: a cancellation is a request, not an outcome. The call reports CANCELLED only when the
  order's provider id is known and the venue accepted the cancel of exactly that id; without an id,
  or after a timeout, the order is UNKNOWN; a venue that declines leaves it CANCEL_PENDING. No
  other order is touched, and the order returned is the one stored.
\<close>

theorem cancelled_only_on_the_venues_word:
  assumes "request_cancel A v m oid ts = (v', m', Inr od')"
  shows "om_order m' oid = Some od' \<and> (\<forall>k. k \<noteq> oid \<longrightarrow> om_order m' k = om_order m k)
    \<and> (case po_provider_order_id od' of
         None \<Rightarrow> po_state od' = UNKNOWN \<and> v' = v
       | Some pid \<Rightarrow> v' = fst (ad_cancel_order A v pid) \<and>
           po_state od' = (case snd (ad_cancel_order A v pid) of
              Inl _ \<Rightarrow> UNKNOWN | Inr ack \<Rightarrow> if ba_accepted ack then CANCELLED else CANCEL_PENDING))"
proof (cases "om_order m oid")
  case (Some od)
  show ?thesis
  proof (cases "transition od CANCEL_PENDING ts ''cancel_requested'' []")
    case (Inr p)
    then have p: "po_state p = CANCEL_PENDING" by (simp add: transition_fields)
    show ?thesis
      using assms Some Inr p
      by (auto simp: request_cancel_def Let_def put_def om_order_def bind_result_Inr_iff validated_def
          transition_Inr_iff split: option.splits sum.splits prod.splits if_splits)
  qed (use assms Some in \<open>simp add: request_cancel_def\<close>)
qed (use assms in \<open>simp add: request_cancel_def\<close>)

section \<open>A stale copy of an unresolved order\<close>

text \<open>
  The block on unresolved orders protects the venue but not the manager's own record.
  When an order is UNKNOWN or awaiting reconciliation and the caller submits the CREATED copy it
  still holds, the blocked branch rejects that copy and stores it over the unresolved one: an order
  the venue may be holding becomes REJECTED, which is terminal, and stops blocking its instrument.
\<close>

theorem stale_copy_erases_unresolved_order:
  assumes "om_order m (po_order_id od) = Some u" and "is_unresolved u"
    and "po_instrument_id u = po_instrument_id od" and "po_strategy_id u = po_strategy_id od"
    and "po_state od = CREATED"
  shows "\<exists>r. om_order (fst (snd (submit h A v m od i decision ts))) (po_order_id od) = Some r
     \<and> po_state r = REJECTED \<and> is_terminal (po_state r) \<and> \<not> is_unresolved r
     \<and> fst (submit h A v m od i decision ts) = v"
proof -
  have "u \<in> set (unresolved m)"
    using assms(1,2) by (auto simp: unresolved_def all_orders_def om_order_def intro: in_sorted_valuesI)
  then have "blocks_new_intents m (po_instrument_id od) (po_strategy_id od)"
    using assms(3,4) by (auto simp: blocks_new_intents_def)
  moreover obtain r where r: "reject od RISK_REJECTED ts = Inr r"
    using assms(5) by (simp add: reject_def transition_def Let_def)
  moreover have "po_order_id r = po_order_id od" "po_state r = REJECTED" using reject_fields [OF r] by simp_all
  ultimately show ?thesis by (simp add: submit_def Let_def settle_def is_unresolved_def)
qed

definition deaf_manager :: order_manager where
  "deaf_manager = fst (snd (live_submit venue_calls deaf_venue))"

lemma deaf_manager_order:
  "\<exists>u. om_order deaf_manager (po_order_id live_order) = Some u \<and> is_unresolved u
     \<and> po_instrument_id u = po_instrument_id live_order \<and> po_strategy_id u = po_strategy_id live_order"
proof -
  have "case om_order deaf_manager (po_order_id live_order) of None \<Rightarrow> False
      | Some u \<Rightarrow> is_unresolved u \<and> po_instrument_id u = po_instrument_id live_order
          \<and> po_strategy_id u = po_strategy_id live_order"
    by code_simp
  then show ?thesis by (cases "om_order deaf_manager (po_order_id live_order)") auto
qed

theorem stale_copy_erases_unresolved_order_witness:
  "\<exists>u r. om_order deaf_manager (po_order_id live_order) = Some u \<and> po_state u \<in> {UNKNOWN, PENDING_RECONCILIATION}
     \<and> om_order (fst (snd (submit sample_hashes venue_calls deaf_venue deaf_manager live_order live_intent
           (Some live_decision) 121))) (po_order_id live_order) = Some r
     \<and> po_state r = REJECTED"
proof -
  obtain u where u: "om_order deaf_manager (po_order_id live_order) = Some u" "is_unresolved u"
      "po_instrument_id u = po_instrument_id live_order" "po_strategy_id u = po_strategy_id live_order"
    using deaf_manager_order by blast
  have c: "po_state live_order = CREATED" by (simp add: live_order_def sample_order_def)
  show ?thesis
    using stale_copy_erases_unresolved_order [OF u c, where h = sample_hashes and A = venue_calls
        and v = deaf_venue and i = live_intent and decision = "Some live_decision" and ts = 121] u(1,2)
    unfolding is_unresolved_def by blast
qed

theorem cancelled_only_on_the_venues_word_witness:
  "\<exists>od. request_cancel venue_calls deaf_venue (fst (track (new_manager PAPER_VENUE) sample_accepted)) ''ord_1'' 5
      = (deaf_venue, fst (track (new_manager PAPER_VENUE) od), Inr od) \<and> po_state od = UNKNOWN"
proof -
  let ?m = "fst (track (new_manager PAPER_VENUE) sample_accepted)"
  have "case request_cancel venue_calls deaf_venue ?m ''ord_1'' 5 of
      (v, m, Inr od) \<Rightarrow> m = fst (track (new_manager PAPER_VENUE) od) \<and> po_provider_order_id od = None | _ \<Rightarrow> False"
    by code_simp
  then obtain v od where run: "request_cancel venue_calls deaf_venue ?m ''ord_1'' 5
      = (v, fst (track (new_manager PAPER_VENUE) od), Inr od)" and n: "po_provider_order_id od = None"
    by (cases "request_cancel venue_calls deaf_venue ?m ''ord_1'' 5") (auto split: sum.splits)
  from cancelled_only_on_the_venues_word [OF run] n have "v = deaf_venue" "po_state od = UNKNOWN" by simp_all
  with run show ?thesis by blast
qed

end
