(* ===== verification/Reconcile_Safety.thy ===== *)
theory Reconcile_Safety
  imports Reconcile OMS_Guarantees
begin

text \<open>
  What a reconciliation pass guarantees: it always completes over a well-formed manager, never
  adds or drops an order, moves an order only on evidence, accounts for every quantity it changes,
  and is idempotent over unchanged answers. Each of the three passes is described by one lemma
  that says what it returns and how the manager evolves; the properties combine them.
\<close>

section \<open>How a manager evolves\<close>

text \<open>The same orders under the same ids, each related to what it was.\<close>

definition evolves :: "(paper_order \<Rightarrow> paper_order \<Rightarrow> bool) \<Rightarrow> order_manager \<Rightarrow> order_manager \<Rightarrow> bool" where
  "evolves R m m' \<longleftrightarrow> dict_keys (om_orders m') = dict_keys (om_orders m)
     \<and> (\<forall>oid od. om_order m oid = Some od \<longrightarrow> (\<exists>od'. om_order m' oid = Some od' \<and> R od od'))"

lemma evolvesD:
  "evolves R m m' \<Longrightarrow> om_order m oid = Some od \<Longrightarrow> \<exists>od'. om_order m' oid = Some od' \<and> R od od'"
  by (simp add: evolves_def)

lemma evolves_refl: "(\<And>od. R od od) \<Longrightarrow> evolves R m m"
  by (simp add: evolves_def)

lemma evolves_mono: "evolves R m m' \<Longrightarrow> (\<And>x y. R x y \<Longrightarrow> S x y) \<Longrightarrow> evolves S m m'"
  unfolding evolves_def by blast

lemma evolves_trans:
  assumes "evolves R m m'" "evolves S m' m''" "\<And>x y z. R x y \<Longrightarrow> S y z \<Longrightarrow> T x z"
  shows "evolves T m m''"
  using assms unfolding evolves_def by metis

lemma evolves_back:
  assumes "evolves R m m'" "om_order m' oid = Some od'"
  shows "\<exists>od. om_order m oid = Some od \<and> R od od'"
proof -
  have "oid \<in> set (dict_keys (om_orders m))"
    using assms dict_get_in_keys by (fastforce simp: evolves_def om_order_def)
  then obtain od where "om_order m oid = Some od" by (auto simp: dict_keys_get om_order_def)
  then show ?thesis using assms evolvesD by fastforce
qed

definition with_order :: "order_manager \<Rightarrow> string \<Rightarrow> paper_order \<Rightarrow> order_manager" where
  "with_order m oid od = m\<lparr>om_orders := dict_set oid od (om_orders m)\<rparr>"

lemma om_order_with_order [simp]:
  "om_order (with_order m oid od) k = (if k = oid then Some od else om_order m k)"
  by (simp add: om_order_def with_order_def)

lemma put_Inr [simp]: "put m oid (Inr od) = (with_order m oid od, Inr od)"
  by (simp add: put_def with_order_def)

lemma put_Inl [simp]: "put m oid (Inl e) = (m, Inl e)"
  by (simp add: put_def)

lemma evolves_with_order:
  assumes "om_order m oid = Some od" "R od od'" "\<And>x. R x x"
  shows "evolves R m (with_order m oid od')"
proof -
  have "dict_keys (om_orders (with_order m oid od')) = dict_keys (om_orders m)"
    using assms(1) dict_get_in_keys [of "om_orders m" oid]
    by (simp add: with_order_def om_order_def dict_keys_set_present)
  then show ?thesis using assms by (simp add: evolves_def)
qed

lemma manager_ok_with_order:
  "manager_ok m \<Longrightarrow> po_order_id od = oid \<Longrightarrow> reachable_order od \<Longrightarrow> manager_ok (with_order m oid od)"
  unfolding with_order_def by (rule manager_ok_put)

lemma all_orders_stored: "manager_ok m \<Longrightarrow> od \<in> set (all_orders m) \<Longrightarrow> om_order m (po_order_id od) = Some od"
  by (auto simp: all_orders_def om_order_def set_sorted_values dest: manager_okD [unfolded om_order_def])

lemma stored_in_all: "om_order m oid = Some od \<Longrightarrow> od \<in> set (all_orders m)"
  by (auto simp: all_orders_def om_order_def intro: in_sorted_valuesI)

lemma distinct_all_orders:
  assumes "manager_ok m"
  shows "distinct (map po_order_id (all_orders m))"
proof -
  let ?ks = "sort (dict_keys (om_orders m))"
  have ids: "po_order_id (the (dict_get (om_orders m) k)) = k" if "k \<in> set ?ks" for k
  proof -
    from that obtain od where "dict_get (om_orders m) k = Some od" by (auto simp: dict_keys_get)
    then show ?thesis using manager_okD [OF assms, of k od] by (simp add: om_order_def)
  qed
  have "map po_order_id (all_orders m) = ?ks"
    unfolding all_orders_def sorted_values_def map_map o_def by (rule map_idI) (rule ids)
  moreover have "distinct ?ks" using assms by (simp add: manager_ok_def dict_ok_def dict_keys_def)
  ultimately show ?thesis by simp
qed

section \<open>Adopting identities\<close>

definition adopts :: "broker_order list \<Rightarrow> paper_order \<Rightarrow> paper_order \<Rightarrow> bool" where
  "adopts pos od od' \<longleftrightarrow> od' = od
     \<or> (lacks_identity od \<and> (\<exists>b. by_attempt pos od = Some b
          \<and> od' = od\<lparr>po_provider_order_id := Some (bo_provider_order_id b)\<rparr>))"

text \<open>No listed order could still give this one an identity.\<close>

definition identified :: "broker_order list \<Rightarrow> paper_order \<Rightarrow> bool" where
  "identified pos od \<longleftrightarrow> lacks_identity od \<longrightarrow> by_attempt pos od = None"

lemma adopts_refl [simp]: "adopts pos od od"
  by (simp add: adopts_def)

lemma adopts_trans:
  assumes "adopts pos x y" "adopts pos y z"
  shows "adopts pos x z"
proof (cases "y = x")
  case False
  then have "po_provider_order_id y \<noteq> None" using assms(1) unfolding adopts_def by fastforce
  then have "z = y" using assms(2) unfolding adopts_def lacks_identity_def by metis
  then show ?thesis using assms(1) by simp
qed (use assms in simp)

lemma adopt_provider_identity_fresh:
  assumes "manager_ok m" "om_order m oid = Some od" "po_provider_order_id od = None"
  shows "adopt_provider_identity m oid pid
      = (with_order m oid (od\<lparr>po_provider_order_id := Some pid\<rparr>), Inr (od\<lparr>po_provider_order_id := Some pid\<rparr>))"
    and "manager_ok (with_order m oid (od\<lparr>po_provider_order_id := Some pid\<rparr>))"
proof -
  have od: "po_order_id od = oid" "reachable_order od" using manager_okD [OF assms(1,2)] by simp_all
  have ok: "order_ok (od\<lparr>po_provider_order_id := Some pid\<rparr>)"
    using reachable_order_ok [OF od(2)] by (simp add: order_ok_def)
  show "adopt_provider_identity m oid pid
      = (with_order m oid (od\<lparr>po_provider_order_id := Some pid\<rparr>), Inr (od\<lparr>po_provider_order_id := Some pid\<rparr>))"
    using assms(2,3) ok by (simp add: adopt_provider_identity_def validated_def)
  show "manager_ok (with_order m oid (od\<lparr>po_provider_order_id := Some pid\<rparr>))"
    by (rule manager_ok_with_order [OF assms(1)], simp add: od, rule reachable_meta [OF od(2) _ ok], simp)
qed

lemma adopt_identities_ok:
  "manager_ok m \<Longrightarrow> distinct (map po_order_id ods) \<Longrightarrow> \<forall>od\<in>set ods. om_order m (po_order_id od) = Some od
   \<Longrightarrow> \<exists>m'. adopt_identities pos ods m = (m', Inr ()) \<and> manager_ok m' \<and> evolves (adopts pos) m m'
        \<and> (\<forall>od\<in>set ods. \<forall>od'. om_order m' (po_order_id od) = Some od' \<longrightarrow> identified pos od')
        \<and> (\<forall>k. k \<notin> po_order_id ` set ods \<longrightarrow> om_order m' k = om_order m k)"
proof (induction ods arbitrary: m)
  case Nil
  then show ?case by (simp add: evolves_refl)
next
  case (Cons od ods)
  note ok = Cons.prems(1)
  have stored: "om_order m (po_order_id od) = Some od" using Cons.prems(3) by simp
  show ?case
  proof (cases "lacks_identity od \<and> by_attempt pos od \<noteq> None")
    case False
    then have eq: "adopt_identities pos (od # ods) m = adopt_identities pos ods m" by auto
    have id: "identified pos od" using False by (simp add: identified_def)
    obtain m' where m': "adopt_identities pos ods m = (m', Inr ())" "manager_ok m'" "evolves (adopts pos) m m'"
        "\<forall>od\<in>set ods. \<forall>od'. om_order m' (po_order_id od) = Some od' \<longrightarrow> identified pos od'"
        "\<forall>k. k \<notin> po_order_id ` set ods \<longrightarrow> om_order m' k = om_order m k"
      using Cons.IH [OF ok] Cons.prems by auto
    have "om_order m' (po_order_id od) = Some od" using m'(5) Cons.prems(2) stored by auto
    then have "\<forall>x\<in>set (od # ods). \<forall>od'. om_order m' (po_order_id x) = Some od' \<longrightarrow> identified pos od'"
        "\<forall>k. k \<notin> po_order_id ` set (od # ods) \<longrightarrow> om_order m' k = om_order m k"
      using m'(4,5) id by simp_all
    then show ?thesis unfolding eq using m'(1-3) by blast
  next
    case True
    then obtain b where b: "by_attempt pos od = Some b" by auto
    let ?od = "od\<lparr>po_provider_order_id := Some (bo_provider_order_id b)\<rparr>"
    let ?m = "with_order m (po_order_id od) ?od"
    have none: "po_provider_order_id od = None" using True by (simp add: lacks_identity_def)
    note ad = adopt_provider_identity_fresh [OF ok stored none, of "bo_provider_order_id b"]
    have eq: "adopt_identities pos (od # ods) m = adopt_identities pos ods ?m"
      using True b ad(1) by simp
    have rest: "\<forall>x\<in>set ods. om_order ?m (po_order_id x) = Some x"
    proof
      fix x assume x: "x \<in> set ods"
      then have "po_order_id x \<noteq> po_order_id od" using Cons.prems(2) by (metis distinct.simps(2) image_eqI list.set_map list.simps(9))
      then show "om_order ?m (po_order_id x) = Some x" using Cons.prems(3) x by simp
    qed
    have distinct: "distinct (map po_order_id ods)" using Cons.prems(2) by simp
    obtain m' where m': "adopt_identities pos ods ?m = (m', Inr ())" "manager_ok m'" "evolves (adopts pos) ?m m'"
        "\<forall>od\<in>set ods. \<forall>od'. om_order m' (po_order_id od) = Some od' \<longrightarrow> identified pos od'"
        "\<forall>k. k \<notin> po_order_id ` set ods \<longrightarrow> om_order m' k = om_order ?m k"
      using Cons.IH [OF ad(2) distinct rest] by blast
    have "evolves (adopts pos) m ?m"
      by (rule evolves_with_order [OF stored]) (use True b in \<open>auto simp: adopts_def\<close>)
    then have "evolves (adopts pos) m m'" using evolves_trans [OF _ m'(3)] adopts_trans by blast
    moreover have "om_order m' (po_order_id od) = Some ?od" using m'(5) Cons.prems(2) by auto
    moreover have "identified pos ?od" by (simp add: identified_def lacks_identity_def)
    ultimately have "\<forall>x\<in>set (od # ods). \<forall>od'. om_order m' (po_order_id x) = Some od' \<longrightarrow> identified pos od'"
        "\<forall>k. k \<notin> po_order_id ` set (od # ods) \<longrightarrow> om_order m' k = om_order m k" "evolves (adopts pos) m m'"
      using m'(4,5) by (simp_all)
    then show ?thesis unfolding eq using m'(1,2) by blast
  qed
qed

lemma adopt_identities_idle:
  "\<forall>od\<in>set ods. identified pos od \<Longrightarrow> adopt_identities pos ods m = (m, Inr ())"
  by (induction ods) (auto simp: identified_def)

section \<open>Fills\<close>

definition same_identity :: "paper_order \<Rightarrow> paper_order \<Rightarrow> bool" where
  "same_identity od od' \<longleftrightarrow> po_provider_order_id od' = po_provider_order_id od
     \<and> po_client_order_attempt_id od' = po_client_order_attempt_id od"

lemma same_identity_refl [simp]: "same_identity od od"
  by (simp add: same_identity_def)

lemma same_identity_trans: "same_identity x y \<Longrightarrow> same_identity y z \<Longrightarrow> same_identity x z"
  by (simp add: same_identity_def)

lemma same_identity_identified: "same_identity od od' \<Longrightarrow> identified pos od' = identified pos od"
  by (simp add: same_identity_def identified_def lacks_identity_def by_attempt_def)

lemma apply_fill_error:
  assumes "order_ok od" "apply_fill od q p ts trigger = Inl e"
  shows "is_fill_error e"
proof (cases "0 < q \<and> q \<le> remaining_quantity od")
  case True
  let ?target = "if po_filled_quantity od + q = po_quantity od then FILLED else PARTIALLY_FILLED"
  show ?thesis
  proof (cases "transition od ?target ts trigger [(''quantity'', PInt q), (''price'', PDec p)]")
    case (Inl e')
    then have "e = e'" using assms(2) True by (auto simp: apply_fill_def Let_def)
    then show ?thesis using Inl by (auto simp: transition_Inl_iff)
  next
    case (Inr moved)
    have "apply_fill od q p ts trigger \<noteq> Inl e"
      using apply_fill_Inr_iff [OF assms(1), of q p ts trigger] True Inr by (metis Inl_Inr_False)
    then show ?thesis using assms(2) by simp
  qed
qed (use assms(2) in \<open>auto simp: apply_fill_def split: if_splits\<close>)

text \<open>What a discrepancy list says was inserted into an order.\<close>

definition inserted_quantity :: "string \<Rightarrow> discrepancy list \<Rightarrow> int" where
  "inserted_quantity oid ds =
     sum_list (map (\<lambda>d. if di_resolution d = FILL_INSERTED \<and> di_order_id d = Some oid
                        then case di_provider_value d of None \<Rightarrow> 0 | Some q \<Rightarrow> q else 0) ds)"

lemma inserted_quantity_simps [simp]:
  "inserted_quantity oid [] = 0"
  "inserted_quantity oid (ds @ ds') = inserted_quantity oid ds + inserted_quantity oid ds'"
  by (simp_all add: inserted_quantity_def)

lemma inserted_quantity_none: "\<forall>d\<in>set ds. di_resolution d \<noteq> FILL_INSERTED \<Longrightarrow> inserted_quantity oid ds = 0"
  by (induction ds) (simp_all add: inserted_quantity_def)

text \<open>
  How the fills pass changes one order: its identity is kept, and its state only by a fill of the
  given set that names its provider id.
\<close>

definition filled_by :: "broker_fill set \<Rightarrow> paper_order \<Rightarrow> paper_order \<Rightarrow> bool" where
  "filled_by F od od' \<longleftrightarrow> same_identity od od'
     \<and> (od' \<noteq> od \<longrightarrow> (\<exists>f\<in>F. po_provider_order_id od = Some (bf_provider_order_id f)))"

lemma filled_by_refl [simp]: "filled_by F od od"
  by (simp add: filled_by_def)

lemma filled_by_trans: "filled_by F x y \<Longrightarrow> filled_by G y z \<Longrightarrow> filled_by (F \<union> G) x z"
  unfolding filled_by_def same_identity_def by (metis UnCI)

lemma filled_by_mono: "filled_by F x y \<Longrightarrow> F \<subseteq> G \<Longrightarrow> filled_by G x y"
  unfolding filled_by_def by blast

text \<open>The facts about one turn of the loop, and about the whole of it.\<close>

definition fill_summary where
  "fill_summary F m m' ds n \<longleftrightarrow> manager_ok m' \<and> evolves (filled_by F) m m'
     \<and> (\<forall>oid od od'. om_order m oid = Some od \<longrightarrow> om_order m' oid = Some od' \<longrightarrow>
          po_filled_quantity od' = po_filled_quantity od + inserted_quantity oid ds)
     \<and> n = count_if (\<lambda>d. di_resolution d = FILL_INSERTED) ds \<and> 0 \<le> n \<and> n \<le> int (card F)
     \<and> (\<forall>d\<in>set ds. di_resolution d \<in> {FILL_INSERTED, RECORDED_ONLY, UNRESOLVED})"

lemma count_if_simps [simp]:
  "count_if P [] = 0" "count_if P (x # xs) = (if P x then 1 else 0) + count_if P xs"
  "count_if P (xs @ ys) = count_if P xs + count_if P ys" "0 \<le> count_if P xs"
  by (simp_all add: count_if_def)

lemma fill_summary_idle:
  "manager_ok m \<Longrightarrow> \<forall>d\<in>set ds. di_resolution d \<in> {RECORDED_ONLY, UNRESOLVED} \<Longrightarrow> fill_summary F m m ds 0"
proof -
  assume ok: "manager_ok m" and ds: "\<forall>d\<in>set ds. di_resolution d \<in> {RECORDED_ONLY, UNRESOLVED}"
  then have "inserted_quantity oid ds = 0" for oid by (intro inserted_quantity_none) auto
  moreover have "count_if (\<lambda>d. di_resolution d = FILL_INSERTED) ds = 0"
    using ds by (auto simp: count_if_def filter_empty_conv)
  ultimately show ?thesis using ok ds by (auto simp: fill_summary_def evolves_refl)
qed

lemma find_first: "find P xs = Some x \<Longrightarrow> x \<in> set xs \<and> P x"
  by (rule find_Some_iff_first)

lemma order_for_provider_idD:
  "manager_ok m \<Longrightarrow> order_for_provider_id m pid = Some od
   \<Longrightarrow> om_order m (po_order_id od) = Some od \<and> po_provider_order_id od = Some pid"
  unfolding order_for_provider_id_def by (auto dest!: find_first dest: all_orders_stored)

lemma absorb_fill_ok:
  assumes ok: "manager_ok m"
  shows "\<exists>m' ds n. absorb_fill digest ts f (m, ap) = ((m', insert (dedup_key digest f) ap), Inr (ds, n))
    \<and> fill_summary (if dedup_key digest f \<in> ap then {} else {f}) m m' ds n
    \<and> (dedup_key digest f \<in> ap \<longrightarrow> m' = m \<and> ds = [] \<and> n = 0)"
proof (cases "dedup_key digest f \<in> ap")
  case True
  then show ?thesis using fill_summary_idle [OF ok, of "[]"] by (simp add: absorb_fill_def insert_absorb)
next
  case new: False
  show ?thesis
  proof (cases "order_for_provider_id m (bf_provider_order_id f)")
    case None
    then show ?thesis using new fill_summary_idle [OF ok, of "[unattributed_fill f]"]
      by (simp add: absorb_fill_def unattributed_fill_def discrepancy_of_def)
  next
    case (Some od)
    note od = order_for_provider_idD [OF ok Some]
    have r: "reachable_order od" using manager_okD [OF ok] od by blast
    note valid = reachable_order_ok [OF r]
    show ?thesis
    proof (cases "apply_fill od (bf_quantity f) (bf_price f) ts ''provider_fill''")
      case (Inl e)
      then show ?thesis using new Some od apply_fill_error [OF valid Inl] fill_summary_idle [OF ok, of "[failed_fill od f]"]
        by (simp add: absorb_fill_def record_fill_def failed_fill_def discrepancy_of_def)
    next
      case (Inr od')
      note fields = apply_fill_fields [OF valid Inr]
      let ?m = "with_order m (po_order_id od) od'"
      have eq: "absorb_fill digest ts f (m, ap)
          = ((?m, insert (dedup_key digest f) ap), Inr ([inserted_fill od f], 1))"
        using new Some od Inr by (simp add: absorb_fill_def record_fill_def)
      have "manager_ok ?m"
        by (rule manager_ok_with_order [OF ok fields(3)], rule reach_step [OF r], rule step_fill [OF Inr])
      moreover have "evolves (filled_by {f}) m ?m"
        by (rule evolves_with_order [OF od [THEN conjunct1]])
          (use od fields in \<open>auto simp: filled_by_def same_identity_def\<close>)
      moreover have "po_filled_quantity od2 = po_filled_quantity od1 + inserted_quantity oid [inserted_fill od f]"
        if "om_order m oid = Some od1" "om_order ?m oid = Some od2" for oid od1 od2
        using that od fields by (auto simp: inserted_quantity_def inserted_fill_def discrepancy_of_def split: if_splits)
      ultimately show ?thesis
        unfolding eq using new by (auto simp: fill_summary_def inserted_fill_def discrepancy_of_def)
    qed
  qed
qed

lemma fill_summary_append:
  assumes 1: "fill_summary F m m' ds n" and 2: "fill_summary G m' m'' ds' n'" and disj: "F \<inter> G = {}"
    and fin: "finite F" "finite G"
  shows "fill_summary (F \<union> G) m m'' (ds @ ds') (n + n')"
proof -
  have ev: "evolves (filled_by F) m m'" "evolves (filled_by G) m' m''" using 1 2 by (simp_all add: fill_summary_def)
  have "evolves (filled_by (F \<union> G)) m m''" by (rule evolves_trans [OF ev]) (rule filled_by_trans)
  moreover have "po_filled_quantity od'' = po_filled_quantity od + inserted_quantity oid (ds @ ds')"
    if st: "om_order m oid = Some od" "om_order m'' oid = Some od''" for oid od od''
  proof -
    obtain od' where od': "om_order m' oid = Some od'" using evolvesD [OF ev(1) st(1)] by blast
    then have "po_filled_quantity od' = po_filled_quantity od + inserted_quantity oid ds"
        "po_filled_quantity od'' = po_filled_quantity od' + inserted_quantity oid ds'"
      using 1 2 st unfolding fill_summary_def by blast+
    then show ?thesis by simp
  qed
  moreover have "int (card (F \<union> G)) = int (card F) + int (card G)"
    using card_Un_disjoint [OF fin disj] by simp
  ultimately show ?thesis using 1 2 unfolding fill_summary_def by auto
qed

text \<open>The fills a pass will look at: the first of each key that has not been applied.\<close>

fun new_fills :: "(fill_content \<Rightarrow> string) \<Rightarrow> string set \<Rightarrow> broker_fill list \<Rightarrow> broker_fill list" where
  "new_fills digest ap [] = []"
| "new_fills digest ap (f # fs) =
     (if dedup_key digest f \<in> ap then new_fills digest ap fs
      else f # new_fills digest (insert (dedup_key digest f) ap) fs)"

lemma new_fills_facts:
  "distinct (map (dedup_key digest) (new_fills digest ap fs))"
  "set (new_fills digest ap fs) \<subseteq> {f \<in> set fs. dedup_key digest f \<notin> ap}"
  by (induction digest ap fs rule: new_fills.induct) auto

lemma absorb_fills_ok:
  "manager_ok m \<Longrightarrow> \<exists>m' ds n. absorb_fills digest ts fs (m, ap)
       = ((m', ap \<union> dedup_key digest ` set fs), Inr (ds, n))
     \<and> fill_summary (set (new_fills digest ap fs)) m m' ds n
     \<and> (new_fills digest ap fs = [] \<longrightarrow> m' = m \<and> ds = [] \<and> n = 0)"
proof (induction fs arbitrary: m ap)
  case Nil
  then show ?case using fill_summary_idle [of m "[]"] by simp
next
  case (Cons f fs)
  let ?k = "dedup_key digest f"
  let ?F = "if ?k \<in> ap then {} else {f}"
  let ?rest = "new_fills digest (insert ?k ap) fs"
  obtain m1 ds1 n1 where 1: "absorb_fill digest ts f (m, ap) = ((m1, insert ?k ap), Inr (ds1, n1))"
      "fill_summary ?F m m1 ds1 n1" "?k \<in> ap \<longrightarrow> m1 = m \<and> ds1 = [] \<and> n1 = 0"
    using absorb_fill_ok [OF Cons.prems, of digest ts f ap] by blast
  have ok1: "manager_ok m1" using 1(2) by (simp add: fill_summary_def)
  obtain m2 ds2 n2 where 2: "absorb_fills digest ts fs (m1, insert ?k ap)
        = ((m2, insert ?k ap \<union> dedup_key digest ` set fs), Inr (ds2, n2))"
      "fill_summary (set ?rest) m1 m2 ds2 n2" "?rest = [] \<longrightarrow> m2 = m1 \<and> ds2 = [] \<and> n2 = 0"
    using Cons.IH [OF ok1, of "insert ?k ap"] by blast
  have "f \<notin> set ?rest" using new_fills_facts(2) [of digest "insert ?k ap" fs] by blast
  then have sum: "fill_summary (?F \<union> set ?rest) m m2 (ds1 @ ds2) (n1 + n2)"
    using fill_summary_append [OF 1(2) 2(2)] by simp
  have new: "new_fills digest ap (f # fs) = (if ?k \<in> ap then ?rest else f # ?rest)"
    by (simp add: insert_absorb)
  have "set (new_fills digest ap (f # fs)) = ?F \<union> set ?rest" unfolding new by auto
  moreover have "insert ?k ap \<union> dedup_key digest ` set fs = ap \<union> dedup_key digest ` set (f # fs)" by auto
  ultimately show ?case using 1(1,3) 2(1,3) sum new by auto
qed

section \<open>States\<close>

definition evidence_for :: "broker_order list \<Rightarrow> paper_order \<Rightarrow> order_state option" where
  "evidence_for pos od = (case match_order pos od of None \<Rightarrow> None | Some b \<Rightarrow> reconciled_state b)"

text \<open>The provider's record leaves this order where it is.\<close>

definition settled :: "broker_order list \<Rightarrow> paper_order \<Rightarrow> bool" where
  "settled pos od \<longleftrightarrow> (case evidence_for pos od of None \<Rightarrow> True
     | Some t \<Rightarrow> po_state od = t \<or> t \<notin> set (permitted_transitions (po_state od)))"

text \<open>What a discrepancy that needs no attention says about the order: gone and over, or in the reported state.\<close>

definition agreed :: "broker_order list \<Rightarrow> paper_order \<Rightarrow> bool" where
  "agreed pos od \<longleftrightarrow> (match_order pos od = None \<and> is_terminal (po_state od))
     \<or> evidence_for pos od = Some (po_state od)"

definition moved_by :: "broker_order list \<Rightarrow> paper_order \<Rightarrow> paper_order \<Rightarrow> bool" where
  "moved_by pos od od' \<longleftrightarrow> same_identity od od' \<and> po_filled_quantity od' = po_filled_quantity od
     \<and> (od' \<noteq> od \<longrightarrow> evidence_for pos od = Some (po_state od'))"

lemma moved_by_refl [simp]: "moved_by pos od od"
  by (simp add: moved_by_def)

lemma same_identity_match: "same_identity od od' \<Longrightarrow> match_order pos od' = match_order pos od"
  by (auto simp: same_identity_def match_order_def by_attempt_def split: option.split)

lemma reconcile_order_ok:
  assumes ok: "manager_ok m" and st: "om_order m (po_order_id od) = Some od"
  shows "\<exists>m' d c od'. reconcile_order ts pos m od = (m', Inr (d, c)) \<and> manager_ok m'
    \<and> di_resolution d \<notin> {FILL_INSERTED, POSITION_CORRECTED} \<and> moved_by pos od od' \<and> settled pos od'
    \<and> m' = (if od' = od then m else with_order m (po_order_id od) od') \<and> po_order_id od' = po_order_id od
    \<and> (settled pos od \<longrightarrow> od' = od \<and> di_resolution d \<noteq> ORDER_STATE_APPLIED)
    \<and> (\<not> needs_attention d \<longrightarrow> agreed pos od')"
proof (cases "\<exists>b t. match_order pos od = Some b \<and> reconciled_state b = Some t
    \<and> po_state od \<noteq> t \<and> t \<in> set (permitted_transitions (po_state od))")
  case False
  then have set: "settled pos od"
    by (auto simp: settled_def evidence_for_def split: option.splits)
  have "\<exists>d c. reconcile_order ts pos m od = (m, Inr (d, c)) \<and> di_resolution d \<notin> {FILL_INSERTED, POSITION_CORRECTED}
      \<and> di_resolution d \<noteq> ORDER_STATE_APPLIED \<and> (\<not> needs_attention d \<longrightarrow> agreed pos od)"
  proof (cases "match_order pos od")
    case None
    then show ?thesis by (simp add: reconcile_order_def unlisted_def discrepancy_of_def needs_attention_def agreed_def)
  next
    case (Some b)
    show ?thesis
    proof (cases "reconciled_state b")
      case None
      then show ?thesis using Some
        by (simp add: reconcile_order_def compared_def discrepancy_of_def needs_attention_def)
    next
      case target: (Some t)
      show ?thesis
      proof (cases "po_state od = t")
        case True
        then show ?thesis using Some target
          by (simp add: reconcile_order_def compared_def discrepancy_of_def agreed_def evidence_for_def)
      next
        case differs: False
        then have "t \<notin> set (permitted_transitions (po_state od))" using False Some target by blast
        then show ?thesis using Some target differs st
          by (simp add: reconcile_order_def move_to_provider_def apply_provider_state_def transition_def
              compared_def discrepancy_of_def needs_attention_def)
      qed
    qed
  qed
  then show ?thesis using ok set by (metis moved_by_refl)
next
  case True
  then obtain b t where b: "match_order pos od = Some b" "reconciled_state b = Some t" "po_state od \<noteq> t"
      "t \<in> set (permitted_transitions (po_state od))" by blast
  have r: "reachable_order od" using manager_okD [OF ok st] by simp
  obtain w where w: "transition od t ts ''reconciliation'' [(''provider_status'', PText (status_word (bo_status b)))] = Inr w"
    using b(4) by (simp add: transition_def Let_def)
  let ?od = "w\<lparr>po_provider_status := Some (status_word (bo_status b))\<rparr>"
  have wr: "reachable_order w" by (rule reachable_move [OF r w]) simp
  have valid: "order_ok ?od" using reachable_order_ok [OF wr] by (simp add: order_ok_def)
  have or: "reachable_order ?od" by (rule reachable_meta [OF wr _ valid]) simp
  note f = transition_fields [OF w]
  have id: "same_identity od ?od" using f by (simp add: same_identity_def)
  have ev: "evidence_for pos od = Some (po_state ?od)" using b f by (simp add: evidence_for_def)
  have "evidence_for pos ?od = evidence_for pos od" using same_identity_match [OF id] by (simp add: evidence_for_def)
  then have "settled pos ?od" using ev by (simp add: settled_def)
  moreover have "agreed pos ?od" using ev \<open>evidence_for pos ?od = evidence_for pos od\<close> by (simp add: agreed_def)
  moreover have "moved_by pos od ?od" using id ev f by (simp add: moved_by_def)
  moreover have "?od \<noteq> od" using f b(3) by auto
  moreover have "\<not> settled pos od" using ev b f by (simp add: settled_def)
  moreover have "manager_ok (with_order m (po_order_id od) ?od)"
    by (rule manager_ok_with_order [OF ok _ or]) (simp add: f)
  moreover have "reconcile_order ts pos m od = (with_order m (po_order_id od) ?od,
      Inr (compared od b (who_is_ahead (po_state od) t) ORDER_STATE_APPLIED, Some (bo_provider_order_id b)))"
    using b st w valid
    by (simp add: reconcile_order_def move_to_provider_def apply_provider_state_def validated_def)
  moreover have "po_order_id ?od = po_order_id od" using f by simp
  ultimately show ?thesis by (force simp: compared_def discrepancy_of_def)
qed

definition status_summary where
  "status_summary pos m m' ds \<longleftrightarrow> manager_ok m' \<and> evolves (moved_by pos) m m'
     \<and> (\<forall>d\<in>set ds. di_resolution d \<notin> {FILL_INSERTED, POSITION_CORRECTED})"

lemma status_pass_ok:
  "manager_ok m \<Longrightarrow> distinct (map po_order_id ods) \<Longrightarrow> \<forall>od\<in>set ods. om_order m (po_order_id od) = Some od
   \<Longrightarrow> \<exists>m' ds ids. status_pass ts pos ods m = (m', Inr (ds, ids)) \<and> status_summary pos m m' ds
        \<and> (\<forall>k. k \<notin> po_order_id ` set ods \<longrightarrow> om_order m' k = om_order m k)
        \<and> (\<forall>od\<in>set ods. \<forall>od'. om_order m' (po_order_id od) = Some od' \<longrightarrow> moved_by pos od od' \<and> settled pos od')
        \<and> ((\<forall>d\<in>set ds. \<not> needs_attention d) \<longrightarrow>
             (\<forall>od\<in>set ods. \<forall>od'. om_order m' (po_order_id od) = Some od' \<longrightarrow> agreed pos od'))
        \<and> ((\<forall>od\<in>set ods. settled pos od) \<longrightarrow> m' = m \<and> (\<forall>d\<in>set ds. di_resolution d \<noteq> ORDER_STATE_APPLIED))"
proof (induction ods arbitrary: m)
  case Nil
  then show ?case by (simp add: status_summary_def evolves_refl)
next
  case (Cons od ods)
  have st: "om_order m (po_order_id od) = Some od" using Cons.prems(3) by simp
  obtain m1 d c od1 where 1: "reconcile_order ts pos m od = (m1, Inr (d, c))" "manager_ok m1"
      "di_resolution d \<notin> {FILL_INSERTED, POSITION_CORRECTED}" "moved_by pos od od1" "settled pos od1"
      "m1 = (if od1 = od then m else with_order m (po_order_id od) od1)" "po_order_id od1 = po_order_id od"
      "settled pos od \<longrightarrow> od1 = od \<and> di_resolution d \<noteq> ORDER_STATE_APPLIED" "\<not> needs_attention d \<longrightarrow> agreed pos od1"
    using reconcile_order_ok [OF Cons.prems(1) st, of ts pos] by blast
  have fresh: "po_order_id od \<notin> po_order_id ` set ods" using Cons.prems(2) by simp
  have at1: "om_order m1 k = (if k = po_order_id od then Some od1 else om_order m k)" for k
    using 1(6) st by auto
  have rest: "\<forall>x\<in>set ods. om_order m1 (po_order_id x) = Some x"
  proof
    fix x assume x: "x \<in> set ods"
    then have "po_order_id x \<noteq> po_order_id od" using fresh by (metis image_eqI)
    then show "om_order m1 (po_order_id x) = Some x" using Cons.prems(3) x at1 by simp
  qed
  have dist: "distinct (map po_order_id ods)" using Cons.prems(2) by simp
  obtain m2 ds ids where 2: "status_pass ts pos ods m1 = (m2, Inr (ds, ids))" "status_summary pos m1 m2 ds"
      "\<forall>k. k \<notin> po_order_id ` set ods \<longrightarrow> om_order m2 k = om_order m1 k"
      "\<forall>od\<in>set ods. \<forall>od'. om_order m2 (po_order_id od) = Some od' \<longrightarrow> moved_by pos od od' \<and> settled pos od'"
      "(\<forall>od\<in>set ods. settled pos od) \<longrightarrow> m2 = m1 \<and> (\<forall>d\<in>set ds. di_resolution d \<noteq> ORDER_STATE_APPLIED)"
      "(\<forall>d\<in>set ds. \<not> needs_attention d) \<longrightarrow>
        (\<forall>od\<in>set ods. \<forall>od'. om_order m2 (po_order_id od) = Some od' \<longrightarrow> agreed pos od')"
    using Cons.IH [OF 1(2) dist rest] by blast
  have at2: "om_order m2 (po_order_id od) = Some od1" using 2(3) fresh at1 by simp
  have keep: "\<forall>k. k \<notin> po_order_id ` set (od # ods) \<longrightarrow> om_order m2 k = om_order m k"
    using 2(3) at1 by simp
  have each: "\<forall>x\<in>set (od # ods). \<forall>od'. om_order m2 (po_order_id x) = Some od' \<longrightarrow> moved_by pos x od' \<and> settled pos od'"
    using 2(4) at2 1(4,5) by simp
  have clean: "(\<forall>x\<in>set (d # ds). \<not> needs_attention x) \<longrightarrow>
      (\<forall>x\<in>set (od # ods). \<forall>od'. om_order m2 (po_order_id x) = Some od' \<longrightarrow> agreed pos od')"
    using 2(6) at2 1(9) by simp
  have ev: "evolves (moved_by pos) m m2"
  proof -
    have e1: "evolves (moved_by pos) m m1"
      using 1(4,6) evolves_with_order [where R = "moved_by pos", OF st 1(4)] by (auto intro: evolves_refl)
    have e2: "evolves (moved_by pos) m1 m2" using 2(2) by (simp add: status_summary_def)
    have "\<exists>y. om_order m2 oid = Some y \<and> moved_by pos x y" if x: "om_order m oid = Some x" for oid x
    proof (cases "oid = po_order_id od")
      case True
      then show ?thesis using x st at2 1(4) by simp
    next
      case False
      then have "om_order m1 oid = Some x" using at1 x by simp
      then show ?thesis using evolvesD [OF e2] by blast
    qed
    then show ?thesis using e1 e2 by (simp add: evolves_def)
  qed
  have sum: "status_summary pos m m2 (d # ds)" using 2(2) ev 1(3) by (simp add: status_summary_def)
  have idle: "(\<forall>x\<in>set (od # ods). settled pos x) \<longrightarrow>
      m2 = m \<and> (\<forall>d\<in>set (d # ds). di_resolution d \<noteq> ORDER_STATE_APPLIED)"
    using 2(5) 1(6,8) by auto
  have "status_pass ts pos (od # ods) m
      = (m2, Inr (d # ds, case c of None \<Rightarrow> ids | Some i \<Rightarrow> i # ids))"
    using 1(1) 2(1) by simp
  then show ?case using sum keep each clean idle by blast
qed

section \<open>A whole pass\<close>

text \<open>What one pass does to an order: adopt, then fill, then move.\<close>

definition pass_relates :: "broker_order list \<Rightarrow> broker_fill set \<Rightarrow> paper_order \<Rightarrow> paper_order \<Rightarrow> bool" where
  "pass_relates pos F od od' \<longleftrightarrow>
     (\<exists>x y. adopts pos od x \<and> filled_by F x y \<and> moved_by pos y od')"

definition at_rest :: "(fill_content \<Rightarrow> string) \<Rightarrow> broker_order list \<Rightarrow> broker_fill list \<Rightarrow> reconciler \<Rightarrow> bool" where
  "at_rest digest pos fills rc \<longleftrightarrow> dedup_key digest ` set fills \<subseteq> rc_applied_fills rc
     \<and> (\<forall>oid od. om_order (rc_manager rc) oid = Some od \<longrightarrow> identified pos od \<and> settled pos od)"

lemma adopts_fields: "adopts pos od x \<Longrightarrow> po_filled_quantity x = po_filled_quantity od \<and> po_state x = po_state od"
  by (auto simp: adopts_def)

definition pass_summary where
  "pass_summary digest pos fills rc rc' run \<longleftrightarrow>
     (\<exists>F. distinct (map (dedup_key digest) F) \<and> set F \<subseteq> {f \<in> set fills. dedup_key digest f \<notin> rc_applied_fills rc}
        \<and> evolves (pass_relates pos (set F)) (rc_manager rc) (rc_manager rc')
        \<and> 0 \<le> ro_fills_inserted (rr_outcome run) \<and> ro_fills_inserted (rr_outcome run) \<le> int (length F))
     \<and> manager_ok (rc_manager rc')
     \<and> rc_applied_fills rc' = rc_applied_fills rc \<union> dedup_key digest ` set fills
     \<and> rc_runs rc' = rc_runs rc @ [run]
     \<and> (\<forall>oid od od'. om_order (rc_manager rc) oid = Some od \<longrightarrow> om_order (rc_manager rc') oid = Some od' \<longrightarrow>
          po_filled_quantity od' = po_filled_quantity od + inserted_quantity oid (rr_discrepancies run))
     \<and> ro_fills_inserted (rr_outcome run) = count_if (\<lambda>d. di_resolution d = FILL_INSERTED) (rr_discrepancies run)
     \<and> at_rest digest pos fills rc'
     \<and> (outcome_is_clean (rr_outcome run) \<longrightarrow>
          (\<forall>oid od. om_order (rc_manager rc') oid = Some od \<longrightarrow> agreed pos od)
          \<and> (\<forall>d\<in>set (rr_discrepancies run). \<not> needs_attention d))
     \<and> (at_rest digest pos fills rc \<longrightarrow> rc_manager rc' = rc_manager rc \<and> ro_resolved (rr_outcome run) = 0)"

lemma count_if_zero_iff: "count_if P xs = 0 \<longleftrightarrow> (\<forall>x\<in>set xs. \<not> P x)"
  by (auto simp: count_if_def filter_empty_conv)

lemma clean_summary: "outcome_is_clean (summarise ds n) \<Longrightarrow> \<forall>d\<in>set ds. \<not> needs_attention d"
  by (simp add: outcome_is_clean_def summarise_def count_if_zero_iff)

lemma count_if_none: "\<forall>x\<in>set xs. \<not> P x \<Longrightarrow> count_if P xs = 0"
  by (induction xs) simp_all

text \<open>The three passes, each with what it returns and how the manager evolves.\<close>

lemma passes:
  assumes ok: "manager_ok (rc_manager rc)"
  obtains m1 m2 m3 ds n ds' ids where
    "adopt_identities pos (all_orders (rc_manager rc)) (rc_manager rc) = (m1, Inr ())"
    "manager_ok m1" "evolves (adopts pos) (rc_manager rc) m1"
    "apply_fills_pass digest ts fills (m1, rc_applied_fills rc)
       = ((m2, rc_applied_fills rc \<union> dedup_key digest ` set fills), Inr (ds, n))"
    "fill_summary (set (new_fills digest (rc_applied_fills rc) (sort_key (dedup_key digest) fills))) m1 m2 ds n"
    "status_pass ts pos (all_orders m2) m2 = (m3, Inr (ds', ids))"
    "status_summary pos m2 m3 ds'"
    "\<forall>oid od. om_order m3 oid = Some od \<longrightarrow> settled pos od"
    "\<forall>oid od. om_order m3 oid = Some od \<longrightarrow> identified pos od"
    "(\<forall>d\<in>set ds'. \<not> needs_attention d) \<longrightarrow> (\<forall>oid od. om_order m3 oid = Some od \<longrightarrow> agreed pos od)"
    "at_rest digest pos fills rc \<longrightarrow> m3 = rc_manager rc \<and> ds = [] \<and> n = 0
       \<and> (\<forall>d\<in>set ds'. di_resolution d \<noteq> ORDER_STATE_APPLIED)"
proof -
  let ?m = "rc_manager rc" and ?ap = "rc_applied_fills rc"
  let ?fs = "sort_key (dedup_key digest) fills"
  obtain m1 where 1: "adopt_identities pos (all_orders ?m) ?m = (m1, Inr ())" "manager_ok m1"
      "evolves (adopts pos) ?m m1"
      "\<forall>od\<in>set (all_orders ?m). \<forall>od'. om_order m1 (po_order_id od) = Some od' \<longrightarrow> identified pos od'"
    using adopt_identities_ok [OF ok distinct_all_orders [OF ok], of pos] all_orders_stored [OF ok] by blast
  have id1: "identified pos od" if o1: "om_order m1 oid = Some od" for oid od
  proof -
    obtain x where x: "om_order ?m oid = Some x" using evolves_back [OF 1(3) o1] by blast
    then have "po_order_id x = oid" using manager_okD [OF ok] by blast
    then show ?thesis using 1(4) stored_in_all [OF x] o1 by blast
  qed
  obtain m2 ds n where 2: "absorb_fills digest ts ?fs (m1, ?ap) = ((m2, ?ap \<union> dedup_key digest ` set ?fs), Inr (ds, n))"
      "fill_summary (set (new_fills digest ?ap ?fs)) m1 m2 ds n"
      "new_fills digest ?ap ?fs = [] \<longrightarrow> m2 = m1 \<and> ds = [] \<and> n = 0"
    using absorb_fills_ok [OF 1(2), of digest ts ?fs ?ap] by blast
  have ok2: "manager_ok m2" using 2(2) by (simp add: fill_summary_def)
  obtain m3 ds' ids where 3: "status_pass ts pos (all_orders m2) m2 = (m3, Inr (ds', ids))" "status_summary pos m2 m3 ds'"
      "\<forall>od\<in>set (all_orders m2). \<forall>od'. om_order m3 (po_order_id od) = Some od' \<longrightarrow> moved_by pos od od' \<and> settled pos od'"
      "(\<forall>od\<in>set (all_orders m2). settled pos od) \<longrightarrow> m3 = m2 \<and> (\<forall>d\<in>set ds'. di_resolution d \<noteq> ORDER_STATE_APPLIED)"
      "(\<forall>d\<in>set ds'. \<not> needs_attention d) \<longrightarrow>
        (\<forall>od\<in>set (all_orders m2). \<forall>od'. om_order m3 (po_order_id od) = Some od' \<longrightarrow> agreed pos od')"
    using status_pass_ok [OF ok2 distinct_all_orders [OF ok2], of ts pos] all_orders_stored [OF ok2] by blast
  have ev3: "evolves (moved_by pos) m2 m3" using 3(2) by (simp add: status_summary_def)
  have ev2: "evolves (filled_by (set (new_fills digest ?ap ?fs))) m1 m2" using 2(2) by (simp add: fill_summary_def)
  have end3: "settled pos od \<and> identified pos od \<and> ((\<forall>d\<in>set ds'. \<not> needs_attention d) \<longrightarrow> agreed pos od)"
    if o3: "om_order m3 oid = Some od" for oid od
  proof -
    obtain y where y: "om_order m2 oid = Some y" "moved_by pos y od" using evolves_back [OF ev3 o3] by blast
    then have "po_order_id y = oid" using manager_okD [OF ok2] by blast
    then have "settled pos od" "(\<forall>d\<in>set ds'. \<not> needs_attention d) \<longrightarrow> agreed pos od"
      using 3(3,5) stored_in_all [OF y(1)] o3 by blast+
    moreover obtain x where x: "om_order m1 oid = Some x" "filled_by (set (new_fills digest ?ap ?fs)) x y"
      using evolves_back [OF ev2 y(1)] by blast
    have "identified pos x" by (rule id1 [OF x(1)])
    then have "identified pos od"
      using same_identity_identified x(2) y(2) unfolding filled_by_def moved_by_def by blast
    ultimately show ?thesis by simp
  qed
  have rest: "m3 = ?m \<and> ds = [] \<and> n = 0 \<and> (\<forall>d\<in>set ds'. di_resolution d \<noteq> ORDER_STATE_APPLIED)"
    if r: "at_rest digest pos fills rc"
  proof -
    have "\<forall>od\<in>set (all_orders ?m). identified pos od"
      using r all_orders_stored [OF ok] unfolding at_rest_def by blast
    then have m1: "m1 = ?m" using 1(1) by (simp add: adopt_identities_idle)
    have "new_fills digest ?ap ?fs = []"
    proof -
      have "set (new_fills digest ?ap ?fs) \<subseteq> {}"
        using new_fills_facts(2) [of digest ?ap ?fs] r unfolding at_rest_def by (fastforce simp del: set_empty)
      then show ?thesis by simp
    qed
    then have m2: "m2 = m1" "ds = []" "n = 0" using 2(3) by simp_all
    have "\<forall>od\<in>set (all_orders m2). settled pos od"
      using r all_orders_stored [OF ok] m1 m2 unfolding at_rest_def by blast
    then show ?thesis using 3(4) m1 m2 by blast
  qed
  show thesis
    by (rule that [OF 1(1-3) _ 2(2) 3(1,2)]) (use 2(1) end3 rest in \<open>auto simp: apply_fills_pass_def\<close>)
qed

lemma strangers_plain: "d \<in> set (map unknown_at_venue bs) \<Longrightarrow> di_resolution d = RECORDED_ONLY"
  by (auto simp: unknown_at_venue_def discrepancy_of_def)

lemma fill_summaryD:
  assumes "fill_summary F m m' ds n"
  shows "manager_ok m'" "evolves (filled_by F) m m'" "n = count_if (\<lambda>d. di_resolution d = FILL_INSERTED) ds"
    "0 \<le> n" "n \<le> int (card F)"
    "om_order m oid = Some od \<Longrightarrow> om_order m' oid = Some od' \<Longrightarrow>
       po_filled_quantity od' = po_filled_quantity od + inserted_quantity oid ds"
  using assms unfolding fill_summary_def by blast+

lemma reconcile_with_ok:
  assumes ok: "manager_ok (rc_manager rc)"
  shows "\<exists>rc' run. reconcile_with digest pos fills rc trigger ts run_id scope = (rc', Inr run)
    \<and> pass_summary digest pos fills rc rc' run"
proof -
  let ?m = "rc_manager rc" and ?ap = "rc_applied_fills rc"
  let ?F = "new_fills digest ?ap (sort_key (dedup_key digest) fills)"
  obtain m1 m2 m3 ds n ds' ids where P:
      "adopt_identities pos (all_orders ?m) ?m = (m1, Inr ())" "manager_ok m1" "evolves (adopts pos) ?m m1"
      "apply_fills_pass digest ts fills (m1, ?ap) = ((m2, ?ap \<union> dedup_key digest ` set fills), Inr (ds, n))"
      "fill_summary (set ?F) m1 m2 ds n" "status_pass ts pos (all_orders m2) m2 = (m3, Inr (ds', ids))"
      "status_summary pos m2 m3 ds'"
    and ends: "\<forall>oid od. om_order m3 oid = Some od \<longrightarrow> settled pos od"
      "\<forall>oid od. om_order m3 oid = Some od \<longrightarrow> identified pos od"
    and clean: "(\<forall>d\<in>set ds'. \<not> needs_attention d) \<longrightarrow> (\<forall>oid od. om_order m3 oid = Some od \<longrightarrow> agreed pos od)"
    and rest: "at_rest digest pos fills rc \<longrightarrow> m3 = ?m \<and> ds = [] \<and> n = 0
       \<and> (\<forall>d\<in>set ds'. di_resolution d \<noteq> ORDER_STATE_APPLIED)"
    by (rule passes [OF ok, of pos digest ts fills]) (rule that; assumption)
  let ?strangers = "map unknown_at_venue (filter (\<lambda>b. bo_provider_order_id b \<notin> set ids) pos)"
  let ?all = "ds @ ds' @ ?strangers"
  let ?run = "\<lparr>rr_run_id = run_id, rr_trigger = trigger, rr_as_of = ts, rr_scope = scope,
     rr_discrepancies = ?all, rr_outcome = summarise ?all n, rr_provider_snapshot = pos,
     rr_local_snapshot = all_orders ?m, rr_started_at = None, rr_completed_at = None\<rparr>"
  let ?rc = "\<lparr>rc_manager = m3, rc_applied_fills = ?ap \<union> dedup_key digest ` set fills, rc_runs = rc_runs rc @ [?run]\<rparr>"
  note F = fill_summaryD [OF P(5)]
  have ev3: "evolves (moved_by pos) m2 m3" using P(7) by (simp add: status_summary_def)
  have plain: "\<forall>d\<in>set (ds' @ ?strangers). di_resolution d \<notin> {FILL_INSERTED, POSITION_CORRECTED}"
  proof
    fix d assume "d \<in> set (ds' @ ?strangers)"
    then consider "d \<in> set ds'" | "d \<in> set ?strangers" unfolding set_append by blast
    then show "di_resolution d \<notin> {FILL_INSERTED, POSITION_CORRECTED}"
    proof cases
      case 1
      then show ?thesis using P(7) unfolding status_summary_def by blast
    next
      case 2
      from strangers_plain [OF 2] show ?thesis by simp
    qed
  qed
  have run: "reconcile_with digest pos fills rc trigger ts run_id scope = (?rc, Inr ?run)"
    using P(1,4,6) by (simp add: reconcile_with_def Let_def)
  have "evolves (\<lambda>od y. \<exists>x. adopts pos od x \<and> filled_by (set ?F) x y) ?m m2"
    by (rule evolves_trans [OF P(3) F(2)]) blast
  then have ev: "evolves (pass_relates pos (set ?F)) ?m m3"
    by (rule evolves_trans [OF _ ev3]) (auto simp: pass_relates_def)
  have len: "card (set ?F) \<le> length ?F" by (rule card_length)
  have keys: "distinct (map (dedup_key digest) ?F)" "set ?F \<subseteq> {f \<in> set fills. dedup_key digest f \<notin> ?ap}"
    using new_fills_facts [of digest ?ap "sort_key (dedup_key digest) fills"] by auto
  have quantities: "po_filled_quantity od' = po_filled_quantity od + inserted_quantity oid ?all"
    if st: "om_order ?m oid = Some od" "om_order m3 oid = Some od'" for oid od od'
  proof -
    obtain x where x: "om_order m1 oid = Some x" "adopts pos od x" using evolvesD [OF P(3) st(1)] by blast
    obtain y where y: "om_order m2 oid = Some y" using evolvesD [OF F(2) x(1)] by blast
    have "moved_by pos y od'" using evolvesD [OF ev3 y] st(2) by simp
    then show ?thesis
      using F(6) [OF x(1) y] adopts_fields [OF x(2)] inserted_quantity_none [of "ds' @ ?strangers" oid] plain
      by (simp add: moved_by_def)
  qed
  have count: "n = count_if (\<lambda>d. di_resolution d = FILL_INSERTED) ?all"
    using F(3) count_if_none [of "ds' @ ?strangers" "\<lambda>d. di_resolution d = FILL_INSERTED"] plain by simp
  have ends3: "(\<forall>oid od. om_order m3 oid = Some od \<longrightarrow> agreed pos od) \<and> (\<forall>d\<in>set ?all. \<not> needs_attention d)"
    if c: "outcome_is_clean (summarise ?all n)"
  proof -
    have "\<forall>d\<in>set ?all. \<not> needs_attention d" by (rule clean_summary [OF c])
    then show ?thesis using clean by simp
  qed
  have idle: "m3 = ?m \<and> ro_resolved (summarise ?all n) = 0" if r: "at_rest digest pos fills rc"
  proof -
    have "\<forall>d\<in>set ?all. di_resolution d \<notin> {ORDER_STATE_APPLIED, FILL_INSERTED, POSITION_CORRECTED}"
    proof
      fix d assume "d \<in> set ?all"
      then consider "d \<in> set ds'" | "d \<in> set ?strangers" using rest r unfolding set_append by auto
      then show "di_resolution d \<notin> {ORDER_STATE_APPLIED, FILL_INSERTED, POSITION_CORRECTED}"
      proof cases
        case 1
        then show ?thesis using rest r plain by simp
      next
        case 2
        from strangers_plain [OF 2] show ?thesis by simp
      qed
    qed
    then show ?thesis using rest r count_if_none [of ?all "\<lambda>d. di_resolution d \<in> {ORDER_STATE_APPLIED, FILL_INSERTED, POSITION_CORRECTED}"]
      by (simp add: summarise_def)
  qed
  have "pass_summary digest pos fills rc ?rc ?run"
    unfolding pass_summary_def
  proof (intro conjI)
    show "\<exists>G. distinct (map (dedup_key digest) G) \<and> set G \<subseteq> {f \<in> set fills. dedup_key digest f \<notin> ?ap}
        \<and> evolves (pass_relates pos (set G)) ?m (rc_manager ?rc)
        \<and> 0 \<le> ro_fills_inserted (rr_outcome ?run) \<and> ro_fills_inserted (rr_outcome ?run) \<le> int (length G)"
      by (rule exI [of _ ?F]) (use keys ev F(4,5) len in \<open>simp add: summarise_def\<close>)
    show "at_rest digest pos fills ?rc" using ends by (auto simp: at_rest_def)
    show "manager_ok (rc_manager ?rc)" using P(7) by (simp add: status_summary_def)
    show "ro_fills_inserted (rr_outcome ?run) = count_if (\<lambda>d. di_resolution d = FILL_INSERTED) (rr_discrepancies ?run)"
      using count by (simp add: summarise_def)
  qed (use quantities idle ends3 in simp_all)
  then show ?thesis unfolding run by blast
qed

section \<open>A lost acknowledgement, for the witnesses\<close>

text \<open>
  The venue takes the order and its answer is lost; then it executes the order in full. The
  manager holds the order as UNKNOWN, and after escalation as PENDING_RECONCILIATION.
\<close>

definition lossy_venue :: paper_venue where
  "lossy_venue = fresh_venue (no_faults\<lparr>vf_lose_ack_for := [first_attempt]\<rparr>)"

definition doubtful_manager :: order_manager where
  "doubtful_manager = fst (snd (live_submit venue_calls lossy_venue))"

definition executed_venue :: paper_venue where
  "executed_venue =
     (case venue_fill (fst (live_submit venue_calls lossy_venue)) ''paper-000001'' 5 (Dec 10 0) 125 (Some ''x1'') 0 of
        Inr (v, _) \<Rightarrow> v | Inl _ \<Rightarrow> lossy_venue)"

definition escalated :: "reconciler \<Rightarrow> reconciler" where
  "escalated rc = rc\<lparr>rc_manager := fst (escalate_to_reconciliation (rc_manager rc) ''ord_1'' 126)\<rparr>"

definition story_run :: "reconciler \<Rightarrow> reconciler \<times> (order_error + reconciliation_run)" where
  "story_run rc = reconcile key_of venue_calls executed_venue rc EVENT_DRIVEN 0 127 ''r'' ''orders''"

lemma doubtful_manager_ok: "manager_ok doubtful_manager"
  unfolding doubtful_manager_def live_submit_def by (rule submit_ok [OF manager_ok_new live_order_reachable])

lemma escalated_ok: "manager_ok (rc_manager rc) \<Longrightarrow> manager_ok (rc_manager (escalated rc))"
  by (simp add: escalated_def escalate_ok)

definition ready_reconciler :: reconciler where
  "ready_reconciler = escalated (new_reconciler doubtful_manager)"

lemma ready_ok: "manager_ok (rc_manager ready_reconciler)"
  unfolding ready_reconciler_def by (rule escalated_ok) (simp add: new_reconciler_def doubtful_manager_ok)

lemma executed_answers:
  "\<exists>b f. ad_list_orders venue_calls executed_venue 0 = Inr [b] \<and> ad_list_trades venue_calls executed_venue 0 = Inr [f]
     \<and> dedup_key key_of f = ''pfid:x1''"
proof -
  have "case ad_list_orders venue_calls executed_venue 0 of Inr [b] \<Rightarrow> True | _ \<Rightarrow> False"
    "case ad_list_trades venue_calls executed_venue 0 of Inr [f] \<Rightarrow> dedup_key key_of f = ''pfid:x1'' | _ \<Rightarrow> False"
    by code_simp+
  then show ?thesis by (auto split: sum.splits list.splits)
qed

text \<open>How the recovery goes when the order is escalated first.\<close>

lemma run_cases: "(case x of (rc, Inr run) \<Rightarrow> P rc run | _ \<Rightarrow> False) \<Longrightarrow> \<exists>rc run. x = (rc, Inr run) \<and> P rc run"
  by (auto split: prod.splits sum.splits)

lemma some_cases: "(case x of Some od \<Rightarrow> P od | None \<Rightarrow> False) \<Longrightarrow> \<exists>od. x = Some od \<and> P od"
  by (auto split: option.splits)

lemma story_facts:
  "case story_run ready_reconciler of (rc, Inr run) \<Rightarrow>
      startup_gate (Some run) \<and> map di_resolution (rr_discrepancies run) = [FILL_INSERTED, NOTHING_TO_DO]
      \<and> (case om_order (rc_manager rc) ''ord_1'' of Some od \<Rightarrow> po_state od = FILLED \<and> po_filled_quantity od = 5 | None \<Rightarrow> False)
    | _ \<Rightarrow> False"
  "case om_order (rc_manager ready_reconciler) ''ord_1'' of
      Some od \<Rightarrow> po_state od = PENDING_RECONCILIATION \<and> po_filled_quantity od = 0 | None \<Rightarrow> False"
  by code_simp+

lemma story:
  obtains rc run od od' where "story_run ready_reconciler = (rc, Inr run)" "startup_gate (Some run)"
    "om_order (rc_manager ready_reconciler) ''ord_1'' = Some od" "po_state od = PENDING_RECONCILIATION"
    "om_order (rc_manager rc) ''ord_1'' = Some od'" "po_state od' = FILLED" "po_filled_quantity od' = 5"
  using story_facts by (cases "story_run ready_reconciler") (auto split: sum.splits option.splits)

section \<open>Properties of reconciliation\<close>

text \<open>The facts of a pass over an adapter's answers.\<close>

lemma reconcile_summary:
  assumes "manager_ok (rc_manager rc)" "reconcile digest A v rc trigger since ts run_id scope = (rc', Inr run)"
  obtains pos fills where "ad_list_orders A v since = Inr pos" "ad_list_trades A v since = Inr fills"
    "reconcile_with digest pos fills rc trigger ts run_id scope = (rc', Inr run)"
    "pass_summary digest pos fills rc rc' run"
proof -
  obtain pos fills where q: "ad_list_orders A v since = Inr pos" "ad_list_trades A v since = Inr fills"
    using assms(2) by (auto simp: reconcile_def split: sum.splits)
  then have r: "reconcile_with digest pos fills rc trigger ts run_id scope = (rc', Inr run)"
    using assms(2) by (simp add: reconcile_def)
  show thesis using reconcile_with_ok [OF assms(1), of digest pos fills trigger ts run_id scope] r that [OF q r] by simp
qed

lemma pass_summaryD:
  assumes "pass_summary digest pos fills rc rc' run"
  shows "manager_ok (rc_manager rc')" "at_rest digest pos fills rc'" "rc_runs rc' = rc_runs rc @ [run]"
    "rc_applied_fills rc' = rc_applied_fills rc \<union> dedup_key digest ` set fills"
    "at_rest digest pos fills rc \<Longrightarrow> rc_manager rc' = rc_manager rc \<and> ro_resolved (rr_outcome run) = 0"
    "\<exists>F. distinct (map (dedup_key digest) F) \<and> set F \<subseteq> {f \<in> set fills. dedup_key digest f \<notin> rc_applied_fills rc}
        \<and> evolves (pass_relates pos (set F)) (rc_manager rc) (rc_manager rc')
        \<and> 0 \<le> ro_fills_inserted (rr_outcome run) \<and> ro_fills_inserted (rr_outcome run) \<le> int (length F)"
  using assms unfolding pass_summary_def by blast+

lemma run_content_same_inputs:
  assumes "reconcile_with digest pos fills rc trigger ts i scope = (rc', Inr run)"
    and "reconcile_with digest pos fills rc2 trigger ts j scope = (rc2', Inr run2)"
    and "rc_manager rc2 = rc_manager rc" "rc_applied_fills rc2 = rc_applied_fills rc"
  shows "run_content run2 = run_content run"
  using assms by (auto simp: reconcile_with_def Let_def run_content_def split: prod.splits sum.splits)

text \<open>
  Claim C9: reconciliation is idempotent. Once a run has completed over some answers of the venue,
  any later run over the same answers changes no order, absorbs no fill and resolves nothing; and
  two such later runs agree in everything the digest covers, whatever their run ids.
\<close>

theorem reconciliation_is_idempotent:
  assumes "manager_ok (rc_manager rc)"
    and "reconcile digest A v rc trigger since ts run_id scope = (rc1, Inr run1)"
  shows "\<exists>rc2 run2 rc3 run3.
      reconcile digest A v rc1 trigger2 since ts2 id2 scope2 = (rc2, Inr run2)
    \<and> reconcile digest A v rc2 trigger2 since ts2 id3 scope2 = (rc3, Inr run3)
    \<and> rc_manager rc2 = rc_manager rc1 \<and> rc_applied_fills rc2 = rc_applied_fills rc1
    \<and> ro_resolved (rr_outcome run2) = 0 \<and> ro_fills_inserted (rr_outcome run2) = 0
    \<and> run_content run3 = run_content run2"
proof -
  obtain pos fills where q: "ad_list_orders A v since = Inr pos" "ad_list_trades A v since = Inr fills"
    and p1: "pass_summary digest pos fills rc rc1 run1"
    using reconcile_summary [OF assms] by metis
  note 1 = pass_summaryD [OF p1]
  obtain rc2 run2 where r2: "reconcile_with digest pos fills rc1 trigger2 ts2 id2 scope2 = (rc2, Inr run2)"
    and p2: "pass_summary digest pos fills rc1 rc2 run2"
    using reconcile_with_ok [OF 1(1), of digest pos fills trigger2 ts2 id2 scope2] by blast
  note 2 = pass_summaryD [OF p2]
  obtain rc3 run3 where r3: "reconcile_with digest pos fills rc2 trigger2 ts2 id3 scope2 = (rc3, Inr run3)"
    using reconcile_with_ok [OF 2(1), of digest pos fills trigger2 ts2 id3 scope2] by blast
  have same: "rc_manager rc2 = rc_manager rc1" "ro_resolved (rr_outcome run2) = 0" using 2(5) [OF 1(2)] by simp_all
  have keys: "rc_applied_fills rc2 = rc_applied_fills rc1" using 1(4) 2(4) by blast
  obtain F where F: "set F \<subseteq> {f \<in> set fills. dedup_key digest f \<notin> rc_applied_fills rc1}"
      "0 \<le> ro_fills_inserted (rr_outcome run2)" "ro_fills_inserted (rr_outcome run2) \<le> int (length F)"
    using 2(6) by blast
  have "set F \<subseteq> {}" using F(1) 1(4) by blast
  then have none: "ro_fills_inserted (rr_outcome run2) = 0" using F by simp
  have "run_content run3 = run_content run2" by (rule run_content_same_inputs [OF r2 r3 same(1) keys])
  then show ?thesis using q r2 r3 same keys none by (simp add: reconcile_def)
qed

theorem reconciliation_is_idempotent_witness:
  "\<exists>rc1 run1 rc2 run2. story_run ready_reconciler = (rc1, Inr run1) \<and> story_run rc1 = (rc2, Inr run2)
     \<and> rc_manager rc2 = rc_manager rc1 \<and> ro_resolved (rr_outcome run2) = 0"
proof -
  obtain rc run where r: "story_run ready_reconciler = (rc, Inr run)" using story by metis
  then show ?thesis
    using reconciliation_is_idempotent [OF ready_ok, of key_of venue_calls executed_venue EVENT_DRIVEN 0 127 "''r''" "''orders''" rc run
        EVENT_DRIVEN 127 "''r''" "''orders''"]
    unfolding story_run_def by blast
qed

text \<open>
  Claim C28: a reconciliation pass completes whenever the venue answers its two queries, over any
  manager built by the manager's own operations: no order makes it raise. It keeps the manager
  well formed, adds no order and drops none, and records exactly one run.
\<close>

theorem reconciliation_completes:
  assumes "manager_ok (rc_manager rc)"
    and "ad_list_orders A v since = Inr pos" and "ad_list_trades A v since = Inr fills"
  shows "\<exists>rc' run. reconcile digest A v rc trigger since ts run_id scope = (rc', Inr run)
    \<and> manager_ok (rc_manager rc') \<and> rc_runs rc' = rc_runs rc @ [run]
    \<and> (\<forall>oid. (om_order (rc_manager rc') oid = None) = (om_order (rc_manager rc) oid = None))"
proof -
  obtain rc' run where r: "reconcile_with digest pos fills rc trigger ts run_id scope = (rc', Inr run)"
    and p: "pass_summary digest pos fills rc rc' run"
    using reconcile_with_ok [OF assms(1), of digest pos fills trigger ts run_id scope] by blast
  obtain F where ev: "evolves (pass_relates pos F) (rc_manager rc) (rc_manager rc')"
    using pass_summaryD(6) [OF p] by blast
  have "(om_order (rc_manager rc') oid = None) = (om_order (rc_manager rc) oid = None)" for oid
    using evolvesD [OF ev, of oid] evolves_back [OF ev, of oid] by (metis not_Some_eq)
  then show ?thesis using r pass_summaryD [OF p] assms(2,3) by (simp add: reconcile_def)
qed

theorem reconciliation_completes_witness:
  "\<exists>rc run. story_run ready_reconciler = (rc, Inr run) \<and> manager_ok (rc_manager rc)"
proof -
  obtain b f where "ad_list_orders venue_calls executed_venue 0 = Inr [b]" "ad_list_trades venue_calls executed_venue 0 = Inr [f]"
    using executed_answers by blast
  from reconciliation_completes [OF ready_ok this, of key_of EVENT_DRIVEN 127 "''r''" "''orders''"]
  show ?thesis unfolding story_run_def by blast
qed

lemma evidence_listed:
  assumes "evidence_for pos od = Some t" "identified pos od"
  shows "\<exists>pid b. po_provider_order_id od = Some pid \<and> b \<in> set pos \<and> bo_provider_order_id b = pid
    \<and> reconciled_state b = Some t"
proof -
  obtain b where b: "match_order pos od = Some b" "reconciled_state b = Some t"
    using assms(1) by (auto simp: evidence_for_def split: option.splits)
  have listed: "dict_get (by_provider_id pos) pid = Some b \<Longrightarrow> b \<in> set pos \<and> bo_provider_order_id b = pid" for pid
  proof -
    have "dict_get (foldl (\<lambda>d b. dict_set (bo_provider_order_id b) b d) d pos) pid = Some b
        \<Longrightarrow> (b \<in> set pos \<and> bo_provider_order_id b = pid) \<or> dict_get d pid = Some b" for d
      by (induction pos arbitrary: d) (fastforce split: if_splits)+
    from this [of "[]"] show "dict_get (by_provider_id pos) pid = Some b \<Longrightarrow> b \<in> set pos \<and> bo_provider_order_id b = pid"
      by (simp add: by_provider_id_def)
  qed
  show ?thesis
  proof (cases "po_provider_order_id od")
    case None
    then show ?thesis using b(1) assms(2) by (simp add: match_order_def identified_def lacks_identity_def split: if_splits)
  next
    case (Some pid)
    then show ?thesis using b listed by (auto simp: match_order_def)
  qed
qed

text \<open>
  Claim C22: reconciliation never moves an order without evidence. When a run leaves an order in
  another state, the order carries a provider id, and the venue either listed that id with a
  status and quantities that establish the new state, or reported a fill for it that had not been
  absorbed before. Silence and a status of UNKNOWN move nothing.
\<close>

theorem orders_move_only_on_evidence:
  assumes "manager_ok (rc_manager rc)"
    and "reconcile digest A v rc trigger since ts run_id scope = (rc', Inr run)"
    and "om_order (rc_manager rc) oid = Some od" and "om_order (rc_manager rc') oid = Some od'"
    and "po_state od' \<noteq> po_state od"
  shows "\<exists>pos fills pid. ad_list_orders A v since = Inr pos \<and> ad_list_trades A v since = Inr fills
    \<and> po_provider_order_id od' = Some pid
    \<and> ((\<exists>b\<in>set pos. bo_provider_order_id b = pid \<and> reconciled_state b = Some (po_state od'))
       \<or> (\<exists>f\<in>set fills. bf_provider_order_id f = pid \<and> dedup_key digest f \<notin> rc_applied_fills rc))"
proof -
  obtain pos fills where q: "ad_list_orders A v since = Inr pos" "ad_list_trades A v since = Inr fills"
    and p: "pass_summary digest pos fills rc rc' run"
    using reconcile_summary [OF assms(1,2)] by metis
  obtain F where F: "set F \<subseteq> {f \<in> set fills. dedup_key digest f \<notin> rc_applied_fills rc}"
      "evolves (pass_relates pos (set F)) (rc_manager rc) (rc_manager rc')"
    using pass_summaryD(6) [OF p] by blast
  obtain x y where xy: "adopts pos od x" "filled_by (set F) x y" "moved_by pos y od'"
    using evolvesD [OF F(2) assms(3)] assms(4) by (auto simp: pass_relates_def)
  have id: "identified pos od'" using pass_summaryD(2) [OF p] assms(4) by (auto simp: at_rest_def)
  have same: "same_identity y od'" "same_identity x y" using xy by (simp_all add: moved_by_def filled_by_def)
  have "\<exists>pid. po_provider_order_id od' = Some pid
    \<and> ((\<exists>b\<in>set pos. bo_provider_order_id b = pid \<and> reconciled_state b = Some (po_state od'))
       \<or> (\<exists>f\<in>set fills. bf_provider_order_id f = pid \<and> dedup_key digest f \<notin> rc_applied_fills rc))"
  proof (cases "od' = y")
    case False
    then have "evidence_for pos od' = Some (po_state od')"
      using xy(3) same_identity_match [OF same(1), of pos] by (simp add: moved_by_def evidence_for_def)
    then show ?thesis using evidence_listed [OF _ id] by blast
  next
    case True
    then have "y \<noteq> x" using adopts_fields [OF xy(1)] assms(5) by auto
    then obtain f where "f \<in> set F" "po_provider_order_id x = Some (bf_provider_order_id f)"
      using xy(2) by (auto simp: filled_by_def)
    then show ?thesis using F(1) same by (auto simp: same_identity_def)
  qed
  then show ?thesis using q by blast
qed

theorem orders_move_only_on_evidence_witness:
  "\<exists>rc run od od' pid. story_run ready_reconciler = (rc, Inr run)
     \<and> om_order (rc_manager ready_reconciler) ''ord_1'' = Some od \<and> po_state od = PENDING_RECONCILIATION
     \<and> om_order (rc_manager rc) ''ord_1'' = Some od' \<and> po_state od' = FILLED \<and> po_provider_order_id od' = Some pid"
proof -
  obtain rc run od od' where s: "story_run ready_reconciler = (rc, Inr run)"
      "om_order (rc_manager ready_reconciler) ''ord_1'' = Some od" "po_state od = PENDING_RECONCILIATION"
      "om_order (rc_manager rc) ''ord_1'' = Some od'" "po_state od' = FILLED"
    using story by metis
  have "po_state od' \<noteq> po_state od" using s by simp
  from orders_move_only_on_evidence [OF ready_ok s(1) [unfolded story_run_def] s(2,4) this] s
  show ?thesis by blast
qed

text \<open>
  Every quantity a run changes is in its report. The filled quantity of each order grows
  by exactly the sum of the quantities the run reports as inserted into it, and the count of
  inserted fills is the number of those reports.
\<close>

theorem reported_fills_account_for_quantities:
  assumes "manager_ok (rc_manager rc)"
    and "reconcile digest A v rc trigger since ts run_id scope = (rc', Inr run)"
    and "om_order (rc_manager rc) oid = Some od" and "om_order (rc_manager rc') oid = Some od'"
  shows "po_filled_quantity od' = po_filled_quantity od + inserted_quantity oid (rr_discrepancies run)
    \<and> ro_fills_inserted (rr_outcome run) = count_if (\<lambda>d. di_resolution d = FILL_INSERTED) (rr_discrepancies run)"
  using reconcile_summary [OF assms(1,2)] assms(3,4) unfolding pass_summary_def by metis

theorem reported_fills_account_for_quantities_witness:
  "\<exists>rc run od'. story_run ready_reconciler = (rc, Inr run) \<and> om_order (rc_manager rc) ''ord_1'' = Some od'
     \<and> po_filled_quantity od' = 5 \<and> 5 = po_filled_quantity od' - 0
     \<and> ro_fills_inserted (rr_outcome run) = count_if (\<lambda>d. di_resolution d = FILL_INSERTED) (rr_discrepancies run)"
proof -
  obtain rc run od od' where s: "story_run ready_reconciler = (rc, Inr run)"
      "om_order (rc_manager ready_reconciler) ''ord_1'' = Some od"
      "om_order (rc_manager rc) ''ord_1'' = Some od'" "po_filled_quantity od' = 5"
    using story by metis
  from reported_fills_account_for_quantities [OF ready_ok s(1) [unfolded story_run_def] s(2,3)] s
  show ?thesis by auto
qed

text \<open>
  Claim C27: a clean run means agreement on states. When the startup gate opens on a run, every
  order the manager then holds is either over and no longer listed by the venue, or in exactly the
  state the venue's record of it establishes, and no discrepancy awaits attention.
\<close>

theorem startup_gate_means_agreement:
  assumes "manager_ok (rc_manager rc)"
    and "reconcile digest A v rc trigger since ts run_id scope = (rc', Inr run)"
    and "startup_gate (Some run)" and "om_order (rc_manager rc') oid = Some od"
  shows "(\<exists>pos. ad_list_orders A v since = Inr pos
      \<and> ((match_order pos od = None \<and> is_terminal (po_state od))
         \<or> (\<exists>b. match_order pos od = Some b \<and> reconciled_state b = Some (po_state od))))
    \<and> \<not> is_unresolved od \<and> attention_required run = []"
proof -
  obtain pos fills where q: "ad_list_orders A v since = Inr pos"
    and p: "pass_summary digest pos fills rc rc' run"
    using reconcile_summary [OF assms(1,2)] by metis
  have c: "agreed pos od" "\<forall>d\<in>set (rr_discrepancies run). \<not> needs_attention d"
    using p assms(3,4) unfolding pass_summary_def startup_gate_def by auto
  have "canonical_state_for s \<noteq> Some UNKNOWN" "canonical_state_for s \<noteq> Some PENDING_RECONCILIATION" for s
    by (cases s; simp)+
  then have "reconciled_state b \<noteq> Some UNKNOWN" "reconciled_state b \<noteq> Some PENDING_RECONCILIATION" for b
    by (auto simp: reconciled_state_def split: option.splits if_splits)
  then have "\<not> is_unresolved od"
    using c(1) by (auto simp: agreed_def evidence_for_def is_unresolved_def is_terminal_def split: option.splits)
  then show ?thesis
    using q c by (auto simp: agreed_def evidence_for_def attention_required_def filter_empty_conv split: option.splits)
qed

theorem startup_gate_means_agreement_witness:
  "\<exists>rc run od. story_run ready_reconciler = (rc, Inr run) \<and> startup_gate (Some run)
     \<and> om_order (rc_manager rc) ''ord_1'' = Some od \<and> \<not> is_unresolved od"
proof -
  obtain rc run od where s: "story_run ready_reconciler = (rc, Inr run)" "startup_gate (Some run)"
      "om_order (rc_manager rc) ''ord_1'' = Some od"
    using story by metis
  from startup_gate_means_agreement [OF ready_ok s(1) [unfolded story_run_def] s(2,3)] s
  show ?thesis by blast
qed

section \<open>Fills over many runs\<close>

text \<open>A run over any answers: two queries that return some orders and some fills.\<close>

inductive recon_step ::
  "(fill_content \<Rightarrow> string) \<Rightarrow> reconciler \<Rightarrow> reconciler \<Rightarrow> bool" for digest where
  recon_run: "reconcile_with digest pos fills rc trigger ts run_id scope = (rc', Inr run) \<Longrightarrow> recon_step digest rc rc'"

definition inserted_total :: "reconciler \<Rightarrow> int" where
  "inserted_total rc = sum_list (map (\<lambda>r. ro_fills_inserted (rr_outcome r)) (rc_runs rc))"

lemma recon_step_bound:
  assumes ok: "manager_ok (rc_manager rc)" and fin: "finite (rc_applied_fills rc)"
    and le: "inserted_total rc \<le> int (card (rc_applied_fills rc))" and step: "recon_step digest rc rc'"
  shows "manager_ok (rc_manager rc') \<and> finite (rc_applied_fills rc')
    \<and> inserted_total rc' \<le> int (card (rc_applied_fills rc')) \<and> rc_applied_fills rc \<subseteq> rc_applied_fills rc'"
  using step
proof cases
  case (recon_run pos fills trigger ts run_id scope run)
  have p: "pass_summary digest pos fills rc rc' run"
    using reconcile_with_ok [OF ok, of digest pos fills trigger ts run_id scope] recon_run by simp
  note D = pass_summaryD [OF p]
  obtain F where F: "distinct (map (dedup_key digest) F)"
      "set F \<subseteq> {f \<in> set fills. dedup_key digest f \<notin> rc_applied_fills rc}"
      "ro_fills_inserted (rr_outcome run) \<le> int (length F)"
    using D(6) by blast
  have fin': "finite (rc_applied_fills rc')" using D(4) fin by simp
  have "rc_applied_fills rc \<union> dedup_key digest ` set F \<subseteq> rc_applied_fills rc'" using F(2) D(4) by blast
  then have "card (rc_applied_fills rc \<union> dedup_key digest ` set F) \<le> card (rc_applied_fills rc')"
    by (rule card_mono [OF fin'])
  moreover have "card (rc_applied_fills rc \<union> dedup_key digest ` set F) = card (rc_applied_fills rc) + length F"
  proof -
    have "card (dedup_key digest ` set F) = length F" using distinct_card [OF F(1)] by simp
    moreover have "rc_applied_fills rc \<inter> dedup_key digest ` set F = {}" using F(2) by blast
    ultimately show ?thesis using fin by (simp add: card_Un_disjoint)
  qed
  ultimately have "inserted_total rc' \<le> int (card (rc_applied_fills rc'))"
    using D(3) F(3) le by (simp add: inserted_total_def)
  then show ?thesis using D(1,4) fin' by blast
qed

text \<open>
  Claim C26: a fill is absorbed at most once, ever. However many runs are made and whatever the
  venue answers in them, the fills they insert number at most the distinct dedup keys seen, and a
  key once seen is never forgotten.
\<close>

theorem fills_absorbed_at_most_once:
  assumes "manager_ok m" and "(recon_step digest)\<^sup>*\<^sup>* (new_reconciler m) rc"
  shows "inserted_total rc \<le> int (card (rc_applied_fills rc)) \<and> finite (rc_applied_fills rc)
    \<and> manager_ok (rc_manager rc)"
  using assms(2)
proof (induction rule: rtranclp_induct)
  case base
  then show ?case using assms(1) by (simp add: new_reconciler_def inserted_total_def)
next
  case (step y z)
  then show ?case using recon_step_bound by blast
qed

theorem fills_absorbed_at_most_once_witness:
  "\<exists>rc. (recon_step key_of)\<^sup>*\<^sup>* (new_reconciler doubtful_manager) rc \<and> rc_runs rc \<noteq> []
     \<and> inserted_total rc \<le> int (card (rc_applied_fills rc))"
proof -
  have ok: "manager_ok (rc_manager (new_reconciler doubtful_manager))"
    by (simp add: new_reconciler_def doubtful_manager_ok)
  obtain rc run where r: "reconcile_with key_of [] [] (new_reconciler doubtful_manager) STARTUP 127 ''r'' ''orders'' = (rc, Inr run)"
    and p: "pass_summary key_of [] [] (new_reconciler doubtful_manager) rc run"
    using reconcile_with_ok [OF ok] by blast
  have "(recon_step key_of)\<^sup>*\<^sup>* (new_reconciler doubtful_manager) rc"
    by (rule r_into_rtranclp, rule recon_run [OF r])
  then show ?thesis
    using fills_absorbed_at_most_once [OF doubtful_manager_ok] pass_summaryD(3) [OF p] by fastforce
qed

section \<open>A fill that arrives too early\<close>

text \<open>
  A fill reported while its order is still UNKNOWN is lost. The pass cannot apply it, as
  UNKNOWN has no transition to a fill, but marks its key as applied all the same; after the
  escalation the next run skips the fill, moves the order to FILLED on the venue's status alone,
  and reports itself clean: the startup gate opens on an order that is FILLED with a filled
  quantity of zero. Escalating first gives the right answer, a filled quantity of five.
\<close>

theorem early_fill_is_lost:
  "\<exists>rc1 run1 rc2 run2 od. story_run (new_reconciler doubtful_manager) = (rc1, Inr run1)
     \<and> story_run (escalated rc1) = (rc2, Inr run2)
     \<and> startup_gate (Some run2) \<and> rc_applied_fills rc2 = {''pfid:x1''}
     \<and> om_order (rc_manager rc2) ''ord_1'' = Some od
     \<and> po_state od = FILLED \<and> po_filled_quantity od = 0 \<and> po_quantity od = 5"
proof -
  have "case story_run (new_reconciler doubtful_manager) of (rc1, Inr run1) \<Rightarrow>
        (case story_run (escalated rc1) of (rc2, Inr run2) \<Rightarrow>
          startup_gate (Some run2) \<and> (case om_order (rc_manager rc2) ''ord_1'' of
             Some od \<Rightarrow> po_state od = FILLED \<and> po_filled_quantity od = 0 \<and> po_quantity od = 5 | None \<Rightarrow> False)
        | _ \<Rightarrow> False) | _ \<Rightarrow> False"
    by code_simp
  from run_cases [OF this] obtain rc1 run1 where 1: "story_run (new_reconciler doubtful_manager) = (rc1, Inr run1)"
    and "case story_run (escalated rc1) of (rc2, Inr run2) \<Rightarrow>
          startup_gate (Some run2) \<and> (case om_order (rc_manager rc2) ''ord_1'' of
             Some od \<Rightarrow> po_state od = FILLED \<and> po_filled_quantity od = 0 \<and> po_quantity od = 5 | None \<Rightarrow> False)
        | _ \<Rightarrow> False"
    by (elim exE conjE)
  from run_cases [OF this(2)] obtain rc2 run2 where 2: "story_run (escalated rc1) = (rc2, Inr run2)" "startup_gate (Some run2)"
    and "case om_order (rc_manager rc2) ''ord_1'' of
             Some od \<Rightarrow> po_state od = FILLED \<and> po_filled_quantity od = 0 \<and> po_quantity od = 5 | None \<Rightarrow> False"
    by (elim exE conjE)
  from some_cases [OF this(3)] obtain od where s: "story_run (new_reconciler doubtful_manager) = (rc1, Inr run1)"
      "story_run (escalated rc1) = (rc2, Inr run2)" "startup_gate (Some run2)"
      "om_order (rc_manager rc2) ''ord_1'' = Some od"
      "po_state od = FILLED" "po_filled_quantity od = 0" "po_quantity od = 5"
    using 1 2 by (elim exE conjE)
  obtain b f where q: "ad_list_orders venue_calls executed_venue 0 = Inr [b]"
      "ad_list_trades venue_calls executed_venue 0 = Inr [f]" "dedup_key key_of f = ''pfid:x1''"
    using executed_answers by blast
  have ok0: "manager_ok (rc_manager (new_reconciler doubtful_manager))"
    by (simp add: new_reconciler_def doubtful_manager_ok)
  have pass: "pass_summary key_of [b] [f] rc rc' run" if "manager_ok (rc_manager rc)" "story_run rc = (rc', Inr run)" for rc rc' run
    using reconcile_with_ok [OF that(1), of key_of "[b]" "[f]" EVENT_DRIVEN 127 "''r''" "''orders''"] that(2) q
    by (simp add: story_run_def reconcile_def)
  have keys: "rc_applied_fills rc' = rc_applied_fills rc \<union> {''pfid:x1''}" and ok': "manager_ok (rc_manager rc')"
    if ok: "manager_ok (rc_manager rc)" and run: "story_run rc = (rc', Inr run)" for rc rc' run
    using pass_summaryD(1,4) [OF pass [OF ok run]] q(3) by simp_all
  have "rc_applied_fills rc1 = {''pfid:x1''}" using keys [OF ok0 s(1)] by (simp add: new_reconciler_def)
  moreover have "rc_applied_fills (escalated rc1) = rc_applied_fills rc1" by (simp add: escalated_def)
  ultimately have "rc_applied_fills rc2 = {''pfid:x1''}"
    using keys [OF escalated_ok [OF ok' [OF ok0 s(1)]] s(2)] by simp
  then show ?thesis using s by blast
qed

end
