(* ===== verification/Costs.thy ===== *)
theory Costs
  imports OIP_Decimal OIP_Prelude
begin

text \<open>
  \<^verbatim>\<open>oipulse/backtest/costs.py\<close>: the cost model. Charging one fill gives six components, each
  rounded half-up to paise; rounding a number whose coefficient would need more than 28 digits
  raises, so every operation that rounds returns a result. The free text \<open>basis\<close> is left out.
\<close>

section \<open>Rounding to paise\<close>

datatype pricing_error = NegativeTurnover | InvalidOperation

definition round_paise :: "decimal \<Rightarrow> pricing_error + decimal" where
  "round_paise d = (case quantize_half_up (- 2) d of None \<Rightarrow> Inl InvalidOperation | Some r \<Rightarrow> Inr r)"

section \<open>Breakdown and model\<close>

record cost_breakdown =
  cb_brokerage :: decimal
  cb_securities_transaction_tax :: decimal
  cb_exchange_charges :: decimal
  cb_gst :: decimal
  cb_stamp_duty :: decimal
  cb_sebi_charges :: decimal

definition no_costs :: cost_breakdown where
  "no_costs = \<lparr>cb_brokerage = 0, cb_securities_transaction_tax = 0, cb_exchange_charges = 0,
     cb_gst = 0, cb_stamp_duty = 0, cb_sebi_charges = 0\<rparr>"

definition costs_total :: "cost_breakdown \<Rightarrow> pricing_error + decimal" where
  "costs_total b = round_paise
     (cb_brokerage b + cb_securities_transaction_tax b + cb_exchange_charges b
      + cb_gst b + cb_stamp_duty b + cb_sebi_charges b)"

definition costs_add :: "cost_breakdown \<Rightarrow> cost_breakdown \<Rightarrow> cost_breakdown" where
  "costs_add a b = \<lparr>
     cb_brokerage = cb_brokerage a + cb_brokerage b,
     cb_securities_transaction_tax = cb_securities_transaction_tax a + cb_securities_transaction_tax b,
     cb_exchange_charges = cb_exchange_charges a + cb_exchange_charges b,
     cb_gst = cb_gst a + cb_gst b,
     cb_stamp_duty = cb_stamp_duty a + cb_stamp_duty b,
     cb_sebi_charges = cb_sebi_charges a + cb_sebi_charges b\<rparr>"

record cost_model =
  cm_name :: string
  cm_version :: int
  cm_brokerage_flat :: decimal
  cm_brokerage_rate :: decimal
  cm_stt_rate_sell :: decimal
  cm_exchange_rate :: decimal
  cm_gst_rate :: decimal
  cm_stamp_duty_rate_buy :: decimal
  cm_sebi_rate :: decimal

definition cost_label :: "cost_model \<Rightarrow> string" where
  "cost_label m = cm_name m @ ''@v'' @ str_int (cm_version m)"

section \<open>Charging a fill\<close>

definition charge :: "cost_model \<Rightarrow> decimal \<Rightarrow> bool \<Rightarrow> pricing_error + cost_breakdown" where
  "charge m turnover is_buy =
     (if turnover < 0 then Inl NegativeTurnover
      else
        let brokerage = dec_min (cm_brokerage_flat m) (turnover * cm_brokerage_rate m);
            stt = (if is_buy then 0 else turnover * cm_stt_rate_sell m);
            exchange = turnover * cm_exchange_rate m;
            sebi = turnover * cm_sebi_rate m;
            stamp = (if is_buy then turnover * cm_stamp_duty_rate_buy m else 0);
            gst = (brokerage + exchange + sebi) * cm_gst_rate m
        in bind_result (round_paise brokerage) (\<lambda>b.
           bind_result (round_paise stt) (\<lambda>s.
           bind_result (round_paise exchange) (\<lambda>e.
           bind_result (round_paise gst) (\<lambda>g.
           bind_result (round_paise stamp) (\<lambda>d.
           bind_result (round_paise sebi) (\<lambda>f.
             Inr \<lparr>cb_brokerage = b, cb_securities_transaction_tax = s, cb_exchange_charges = e,
                  cb_gst = g, cb_stamp_duty = d, cb_sebi_charges = f\<rparr>)))))))"

definition indian_options_costs :: cost_model where
  "indian_options_costs = \<lparr>
     cm_name = ''INDIAN_OPTIONS_DISCOUNT'', cm_version = 1,
     cm_brokerage_flat = Dec 20 0, cm_brokerage_rate = Dec (3 / 10000) (- 4),
     cm_stt_rate_sell = Dec (625 / 1000000) (- 6), cm_exchange_rate = Dec (53 / 100000) (- 5),
     cm_gst_rate = Dec (18 / 100) (- 2), cm_stamp_duty_rate_buy = Dec (3 / 100000) (- 5),
     cm_sebi_rate = Dec (1 / 1000000) (- 6)\<rparr>"

section \<open>Rounding to paise, as numbers\<close>

lemma round_paise_Inr_iff:
  "round_paise d = Inr r \<longleftrightarrow> r = Dec (half_up (- 2) (dval d)) (- 2) \<and> \<bar>half_up (- 2) (dval d)\<bar> < 10 ^ 26"
proof -
  let ?v = "half_up (- 2) (dval d)"
  have "(28 < adj 10 ?v - (- 2) + 1) = (\<not> \<bar>?v\<bar> < 10 ^ 26)" if "?v \<noteq> 0"
    using adj_less_iff_bound [of 10 ?v 26] that by auto
  then show ?thesis
    by (cases "?v = 0") (auto simp: round_paise_def quantize_half_up_def Let_def split: option.splits)
qed

lemma round_paise_Inl_iff: "round_paise d = Inl e \<longleftrightarrow> e = InvalidOperation \<and> 10 ^ 26 \<le> \<bar>half_up (- 2) (dval d)\<bar>"
proof (cases "round_paise d")
  case (Inl e')
  then have "e' = InvalidOperation" by (simp add: round_paise_def split: option.splits)
  moreover have "10 ^ 26 \<le> \<bar>half_up (- 2) (dval d)\<bar>"
    using round_paise_Inr_iff [of d "Dec (half_up (- 2) (dval d)) (- 2)"] Inl by (simp add: not_less)
  ultimately show ?thesis using Inl by auto
next
  case (Inr r)
  then have "\<bar>half_up (- 2) (dval d)\<bar> < 10 ^ 26" by (simp add: round_paise_Inr_iff)
  then show ?thesis using Inr by simp
qed

text \<open>A model all of whose rates are nonnegative.\<close>

definition rates_ok :: "cost_model \<Rightarrow> bool" where
  "rates_ok m \<longleftrightarrow> 0 \<le> dval (cm_brokerage_flat m) \<and> 0 \<le> dval (cm_brokerage_rate m)
     \<and> 0 \<le> dval (cm_stt_rate_sell m) \<and> 0 \<le> dval (cm_exchange_rate m) \<and> 0 \<le> dval (cm_gst_rate m)
     \<and> 0 \<le> dval (cm_stamp_duty_rate_buy m) \<and> 0 \<le> dval (cm_sebi_rate m)"

lemma indian_rates_ok [simp]: "rates_ok indian_options_costs"
  by (simp add: rates_ok_def indian_options_costs_def)

text \<open>The six numbers before rounding to paise, as exact functions of the turnover.\<close>

definition raw_brokerage :: "cost_model \<Rightarrow> rat \<Rightarrow> rat" where
  "raw_brokerage m t = min (dval (cm_brokerage_flat m)) (rnd28 (t * dval (cm_brokerage_rate m)))"

definition raw_service :: "cost_model \<Rightarrow> rat \<Rightarrow> rat" where
  "raw_service m t = rnd28 (rnd28 (rnd28 (raw_brokerage m t + rnd28 (t * dval (cm_exchange_rate m)))
     + rnd28 (t * dval (cm_sebi_rate m))) * dval (cm_gst_rate m))"

lemma dval_dec_min [simp]: "dval (dec_min a b) = min (dval a) (dval b)"
  by (simp add: dec_min_def dec_less_iff min_def)

lemma charge_Inr_iff:
  "charge m t is_buy = Inr b \<longleftrightarrow> 0 \<le> dval t
     \<and> (\<forall>x\<in>{raw_brokerage m (dval t), raw_service m (dval t), rnd28 (dval t * dval (cm_exchange_rate m)),
             rnd28 (dval t * dval (cm_sebi_rate m)),
             if is_buy then rnd28 (dval t * dval (cm_stamp_duty_rate_buy m)) else rnd28 (dval t * dval (cm_stt_rate_sell m))}.
          \<bar>half_up (- 2) x\<bar> < 10 ^ 26)
     \<and> b = \<lparr>cb_brokerage = Dec (half_up (- 2) (raw_brokerage m (dval t))) (- 2),
            cb_securities_transaction_tax =
              Dec (if is_buy then 0 else half_up (- 2) (rnd28 (dval t * dval (cm_stt_rate_sell m)))) (- 2),
            cb_exchange_charges = Dec (half_up (- 2) (rnd28 (dval t * dval (cm_exchange_rate m)))) (- 2),
            cb_gst = Dec (half_up (- 2) (raw_service m (dval t))) (- 2),
            cb_stamp_duty =
              Dec (if is_buy then half_up (- 2) (rnd28 (dval t * dval (cm_stamp_duty_rate_buy m))) else 0) (- 2),
            cb_sebi_charges = Dec (half_up (- 2) (rnd28 (dval t * dval (cm_sebi_rate m)))) (- 2)\<rparr>"
  by (cases is_buy)
    (auto simp: charge_def Let_def dec_less_iff bind_result_Inr_iff round_paise_Inr_iff raw_brokerage_def
      raw_service_def)

lemma half_up_nonneg: "0 \<le> x \<Longrightarrow> 0 \<le> half_up e x"
  by (rule half_up.nonneg)

lemma raw_brokerage_nonneg: "rates_ok m \<Longrightarrow> 0 \<le> t \<Longrightarrow> 0 \<le> raw_brokerage m t"
  by (simp add: raw_brokerage_def rates_ok_def ctx.nonneg)

lemma raw_brokerage_mono: "rates_ok m \<Longrightarrow> t \<le> t' \<Longrightarrow> raw_brokerage m t \<le> raw_brokerage m t'"
  unfolding raw_brokerage_def
  by (rule min.mono) (auto simp: rates_ok_def intro!: ctx.rnd_mono mult_right_mono)

lemma raw_service_nonneg: "rates_ok m \<Longrightarrow> 0 \<le> t \<Longrightarrow> 0 \<le> raw_service m t"
  unfolding raw_service_def
  by (intro ctx.nonneg mult_nonneg_nonneg add_nonneg_nonneg raw_brokerage_nonneg)
    (simp_all add: rates_ok_def)

lemma raw_service_mono: "rates_ok m \<Longrightarrow> t \<le> t' \<Longrightarrow> raw_service m t \<le> raw_service m t'"
  unfolding raw_service_def
  by (intro ctx.rnd_mono mult_right_mono add_mono raw_brokerage_mono) (simp_all add: rates_ok_def)

lemma rate_mono: "0 \<le> r \<Longrightarrow> t \<le> t' \<Longrightarrow> half_up e (rnd28 (t * r)) \<le> half_up e (rnd28 (t' * r))"
  by (intro half_up.rnd_mono ctx.rnd_mono mult_right_mono)

section \<open>What a charge guarantees\<close>

definition components :: "cost_breakdown \<Rightarrow> decimal list" where
  "components b = [cb_brokerage b, cb_securities_transaction_tax b, cb_exchange_charges b, cb_gst b,
     cb_stamp_duty b, cb_sebi_charges b]"

text \<open>
  Every charge is a sum of nonnegative amounts of whole paise: no component is negative,
  each carries exactly two decimal places, securities transaction tax falls on sales only and stamp
  duty on purchases only, and brokerage never exceeds the flat fee rounded to paise.
\<close>

theorem charge_components_lawful:
  assumes "rates_ok m" and "charge m turnover is_buy = Inr b"
  shows "(\<forall>d\<in>set (components b). 0 \<le> dval d \<and> on_grid 2 (dval d) \<and> dexp d = - 2)
    \<and> (is_buy \<longrightarrow> dval (cb_securities_transaction_tax b) = 0)
    \<and> (\<not> is_buy \<longrightarrow> dval (cb_stamp_duty b) = 0)
    \<and> dval (cb_brokerage b) \<le> half_up (- 2) (dval (cm_brokerage_flat m))"
proof -
  have grid: "on_grid 2 (half_up (- 2) x)" for x
    using half_up_form [of "- 2" x] by (auto simp: on_grid_def power_int_minus field_simps)
  have t: "0 \<le> dval turnover" using assms(2) by (simp add: charge_Inr_iff)
  have rate: "0 \<le> half_up (- 2) (rnd28 (dval turnover * r))" if "0 \<le> r" for r
    using that t by (intro half_up_nonneg ctx.nonneg mult_nonneg_nonneg)
  have flat: "half_up (- 2) (raw_brokerage m (dval turnover)) \<le> half_up (- 2) (dval (cm_brokerage_flat m))"
    by (rule half_up.rnd_mono) (simp add: raw_brokerage_def)
  have zero: "on_grid 2 0" by (simp add: on_grid_def)
  show ?thesis
    using assms t flat grid zero half_up_nonneg [OF raw_brokerage_nonneg [OF assms(1) t]]
      half_up_nonneg [OF raw_service_nonneg [OF assms(1) t]]
    by (auto simp: charge_Inr_iff components_def rates_ok_def rate)
qed

text \<open>
  A larger turnover never costs less: under nonnegative rates every component of the
  charge is monotone in the turnover, through the cap on brokerage, the rounding of each product
  and the rounding to paise.
\<close>

theorem charge_monotone:
  assumes "rates_ok m" and "t \<le> t'" and "charge m t is_buy = Inr b" and "charge m t' is_buy = Inr b'"
  shows "list_all2 (\<lambda>x y. x \<le> y) (components b) (components b')"
proof -
  have t: "dval t \<le> dval t'" using assms(2) by (simp add: dec_le_iff)
  show ?thesis
    using assms(1,3,4) half_up.rnd_mono [OF raw_brokerage_mono [OF assms(1) t]]
      half_up.rnd_mono [OF raw_service_mono [OF assms(1) t]] rate_mono [OF _ t]
    by (auto simp: charge_Inr_iff components_def dec_le_iff rates_ok_def)
qed

section \<open>Charges return and add up\<close>

definition rates_below_one :: "cost_model \<Rightarrow> bool" where
  "rates_below_one m \<longleftrightarrow> dval (cm_brokerage_flat m) \<le> 10 ^ 20
     \<and> (\<forall>r\<in>{cm_brokerage_rate m, cm_stt_rate_sell m, cm_exchange_rate m, cm_gst_rate m,
              cm_stamp_duty_rate_buy m, cm_sebi_rate m}. dval r \<le> 1)"

lemma half_up_le_int: "x \<le> of_int n \<Longrightarrow> half_up (- 2) x \<le> of_int n"
proof (rule half_up.le_fixed)
  have "half_up (- 2) (of_int (n * 100) * 10 powi - 2) = of_int (n * 100) * 10 powi - 2" by (rule half_up_fixed)
  then show "half_up (- 2) (of_int n) = of_int n" by (simp add: power_int_minus)
qed

lemma rnd28_le_int: "x \<le> of_int n \<Longrightarrow> \<bar>n\<bar> \<le> 10 ^ 28 \<Longrightarrow> rnd28 x \<le> of_int n"
  by (rule ctx.le_fixed) (simp_all add: rnd28_int)

lemma half_up_on_grid [simp]: "on_grid 2 (half_up (- 2) x)"
  using half_up_form [of "- 2" x] by (auto simp: on_grid_def power_int_minus field_simps)

lemma product_bounds:
  "0 \<le> r \<Longrightarrow> r \<le> 1 \<Longrightarrow> 0 \<le> t \<Longrightarrow> t \<le> of_int n \<Longrightarrow> \<bar>n\<bar> \<le> 10 ^ 28 \<Longrightarrow> rnd28 (t * r) \<le> of_int n"
  by (rule rnd28_le_int) (use mult_left_le [of r t] in auto)

lemma raw_bounds:
  assumes "rates_ok m" "rates_below_one m" "0 \<le> t" "t \<le> 10 ^ 20"
  shows "raw_brokerage m t \<le> 10 ^ 20" "raw_service m t \<le> 3 * 10 ^ 20"
proof -
  have t: "t \<le> of_int (10 ^ 20)" using assms(4) by simp
  show b: "raw_brokerage m t \<le> 10 ^ 20" using assms(2) by (simp add: raw_brokerage_def rates_below_one_def min.coboundedI1)
  have x: "rnd28 (t * dval (cm_exchange_rate m)) \<le> of_int (10 ^ 20)" "rnd28 (t * dval (cm_sebi_rate m)) \<le> of_int (10 ^ 20)"
    by (rule product_bounds; use assms t in \<open>simp add: rates_ok_def rates_below_one_def\<close>)+
  let ?s = "rnd28 (raw_brokerage m t + rnd28 (t * dval (cm_exchange_rate m)))"
  have s: "?s \<le> of_int (2 * 10 ^ 20)" by (rule rnd28_le_int) (use b x in simp_all)
  let ?u = "rnd28 (?s + rnd28 (t * dval (cm_sebi_rate m)))"
  have u: "?u \<le> of_int (3 * 10 ^ 20)" by (rule rnd28_le_int) (use s x in simp_all)
  have "0 \<le> ?u"
    by (intro ctx.nonneg add_nonneg_nonneg mult_nonneg_nonneg raw_brokerage_nonneg assms)
      (use assms in \<open>simp_all add: rates_ok_def\<close>)
  then have "raw_service m t \<le> of_int (3 * 10 ^ 20)"
    unfolding raw_service_def by (rule product_bounds [rotated 2]) (use assms u in \<open>simp_all add: rates_ok_def rates_below_one_def\<close>)
  then show "raw_service m t \<le> 3 * 10 ^ 20" by simp
qed

lemma grid_add_exact:
  "on_grid 2 x \<Longrightarrow> on_grid 2 y \<Longrightarrow> 0 \<le> x \<Longrightarrow> 0 \<le> y \<Longrightarrow> x \<le> 10 ^ 24 \<Longrightarrow> y \<le> 10 ^ 24 \<Longrightarrow> rnd28 (x + y) = x + y"
  by (rule rnd28_grid [of 2]) (simp_all add: on_grid_add)

lemma half_up_grid_fixed: "on_grid 2 x \<Longrightarrow> half_up (- 2) x = x"
proof -
  assume "on_grid 2 x"
  then obtain n where n: "x * 100 = of_int n" by (auto simp: on_grid_def elim: Ints_cases)
  have x: "x = of_int n * 10 powi - 2" using n by (simp add: power_int_minus field_simps)
  show ?thesis using half_up_fixed [of "- 2" n] unfolding x [symmetric] .
qed

text \<open>Six amounts of whole paise below \<open>10 ^ 22\<close> are summed without rounding.\<close>

lemma total_of_paise:
  assumes "\<forall>d\<in>set (components b). on_grid 2 (dval d) \<and> 0 \<le> dval d \<and> dval d \<le> 10 ^ 22"
  shows "\<exists>tot. costs_total b = Inr tot \<and> dval tot = sum_list (map dval (components b))"
proof -
  let ?a = "dval (cb_brokerage b)" and ?s = "dval (cb_securities_transaction_tax b)"
    and ?e = "dval (cb_exchange_charges b)" and ?g = "dval (cb_gst b)" and ?d = "dval (cb_stamp_duty b)"
    and ?f = "dval (cb_sebi_charges b)"
  have b: "on_grid 2 ?a" "on_grid 2 ?s" "on_grid 2 ?e" "on_grid 2 ?g" "on_grid 2 ?d" "on_grid 2 ?f"
    "0 \<le> ?a" "0 \<le> ?s" "0 \<le> ?e" "0 \<le> ?g" "0 \<le> ?d" "0 \<le> ?f"
    "?a \<le> 10 ^ 22" "?s \<le> 10 ^ 22" "?e \<le> 10 ^ 22" "?g \<le> 10 ^ 22" "?d \<le> 10 ^ 22" "?f \<le> 10 ^ 22"
    using assms by (simp_all add: components_def)
  have 1: "rnd28 (?a + ?s) = ?a + ?s" by (rule grid_add_exact) (use b in simp_all)
  have 2: "rnd28 (?a + ?s + ?e) = ?a + ?s + ?e" by (rule grid_add_exact) (use b in \<open>simp_all add: on_grid_add\<close>)
  have 3: "rnd28 (?a + ?s + ?e + ?g) = ?a + ?s + ?e + ?g"
    by (rule grid_add_exact) (use b in \<open>simp_all add: on_grid_add\<close>)
  have 4: "rnd28 (?a + ?s + ?e + ?g + ?d) = ?a + ?s + ?e + ?g + ?d"
    by (rule grid_add_exact) (use b in \<open>simp_all add: on_grid_add\<close>)
  have 5: "rnd28 (?a + ?s + ?e + ?g + ?d + ?f) = ?a + ?s + ?e + ?g + ?d + ?f"
    by (rule grid_add_exact) (use b in \<open>simp_all add: on_grid_add\<close>)
  let ?sum = "?a + ?s + ?e + ?g + ?d + ?f"
  have grid: "half_up (- 2) ?sum = ?sum" by (rule half_up_grid_fixed) (use b in \<open>simp add: on_grid_add\<close>)
  have "\<bar>?sum\<bar> < 10 ^ 26" using b by simp
  then have "costs_total b = Inr (Dec ?sum (- 2))"
    by (simp add: costs_total_def round_paise_Inr_iff 1 2 3 4 5 grid)
  then show ?thesis by (simp add: components_def)
qed

lemma charge_returns:
  assumes "rates_ok m" "rates_below_one m" "0 \<le> dval t" "dval t \<le> 10 ^ 20"
  shows "\<exists>b. charge m t is_buy = Inr b
    \<and> (\<forall>d\<in>set (components b). on_grid 2 (dval d) \<and> 0 \<le> dval d \<and> dval d \<le> 10 ^ 22)"
proof -
  have le: "half_up (- 2) x \<le> of_int (3 * 10 ^ 20)" if "x \<le> 3 * 10 ^ 20" for x
    using half_up_le_int [of x "3 * 10 ^ 20"] that by simp
  have t: "dval t \<le> of_int (10 ^ 20)" using assms(4) by simp
  have rate: "0 \<le> half_up (- 2) (rnd28 (dval t * r)) \<and> half_up (- 2) (rnd28 (dval t * r)) \<le> 10 ^ 21"
    if r: "0 \<le> r" "r \<le> 1" for r
  proof
    show "0 \<le> half_up (- 2) (rnd28 (dval t * r))" using r assms(3) by (intro half_up_nonneg ctx.nonneg mult_nonneg_nonneg)
    have "rnd28 (dval t * r) \<le> of_int (10 ^ 20)" by (rule product_bounds) (use r assms t in simp_all)
    then show "half_up (- 2) (rnd28 (dval t * r)) \<le> 10 ^ 21" using le [of "rnd28 (dval t * r)"] by simp
  qed
  note raw = raw_bounds [OF assms]
  have pos: "0 \<le> half_up (- 2) (raw_brokerage m (dval t))" "0 \<le> half_up (- 2) (raw_service m (dval t))"
    using half_up_nonneg raw_brokerage_nonneg raw_service_nonneg assms by blast+
  have upper: "half_up (- 2) (raw_brokerage m (dval t)) \<le> 10 ^ 21" "half_up (- 2) (raw_service m (dval t)) \<le> 10 ^ 21"
    using le [of "raw_brokerage m (dval t)"] le [of "raw_service m (dval t)"] raw by simp_all
  have rates: "0 \<le> dval r \<and> dval r \<le> 1"
    if "r \<in> {cm_stt_rate_sell m, cm_exchange_rate m, cm_stamp_duty_rate_buy m, cm_sebi_rate m}" for r
    using that assms(1,2) by (auto simp: rates_ok_def rates_below_one_def)
  note each = rate [OF rates [THEN conjunct1] rates [THEN conjunct2]]
  have zero: "on_grid 2 0" by (simp add: on_grid_def)
  let ?b = "\<lparr>cb_brokerage = Dec (half_up (- 2) (raw_brokerage m (dval t))) (- 2),
            cb_securities_transaction_tax =
              Dec (if is_buy then 0 else half_up (- 2) (rnd28 (dval t * dval (cm_stt_rate_sell m)))) (- 2),
            cb_exchange_charges = Dec (half_up (- 2) (rnd28 (dval t * dval (cm_exchange_rate m)))) (- 2),
            cb_gst = Dec (half_up (- 2) (raw_service m (dval t))) (- 2),
            cb_stamp_duty =
              Dec (if is_buy then half_up (- 2) (rnd28 (dval t * dval (cm_stamp_duty_rate_buy m))) else 0) (- 2),
            cb_sebi_charges = Dec (half_up (- 2) (rnd28 (dval t * dval (cm_sebi_rate m)))) (- 2)\<rparr>"
  have small: "\<forall>d\<in>set (components ?b). on_grid 2 (dval d) \<and> 0 \<le> dval d \<and> dval d \<le> 10 ^ 22"
    using pos upper each [of "cm_stt_rate_sell m"] each [of "cm_exchange_rate m"]
      each [of "cm_stamp_duty_rate_buy m"] each [of "cm_sebi_rate m"] zero
    by (simp add: components_def)
  have "charge m t is_buy = Inr ?b"
    unfolding charge_Inr_iff
    using small assms(3) by (cases is_buy) (simp_all add: components_def)
  then show ?thesis using small by blast
qed

lemma indian_rates_below_one [simp]: "rates_below_one indian_options_costs"
  by (simp add: rates_below_one_def indian_options_costs_def)

lemma small_charge:
  obtains b where "charge indian_options_costs (Dec 100000 0) is_buy = Inr b"
  using charge_returns [OF indian_rates_ok indian_rates_below_one, of "Dec 100000 0" is_buy] by auto

lemma smaller_charge:
  obtains b where "charge indian_options_costs (Dec 500 0) is_buy = Inr b"
  using charge_returns [OF indian_rates_ok indian_rates_below_one, of "Dec 500 0" is_buy] by auto

text \<open>
  A charge always returns, and its total is exact: with rates between zero and one and a
  turnover up to \<open>10 ^ 20\<close> no rounding overflows, and the total is the exact sum of the six rounded
  components, so the printed parts always add up to the printed whole.
\<close>

theorem charge_total_exact:
  assumes "rates_ok m" and "rates_below_one m" and "0 \<le> dval t" and "dval t \<le> 10 ^ 20"
  shows "\<exists>b tot. charge m t is_buy = Inr b \<and> costs_total b = Inr tot
    \<and> dval tot = sum_list (map dval (components b))"
  using charge_returns [OF assms] total_of_paise by metis

theorem charge_components_lawful_witness:
  "\<exists>b. charge indian_options_costs (Dec 100000 0) False = Inr b \<and> dval (cb_stamp_duty b) = 0
     \<and> dval (cb_brokerage b) \<le> half_up (- 2) 20"
proof -
  obtain b where b: "charge indian_options_costs (Dec 100000 0) False = Inr b"
    using small_charge by metis
  have "dval (cm_brokerage_flat indian_options_costs) = 20" by (simp add: indian_options_costs_def)
  then show ?thesis using charge_components_lawful [OF indian_rates_ok b] b by auto
qed

theorem charge_monotone_witness:
  "\<exists>b b'. charge indian_options_costs (Dec 500 0) True = Inr b \<and> charge indian_options_costs (Dec 100000 0) True = Inr b'
     \<and> list_all2 (\<lambda>x y. x \<le> y) (components b) (components b')"
proof -
  obtain b b' where "charge indian_options_costs (Dec 500 0) True = Inr b"
      "charge indian_options_costs (Dec 100000 0) True = Inr b'"
    using small_charge smaller_charge by metis
  then show ?thesis using charge_monotone [OF indian_rates_ok, of "Dec 500 0" "Dec 100000 0" True]
    by (simp add: dec_le_iff)
qed

theorem charge_total_exact_witness:
  "\<exists>b tot. charge indian_options_costs (Dec 100000 0) True = Inr b \<and> costs_total b = Inr tot
     \<and> dval tot = sum_list (map dval (components b))"
  using charge_total_exact [OF indian_rates_ok indian_rates_below_one, of "Dec 100000 0" True] by simp

end
