(* ===== verification/Market_State.thy ===== *)
theory Market_State
  imports OIP_Decimal OIP_Prelude
begin

text \<open>
  \<^verbatim>\<open>oipulse/marketstate/staleness.py\<close> and the value types of \<^verbatim>\<open>oipulse/marketstate/state.py\<close>: the
  staleness budgets with their escalation table, and the immutable picture of one underlying that
  fills are priced against, with the content its digest covers. Ages are durations in microseconds; a
  coverage ratio is a float, kept as the rational it stands for. \<^verbatim>\<open>context.py\<close> and the issue type of
  \<^verbatim>\<open>dataquality/issues.py\<close> are here because the state carries them; the assembly is in \<open>State_Builder\<close>.
\<close>

section \<open>Staleness budgets (staleness.py)\<close>

datatype data_category =
    CAT_SPOT | CAT_FUTURES | CAT_OPTION_QUOTE | CAT_OPTION_OI | CAT_GREEKS | CAT_DEPTH | CAT_INDEX_OHLC

datatype quality_status = QS_OK | QS_WARNING | QS_DEGRADED | QS_UNRELIABLE

datatype issue_severity = SEV_INFO | SEV_WARNING | SEV_DEGRADED | SEV_CRITICAL

fun quality_rank :: "quality_status \<Rightarrow> int" where
  "quality_rank QS_OK = 0"
| "quality_rank QS_WARNING = 1"
| "quality_rank QS_DEGRADED = 2"
| "quality_rank QS_UNRELIABLE = 3"

text \<open>\<open>max(statuses, key=rank)\<close> keeps the first of the worst; no status at all is OK.\<close>

definition worst_status :: "quality_status list \<Rightarrow> quality_status" where
  "worst_status ss =
     (case ss of [] \<Rightarrow> QS_OK
      | s # rest \<Rightarrow> foldl (\<lambda>w x. if quality_rank w < quality_rank x then x else w) s rest)"

record category_budget =
  cbu_category :: data_category
  cbu_max_age :: duration
  cbu_on_breach :: quality_status
  cbu_severity :: issue_severity
  cbu_drop_on_breach :: bool
  cbu_required :: bool

record staleness_policy =
  sp_version :: string
  sp_budgets :: "category_budget list"
  sp_coverage_ok :: rat
  sp_coverage_degraded :: rat

text \<open>\<open>None\<close> is the KeyError.\<close>

definition budget_for :: "staleness_policy \<Rightarrow> data_category \<Rightarrow> category_budget option" where
  "budget_for p c = find (\<lambda>b. cbu_category b = c) (sp_budgets p)"

definition is_stale :: "staleness_policy \<Rightarrow> data_category \<Rightarrow> duration \<Rightarrow> bool option" where
  "is_stale p c age = map_option (\<lambda>b. cbu_max_age b < age) (budget_for p c)"

definition escalate :: "staleness_policy \<Rightarrow> data_category set \<Rightarrow> rat \<Rightarrow> bool \<Rightarrow> quality_status" where
  "escalate p breached coverage missing_expiry =
     (if CAT_SPOT \<in> breached \<or> coverage < sp_coverage_degraded p \<or> missing_expiry then QS_UNRELIABLE
      else if breached - {CAT_SPOT} \<noteq> {} \<or> coverage < sp_coverage_ok p then QS_DEGRADED
      else QS_OK)"

definition seconds :: "int \<Rightarrow> duration" where
  "seconds n = n * 1000000"

definition plain_budget ::
  "data_category \<Rightarrow> int \<Rightarrow> quality_status \<Rightarrow> issue_severity \<Rightarrow> category_budget" where
  "plain_budget c s q v = \<lparr>cbu_category = c, cbu_max_age = seconds s, cbu_on_breach = q,
     cbu_severity = v, cbu_drop_on_breach = False, cbu_required = False\<rparr>"

text \<open>The literals \<^verbatim>\<open>0.98\<close> and \<^verbatim>\<open>0.80\<close> are the nearest floats.\<close>

definition default_staleness_policy :: staleness_policy where
  "default_staleness_policy = \<lparr>
     sp_version = ''1.0.0'',
     sp_budgets =
       [(plain_budget CAT_SPOT 5 QS_UNRELIABLE SEV_CRITICAL)\<lparr>cbu_required := True\<rparr>,
        plain_budget CAT_FUTURES 5 QS_DEGRADED SEV_DEGRADED,
        plain_budget CAT_OPTION_QUOTE 30 QS_DEGRADED SEV_DEGRADED,
        plain_budget CAT_OPTION_OI 60 QS_DEGRADED SEV_DEGRADED,
        plain_budget CAT_GREEKS 60 QS_DEGRADED SEV_DEGRADED,
        (plain_budget CAT_DEPTH 10 QS_WARNING SEV_WARNING)\<lparr>cbu_drop_on_breach := True\<rparr>,
        plain_budget CAT_INDEX_OHLC 60 QS_WARNING SEV_WARNING],
     sp_coverage_ok = rnd53 (98 / 100),
     sp_coverage_degraded = rnd53 (80 / 100)\<rparr>"

section \<open>The picture (state.py)\<close>

record option_leg =
  ol_instrument_id :: int
  ol_expiry_id :: int
  ol_strike :: decimal
  ol_option_type :: string
  ol_ltp :: "decimal option"
  ol_bid :: "decimal option"
  ol_ask :: "decimal option"
  ol_volume :: "int option"
  ol_oi :: "int option"
  ol_provider_prev_oi :: "int option"
  ol_iv :: "decimal option"
  ol_delta :: "decimal option"
  ol_gamma :: "decimal option"
  ol_theta :: "decimal option"
  ol_vega :: "decimal option"
  ol_quote_observed_at :: "instant option"
  ol_greeks_observed_at :: "instant option"
  ol_quote_age :: "duration option"
  ol_greeks_age :: "duration option"
  ol_quote_stale :: bool
  ol_oi_stale :: bool
  ol_greeks_stale :: bool

definition has_quote :: "option_leg \<Rightarrow> bool" where
  "has_quote l \<longleftrightarrow> ol_quote_observed_at l \<noteq> None"

definition has_greeks :: "option_leg \<Rightarrow> bool" where
  "has_greeks l \<longleftrightarrow> ol_greeks_observed_at l \<noteq> None"

record spot_view =
  sv_ltp :: "decimal option"
  sv_observed_at :: "instant option"
  sv_age :: "duration option"
  sv_prev_close :: "decimal option"
  sv_open :: "decimal option"
  sv_high :: "decimal option"
  sv_low :: "decimal option"
  sv_stale :: bool

definition spot_change :: "spot_view \<Rightarrow> decimal option" where
  "spot_change s = (case (sv_ltp s, sv_prev_close s) of (Some l, Some p) \<Rightarrow> Some (l - p) | _ \<Rightarrow> None)"

text \<open>\<open>SpotView(ltp=None, observed_at=None, age=None)\<close>\<close>

definition no_spot :: spot_view where
  "no_spot = \<lparr>sv_ltp = None, sv_observed_at = None, sv_age = None, sv_prev_close = None, sv_open = None,
     sv_high = None, sv_low = None, sv_stale = False\<rparr>"

record futures_leg =
  fu_instrument_id :: int
  fu_expiry_id :: "int option"
  fu_ltp :: "decimal option"
  fu_oi :: "int option"
  fu_volume :: "int option"
  fu_observed_at :: "instant option"
  fu_age :: "duration option"
  fu_stale :: bool

definition basis :: "futures_leg \<Rightarrow> decimal option \<Rightarrow> decimal option" where
  "basis l spot = (case (fu_ltp l, spot) of (Some p, Some s) \<Rightarrow> Some (p - s) | _ \<Rightarrow> None)"

text \<open>
  The surfaces reorganise the legs by strike: dictionaries from the strike to the observed value of
  the call and of the put. Equal decimals are one key whatever their exponent, so the key is the value.
\<close>

record surfaces =
  sf_oi :: "(rat \<times> int option \<times> int option) list"
  sf_iv :: "(rat \<times> decimal option \<times> decimal option) list"
  sf_gamma :: "(rat \<times> decimal option \<times> decimal option) list"

definition no_surfaces :: surfaces where
  "no_surfaces = \<lparr>sf_oi = [], sf_iv = [], sf_gamma = []\<rparr>"

record expiry_aggregates =
  ea_total_call_oi :: "int option"
  ea_total_put_oi :: "int option"
  ea_atm_strike :: "decimal option"

definition pcr :: "expiry_aggregates \<Rightarrow> decimal option" where
  "pcr a = (case ea_total_call_oi a of
      None \<Rightarrow> None
    | Some c \<Rightarrow> if c = 0 then None
        else case ea_total_put_oi a of None \<Rightarrow> None | Some p \<Rightarrow> Some (dec_div (dec_int p) (dec_int c)))"

text \<open>A date is its day number.\<close>

record expiry_slice =
  es_expiry_id :: int
  es_expiry_date :: int
  es_legs :: "option_leg list"
  es_surfaces :: surfaces
  es_aggregates :: expiry_aggregates
  es_missing_leg_count :: int

definition slice_coverage :: "expiry_slice \<Rightarrow> rat" where
  "slice_coverage e =
     (let expected = int (length (es_legs e)) + es_missing_leg_count e
      in if expected = 0 then 1 else int_truediv (int (length (es_legs e))) expected)"

datatype session_phase = PRE_OPEN | SESSION_OPEN | SESSION_CLOSED | POST_CLOSE

datatype coherence_mode = SNAPSHOT_ANCHORED | STREAM_ONLY | SNAPSHOT_STALE | RECOVERING

definition is_cross_sectional :: "coherence_mode \<Rightarrow> bool" where
  "is_cross_sectional m \<longleftrightarrow> m = SNAPSHOT_ANCHORED"

record coherence =
  co_mode :: coherence_mode
  co_max_component_age :: "duration option"
  co_chain_snapshot_ref :: "string option"
  co_ws_merge_count :: int
  co_anchor_observed_at :: "instant option"

record state_identity =
  id_underlying_id :: int
  id_market_time :: instant
  id_knowledge_horizon :: instant
  id_build_context_id :: string

text \<open>Quality issues (dataquality/issues.py), without their free text and context.\<close>

datatype issue_type =
    STALE_PRICE | MISSING_OBSERVATION | DUPLICATE_OBSERVATION | OUT_OF_ORDER | IMPOSSIBLE_VALUE
  | NEGATIVE_OI | INVALID_STRIKE | MISSING_EXPIRY | DISCONTINUITY | WEBSOCKET_GAP | RECONNECT_GAP
  | REST_WS_DIVERGENCE | INCOMPLETE_CHAIN | CLOCK_SKEW | SUBSCRIPTION_DEGRADED | WEAK_IDENTITY

record quality_issue =
  qi_type :: issue_type
  qi_severity :: issue_severity
  qi_detected_at :: instant
  qi_instrument_id :: "int option"
  qi_underlying_id :: "int option"
  qi_window_start :: "instant option"
  qi_window_end :: "instant option"

definition plain_issue :: "issue_type \<Rightarrow> issue_severity \<Rightarrow> instant \<Rightarrow> quality_issue" where
  "plain_issue t v ts = \<lparr>qi_type = t, qi_severity = v, qi_detected_at = ts, qi_instrument_id = None,
     qi_underlying_id = None, qi_window_start = None, qi_window_end = None\<rparr>"

definition blocks_analytics :: "quality_issue \<Rightarrow> bool" where
  "blocks_analytics i \<longleftrightarrow> qi_severity i = SEV_DEGRADED \<or> qi_severity i = SEV_CRITICAL"

record quality =
  q_status :: quality_status
  q_coverage_ratio :: rat
  q_staleness_p95 :: "duration option"
  q_issues :: "quality_issue list"

definition is_usable_for_signals :: "quality \<Rightarrow> bool" where
  "is_usable_for_signals q \<longleftrightarrow> q_status q \<noteq> QS_UNRELIABLE"

text \<open>The configuration a state is assembled under (context.py); its id is a digest of the four.\<close>

record build_context =
  bc_builder_version :: string
  bc_staleness_policy_version :: string
  bc_feature_set_version :: string
  bc_configuration_digest :: string

definition build_context_id_of :: "(build_context \<Rightarrow> string) \<Rightarrow> build_context \<Rightarrow> string" where
  "build_context_id_of digest c = ''bc_'' @ take 32 (digest c)"

record provenance =
  pr_build_context :: build_context
  pr_observation_refs :: "string list"
  pr_assembled_at :: instant
  pr_source_kinds :: "string list"
  pr_max_input_ingested_at :: "instant option"

record market_state =
  mst_identity :: state_identity
  mst_session_phase :: session_phase
  mst_spot :: spot_view
  mst_futures :: "futures_leg list"
  mst_expiries :: "expiry_slice list"
  mst_coherence :: coherence
  mst_quality :: quality
  mst_provenance :: provenance
  mst_session_date :: "int option"

definition state_expiry :: "market_state \<Rightarrow> int \<Rightarrow> expiry_slice option" where
  "state_expiry s i = find (\<lambda>e. es_expiry_id e = i) (mst_expiries s)"

text \<open>
  What the content digest covers (\<open>as_comparable\<close>): everything observed and derived, not the ages,
  not the moment of assembly, not the surfaces; the issues and the references as sorted lists.
\<close>

type_synonym leg_content =
  "(int \<times> decimal \<times> string) \<times> (decimal option \<times> decimal option \<times> decimal option) \<times> (int option \<times> int option \<times> int option)
   \<times> (decimal option \<times> decimal option \<times> decimal option \<times> decimal option \<times> decimal option)
   \<times> (instant option \<times> instant option) \<times> (bool \<times> bool \<times> bool)"

definition leg_content :: "option_leg \<Rightarrow> leg_content" where
  "leg_content l = ((ol_instrument_id l, ol_strike l, ol_option_type l), (ol_ltp l, ol_bid l, ol_ask l),
     (ol_volume l, ol_oi l, ol_provider_prev_oi l), (ol_iv l, ol_delta l, ol_gamma l, ol_theta l, ol_vega l),
     (ol_quote_observed_at l, ol_greeks_observed_at l), (ol_quote_stale l, ol_oi_stale l, ol_greeks_stale l))"

record state_content =
  sc_identity :: state_identity
  sc_session_phase :: session_phase
  sc_session_date :: "int option"
  sc_spot :: "(decimal option \<times> instant option \<times> decimal option) \<times> (decimal option \<times> decimal option \<times> decimal option) \<times> bool"
  sc_futures :: "(int \<times> decimal option \<times> int option \<times> int option \<times> instant option \<times> bool) list"
  sc_expiries :: "(int \<times> int \<times> int \<times> expiry_aggregates \<times> leg_content list) list"
  sc_coherence :: "coherence_mode \<times> string option \<times> int \<times> instant option"
  sc_status :: quality_status
  sc_coverage_ratio :: rat
  sc_issues :: "string list"
  sc_build_context_id :: string
  sc_observation_refs :: "string list"
  sc_source_kinds :: "string list"

fun issue_word :: "issue_type \<Rightarrow> string" where
  "issue_word STALE_PRICE = ''stale_price''"
| "issue_word MISSING_OBSERVATION = ''missing_observation''"
| "issue_word DUPLICATE_OBSERVATION = ''duplicate_observation''"
| "issue_word OUT_OF_ORDER = ''out_of_order''"
| "issue_word IMPOSSIBLE_VALUE = ''impossible_value''"
| "issue_word NEGATIVE_OI = ''negative_oi''"
| "issue_word INVALID_STRIKE = ''invalid_strike''"
| "issue_word MISSING_EXPIRY = ''missing_expiry''"
| "issue_word DISCONTINUITY = ''discontinuity''"
| "issue_word WEBSOCKET_GAP = ''websocket_gap''"
| "issue_word RECONNECT_GAP = ''reconnect_gap''"
| "issue_word REST_WS_DIVERGENCE = ''rest_ws_divergence''"
| "issue_word INCOMPLETE_CHAIN = ''incomplete_chain''"
| "issue_word CLOCK_SKEW = ''clock_skew''"
| "issue_word SUBSCRIPTION_DEGRADED = ''subscription_degraded''"
| "issue_word WEAK_IDENTITY = ''weak_identity''"

fun severity_word :: "issue_severity \<Rightarrow> string" where
  "severity_word SEV_INFO = ''info''"
| "severity_word SEV_WARNING = ''warning''"
| "severity_word SEV_DEGRADED = ''degraded''"
| "severity_word SEV_CRITICAL = ''critical''"

definition issue_line :: "quality_issue \<Rightarrow> string" where
  "issue_line i = issue_word (qi_type i) @ '':'' @ severity_word (qi_severity i) @ '':''
     @ (case qi_instrument_id i of None \<Rightarrow> ''None'' | Some n \<Rightarrow> str_int n)"

text \<open>\<open>round(x, 9)\<close> of a float: the nearest float to the decimal rounding, ties to even.\<close>

definition float_round9 :: "rat \<Rightarrow> rat" where
  "float_round9 x = rnd53 (of_int (round_half_even (x * 10 ^ 9)) / 10 ^ 9)"

definition as_comparable :: "(build_context \<Rightarrow> string) \<Rightarrow> market_state \<Rightarrow> state_content" where
  "as_comparable digest s = \<lparr>
     sc_identity = mst_identity s,
     sc_session_phase = mst_session_phase s,
     sc_session_date = mst_session_date s,
     sc_spot = (let v = mst_spot s in ((sv_ltp v, sv_observed_at v, sv_prev_close v), (sv_open v, sv_high v, sv_low v), sv_stale v)),
     sc_futures = map (\<lambda>f. (fu_instrument_id f, fu_ltp f, fu_oi f, fu_volume f, fu_observed_at f, fu_stale f)) (mst_futures s),
     sc_expiries = map (\<lambda>e. (es_expiry_id e, es_expiry_date e, es_missing_leg_count e, es_aggregates e,
                             map leg_content (es_legs e))) (mst_expiries s),
     sc_coherence = (let c = mst_coherence s in (co_mode c, co_chain_snapshot_ref c, co_ws_merge_count c, co_anchor_observed_at c)),
     sc_status = q_status (mst_quality s),
     sc_coverage_ratio = float_round9 (q_coverage_ratio (mst_quality s)),
     sc_issues = sort (map issue_line (q_issues (mst_quality s))),
     sc_build_context_id = build_context_id_of digest (pr_build_context (mst_provenance s)),
     sc_observation_refs = sort (pr_observation_refs (mst_provenance s)),
     sc_source_kinds = sort (pr_source_kinds (mst_provenance s))\<rparr>"

section \<open>Escalation\<close>

lemma escalate_range: "escalate p B c e \<in> {QS_OK, QS_DEGRADED, QS_UNRELIABLE}"
  by (simp add: escalate_def)

lemma worst_status_upper: "s \<in> set ss \<Longrightarrow> quality_rank s \<le> quality_rank (worst_status ss)"
proof -
  have keep: "quality_rank w \<le> quality_rank (foldl (\<lambda>w x. if quality_rank w < quality_rank x then x else w) w xs)" for w xs
    by (induction xs arbitrary: w) (auto intro: order_trans [OF less_imp_le])
  have all: "x \<in> set xs \<Longrightarrow> quality_rank x \<le> quality_rank (foldl (\<lambda>w x. if quality_rank w < quality_rank x then x else w) w xs)" for x w xs
  proof (induction xs arbitrary: w)
    case (Cons y ys)
    then show ?case using keep [of "if quality_rank w < quality_rank y then y else w" ys]
      by (auto split: if_splits)
  qed simp
  assume "s \<in> set ss"
  then show ?thesis using keep all by (cases ss) (auto simp: worst_status_def)
qed

text \<open>
  Escalation is the documented table and never optimistic: the status is UNRELIABLE
  exactly when spot is over budget, coverage is below the lower threshold or a subscribed expiry
  has no data, and OK exactly when nothing is over budget and coverage reaches the upper one; more
  breaches, less coverage or a missing expiry never improve it. The warning level that two of the
  default budgets name for their breach is never produced: any breach of theirs degrades the state.
\<close>

theorem escalation_table:
  assumes "sp_coverage_degraded p \<le> sp_coverage_ok p"
  shows "(escalate p B c e = QS_UNRELIABLE \<longleftrightarrow> CAT_SPOT \<in> B \<or> c < sp_coverage_degraded p \<or> e)
    \<and> (escalate p B c e = QS_OK \<longleftrightarrow> B = {} \<and> sp_coverage_ok p \<le> c \<and> \<not> e)
    \<and> (B \<subseteq> B' \<and> c' \<le> c \<and> (e \<longrightarrow> e') \<longrightarrow> quality_rank (escalate p B c e) \<le> quality_rank (escalate p B' c' e'))
    \<and> escalate p B c e \<noteq> QS_WARNING
    \<and> (B \<noteq> {} \<longrightarrow> escalate p B c e \<in> {QS_DEGRADED, QS_UNRELIABLE})"
proof (intro conjI)
  show "escalate p B c e = QS_OK \<longleftrightarrow> B = {} \<and> sp_coverage_ok p \<le> c \<and> \<not> e"
    using assms by (auto simp: escalate_def)
  show "B \<subseteq> B' \<and> c' \<le> c \<and> (e \<longrightarrow> e') \<longrightarrow> quality_rank (escalate p B c e) \<le> quality_rank (escalate p B' c' e')"
  proof
    assume h: "B \<subseteq> B' \<and> c' \<le> c \<and> (e \<longrightarrow> e')"
    consider "CAT_SPOT \<in> B' \<or> c' < sp_coverage_degraded p \<or> e'" | "\<not> (CAT_SPOT \<in> B' \<or> c' < sp_coverage_degraded p \<or> e')"
      by blast
    then show "quality_rank (escalate p B c e) \<le> quality_rank (escalate p B' c' e')"
    proof cases
      case 1
      then have "escalate p B' c' e' = QS_UNRELIABLE" by (simp add: escalate_def)
      then show ?thesis using escalate_range [of p B c e] by auto
    next
      case 2
      then show ?thesis using h by (auto simp: escalate_def)
    qed
  qed
qed (auto simp: escalate_def)

theorem escalation_table_witness:
  "escalate default_staleness_policy {CAT_INDEX_OHLC} 1 False \<in> {QS_DEGRADED, QS_UNRELIABLE}
   \<and> map_option cbu_on_breach (budget_for default_staleness_policy CAT_INDEX_OHLC) = Some QS_WARNING"
proof -
  have le: "sp_coverage_degraded default_staleness_policy \<le> sp_coverage_ok default_staleness_policy"
    unfolding default_staleness_policy_def staleness_policy.simps by (rule flt.rnd_mono) simp
  have "escalate default_staleness_policy {CAT_INDEX_OHLC} 1 False \<in> {QS_DEGRADED, QS_UNRELIABLE}"
    using escalation_table [OF le, of "{CAT_INDEX_OHLC}" 1 False "{}" 1 False] by blast
  moreover have "map_option cbu_on_breach (budget_for default_staleness_policy CAT_INDEX_OHLC) = Some QS_WARNING"
    by (simp add: budget_for_def default_staleness_policy_def plain_budget_def)
  ultimately show ?thesis ..
qed

end
