(* ===== verification/Fills.thy ===== *)
theory Fills
  imports Intents Costs Market_State
begin

text \<open>
  \<^verbatim>\<open>oipulse/backtest/fills.py\<close>: pricing and sizing one simulated fill against a market state. The
  hash behind the deterministic rejection draw is the parameter \<open>draw\<close>, the integer of the first
  twelve hex digits for a text; the digest of an intent's content is the parameter \<open>digest\<close>. The
  two exceptions the arithmetic can raise are results. The free text of an outcome is left out.
\<close>

section \<open>Vocabularies\<close>

datatype slippage_model = MID | TOUCH | FRACTION_OF_SPREAD | SIZE_IMPACT

datatype price_source = OBSERVED_QUOTE | ASSUMED_SPREAD_AROUND_LTP

datatype rejection_reason =
  FILL_NO_PRICE_AVAILABLE | FILL_LIMIT_NOT_MARKETABLE | FILL_NO_LIQUIDITY | FILL_STALE_QUOTE
  | FILL_MODELLED_REJECTION

record quote_snapshot =
  qt_bid :: "decimal option"
  qt_ask :: "decimal option"
  qt_ltp :: "decimal option"
  qt_volume :: "int option"
  qt_source :: price_source
  qt_stale :: bool

definition quote_mid :: "quote_snapshot \<Rightarrow> decimal option" where
  "quote_mid q = (case (qt_bid q, qt_ask q) of
     (Some b, Some a) \<Rightarrow> Some (dec_div (b + a) (dec_int 2)) | _ \<Rightarrow> None)"

definition quote_spread :: "quote_snapshot \<Rightarrow> decimal option" where
  "quote_spread q = (case (qt_bid q, qt_ask q) of (Some b, Some a) \<Rightarrow> Some (a - b) | _ \<Rightarrow> None)"

record fill =
  fl_intent_id :: string
  fl_instrument_id :: int
  fl_side :: side
  fl_quantity :: int
  fl_price :: decimal
  fl_filled_at :: instant
  fl_price_source :: price_source
  fl_slippage_model :: slippage_model
  fl_reference_price :: decimal
  fl_costs :: cost_breakdown
  fl_assumption_based :: bool
  fl_requested_quantity :: int

definition slippage_per_unit :: "fill \<Rightarrow> decimal" where
  "slippage_per_unit f = (fl_price f - fl_reference_price f) * dec_int (side_sign (fl_side f))"

definition fill_turnover :: "fill \<Rightarrow> decimal" where
  "fill_turnover f = fl_price f * dec_int (fl_quantity f)"

definition is_partial :: "fill \<Rightarrow> bool" where
  "is_partial f \<longleftrightarrow> fl_quantity f < fl_requested_quantity f"

record fill_outcome =
  fo_intent_id :: string
  fo_fill :: "fill option"
  fo_rejection :: "rejection_reason option"

definition outcome_filled :: "fill_outcome \<Rightarrow> bool" where
  "outcome_filled oc \<longleftrightarrow> fo_fill oc \<noteq> None"

section \<open>The fill model\<close>

text \<open>\<open>(price / tick).quantize(1, ROUND_HALF_UP) * tick\<close>\<close>

definition round_to_tick :: "decimal \<Rightarrow> decimal \<Rightarrow> pricing_error + decimal" where
  "round_to_tick price tick =
     (if tick \<le> 0 then Inr price
      else case quantize_half_up 0 (dec_div price tick) of
             None \<Rightarrow> Inl InvalidOperation
           | Some n \<Rightarrow> Inr (n * tick))"

definition unit_draw :: "(string \<Rightarrow> int) \<Rightarrow> string \<Rightarrow> string \<Rightarrow> decimal" where
  "unit_draw draw intent salt = dec_div (dec_int (draw (salt @ '':'' @ intent))) (dec_int (16 ^ 12))"

record fill_model =
  fm_name :: string
  fm_version :: int
  fm_latency :: duration
  fm_slippage_model :: slippage_model
  fm_slippage_parameter :: decimal
  fm_assumed_spread_fraction :: decimal
  fm_partial_fills_enabled :: bool
  fm_max_participation_rate :: decimal
  fm_rejection_rate :: decimal
  fm_reject_on_stale_quote :: bool
  fm_cost_model :: cost_model
  fm_tick_size :: decimal
  fm_market_impact_enabled :: bool

text \<open>Without a usable quote: nothing, or a declared spread around the last traded price.\<close>

definition assumed_quote :: "fill_model \<Rightarrow> option_leg \<Rightarrow> quote_snapshot" where
  "assumed_quote m l =
     (case ol_ltp l of
        None \<Rightarrow> \<lparr>qt_bid = None, qt_ask = None, qt_ltp = None, qt_volume = ol_volume l,
                 qt_source = ASSUMED_SPREAD_AROUND_LTP, qt_stale = ol_quote_stale l\<rparr>
      | Some ltp \<Rightarrow>
          let half = dec_div (ltp * fm_assumed_spread_fraction m) (dec_int 2) in
          \<lparr>qt_bid = Some (ltp - half), qt_ask = Some (ltp + half), qt_ltp = Some ltp, qt_volume = ol_volume l,
           qt_source = ASSUMED_SPREAD_AROUND_LTP, qt_stale = ol_quote_stale l\<rparr>)"

definition quote_for :: "fill_model \<Rightarrow> option_leg \<Rightarrow> quote_snapshot" where
  "quote_for m l =
     (case (ol_bid l, ol_ask l) of
        (Some b, Some a) \<Rightarrow>
          if b \<le> a
          then \<lparr>qt_bid = Some b, qt_ask = Some a, qt_ltp = ol_ltp l, qt_volume = ol_volume l,
                qt_source = OBSERVED_QUOTE, qt_stale = ol_quote_stale l\<rparr>
          else assumed_quote m l
      | _ \<Rightarrow> assumed_quote m l)"

text \<open>The price before it is rounded to the tick.\<close>

definition raw_price :: "fill_model \<Rightarrow> quote_snapshot \<Rightarrow> decimal \<Rightarrow> decimal \<Rightarrow> side \<Rightarrow> int \<Rightarrow> decimal" where
  "raw_price m q bid ask sd quantity =
     (let mid = dec_div (bid + ask) (dec_int 2); spread = ask - bid in
      case fm_slippage_model m of
        MID \<Rightarrow> mid
      | TOUCH \<Rightarrow> (if sd = BUY then ask else bid)
      | FRACTION_OF_SPREAD \<Rightarrow> mid + spread * fm_slippage_parameter m * dec_int (side_sign sd)
      | SIZE_IMPACT \<Rightarrow>
          let base = dec_div spread (dec_int 2);
              impact = (case qt_volume q of
                  None \<Rightarrow> 0
                | Some v \<Rightarrow> if v = 0 then 0
                    else spread * fm_slippage_parameter m * dec_div (dec_int quantity) (dec_int v))
          in mid + (base + impact) * dec_int (side_sign sd))"

definition reference_and_fill_price ::
  "fill_model \<Rightarrow> quote_snapshot \<Rightarrow> side \<Rightarrow> int \<Rightarrow> pricing_error + (decimal \<times> decimal) option" where
  "reference_and_fill_price m q sd quantity =
     (case (qt_bid q, qt_ask q) of
        (Some bid, Some ask) \<Rightarrow>
          bind_result (round_to_tick (raw_price m q bid ask sd quantity) (fm_tick_size m))
            (\<lambda>p. Inr (Some (dec_div (bid + ask) (dec_int 2), p)))
      | _ \<Rightarrow> Inr None)"

definition fillable_quantity :: "fill_model \<Rightarrow> int \<Rightarrow> quote_snapshot \<Rightarrow> int" where
  "fillable_quantity m requested q =
     (case qt_volume q of
        None \<Rightarrow> requested
      | Some v \<Rightarrow>
          if \<not> fm_partial_fills_enabled m \<or> v = 0 then requested
          else let cap = dec_trunc (dec_int v * fm_max_participation_rate m) in min requested (max cap 0))"

section \<open>Simulating a fill\<close>

definition find_leg :: "market_state \<Rightarrow> int \<Rightarrow> option_leg option" where
  "find_leg s instrument =
     find (\<lambda>l. ol_instrument_id l = instrument) (concat (map es_legs (mst_expiries s)))"

definition rejected_fill :: "string \<Rightarrow> rejection_reason \<Rightarrow> fill_outcome" where
  "rejected_fill i r = \<lparr>fo_intent_id = i, fo_fill = None, fo_rejection = Some r\<rparr>"

text \<open>The last part of \<open>simulate_fill\<close>: the limit, the costs and the fill.\<close>

definition settle_price ::
  "fill_model \<Rightarrow> strategy_intent \<Rightarrow> string \<Rightarrow> quote_snapshot \<Rightarrow> int \<Rightarrow> decimal \<Rightarrow> decimal \<Rightarrow>
   pricing_error + fill_outcome" where
  "settle_price m i iid q quantity ref price =
     (let finish = (\<lambda>price.
          bind_result (charge (fm_cost_model m) (price * dec_int quantity) (si_side i = BUY))
            (\<lambda>costs. Inr \<lparr>fo_intent_id = iid,
               fo_fill = Some \<lparr>fl_intent_id = iid, fl_instrument_id = si_instrument_id i,
                  fl_side = si_side i, fl_quantity = quantity, fl_price = price,
                  fl_filled_at = si_decision_time i + fm_latency m, fl_price_source = qt_source q,
                  fl_slippage_model = fm_slippage_model m, fl_reference_price = ref,
                  fl_costs = costs, fl_assumption_based = (qt_source q = ASSUMED_SPREAD_AROUND_LTP),
                  fl_requested_quantity = si_quantity i\<rparr>,
               fo_rejection = None\<rparr>))
      in case (si_order_type i, si_limit_price i) of
           (LIMIT, Some limit) \<Rightarrow>
             if (if si_side i = BUY then price \<le> limit else limit \<le> price)
             then finish limit
             else Inr (rejected_fill iid FILL_LIMIT_NOT_MARKETABLE)
         | _ \<Rightarrow> finish price)"

definition simulate_fill ::
  "(strategy_content \<Rightarrow> string) \<Rightarrow> (string \<Rightarrow> int) \<Rightarrow> strategy_intent \<Rightarrow> market_state \<Rightarrow> fill_model \<Rightarrow>
   pricing_error + fill_outcome" where
  "simulate_fill digest draw i s m =
     (let iid = strategy_intent_id digest i; refuse = (\<lambda>r. Inr (rejected_fill iid r)) in
      case find_leg s (si_instrument_id i) of
        None \<Rightarrow> refuse FILL_NO_PRICE_AVAILABLE
      | Some leg \<Rightarrow>
          let q = quote_for m leg in
          if qt_bid q = None \<or> qt_ask q = None then refuse FILL_NO_PRICE_AVAILABLE
          else if qt_stale q \<and> fm_reject_on_stale_quote m then refuse FILL_STALE_QUOTE
          else if 0 < fm_rejection_rate m \<and> unit_draw draw iid ''reject'' < fm_rejection_rate m
          then refuse FILL_MODELLED_REJECTION
          else
            let quantity = fillable_quantity m (si_quantity i) q in
            if quantity \<le> 0 then refuse FILL_NO_LIQUIDITY
            else bind_result (reference_and_fill_price m q (si_side i) quantity)
              (\<lambda>priced. case priced of
                  None \<Rightarrow> refuse FILL_NO_PRICE_AVAILABLE
                | Some (ref, price) \<Rightarrow> settle_price m i iid q quantity ref price))"

section \<open>The shape of an outcome\<close>

lemma fillable_bounds:
  "fillable_quantity m r q \<le> r"
  "0 \<le> r \<Longrightarrow> 0 \<le> fillable_quantity m r q"
  by (auto simp: fillable_quantity_def Let_def split: option.split)

lemma quote_for_pair: "qt_bid (quote_for m l) \<noteq> None \<Longrightarrow> qt_ask (quote_for m l) \<noteq> None"
  by (auto simp: quote_for_def assumed_quote_def Let_def split: option.splits if_splits)

lemma settle_price_Inr:
  assumes "settle_price m i iid q n ref p = Inr oc"
  shows "oc = rejected_fill iid FILL_LIMIT_NOT_MARKETABLE
     \<or> (\<exists>f. oc = \<lparr>fo_intent_id = iid, fo_fill = Some f, fo_rejection = None\<rparr>
        \<and> fl_intent_id f = iid \<and> fl_instrument_id f = si_instrument_id i \<and> fl_side f = si_side i
        \<and> fl_quantity f = n \<and> fl_requested_quantity f = si_quantity i \<and> fl_reference_price f = ref
        \<and> fl_filled_at f = si_decision_time i + fm_latency m
        \<and> fl_assumption_based f = (qt_source q = ASSUMED_SPREAD_AROUND_LTP)
        \<and> charge (fm_cost_model m) (fl_price f * dec_int n) (si_side i = BUY) = Inr (fl_costs f)
        \<and> (si_order_type i = LIMIT \<and> si_limit_price i \<noteq> None \<longrightarrow> si_limit_price i = Some (fl_price f)
             \<and> (if si_side i = BUY then p \<le> fl_price f else fl_price f \<le> p))
        \<and> (\<not> (si_order_type i = LIMIT \<and> si_limit_price i \<noteq> None) \<longrightarrow> fl_price f = p))"
  using assms
  by (auto simp: settle_price_def Let_def bind_result_Inr_iff split: order_type.splits option.splits if_splits)

lemma simulate_fill_Inr:
  assumes "simulate_fill digest draw i s m = Inr oc"
  obtains (rejected) r where "oc = rejected_fill (strategy_intent_id digest i) r"
  | (filled) leg q n ref p where "find_leg s (si_instrument_id i) = Some leg" "q = quote_for m leg"
      "n = fillable_quantity m (si_quantity i) q" "0 < n" "\<not> (qt_stale q \<and> fm_reject_on_stale_quote m)"
      "reference_and_fill_price m q (si_side i) n = Inr (Some (ref, p))"
      "settle_price m i (strategy_intent_id digest i) q n ref p = Inr oc"
  using assms
  by (auto simp: simulate_fill_def Let_def bind_result_Inr_iff split: option.splits if_splits)

text \<open>
  An outcome of the simulator is a fill or a rejection, never both and never neither, and
  a fill is what was asked for: the same intent, instrument and side, a positive quantity not above
  the request, the time of the decision plus the declared latency, the flag for assumed prices
  exactly when no usable quote was observed, costs charged on its own turnover, and, for a limit
  order, exactly the limit price, which the simulated price had to reach.
\<close>

theorem fill_outcomes_lawful:
  assumes "simulate_fill digest draw i s m = Inr oc"
  shows "(fo_fill oc = None) = (fo_rejection oc \<noteq> None) \<and> fo_intent_id oc = strategy_intent_id digest i
    \<and> (\<forall>f. fo_fill oc = Some f \<longrightarrow>
         fl_intent_id f = strategy_intent_id digest i \<and> fl_instrument_id f = si_instrument_id i
         \<and> fl_side f = si_side i \<and> 0 < fl_quantity f \<and> fl_quantity f \<le> si_quantity i
         \<and> is_partial f = (fl_quantity f < si_quantity i)
         \<and> fl_filled_at f = si_decision_time i + fm_latency m
         \<and> (\<exists>leg. find_leg s (si_instrument_id i) = Some leg
              \<and> fl_assumption_based f = (\<not> (\<exists>b a. ol_bid leg = Some b \<and> ol_ask leg = Some a \<and> b \<le> a)))
         \<and> charge (fm_cost_model m) (fill_turnover f) (fl_side f = BUY) = Inr (fl_costs f)
         \<and> (si_order_type i = LIMIT \<and> si_limit_price i \<noteq> None \<longrightarrow> si_limit_price i = Some (fl_price f)))"
  using assms
proof (cases rule: simulate_fill_Inr)
  case (rejected r)
  then show ?thesis by (simp add: rejected_fill_def)
next
  case (filled leg q n ref p)
  have src: "(qt_source q = ASSUMED_SPREAD_AROUND_LTP)
      = (\<not> (\<exists>b a. ol_bid leg = Some b \<and> ol_ask leg = Some a \<and> b \<le> a))"
    unfolding filled(2) by (auto simp: quote_for_def assumed_quote_def Let_def split: option.splits)
  have n: "n \<le> si_quantity i" using filled(3) fillable_bounds(1) by simp
  from settle_price_Inr [OF filled(7)] show ?thesis
    using src n filled(1,4) by (auto simp: rejected_fill_def is_partial_def fill_turnover_def)
qed

section \<open>Slippage\<close>

lemma dval_round_to_tick:
  "round_to_tick x t = Inr y \<Longrightarrow> dval y = (if dval t \<le> 0 then dval x
     else rnd28 (half_up 0 (rnd28 (dval x / dval t)) * dval t))"
  by (auto simp: round_to_tick_def dec_le_iff quantize_half_up_def Let_def split: option.splits if_splits)

lemma round_to_tick_mono:
  assumes "dval x \<le> dval x'" "round_to_tick x t = Inr y" "round_to_tick x' t = Inr y'"
  shows "dval y \<le> dval y'"
proof (cases "dval t \<le> 0")
  case False
  then show ?thesis
    unfolding dval_round_to_tick [OF assms(2)] dval_round_to_tick [OF assms(3)]
    using assms(1) by (auto intro!: ctx.rnd_mono mult_right_mono half_up.rnd_mono divide_right_mono)
qed (use assms dval_round_to_tick in simp)

text \<open>
  Quotes whose sum and difference are exact: on a grid of \<open>k\<close> places, small enough to be doubled.
\<close>

definition quote_exact :: "nat \<Rightarrow> decimal \<Rightarrow> bool" where
  "quote_exact k d \<longleftrightarrow> exact_upto k 2 (dval d)"

lemma mid_between:
  assumes "quote_exact k bid" "quote_exact k ask" "dval bid \<le> dval ask"
  shows "dval bid \<le> dval (dec_div (bid + ask) (dec_int 2))" "dval (dec_div (bid + ask) (dec_int 2)) \<le> dval ask"
proof -
  have fixed: "rnd28 (dval x * 2) = dval x * 2" "rnd28 (dval x) = dval x" if "quote_exact k x" for x
    using exact_upto_mult [of k 2 "dval x" 2] exact_upto_mult [of k 2 "dval x" 1] that
    by (simp_all add: quote_exact_def)
  have "dval bid * 2 \<le> rnd28 (dval bid + dval ask)" "rnd28 (dval bid + dval ask) \<le> dval ask * 2"
    using ctx.sandwich [OF _ _ fixed(1) [OF assms(1)] fixed(1) [OF assms(2)], of "dval bid + dval ask"] assms(3)
    by simp_all
  then have "dval bid \<le> rnd28 (dval bid + dval ask) / 2" "rnd28 (dval bid + dval ask) / 2 \<le> dval ask" by simp_all
  then show "dval bid \<le> dval (dec_div (bid + ask) (dec_int 2))" "dval (dec_div (bid + ask) (dec_int 2)) \<le> dval ask"
    using ctx.ge_fixed [OF _ fixed(2) [OF assms(1)]] ctx.le_fixed [OF _ fixed(2) [OF assms(2)]] by simp_all
qed

lemma mid_representable: "rnd28 (dval (dec_div a b)) = dval (dec_div a b)"
  by (simp add: ctx.rnd_idem)

lemma away_from_mid:
  assumes "0 \<le> dval d" "rnd28 mid = mid"
  shows "sd = BUY \<Longrightarrow> mid \<le> rnd28 (mid + rnd28 (dval d * of_int (side_sign sd)))"
    and "sd = SELL \<Longrightarrow> rnd28 (mid + rnd28 (dval d * of_int (side_sign sd))) \<le> mid"
proof -
  have d: "0 \<le> rnd28 (dval d)" using assms(1) by (rule ctx.nonneg)
  show "sd = BUY \<Longrightarrow> mid \<le> rnd28 (mid + rnd28 (dval d * of_int (side_sign sd)))"
    using ctx.add_mono_fixed [OF assms(2) d] by (simp add: side_sign_def)
  show "sd = SELL \<Longrightarrow> rnd28 (mid + rnd28 (dval d * of_int (side_sign sd))) \<le> mid"
    using ctx.diff_mono_fixed [OF assms(2) d] by (simp add: side_sign_def ctx.rnd_minus)
qed

text \<open>The price before the tick is never on the trader's side of the mid.\<close>

lemma raw_price_against_trader:
  assumes q: "quote_exact k bid" "quote_exact k ask" "bid \<le> ask" and par: "0 \<le> dval (fm_slippage_parameter m)"
    and n: "0 \<le> n" and vol: "\<forall>v. qt_volume q = Some v \<longrightarrow> 0 \<le> v"
  defines "mid \<equiv> dec_div (bid + ask) (dec_int 2)"
  shows "if sd = BUY then dval mid \<le> dval (raw_price m q bid ask sd n) else dval (raw_price m q bid ask sd n) \<le> dval mid"
proof -
  have le: "dval bid \<le> dval ask" using q(3) by (simp add: dec_le_iff)
  note between = mid_between [OF q(1,2) le]
  have spread: "0 \<le> dval (ask - bid)" using le by (simp add: ctx.nonneg)
  have fixed: "rnd28 (dval mid) = dval mid" unfolding mid_def by (rule mid_representable)
  show ?thesis
  proof (cases "fm_slippage_model m")
    case MID
    then show ?thesis by (simp add: raw_price_def mid_def Let_def)
  next
    case TOUCH
    then show ?thesis using between by (simp add: raw_price_def mid_def Let_def)
  next
    case FRACTION_OF_SPREAD
    have "0 \<le> dval ((ask - bid) * fm_slippage_parameter m)"
      unfolding dval_times by (intro ctx.nonneg mult_nonneg_nonneg spread par)
    from away_from_mid [OF this fixed, of sd] show ?thesis
      using FRACTION_OF_SPREAD by (cases sd) (simp_all add: raw_price_def mid_def [symmetric] Let_def)
  next
    case SIZE_IMPACT
    let ?impact = "case qt_volume q of None \<Rightarrow> 0 | Some v \<Rightarrow> if v = 0 then 0
        else (ask - bid) * fm_slippage_parameter m * dec_div (dec_int n) (dec_int v)"
    have i: "0 \<le> dval ?impact"
      using vol n spread par
      by (auto split: option.split intro!: ctx.nonneg mult_nonneg_nonneg divide_nonneg_nonneg)
    have b: "0 \<le> dval (dec_div (ask - bid) (dec_int 2))"
      using spread by (auto intro!: ctx.nonneg)
    have "0 \<le> dval (dec_div (ask - bid) (dec_int 2) + ?impact)"
      unfolding dval_plus by (rule ctx.nonneg [OF add_nonneg_nonneg [OF b i]])
    from away_from_mid [OF this fixed, of sd] show ?thesis
      using SIZE_IMPACT by (cases sd) (simp_all add: raw_price_def mid_def [symmetric] Let_def)
  qed
qed

text \<open>
  Slippage never improves a price by more than the tick rounding does. Whatever the
  slippage model, over an uncrossed quote and with a nonnegative parameter a purchase is never
  priced below the mid rounded to the tick, nor a sale above it.
\<close>

theorem slippage_never_beats_rounded_mid:
  assumes "qt_bid q = Some bid" "qt_ask q = Some ask" and "bid \<le> ask"
    and "quote_exact k bid" "quote_exact k ask" and "0 \<le> dval (fm_slippage_parameter m)"
    and "0 \<le> n" and "\<forall>v. qt_volume q = Some v \<longrightarrow> 0 \<le> v"
    and "reference_and_fill_price m q sd n = Inr (Some (ref, p))"
    and "round_to_tick ref (fm_tick_size m) = Inr r"
  shows "if sd = BUY then r \<le> p else p \<le> r"
proof -
  have ref: "ref = dec_div (bid + ask) (dec_int 2)"
    and p: "round_to_tick (raw_price m q bid ask sd n) (fm_tick_size m) = Inr p"
    using assms(1,2,9) by (auto simp: reference_and_fill_price_def bind_result_Inr_iff)
  from raw_price_against_trader [OF assms(4,5,3,6,7,8), of sd] show ?thesis
    unfolding dec_le_iff
    using round_to_tick_mono [OF _ assms(10) p] round_to_tick_mono [OF _ p assms(10)]
    by (simp add: ref split: if_splits)
qed

section \<open>A small market for the witnesses\<close>

definition bare_leg :: "int \<Rightarrow> option_leg" where
  "bare_leg i = \<lparr>ol_instrument_id = i, ol_expiry_id = 1, ol_strike = Dec 100 0, ol_option_type = ''CE'',
     ol_ltp = None, ol_bid = None, ol_ask = None, ol_volume = None, ol_oi = None, ol_provider_prev_oi = None,
     ol_iv = None, ol_delta = None, ol_gamma = None, ol_theta = None, ol_vega = None,
     ol_quote_observed_at = None, ol_greeks_observed_at = None, ol_quote_age = None, ol_greeks_age = None,
     ol_quote_stale = False, ol_oi_stale = False, ol_greeks_stale = False\<rparr>"

definition quoted_leg :: "int \<Rightarrow> decimal \<Rightarrow> decimal \<Rightarrow> int \<Rightarrow> option_leg" where
  "quoted_leg i bid ask v = (bare_leg i)\<lparr>ol_bid := Some bid, ol_ask := Some ask, ol_volume := Some v\<rparr>"

definition plain_slice :: "int \<Rightarrow> option_leg list \<Rightarrow> expiry_slice" where
  "plain_slice i ls = \<lparr>es_expiry_id = i, es_expiry_date = 20000, es_legs = ls, es_surfaces = no_surfaces,
     es_aggregates = \<lparr>ea_total_call_oi = None, ea_total_put_oi = None, ea_atm_strike = None\<rparr>,
     es_missing_leg_count = 0\<rparr>"

definition market_of :: "option_leg list \<Rightarrow> market_state" where
  "market_of ls = \<lparr>mst_identity = \<lparr>id_underlying_id = 1, id_market_time = 100, id_knowledge_horizon = 100,
       id_build_context_id = ''bc''\<rparr>,
     mst_session_phase = SESSION_OPEN, mst_spot = no_spot, mst_futures = [], mst_expiries = [plain_slice 1 ls],
     mst_coherence = \<lparr>co_mode = STREAM_ONLY, co_max_component_age = None, co_chain_snapshot_ref = None,
       co_ws_merge_count = 0, co_anchor_observed_at = None\<rparr>,
     mst_quality = \<lparr>q_status = QS_OK, q_coverage_ratio = 1, q_staleness_p95 = None, q_issues = []\<rparr>,
     mst_provenance = \<lparr>pr_build_context = \<lparr>bc_builder_version = ''1'', bc_staleness_policy_version = ''1'',
         bc_feature_set_version = ''1'', bc_configuration_digest = ''d''\<rparr>,
       pr_observation_refs = [], pr_assembled_at = 100, pr_source_kinds = [''observation''],
       pr_max_input_ingested_at = None\<rparr>,
     mst_session_date = Some 19000\<rparr>"

definition free_costs :: cost_model where
  "free_costs = \<lparr>cm_name = ''free'', cm_version = 1, cm_brokerage_flat = 0, cm_brokerage_rate = 0,
     cm_stt_rate_sell = 0, cm_exchange_rate = 0, cm_gst_rate = 0, cm_stamp_duty_rate_buy = 0, cm_sebi_rate = 0\<rparr>"

definition sample_model :: "slippage_model \<Rightarrow> decimal \<Rightarrow> fill_model" where
  "sample_model sm par = \<lparr>fm_name = ''m'', fm_version = 1, fm_latency = 0, fm_slippage_model = sm,
     fm_slippage_parameter = par, fm_assumed_spread_fraction = 0, fm_partial_fills_enabled = False,
     fm_max_participation_rate = Dec 1 0, fm_rejection_rate = 0, fm_reject_on_stale_quote = True,
     fm_cost_model = free_costs, fm_tick_size = Dec (1 / 20) (- 2), fm_market_impact_enabled = False\<rparr>"

definition market_order :: "side \<Rightarrow> int \<Rightarrow> strategy_intent" where
  "market_order sd n = \<lparr>si_run_id = ''r'', si_strategy_id = ''s'', si_strategy_version = 1, si_instrument_id = 7,
     si_side = sd, si_quantity = n, si_order_type = MARKET, si_decision_time = 100, si_knowledge_horizon = 100,
     si_limit_price = None, si_reason = [], si_evidence_refs = []\<rparr>"

definition sample_fill_run ::
  "slippage_model \<Rightarrow> decimal \<Rightarrow> decimal \<Rightarrow> decimal \<Rightarrow> side \<Rightarrow> int \<Rightarrow> pricing_error + fill_outcome" where
  "sample_fill_run sm par bid ask sd n =
     simulate_fill (\<lambda>_. ''x'') (\<lambda>_. 0) (market_order sd n) (market_of [quoted_leg 7 bid ask 100]) (sample_model sm par)"

lemma sample_fill_cases:
  "(case sample_fill_run sm par bid ask sd n of Inr oc \<Rightarrow> (case fo_fill oc of Some f \<Rightarrow> P f | None \<Rightarrow> False) | Inl _ \<Rightarrow> False)
   \<Longrightarrow> \<exists>oc f. sample_fill_run sm par bid ask sd n = Inr oc \<and> fo_fill oc = Some f \<and> P f"
  by (auto split: sum.splits option.splits)

lemma sample_touch_sale:
  "\<exists>oc f. sample_fill_run TOUCH 0 (Dec 100 0) (Dec 101 0) SELL 10 = Inr oc \<and> fo_fill oc = Some f
     \<and> fl_price f = Dec 100 (- 2) \<and> fl_quantity f = 10 \<and> \<not> isl (costs_total (fl_costs f))"
proof -
  have "case sample_fill_run TOUCH 0 (Dec 100 0) (Dec 101 0) SELL 10 of
      Inr oc \<Rightarrow> (case fo_fill oc of
          Some f \<Rightarrow> fl_price f = Dec 100 (- 2) \<and> fl_quantity f = 10 \<and> \<not> isl (costs_total (fl_costs f))
        | None \<Rightarrow> False)
    | Inl _ \<Rightarrow> False"
    by code_simp
  from sample_fill_cases [OF this] show ?thesis .
qed

theorem fill_outcomes_lawful_witness:
  "\<exists>oc f. sample_fill_run TOUCH 0 (Dec 100 0) (Dec 101 0) SELL 10 = Inr oc \<and> fo_fill oc = Some f
     \<and> fl_price f = Dec 100 (- 2) \<and> fl_quantity f \<le> 10"
proof -
  obtain oc f where
    f: "sample_fill_run TOUCH 0 (Dec 100 0) (Dec 101 0) SELL 10 = Inr oc" "fo_fill oc = Some f" "fl_price f = Dec 100 (- 2)"
    using sample_touch_sale by (elim exE conjE)
  have "fl_quantity f \<le> si_quantity (market_order SELL 10)"
    using fill_outcomes_lawful [OF f(1) [unfolded sample_fill_run_def]] f(2) by blast
  then show ?thesis using f by (auto simp: market_order_def)
qed

theorem slippage_never_beats_rounded_mid_witness:
  "\<exists>p r. reference_and_fill_price (sample_model TOUCH 0)
       (quote_for (sample_model TOUCH 0) (quoted_leg 7 (Dec 100 0) (Dec 101 0) 100)) BUY 10 = Inr (Some (Dec (201 / 2) (- 1), p))
     \<and> round_to_tick (Dec (201 / 2) (- 1)) (Dec (1 / 20) (- 2)) = Inr r \<and> r \<le> p"
proof -
  let ?q = "quote_for (sample_model TOUCH 0) (quoted_leg 7 (Dec 100 0) (Dec 101 0) 100)"
  have p: "reference_and_fill_price (sample_model TOUCH 0) ?q BUY 10 = Inr (Some (Dec (201 / 2) (- 1), Dec 101 (- 2)))"
    by code_simp
  have r: "round_to_tick (Dec (201 / 2) (- 1)) (fm_tick_size (sample_model TOUCH 0)) = Inr (Dec (201 / 2) (- 2))"
    by code_simp
  have q: "qt_bid ?q = Some (Dec 100 0)" "qt_ask ?q = Some (Dec 101 0)" "\<forall>v. qt_volume ?q = Some v \<longrightarrow> 0 \<le> v"
    by (simp_all add: quote_for_def quoted_leg_def bare_leg_def dec_le_iff)
  have ex: "quote_exact 0 (Dec 100 0)" "quote_exact 0 (Dec 101 0)"
    by (simp_all add: quote_exact_def exact_upto_def on_grid_def)
  have "Dec (201 / 2) (- 2) \<le> Dec 101 (- 2)"
    using slippage_never_beats_rounded_mid [OF q(1,2) _ ex _ _ q(3) p r]
    by (simp add: dec_le_iff sample_model_def)
  then show ?thesis using p r by (auto simp: sample_model_def)
qed

text \<open>
  The tick rounding can hand out the luck the model denies itself. With a quote of 100.00
  bid and 100.04 asked and a tick of 0.05, a purchase priced at the mid of 100.02 is filled at
  100.00, on the bid: its slippage is negative.
\<close>

theorem tick_rounding_improves_price:
  "\<exists>oc f. sample_fill_run MID 0 (Dec 100 (- 2)) (Dec (10004 / 100) (- 2)) BUY 10 = Inr oc \<and> fo_fill oc = Some f
     \<and> dval (fl_price f) = 100 \<and> dval (slippage_per_unit f) < 0"
proof -
  have "case sample_fill_run MID 0 (Dec 100 (- 2)) (Dec (10004 / 100) (- 2)) BUY 10 of
      Inr oc \<Rightarrow> (case fo_fill oc of Some f \<Rightarrow> dval (fl_price f) = 100 \<and> dval (slippage_per_unit f) < 0 | None \<Rightarrow> False)
    | Inl _ \<Rightarrow> False"
    by code_simp
  from sample_fill_cases [OF this] show ?thesis .
qed

text \<open>
  A wide quote can make the simulator raise instead of returning an outcome. Selling ten
  of an option quoted 0.05 to 5.00 with a volume of one hundred under the size-impact model with
  coefficient one half prices below zero, and the cost model refuses the negative turnover.
\<close>

theorem wide_quote_raises:
  "sample_fill_run SIZE_IMPACT (Dec (1 / 2) (- 1)) (Dec (5 / 100) (- 2)) (Dec 5 (- 2)) SELL 10 = Inl NegativeTurnover
   \<and> (case quote_for (sample_model SIZE_IMPACT (Dec (1 / 2) (- 1))) (quoted_leg 7 (Dec (5 / 100) (- 2)) (Dec 5 (- 2)) 100) of
        q \<Rightarrow> qt_source q = OBSERVED_QUOTE \<and> \<not> qt_stale q)"
  by code_simp

end
