(* ===== verification/Accounts.thy ===== *)
theory Accounts
  imports Fills
begin

text \<open>
  \<^verbatim>\<open>oipulse/trading/accounts.py\<close>: the paper account's mode, lifecycle and configuration. The account
  holds no balance. The checks of the two constructors are functions to the first violated
  condition; the configuration digest is a function of the configuration.
\<close>

section \<open>Mode and lifecycle\<close>

datatype account_mode = PAPER_MODE | LIVE_MODE

datatype account_status = INITIALISED | ACTIVE | SUSPENDED | CLOSED

definition accepts_intents :: "account_status \<Rightarrow> bool" where
  "accepts_intents s \<longleftrightarrow> s = ACTIVE"

definition account_is_terminal :: "account_status \<Rightarrow> bool" where
  "account_is_terminal s \<longleftrightarrow> s = CLOSED"

fun account_transitions :: "account_status \<Rightarrow> account_status list" where
  "account_transitions INITIALISED = [ACTIVE, CLOSED]"
| "account_transitions ACTIVE = [SUSPENDED, CLOSED]"
| "account_transitions SUSPENDED = [ACTIVE, CLOSED]"
| "account_transitions CLOSED = []"

datatype account_error =
    NegativeStartingCash | NoCurrency | NonPositiveQuantityCap | NoAccountId | LiveExecutionUnavailable
  | AccountTransition account_status account_status

section \<open>Configuration and account\<close>

record account_config =
  ac_starting_cash :: decimal
  ac_currency :: string
  ac_fill_model :: fill_model
  ac_cost_model :: cost_model
  ac_reserve_cash_on_open_orders :: bool
  ac_max_order_notional :: "decimal option"
  ac_max_order_quantity :: "int option"

definition config_check :: "account_config \<Rightarrow> account_error option" where
  "config_check c =
     (if ac_starting_cash c < 0 then Some NegativeStartingCash
      else if ac_currency c = [] then Some NoCurrency
      else case ac_max_order_quantity c of
             None \<Rightarrow> None
           | Some q \<Rightarrow> if q \<le> 0 then Some NonPositiveQuantityCap else None)"

text \<open>The prefix and 24 hex digits of the hash of the whole configuration.\<close>

definition config_digest_of :: "(account_config \<Rightarrow> string) \<Rightarrow> account_config \<Rightarrow> string" where
  "config_digest_of digest c = ''cfg_'' @ take 24 (digest c)"

record paper_account =
  pa_account_id :: string
  pa_owner :: string
  pa_mode :: account_mode
  pa_config :: account_config
  pa_status :: account_status
  pa_opened_at :: "instant option"
  pa_closed_at :: "instant option"
  pa_label :: string

definition account_check :: "paper_account \<Rightarrow> account_error option" where
  "account_check a =
     (if pa_account_id a = [] then Some NoAccountId
      else if pa_mode a \<noteq> PAPER_MODE then Some LiveExecutionUnavailable
      else None)"

definition with_status :: "paper_account \<Rightarrow> account_status \<Rightarrow> instant \<Rightarrow> account_error + paper_account" where
  "with_status a s ts =
     (if s \<notin> set (account_transitions (pa_status a)) then Inl (AccountTransition (pa_status a) s)
      else
        let moved = (if s = ACTIVE \<and> pa_opened_at a = None then a\<lparr>pa_status := s, pa_opened_at := Some ts\<rparr>
                     else if s = CLOSED then a\<lparr>pa_status := s, pa_closed_at := Some ts\<rparr>
                     else a\<lparr>pa_status := s\<rparr>)
        in case account_check moved of Some e \<Rightarrow> Inl e | None \<Rightarrow> Inr moved)"

definition resolve_execution_mode :: "paper_account \<Rightarrow> account_error + account_mode" where
  "resolve_execution_mode a = (if pa_mode a \<noteq> PAPER_MODE then Inl LiveExecutionUnavailable else Inr PAPER_MODE)"

section \<open>The lifecycle\<close>

lemma with_status_Inr_iff:
  "with_status a s ts = Inr a' \<longleftrightarrow>
     s \<in> set (account_transitions (pa_status a)) \<and> pa_account_id a \<noteq> [] \<and> pa_mode a = PAPER_MODE
     \<and> a' = a\<lparr>pa_status := s,
              pa_opened_at := (if s = ACTIVE \<and> pa_opened_at a = None then Some ts else pa_opened_at a),
              pa_closed_at := (if s = CLOSED then Some ts else pa_closed_at a)\<rparr>"
  by (cases a) (auto simp: with_status_def account_check_def Let_def split: if_splits option.splits)

text \<open>Histories of status requests, refused ones included.\<close>

definition request_status :: "account_status \<times> instant \<Rightarrow> paper_account \<Rightarrow> paper_account" where
  "request_status r a = (case with_status a (fst r) (snd r) of Inl _ \<Rightarrow> a | Inr a' \<Rightarrow> a')"

definition lifecycle_ok :: "paper_account \<Rightarrow> bool" where
  "lifecycle_ok a \<longleftrightarrow> account_check a = None
     \<and> (pa_status a = INITIALISED \<longrightarrow> pa_opened_at a = None)
     \<and> (pa_status a \<in> {ACTIVE, SUSPENDED} \<longrightarrow> pa_opened_at a \<noteq> None)
     \<and> (pa_closed_at a \<noteq> None \<longleftrightarrow> pa_status a = CLOSED)"

lemma lifecycle_request: "lifecycle_ok a \<Longrightarrow> lifecycle_ok (request_status r a)"
proof (cases "with_status a (fst r) (snd r)")
  case (Inr a')
  assume "lifecycle_ok a"
  moreover have "request_status r a = a'" using Inr by (simp add: request_status_def)
  ultimately show ?thesis using Inr [unfolded with_status_Inr_iff]
    by (cases "pa_status a") (auto simp: lifecycle_ok_def account_check_def split: if_splits)
qed (simp add: request_status_def)

lemma lifecycle_requests: "lifecycle_ok a \<Longrightarrow> lifecycle_ok (fold request_status rs a)"
  by (induction rs arbitrary: a) (auto intro: lifecycle_request)

lemma closed_stays: "pa_status a = CLOSED \<Longrightarrow> fold request_status rs a = a"
  by (induction rs) (simp_all add: request_status_def with_status_def)

lemma opened_kept:
  "pa_opened_at a = Some ts \<Longrightarrow> pa_opened_at (fold request_status rs a) = Some ts"
proof (induction rs arbitrary: a)
  case (Cons r rs)
  have "pa_opened_at (request_status r a) = Some ts"
    using Cons.prems by (auto simp: request_status_def with_status_Inr_iff split: sum.split)
  then show ?case using Cons.IH by simp
qed simp

text \<open>
  An account's life is what its dates say. Through any sequence of status requests, granted
  or refused, an account stays a paper account, is dated as opened exactly once, carries a closing
  date exactly while closed, and once closed never changes again.
\<close>

theorem account_lifecycle:
  assumes "lifecycle_ok a"
  shows "lifecycle_ok (fold request_status rs a) \<and> pa_mode (fold request_status rs a) = PAPER_MODE
    \<and> (pa_status (fold request_status rs a) = CLOSED \<longrightarrow>
        fold request_status rs' (fold request_status rs a) = fold request_status rs a)
    \<and> (\<forall>ts. pa_opened_at (fold request_status rs a) = Some ts \<longrightarrow>
        pa_opened_at (fold request_status rs' (fold request_status rs a)) = Some ts)"
  using lifecycle_requests [OF assms, of rs] closed_stays opened_kept
  by (auto simp: lifecycle_ok_def account_check_def split: if_splits)

definition sample_config :: account_config where
  "sample_config = \<lparr>ac_starting_cash = Dec 400 0, ac_currency = ''INR'', ac_fill_model = sample_model TOUCH 0,
     ac_cost_model = free_costs, ac_reserve_cash_on_open_orders = True, ac_max_order_notional = None,
     ac_max_order_quantity = None\<rparr>"

definition sample_account :: paper_account where
  "sample_account = \<lparr>pa_account_id = ''acc'', pa_owner = ''me'', pa_mode = PAPER_MODE, pa_config = sample_config,
     pa_status = INITIALISED, pa_opened_at = None, pa_closed_at = None, pa_label = []\<rparr>"

theorem account_lifecycle_witness:
  "lifecycle_ok sample_account
   \<and> lifecycle_ok (fold request_status [(ACTIVE, 5), (SUSPENDED, 6), (INITIALISED, 7), (ACTIVE, 8), (CLOSED, 9)] sample_account)"
proof -
  have ok: "lifecycle_ok sample_account" by (simp add: lifecycle_ok_def account_check_def sample_account_def)
  from account_lifecycle [OF ok] show ?thesis using ok by blast
qed

end
