(* ===== verification/Ledger.thy ===== *)
theory Ledger
  imports Fills
begin

text \<open>
  \<^verbatim>\<open>oipulse/backtest/ledger.py\<close>: positions, cash and P\&L as a fold over fills. The ledger object is
  the record \<open>ledger\<close>; a method that changes it takes the ledger and returns the new one together
  with its result or the exception, as the code changes fields before the call that may raise.
\<close>

section \<open>Positions\<close>

record position =
  pos_instrument_id :: int
  pos_quantity :: int
  pos_average_price :: decimal

definition is_flat :: "position \<Rightarrow> bool" where
  "is_flat p \<longleftrightarrow> pos_quantity p = 0"

definition market_value :: "position \<Rightarrow> decimal \<Rightarrow> decimal" where
  "market_value p mark = mark * dec_int (pos_quantity p)"

definition position_pnl :: "position \<Rightarrow> decimal \<Rightarrow> decimal" where
  "position_pnl p mark = (mark - pos_average_price p) * dec_int (pos_quantity p)"

text \<open>\<open>f"{intent_id}:{quantity}:{price}"\<close>\<close>

definition fill_key :: "fill \<Rightarrow> string" where
  "fill_key f = fl_intent_id f @ '':'' @ str_int (fl_quantity f) @ '':'' @ dec_str (fl_price f)"

section \<open>The ledger\<close>

record ledger =
  lg_opening_cash :: decimal
  lg_cash :: decimal
  lg_positions :: "(int, position) dict"
  lg_realized :: decimal
  lg_fees :: decimal
  lg_slippage :: decimal
  lg_costs :: cost_breakdown
  lg_applied :: "string set"
  lg_duplicates :: int

text \<open>\<open>None\<close> is the ValueError of a negative opening balance.\<close>

definition new_ledger :: "decimal \<Rightarrow> ledger option" where
  "new_ledger opening =
     (if opening < 0 then None
      else Some \<lparr>lg_opening_cash = opening, lg_cash = opening, lg_positions = [], lg_realized = 0, lg_fees = 0,
                 lg_slippage = 0, lg_costs = no_costs, lg_applied = {}, lg_duplicates = 0\<rparr>)"

definition ledger_position :: "ledger \<Rightarrow> int \<Rightarrow> position option" where
  "ledger_position l i = dict_get (lg_positions l) i"

definition fills_applied :: "ledger \<Rightarrow> int" where
  "fills_applied l = int (card (lg_applied l))"

definition has_applied :: "ledger \<Rightarrow> fill \<Rightarrow> bool" where
  "has_applied l f \<longleftrightarrow> fill_key f \<in> lg_applied l"

definition all_positions :: "ledger \<Rightarrow> position list" where
  "all_positions l = sorted_values (lg_positions l)"

definition open_positions :: "ledger \<Rightarrow> position list" where
  "open_positions l = filter (\<lambda>p. pos_quantity p \<noteq> 0) (all_positions l)"

section \<open>Applying a fill\<close>

text \<open>\<open>_merge\<close>: what it adds to the realised P\&L, if anything, and the position it returns.\<close>

definition realized_by :: "position \<Rightarrow> int \<Rightarrow> decimal \<Rightarrow> decimal" where
  "realized_by p signed price =
     (let closing = min \<bar>signed\<bar> \<bar>pos_quantity p\<bar>;
          direction = (if 0 < pos_quantity p then 1 else - 1)
      in (price - pos_average_price p) * dec_int (closing * direction))"

definition merge_position :: "position \<Rightarrow> int \<Rightarrow> decimal \<Rightarrow> decimal option \<times> position" where
  "merge_position p signed price =
     (if (0 < pos_quantity p) = (0 < signed)
      then let total = pos_quantity p + signed;
               cost = pos_average_price p * dec_int (pos_quantity p) + price * dec_int signed
           in (None, p\<lparr>pos_quantity := total, pos_average_price := dec_div cost (dec_int total)\<rparr>)
      else
        let remaining = pos_quantity p + signed in
        (Some (realized_by p signed price),
         if remaining = 0 then p\<lparr>pos_quantity := 0, pos_average_price := 0\<rparr>
         else if (0 < remaining) = (0 < pos_quantity p) then p\<lparr>pos_quantity := remaining\<rparr>
         else p\<lparr>pos_quantity := remaining, pos_average_price := price\<rparr>))"

definition signed_fill :: "fill \<Rightarrow> int" where
  "signed_fill f = fl_quantity f * side_sign (fl_side f)"

text \<open>The position book after the cash has moved.\<close>

definition book_fill :: "ledger \<Rightarrow> fill \<Rightarrow> ledger" where
  "book_fill l f =
     (case ledger_position l (fl_instrument_id f) of
        Some p \<Rightarrow>
          if pos_quantity p = 0
          then l\<lparr>lg_positions := dict_set (fl_instrument_id f)
                   \<lparr>pos_instrument_id = fl_instrument_id f, pos_quantity = signed_fill f,
                    pos_average_price = fl_price f\<rparr> (lg_positions l)\<rparr>
          else let (r, p') = merge_position p (signed_fill f) (fl_price f)
               in l\<lparr>lg_realized := (case r of None \<Rightarrow> lg_realized l | Some x \<Rightarrow> lg_realized l + x),
                    lg_positions := dict_set (fl_instrument_id f) p' (lg_positions l)\<rparr>
      | None \<Rightarrow> l\<lparr>lg_positions := dict_set (fl_instrument_id f)
                   \<lparr>pos_instrument_id = fl_instrument_id f, pos_quantity = signed_fill f,
                    pos_average_price = fl_price f\<rparr> (lg_positions l)\<rparr>)"

text \<open>
  \<open>apply\<close>: the key is recorded and the consideration leaves the cash before the costs are summed,
  which is where the exception can come from.
\<close>

definition ledger_apply :: "ledger \<Rightarrow> fill \<Rightarrow> ledger \<times> (pricing_error + bool)" where
  "ledger_apply l f =
     (if fill_key f \<in> lg_applied l
      then (l\<lparr>lg_duplicates := lg_duplicates l + 1\<rparr>, Inr False)
      else
        let l1 = l\<lparr>lg_applied := insert (fill_key f) (lg_applied l),
                   lg_cash := lg_cash l - dec_int (signed_fill f) * fl_price f\<rparr>
        in case costs_total (fl_costs f) of
             Inl e \<Rightarrow> (l1, Inl e)
           | Inr c \<Rightarrow>
               (book_fill (l1\<lparr>lg_cash := lg_cash l1 - c, lg_fees := lg_fees l1 + c,
                              lg_costs := costs_add (lg_costs l1) (fl_costs f),
                              lg_slippage := lg_slippage l1 + slippage_per_unit f * dec_int (fl_quantity f)\<rparr>) f,
                Inr True))"

primrec ledger_apply_all :: "ledger \<Rightarrow> fill list \<Rightarrow> ledger \<times> (pricing_error + int)" where
  "ledger_apply_all l [] = (l, Inr 0)"
| "ledger_apply_all l (f # fs) =
     (case ledger_apply l f of
        (l', Inl e) \<Rightarrow> (l', Inl e)
      | (l', Inr b) \<Rightarrow>
          (case ledger_apply_all l' fs of
             (l'', Inl e) \<Rightarrow> (l'', Inl e)
           | (l'', Inr n) \<Rightarrow> (l'', Inr ((if b then 1 else 0) + n))))"

section \<open>Snapshots\<close>

record ledger_snapshot =
  ls_as_of :: instant
  ls_cash :: decimal
  ls_positions :: "position list"
  ls_realized_pnl :: decimal
  ls_fees :: decimal
  ls_slippage_cost :: decimal
  ls_unrealized_pnl :: decimal
  ls_unmarked_instruments :: "int list"
  ls_fills_applied :: int

definition gross_pnl :: "ledger_snapshot \<Rightarrow> decimal" where
  "gross_pnl s = ls_realized_pnl s + ls_unrealized_pnl s"

definition net_pnl :: "ledger_snapshot \<Rightarrow> decimal" where
  "net_pnl s = gross_pnl s - ls_fees s"

definition equity :: "ledger_snapshot \<Rightarrow> decimal" where
  "equity s = ls_cash s + dec_sum (map (\<lambda>p. pos_average_price p * dec_int (pos_quantity p)) (ls_positions s))
     + ls_unrealized_pnl s"

text \<open>One turn of the marking loop over the running sum and the unmarked instruments.\<close>

definition mark_position ::
  "(int, decimal) dict \<Rightarrow> position \<Rightarrow> decimal \<times> int list \<Rightarrow> decimal \<times> int list" where
  "mark_position marks p = (\<lambda>(u, un).
     case dict_get marks (pos_instrument_id p) of
       None \<Rightarrow> (u, un @ [pos_instrument_id p])
     | Some mark \<Rightarrow> (u + position_pnl p mark, un))"

definition ledger_snapshot_at :: "ledger \<Rightarrow> instant \<Rightarrow> (int, decimal) dict \<Rightarrow> ledger_snapshot" where
  "ledger_snapshot_at l as_of' marks =
     (let (u, un) = fold (mark_position marks) (open_positions l) (0, []) in
      \<lparr>ls_as_of = as_of', ls_cash = lg_cash l, ls_positions = open_positions l,
       ls_realized_pnl = lg_realized l, ls_fees = lg_fees l, ls_slippage_cost = lg_slippage l,
       ls_unrealized_pnl = u, ls_unmarked_instruments = un, ls_fills_applied = fills_applied l\<rparr>)"

section \<open>Folds that ignore what they have seen\<close>

text \<open>
  The contract behind idempotent application: a state that remembers keys, and a step that leaves
  everything but its bookkeeping alone for a key it has seen. \<open>core\<close> is what the client cares about.
\<close>

locale once_fold =
  fixes key :: "'f \<Rightarrow> 'k" and seen :: "'s \<Rightarrow> 'k set" and core :: "'s \<Rightarrow> 'c" and step :: "'f \<Rightarrow> 's \<Rightarrow> 's"
  assumes seen_step: "seen (step f s) = insert (key f) (seen s)"
    and core_seen: "key f \<in> seen s \<Longrightarrow> core (step f s) = core s"
    and core_cong: "core s = core t \<Longrightarrow> seen s = seen t \<Longrightarrow> core (step f s) = core (step f t)"
begin

fun first_of_key :: "'k set \<Rightarrow> 'f list \<Rightarrow> 'f list" where
  "first_of_key ks [] = []"
| "first_of_key ks (f # fs) =
     (if key f \<in> ks then first_of_key ks fs else f # first_of_key (insert (key f) ks) fs)"

lemma seen_fold: "seen (fold step fs s) = seen s \<union> key ` set fs"
  by (induction fs arbitrary: s) (auto simp: seen_step)

lemma core_fold_cong:
  "core s = core t \<Longrightarrow> seen s = seen t \<Longrightarrow> core (fold step fs s) = core (fold step fs t)"
proof (induction fs arbitrary: s t)
  case (Cons f fs)
  have "core (step f s) = core (step f t)" by (rule core_cong) (rule Cons.prems)+
  moreover have "seen (step f s) = seen (step f t)" by (simp add: seen_step Cons.prems(2))
  ultimately have "core (fold step fs (step f s)) = core (fold step fs (step f t))" by (rule Cons.IH)
  then show ?case by simp
qed simp

text \<open>Repeated deliveries do not matter.\<close>

lemma core_first_of_key: "core (fold step fs s) = core (fold step (first_of_key (seen s) fs) s)"
proof (induction fs arbitrary: s)
  case (Cons f fs)
  show ?case
  proof (cases "key f \<in> seen s")
    case True
    have "core (fold step fs (step f s)) = core (fold step fs s)"
      by (rule core_fold_cong) (use True core_seen seen_step in auto)
    then show ?thesis using Cons True by simp
  next
    case False
    then show ?thesis using Cons [of "step f s"] by (simp add: seen_step)
  qed
qed simp

lemma core_replay: "key ` set fs \<subseteq> seen s \<Longrightarrow> core (fold step fs s) = core s"
proof (induction fs arbitrary: s)
  case (Cons f fs)
  have "core (fold step fs (step f s)) = core (step f s)"
    by (rule Cons.IH) (use Cons.prems in \<open>auto simp: seen_step\<close>)
  then show ?case using Cons.prems core_seen [of f s] by simp
qed simp

end

section \<open>Delivery at least once\<close>

text \<open>
  The ledger after a sequence of deliveries, whether each of them returned or raised, and what of it
  the book means: everything but the count of ignored duplicates.
\<close>

definition deliver :: "fill \<Rightarrow> ledger \<Rightarrow> ledger" where
  "deliver f l = fst (ledger_apply l f)"

definition book_of :: "ledger \<Rightarrow> ledger" where
  "book_of l = l\<lparr>lg_duplicates := 0\<rparr>"

lemma applied_book_fill [simp]: "lg_applied (book_fill l f) = lg_applied l"
  by (simp add: book_fill_def split: option.split prod.split)

lemma duplicates_book_fill [simp]: "lg_duplicates (book_fill l f) = lg_duplicates l"
  by (simp add: book_fill_def split: option.split prod.split)

lemma applied_ledger_apply: "lg_applied (fst (ledger_apply l f)) = insert (fill_key f) (lg_applied l)"
  by (auto simp: ledger_apply_def Let_def split: sum.split)

lemma book_fill_duplicates: "book_fill (l\<lparr>lg_duplicates := n\<rparr>) f = (book_fill l f)\<lparr>lg_duplicates := n\<rparr>"
  by (simp add: book_fill_def ledger_position_def split: option.split prod.split)

lemma ledger_apply_duplicates:
  "book_of (fst (ledger_apply (l\<lparr>lg_duplicates := n\<rparr>) f)) = book_of (fst (ledger_apply l f))"
  by (simp add: ledger_apply_def Let_def book_of_def flip: book_fill_duplicates split: sum.split)

lemma book_of_eqE: "book_of l = book_of l' \<Longrightarrow> l' = l\<lparr>lg_duplicates := lg_duplicates l'\<rparr>"
  by (cases l; cases l') (simp add: book_of_def)

interpretation book: once_fold fill_key lg_applied book_of deliver
proof
  fix f l l'
  show "lg_applied (deliver f l) = insert (fill_key f) (lg_applied l)"
    by (simp add: deliver_def applied_ledger_apply)
  show "book_of (deliver f l) = book_of l" if "fill_key f \<in> lg_applied l"
    using that by (simp add: deliver_def ledger_apply_def book_of_def)
  show "book_of (deliver f l) = book_of (deliver f l')" if "book_of l = book_of l'" "lg_applied l = lg_applied l'"
    using ledger_apply_duplicates [where l = l and n = "lg_duplicates l'" and f = f] book_of_eqE [OF that(1)]
    by (simp add: deliver_def)
qed

text \<open>The fills that reach the book: the first delivery of each key not applied before.\<close>

fun fresh_fills :: "string set \<Rightarrow> fill list \<Rightarrow> fill list" where
  "fresh_fills ks [] = []"
| "fresh_fills ks (f # fs) =
     (if fill_key f \<in> ks then fresh_fills ks fs else f # fresh_fills (insert (fill_key f) ks) fs)"

lemma fresh_fills_first: "fresh_fills ks fs = book.first_of_key ks fs"
  by (induction fs arbitrary: ks) simp_all

lemma duplicates_deliver:
  "lg_duplicates (deliver f l) = lg_duplicates l + (if fill_key f \<in> lg_applied l then 1 else 0)"
  by (simp add: deliver_def ledger_apply_def Let_def split: sum.split)

lemma duplicates_fold:
  "lg_duplicates (fold deliver fs l) = lg_duplicates l + int (length fs) - int (length (fresh_fills (lg_applied l) fs))"
  by (induction fs arbitrary: l) (auto simp: duplicates_deliver book.seen_step insert_absorb)

text \<open>
  Delivery is idempotent. However often and in whatever order fills are delivered again,
  the book - cash, positions, realised P\&L, fees, costs, slippage and the applied set - is the one
  the first deliveries alone produce, and every further delivery is counted as a duplicate.
\<close>

theorem ledger_redelivery:
  "book_of (fold deliver fs l) = book_of (fold deliver (fresh_fills (lg_applied l) fs) l)
   \<and> lg_duplicates (fold deliver fs l)
      = lg_duplicates l + int (length fs) - int (length (fresh_fills (lg_applied l) fs))"
  unfolding duplicates_fold fresh_fills_first using book.core_first_of_key by blast

end
