(* ===== verification/Ledger_Guarantees.thy ===== *)
theory Ledger_Guarantees
  imports Ledger
begin

text \<open>
  What the fold of \<^verbatim>\<open>backtest/ledger.py\<close> guarantees: positions are sums of signed fills, cash is
  conserved to the paisa, the cost basis stays inside the range of traded prices, and the accounting
  identity holds up to the rounding of the decimal context.
\<close>

section \<open>Positions are folds\<close>

definition position_quantity :: "ledger \<Rightarrow> int \<Rightarrow> int" where
  "position_quantity l i = (case ledger_position l i of None \<Rightarrow> 0 | Some p \<Rightarrow> pos_quantity p)"

lemma quantity_merge [simp]: "pos_quantity (snd (merge_position p s x)) = pos_quantity p + s"
  by (simp add: merge_position_def Let_def)

lemma position_book_fill:
  "ledger_position (book_fill l f) i =
     (if i = fl_instrument_id f
      then Some (case ledger_position l i of
          Some p \<Rightarrow> if pos_quantity p = 0
                    then \<lparr>pos_instrument_id = i, pos_quantity = signed_fill f, pos_average_price = fl_price f\<rparr>
                    else snd (merge_position p (signed_fill f) (fl_price f))
        | None \<Rightarrow> \<lparr>pos_instrument_id = i, pos_quantity = signed_fill f, pos_average_price = fl_price f\<rparr>)
      else ledger_position l i)"
  by (auto simp: book_fill_def ledger_position_def split: option.split prod.split)

lemma quantity_book_fill:
  "position_quantity (book_fill l f) i = position_quantity l i + (if fl_instrument_id f = i then signed_fill f else 0)"
  by (auto simp: position_quantity_def position_book_fill split: option.split)

text \<open>A returning call, seen through the fields the guarantees are about.\<close>

lemma ledger_apply_fresh:
  assumes "ledger_apply l f = (l', Inr True)"
  obtains c where "fill_key f \<notin> lg_applied l" "costs_total (fl_costs f) = Inr c"
    "lg_applied l' = insert (fill_key f) (lg_applied l)"
    "lg_cash l' = lg_cash l - dec_int (signed_fill f) * fl_price f - c"
    "lg_fees l' = lg_fees l + c"
    "\<And>i. ledger_position l' i = ledger_position (book_fill l f) i"
    "lg_realized l' = lg_realized (book_fill l f)"
    "lg_positions l' = lg_positions (book_fill l f)"
    "lg_opening_cash l' = lg_opening_cash l"
proof -
  from assms obtain c where c: "fill_key f \<notin> lg_applied l" "costs_total (fl_costs f) = Inr c"
    by (auto simp: ledger_apply_def Let_def split: if_splits sum.splits)
  with assms have l': "l' = book_fill (l\<lparr>lg_applied := insert (fill_key f) (lg_applied l),
      lg_cash := lg_cash l - dec_int (signed_fill f) * fl_price f - c, lg_fees := lg_fees l + c,
      lg_costs := costs_add (lg_costs l) (fl_costs f),
      lg_slippage := lg_slippage l + slippage_per_unit f * dec_int (fl_quantity f)\<rparr>) f"
    by (simp add: ledger_apply_def Let_def)
  show thesis
    by (rule that [OF c])
      (simp_all add: l' book_fill_def ledger_position_def split: option.split prod.split)
qed

lemma ledger_apply_duplicate:
  "ledger_apply l f = (l', Inr False) \<Longrightarrow> fill_key f \<in> lg_applied l \<and> l' = l\<lparr>lg_duplicates := lg_duplicates l + 1\<rparr>"
  by (auto simp: ledger_apply_def Let_def split: if_splits sum.splits)

lemma run_cases_ledger:
  assumes "ledger_apply_all l (f # fs) = (l', Inr n)"
  obtains l1 b m where "ledger_apply l f = (l1, Inr b)" "ledger_apply_all l1 fs = (l', Inr m)"
    "n = (if b then 1 else 0) + m"
  using assms by (auto split: prod.splits sum.splits)

text \<open>
  Induction over the calls that return: \<open>P\<close> relates a ledger, the deliveries and the ledger after them.
\<close>

lemma ledger_run_induct [consumes 1, case_names none duplicate fresh]:
  assumes "ledger_apply_all l fs = (l', Inr n)"
    and "\<And>l. P l [] l 0"
    and "\<And>l f fs l' n. fill_key f \<in> lg_applied l \<Longrightarrow>
      P (l\<lparr>lg_duplicates := lg_duplicates l + 1\<rparr>) fs l' n \<Longrightarrow> P l (f # fs) l' n"
    and "\<And>l f fs l1 l' n. fill_key f \<notin> lg_applied l \<Longrightarrow> ledger_apply l f = (l1, Inr True) \<Longrightarrow>
      P l1 fs l' n \<Longrightarrow> P l (f # fs) l' (n + 1)"
  shows "P l fs l' n"
  using assms(1)
proof (induction fs arbitrary: l n)
  case Nil
  then show ?case using assms(2) by simp
next
  case (Cons f fs)
  from Cons.prems obtain l1 b m where r: "ledger_apply l f = (l1, Inr b)" "ledger_apply_all l1 fs = (l', Inr m)"
    "n = (if b then 1 else 0) + m" by (rule run_cases_ledger)
  show ?case
  proof (cases b)
    case True
    then have s: "ledger_apply l f = (l1, Inr True)" using r(1) by simp
    then have "fill_key f \<notin> lg_applied l" by (rule ledger_apply_fresh)
    from assms(4) [OF this s Cons.IH [OF r(2)]] show ?thesis using r(3) True by (simp add: add.commute)
  next
    case False
    then have "fill_key f \<in> lg_applied l" "l1 = l\<lparr>lg_duplicates := lg_duplicates l + 1\<rparr>"
      using r(1) ledger_apply_duplicate by simp_all
    then show ?thesis using assms(3) Cons.IH [OF r(2)] r(3) False by simp
  qed
qed

lemma ledger_apply_returns:
  "\<exists>c. costs_total (fl_costs f) = Inr c \<Longrightarrow> \<exists>l1 b. ledger_apply l f = (l1, Inr b)"
  by (auto simp: ledger_apply_def Let_def)

lemma ledger_apply_all_returns:
  "\<forall>f\<in>set fs. \<exists>c. costs_total (fl_costs f) = Inr c \<Longrightarrow> \<exists>l' n. ledger_apply_all l fs = (l', Inr n)"
proof (induction fs arbitrary: l)
  case (Cons f fs)
  then have "\<exists>l1 b. ledger_apply l f = (l1, Inr b)" using ledger_apply_returns by simp
  then obtain l1 b where "ledger_apply l f = (l1, Inr b)" by blast
  moreover obtain l' n where "ledger_apply_all l1 fs = (l', Inr n)" using Cons by fastforce
  ultimately show ?case by simp
qed simp

lemma position_duplicates [simp]: "ledger_position (l\<lparr>lg_duplicates := n\<rparr>) i = ledger_position l i"
  by (simp add: ledger_position_def)

lemma quantity_duplicates [simp]: "position_quantity (l\<lparr>lg_duplicates := n\<rparr>) i = position_quantity l i"
  by (simp add: position_quantity_def)

lemma quantity_apply_fresh:
  "ledger_apply l f = (l', Inr True) \<Longrightarrow>
   position_quantity l' i = position_quantity l i + (if fl_instrument_id f = i then signed_fill f else 0)"
proof (erule ledger_apply_fresh)
  assume "\<And>i. ledger_position l' i = ledger_position (book_fill l f) i"
  then have "position_quantity l' i = position_quantity (book_fill l f) i" by (simp add: position_quantity_def)
  then show ?thesis by (simp add: quantity_book_fill)
qed

text \<open>
  A position is a fold over its fills. When a batch of deliveries returns, the quantity held
  in any instrument is what was held before plus the signed quantities of the first deliveries in
  that instrument, and the number returned is the number of first deliveries.
\<close>

theorem positions_are_folds:
  assumes "ledger_apply_all l fs = (l', Inr n)"
  shows "position_quantity l' i = position_quantity l i
       + sum_list (map signed_fill (filter (\<lambda>f. fl_instrument_id f = i) (fresh_fills (lg_applied l) fs)))
     \<and> n = int (length (fresh_fills (lg_applied l) fs))"
  using assms
proof (induction rule: ledger_run_induct)
  case (fresh l f fs l1 l' n)
  then have "lg_applied l1 = insert (fill_key f) (lg_applied l)"
    using applied_ledger_apply [of l f] by simp
  then show ?case using fresh by (simp add: quantity_apply_fresh)
qed simp_all

section \<open>Cash\<close>

definition fill_cost :: "fill \<Rightarrow> rat" where
  "fill_cost f = (case costs_total (fl_costs f) of Inl _ \<Rightarrow> 0 | Inr c \<Rightarrow> dval c)"

definition consideration :: "fill \<Rightarrow> rat" where
  "consideration f = of_int (signed_fill f) * dval (fl_price f)"

definition turnover_bound :: "fill list \<Rightarrow> rat" where
  "turnover_bound fs = sum_list (map (\<lambda>f. \<bar>consideration f\<bar> + \<bar>fill_cost f\<bar>) fs)"

lemma turnover_bound_simps [simp]:
  "turnover_bound [] = 0"
  "turnover_bound (f # fs) = \<bar>consideration f\<bar> + \<bar>fill_cost f\<bar> + turnover_bound fs"
  by (simp_all add: turnover_bound_def)

lemma turnover_bound_nonneg: "0 \<le> turnover_bound fs"
  by (induction fs) simp_all

lemma costs_total_grid: "costs_total b = Inr c \<Longrightarrow> on_grid 2 (dval c)"
  by (auto simp: costs_total_def round_paise_Inr_iff)

lemma rupees_exact: "on_grid 2 x \<Longrightarrow> \<bar>x\<bar> \<le> 10 ^ 25 \<Longrightarrow> rnd28 x = x"
  by (rule rnd28_grid [of 2]) simp_all

lemma cash_apply_fresh:
  assumes s: "ledger_apply l f = (l', Inr True)"
    and grid: "on_grid 2 (dval (lg_cash l))" "on_grid 2 (dval (fl_price f))"
    and small: "\<bar>dval (lg_cash l)\<bar> + \<bar>consideration f\<bar> + \<bar>fill_cost f\<bar> \<le> 10 ^ 25"
  shows "dval (lg_cash l') = dval (lg_cash l) - (consideration f + fill_cost f) \<and> on_grid 2 (dval (lg_cash l'))"
  using s
proof (rule ledger_apply_fresh)
  fix c
  let ?c = "dval (lg_cash l)"
  assume c: "costs_total (fl_costs f) = Inr c"
    and cash: "lg_cash l' = lg_cash l - dec_int (signed_fill f) * fl_price f - c"
  have cost: "fill_cost f = dval c" "on_grid 2 (fill_cost f)"
    using c costs_total_grid [OF c] by (simp_all add: fill_cost_def)
  have con: "on_grid 2 (consideration f)"
    unfolding consideration_def by (rule on_grid_int_mult) (rule grid)
  have g: "on_grid 2 (?c - consideration f)" "on_grid 2 (?c - consideration f - fill_cost f)"
    using grid(1) con cost(2) by (auto intro: on_grid_diff)
  have 1: "rnd28 (of_int (signed_fill f) * dval (fl_price f)) = consideration f"
    using rupees_exact [OF con] small by (simp add: consideration_def [symmetric])
  have 2: "rnd28 (?c - consideration f) = ?c - consideration f"
    using rupees_exact [OF g(1)] small by linarith
  have 3: "rnd28 (?c - consideration f - fill_cost f) = ?c - consideration f - fill_cost f"
    using rupees_exact [OF g(2)] small by linarith
  show ?thesis using g(2) by (simp add: cash 1 2 3 flip: cost(1))
qed

text \<open>
  Claim C18: cash is conserved to the paisa. With prices and cash in whole paise and a total turnover
  below \<open>10 ^ 25\<close>, a batch of deliveries that returns moves the cash by exactly the consideration and
  the costs of the first deliveries: no rounding of the decimal context is ever reached.
\<close>

theorem cash_conserved:
  assumes "ledger_apply_all l fs = (l', Inr n)"
    and "on_grid 2 (dval (lg_cash l))" and "\<forall>f\<in>set fs. on_grid 2 (dval (fl_price f))"
    and "\<bar>dval (lg_cash l)\<bar> + turnover_bound fs \<le> 10 ^ 25"
  shows "dval (lg_cash l') = dval (lg_cash l)
    - sum_list (map (\<lambda>f. consideration f + fill_cost f) (fresh_fills (lg_applied l) fs))"
  using assms
proof (induction rule: ledger_run_induct)
  case (duplicate l f fs l' n)
  then show ?case by simp
next
  case (fresh l f fs l1 l' n)
  have app: "lg_applied l1 = insert (fill_key f) (lg_applied l)"
    using fresh.hyps(2) applied_ledger_apply [of l f] by simp
  have small: "\<bar>dval (lg_cash l)\<bar> + \<bar>consideration f\<bar> + \<bar>fill_cost f\<bar> \<le> 10 ^ 25"
    using fresh.prems(3) turnover_bound_nonneg [of fs] by simp
  have "on_grid 2 (dval (lg_cash l))" "on_grid 2 (dval (fl_price f))" using fresh.prems by simp_all
  note step = cash_apply_fresh [OF fresh.hyps(2) this small, THEN conjunct1]
    cash_apply_fresh [OF fresh.hyps(2) this small, THEN conjunct2]
  have "\<bar>dval (lg_cash l1)\<bar> + turnover_bound fs \<le> 10 ^ 25"
    using fresh.prems(3) unfolding step(1) turnover_bound_simps by linarith
  from fresh.IH [OF step(2) _ this] fresh.prems(2) show ?case
    using fresh.hyps(1) by (simp add: app step(1))
qed simp

section \<open>The cost basis\<close>

definition basis_within :: "rat \<Rightarrow> rat \<Rightarrow> ledger \<Rightarrow> bool" where
  "basis_within lo hi l \<longleftrightarrow> (\<forall>i p. ledger_position l i = Some p \<longrightarrow> pos_quantity p \<noteq> 0 \<longrightarrow>
     lo \<le> dval (pos_average_price p) \<and> dval (pos_average_price p) \<le> hi)"

lemma signed_fill_abs [simp]: "\<bar>signed_fill f\<bar> = \<bar>fl_quantity f\<bar>"
  by (cases "fl_side f") (simp_all add: signed_fill_def)

lemma merge_basis_between:
  assumes ex: "exact_upto k n lo" "exact_upto k n hi"
    and avg: "lo \<le> dval (pos_average_price p)" "dval (pos_average_price p) \<le> hi"
    and pr: "lo \<le> dval x" "dval x \<le> hi"
    and q: "pos_quantity p \<noteq> 0" "s \<noteq> 0" "\<bar>pos_quantity p\<bar> + \<bar>s\<bar> \<le> n"
  shows "lo \<le> dval (pos_average_price (snd (merge_position p s x))) \<or> pos_quantity (snd (merge_position p s x)) = 0"
    and "dval (pos_average_price (snd (merge_position p s x))) \<le> hi \<or> pos_quantity (snd (merge_position p s x)) = 0"
proof -
  let ?a = "dval (pos_average_price p)" and ?q = "pos_quantity p"
  have neg: "rnd28 (rnd28 (rnd28 (?a * of_int ?q) + rnd28 (dval x * of_int s)) / of_int (?q + s))
    = rnd28 (rnd28 (rnd28 (?a * of_int (- ?q)) + rnd28 (dval x * of_int (- s))) / of_int (- ?q + - s))"
  proof -
    define u where "u = rnd28 (?a * of_int ?q)"
    define v where "v = rnd28 (dval x * of_int s)"
    have u: "rnd28 (?a * of_int (- ?q)) = - u" and v: "rnd28 (dval x * of_int (- s)) = - v"
      by (simp_all add: u_def v_def ctx.rnd_minus)
    have "- u + - v = - (u + v)" by simp
    then have "rnd28 (- u + - v) = - rnd28 (u + v)" by (simp only: ctx.rnd_minus)
    moreover have "(of_int (- ?q + - s) :: rat) = - of_int (?q + s)" by simp
    ultimately show ?thesis
      unfolding u v unfolding u_def [symmetric] v_def [symmetric] by (simp only: minus_divide_divide)
  qed
  have "lo \<le> dval (pos_average_price (snd (merge_position p s x)))
      \<and> dval (pos_average_price (snd (merge_position p s x))) \<le> hi"
    if same: "(0 < ?q) = (0 < s)"
  proof (cases "0 < ?q")
    case True
    then show ?thesis
      using rounded_average_between [OF ex, of ?q ?a "dval x" s] avg pr q same
      by (simp add: merge_position_def Let_def)
  next
    case False
    have m: "dval (pos_average_price (snd (merge_position p s x)))
        = rnd28 (rnd28 (rnd28 (?a * of_int ?q) + rnd28 (dval x * of_int s)) / of_int (?q + s))"
      using same by (simp add: merge_position_def Let_def)
    show ?thesis
      unfolding m neg by (intro conjI rounded_average_between [OF ex]) (use False avg pr q same in auto)
  qed
  then show "lo \<le> dval (pos_average_price (snd (merge_position p s x))) \<or> pos_quantity (snd (merge_position p s x)) = 0"
    "dval (pos_average_price (snd (merge_position p s x))) \<le> hi \<or> pos_quantity (snd (merge_position p s x)) = 0"
    using avg pr by (auto simp: merge_position_def Let_def)
qed

lemma basis_apply_fresh:
  assumes s: "ledger_apply l f = (l', Inr True)"
    and ex: "exact_upto k n lo" "exact_upto k n hi" and w: "basis_within lo hi l"
    and pr: "lo \<le> dval (fl_price f)" "dval (fl_price f) \<le> hi"
    and q: "0 < fl_quantity f" "\<And>i. \<bar>position_quantity l i\<bar> + fl_quantity f \<le> n"
  shows "basis_within lo hi l'"
  unfolding basis_within_def
proof (intro allI impI)
  fix i p'
  assume p': "ledger_position l' i = Some p'" "pos_quantity p' \<noteq> 0"
  from s have eq: "ledger_position l' i = ledger_position (book_fill l f) i" by (rule ledger_apply_fresh) blast
  have s0: "signed_fill f \<noteq> 0" "\<bar>signed_fill f\<bar> = fl_quantity f"
    using q(1) by (simp_all add: signed_fill_def side_sign_def split: side.split)
  consider (other) "ledger_position l i = Some p'" | (opened) "pos_average_price p' = fl_price f"
    | (merged) p where "ledger_position l i = Some p" "pos_quantity p \<noteq> 0"
      "p' = snd (merge_position p (signed_fill f) (fl_price f))"
    using p'(1) unfolding eq position_book_fill by (auto split: if_splits option.splits)
  then show "lo \<le> dval (pos_average_price p') \<and> dval (pos_average_price p') \<le> hi"
  proof cases
    case merged
    have "\<bar>pos_quantity p\<bar> + \<bar>signed_fill f\<bar> \<le> n"
      using q(2) [of i] merged(1) s0(2) by (simp add: position_quantity_def)
    moreover have "lo \<le> dval (pos_average_price p)" "dval (pos_average_price p) \<le> hi"
      using w merged(1,2) by (auto simp: basis_within_def)
    ultimately show ?thesis
      using merge_basis_between [OF ex _ _ pr merged(2) s0(1)] p'(2) merged(3) by blast
  qed (use w p'(2) pr in \<open>auto simp: basis_within_def\<close>)
qed

text \<open>
  The cost basis never leaves the range of traded prices. If every fill of a batch is
  priced between two representable bounds, so is the average price of every open position, whatever
  was added, reduced, closed or reversed, and although every average is rounded.
\<close>

theorem basis_in_traded_range:
  assumes "ledger_apply_all l fs = (l', Inr m)"
    and "exact_upto k n lo" "exact_upto k n hi" and "basis_within lo hi l"
    and "\<forall>f\<in>set fs. 0 < fl_quantity f \<and> lo \<le> dval (fl_price f) \<and> dval (fl_price f) \<le> hi"
    and "\<forall>i. \<bar>position_quantity l i\<bar> + sum_list (map fl_quantity fs) \<le> n"
  shows "basis_within lo hi l'"
  using assms(1,4-)
proof (induction rule: ledger_run_induct)
  case (duplicate l f fs l' m)
  have "\<forall>i. \<bar>position_quantity l i\<bar> + sum_list (map fl_quantity fs) \<le> n"
  proof
    fix i
    have "\<bar>position_quantity l i\<bar> + (fl_quantity f + sum_list (map fl_quantity fs)) \<le> n" "0 < fl_quantity f"
      using duplicate.prems(2,3) by simp_all
    then show "\<bar>position_quantity l i\<bar> + sum_list (map fl_quantity fs) \<le> n" by linarith
  qed
  then show ?case using duplicate by (simp add: basis_within_def)
next
  case (fresh l f fs l1 l' m)
  have pos: "0 \<le> sum_list (map fl_quantity fs)"
    using fresh.prems(2) by (intro sum_list_nonneg) auto
  have room: "\<bar>position_quantity l i\<bar> + fl_quantity f \<le> n" for i
  proof -
    have "\<bar>position_quantity l i\<bar> + (fl_quantity f + sum_list (map fl_quantity fs)) \<le> n"
      using fresh.prems(3) by simp
    with pos show ?thesis by linarith
  qed
  have w: "basis_within lo hi l1"
    by (rule basis_apply_fresh [OF fresh.hyps(2) assms(2,3) fresh.prems(1)])
      (use fresh.prems(2) room in simp_all)
  have "\<bar>position_quantity l1 i\<bar> + sum_list (map fl_quantity fs) \<le> n" for i
  proof -
    have "\<bar>position_quantity l1 i\<bar> \<le> \<bar>position_quantity l i\<bar> + \<bar>signed_fill f\<bar>"
      using quantity_apply_fresh [OF fresh.hyps(2), of i] abs_triangle_ineq [of "position_quantity l i" "signed_fill f"]
      by (simp del: signed_fill_abs)
    moreover have "\<bar>position_quantity l i\<bar> + (fl_quantity f + sum_list (map fl_quantity fs)) \<le> n"
      using fresh.prems(3) by simp
    moreover have "0 < fl_quantity f" using fresh.prems(2) by simp
    ultimately show ?thesis by simp
  qed
  then show ?case using fresh.IH [OF w] fresh.prems(2) by simp
qed simp

section \<open>The accounting identity\<close>

text \<open>How far a rounding moves a value.\<close>

lemma rnd28_error: "\<bar>rnd28 x - x\<bar> \<le> \<bar>x\<bar> / 10 ^ 27"
proof (cases "x = 0")
  case False
  let ?u = "ulp 10 28 x"
  have u: "0 < ?u" by (rule ulp_pos) simp
  have "\<bar>of_int (round_half_even (x / ?u)) - x / ?u\<bar> \<le> 1"
    using round_half_even_bounds [of "x / ?u"] by linarith
  then have "\<bar>of_int (round_half_even (x / ?u)) - x / ?u\<bar> * ?u \<le> 1 * ?u"
    using u by (intro mult_right_mono) simp_all
  moreover have "rnd28 x - x = (of_int (round_half_even (x / ?u)) - x / ?u) * ?u"
    using False u by (simp add: rnd28_def rnd_sig_nonzero left_diff_distrib)
  ultimately have "\<bar>rnd28 x - x\<bar> \<le> ?u" using u by (simp add: abs_mult)
  moreover have "?u * 10 ^ 27 \<le> \<bar>x\<bar>"
  proof -
    have "(10 :: rat) powi adj 10 x = 10 powi (adj 10 x - 27) * 10 powi 27"
      using powi_split [of 10 "adj 10 x - 27" 27] by simp
    then show ?thesis using adj_bounds(1) [of 10 x] False by (simp add: ulp_def)
  qed
  ultimately show ?thesis by (simp add: field_simps)
qed simp

lemma rnd28_error_le: "\<bar>x\<bar> \<le> b \<Longrightarrow> \<bar>rnd28 x - x\<bar> \<le> b / 10 ^ 27"
  using rnd28_error [of x] divide_right_mono [of "\<bar>x\<bar>" b "10 ^ 27"] by simp

lemma relative_error_after:
  assumes "\<bar>z - y\<bar> \<le> \<bar>y\<bar> / 10 ^ 27" "\<bar>y - x\<bar> \<le> e" "\<bar>x\<bar> \<le> (b :: rat)"
  shows "\<bar>z - x\<bar> \<le> e + (b + e) / 10 ^ 27"
proof -
  have "\<bar>y\<bar> \<le> b + e" using assms by linarith
  then have "\<bar>y\<bar> / 10 ^ 27 \<le> (b + e) / 10 ^ 27" by (rule divide_right_mono) simp
  with assms(1,2) show ?thesis by linarith
qed

lemmas rnd28_error_after = relative_error_after [OF rnd28_error]

lemma add_errors: "\<bar>a - b\<bar> \<le> e \<Longrightarrow> \<bar>c - d\<bar> \<le> e' \<Longrightarrow> \<bar>(a + c) - (b + d)\<bar> \<le> e + (e' :: rat)"
  by linarith

text \<open>The marked value of the book at cost, and what it is off by.\<close>

definition book_basis :: "ledger \<Rightarrow> rat" where
  "book_basis l = sum_list (map (\<lambda>e. dval (pos_average_price (snd e)) * of_int (pos_quantity (snd e))) (lg_positions l))"

definition imbalance :: "ledger \<Rightarrow> rat" where
  "imbalance l = dval (lg_cash l) + book_basis l
     - (dval (lg_opening_cash l) + dval (lg_realized l) - dval (lg_fees l))"

definition basis_of :: "position option \<Rightarrow> rat" where
  "basis_of p = (case p of None \<Rightarrow> 0 | Some p \<Rightarrow> dval (pos_average_price p) * of_int (pos_quantity p))"

lemma sum_dict_set:
  fixes g :: "'v \<Rightarrow> rat"
  assumes "dict_ok d"
  shows "sum_list (map (\<lambda>e. g (snd e)) (dict_set k v d))
    = sum_list (map (\<lambda>e. g (snd e)) d) - (case dict_get d k of None \<Rightarrow> 0 | Some w \<Rightarrow> g w) + g v"
  using assms
  by (induction d) (auto simp: dict_set_def dict_get_def dict_ok_def)

text \<open>Every amount a fill touches stays below \<open>M\<close>.\<close>

definition amounts_below :: "rat \<Rightarrow> ledger \<Rightarrow> fill \<Rightarrow> bool" where
  "amounts_below M l f \<longleftrightarrow> \<bar>dval (lg_cash l)\<bar> \<le> M \<and> \<bar>dval (lg_fees l)\<bar> \<le> M \<and> \<bar>dval (lg_realized l)\<bar> \<le> M
     \<and> \<bar>basis_of (ledger_position l (fl_instrument_id f))\<bar> \<le> M \<and> \<bar>consideration f\<bar> \<le> M \<and> \<bar>fill_cost f\<bar> \<le> M"

lemma realized_change:
  assumes opp: "(0 < q) \<noteq> (0 < s)" "q \<noteq> 0" "s \<noteq> (0 :: int)"
    and small: "\<bar>a * of_int q\<bar> \<le> M" "\<bar>x * of_int s\<bar> \<le> M" "\<bar>r\<bar> \<le> (M :: rat)"
    and c: "c = min \<bar>s\<bar> \<bar>q\<bar> * (if 0 < q then 1 else - 1)"
  shows "\<bar>rnd28 (r + rnd28 (rnd28 (x - a) * of_int c)) - (r + (x - a) * of_int c)\<bar> \<le> 15 * M / 10 ^ 27"
proof -
  let ?y = "(x - a) * of_int c"
  have "\<bar>c\<bar> \<le> \<bar>q\<bar>" "\<bar>c\<bar> \<le> \<bar>s\<bar>" by (auto simp: c)
  then have "\<bar>of_int c :: rat\<bar> \<le> \<bar>of_int q\<bar>" "\<bar>of_int c :: rat\<bar> \<le> \<bar>of_int s\<bar>" by (simp_all flip: of_int_abs)
  then have "\<bar>x * of_int c\<bar> \<le> M" "\<bar>a * of_int c\<bar> \<le> M"
    using small mult_left_mono [of "\<bar>of_int c\<bar>" "\<bar>of_int s\<bar>" "\<bar>x\<bar>"] mult_left_mono [of "\<bar>of_int c\<bar>" "\<bar>of_int q\<bar>" "\<bar>a\<bar>"]
    by (simp_all add: abs_mult)
  then have y: "\<bar>?y\<bar> \<le> 2 * M" by (simp add: left_diff_distrib)
  have "\<bar>rnd28 (x - a) - (x - a)\<bar> * \<bar>of_int c\<bar> \<le> \<bar>x - a\<bar> / 10 ^ 27 * \<bar>of_int c\<bar>"
    by (intro mult_right_mono rnd28_error) simp
  then have 1: "\<bar>rnd28 (x - a) * of_int c - ?y\<bar> \<le> 2 * M / 10 ^ 27"
    using y by (simp add: abs_mult flip: left_diff_distrib)
  have M: "0 \<le> M" using small(3) by linarith
  note 2 = rnd28_error_after [OF 1 y]
  have "\<bar>r + ?y\<bar> \<le> 3 * M" using y small(3) by linarith
  note 3 = rnd28_error_after [OF _ this, of "r + rnd28 (rnd28 (x - a) * of_int c)" "2 * M / 10 ^ 27 + (2 * M + 2 * M / 10 ^ 27) / 10 ^ 27"]
  have "\<bar>r + rnd28 (rnd28 (x - a) * of_int c) - (r + ?y)\<bar> \<le> 2 * M / 10 ^ 27 + (2 * M + 2 * M / 10 ^ 27) / 10 ^ 27"
    using 2 by simp
  from 3 [OF this] M show ?thesis by simp
qed

lemma closed_quantity:
  assumes "(0 < q) \<noteq> (0 < s)" "q \<noteq> 0" "s \<noteq> (0 :: int)"
    and "c = min \<bar>s\<bar> \<bar>q\<bar> * (if 0 < q then 1 else - 1)"
  shows "c = (if q + s = 0 \<or> (0 < q + s) = (0 < q) then - s else q)"
  using assms by (auto simp: min_def)

text \<open>Opening, adding, reducing, closing and reversing move the basis and the realised P\&L together.\<close>

lemma basis_change:
  assumes small: "amounts_below M l f" and s: "signed_fill f \<noteq> 0"
  shows "\<bar>(basis_of (ledger_position (book_fill l f) (fl_instrument_id f)) - dval (lg_realized (book_fill l f)))
       - (basis_of (ledger_position l (fl_instrument_id f)) - dval (lg_realized l) + consideration f)\<bar>
     \<le> 15 * M / 10 ^ 27"
proof -
  let ?i = "fl_instrument_id f" and ?s = "signed_fill f" and ?x = "dval (fl_price f)"
  have M: "0 \<le> M" using small by (auto simp: amounts_below_def)
  have con: "consideration f = ?x * of_int ?s" by (simp add: consideration_def)
  consider (opened) "basis_of (ledger_position l ?i) = 0"
      "basis_of (ledger_position (book_fill l f) ?i) = ?x * of_int ?s" "lg_realized (book_fill l f) = lg_realized l"
    | (merged) p where "ledger_position l ?i = Some p" "pos_quantity p \<noteq> 0"
    by (cases "ledger_position l ?i") (force simp: book_fill_def basis_of_def ledger_position_def)+
  then show ?thesis
  proof cases
    case opened
    then show ?thesis using M by (simp add: con)
  next
    case merged
    let ?q = "pos_quantity p" and ?a = "dval (pos_average_price p)" and ?r = "dval (lg_realized l)"
    have b: "basis_of (ledger_position l ?i) = ?a * of_int ?q" using merged by (simp add: basis_of_def)
    have bounds: "\<bar>?a * of_int ?q\<bar> \<le> M" "\<bar>?x * of_int ?s\<bar> \<le> M" "\<bar>?r\<bar> \<le> M"
      using small by (simp_all add: amounts_below_def b con)
    show ?thesis
    proof (cases "(0 < ?q) = (0 < ?s)")
      case True
      let ?c = "rnd28 (rnd28 (?a * of_int ?q) + rnd28 (?x * of_int ?s))"
      have t: "(of_int (?q + ?s) :: rat) \<noteq> 0"
        using True merged(2) s by (simp only: of_int_eq_0_iff) linarith
      have "basis_of (ledger_position (book_fill l f) ?i) = rnd28 (?c / of_int (?q + ?s)) * of_int (?q + ?s)"
        and r: "lg_realized (book_fill l f) = lg_realized l"
        using merged True by (simp_all add: book_fill_def basis_of_def ledger_position_def merge_position_def Let_def)
      moreover have "\<bar>rnd28 (?c / of_int (?q + ?s)) * of_int (?q + ?s) - ?c\<bar> \<le> \<bar>?c\<bar> / 10 ^ 27"
      proof -
        have "\<bar>rnd28 (?c / of_int (?q + ?s)) - ?c / of_int (?q + ?s)\<bar> * \<bar>of_int (?q + ?s)\<bar>
            \<le> \<bar>?c / of_int (?q + ?s)\<bar> / 10 ^ 27 * \<bar>of_int (?q + ?s)\<bar>"
          by (intro mult_right_mono rnd28_error) simp
        then show ?thesis using t by (simp only: abs_mult [symmetric] left_diff_distrib) (simp add: abs_mult)
      qed
      moreover have c: "\<bar>?c - (?a * of_int ?q + ?x * of_int ?s)\<bar> \<le> 2 * M / 10 ^ 27 + (2 * M + 2 * M / 10 ^ 27) / 10 ^ 27"
      proof (rule rnd28_error_after)
        show "\<bar>rnd28 (?a * of_int ?q) + rnd28 (?x * of_int ?s) - (?a * of_int ?q + ?x * of_int ?s)\<bar> \<le> 2 * M / 10 ^ 27"
          using rnd28_error_le [OF bounds(1)] rnd28_error_le [OF bounds(2)] by linarith
        show "\<bar>?a * of_int ?q + ?x * of_int ?s\<bar> \<le> 2 * M" using bounds by linarith
      qed
      moreover have "\<bar>?a * of_int ?q + ?x * of_int ?s\<bar> \<le> 2 * M" using bounds by linarith
      ultimately have "\<bar>basis_of (ledger_position (book_fill l f) ?i) - (?a * of_int ?q + ?x * of_int ?s)\<bar>
          \<le> 2 * M / 10 ^ 27 + (2 * M + 2 * M / 10 ^ 27) / 10 ^ 27
            + (2 * M + (2 * M / 10 ^ 27 + (2 * M + 2 * M / 10 ^ 27) / 10 ^ 27)) / 10 ^ 27"
        using relative_error_after by metis
      also have "\<dots> \<le> 15 * M / 10 ^ 27" using M by simp
      finally show ?thesis by (simp add: b con r algebra_simps)
    next
      case False
      define c where "c = min \<bar>?s\<bar> \<bar>?q\<bar> * (if 0 < ?q then 1 else - 1)"
      have "dval (lg_realized (book_fill l f)) = rnd28 (?r + rnd28 (rnd28 (?x - ?a) * of_int c))"
        using merged False
        by (simp add: book_fill_def ledger_position_def merge_position_def realized_by_def Let_def c_def)
      moreover have "basis_of (ledger_position (book_fill l f) ?i) = ?a * of_int ?q + ?x * of_int ?s + (?x - ?a) * of_int c"
        using merged False closed_quantity [OF False merged(2) s c_def]
        by (simp add: book_fill_def basis_of_def ledger_position_def merge_position_def Let_def algebra_simps
            add_eq_0_iff2)
      ultimately have eq: "(basis_of (ledger_position (book_fill l f) ?i) - dval (lg_realized (book_fill l f)))
          - (basis_of (ledger_position l ?i) - ?r + consideration f)
        = - (rnd28 (?r + rnd28 (rnd28 (?x - ?a) * of_int c)) - (?r + (?x - ?a) * of_int c))"
        by (simp add: b con)
      show ?thesis unfolding eq abs_minus_cancel by (rule realized_change [OF False merged(2) s bounds c_def])
    qed
  qed
qed

lemma basis_book_fill:
  assumes "dict_ok (lg_positions l)"
  shows "book_basis (book_fill l f) = book_basis l - basis_of (ledger_position l (fl_instrument_id f))
    + basis_of (ledger_position (book_fill l f) (fl_instrument_id f))"
proof -
  let ?g = "\<lambda>p. dval (pos_average_price p) * of_int (pos_quantity p)"
  have "\<exists>v. lg_positions (book_fill l f) = dict_set (fl_instrument_id f) v (lg_positions l)"
    by (auto simp: book_fill_def split: option.split prod.split)
  then obtain v where v: "lg_positions (book_fill l f) = dict_set (fl_instrument_id f) v (lg_positions l)" ..
  show ?thesis
    using sum_dict_set [OF assms, of ?g "fl_instrument_id f" v]
    by (simp add: book_basis_def v basis_of_def ledger_position_def)
qed

lemma positions_ok_book_fill: "dict_ok (lg_positions l) \<Longrightarrow> dict_ok (lg_positions (book_fill l f))"
  by (auto simp: book_fill_def split: option.split prod.split)

lemma imbalance_step:
  assumes s: "ledger_apply l f = (l', Inr True)"
    and ok: "dict_ok (lg_positions l)" and q: "signed_fill f \<noteq> 0" and small: "amounts_below M l f"
  shows "\<bar>imbalance l' - imbalance l\<bar> \<le> 32 * M / 10 ^ 27 \<and> dict_ok (lg_positions l')"
  using s
proof (rule ledger_apply_fresh)
  fix c
  assume c: "costs_total (fl_costs f) = Inr c"
    and l': "lg_cash l' = lg_cash l - dec_int (signed_fill f) * fl_price f - c" "lg_fees l' = lg_fees l + c"
      "lg_realized l' = lg_realized (book_fill l f)" "lg_positions l' = lg_positions (book_fill l f)"
      "lg_opening_cash l' = lg_opening_cash l"
  let ?C = "dval (lg_cash l)" and ?F = "dval (lg_fees l)" and ?S = "consideration f" and ?c = "dval c"
  have M: "0 \<le> M" using small by (auto simp: amounts_below_def)
  have b: "\<bar>?C\<bar> \<le> M" "\<bar>?F\<bar> \<le> M" "\<bar>?S\<bar> \<le> M" "\<bar>?c\<bar> \<le> M"
    using small c by (simp_all add: amounts_below_def fill_cost_def)
  have 1: "\<bar>?C - rnd28 ?S - (?C - ?S)\<bar> \<le> M / 10 ^ 27" using rnd28_error_le [OF b(3)] by linarith
  have "\<bar>?C - ?S\<bar> \<le> 2 * M" using b by linarith
  note 2 = rnd28_error_after [OF 1 this]
  have 3: "\<bar>rnd28 (?C - rnd28 ?S) - ?c - (?C - ?S - ?c)\<bar> \<le> M / 10 ^ 27 + (2 * M + M / 10 ^ 27) / 10 ^ 27"
    using 2 by linarith
  have "\<bar>?C - ?S - ?c\<bar> \<le> 3 * M" using b by linarith
  note cash = rnd28_error_after [OF 3 this]
  have "\<bar>?F + ?c\<bar> \<le> 2 * M" using b by linarith
  note fees = rnd28_error_le [OF this]
  have cash': "dval (lg_cash l') = rnd28 (rnd28 (?C - rnd28 ?S) - ?c)" and fees': "dval (lg_fees l') = rnd28 (?F + ?c)"
    by (simp_all add: l' consideration_def)
  have basis: "book_basis l' = book_basis l - basis_of (ledger_position l (fl_instrument_id f))
      + basis_of (ledger_position (book_fill l f) (fl_instrument_id f))"
    using basis_book_fill [OF ok, of f] by (simp add: book_basis_def l')
  note add_errors [OF add_errors [OF cash fees] basis_change [OF small q]]
  also have "M / 10 ^ 27 + (2 * M + M / 10 ^ 27) / 10 ^ 27
      + (3 * M + (M / 10 ^ 27 + (2 * M + M / 10 ^ 27) / 10 ^ 27)) / 10 ^ 27 + 2 * M / 10 ^ 27 + 15 * M / 10 ^ 27
      \<le> 32 * M / 10 ^ 27" using M by simp
  finally have "\<bar>imbalance l' - imbalance l\<bar> \<le> 32 * M / 10 ^ 27"
    unfolding imbalance_def basis cash' fees' l'(3,5) by (simp add: algebra_simps)
  then show ?thesis using positions_ok_book_fill [OF ok, of f] by (simp add: l')
qed

text \<open>
  The books balance. As long as every amount a fill touches stays below \<open>M\<close>, cash plus the
  cost basis of the open positions equals opening cash plus realised P\&L minus fees, up to
  \<open>32 * M / 10 ^ 27\<close> per fill, which is what equity being opening cash plus net P\&L rests on.
\<close>

theorem books_balance:
  assumes "ledger_apply_all l fs = (l', Inr n)"
    and "new_ledger opening = Some l" and "\<forall>f\<in>set fs. 0 < fl_quantity f"
    and "\<forall>k < length fs. amounts_below M (fold deliver (take k fs) l) (fs ! k)"
  shows "\<bar>imbalance l'\<bar> \<le> of_nat (length fs) * (32 * M / 10 ^ 27)"
proof -
  have "\<bar>imbalance l' - imbalance l\<bar> \<le> of_nat (length fs) * (32 * M / 10 ^ 27)" if "dict_ok (lg_positions l)"
    using assms(1,3,4) that
  proof (induction rule: ledger_run_induct)
    case (duplicate l f fs l' n)
    have "fold deliver (take k fs) (l\<lparr>lg_duplicates := lg_duplicates l + 1\<rparr>) = fold deliver (take (Suc k) (f # fs)) l" for k
      using duplicate.hyps(1) by (simp add: deliver_def ledger_apply_def)
    then have "\<forall>k < length fs. amounts_below M (fold deliver (take k fs) (l\<lparr>lg_duplicates := lg_duplicates l + 1\<rparr>)) (fs ! k)"
      using duplicate.prems(2) by (metis Suc_less_eq length_Cons nth_Cons_Suc)
    with duplicate.IH duplicate.prems have "\<bar>imbalance l' - imbalance l\<bar> \<le> of_nat (length fs) * (32 * M / 10 ^ 27)"
      by (simp add: imbalance_def book_basis_def)
    moreover have "0 \<le> M" using duplicate.prems(2) by (force simp: amounts_below_def)
    ultimately show ?case by (simp add: distrib_right)
  next
    case (fresh l f fs l1 l' n)
    have f: "amounts_below M l f" using fresh.prems(2) by force
    have "signed_fill f \<noteq> 0" using fresh.prems(1) by (auto simp: signed_fill_def side_sign_def)
    note step = imbalance_step [OF fresh.hyps(2) fresh.prems(3) this f]
    have "fold deliver (take k fs) l1 = fold deliver (take (Suc k) (f # fs)) l" for k
      using fresh.hyps(2) by (simp add: deliver_def)
    then have "\<forall>k < length fs. amounts_below M (fold deliver (take k fs) l1) (fs ! k)"
      using fresh.prems(2) by (metis Suc_less_eq length_Cons nth_Cons_Suc)
    with fresh.IH fresh.prems(1) step have "\<bar>imbalance l' - imbalance l1\<bar> \<le> of_nat (length fs) * (32 * M / 10 ^ 27)"
      by simp
    then have "\<bar>imbalance l' - imbalance l\<bar> \<le> of_nat (length fs) * (32 * M / 10 ^ 27) + 32 * M / 10 ^ 27"
      using step by linarith
    then show ?case by (simp add: distrib_right)
  qed simp
  then show ?thesis
    using assms(2) by (auto simp: new_ledger_def imbalance_def book_basis_def split: if_splits)
qed

section \<open>A small book for the witnesses\<close>

definition sample_fill :: "string \<Rightarrow> side \<Rightarrow> int \<Rightarrow> decimal \<Rightarrow> fill" where
  "sample_fill k sd n p = \<lparr>fl_intent_id = k, fl_instrument_id = 7, fl_side = sd, fl_quantity = n, fl_price = p,
     fl_filled_at = 100, fl_price_source = OBSERVED_QUOTE, fl_slippage_model = TOUCH, fl_reference_price = p,
     fl_costs = no_costs\<lparr>cb_brokerage := Dec 20 (- 2)\<rparr>, fl_assumption_based = False, fl_requested_quantity = n\<rparr>"

definition sample_book :: ledger where
  "sample_book = \<lparr>lg_opening_cash = Dec 400 0, lg_cash = Dec 400 0, lg_positions = [], lg_realized = 0, lg_fees = 0,
     lg_slippage = 0, lg_costs = no_costs, lg_applied = {}, lg_duplicates = 0\<rparr>"

definition buy_and_sell :: "fill list" where
  "buy_and_sell = [sample_fill ''a'' BUY 2 (Dec 100 (- 2)), sample_fill ''b'' SELL 1 (Dec 101 (- 2)),
     sample_fill ''a'' BUY 2 (Dec 100 (- 2))]"

lemma sample_fill_cost: "fill_cost (sample_fill k sd n p) = 20"
proof -
  have "on_grid 2 20" "on_grid 2 0" using on_grid_of_int [of 2 20] on_grid_of_int [of 2 0] by simp_all
  then have "\<forall>d\<in>set (components (fl_costs (sample_fill k sd n p))). on_grid 2 (dval d) \<and> 0 \<le> dval d \<and> dval d \<le> 10 ^ 22"
    by (simp add: components_def sample_fill_def no_costs_def)
  from total_of_paise [OF this] show ?thesis
    by (auto simp: fill_cost_def components_def sample_fill_def no_costs_def)
qed

lemma new_sample_book: "new_ledger (Dec 400 0) = Some sample_book"
  by (simp add: new_ledger_def sample_book_def dec_less_iff)

lemma sample_costs: "\<exists>c. costs_total (fl_costs (sample_fill k sd n p)) = Inr c"
proof -
  have "\<forall>d\<in>set (components (fl_costs (sample_fill k sd n p))). on_grid 2 (dval d) \<and> 0 \<le> dval d \<and> dval d \<le> 10 ^ 22"
    using on_grid_of_int [of 2 20] on_grid_of_int [of 2 0] by (simp add: components_def sample_fill_def no_costs_def)
  from total_of_paise [OF this] show ?thesis by blast
qed

lemma sample_run: "\<exists>l n. ledger_apply_all sample_book buy_and_sell = (l, Inr n)"
  by (rule ledger_apply_all_returns) (use sample_costs in \<open>auto simp: buy_and_sell_def\<close>)

theorem positions_are_folds_witness:
  "\<exists>l n. ledger_apply_all sample_book buy_and_sell = (l, Inr n) \<and> n = 2 \<and> position_quantity l 7 = 1"
proof -
  obtain l n where l: "ledger_apply_all sample_book buy_and_sell = (l, Inr n)" using sample_run by blast
  have "sum_list (map signed_fill (filter (\<lambda>f. fl_instrument_id f = 7) (fresh_fills {} buy_and_sell))) = 1
      \<and> length (fresh_fills {} buy_and_sell) = 2"
    by (simp add: buy_and_sell_def sample_fill_def signed_fill_def fill_key_def)
  with positions_are_folds [OF l, of 7] l show ?thesis
    by (auto simp: position_quantity_def ledger_position_def sample_book_def)
qed

theorem cash_conserved_witness:
  "\<exists>l n. ledger_apply_all sample_book buy_and_sell = (l, Inr n)
     \<and> dval (lg_cash l) = 400 - sum_list (map (\<lambda>f. consideration f + fill_cost f) (fresh_fills {} buy_and_sell))"
proof -
  obtain l n where l: "ledger_apply_all sample_book buy_and_sell = (l, Inr n)" using sample_run by blast
  have "turnover_bound buy_and_sell \<le> 10 ^ 24"
    by (simp add: buy_and_sell_def consideration_def signed_fill_def sample_fill_cost) (simp add: sample_fill_def)
  then have "\<bar>dval (lg_cash sample_book)\<bar> + turnover_bound buy_and_sell \<le> 10 ^ 25" by (simp add: sample_book_def)
  from cash_conserved [OF l _ _ this] show ?thesis
    using l on_grid_of_int [of 2 100] on_grid_of_int [of 2 101] on_grid_of_int [of 2 400]
    by (auto simp: sample_book_def buy_and_sell_def sample_fill_def)
qed

theorem basis_in_traded_range_witness:
  "\<exists>l n. ledger_apply_all sample_book buy_and_sell = (l, Inr n) \<and> basis_within 100 101 l"
proof -
  obtain l n where l: "ledger_apply_all sample_book buy_and_sell = (l, Inr n)" using sample_run by blast
  have ex: "exact_upto 0 1000 100" "exact_upto 0 1000 101"
    using on_grid_of_int [of 0 100] on_grid_of_int [of 0 101] by (simp_all add: exact_upto_def)
  from basis_in_traded_range [OF l ex] have "basis_within 100 101 l"
    by (auto simp: basis_within_def position_quantity_def ledger_position_def sample_book_def buy_and_sell_def
        sample_fill_def)
  then show ?thesis using l by blast
qed

theorem books_balance_witness:
  "\<exists>l n. ledger_apply_all sample_book [sample_fill ''a'' BUY 2 (Dec 100 (- 2))] = (l, Inr n)
     \<and> \<bar>imbalance l\<bar> \<le> 1 / 10 ^ 20"
proof -
  let ?f = "sample_fill ''a'' BUY 2 (Dec 100 (- 2))"
  obtain l n where l: "ledger_apply_all sample_book [?f] = (l, Inr n)"
    using ledger_apply_all_returns [of "[?f]" sample_book] sample_costs
    by (metis empty_iff list.set(1) set_ConsD)
  have "\<forall>k < length [?f]. amounts_below 1000 (fold deliver (take k [?f]) sample_book) ([?f] ! k)"
    by (simp add: amounts_below_def consideration_def signed_fill_def basis_of_def ledger_position_def
        sample_fill_cost sample_book_def) (simp add: sample_fill_def)
  from books_balance [OF l new_sample_book _ this] show ?thesis
    using l by (auto simp: sample_fill_def)
qed

text \<open>
  The identity is not exact: two lots bought at 100 and one at 101 have a recurring basis, and marked
  at 100 the equity of the snapshot is 399 where opening cash plus net P\&L is not.
\<close>

definition free_fill :: "string \<Rightarrow> int \<Rightarrow> decimal \<Rightarrow> fill" where
  "free_fill k n p = (sample_fill k BUY n p)\<lparr>fl_costs := no_costs\<rparr>"

lemma thirds:
  "rnd28 (301 / 3) = 1003333333333333333333333333 / 10000000000000000000000000"
  "rnd28 (3009999999999999999999999999 / 10000000000000000000000000) = 3009999999999999999999999999 / 10000000000000000000000000"
  "rnd28 (3999999999999999999999999999 / 10000000000000000000000000) = 3999999999999999999999999999 / 10000000000000000000000000"
  "rnd28 (- (3333333333333333333333333 / 10000000000000000000000000)) = - (3333333333333333333333333 / 10000000000000000000000000)"
  "rnd28 (- (9999999999999999999999999 / 10000000000000000000000000)) = - (9999999999999999999999999 / 10000000000000000000000000)"
  "rnd28 (3990000000000000000000000001 / 10000000000000000000000000) = 3990000000000000000000000001 / 10000000000000000000000000"
  by code_simp+

lemma no_costs_total: "costs_total no_costs = Inr (Dec 0 (- 2))"
  by code_simp

theorem equity_off_by_rounding:
  "\<exists>l. ledger_apply_all sample_book [free_fill ''a'' 2 (Dec 100 0), free_fill ''b'' 1 (Dec 101 0)] = (l, Inr 2)
     \<and> dval (equity (ledger_snapshot_at l 100 [(7, Dec 100 0)])) = 399
     \<and> dval (lg_opening_cash l + net_pnl (ledger_snapshot_at l 100 [(7, Dec 100 0)])) \<noteq> 399"
proof -
  let ?f = "free_fill ''a'' 2 (Dec 100 0)" and ?g = "free_fill ''b'' 1 (Dec 101 0)"
  have k: "fill_key ?f \<noteq> fill_key ?g" by (simp add: fill_key_def free_fill_def sample_fill_def)
  obtain l1 where l1: "ledger_apply sample_book ?f = (l1, Inr True)"
    by (simp add: ledger_apply_def sample_book_def free_fill_def no_costs_total)
  have f: "fill_key ?f \<notin> lg_applied sample_book" by (simp add: sample_book_def)
  have p1: "lg_positions l1 = [(7, \<lparr>pos_instrument_id = 7, pos_quantity = 2, pos_average_price = Dec 100 0\<rparr>)]"
    "dval (lg_cash l1) = 200" "lg_applied l1 = {fill_key ?f}" "dval (lg_realized l1) = 0" "dval (lg_fees l1) = 0"
    "dval (lg_opening_cash l1) = 400"
    using l1 f by (auto simp: ledger_apply_def Let_def sample_book_def free_fill_def sample_fill_def no_costs_total
        book_fill_def ledger_position_def signed_fill_def dict_set_def)
  have g: "fill_key ?g \<notin> lg_applied l1" using k p1 by simp
  obtain l2 where l2: "ledger_apply l1 ?g = (l2, Inr True)"
    using g by (simp add: ledger_apply_def free_fill_def no_costs_total)
  have m: "lg_positions (book_fill l1 ?g)
      = [(7, \<lparr>pos_instrument_id = 7, pos_quantity = 3,
               pos_average_price = dec_div (Dec 100 0 * dec_int 2 + Dec 101 0 * dec_int 1) (dec_int 3)\<rparr>)]"
    "lg_realized (book_fill l1 ?g) = lg_realized l1"
    using p1(1) by (simp_all add: book_fill_def ledger_position_def merge_position_def signed_fill_def dict_set_def
        free_fill_def sample_fill_def)
  have v: "dval (dec_div (Dec 100 0 * dec_int 2 + Dec 101 0 * dec_int 1) (dec_int 3)) = 1003333333333333333333333333 / 10000000000000000000000000"
    using thirds(1) by simp
  from l2 have "\<exists>c. costs_total no_costs = Inr c \<and> lg_positions l2 = lg_positions (book_fill l1 ?g)
      \<and> lg_realized l2 = lg_realized (book_fill l1 ?g) \<and> lg_opening_cash l2 = lg_opening_cash l1
      \<and> lg_cash l2 = lg_cash l1 - dec_int 1 * Dec 101 0 - c \<and> lg_fees l2 = lg_fees l1 + c"
    by (rule ledger_apply_fresh) (auto simp: signed_fill_def free_fill_def sample_fill_def)
  then have p2: "\<exists>p. lg_positions l2 = [(7, p)] \<and> pos_instrument_id p = 7 \<and> pos_quantity p = 3
      \<and> dval (pos_average_price p) = 1003333333333333333333333333 / 10000000000000000000000000"
    "dval (lg_cash l2) = 99" "dval (lg_realized l2) = 0" "dval (lg_fees l2) = 0" "dval (lg_opening_cash l2) = 400"
    unfolding m no_costs_total using p1 v by auto
  then obtain p where p: "lg_positions l2 = [(7, p)]" "pos_instrument_id p = 7" "pos_quantity p = 3"
    "dval (pos_average_price p) = 1003333333333333333333333333 / 10000000000000000000000000" by blast
  have "dval (equity (ledger_snapshot_at l2 100 [(7, Dec 100 0)])) = 399
     \<and> dval (lg_opening_cash l2 + net_pnl (ledger_snapshot_at l2 100 [(7, Dec 100 0)])) \<noteq> 399"
    by (simp add: p p2(2-) thirds equity_def ledger_snapshot_at_def net_pnl_def gross_pnl_def open_positions_def
        all_positions_def sorted_values_def dict_keys_def mark_position_def position_pnl_def dec_sum_def)
  then show ?thesis using l1 l2 by auto
qed

end
