(* ===== verification/Paper_Ledger.thy ===== *)
theory Paper_Ledger
  imports Ledger_Guarantees
begin

text \<open>
  \<^verbatim>\<open>oipulse/trading/ledger.py\<close>: the account-scoped book, which is the fold of \<open>Ledger\<close> together with
  the cash reserved for resting orders. \<open>inner\<close> is the wrapped ledger; the reservations are the
  dictionary from order ids to amounts.
\<close>

section \<open>State and readings\<close>

datatype reserve_error = NegativeReservation | InsufficientCash

record paper_ledger =
  pl_account_id :: string
  pl_inner :: ledger
  pl_reservations :: "(string, decimal) dict"

definition new_paper_ledger :: "string \<Rightarrow> decimal \<Rightarrow> paper_ledger option" where
  "new_paper_ledger account opening =
     map_option (\<lambda>l. \<lparr>pl_account_id = account, pl_inner = l, pl_reservations = []\<rparr>) (new_ledger opening)"

definition pl_reserved_cash :: "paper_ledger \<Rightarrow> decimal" where
  "pl_reserved_cash l = dec_sum (map snd (pl_reservations l))"

definition pl_available_cash :: "paper_ledger \<Rightarrow> decimal" where
  "pl_available_cash l = lg_cash (pl_inner l) - pl_reserved_cash l"

definition reservation_for :: "paper_ledger \<Rightarrow> string \<Rightarrow> decimal" where
  "reservation_for l i = case_option 0 id (dict_get (pl_reservations l) i)"

record paper_snapshot =
  ps_account_id :: string
  ps_inner :: ledger_snapshot
  ps_reserved_cash :: decimal

definition snapshot_available :: "paper_snapshot \<Rightarrow> decimal" where
  "snapshot_available s = ls_cash (ps_inner s) - ps_reserved_cash s"

definition paper_snapshot_at :: "paper_ledger \<Rightarrow> instant \<Rightarrow> (int, decimal) dict \<Rightarrow> paper_snapshot" where
  "paper_snapshot_at l ts marks = \<lparr>ps_account_id = pl_account_id l,
     ps_inner = ledger_snapshot_at (pl_inner l) ts marks, ps_reserved_cash = pl_reserved_cash l\<rparr>"

section \<open>Operations\<close>

definition reserve :: "paper_ledger \<Rightarrow> string \<Rightarrow> decimal \<Rightarrow> reserve_error + paper_ledger" where
  "reserve l i amount =
     (if amount < 0 then Inl NegativeReservation
      else let prospective = pl_reserved_cash l - reservation_for l i + amount in
           if lg_cash (pl_inner l) < prospective then Inl InsufficientCash
           else Inr (l\<lparr>pl_reservations := dict_set i amount (pl_reservations l)\<rparr>))"

text \<open>What is left, and what was released.\<close>

definition release :: "paper_ledger \<Rightarrow> string \<Rightarrow> paper_ledger \<times> decimal" where
  "release l i = (l\<lparr>pl_reservations := dict_pop i (pl_reservations l)\<rparr>, reservation_for l i)"

definition paper_apply :: "paper_ledger \<Rightarrow> fill \<Rightarrow> string option \<Rightarrow> paper_ledger \<times> (pricing_error + bool)" where
  "paper_apply l f release_order =
     (case ledger_apply (pl_inner l) f of
        (l', Inl e) \<Rightarrow> (l\<lparr>pl_inner := l'\<rparr>, Inl e)
      | (l', Inr applied) \<Rightarrow>
          (case release_order of
             Some i \<Rightarrow> (if applied then fst (release (l\<lparr>pl_inner := l'\<rparr>) i) else l\<lparr>pl_inner := l'\<rparr>)
           | None \<Rightarrow> l\<lparr>pl_inner := l'\<rparr>, Inr applied))"

primrec paper_apply_all :: "paper_ledger \<Rightarrow> fill list \<Rightarrow> paper_ledger \<times> (pricing_error + int)" where
  "paper_apply_all l [] = (l, Inr 0)"
| "paper_apply_all l (f # fs) =
     (case paper_apply l f None of
        (l', Inl e) \<Rightarrow> (l', Inl e)
      | (l', Inr b) \<Rightarrow>
          (case paper_apply_all l' fs of
             (l'', Inl e) \<Rightarrow> (l'', Inl e)
           | (l'', Inr n) \<Rightarrow> (l'', Inr ((if b then 1 else 0) + n))))"

definition can_afford :: "paper_ledger \<Rightarrow> side \<Rightarrow> decimal \<Rightarrow> int \<Rightarrow> decimal \<Rightarrow> bool" where
  "can_afford l sd price quantity costs \<longleftrightarrow>
     sd = SELL \<or> price * dec_int quantity + costs \<le> pl_available_cash l"

text \<open>\<open>replay_fills\<close>: a new book and the loop of \<open>apply\<close>; the outer option is the opening check.\<close>

primrec replay_loop :: "paper_ledger \<Rightarrow> fill list \<Rightarrow> pricing_error + paper_ledger" where
  "replay_loop l [] = Inr l"
| "replay_loop l (f # fs) =
     (case paper_apply l f None of (l', Inl e) \<Rightarrow> Inl e | (l', Inr _) \<Rightarrow> replay_loop l' fs)"

definition replay_fills :: "string \<Rightarrow> decimal \<Rightarrow> fill list \<Rightarrow> (pricing_error + paper_ledger) option" where
  "replay_fills account opening fs = map_option (\<lambda>l. replay_loop l fs) (new_paper_ledger account opening)"

section \<open>The book is a replay of its fills\<close>

text \<open>The calls that change a live book, and one step of it; a refused call changes nothing.\<close>

datatype book_call = Reserve_Call string decimal | Release_Call string | Apply_Call fill "string option"

definition book_step :: "book_call \<Rightarrow> paper_ledger \<Rightarrow> paper_ledger" where
  "book_step c l = (case c of
     Reserve_Call i a \<Rightarrow> (case reserve l i a of Inl _ \<Rightarrow> l | Inr l' \<Rightarrow> l')
   | Release_Call i \<Rightarrow> fst (release l i)
   | Apply_Call f r \<Rightarrow> fst (paper_apply l f r))"

fun applied_fills :: "book_call list \<Rightarrow> fill list" where
  "applied_fills [] = []"
| "applied_fills (Apply_Call f r # cs) = f # applied_fills cs"
| "applied_fills (_ # cs) = applied_fills cs"

lemma inner_paper_apply: "pl_inner (fst (paper_apply l f r)) = deliver f (pl_inner l)"
  by (auto simp: paper_apply_def deliver_def release_def split: prod.split sum.split option.split)

lemma inner_book_step:
  "pl_inner (book_step c l) = (case c of Apply_Call f r \<Rightarrow> deliver f (pl_inner l) | _ \<Rightarrow> pl_inner l)"
  by (auto simp: book_step_def inner_paper_apply reserve_def release_def Let_def split: book_call.split sum.split)

lemma inner_book_run: "pl_inner (fold book_step cs l) = fold deliver (applied_fills cs) (pl_inner l)"
  by (induction cs arbitrary: l rule: applied_fills.induct) (simp_all add: inner_book_step)

lemma replay_loop_inner: "replay_loop l fs = Inr l' \<Longrightarrow> pl_inner l' = fold deliver fs (pl_inner l)
    \<and> pl_account_id l' = pl_account_id l \<and> pl_reservations l' = pl_reservations l"
proof (induction fs arbitrary: l)
  case (Cons f fs)
  from Cons.prems obtain l1 b where s: "paper_apply l f None = (l1, Inr b)" "replay_loop l1 fs = Inr l'"
    by (auto split: prod.splits sum.splits)
  have "pl_inner l1 = deliver f (pl_inner l)" using inner_paper_apply [of l f None] s(1) by simp
  moreover have "pl_account_id l1 = pl_account_id l" "pl_reservations l1 = pl_reservations l"
    using s(1) by (auto simp: paper_apply_def split: prod.splits sum.splits)
  ultimately show ?case using Cons.IH [OF s(2)] by simp
qed simp

lemma replay_loop_returns:
  "\<forall>f\<in>set fs. \<exists>c. costs_total (fl_costs f) = Inr c \<Longrightarrow> \<exists>l'. replay_loop l fs = Inr l'"
proof (induction fs arbitrary: l)
  case (Cons f fs)
  then obtain b where "\<exists>l1. ledger_apply (pl_inner l) f = (l1, Inr b)"
    using ledger_apply_returns [of f "pl_inner l"] by auto
  then have "\<exists>l1. paper_apply l f None = (l1, Inr b)" by (auto simp: paper_apply_def)
  then show ?case using Cons by auto
qed simp

text \<open>
  Claim C30: an account is reconstructable from its fills. Whatever reservations, releases and
  deliveries a live book went through, replaying just the delivered fills, in their order and
  including every redelivery, into a new book for the same opening cash gives the same cash,
  positions, P\&L, fees and applied set, with nothing reserved.
\<close>

theorem book_is_replay_of_fills:
  assumes "new_paper_ledger account opening = Some l" and "fold book_step cs l = live"
    and "replay_fills account opening (applied_fills cs) = Some (Inr l')"
  shows "pl_inner l' = pl_inner live \<and> pl_reservations l' = []"
proof -
  have "replay_loop l (applied_fills cs) = Inr l'" using assms(1,3) by (simp add: replay_fills_def)
  from replay_loop_inner [OF this] show ?thesis
    using inner_book_run [of cs l] assms(1,2) by (auto simp: new_paper_ledger_def)
qed

section \<open>Reservations\<close>

definition reserved_value :: "paper_ledger \<Rightarrow> rat" where
  "reserved_value l = sum_list (map (\<lambda>e. dval (snd e)) (pl_reservations l))"

text \<open>Whole paise, not negative, and within the exact range of the context.\<close>

definition reservations_ok :: "paper_ledger \<Rightarrow> bool" where
  "reservations_ok l \<longleftrightarrow> dict_ok (pl_reservations l) \<and> reserved_value l \<le> 10 ^ 24
     \<and> (\<forall>e\<in>set (pl_reservations l). on_grid 2 (dval (snd e)) \<and> 0 \<le> dval (snd e))"

lemma foldl_paise:
  assumes "\<forall>d\<in>set ds. on_grid 2 (dval d) \<and> 0 \<le> dval d" and "on_grid 2 (dval a)" "0 \<le> dval a"
    and "dval a + sum_list (map dval ds) \<le> 10 ^ 25"
  shows "dval (foldl (+) a ds) = dval a + sum_list (map dval ds)"
  using assms
proof (induction ds arbitrary: a)
  case (Cons d ds)
  have nonneg: "0 \<le> sum_list (map dval ds)" using Cons.prems(1) by (intro sum_list_nonneg) auto
  have g: "on_grid 2 (dval a + dval d)" using Cons.prems by (simp add: on_grid_add)
  have "\<bar>dval a + dval d\<bar> \<le> 10 ^ 25" using Cons.prems nonneg by simp
  then have e: "rnd28 (dval a + dval d) = dval a + dval d" by (rule rupees_exact [OF g])
  show ?case using Cons.IH [of "a + d"] Cons.prems g by (simp add: e)
qed simp

lemma reserved_cash_exact: "reservations_ok l \<Longrightarrow> dval (pl_reserved_cash l) = reserved_value l"
  using foldl_paise [of "map snd (pl_reservations l)" 0] on_grid_of_int [of 2 0]
  by (force simp: reservations_ok_def pl_reserved_cash_def reserved_value_def dec_sum_def comp_def)

lemma reserved_value_set:
  assumes "dict_ok (pl_reservations l)"
  shows "reserved_value (l\<lparr>pl_reservations := dict_set i a (pl_reservations l)\<rparr>)
    = reserved_value l - dval (reservation_for l i) + dval a"
  using sum_dict_set [OF assms, of dval i a]
  by (simp add: reserved_value_def reservation_for_def split: option.split)

lemma reserved_value_nonneg: "reservations_ok l \<Longrightarrow> 0 \<le> reserved_value l"
  unfolding reserved_value_def reservations_ok_def by (intro sum_list_nonneg) auto

lemma reserved_value_grid: "reservations_ok l \<Longrightarrow> on_grid 2 (reserved_value l)"
proof -
  have "on_grid 2 (sum_list (map (\<lambda>e. dval (snd e)) d))" if "\<forall>e\<in>set d. on_grid 2 (dval (snd e))"
    for d :: "(string, decimal) dict"
    using that on_grid_of_int [of 2 0] by (induction d) (auto intro: on_grid_add)
  then show "reservations_ok l \<Longrightarrow> on_grid 2 (reserved_value l)"
    by (simp add: reservations_ok_def reserved_value_def)
qed

lemma set_dict_set: "set (dict_set k v d) \<subseteq> insert (k, v) (set d)"
  by (induction d) (auto simp: dict_set_def split: if_splits)

lemma reservation_for_bounds:
  assumes "reservations_ok l"
  shows "0 \<le> dval (reservation_for l i)" "dval (reservation_for l i) \<le> reserved_value l"
    "on_grid 2 (dval (reservation_for l i))"
proof -
  have ok: "\<forall>e\<in>set (pl_reservations l). on_grid 2 (dval (snd e)) \<and> 0 \<le> dval (snd e)"
    using assms by (simp add: reservations_ok_def)
  have mem: "(i, a) \<in> set (pl_reservations l)" if "dict_get (pl_reservations l) i = Some a" for a
    using that by (auto simp: dict_get_def dest: map_of_SomeD)
  show "0 \<le> dval (reservation_for l i)" "on_grid 2 (dval (reservation_for l i))"
    using ok mem on_grid_of_int [of 2 0] by (force simp: reservation_for_def split: option.split)+
  have "dval a \<le> reserved_value l" if "(i, a) \<in> set (pl_reservations l)" for a
    unfolding reserved_value_def using member_le_sum_list [of "dval a" "map (\<lambda>e. dval (snd e)) (pl_reservations l)"] that ok
    by force
  then show "dval (reservation_for l i) \<le> reserved_value l"
    using mem reserved_value_nonneg [OF assms] by (auto simp: reservation_for_def split: option.split)
qed

text \<open>
  No rupee is promised twice. A reservation that is granted leaves the total reserved
  within the cash, so that the available cash is not negative, replaces what the same order had
  reserved before instead of adding to it, and leaves every other order's reservation alone.
\<close>

theorem reserve_within_cash:
  assumes "reservations_ok l" and "reserve l i amount = Inr l'" and "on_grid 2 (dval amount)"
    and "dval (lg_cash (pl_inner l)) \<le> 10 ^ 23"
  shows "dval (pl_reserved_cash l') = dval (pl_reserved_cash l) - dval (reservation_for l i) + dval amount
    \<and> 0 \<le> dval (pl_available_cash l') \<and> reservations_ok l'
    \<and> (\<forall>j. reservation_for l' j = (if j = i then amount else reservation_for l j))"
proof -
  let ?p = "reserved_value l - dval (reservation_for l i) + dval amount"
  note b = reservation_for_bounds [OF assms(1), of i]
  have small: "reserved_value l \<le> 10 ^ 24" using assms(1) by (simp add: reservations_ok_def)
  from assms(2) have l': "l' = l\<lparr>pl_reservations := dict_set i amount (pl_reservations l)\<rparr>"
    and am: "0 \<le> dval amount"
    and within: "dval (pl_reserved_cash l - reservation_for l i + amount) \<le> dval (lg_cash (pl_inner l))"
    by (auto simp: reserve_def Let_def dec_less_iff not_less split: if_splits)
  have grid: "on_grid 2 (reserved_value l - dval (reservation_for l i))"
    using reserved_value_grid [OF assms(1)] b(3) by (rule on_grid_diff)
  then have gp: "on_grid 2 ?p" using assms(3) by (rule on_grid_add)
  have "rnd28 (reserved_value l - dval (reservation_for l i)) = reserved_value l - dval (reservation_for l i)"
    by (rule rupees_exact [OF grid]) (use b small in auto)
  then have r: "rnd28 ?p \<le> dval (lg_cash (pl_inner l))"
    using within by (simp add: reserved_cash_exact [OF assms(1)])
  have "?p \<le> 10 ^ 25"
  proof (rule ccontr)
    assume "\<not> ?p \<le> 10 ^ 25"
    then have "rnd28 (10 ^ 25) \<le> rnd28 ?p" by (intro ctx.rnd_mono) simp
    then show False using r assms(4) by simp
  qed
  then have e: "rnd28 ?p = ?p" by (intro rupees_exact [OF gp]) (use b am in auto)
  have v: "reserved_value l' = ?p"
    using reserved_value_set [of l i amount] assms(1) by (simp add: l' reservations_ok_def)
  have ok: "reservations_ok l'"
    unfolding reservations_ok_def v
    using assms(1,3,4) am r e set_dict_set [of i amount "pl_reservations l"]
    by (auto simp: l' reservations_ok_def)
  have "0 \<le> dval (pl_available_cash l')"
    using r e reserved_cash_exact [OF ok] v by (simp add: pl_available_cash_def l' ctx.nonneg)
  then show ?thesis
    using ok reserved_cash_exact [OF ok] reserved_cash_exact [OF assms(1)] v
    by (simp add: reservation_for_def l')
qed

section \<open>A small account for the witnesses\<close>

definition sample_account_book :: paper_ledger where
  "sample_account_book = \<lparr>pl_account_id = ''acc'', pl_inner = sample_book, pl_reservations = []\<rparr>"

lemma new_sample_account_book: "new_paper_ledger ''acc'' (Dec 400 0) = Some sample_account_book"
  by (simp add: new_paper_ledger_def sample_account_book_def new_sample_book)

definition sample_calls :: "book_call list" where
  "sample_calls = [Reserve_Call ''o1'' (Dec 300 0), Apply_Call (sample_fill ''a'' BUY 2 (Dec 100 (- 2))) (Some ''o1''),
     Reserve_Call ''o2'' (Dec 50 0), Apply_Call (sample_fill ''a'' BUY 2 (Dec 100 (- 2))) (Some ''o2'')]"

theorem book_is_replay_of_fills_witness:
  "\<exists>l'. replay_fills ''acc'' (Dec 400 0) (applied_fills sample_calls) = Some (Inr l')
     \<and> pl_inner l' = pl_inner (fold book_step sample_calls sample_account_book) \<and> pl_reservations l' = []"
proof -
  have "\<forall>f\<in>set (applied_fills sample_calls). \<exists>c. costs_total (fl_costs f) = Inr c"
    using sample_costs by (auto simp: sample_calls_def)
  from replay_loop_returns [OF this] obtain l' where
    r: "replay_fills ''acc'' (Dec 400 0) (applied_fills sample_calls) = Some (Inr l')"
    using new_sample_account_book by (force simp: replay_fills_def)
  show ?thesis using book_is_replay_of_fills [OF new_sample_account_book refl r] r by blast
qed

theorem reserve_within_cash_witness:
  "\<exists>l. reserve sample_account_book ''o'' (Dec 300 0) = Inr l \<and> 0 \<le> dval (pl_available_cash l)"
proof -
  have ok: "reservations_ok sample_account_book"
    by (simp add: reservations_ok_def reserved_value_def sample_account_book_def)
  have "reserve sample_account_book ''o'' (Dec 300 0) = Inr (sample_account_book\<lparr>pl_reservations := [(''o'', Dec 300 0)]\<rparr>)"
    by (simp add: reserve_def pl_reserved_cash_def reservation_for_def dec_sum_def dec_less_iff sample_account_book_def
        sample_book_def dict_set_def)
  from reserve_within_cash [OF ok this] this show ?thesis
    using on_grid_of_int [of 2 300] by (simp add: sample_account_book_def sample_book_def)
qed

end
