(* ===== verification/Execution.thy ===== *)
theory Execution
  imports Orders Accounts Paper_Ledger
begin

text \<open>
  \<^verbatim>\<open>oipulse/trading/execution.py\<close> and the local half of \<^verbatim>\<open>oipulse/trading/brokers/paper.py\<close>: the
  order-level rules around the shared fill model, and the paper venue that accepts an order and
  attempts one execution. Nothing here holds state: an execution is a function of the order, the
  market state, the time, the cash and the constraints.
\<close>

section \<open>Outcomes and exceptions\<close>

datatype exec_error = Order_Error order_error | Intent_Error intent_error | Pricing_Error pricing_error

record execution_outcome =
  eo_order :: paper_order
  eo_fill :: "fill option"
  eo_reject_reason :: "reject_reason option"

definition execution_filled :: "execution_outcome \<Rightarrow> bool" where
  "execution_filled oc \<longleftrightarrow> eo_fill oc \<noteq> None"

text \<open>\<open>_REJECTION_MAP\<close>\<close>

fun rejection_map :: "rejection_reason \<Rightarrow> reject_reason" where
  "rejection_map FILL_NO_PRICE_AVAILABLE = NO_PRICE_AVAILABLE"
| "rejection_map FILL_LIMIT_NOT_MARKETABLE = EXECUTION_REJECTED"
| "rejection_map FILL_NO_LIQUIDITY = EXECUTION_REJECTED"
| "rejection_map FILL_STALE_QUOTE = STALE_MARKET_STATE"
| "rejection_map FILL_MODELLED_REJECTION = EXECUTION_REJECTED"

record execution_model =
  em_fill_model :: fill_model
  em_reject_on_unreliable_state :: bool

definition lift_order :: "'a order_result \<Rightarrow> exec_error + 'a" where
  "lift_order r = map_sum Order_Error id r"

definition lift_pricing :: "pricing_error + 'a \<Rightarrow> exec_error + 'a" where
  "lift_pricing r = map_sum Pricing_Error id r"

section \<open>Refusing\<close>

definition reject_execution ::
  "paper_order \<Rightarrow> instant \<Rightarrow> reject_reason \<Rightarrow> exec_error + execution_outcome" where
  "reject_execution od ts reason =
     bind_result (lift_order (if po_state od = PARTIALLY_FILLED then cancel od ts else reject od reason ts))
       (\<lambda>moved. Inr \<lparr>eo_order = moved, eo_fill = None, eo_reject_reason = Some reason\<rparr>)"

definition expire_execution :: "paper_order \<Rightarrow> instant \<Rightarrow> exec_error + execution_outcome" where
  "expire_execution od ts =
     bind_result (lift_order (expire od ts))
       (\<lambda>moved. Inr \<lparr>eo_order = moved, eo_fill = None, eo_reject_reason = Some INTENT_EXPIRED\<rparr>)"

section \<open>One execution\<close>

text \<open>The order as the strategy intent the fill model prices; \<open>s or "paper"\<close>, \<open>max(v, 1)\<close>.\<close>

definition probe_of :: "paper_order \<Rightarrow> strategy_intent" where
  "probe_of od = \<lparr>si_run_id = po_order_id od,
     si_strategy_id = (if po_strategy_id od = [] then ''paper'' else po_strategy_id od),
     si_strategy_version = max (po_strategy_version od) 1,
     si_instrument_id = po_instrument_id od, si_side = po_side od,
     si_quantity = remaining_quantity od, si_order_type = po_order_type od,
     si_decision_time = case_option (po_created_at od) id (po_decision_time od),
     si_knowledge_horizon = case_option (po_created_at od) id (po_knowledge_time od),
     si_limit_price = po_limit_price od, si_reason = [], si_evidence_refs = []\<rparr>"

definition slipped :: "fill \<Rightarrow> decimal \<Rightarrow> decimal" where
  "slipped f reference = (fl_price f - reference) * dec_int (side_sign (fl_side f))"

text \<open>Rules 4 to 6 on a priced fill, then the order itself.\<close>

definition settle_execution ::
  "paper_order \<Rightarrow> instant \<Rightarrow> decimal \<Rightarrow> intent_constraints \<Rightarrow> decimal option \<Rightarrow> fill \<Rightarrow>
   exec_error + execution_outcome" where
  "settle_execution od ts cash c reference f =
     (let accept = bind_result (lift_order (apply_fill od (fl_quantity f) (fl_price f) ts ''paper_fill''))
            (\<lambda>filled. Inr \<lparr>eo_order = filled, eo_fill = Some f, eo_reject_reason = None\<rparr>);
          afford =
            (if fl_side f = BUY
             then bind_result (lift_pricing (costs_total (fl_costs f)))
               (\<lambda>costs. if cash < fl_price f * dec_int (fl_quantity f) + costs
                        then reject_execution od ts INSUFFICIENT_CASH else accept)
             else accept)
      in if ic_all_or_none c \<and> fl_quantity f < remaining_quantity od
         then reject_execution od ts ALL_OR_NONE_UNFILLABLE
         else case (ic_max_slippage c, reference) of
             (Some bound, Some r) \<Rightarrow> if bound < slipped f r then reject_execution od ts SLIPPAGE_EXCEEDED else afford
           | _ \<Rightarrow> afford)"

definition execute ::
  "(strategy_content \<Rightarrow> string) \<Rightarrow> (string \<Rightarrow> int) \<Rightarrow> execution_model \<Rightarrow> paper_order \<Rightarrow> market_state \<Rightarrow>
   instant \<Rightarrow> decimal \<Rightarrow> intent_constraints option \<Rightarrow> decimal option \<Rightarrow> exec_error + execution_outcome" where
  "execute digest draw m od s ts cash constraints reference =
     (let c = case_option no_constraints id constraints in
      if is_terminal (po_state od)
      then Inr \<lparr>eo_order = od, eo_fill = None, eo_reject_reason = Some EXECUTION_REJECTED\<rparr>
      else if (case ic_valid_until c of Some t \<Rightarrow> t < ts | None \<Rightarrow> False) then expire_execution od ts
      else if em_reject_on_unreliable_state m \<and> q_status (mst_quality s) = QS_UNRELIABLE
      then reject_execution od ts STALE_MARKET_STATE
      else case strategy_intent_check (probe_of od) of
          Some e \<Rightarrow> Inl (Intent_Error e)
        | None \<Rightarrow>
            bind_result (lift_pricing (simulate_fill digest draw (probe_of od) s (em_fill_model m)))
              (\<lambda>oc. case fo_fill oc of
                  None \<Rightarrow> reject_execution od ts (case_option EXECUTION_REJECTED rejection_map (fo_rejection oc))
                | Some f \<Rightarrow> settle_execution od ts cash c reference f))"

section \<open>Shape\<close>

text \<open>The inner option is the code's \<open>None\<close>: the shape is acceptable.\<close>

definition refuse_shape :: "paper_order \<Rightarrow> instant \<Rightarrow> exec_error + execution_outcome option" where
  "refuse_shape od ts =
     bind_result (lift_order (reject od EXCEEDS_ORDER_LIMIT ts))
       (\<lambda>moved. Inr (Some \<lparr>eo_order = moved, eo_fill = None, eo_reject_reason = Some EXCEEDS_ORDER_LIMIT\<rparr>))"

definition validate_shape ::
  "paper_order \<Rightarrow> int option \<Rightarrow> decimal option \<Rightarrow> instant \<Rightarrow> exec_error + execution_outcome option" where
  "validate_shape od max_quantity max_notional ts =
     (if (case max_quantity of Some q \<Rightarrow> q < po_quantity od | None \<Rightarrow> False) then refuse_shape od ts
      else if (case (max_notional, po_limit_price od) of
                 (Some n, Some p) \<Rightarrow> po_order_type od = LIMIT \<and> n < p * dec_int (po_quantity od)
               | _ \<Rightarrow> False)
      then refuse_shape od ts
      else Inr None)"

section \<open>The paper venue on local orders (brokers/paper.py)\<close>

definition paper_submit ::
  "(strategy_content \<Rightarrow> string) \<Rightarrow> (string \<Rightarrow> int) \<Rightarrow> execution_model \<Rightarrow> paper_order \<Rightarrow> market_state \<Rightarrow>
   instant \<Rightarrow> decimal \<Rightarrow> intent_constraints option \<Rightarrow> decimal option \<Rightarrow> exec_error + execution_outcome" where
  "paper_submit digest draw m od s ts cash constraints reference =
     bind_result
       (if po_state od = CREATED then lift_order (transition od ACCEPTED ts ''paper_venue_accept'' []) else Inr od)
       (\<lambda>working. execute digest draw m working s ts cash constraints reference)"

definition paper_cancel :: "paper_order \<Rightarrow> instant \<Rightarrow> paper_order order_result" where
  "paper_cancel od ts = cancel od ts"

definition paper_status :: "paper_order \<Rightarrow> order_state" where
  "paper_status od = po_state od"

text \<open>The account's adapter is the paper venue with its execution model, or the exception.\<close>

definition adapter_for :: "paper_account \<Rightarrow> execution_model \<Rightarrow> account_error + execution_model" where
  "adapter_for a m = bind_result (resolve_execution_mode a) (\<lambda>_. Inr m)"

section \<open>What an execution can return\<close>

lemma lift_order_Inr [simp]: "lift_order r = Inr x \<longleftrightarrow> r = Inr x"
  by (cases r) (simp_all add: lift_order_def)

lemma lift_order_Inl [simp]: "lift_order r = Inl e \<longleftrightarrow> (\<exists>x. e = Order_Error x \<and> r = Inl x)"
  by (cases r) (auto simp: lift_order_def)

lemma lift_pricing_Inr [simp]: "lift_pricing r = Inr x \<longleftrightarrow> r = Inr x"
  by (cases r) (simp_all add: lift_pricing_def)

lemma lift_pricing_Inl [simp]: "lift_pricing r = Inl e \<longleftrightarrow> (\<exists>x. e = Pricing_Error x \<and> r = Inl x)"
  by (cases r) (auto simp: lift_pricing_def)

lemma lift_simps [simp]:
  "lift_order (Inr x) = Inr x" "lift_order (Inl e) = Inl (Order_Error e)"
  "lift_pricing (Inr y) = Inr y" "lift_pricing (Inl p) = Inl (Pricing_Error p)"
  by (simp_all add: lift_order_def lift_pricing_def)

definition refused_with :: "paper_order \<Rightarrow> reject_reason \<Rightarrow> execution_outcome \<Rightarrow> bool" where
  "refused_with od r oc \<longleftrightarrow> eo_fill oc = None \<and> eo_reject_reason oc = Some r
     \<and> is_terminal (po_state (eo_order oc)) \<and> po_filled_quantity (eo_order oc) = po_filled_quantity od
     \<and> po_average_fill_price (eo_order oc) = po_average_fill_price od"

lemma reject_execution_refuses: "reject_execution od ts r = Inr oc \<Longrightarrow> refused_with od r oc"
  by (auto simp: reject_execution_def bind_result_Inr_iff refused_with_def reject_Inr_iff cancel_def
      transition_Inr_iff split: if_splits)

lemma expire_execution_refuses: "expire_execution od ts = Inr oc \<Longrightarrow> refused_with od INTENT_EXPIRED oc"
  by (auto simp: expire_execution_def bind_result_Inr_iff refused_with_def expire_def transition_Inr_iff)

lemma settle_execution_cases:
  assumes "settle_execution od ts cash c reference f = Inr oc"
  obtains (refused) r where "refused_with od r oc"
  | (filled) filled where "apply_fill od (fl_quantity f) (fl_price f) ts ''paper_fill'' = Inr filled"
      "oc = \<lparr>eo_order = filled, eo_fill = Some f, eo_reject_reason = None\<rparr>"
      "ic_all_or_none c \<longrightarrow> remaining_quantity od \<le> fl_quantity f"
      "\<forall>b r. ic_max_slippage c = Some b \<longrightarrow> reference = Some r \<longrightarrow> slipped f r \<le> b"
      "fl_side f = BUY \<longrightarrow> (\<exists>k. costs_total (fl_costs f) = Inr k \<and> fl_price f * dec_int (fl_quantity f) + k \<le> cash)"
  using assms
  by (auto simp: settle_execution_def Let_def bind_result_Inr_iff dec_not_less not_less
      dest: reject_execution_refuses split: if_splits option.splits)

lemma execute_cases:
  assumes "execute digest draw m od s ts cash constraints reference = Inr oc"
  defines "c \<equiv> case_option no_constraints id constraints"
  obtains (idle) "is_terminal (po_state od)" "oc = \<lparr>eo_order = od, eo_fill = None, eo_reject_reason = Some EXECUTION_REJECTED\<rparr>"
  | (refused) r where "refused_with od r oc" "\<not> is_terminal (po_state od)"
  | (filled) f sim where "\<not> is_terminal (po_state od)" "\<forall>t. ic_valid_until c = Some t \<longrightarrow> ts \<le> t"
      "em_reject_on_unreliable_state m \<longrightarrow> q_status (mst_quality s) \<noteq> QS_UNRELIABLE"
      "strategy_intent_check (probe_of od) = None"
      "simulate_fill digest draw (probe_of od) s (em_fill_model m) = Inr sim" "fo_fill sim = Some f"
      "settle_execution od ts cash c reference f = Inr oc"
  using assms
  by (auto simp: execute_def Let_def bind_result_Inr_iff not_less
      dest: reject_execution_refuses expire_execution_refuses split: if_splits option.splits)

lemma simulated_fill:
  assumes "simulate_fill digest draw i s m = Inr oc" "fo_fill oc = Some f"
  shows "fl_instrument_id f = si_instrument_id i" "fl_side f = si_side i" "0 < fl_quantity f"
    "fl_quantity f \<le> si_quantity i"
    "si_order_type i = LIMIT \<Longrightarrow> si_limit_price i \<noteq> None \<Longrightarrow> si_limit_price i = Some (fl_price f)"
  using assms(1)
  by (cases rule: simulate_fill_Inr;
      use assms(2) settle_price_Inr fillable_bounds(1) in \<open>fastforce simp: rejected_fill_def\<close>)+

lemma reject_execution_returns:
  "po_state od \<in> {ACCEPTED, SUBMITTED, PARTIALLY_FILLED} \<Longrightarrow> \<exists>oc. reject_execution od ts r = Inr oc"
  by (auto simp: reject_execution_def bind_result_Inr_iff reject_Inr_iff cancel_def transition_Inr_iff)

lemma apply_fill_returns:
  assumes "order_ok od" "po_state od \<in> {ACCEPTED, SUBMITTED, PARTIALLY_FILLED}" "0 < q" "q \<le> remaining_quantity od"
  shows "\<exists>od'. apply_fill od q p ts trigger = Inr od'"
  using assms by (auto simp: apply_fill_Inr_iff transition_Inr_iff)

lemma execute_no_order_error:
  assumes ok: "order_ok od" and st: "po_state od \<in> {ACCEPTED, SUBMITTED, PARTIALLY_FILLED}"
  shows "execute digest draw m od s ts cash constraints reference \<noteq> Inl (Order_Error e)"
proof -
  have rej: "reject_execution od ts r \<noteq> Inl x" for r x
    using reject_execution_returns [OF st, of ts r] by auto
  obtain ox where ex: "expire_execution od ts = Inr ox"
    using st by (auto simp: expire_execution_def expire_def bind_result_Inr_iff transition_Inr_iff)
  have set: "settle_execution od ts cash c reference f \<noteq> Inl (Order_Error e)"
    if "0 < fl_quantity f" "fl_quantity f \<le> remaining_quantity od" for c f
    using rej apply_fill_returns [OF ok st that, of "fl_price f" ts "''paper_fill''"]
    by (auto simp: settle_execution_def Let_def bind_result_Inl_iff split: if_splits option.splits)
  have sim: "0 < fl_quantity f \<and> fl_quantity f \<le> remaining_quantity od"
    if "simulate_fill digest draw (probe_of od) s (em_fill_model m) = Inr oc" "fo_fill oc = Some f" for oc f
    using simulated_fill(3,4) [OF that] by (simp add: probe_of_def)
  show ?thesis
  proof
    assume "execute digest draw m od s ts cash constraints reference = Inl (Order_Error e)"
    then obtain oc f where "simulate_fill digest draw (probe_of od) s (em_fill_model m) = Inr oc" "fo_fill oc = Some f"
      "settle_execution od ts cash (case_option no_constraints id constraints) reference f = Inl (Order_Error e)"
      using rej ex by (auto simp: execute_def Let_def bind_result_Inl_iff split: if_splits option.splits)
    then show False using set sim by blast
  qed
qed

text \<open>
  Claim C19: a fill respects the order and everything declared about it. If an execution returns a fill,
  the order was live, the market time was not past its validity, the market state was not one the
  model refuses, and the fill is for the order's instrument and side, at the limit price of a limit
  order, for a positive quantity not above what remained and for all of it when all-or-none is
  declared; it slipped no more than declared, a purchase with its costs fits in the cash, and the
  order has moved by exactly this fill.
\<close>

theorem fill_respects_order:
  assumes "execute digest draw m od s ts cash constraints reference = Inr oc" and "eo_fill oc = Some f"
    and "order_ok od"
  shows "\<not> is_terminal (po_state od)
    \<and> (\<forall>c t. constraints = Some c \<longrightarrow> ic_valid_until c = Some t \<longrightarrow> ts \<le> t)
    \<and> (em_reject_on_unreliable_state m \<longrightarrow> q_status (mst_quality s) \<noteq> QS_UNRELIABLE)
    \<and> fl_instrument_id f = po_instrument_id od \<and> fl_side f = po_side od
    \<and> (po_order_type od = LIMIT \<longrightarrow> po_limit_price od = Some (fl_price f))
    \<and> 0 < fl_quantity f \<and> fl_quantity f \<le> remaining_quantity od
    \<and> (\<forall>c. constraints = Some c \<longrightarrow> ic_all_or_none c \<longrightarrow> fl_quantity f = remaining_quantity od)
    \<and> (\<forall>c b r. constraints = Some c \<longrightarrow> ic_max_slippage c = Some b \<longrightarrow> reference = Some r \<longrightarrow> slipped f r \<le> b)
    \<and> (fl_side f = BUY \<longrightarrow> (\<exists>k. costs_total (fl_costs f) = Inr k \<and> fl_price f * dec_int (fl_quantity f) + k \<le> cash))
    \<and> po_filled_quantity (eo_order oc) = po_filled_quantity od + fl_quantity f
    \<and> (po_state (eo_order oc) = FILLED \<longleftrightarrow> fl_quantity f = remaining_quantity od)"
  using assms(1)
proof (cases rule: execute_cases)
  case (filled g sim)
  from filled(7) show ?thesis
  proof (cases rule: settle_execution_cases)
    case (refused r)
    then show ?thesis using assms(2) by (simp add: refused_with_def)
  next
    case fin: (filled od')
    have g: "g = f" using fin(2) assms(2) by simp
    from simulated_fill [OF filled(5,6)] filled(4)
    have sim: "fl_instrument_id f = po_instrument_id od" "fl_side f = po_side od" "0 < fl_quantity f"
      "fl_quantity f \<le> remaining_quantity od" "po_order_type od = LIMIT \<longrightarrow> po_limit_price od = Some (fl_price f)"
      by (auto simp: g probe_of_def strategy_intent_check_def split: if_splits)
    have od': "po_filled_quantity od' = po_filled_quantity od + fl_quantity f" "po_quantity od' = po_quantity od"
      "po_state od' = (if po_filled_quantity od' = po_quantity od' then FILLED else PARTIALLY_FILLED)"
      using apply_fill_fields [OF assms(3) fin(1)] by (simp_all add: g)
    show ?thesis
      using filled(1-3) fin sim od' by (auto simp: g remaining_quantity_def)
  qed
qed (use assms(2) in \<open>auto simp: refused_with_def\<close>)

text \<open>
  A refusal moves nothing. An execution that returns without a fill names its reason, leaves
  the filled quantity and the average price as they were, and leaves the order terminal.
\<close>

theorem refusal_moves_nothing:
  assumes "execute digest draw m od s ts cash constraints reference = Inr oc" and "eo_fill oc = None"
  shows "eo_reject_reason oc \<noteq> None \<and> is_terminal (po_state (eo_order oc))
    \<and> po_filled_quantity (eo_order oc) = po_filled_quantity od
    \<and> po_average_fill_price (eo_order oc) = po_average_fill_price od"
  using assms(1)
proof (cases rule: execute_cases)
  case (filled g sim)
  from filled(7) show ?thesis
    by (cases rule: settle_execution_cases) (use assms(2) in \<open>auto simp: refused_with_def\<close>)
qed (auto simp: refused_with_def)

text \<open>
  A rejection is a result. Submitting a valid order that is new, accepted or partially filled
  never raises an order exception, whatever the market, the cash and the constraints: every refusal
  comes back as an outcome. What can still be raised is the arithmetic of prices, and the intent
  check when the order's knowledge precedes its decision.
\<close>

theorem submission_never_raises_transition:
  assumes "order_ok od" and "po_state od \<in> {CREATED, ACCEPTED, SUBMITTED, PARTIALLY_FILLED}"
  shows "paper_submit digest draw m od s ts cash constraints reference \<noteq> Inl (Order_Error e)"
proof -
  have step: "\<exists>od1. (if po_state od = CREATED then lift_order (transition od ACCEPTED ts ''paper_venue_accept'' []) else Inr od) = Inr od1
      \<and> order_ok od1 \<and> po_state od1 \<in> {ACCEPTED, SUBMITTED, PARTIALLY_FILLED}"
    using assms by (auto simp: transition_Inr_iff order_ok_def)
  then obtain od1 where od1: "(if po_state od = CREATED then lift_order (transition od ACCEPTED ts ''paper_venue_accept'' []) else Inr od) = Inr od1"
    "order_ok od1" "po_state od1 \<in> {ACCEPTED, SUBMITTED, PARTIALLY_FILLED}" by blast
  have "execute digest draw m od1 s ts cash constraints reference \<noteq> Inl (Order_Error e)"
    by (rule execute_no_order_error [OF od1(2,3)])
  then show ?thesis by (simp add: paper_submit_def od1(1))
qed

section \<open>A small order for the witnesses\<close>

definition sample_order :: "order_state \<Rightarrow> paper_order" where
  "sample_order st = \<lparr>po_order_id = ''r'', po_account_id = ''acc'', po_intent_id = ''int_1'',
     po_instrument_id = 7, po_side = SELL, po_quantity = 10, po_order_type = MARKET, po_created_at = 100,
     po_limit_price = None, po_state = st, po_filled_quantity = 0, po_average_fill_price = None,
     po_reject_reason = None, po_events = [], po_signal_id = [], po_signal_version = 0, po_strategy_id = ''s'',
     po_strategy_version = 1, po_state_checkpoint_ref = [], po_build_context_id = [],
     po_knowledge_time = Some 100, po_decision_time = Some 100, po_config_digest = [],
     po_authorizing_risk_decision_id = ''rdec_1'', po_authorizing_decision_sequence = Some 1,
     po_venue = PAPER_VENUE, po_client_order_attempt_id = [], po_provider_order_id = None,
     po_provider_status = None, po_provider_event_time = None, po_received_at = None, po_extras = []\<rparr>"

definition sample_execution :: execution_model where
  "sample_execution = \<lparr>em_fill_model = sample_model TOUCH 0, em_reject_on_unreliable_state = True\<rparr>"

definition sample_market :: market_state where
  "sample_market = market_of [quoted_leg 7 (Dec 100 0) (Dec 101 0) 100]"

lemma sample_order_ok [simp]: "order_ok (sample_order st)"
  by (simp add: order_ok_def sample_order_def)

lemma sample_order_fields [simp]:
  "po_state (sample_order st) = st" "remaining_quantity (sample_order st) = 10"
  by (simp_all add: remaining_quantity_def sample_order_def)

lemma probe_of_sample_order: "probe_of (sample_order st) = market_order SELL 10"
  by (simp add: probe_of_def market_order_def sample_order_def remaining_quantity_def)

lemma sample_execute:
  "\<exists>oc f. execute (\<lambda>_. ''x'') (\<lambda>_. 0) sample_execution (sample_order ACCEPTED) sample_market 100 0 None None = Inr oc
     \<and> eo_fill oc = Some f \<and> fl_price f = Dec 100 (- 2) \<and> fl_quantity f = 10"
proof -
  obtain sim f where f: "sample_fill_run TOUCH 0 (Dec 100 0) (Dec 101 0) SELL 10 = Inr sim" "fo_fill sim = Some f"
    "fl_price f = Dec 100 (- 2)" "fl_quantity f = 10"
    using sample_touch_sale by (elim exE conjE)
  have sell: "fl_side f = SELL"
    using simulated_fill(2) [OF f(1) [unfolded sample_fill_run_def] f(2)] by (simp add: market_order_def)
  obtain od' where "apply_fill (sample_order ACCEPTED) (fl_quantity f) (fl_price f) 100 ''paper_fill'' = Inr od'"
    using apply_fill_returns [of "sample_order ACCEPTED" "fl_quantity f" "fl_price f" 100 "''paper_fill''"] f(4)
    by auto
  then have "settle_execution (sample_order ACCEPTED) 100 0 no_constraints None f
      = Inr \<lparr>eo_order = od', eo_fill = Some f, eo_reject_reason = None\<rparr>"
    using sell by (simp add: settle_execution_def Let_def)
  then have "execute (\<lambda>_. ''x'') (\<lambda>_. 0) sample_execution (sample_order ACCEPTED) sample_market 100 0 None None
      = Inr \<lparr>eo_order = od', eo_fill = Some f, eo_reject_reason = None\<rparr>"
    using f(1,2)
    by (simp add: execute_def probe_of_sample_order sample_execution_def sample_market_def sample_fill_run_def
        strategy_intent_check_def) (simp add: market_order_def market_of_def)
  then show ?thesis using f by auto
qed

theorem fill_respects_order_witness:
  "\<exists>oc f. execute (\<lambda>_. ''x'') (\<lambda>_. 0) sample_execution (sample_order ACCEPTED) sample_market 100 0 None None = Inr oc
     \<and> eo_fill oc = Some f \<and> fl_quantity f = 10 \<and> po_state (eo_order oc) = FILLED"
proof -
  obtain oc f where f: "execute (\<lambda>_. ''x'') (\<lambda>_. 0) sample_execution (sample_order ACCEPTED) sample_market 100 0 None None = Inr oc"
    "eo_fill oc = Some f" "fl_quantity f = 10"
    using sample_execute by (elim exE conjE)
  from fill_respects_order [OF f(1,2) sample_order_ok] f show ?thesis by auto
qed

definition day_order_constraints :: intent_constraints where
  "day_order_constraints = no_constraints\<lparr>ic_valid_until := Some 50\<rparr>"

theorem refusal_moves_nothing_witness:
  "\<exists>oc. execute (\<lambda>_. ''x'') (\<lambda>_. 0) sample_execution (sample_order PARTIALLY_FILLED) sample_market 100 0
       (Some day_order_constraints) None = Inr oc
     \<and> eo_fill oc = None \<and> is_terminal (po_state (eo_order oc)) \<and> po_filled_quantity (eo_order oc) = 0"
proof -
  obtain oc where oc: "execute (\<lambda>_. ''x'') (\<lambda>_. 0) sample_execution (sample_order PARTIALLY_FILLED) sample_market 100 0
       (Some day_order_constraints) None = Inr oc" "eo_fill oc = None"
    by (simp add: execute_def expire_execution_def expire_def transition_def day_order_constraints_def Let_def)
  from refusal_moves_nothing [OF this] show ?thesis using oc by (auto simp: sample_order_def)
qed

theorem submission_never_raises_transition_witness:
  "paper_submit (\<lambda>_. ''x'') (\<lambda>_. 0) sample_execution (sample_order CREATED) sample_market 100 0 None None
     \<noteq> Inl (Order_Error OrderValueError)"
  by (rule submission_never_raises_transition) simp_all

text \<open>
  An order that rests as OPEN cannot be rejected by the table, and the refusal raises after all: against
  an unreliable state the execution of an OPEN order ends in the exception of the transition.
\<close>

theorem open_order_refusal_raises:
  "execute (\<lambda>_. ''x'') (\<lambda>_. 0) sample_execution (sample_order OPEN)
     (sample_market\<lparr>mst_quality := (mst_quality sample_market)\<lparr>q_status := QS_UNRELIABLE\<rparr>\<rparr>) 100 0 None None
   = Inl (Order_Error (InvalidTransition ''r'' OPEN REJECTED))"
  by (simp add: execute_def reject_execution_def reject_def transition_def sample_execution_def lift_order_def)
    (simp add: sample_order_def)

end
