(* ===== verification/Events.thy ===== *)
theory Events
  imports OIP_Prelude
begin

text \<open>
  \<^verbatim>\<open>oipulse/events/domain.py\<close>, \<^verbatim>\<open>oipulse/events/inbox.py\<close> and \<^verbatim>\<open>oipulse/trading/events.py\<close>: the
  domain event, the sequence check, the transactional inbox and the watermarks, which together decide
  whether a delivery is applied, absorbed or deferred. A mutation is a function on the subscriber's
  own state that returns its result or its exception; the payload is a type parameter.
\<close>

section \<open>Domain events (events/domain.py)\<close>

datatype aggregate_type =
  AGG_SYSTEM | AGG_MARKET_STATE | AGG_SIGNAL | AGG_ALERT | AGG_TRADE_INTENT | AGG_ORDER | AGG_POSITION | AGG_PORTFOLIO

type_synonym aggregate_key = "aggregate_type \<times> string"

record 'p domain_event =
  de_event_type :: string
  de_aggregate_type :: aggregate_type
  de_aggregate_id :: string
  de_aggregate_sequence :: int
  de_occurred_at :: instant
  de_payload :: 'p
  de_event_id :: string

datatype event_error = SequenceBelowFirst | AggregateWithoutId

definition event_check :: "'p domain_event \<Rightarrow> event_error option" where
  "event_check e =
     (if de_aggregate_sequence e < 1 then Some SequenceBelowFirst
      else if de_aggregate_id e = [] then Some AggregateWithoutId
      else None)"

definition aggregate_key :: "'p domain_event \<Rightarrow> aggregate_key" where
  "aggregate_key e = (de_aggregate_type e, de_aggregate_id e)"

text \<open>\<open>SequenceGap\<close> with its aggregate, the expected and the received number.\<close>

datatype sequence_gap = SequenceGap aggregate_key int int

definition check_sequence :: "int option \<Rightarrow> 'p domain_event \<Rightarrow> sequence_gap option" where
  "check_sequence prev e =
     (let expected = (case prev of None \<Rightarrow> 1 | Some n \<Rightarrow> n + 1)
      in if expected < de_aggregate_sequence e
         then Some (SequenceGap (aggregate_key e) expected (de_aggregate_sequence e)) else None)"

section \<open>The inbox (events/inbox.py)\<close>

type_synonym inbox = "(string \<times> string) set"

definition claim :: "inbox \<Rightarrow> string \<Rightarrow> string \<Rightarrow> inbox \<times> bool" where
  "claim ib subscriber i = (if (subscriber, i) \<in> ib then (ib, False) else (insert (subscriber, i) ib, True))"

definition release_claim :: "inbox \<Rightarrow> string \<Rightarrow> string \<Rightarrow> inbox" where
  "release_claim ib subscriber i = ib - {(subscriber, i)}"

definition was_applied :: "inbox \<Rightarrow> string \<Rightarrow> string \<Rightarrow> bool" where
  "was_applied ib subscriber i \<longleftrightarrow> (subscriber, i) \<in> ib"

text \<open>The inner option is the code's \<open>None\<close> of a redelivery.\<close>

definition apply_once ::
  "inbox \<Rightarrow> string \<Rightarrow> string \<Rightarrow> ('s \<Rightarrow> 's \<times> ('e + 'r)) \<Rightarrow> 's \<Rightarrow> inbox \<times> 's \<times> ('e + 'r option)" where
  "apply_once ib subscriber i mutation s =
     (case claim ib subscriber i of
        (ib', False) \<Rightarrow> (ib', s, Inr None)
      | (ib', True) \<Rightarrow>
          (case mutation s of
             (s', Inl e) \<Rightarrow> (release_claim ib' subscriber i, s', Inl e)
           | (s', Inr r) \<Rightarrow> (ib', s', Inr (Some r))))"

section \<open>Watermarks (trading/events.py)\<close>

definition paper_trading_subscriber :: string where
  "paper_trading_subscriber = ''paper_trading''"

type_synonym watermarks = "(aggregate_key, int) dict"

definition last_applied :: "watermarks \<Rightarrow> 'p domain_event \<Rightarrow> int option" where
  "last_applied w e = dict_get w (aggregate_key e)"

definition record_event :: "watermarks \<Rightarrow> 'p domain_event \<Rightarrow> watermarks" where
  "record_event w e = dict_set (aggregate_key e)
     (case dict_get w (aggregate_key e) of
        None \<Rightarrow> de_aggregate_sequence e | Some n \<Rightarrow> max n (de_aggregate_sequence e)) w"

text \<open>
  \<open>apply_ordered\<close>: the gap leaves everything as it was; the watermark moves inside the mutation handed
  to the inbox, so it is part of the state that \<open>apply_once\<close> threads.
\<close>

definition apply_ordered ::
  "string \<Rightarrow> 'p domain_event \<Rightarrow> ('s \<Rightarrow> 's \<times> ('e + 'r)) \<Rightarrow> watermarks \<times> inbox \<times> 's \<Rightarrow>
   (watermarks \<times> inbox \<times> 's) \<times> ((sequence_gap + 'e) + 'r option)" where
  "apply_ordered subscriber e mutation = (\<lambda>(w, ib, s).
     case check_sequence (last_applied w e) e of
       Some gap \<Rightarrow> ((w, ib, s), Inl (Inl gap))
     | None \<Rightarrow>
         (case apply_once ib subscriber (de_event_id e)
            (\<lambda>(w, s). case mutation s of
                (s', Inl x) \<Rightarrow> ((w, s'), Inl x)
              | (s', Inr r) \<Rightarrow> ((record_event w e, s'), Inr r)) (w, s) of
            (ib', (w', s'), Inl x) \<Rightarrow> ((w', ib', s'), Inl (Inr x))
          | (ib', (w', s'), Inr r) \<Rightarrow> ((w', ib', s'), Inr r)))"

text \<open>The events the paper runtime emits.\<close>

definition intent_created_event :: "string \<Rightarrow> int \<Rightarrow> instant \<Rightarrow> 'p \<Rightarrow> string \<Rightarrow> 'p domain_event" where
  "intent_created_event i n ts payload eid = \<lparr>de_event_type = ''paper.intent.created'',
     de_aggregate_type = AGG_TRADE_INTENT, de_aggregate_id = i, de_aggregate_sequence = n, de_occurred_at = ts,
     de_payload = payload, de_event_id = eid\<rparr>"

definition order_domain_event :: "string \<Rightarrow> string \<Rightarrow> int \<Rightarrow> instant \<Rightarrow> 'p \<Rightarrow> string \<Rightarrow> 'p domain_event" where
  "order_domain_event event_type i n ts payload eid = \<lparr>de_event_type = event_type,
     de_aggregate_type = AGG_ORDER, de_aggregate_id = i, de_aggregate_sequence = n, de_occurred_at = ts,
     de_payload = payload, de_event_id = eid\<rparr>"

definition fill_applied_event :: "string \<Rightarrow> int \<Rightarrow> instant \<Rightarrow> 'p \<Rightarrow> string \<Rightarrow> 'p domain_event" where
  "fill_applied_event i n ts payload eid = order_domain_event ''paper.fill.applied'' i n ts payload eid"

section \<open>Exactly once, in order\<close>

text \<open>
  A delivery: an event and whether its mutation succeeds this time. The subscriber's state is the list
  of the events whose mutation committed.
\<close>

type_synonym 'p consumer = "watermarks \<times> inbox \<times> 'p domain_event list"

definition deliver_event :: "string \<Rightarrow> 'p domain_event \<times> bool \<Rightarrow> 'p consumer \<Rightarrow> 'p consumer" where
  "deliver_event subscriber d c =
     fst (apply_ordered subscriber (fst d)
            (\<lambda>hist. if snd d then (hist @ [fst d], Inr ()) else (hist, Inl ())) c)"

lemma deliver_event_eq:
  "deliver_event sub (e, succeeds) (w, ib, hist) =
     (if check_sequence (last_applied w e) e \<noteq> None \<or> (sub, de_event_id e) \<in> ib \<or> \<not> succeeds then (w, ib, hist)
      else (record_event w e, insert (sub, de_event_id e) ib, hist @ [e]))"
  by (auto simp: deliver_event_def apply_ordered_def apply_once_def claim_def release_claim_def split: option.split)

definition same_event :: "'p domain_event \<Rightarrow> 'p domain_event \<Rightarrow> bool" where
  "same_event e e' \<longleftrightarrow> aggregate_key e = aggregate_key e' \<and> de_aggregate_sequence e = de_aggregate_sequence e'"

text \<open>Event ids name positions: the same id exactly for the same place in the same aggregate.\<close>

definition ids_name_positions :: "'p domain_event set \<Rightarrow> bool" where
  "ids_name_positions E \<longleftrightarrow> (\<forall>e\<in>E. \<forall>e'\<in>E. de_event_id e = de_event_id e' \<longleftrightarrow> same_event e e')"

definition watermark :: "watermarks \<Rightarrow> aggregate_key \<Rightarrow> int" where
  "watermark w k = case_option 0 id (dict_get w k)"

definition applied_to :: "aggregate_key \<Rightarrow> 'p domain_event list \<Rightarrow> int list" where
  "applied_to k hist = map de_aggregate_sequence (filter (\<lambda>e. aggregate_key e = k) hist)"

definition in_step :: "string \<Rightarrow> 'p domain_event set \<Rightarrow> 'p consumer \<Rightarrow> bool" where
  "in_step sub E = (\<lambda>(w, ib, hist).
     ib = (\<lambda>e. (sub, de_event_id e)) ` set hist \<and> set hist \<subseteq> E
     \<and> (\<forall>k. 0 \<le> watermark w k \<and> applied_to k hist = [1..watermark w k]))"

lemma in_stepD:
  assumes "in_step sub E (w, ib, hist)"
  shows "ib = (\<lambda>e. (sub, de_event_id e)) ` set hist" "set hist \<subseteq> E" "0 \<le> watermark w k"
    "applied_to k hist = [1..watermark w k]"
  using assms by (simp_all add: in_step_def del: split_paired_All)

lemma check_sequence_None: "check_sequence (dict_get w k) e = None \<longleftrightarrow> de_aggregate_sequence e \<le> watermark w k + 1"
  by (auto simp: check_sequence_def watermark_def Let_def split: option.split)

lemma in_step_deliver:
  assumes inv: "in_step sub E (w, ib, hist)" and ids: "ids_name_positions E" and e: "e \<in> E" "1 \<le> de_aggregate_sequence e"
  shows "in_step sub E (deliver_event sub (e, succeeds) (w, ib, hist))"
proof (cases "check_sequence (last_applied w e) e \<noteq> None \<or> (sub, de_event_id e) \<in> ib \<or> \<not> succeeds")
  case True
  then show ?thesis using inv by (simp only: deliver_event_eq if_True)
next
  case False
  let ?k = "aggregate_key e" and ?n = "de_aggregate_sequence e"
  have w: "0 \<le> watermark w ?k" "applied_to ?k hist = [1..watermark w ?k]" and ib: "ib = (\<lambda>e. (sub, de_event_id e)) ` set hist"
    and sub: "set hist \<subseteq> E"
    using in_stepD [OF inv] by simp_all
  have le: "?n \<le> watermark w ?k + 1" using False by (simp add: last_applied_def check_sequence_None)
  have "\<not> ?n \<le> watermark w ?k"
  proof
    assume "?n \<le> watermark w ?k"
    then have "?n \<in> set (applied_to ?k hist)" using w e(2) by simp
    then obtain e' where e': "e' \<in> set hist" "aggregate_key e' = ?k" "de_aggregate_sequence e' = ?n"
      by (auto simp: applied_to_def)
    then have "de_event_id e' = de_event_id e"
      using ids sub e(1) unfolding ids_name_positions_def same_event_def by blast
    then have "(sub, de_event_id e) \<in> ib" unfolding ib using e'(1) by (metis image_eqI)
    then show False using False by simp
  qed
  with le have n: "?n = watermark w ?k + 1" by simp
  have new: "watermark (record_event w e) k = (if k = ?k then ?n else watermark w k)" for k
    using n by (auto simp: watermark_def record_event_def split: option.split)
  have "applied_to k (hist @ [e]) = [1..watermark (record_event w e) k]" for k
  proof (cases "k = ?k")
    case True
    have "[1..?n] = [1..watermark w ?k] @ [?n]" using upto_rec2 [of 1 ?n] e(2) n by simp
    then show ?thesis using True w(2) by (simp add: new applied_to_def)
  next
    case False
    then show ?thesis using in_stepD(4) [OF inv, of k] by (simp add: new applied_to_def)
  qed
  moreover have "0 \<le> watermark (record_event w e) k" for k
    using in_stepD(3) [OF inv, of k] e(2) by (simp add: new)
  moreover have "deliver_event sub (e, succeeds) (w, ib, hist) = (record_event w e, insert (sub, de_event_id e) ib, hist @ [e])"
    using False by (simp only: deliver_event_eq if_False)
  ultimately show ?thesis using ib sub e(1) by (simp add: in_step_def)
qed

text \<open>
  Claim C23: exactly once and in order. If event ids name positions, then however events are lost,
  reordered, delivered again, or fail and are retried, the events applied to an aggregate are numbers
  one to its watermark, each once and in ascending order.
\<close>

theorem exactly_once_in_order:
  assumes "ids_name_positions (fst ` set ds)" and "\<forall>d\<in>set ds. event_check (fst d) = None"
    and "fold (deliver_event sub) ds ([], {}, []) = (w, ib, hist)"
  shows "applied_to k hist = [1..watermark w k]"
proof -
  have "in_step sub (fst ` set ds) (fold (deliver_event sub) ds' c)"
    if "in_step sub (fst ` set ds) c" "set ds' \<subseteq> set ds" for ds' c
    using that
  proof (induction ds' arbitrary: c)
    case (Cons d ds')
    obtain e succeeds w ib hist where d: "d = (e, succeeds)" "c = (w, ib, hist)" by (cases d, cases c) auto
    have "e \<in> fst ` set ds" "1 \<le> de_aggregate_sequence e"
      using Cons.prems(2) assms(2) d by (force simp: event_check_def split: if_splits)+
    then have "in_step sub (fst ` set ds) (deliver_event sub d c)"
      using in_step_deliver [OF _ assms(1)] Cons.prems(1) d by simp
    then show ?case using Cons by simp
  qed simp
  moreover have "in_step sub (fst ` set ds) ([], {}, [])" by (simp add: in_step_def watermark_def applied_to_def)
  ultimately have "in_step sub (fst ` set ds) (w, ib, hist)" using assms(3) by (metis order_refl)
  then show ?thesis by (rule in_stepD)
qed

definition sample_event :: "int \<Rightarrow> string \<Rightarrow> int domain_event" where
  "sample_event n eid = order_domain_event ''paper.order.state_changed'' ''o'' n 100 n eid"

theorem exactly_once_in_order_witness:
  "applied_to (AGG_ORDER, ''o'') (snd (snd (fold (deliver_event ''s'')
     [(sample_event 2 ''b'', True), (sample_event 1 ''a'', False), (sample_event 1 ''a'', True),
      (sample_event 1 ''a'', True), (sample_event 2 ''b'', True)] ([], {}, [])))) = [1, 2]"
proof -
  let ?ds = "[(sample_event 2 ''b'', True), (sample_event 1 ''a'', False), (sample_event 1 ''a'', True),
      (sample_event 1 ''a'', True), (sample_event 2 ''b'', True)]"
  obtain w ib hist where r: "fold (deliver_event ''s'') ?ds ([], {}, []) = (w, ib, hist)" by (rule prod_cases3)
  have "w = [((AGG_ORDER, ''o''), 2)]"
    using r [symmetric]
    by (simp add: deliver_event_eq check_sequence_def last_applied_def record_event_def aggregate_key_def
        sample_event_def order_domain_event_def dict_set_def)
  then have "watermark w (AGG_ORDER, ''o'') = 2" by (simp add: watermark_def)
  moreover have "ids_name_positions (fst ` set ?ds)"
    by (simp add: ids_name_positions_def same_event_def aggregate_key_def sample_event_def order_domain_event_def)
  moreover have "\<forall>d\<in>set ?ds. event_check (fst d) = None"
    by (simp add: event_check_def sample_event_def order_domain_event_def)
  moreover have "[1..2] = [1, 2 :: int]" by (simp add: upto.simps)
  ultimately show ?thesis using exactly_once_in_order [OF _ _ r, of "(AGG_ORDER, ''o'')"] r by simp
qed

text \<open>
  The condition on the ids is needed: an event emitted again under a fresh id, as the runtime's event
  factories make them, is neither a gap nor a known id, and is applied a second time.
\<close>

theorem reissued_event_applied_twice:
  "e = sample_event 1 ''a'' \<Longrightarrow> e' = sample_event 1 ''b'' \<Longrightarrow> same_event e e'
   \<and> snd (snd (fold (deliver_event ''s'') [(e, True), (e', True)] ([], {}, []))) = [e, e']"
  by (simp add: same_event_def aggregate_key_def deliver_event_eq check_sequence_def last_applied_def
      record_event_def sample_event_def order_domain_event_def dict_set_def)

end
