(* ===== verification/Runtime.thy ===== *)
theory Runtime
  imports Execution Events Risk_Engine
begin

text \<open>
  \<^verbatim>\<open>oipulse/trading/runtime.py\<close>: the paper-trading runtime of one account, from an intent through the
  risk gate, the orders, the paper venue and the fills to the book. An entry point takes the runtime and
  returns it with the result or the exception: what was stored before an exception stays stored. The
  digests, the draw, the random event ids and the risk gate are the fields of an environment.
\<close>

section \<open>Environment and state\<close>

type_synonym risk_gate =
  "trade_intent \<Rightarrow> risk_state \<Rightarrow> int \<Rightarrow> instant \<Rightarrow> instant option \<Rightarrow> decision_error + risk_decision"

record paper_env =
  en_hashes :: hashes
  en_order_digest :: "string \<times> int \<times> string \<Rightarrow> string"
  en_config_digest :: "account_config \<Rightarrow> string"
  en_probe_digest :: "strategy_content \<Rightarrow> string"
  en_draw :: "string \<Rightarrow> int"
  en_context_digest :: "build_context \<Rightarrow> string"
  en_state_digest :: "state_content \<Rightarrow> string"
  en_event_ids :: "nat \<Rightarrow> string"
  en_gate :: risk_gate
  en_utc_offset :: duration
  en_execution :: execution_model

datatype runtime_payload = Intent_Payload trade_intent | Order_Payload order_event

datatype runtime_error =
    RT_Account account_error | RT_State state_error | RT_Decision decision_error | RT_Exec exec_error
  | RT_Gap sequence_gap | RT_MissingOrder | RT_NoDecision | RT_Opening

record paper_runtime =
  rt_account :: paper_account
  rt_ledger :: paper_ledger
  rt_orders :: "(string, paper_order) dict"
  rt_intents :: "(string, trade_intent) dict"
  rt_decisions :: "(string, risk_decision list) dict"
  rt_fills :: "fill list"
  rt_fills_by_order :: "(string, fill list) dict"
  rt_watermarks :: watermarks
  rt_inbox :: inbox
  rt_event_count :: nat
  rt_emitted :: "(string, int list) dict"
  rt_duplicate_intents :: int
  rt_kill_switch :: kill_switch

definition switch_off :: kill_switch where
  "switch_off = \<lparr>ks_engaged = False, ks_halted_strategies = [], ks_reason = [], ks_engaged_at = None\<rparr>"

definition new_runtime :: "paper_env \<Rightarrow> paper_account \<Rightarrow> runtime_error + paper_runtime" where
  "new_runtime en a =
     (case adapter_for a (en_execution en) of
        Inl e \<Rightarrow> Inl (RT_Account e)
      | Inr _ \<Rightarrow>
          (case new_paper_ledger (pa_account_id a) (ac_starting_cash (pa_config a)) of
             None \<Rightarrow> Inl RT_Opening
           | Some l \<Rightarrow> Inr \<lparr>rt_account = a, rt_ledger = l, rt_orders = [], rt_intents = [], rt_decisions = [],
               rt_fills = [], rt_fills_by_order = [], rt_watermarks = [], rt_inbox = {}, rt_event_count = 0,
               rt_emitted = [], rt_duplicate_intents = 0, rt_kill_switch = switch_off\<rparr>))"

section \<open>Reading\<close>

definition runtime_orders :: "paper_runtime \<Rightarrow> paper_order list" where
  "runtime_orders r = sorted_values (rt_orders r)"

definition decisions_for :: "paper_runtime \<Rightarrow> string \<Rightarrow> risk_decision list" where
  "decisions_for r i = case_option [] id (dict_get (rt_decisions r) i)"

definition fills_for_order :: "paper_runtime \<Rightarrow> string \<Rightarrow> fill list" where
  "fills_for_order r i = case_option [] id (dict_get (rt_fills_by_order r) i)"

definition open_orders :: "paper_runtime \<Rightarrow> paper_order list" where
  "open_orders r = filter is_open (runtime_orders r)"

section \<open>The risk state\<close>

definition all_legs_of :: "market_state \<Rightarrow> (expiry_slice \<times> option_leg) list" where
  "all_legs_of s = concat (map (\<lambda>e. map (\<lambda>l. (e, l)) (es_legs e)) (mst_expiries s))"

definition marks_from :: "market_state \<Rightarrow> (int, decimal) dict" where
  "marks_from s =
     foldl (\<lambda>d (e, l). case ol_ltp l of None \<Rightarrow> d | Some p \<Rightarrow> dict_set (ol_instrument_id l) p d) [] (all_legs_of s)"

definition instrument_groups :: "market_state \<Rightarrow> (int, int \<times> int \<times> decimal) dict" where
  "instrument_groups s =
     foldl (\<lambda>d (e, l). dict_set (ol_instrument_id l)
              (id_underlying_id (mst_identity s), es_expiry_id e, ol_strike l) d) [] (all_legs_of s)"

definition runtime_reference_price :: "market_state \<Rightarrow> int \<Rightarrow> decimal option" where
  "runtime_reference_price s i =
     (case find (\<lambda>(e, l). ol_instrument_id l = i) (all_legs_of s) of None \<Rightarrow> None | Some (e, l) \<Rightarrow> ol_ltp l)"

definition runtime_strategy_positions :: "paper_runtime \<Rightarrow> (string \<times> int) list" where
  "runtime_strategy_positions r =
     sort (foldl (\<lambda>d od. if po_strategy_id od = [] then d
                         else dict_set (po_strategy_id od)
                           (case_option 0 id (dict_get d (po_strategy_id od)) + \<bar>po_filled_quantity od\<bar>) d)
             [] (runtime_orders r))"

text \<open>
  \<open>Decimal(str(x))\<close> of a float: the shortest digits that read back as \<open>x\<close>, at most seventeen; \<open>repr\<close>
  writes a whole number with a trailing \<open>.0\<close>.
\<close>

definition float_digits :: "rat \<Rightarrow> nat" where
  "float_digits x = (case find (\<lambda>n. rnd53 (rnd_sig 10 n x) = x) [1..<18] of Some n \<Rightarrow> n | None \<Rightarrow> 17)"

definition decimal_of_float :: "rat \<Rightarrow> decimal" where
  "decimal_of_float x =
     (if x = 0 then Dec 0 (- 1)
      else let v = rnd_sig 10 (float_digits x) x; e = adj 10 v - int (float_digits x - 1)
           in Dec v (if 0 \<le> e \<and> \<bar>x\<bar> < 10 ^ 16 then - 1 else e))"

fun quality_word :: "quality_status \<Rightarrow> string" where
  "quality_word QS_OK = ''ok''"
| "quality_word QS_WARNING = ''warning''"
| "quality_word QS_DEGRADED = ''degraded''"
| "quality_word QS_UNRELIABLE = ''unreliable''"

definition position_row ::
  "(int, int \<times> int \<times> decimal) dict \<Rightarrow> (int, decimal) dict \<Rightarrow> position \<Rightarrow> position_snapshot" where
  "position_row groups marks p =
     (let g = dict_get groups (pos_instrument_id p) in
      \<lparr>ps_instrument_id = pos_instrument_id p, ps_quantity = pos_quantity p, ps_average_price = pos_average_price p,
       ps_underlying_id = map_option fst g, ps_expiry_id = map_option (fst \<circ> snd) g,
       ps_strike = map_option (snd \<circ> snd) g, ps_mark = dict_get marks (pos_instrument_id p)\<rparr>)"

definition runtime_quality :: "paper_env \<Rightarrow> market_state \<Rightarrow> state_quality" where
  "runtime_quality en s = \<lparr>sq_status = quality_word (q_status (mst_quality s)),
     sq_coverage_ratio = Some (decimal_of_float (q_coverage_ratio (mst_quality s))),
     sq_staleness = q_staleness_p95 (mst_quality s),
     sq_market_state_ref = en_state_digest en (as_comparable (en_context_digest en) s),
     sq_build_context_id = id_build_context_id (mst_identity s)\<rparr>"

definition runtime_risk_state ::
  "paper_env \<Rightarrow> paper_runtime \<Rightarrow> market_state \<Rightarrow> instant \<Rightarrow> instant option \<Rightarrow> state_error + risk_state" where
  "runtime_risk_state en r s ts knowledge =
     (let marks = marks_from s;
          snap = paper_snapshot_at (rt_ledger r) ts marks;
          inner = ps_inner snap;
          positions = map (position_row (instrument_groups s) marks) (Ledger.open_positions (pl_inner (rt_ledger r)));
          total = ls_realized_pnl inner + ls_unrealized_pnl inner
      in make_risk_state
        \<lparr>rs_account_id = pa_account_id (rt_account r),
         rs_as_of = ts, rs_utc_offset = en_utc_offset en, rs_knowledge_time = case_option ts id knowledge,
         rs_cash = ls_cash inner, rs_equity = equity inner, rs_positions = positions,
         rs_exposure = build_exposure positions (\<lambda>_. None),
         rs_quality = runtime_quality en s, rs_kill_switch = rt_kill_switch r,
         rs_reserved_cash = ps_reserved_cash snap,
         rs_realized_pnl = ls_realized_pnl inner, rs_unrealized_pnl = ls_unrealized_pnl inner,
         rs_daily_loss = dec_max (- total) 0,
         rs_drawdown = dec_max (ac_starting_cash (pa_config (rt_account r)) - equity inner) 0,
         rs_loss_by_strategy = [], rs_position_by_strategy = runtime_strategy_positions r,
         rs_instrument_underlying = sort (map (\<lambda>(i, g). (i, fst g)) (instrument_groups s)),
         rs_marks = sort_amounts marks, rs_pending_intent_ids = map po_intent_id (open_orders r),
         rs_orders_in_interval = int (length (rt_orders r)), rs_venue_health = PAPER_SIMULATED,
         rs_is_expiry_day = False\<rparr>)"

definition empty_risk_state :: "paper_env \<Rightarrow> paper_runtime \<Rightarrow> instant \<Rightarrow> state_error + risk_state" where
  "empty_risk_state en r ts =
     make_risk_state
       \<lparr>rs_account_id = pa_account_id (rt_account r), rs_as_of = ts, rs_utc_offset = en_utc_offset en,
        rs_knowledge_time = ts, rs_cash = lg_cash (pl_inner (rt_ledger r)), rs_equity = lg_cash (pl_inner (rt_ledger r)),
        rs_positions = [], rs_exposure = no_exposure,
        rs_quality = \<lparr>sq_status = ''UNKNOWN'', sq_coverage_ratio = None, sq_staleness = None,
          sq_market_state_ref = [], sq_build_context_id = []\<rparr>,
        rs_kill_switch = rt_kill_switch r, rs_reserved_cash = pl_reserved_cash (rt_ledger r),
        rs_realized_pnl = 0, rs_unrealized_pnl = 0, rs_daily_loss = 0, rs_drawdown = 0, rs_loss_by_strategy = [],
        rs_position_by_strategy = [], rs_instrument_underlying = [], rs_marks = [], rs_pending_intent_ids = [],
        rs_orders_in_interval = 0, rs_venue_health = PAPER_SIMULATED, rs_is_expiry_day = False\<rparr>"

section \<open>Events\<close>

text \<open>Every event draws a fresh id; the mutation of the runtime's events does nothing.\<close>

definition emit ::
  "paper_env \<Rightarrow> paper_runtime \<Rightarrow> (string \<Rightarrow> runtime_payload domain_event) \<Rightarrow> paper_runtime \<times> runtime_error option" where
  "emit en r event =
     (case apply_ordered paper_trading_subscriber (event (en_event_ids en (rt_event_count r)))
             (\<lambda>u :: unit. (u, Inr () :: unit + unit)) (rt_watermarks r, rt_inbox r, ()) of
        ((w, ib, _), res) \<Rightarrow>
          (r\<lparr>rt_watermarks := w, rt_inbox := ib, rt_event_count := rt_event_count r + 1\<rparr>,
           case res of Inl (Inl gap) \<Rightarrow> Some (RT_Gap gap) | _ \<Rightarrow> None))"

definition record_intent_event :: "paper_env \<Rightarrow> paper_runtime \<Rightarrow> trade_intent \<Rightarrow> instant \<Rightarrow> paper_runtime \<times> runtime_error option" where
  "record_intent_event en r i ts =
     emit en r (intent_created_event (intent_id (h_intent (en_hashes en)) i) 1 ts (Intent_Payload i))"

definition emitted_for :: "paper_runtime \<Rightarrow> string \<Rightarrow> int list" where
  "emitted_for r i = case_option [] id (dict_get (rt_emitted r) i)"

primrec record_events ::
  "paper_env \<Rightarrow> string \<Rightarrow> instant \<Rightarrow> order_event list \<Rightarrow> paper_runtime \<Rightarrow> paper_runtime \<times> runtime_error option" where
  "record_events en i ts [] r = (r, None)"
| "record_events en i ts (e # es) r =
     (if oe_sequence e \<in> set (emitted_for r i) then record_events en i ts es r
      else case emit en r (order_domain_event ''paper.order.state_changed'' i (oe_sequence e) ts (Order_Payload e)) of
          (r', Some x) \<Rightarrow> (r', Some x)
        | (r', None) \<Rightarrow>
            record_events en i ts es (r'\<lparr>rt_emitted := dict_set i (emitted_for r' i @ [oe_sequence e]) (rt_emitted r')\<rparr>))"

definition record_order_events :: "paper_env \<Rightarrow> paper_runtime \<Rightarrow> paper_order \<Rightarrow> instant \<Rightarrow> paper_runtime \<times> runtime_error option" where
  "record_order_events en r od ts =
     record_events en (po_order_id od) ts (po_events od)
       (r\<lparr>rt_emitted := dict_set (po_order_id od) (emitted_for r (po_order_id od)) (rt_emitted r)\<rparr>)"

section \<open>Submitting an intent\<close>

record submission_report =
  sr_intent :: trade_intent
  sr_risk_decision :: risk_decision
  sr_orders :: "paper_order list"
  sr_fills :: "fill list"
  sr_rejected :: bool
  sr_reject_reason :: "reject_reason option"
  sr_duplicate :: bool

definition report :: "trade_intent \<Rightarrow> risk_decision \<Rightarrow> submission_report" where
  "report i d = \<lparr>sr_intent = i, sr_risk_decision = d, sr_orders = [], sr_fills = [], sr_rejected = False,
     sr_reject_reason = None, sr_duplicate = False\<rparr>"

definition report_accepted :: "submission_report \<Rightarrow> bool" where
  "report_accepted r \<longleftrightarrow> \<not> sr_rejected r \<and> sr_orders r \<noteq> []"

abbreviation runtime_intent_id :: "paper_env \<Rightarrow> trade_intent \<Rightarrow> string" where
  "runtime_intent_id en i \<equiv> intent_id (h_intent (en_hashes en)) i"

abbreviation runtime_key :: "paper_env \<Rightarrow> trade_intent \<Rightarrow> string" where
  "runtime_key en i \<equiv> idempotency_key (h_intent (en_hashes en)) i"

definition remember_intent :: "paper_env \<Rightarrow> trade_intent \<Rightarrow> paper_runtime \<Rightarrow> paper_runtime" where
  "remember_intent en i r =
     r\<lparr>rt_intents := dict_set (runtime_key en i) i (dict_set (runtime_intent_id en i) i (rt_intents r))\<rparr>"

definition append_decision :: "paper_env \<Rightarrow> trade_intent \<Rightarrow> risk_decision \<Rightarrow> paper_runtime \<Rightarrow> paper_runtime" where
  "append_decision en i d r = r\<lparr>rt_decisions := dict_set (runtime_intent_id en i) [d] (rt_decisions r)\<rparr>"

definition store_order :: "paper_order \<Rightarrow> paper_runtime \<Rightarrow> paper_runtime" where
  "store_order od r = r\<lparr>rt_orders := dict_set (po_order_id od) od (rt_orders r)\<rparr>"

text \<open>\<open>_refuse\<close>: the gate is asked against the empty state, then everything is stored.\<close>

definition refuse_intent ::
  "paper_env \<Rightarrow> paper_runtime \<Rightarrow> trade_intent \<Rightarrow> instant \<Rightarrow> reject_reason \<Rightarrow>
   paper_runtime \<times> (runtime_error + submission_report)" where
  "refuse_intent en r i ts reason =
     (case empty_risk_state en r ts of
        Inl e \<Rightarrow> (r, Inl (RT_State e))
      | Inr rs \<Rightarrow>
          (case en_gate en i rs 1 ts None of
             Inl e \<Rightarrow> (r, Inl (RT_Decision e))
           | Inr d \<Rightarrow> (append_decision en i d (remember_intent en i r),
               Inr ((report i d)\<lparr>sr_rejected := True, sr_reject_reason := Some reason\<rparr>))))"

definition leg_order ::
  "paper_env \<Rightarrow> paper_runtime \<Rightarrow> trade_intent \<Rightarrow> risk_decision \<Rightarrow> instant \<Rightarrow> int \<Rightarrow> intent_leg \<Rightarrow> int \<Rightarrow> paper_order" where
  "leg_order en r i d ts index leg quantity =
     \<lparr>po_order_id = derive_order_id (en_order_digest en) (runtime_intent_id en i) index (ti_account_id i),
      po_account_id = ti_account_id i, po_intent_id = runtime_intent_id en i,
      po_instrument_id = leg_instrument_id leg, po_side = leg_side leg, po_quantity = quantity,
      po_order_type = leg_order_type leg, po_created_at = ts, po_limit_price = leg_limit_price leg,
      po_state = CREATED, po_filled_quantity = 0, po_average_fill_price = None, po_reject_reason = None, po_events = [],
      po_signal_id = ti_signal_id i, po_signal_version = ti_signal_version i, po_strategy_id = ti_strategy_id i,
      po_strategy_version = ti_strategy_version i, po_state_checkpoint_ref = ti_state_checkpoint_ref i,
      po_build_context_id = ti_build_context_id i, po_knowledge_time = Some (ti_knowledge_time i),
      po_decision_time = Some (ti_decision_time i),
      po_config_digest = config_digest_of (en_config_digest en) (pa_config (rt_account r)),
      po_authorizing_risk_decision_id = risk_decision_id (en_hashes en) d,
      po_authorizing_decision_sequence = Some (rd_sequence_no d), po_venue = PAPER_VENUE,
      po_client_order_attempt_id = [], po_provider_order_id = None, po_provider_status = None,
      po_provider_event_time = None, po_received_at = None, po_extras = []\<rparr>"

text \<open>Booking an execution: the ledger, the fill records and the order's events.\<close>

definition book_execution ::
  "paper_env \<Rightarrow> instant \<Rightarrow> execution_outcome \<Rightarrow> paper_runtime \<Rightarrow> paper_runtime \<times> (runtime_error + fill list)" where
  "book_execution en ts oc r =
     (case eo_fill oc of
        None \<Rightarrow> (r, Inr [])
      | Some f \<Rightarrow>
          let i = po_order_id (eo_order oc) in
          (case paper_apply (rt_ledger r) f (Some i) of
             (l, Inl e) \<Rightarrow> (r\<lparr>rt_ledger := l\<rparr>, Inl (RT_Exec (Pricing_Error e)))
           | (l, Inr applied) \<Rightarrow>
               let r1 = (if applied
                         then r\<lparr>rt_ledger := l, rt_fills := rt_fills r @ [f],
                                rt_fills_by_order := dict_set i (fills_for_order r i @ [f]) (rt_fills_by_order r)\<rparr>
                         else r\<lparr>rt_ledger := l\<rparr>)
               in case record_order_events en r1 (eo_order oc) ts of
                    (r2, Some x) \<Rightarrow> (r2, Inl x)
                  | (r2, None) \<Rightarrow> (r2, Inr (if applied then [f] else []))))"

definition execute_leg_order ::
  "paper_env \<Rightarrow> trade_intent \<Rightarrow> market_state \<Rightarrow> market_state \<Rightarrow> instant \<Rightarrow> paper_order \<Rightarrow> paper_runtime \<Rightarrow>
   paper_runtime \<times> (runtime_error + paper_order \<times> fill list)" where
  "execute_leg_order en i ds es ts od r =
     (case validate_shape od (ac_max_order_quantity (pa_config (rt_account r)))
             (ac_max_order_notional (pa_config (rt_account r))) ts of
        Inl e \<Rightarrow> (r, Inl (RT_Exec e))
      | Inr (Some refusal) \<Rightarrow> (store_order (eo_order refusal) r, Inr (eo_order refusal, []))
      | Inr None \<Rightarrow>
          (case paper_submit (en_probe_digest en) (en_draw en) (en_execution en) od es ts
                  (pl_available_cash (rt_ledger r)) (Some (ti_constraints i))
                  (runtime_reference_price ds (po_instrument_id od)) of
             Inl e \<Rightarrow> (r, Inl (RT_Exec e))
           | Inr oc \<Rightarrow>
               (case book_execution en ts oc (store_order (eo_order oc) r) of
                  (r', Inl x) \<Rightarrow> (r', Inl x)
                | (r', Inr fs) \<Rightarrow> (r', Inr (eo_order oc, fs)))))"

primrec submit_legs ::
  "paper_env \<Rightarrow> trade_intent \<Rightarrow> risk_decision \<Rightarrow> market_state \<Rightarrow> market_state \<Rightarrow> instant \<Rightarrow> (nat \<times> intent_leg) list \<Rightarrow>
   paper_runtime \<Rightarrow> paper_runtime \<times> (runtime_error + paper_order list \<times> fill list)" where
  "submit_legs en i d ds es ts [] r = (r, Inr ([], []))"
| "submit_legs en i d ds es ts (x # xs) r =
     (let index = int (fst x);
          quantity = case_option (leg_quantity (snd x)) id (dict_get (dict_of (rd_approved_legs d)) index)
      in if quantity \<le> 0 then submit_legs en i d ds es ts xs r
         else case validated (leg_order en r i d ts index (snd x) quantity) of
             Inl e \<Rightarrow> (r, Inl (RT_Exec (Order_Error e)))
           | Inr od \<Rightarrow>
               (case execute_leg_order en i ds es ts od r of
                  (r1, Inl x) \<Rightarrow> (r1, Inl x)
                | (r1, Inr (od', fs)) \<Rightarrow>
                    (case submit_legs en i d ds es ts xs r1 of
                       (r2, Inl x) \<Rightarrow> (r2, Inl x)
                     | (r2, Inr (ods, fs')) \<Rightarrow> (r2, Inr (od' # ods, fs @ fs')))))"

text \<open>Steps 4 and 5: the gate against the decision state, then one order per leg.\<close>

definition evaluate_and_submit ::
  "paper_env \<Rightarrow> trade_intent \<Rightarrow> market_state \<Rightarrow> market_state \<Rightarrow> instant \<Rightarrow> paper_runtime \<Rightarrow>
   paper_runtime \<times> (runtime_error + submission_report)" where
  "evaluate_and_submit en i ds es ts r =
     (case runtime_risk_state en r ds ts (Some ts) of
        Inl e \<Rightarrow> (r, Inl (RT_State e))
      | Inr rs \<Rightarrow>
          (case en_gate en i rs 1 ts None of
             Inl e \<Rightarrow> (r, Inl (RT_Decision e))
           | Inr d \<Rightarrow>
               let r1 = remember_intent en i (append_decision en i d r) in
               if \<not> is_approved d \<or> \<not> is_actionable_at d ts
               then (r1, Inr ((report i d)\<lparr>sr_rejected := True, sr_reject_reason := Some RISK_REJECTED\<rparr>))
               else case record_intent_event en r1 i ts of
                   (r2, Some x) \<Rightarrow> (r2, Inl x)
                 | (r2, None) \<Rightarrow>
                     (case submit_legs en i d ds es ts (enumerate 0 (ti_legs i)) r2 of
                        (r3, Inl x) \<Rightarrow> (r3, Inl x)
                      | (r3, Inr (ods, fs)) \<Rightarrow> (r3, Inr ((report i d)\<lparr>sr_orders := ods, sr_fills := fs\<rparr>)))))"

definition duplicate_report ::
  "paper_env \<Rightarrow> trade_intent \<Rightarrow> paper_runtime \<Rightarrow> runtime_error + submission_report" where
  "duplicate_report en i r =
     (let ods = filter (\<lambda>od. po_intent_id od = runtime_intent_id en i) (runtime_orders r) in
      case decisions_for r (runtime_intent_id en i) of
        [] \<Rightarrow> Inl RT_NoDecision
      | ds \<Rightarrow> Inr ((report i (last ds))\<lparr>sr_orders := ods,
                sr_fills := concat (map (\<lambda>od. fills_for_order r (po_order_id od)) ods), sr_duplicate := True\<rparr>))"

definition runtime_submit ::
  "paper_env \<Rightarrow> trade_intent \<Rightarrow> market_state \<Rightarrow> market_state \<Rightarrow> instant \<Rightarrow> paper_runtime \<Rightarrow>
   paper_runtime \<times> (runtime_error + submission_report)" where
  "runtime_submit en i ds es ts r =
     (case dict_get (rt_intents r) (runtime_key en i) of
        Some existing \<Rightarrow>
          let r1 = r\<lparr>rt_duplicate_intents := rt_duplicate_intents r + 1\<rparr> in (r1, duplicate_report en existing r1)
      | None \<Rightarrow>
          if \<not> accepts_intents (pa_status (rt_account r)) then refuse_intent en r i ts ACCOUNT_NOT_ACTIVE
          else if has_expired i ts then refuse_intent en r i ts INTENT_EXPIRED
          else evaluate_and_submit en i ds es ts r)"

section \<open>Control\<close>

definition runtime_cancel ::
  "paper_env \<Rightarrow> string \<Rightarrow> instant \<Rightarrow> paper_runtime \<Rightarrow> paper_runtime \<times> (runtime_error + paper_order)" where
  "runtime_cancel en i ts r =
     (case dict_get (rt_orders r) i of
        None \<Rightarrow> (r, Inl RT_MissingOrder)
      | Some od \<Rightarrow>
          (case paper_cancel od ts of
             Inl e \<Rightarrow> (r, Inl (RT_Exec (Order_Error e)))
           | Inr moved \<Rightarrow>
               (case record_order_events en (store_order moved (r\<lparr>rt_ledger := fst (release (rt_ledger r) i)\<rparr>)) moved ts of
                  (r', Some x) \<Rightarrow> (r', Inl x)
                | (r', None) \<Rightarrow> (r', Inr moved))))"

primrec expire_orders ::
  "paper_env \<Rightarrow> instant \<Rightarrow> paper_order list \<Rightarrow> paper_runtime \<Rightarrow> paper_runtime \<times> (runtime_error + paper_order list)" where
  "expire_orders en ts [] r = (r, Inr [])"
| "expire_orders en ts (od # ods) r =
     (case dict_get (rt_intents r) (po_intent_id od) of
        None \<Rightarrow> expire_orders en ts ods r
      | Some i \<Rightarrow>
          if \<not> has_expired i ts then expire_orders en ts ods r
          else case expire od ts of
              Inl e \<Rightarrow> (r, Inl (RT_Exec (Order_Error e)))
            | Inr moved \<Rightarrow>
                (case record_order_events en
                    (store_order moved (r\<lparr>rt_ledger := fst (release (rt_ledger r) (po_order_id od))\<rparr>)) moved ts of
                   (r1, Some x) \<Rightarrow> (r1, Inl x)
                 | (r1, None) \<Rightarrow>
                     (case expire_orders en ts ods r1 of
                        (r2, Inl x) \<Rightarrow> (r2, Inl x)
                      | (r2, Inr es) \<Rightarrow> (r2, Inr (moved # es)))))"

definition expire_stale_orders ::
  "paper_env \<Rightarrow> instant \<Rightarrow> paper_runtime \<Rightarrow> paper_runtime \<times> (runtime_error + paper_order list)" where
  "expire_stale_orders en ts r = expire_orders en ts (open_orders r) r"

definition set_account_status ::
  "account_status \<Rightarrow> instant \<Rightarrow> paper_runtime \<Rightarrow> paper_runtime \<times> (runtime_error + paper_account)" where
  "set_account_status s ts r =
     (case with_status (rt_account r) s ts of
        Inl e \<Rightarrow> (r, Inl (RT_Account e))
      | Inr a \<Rightarrow> (r\<lparr>rt_account := a\<rparr>, Inr a))"

definition set_kill_switch :: "kill_switch \<Rightarrow> paper_runtime \<Rightarrow> paper_runtime" where
  "set_kill_switch k r = r\<lparr>rt_kill_switch := k\<rparr>"

definition rebuild_ledger :: "paper_runtime \<Rightarrow> fill list \<Rightarrow> (pricing_error + paper_ledger) option" where
  "rebuild_ledger r fs =
     replay_fills (pa_account_id (rt_account r)) (ac_starting_cash (pa_config (rt_account r))) fs"

end
