(* ===== verification/Runtime_Events.thy ===== *)
theory Runtime_Events
  imports Runtime
begin

text \<open>
  The events the runtime of \<^verbatim>\<open>trading/runtime.py\<close> emits: emission changes nothing but its own
  bookkeeping, and the emitted numbers of an order keep in step with its watermark, so that recording
  an order whose events are numbered from one never meets a gap.
\<close>

section \<open>What event emission leaves alone\<close>

definition core_of :: "paper_runtime \<Rightarrow> paper_runtime" where
  "core_of r = r\<lparr>rt_watermarks := [], rt_inbox := {}, rt_event_count := 0, rt_emitted := []\<rparr>"

lemma core_emit: "core_of (fst (emit en r e)) = core_of r"
  by (simp add: emit_def core_of_def split: prod.split)

lemma core_record_events: "core_of (fst (record_events en i ts es r)) = core_of r"
proof (induction es arbitrary: r)
  case (Cons e es)
  obtain r' x where m: "emit en r (order_domain_event ''paper.order.state_changed'' i (oe_sequence e) ts (Order_Payload e)) = (r', x)"
    by fastforce
  have c: "core_of r' = core_of r" using core_emit [of en r "order_domain_event ''paper.order.state_changed'' i (oe_sequence e) ts (Order_Payload e)"] m by simp
  have "core_of (r'\<lparr>rt_emitted := d\<rparr>) = core_of r" for d using c by (simp add: core_of_def)
  then show ?case using Cons m c by (auto split: option.split)
qed simp

lemma core_record_order_events: "core_of (fst (record_order_events en r od ts)) = core_of r"
  by (simp add: record_order_events_def core_record_events) (simp add: core_of_def)

lemma core_eqD:
  assumes "core_of r = core_of r'"
  shows "rt_ledger r = rt_ledger r'" "rt_fills r = rt_fills r'" "rt_account r = rt_account r'"
    "rt_orders r = rt_orders r'" "rt_intents r = rt_intents r'" "rt_decisions r = rt_decisions r'"
    "rt_fills_by_order r = rt_fills_by_order r'" "rt_duplicate_intents r = rt_duplicate_intents r'"
    "rt_kill_switch r = rt_kill_switch r'"
  using arg_cong [OF assms, of rt_ledger] arg_cong [OF assms, of rt_fills] arg_cong [OF assms, of rt_account]
    arg_cong [OF assms, of rt_orders] arg_cong [OF assms, of rt_intents] arg_cong [OF assms, of rt_decisions]
    arg_cong [OF assms, of rt_fills_by_order] arg_cong [OF assms, of rt_duplicate_intents]
    arg_cong [OF assms, of rt_kill_switch]
  by (simp_all add: core_of_def)

lemmas record_frame = core_eqD [OF core_record_order_events]
lemmas emit_frame = core_eqD [OF core_emit]

section \<open>Numbered events\<close>

definition numbered_events :: "order_event list \<Rightarrow> bool" where
  "numbered_events es \<longleftrightarrow> map oe_sequence es = [1..int (length es)]"

lemma numbered_snoc: "numbered_events es \<Longrightarrow> oe_sequence e = int (length es) + 1 \<Longrightarrow> numbered_events (es @ [e])"
  using upto_rec2 [of 1 "int (length es) + 1"] by (simp add: numbered_events_def add.commute)

lemma numbered_transition:
  "transition od target ts trigger payload = Inr od' \<Longrightarrow> numbered_events (po_events od) \<Longrightarrow> numbered_events (po_events od')"
  by (auto simp: transition_Inr_iff next_sequence_def intro: numbered_snoc)

lemma numbered_apply_fill:
  "apply_fill od q p ts trigger = Inr od' \<Longrightarrow> numbered_events (po_events od) \<Longrightarrow> numbered_events (po_events od')"
  by (auto simp: apply_fill_def Let_def bind_result_Inr_iff validated_def split: if_splits dest: numbered_transition)

lemma numbered_reject: "reject od reason ts = Inr od' \<Longrightarrow> numbered_events (po_events od) \<Longrightarrow> numbered_events (po_events od')"
  by (auto simp: reject_Inr_iff dest: numbered_transition)

definition order_watermark :: "paper_runtime \<Rightarrow> string \<Rightarrow> int" where
  "order_watermark r i = watermark (rt_watermarks r) (AGG_ORDER, i)"

text \<open>
  The ids handed out so far are the ones in the inbox, and an order's emitted numbers are one to its
  watermark.
\<close>

definition events_in_step :: "paper_env \<Rightarrow> paper_runtime \<Rightarrow> bool" where
  "events_in_step en r \<longleftrightarrow> rt_inbox r \<subseteq> (\<lambda>n. (paper_trading_subscriber, en_event_ids en n)) ` {..<rt_event_count r}
     \<and> (\<forall>t i. 0 \<le> watermark (rt_watermarks r) (t, i))
     \<and> (\<forall>i. set (emitted_for r i) = {1..order_watermark r i})"

lemma events_in_stepD:
  assumes "events_in_step en r"
  shows "0 \<le> order_watermark r i" "set (emitted_for r i) = {1..order_watermark r i}"
    "0 \<le> watermark (rt_watermarks r) (t, i)"
    "inj (en_event_ids en) \<Longrightarrow> (paper_trading_subscriber, en_event_ids en (rt_event_count r)) \<notin> rt_inbox r"
proof -
  show "0 \<le> order_watermark r i" "set (emitted_for r i) = {1..order_watermark r i}"
    "0 \<le> watermark (rt_watermarks r) (t, i)"
    using assms by (simp_all add: events_in_step_def order_watermark_def)
  show "(paper_trading_subscriber, en_event_ids en (rt_event_count r)) \<notin> rt_inbox r" if "inj (en_event_ids en)"
  proof
    assume "(paper_trading_subscriber, en_event_ids en (rt_event_count r)) \<in> rt_inbox r"
    then obtain n where "n < rt_event_count r" "en_event_ids en (rt_event_count r) = en_event_ids en n"
      using assms by (auto simp: events_in_step_def)
    then show False using that by (auto dest: injD)
  qed
qed

lemma emit_next:
  assumes "de_aggregate_sequence (event (en_event_ids en (rt_event_count r)))
      \<le> watermark (rt_watermarks r) (aggregate_key (event (en_event_ids en (rt_event_count r)))) + 1"
    and "de_event_id (event (en_event_ids en (rt_event_count r))) = en_event_ids en (rt_event_count r)"
    and "(paper_trading_subscriber, en_event_ids en (rt_event_count r)) \<notin> rt_inbox r"
  shows "emit en r event = (r\<lparr>rt_watermarks := record_event (rt_watermarks r) (event (en_event_ids en (rt_event_count r))),
      rt_inbox := insert (paper_trading_subscriber, en_event_ids en (rt_event_count r)) (rt_inbox r),
      rt_event_count := rt_event_count r + 1\<rparr>, None)"
  using assms
  by (simp add: emit_def apply_ordered_def last_applied_def check_sequence_None [THEN iffD2] apply_once_def claim_def)

lemma watermark_record:
  "0 \<le> watermark w (aggregate_key e) \<Longrightarrow> 1 \<le> de_aggregate_sequence e \<Longrightarrow>
   watermark (record_event w e) k
     = (if k = aggregate_key e then max (watermark w k) (de_aggregate_sequence e) else watermark w k)"
  by (auto simp: watermark_def record_event_def split: option.split)

lemma emitted_set: "emitted_for (r\<lparr>rt_emitted := dict_set i xs d\<rparr>) j
    = (if j = i then xs else emitted_for (r\<lparr>rt_emitted := d\<rparr>) j)"
  by (simp add: emitted_for_def)

lemma emitted_same [simp]:
  "emitted_for (r\<lparr>rt_orders := a\<rparr>) = emitted_for r" "emitted_for (r\<lparr>rt_ledger := b\<rparr>) = emitted_for r"
  "emitted_for (r\<lparr>rt_watermarks := w, rt_inbox := ib, rt_event_count := n\<rparr>) = emitted_for r"
  "emitted_for (r\<lparr>rt_emitted := rt_emitted r\<rparr>) = emitted_for r"
  by (simp_all add: emitted_for_def fun_eq_iff)

text \<open>An event with the next number of an order is applied and moves its watermark by one.\<close>

lemma record_one:
  assumes "events_in_step en r" "inj (en_event_ids en)" "oe_sequence e = order_watermark r i + 1"
  obtains r' where
    "emit en r (order_domain_event ''paper.order.state_changed'' i (oe_sequence e) ts (Order_Payload e)) = (r', None)"
    "events_in_step en (r'\<lparr>rt_emitted := dict_set i (emitted_for r' i @ [oe_sequence e]) (rt_emitted r')\<rparr>)"
    "order_watermark r' i = order_watermark r i + 1"
proof -
  let ?ev = "order_domain_event ''paper.order.state_changed'' i (oe_sequence e) ts (Order_Payload e)"
  let ?id = "en_event_ids en (rt_event_count r)"
  let ?r' = "r\<lparr>rt_watermarks := record_event (rt_watermarks r) (?ev ?id),
      rt_inbox := insert (paper_trading_subscriber, ?id) (rt_inbox r), rt_event_count := rt_event_count r + 1\<rparr>"
  note d = events_in_stepD [OF assms(1)]
  have key: "aggregate_key (order_domain_event t i n us p x) = (AGG_ORDER, i)"
    "de_aggregate_sequence (order_domain_event t i n us p x) = n" "de_event_id (order_domain_event t i n us p x) = x"
    for t n us x and p :: runtime_payload
    by (simp_all add: aggregate_key_def order_domain_event_def)
  have em: "emit en r ?ev = (?r', None)"
    by (rule emit_next) (use assms(3) d(4) [OF assms(2)] in \<open>simp_all add: key order_watermark_def\<close>)
  have w: "order_watermark ?r' j = (if j = i then order_watermark r i + 1 else order_watermark r j)" for j
    using watermark_record [of "rt_watermarks r" "?ev ?id" "(AGG_ORDER, j)"] assms(3) d(1) [of i]
    by (simp add: order_watermark_def key)
  define r2 where "r2 = ?r'\<lparr>rt_emitted := dict_set i (emitted_for ?r' i @ [oe_sequence e]) (rt_emitted ?r')\<rparr>"
  have w2: "watermark (rt_watermarks r2) (t, j)
      = (if t = AGG_ORDER \<and> j = i then order_watermark r i + 1 else watermark (rt_watermarks r) (t, j))" for t j
    using watermark_record [of "rt_watermarks r" "?ev ?id" "(t, j)"] assms(3) d(1) [of i]
    by (simp add: order_watermark_def key r2_def)
  have "emitted_for r2 j = (if j = i then emitted_for r i @ [order_watermark r i + 1] else emitted_for r j)" for j
    using assms(3) by (simp add: emitted_for_def r2_def)
  then have "set (emitted_for r2 j) = {1..order_watermark r2 j}" for j
    using d(1,2) [of j] by (auto simp: w2 order_watermark_def)
  moreover have "0 \<le> watermark (rt_watermarks r2) (t, j)" for t j using d(1) [of i] d(3) [of t j] by (simp add: w2)
  moreover have "rt_inbox r2 \<subseteq> (\<lambda>n. (paper_trading_subscriber, en_event_ids en n)) ` {..<rt_event_count r2}"
    using assms(1) by (auto simp: events_in_step_def lessThan_Suc r2_def)
  ultimately have "events_in_step en r2" by (simp add: events_in_step_def)
  then show thesis using that [OF em] w [of i] unfolding r2_def by simp
qed

lemma record_events_in_step:
  assumes "map oe_sequence es = [k + 1..k + int (length es)]" "0 \<le> k" "k \<le> order_watermark r i"
    "events_in_step en r" "inj (en_event_ids en)"
  shows "\<exists>r'. record_events en i ts es r = (r', None) \<and> events_in_step en r'"
  using assms
proof (induction es arbitrary: k r)
  case (Cons e es)
  have iv: "[k + 1..k + int (length (e # es))] = (k + 1) # [(k + 1) + 1..(k + 1) + int (length es)]"
    by (subst upto_rec1) (simp_all add: algebra_simps)
  have e: "oe_sequence e = k + 1" and es: "map oe_sequence es = [(k + 1) + 1..(k + 1) + int (length es)]"
    using Cons.prems(1) unfolding iv by simp_all
  note d = events_in_stepD [OF Cons.prems(4)]
  show ?case
  proof (cases "k + 1 \<le> order_watermark r i")
    case True
    then have "oe_sequence e \<in> set (emitted_for r i)" using d(2) [of i] e Cons.prems(2) by simp
    then show ?thesis using Cons.IH [OF es _ True Cons.prems(4,5)] Cons.prems(2) by simp
  next
    case False
    then have nx: "oe_sequence e = order_watermark r i + 1" using e Cons.prems(3) by simp
    then have new: "oe_sequence e \<notin> set (emitted_for r i)" using d(2) [of i] by simp
    obtain r1 where r1:
      "emit en r (order_domain_event ''paper.order.state_changed'' i (oe_sequence e) ts (Order_Payload e)) = (r1, None)"
      "events_in_step en (r1\<lparr>rt_emitted := dict_set i (emitted_for r1 i @ [oe_sequence e]) (rt_emitted r1)\<rparr>)"
      "order_watermark r1 i = order_watermark r i + 1"
      using record_one [OF Cons.prems(4,5) nx] by metis
    have "k + 1 \<le> order_watermark (r1\<lparr>rt_emitted := d\<rparr>) i" for d
      using r1(3) nx e by (simp add: order_watermark_def)
    then show ?thesis using Cons.IH [OF es _ _ r1(2) Cons.prems(5)] Cons.prems(2) new r1(1) by simp
  qed
qed simp

lemma record_order_events_in_step:
  assumes "numbered_events (po_events od)" "events_in_step en r" "inj (en_event_ids en)"
  shows "\<exists>r'. record_order_events en r od ts = (r', None) \<and> events_in_step en r'"
proof -
  let ?i = "po_order_id od"
  let ?r = "r\<lparr>rt_emitted := dict_set ?i (emitted_for r ?i) (rt_emitted r)\<rparr>"
  have "order_watermark ?r = order_watermark r" "emitted_for ?r = emitted_for r"
    by (auto simp: order_watermark_def emitted_for_def fun_eq_iff)
  then have "events_in_step en ?r" using assms(2) by (simp add: events_in_step_def)
  then show ?thesis
    using record_events_in_step [of "po_events od" 0 ?r ?i en ts] assms(1,3) events_in_stepD(1)
    by (simp add: record_order_events_def numbered_events_def)
qed

lemma record_intent_in_step:
  assumes "events_in_step en r" "inj (en_event_ids en)"
  shows "\<exists>r'. record_intent_event en r i ts = (r', None) \<and> events_in_step en r'"
proof -
  let ?ev = "intent_created_event (runtime_intent_id en i) 1 ts (Intent_Payload i)"
  let ?id = "en_event_ids en (rt_event_count r)"
  let ?k = "(AGG_TRADE_INTENT, runtime_intent_id en i)"
  have key: "aggregate_key (?ev x) = ?k" "de_aggregate_sequence (?ev x) = 1" "de_event_id (?ev x) = x" for x
    by (simp_all add: aggregate_key_def intent_created_event_def)
  note d = events_in_stepD [OF assms(1)]
  have "emit en r ?ev = (r\<lparr>rt_watermarks := record_event (rt_watermarks r) (?ev ?id),
      rt_inbox := insert (paper_trading_subscriber, ?id) (rt_inbox r), rt_event_count := rt_event_count r + 1\<rparr>, None)"
    by (rule emit_next) (use d(3) d(4) [OF assms(2)] in \<open>simp_all add: key\<close>)
  moreover have "watermark (record_event (rt_watermarks r) (?ev ?id)) (t, j)
      = (if (t, j) = ?k then max (watermark (rt_watermarks r) (t, j)) 1 else watermark (rt_watermarks r) (t, j))" for t j
    using watermark_record [of "rt_watermarks r" "?ev ?id" "(t, j)"] d(3) by (simp add: key)
  ultimately show ?thesis
    using assms(1)
    by (auto simp: record_intent_event_def events_in_step_def order_watermark_def lessThan_Suc emitted_for_def)
qed

end
