(* ===== verification/Runtime_Safety.thy ===== *)
theory Runtime_Safety
  imports Runtime_Events
begin

text \<open>
  What the runtime of \<^verbatim>\<open>trading/runtime.py\<close> guarantees: the book is the fold of the recorded fills,
  orders and fills stay inside what risk approved, an intent is processed once, and the decision does
  not depend on the state the venue prices against.
\<close>

section \<open>The book is the fold of the recorded fills\<close>

text \<open>
  From one runtime to a later one: the change of the book is the fold of fills, those whose costs can be
  summed are the fills recorded in between, and of the others there are at most \<open>n\<close>.
\<close>

definition priced_costs :: "fill \<Rightarrow> bool" where
  "priced_costs f \<longleftrightarrow> (\<exists>c. costs_total (fl_costs f) = Inr c)"

definition booked :: "nat \<Rightarrow> paper_runtime \<Rightarrow> paper_runtime \<Rightarrow> bool" where
  "booked n r r' \<longleftrightarrow> (\<exists>fs. rt_fills r' = rt_fills r @ filter priced_costs fs \<and> length (filter (\<lambda>f. \<not> priced_costs f) fs) \<le> n
     \<and> book_of (pl_inner (rt_ledger r')) = book_of (fold deliver fs (pl_inner (rt_ledger r))))
     \<and> pl_reservations (rt_ledger r') = [] \<and> pa_config (rt_account r') = pa_config (rt_account r)
     \<and> pa_account_id (rt_account r') = pa_account_id (rt_account r)"

definition unreserved :: "paper_runtime \<Rightarrow> bool" where
  "unreserved r \<longleftrightarrow> pl_reservations (rt_ledger r) = []"

lemma book_of_applied: "book_of l = book_of l' \<Longrightarrow> lg_applied l = lg_applied l'"
  by (cases l; cases l') (simp add: book_of_def)

lemma booked_trans: "booked m r r' \<Longrightarrow> booked n r' r'' \<Longrightarrow> booked (m + n) r r''"
proof -
  assume a: "booked m r r'" "booked n r' r''"
  then obtain fs gs where f: "rt_fills r' = rt_fills r @ filter priced_costs fs" "rt_fills r'' = rt_fills r' @ filter priced_costs gs"
    and p: "length (filter (\<lambda>f. \<not> priced_costs f) fs) \<le> m" "length (filter (\<lambda>f. \<not> priced_costs f) gs) \<le> n"
    and f3:
    "book_of (pl_inner (rt_ledger r')) = book_of (fold deliver fs (pl_inner (rt_ledger r)))"
    "book_of (pl_inner (rt_ledger r'')) = book_of (fold deliver gs (pl_inner (rt_ledger r')))"
    by (auto simp: booked_def)
  have "book_of (fold deliver gs (pl_inner (rt_ledger r')))
      = book_of (fold deliver gs (fold deliver fs (pl_inner (rt_ledger r))))"
    by (rule book.core_fold_cong [OF f3(1) book_of_applied [OF f3(1)]])
  then have "rt_fills r'' = rt_fills r @ filter priced_costs (fs @ gs)
      \<and> length (filter (\<lambda>f. \<not> priced_costs f) (fs @ gs)) \<le> m + n
      \<and> book_of (pl_inner (rt_ledger r'')) = book_of (fold deliver (fs @ gs) (pl_inner (rt_ledger r)))"
    using f f3 p by auto
  moreover have "pl_reservations (rt_ledger r'') = []" "pa_config (rt_account r'') = pa_config (rt_account r)"
    "pa_account_id (rt_account r'') = pa_account_id (rt_account r)"
    using a by (simp_all add: booked_def)
  ultimately show ?thesis unfolding booked_def by blast
qed

lemma booked_same:
  "rt_fills r' = rt_fills r \<Longrightarrow> pl_inner (rt_ledger r') = pl_inner (rt_ledger r) \<Longrightarrow>
   pl_reservations (rt_ledger r') = [] \<Longrightarrow> pa_config (rt_account r') = pa_config (rt_account r) \<Longrightarrow>
   pa_account_id (rt_account r') = pa_account_id (rt_account r) \<Longrightarrow> booked n r r'"
  unfolding booked_def by (intro conjI exI [of _ "[]"]) simp_all

lemma booked_refl: "unreserved r \<Longrightarrow> booked n r r"
  by (rule booked_same) (simp_all add: unreserved_def)

lemma booked_unreserved: "booked n r r' \<Longrightarrow> unreserved r'"
  by (simp add: booked_def unreserved_def)

lemma booked_after: "booked 0 r r' \<Longrightarrow> (unreserved r' \<Longrightarrow> booked n r' r'') \<Longrightarrow> booked n r r''"
  using booked_trans [of 0 r r' n r''] booked_unreserved by simp

lemma booked_record: "unreserved r \<Longrightarrow> booked n r (fst (record_order_events en r od ts))"
  by (rule booked_same) (simp_all add: record_frame unreserved_def)

lemma booked_emit: "unreserved r \<Longrightarrow> booked n r (fst (emit en r e))"
  by (rule booked_same) (simp_all add: emit_frame unreserved_def)

text \<open>An exception of the price arithmetic is the one thing that can move the book without a record.\<close>

definition mispriced :: "runtime_error + 'a \<Rightarrow> bool" where
  "mispriced res \<longleftrightarrow> (\<exists>e. res = Inl (RT_Exec (Pricing_Error e)))"

lemma mispriced_simps [simp]: "\<not> mispriced (Inr x)" "mispriced (Inl (RT_Exec (Pricing_Error e)))"
  by (simp_all add: mispriced_def)

definition faults :: "runtime_error + 'a \<Rightarrow> nat" where
  "faults res = (if mispriced res then 1 else 0)"

lemma faults_simps [simp]: "faults (Inr x) = 0" "faults (Inl (RT_Exec (Pricing_Error e))) = 1"
  by (simp_all add: faults_def)

definition book_applied :: "string \<Rightarrow> fill \<Rightarrow> paper_ledger \<Rightarrow> bool \<Rightarrow> paper_runtime \<Rightarrow> paper_runtime" where
  "book_applied i f l applied r =
     (if applied then r\<lparr>rt_ledger := l, rt_fills := rt_fills r @ [f],
        rt_fills_by_order := dict_set i (fills_for_order r i @ [f]) (rt_fills_by_order r)\<rparr>
      else r\<lparr>rt_ledger := l\<rparr>)"

lemma book_execution_priced:
  "eo_fill oc = Some f \<Longrightarrow>
   book_execution en ts oc r = (case paper_apply (rt_ledger r) f (Some (po_order_id (eo_order oc))) of
      (l, Inl e) \<Rightarrow> (r\<lparr>rt_ledger := l\<rparr>, Inl (RT_Exec (Pricing_Error e)))
    | (l, Inr b) \<Rightarrow> (case record_order_events en (book_applied (po_order_id (eo_order oc)) f l b r) (eo_order oc) ts of
          (r2, Some x) \<Rightarrow> (r2, Inl x)
        | (r2, None) \<Rightarrow> (r2, Inr (if b then [f] else []))))"
  unfolding book_execution_def book_applied_def Let_def by simp

lemma fst_book_execution:
  "eo_fill oc = Some f \<Longrightarrow> paper_apply (rt_ledger r) f (Some (po_order_id (eo_order oc))) = (l, Inr b) \<Longrightarrow>
   fst (book_execution en ts oc r)
     = fst (record_order_events en (book_applied (po_order_id (eo_order oc)) f l b r) (eo_order oc) ts)"
  by (simp add: book_execution_priced split: prod.split option.split)

lemma booked_book_execution:
  assumes "book_execution en ts oc r = (r', res)" "unreserved r"
  shows "booked (faults res) r r'"
proof (cases "eo_fill oc")
  case None
  then show ?thesis using assms booked_refl by (auto simp: book_execution_def)
next
  case (Some f)
  let ?i = "po_order_id (eo_order oc)"
  obtain l res' where a: "paper_apply (rt_ledger r) f (Some ?i) = (l, res')" by fastforce
  have inner: "pl_inner l = deliver f (pl_inner (rt_ledger r))"
    using inner_paper_apply [of "rt_ledger r" f "Some ?i"] a by simp
  have res': "pl_reservations l = []"
    using a assms(2) by (auto simp: paper_apply_def release_def unreserved_def dict_pop_def split: prod.splits sum.splits if_splits)
  show ?thesis
  proof (cases res')
    case (Inl e)
    then have r': "r' = r\<lparr>rt_ledger := l\<rparr>" "res = Inl (RT_Exec (Pricing_Error e))"
      using assms(1) a by (auto simp: book_execution_priced [OF Some])
    have "\<not> priced_costs f"
      using a Inl by (auto simp: paper_apply_def priced_costs_def ledger_apply_def Let_def split: prod.splits sum.splits if_splits)
    then show ?thesis unfolding booked_def r'
      by (intro conjI exI [of _ "[f]"]) (simp_all add: inner res')
  next
    case (Inr b)
    let ?r1 = "book_applied ?i f l b r"
    have "booked 0 r ?r1"
    proof (cases b)
      case True
      moreover have "priced_costs f"
        using a Inr True by (auto simp: paper_apply_def priced_costs_def ledger_apply_def Let_def split: prod.splits sum.splits if_splits)
      ultimately show ?thesis unfolding booked_def book_applied_def
        by (intro conjI exI [of _ "[f]"]) (simp_all add: inner res')
    next
      case False
      have "fill_key f \<in> lg_applied (pl_inner (rt_ledger r))"
        using a Inr False by (auto simp: paper_apply_def dest: ledger_apply_duplicate split: prod.splits sum.splits)
      then have "book_of (pl_inner l) = book_of (pl_inner (rt_ledger r))" unfolding inner by (rule book.core_seen)
      then show ?thesis using False assms(2) unfolding booked_def book_applied_def
        by (intro conjI exI [of _ "[]"]) (simp_all add: res')
    qed
    moreover have "r' = fst (record_order_events en ?r1 (eo_order oc) ts)"
      using assms(1) a Inr fst_book_execution [OF Some, of r l b en ts] by simp
    ultimately show ?thesis using booked_record booked_after by metis
  qed
qed

lemma booked_store_order: "unreserved r \<Longrightarrow> booked n r (store_order od r)"
  by (rule booked_same) (simp_all add: store_order_def unreserved_def)

lemma execute_leg_cases:
  assumes "execute_leg_order en i ds es ts od r = (r', res)"
  obtains (raised) e where "r' = r" "res = Inl (RT_Exec e)"
  | (shape) refusal where "validate_shape od (ac_max_order_quantity (pa_config (rt_account r)))
        (ac_max_order_notional (pa_config (rt_account r))) ts = Inr (Some refusal)"
      "r' = store_order (eo_order refusal) r" "res = Inr (eo_order refusal, [])"
  | (sent) oc res' where "paper_submit (en_probe_digest en) (en_draw en) (en_execution en) od es ts
        (pl_available_cash (rt_ledger r)) (Some (ti_constraints i)) (runtime_reference_price ds (po_instrument_id od)) = Inr oc"
      "book_execution en ts oc (store_order (eo_order oc) r) = (r', res')"
      "res = map_sum id (\<lambda>fs. (eo_order oc, fs)) res'"
proof (cases "validate_shape od (ac_max_order_quantity (pa_config (rt_account r)))
        (ac_max_order_notional (pa_config (rt_account r))) ts")
  case (Inl e)
  show ?thesis by (rule raised [of e]) (use assms Inl in \<open>simp_all add: execute_leg_order_def\<close>)
next
  case v: (Inr refusal)
  show ?thesis
  proof (cases refusal)
    case None
    show ?thesis
    proof (cases "paper_submit (en_probe_digest en) (en_draw en) (en_execution en) od es ts
        (pl_available_cash (rt_ledger r)) (Some (ti_constraints i)) (runtime_reference_price ds (po_instrument_id od))")
      case (Inl e)
      show ?thesis by (rule raised [of e]) (use assms Inl v None in \<open>simp_all add: execute_leg_order_def\<close>)
    next
      case (Inr oc)
      obtain r1 res' where b: "book_execution en ts oc (store_order (eo_order oc) r) = (r1, res')" by fastforce
      then show ?thesis using assms sent [OF Inr] v None Inr by (cases res') (auto simp: execute_leg_order_def)
    qed
  next
    case (Some oc)
    then show ?thesis using assms shape v by (simp add: execute_leg_order_def)
  qed
qed

lemma mispriced_map [simp]: "mispriced (map_sum id f res) \<longleftrightarrow> mispriced res" "faults (map_sum id f res) = faults res"
  by (cases res; auto simp: mispriced_def faults_def)+

lemma faults_Inl: "faults (Inl e) = faults (Inl e :: runtime_error + 'b)"
  by (simp add: faults_def mispriced_def)

lemma booked_execute_leg:
  assumes "execute_leg_order en i ds es ts od r = (r', res)" "unreserved r"
  shows "booked (faults res) r r'"
  using assms(1)
proof (cases rule: execute_leg_cases)
  case (sent oc res')
  from booked_after [OF booked_store_order [OF assms(2)] booked_book_execution [OF sent(2)]] show ?thesis
    using sent(3) by simp
qed (use assms(2) booked_refl booked_store_order in auto)

text \<open>One leg of an intent, seen from the loop.\<close>

definition leg_quantity_of :: "risk_decision \<Rightarrow> nat \<times> intent_leg \<Rightarrow> int" where
  "leg_quantity_of d x = case_option (leg_quantity (snd x)) id (dict_get (dict_of (rd_approved_legs d)) (int (fst x)))"

lemma submit_legs_Cons_cases:
  assumes "submit_legs en i d ds es ts (x # xs) r = (r', res)"
  obtains (skipped) "leg_quantity_of d x \<le> 0" "submit_legs en i d ds es ts xs r = (r', res)"
  | (invalid) e where "r' = r" "res = Inl (RT_Exec (Order_Error e))"
  | (failed) err where "execute_leg_order en i ds es ts (leg_order en r i d ts (int (fst x)) (snd x) (leg_quantity_of d x)) r = (r', Inl err)"
      "res = Inl err"
  | (placed) r1 od fs res' where "0 < leg_quantity_of d x"
      "order_ok (leg_order en r i d ts (int (fst x)) (snd x) (leg_quantity_of d x))"
      "execute_leg_order en i ds es ts (leg_order en r i d ts (int (fst x)) (snd x) (leg_quantity_of d x)) r = (r1, Inr (od, fs))"
      "submit_legs en i d ds es ts xs r1 = (r', res')"
      "res = map_sum id (\<lambda>(ods, gs). (od # ods, fs @ gs)) res'"
proof (cases "leg_quantity_of d x \<le> 0")
  case True
  then show ?thesis using assms skipped by (simp add: leg_quantity_of_def Let_def)
next
  case q: False
  let ?od = "leg_order en r i d ts (int (fst x)) (snd x) (leg_quantity_of d x)"
  have eq: "submit_legs en i d ds es ts (x # xs) r
      = (case validated ?od of Inl e \<Rightarrow> (r, Inl (RT_Exec (Order_Error e)))
         | Inr od \<Rightarrow> (case execute_leg_order en i ds es ts od r of
              (r1, Inl x) \<Rightarrow> (r1, Inl x)
            | (r1, Inr (od', fs)) \<Rightarrow> (case submit_legs en i d ds es ts xs r1 of
                 (r2, Inl x) \<Rightarrow> (r2, Inl x) | (r2, Inr (ods, fs')) \<Rightarrow> (r2, Inr (od' # ods, fs @ fs')))))"
    using q by (simp add: leg_quantity_of_def Let_def)
  show ?thesis
  proof (cases "order_ok ?od")
    case False
    then show ?thesis using assms eq invalid by (simp add: validated_def)
  next
    case ok: True
    obtain r1 res1 where e: "execute_leg_order en i ds es ts ?od r = (r1, res1)" by fastforce
    show ?thesis
    proof (cases res1)
      case (Inl err)
      then show ?thesis using assms eq failed e ok by (simp add: validated_def)
    next
      case (Inr y)
      obtain od fs where y: "y = (od, fs)" by fastforce
      obtain r2 res2 where s: "submit_legs en i d ds es ts xs r1 = (r2, res2)" by fastforce
      show ?thesis
        by (rule placed [of r1 od fs res2])
          (use assms eq e ok q Inr y s in \<open>auto simp: validated_def split: sum.splits\<close>)
    qed
  qed
qed

lemma booked_submit_legs:
  assumes "submit_legs en i d ds es ts xs r = (r', res)" "unreserved r"
  shows "booked (faults res) r r'"
  using assms
proof (induction xs arbitrary: r res)
  case Nil
  then show ?case using booked_refl by simp
next
  case (Cons x xs)
  from Cons.prems(1) show ?case
  proof (cases rule: submit_legs_Cons_cases)
    case skipped
    then show ?thesis using Cons by blast
  next
    case (invalid e)
    then show ?thesis using Cons.prems(2) booked_refl by simp
  next
    case (failed err)
    then show ?thesis using booked_execute_leg [OF failed(1) Cons.prems(2)] faults_Inl by metis
  next
    case (placed r1 od fs res')
    have "booked 0 r r1" using booked_execute_leg [OF placed(3) Cons.prems(2)] by simp
    from booked_after [OF this Cons.IH [OF placed(4)]] show ?thesis using placed(5) by simp
  qed
qed

section \<open>Every entry point\<close>

lemma booked_via:
  "rt_fills r1 = rt_fills r \<Longrightarrow> rt_ledger r1 = rt_ledger r \<Longrightarrow> rt_account r1 = rt_account r \<Longrightarrow>
   booked n r1 r' \<Longrightarrow> booked n r r'"
  by (simp add: booked_def)

lemma booked_refuse_intent:
  "unreserved r \<Longrightarrow> refuse_intent en r i ts reason = (r', res) \<Longrightarrow> booked n r r'"
  by (rule booked_same)
    (auto simp: refuse_intent_def append_decision_def remember_intent_def unreserved_def split: sum.splits)

lemma evaluate_and_submit_cases:
  assumes "evaluate_and_submit en i ds es ts r = (r', res)"
  obtains (raised) e where "r' = r" "res = Inl e" "\<And>x. e \<noteq> RT_Exec x" "\<And>g. e \<noteq> RT_Gap g"
  | (refused) rs d where "runtime_risk_state en r ds ts (Some ts) = Inr rs" "en_gate en i rs 1 ts None = Inr d"
      "\<not> is_approved d \<or> \<not> is_actionable_at d ts" "r' = remember_intent en i (append_decision en i d r)"
      "res = Inr ((report i d)\<lparr>sr_rejected := True, sr_reject_reason := Some RISK_REJECTED\<rparr>)"
  | (gap) rs d x where "runtime_risk_state en r ds ts (Some ts) = Inr rs" "en_gate en i rs 1 ts None = Inr d"
      "record_intent_event en (remember_intent en i (append_decision en i d r)) i ts = (r', Some x)" "res = Inl x"
  | (sent) rs d r2 res' where "runtime_risk_state en r ds ts (Some ts) = Inr rs" "en_gate en i rs 1 ts None = Inr d"
      "is_approved d" "is_actionable_at d ts"
      "record_intent_event en (remember_intent en i (append_decision en i d r)) i ts = (r2, None)"
      "submit_legs en i d ds es ts (enumerate 0 (ti_legs i)) r2 = (r', res')"
      "res = map_sum id (\<lambda>(ods, fs). (report i d)\<lparr>sr_orders := ods, sr_fills := fs\<rparr>) res'"
proof (cases "runtime_risk_state en r ds ts (Some ts)")
  case (Inl e)
  show ?thesis by (rule raised [of "RT_State e"]) (use assms Inl in \<open>simp_all add: evaluate_and_submit_def\<close>)
next
  case rs: (Inr rs)
  show ?thesis
  proof (cases "en_gate en i rs 1 ts None")
    case (Inl e)
    show ?thesis by (rule raised [of "RT_Decision e"]) (use assms Inl rs in \<open>simp_all add: evaluate_and_submit_def\<close>)
  next
    case d: (Inr d)
    let ?r1 = "remember_intent en i (append_decision en i d r)"
    show ?thesis
    proof (cases "\<not> is_approved d \<or> \<not> is_actionable_at d ts")
      case True
      show ?thesis by (rule refused [OF rs d True]) (use assms rs d True in \<open>simp_all add: evaluate_and_submit_def Let_def\<close>)
    next
      case ok: False
      obtain r2 x where e: "record_intent_event en ?r1 i ts = (r2, x)" by fastforce
      show ?thesis
      proof (cases x)
        case (Some g)
        show ?thesis
          by (rule gap [OF rs d, of g]) (use assms rs d ok e Some in \<open>simp_all add: evaluate_and_submit_def Let_def\<close>)
      next
        case None
        obtain r3 res' where l: "submit_legs en i d ds es ts (enumerate 0 (ti_legs i)) r2 = (r3, res')" by fastforce
        show ?thesis
          by (rule sent [OF rs d, of r2 res'])
            (use assms rs d ok e None l in \<open>auto simp: evaluate_and_submit_def Let_def split: sum.splits\<close>)
      qed
    qed
  qed
qed

lemma remembered_frame [simp]:
  "rt_fills (remember_intent en i r) = rt_fills r" "rt_ledger (remember_intent en i r) = rt_ledger r"
  "rt_account (remember_intent en i r) = rt_account r" "rt_orders (remember_intent en i r) = rt_orders r"
  "rt_fills (append_decision en i d r) = rt_fills r" "rt_ledger (append_decision en i d r) = rt_ledger r"
  "rt_account (append_decision en i d r) = rt_account r" "rt_orders (append_decision en i d r) = rt_orders r"
  by (simp_all add: remember_intent_def append_decision_def)

lemma booked_evaluate:
  assumes "evaluate_and_submit en i ds es ts r = (r', res)" "unreserved r"
  shows "booked (faults res) r r'"
  using assms(1)
proof (cases rule: evaluate_and_submit_cases)
  case (raised e)
  then show ?thesis using assms(2) booked_refl by simp
next
  case (refused rs d)
  show ?thesis by (rule booked_same) (use refused assms(2) in \<open>simp_all add: unreserved_def\<close>)
next
  case (gap rs d x)
  let ?r1 = "remember_intent en i (append_decision en i d r)"
  have "unreserved ?r1" using assms(2) by (simp add: unreserved_def)
  then have "booked (faults res) ?r1 r'" using gap(3) booked_emit [of ?r1 _ en] by (metis record_intent_event_def fst_conv)
  then show ?thesis by (rule booked_via [rotated 3]) simp_all
next
  case (sent rs d r2 res')
  let ?r1 = "remember_intent en i (append_decision en i d r)"
  have "unreserved ?r1" using assms(2) by (simp add: unreserved_def)
  then have "booked 0 ?r1 r2" using sent(5) booked_emit [of ?r1 0 en] by (metis record_intent_event_def fst_conv)
  from booked_after [OF this booked_submit_legs [OF sent(6)]] have "booked (faults res) ?r1 r'" using sent(7) by simp
  then show ?thesis by (rule booked_via [rotated 3]) simp_all
qed

lemma booked_submit:
  assumes "runtime_submit en i ds es ts r = (r', res)" "unreserved r"
  shows "booked (faults res) r r'"
proof (cases "dict_get (rt_intents r) (runtime_key en i)")
  case (Some x)
  then have "r' = r\<lparr>rt_duplicate_intents := rt_duplicate_intents r + 1\<rparr>"
    using assms(1) by (simp add: runtime_submit_def Let_def)
  then show ?thesis using assms(2) by (intro booked_same) (simp_all add: unreserved_def)
next
  case None
  then show ?thesis
    using assms booked_refuse_intent [OF assms(2), of en i ts _ r' res] booked_evaluate [OF _ assms(2), of en i ds es ts r']
    by (simp add: runtime_submit_def split: if_splits)
qed

lemma release_nothing: "unreserved r \<Longrightarrow> fst (release (rt_ledger r) i) = rt_ledger r"
  by (simp add: release_def unreserved_def dict_pop_def)

lemma booked_moved:
  assumes "unreserved r"
    "record_order_events en (store_order moved (r\<lparr>rt_ledger := fst (release (rt_ledger r) i)\<rparr>)) moved ts = (r', x)"
  shows "booked 0 r r'"
proof -
  have e: "r\<lparr>rt_ledger := fst (release (rt_ledger r) i)\<rparr> = r" using assms(1) by (simp add: release_nothing)
  have "booked 0 (store_order moved r) r'" if "unreserved (store_order moved r)"
    using booked_record [OF that, of 0 en moved ts] assms(2) unfolding e by simp
  with booked_store_order [OF assms(1)] show ?thesis by (rule booked_after)
qed

lemma booked_cancel:
  assumes "runtime_cancel en i ts r = (r', res)" "unreserved r"
  shows "booked 0 r r'"
proof (cases "dict_get (rt_orders r) i")
  case None
  then show ?thesis using assms booked_refl by (simp add: runtime_cancel_def)
next
  case od: (Some od)
  show ?thesis
  proof (cases "paper_cancel od ts")
    case (Inl e)
    then show ?thesis using assms booked_refl od by (simp add: runtime_cancel_def)
  next
    case (Inr moved)
    obtain r1 x where
      m: "record_order_events en (store_order moved (r\<lparr>rt_ledger := fst (release (rt_ledger r) i)\<rparr>)) moved ts = (r1, x)"
      by fastforce
    have "r' = r1" using assms(1) od Inr m by (cases x) (simp_all add: runtime_cancel_def)
    then show ?thesis using booked_moved [OF assms(2) m] by simp
  qed
qed

lemma booked_expire_orders:
  "expire_orders en ts ods r = (r', res) \<Longrightarrow> unreserved r \<Longrightarrow> booked 0 r r'"
proof (induction ods arbitrary: r r' res)
  case Nil
  then show ?case using booked_refl by simp
next
  case (Cons od ods)
  show ?case
  proof (cases "\<exists>i moved. dict_get (rt_intents r) (po_intent_id od) = Some i \<and> has_expired i ts \<and> expire od ts = Inr moved")
    case True
    then obtain i moved where h: "dict_get (rt_intents r) (po_intent_id od) = Some i" "has_expired i ts" "expire od ts = Inr moved"
      by blast
    obtain r1 x where
      m: "record_order_events en (store_order moved (r\<lparr>rt_ledger := fst (release (rt_ledger r) (po_order_id od))\<rparr>)) moved ts = (r1, x)"
      by fastforce
    obtain r2 res2 where t: "expire_orders en ts ods r1 = (r2, res2)" by fastforce
    note b = booked_moved [OF Cons.prems(2) m]
    have "x \<noteq> None \<Longrightarrow> r' = r1" "x = None \<Longrightarrow> r' = r2"
      using Cons.prems(1) h m t by (cases x; cases res2; simp)+
    then show ?thesis using b booked_after [OF b Cons.IH [OF t]] by (cases x) auto
  next
    case False
    then have "r' = r \<or> expire_orders en ts ods r = (r', res)"
      using Cons.prems(1) by (auto split: option.splits if_splits sum.splits)
    then show ?thesis using Cons.IH Cons.prems(2) booked_refl by blast
  qed
qed

section \<open>Reachable runtimes\<close>

text \<open>
  Any history of calls of the entry points, with the number of its submissions that ended in an exception of
  the price arithmetic.
\<close>

inductive runtime_reaches :: "paper_env \<Rightarrow> paper_runtime \<Rightarrow> nat \<Rightarrow> paper_runtime \<Rightarrow> bool" for en r where
  reaches_start: "runtime_reaches en r 0 r"
| reaches_submit: "runtime_reaches en r n r1 \<Longrightarrow> runtime_submit en i ds es ts r1 = (r2, res) \<Longrightarrow>
    runtime_reaches en r (n + faults res) r2"
| reaches_cancel: "runtime_reaches en r n r1 \<Longrightarrow> runtime_cancel en oid ts r1 = (r2, res) \<Longrightarrow> runtime_reaches en r n r2"
| reaches_expire: "runtime_reaches en r n r1 \<Longrightarrow> expire_stale_orders en ts r1 = (r2, res) \<Longrightarrow> runtime_reaches en r n r2"
| reaches_status: "runtime_reaches en r n r1 \<Longrightarrow> set_account_status s ts r1 = (r2, res) \<Longrightarrow> runtime_reaches en r n r2"
| reaches_switch: "runtime_reaches en r n r1 \<Longrightarrow> runtime_reaches en r n (set_kill_switch k r1)"

lemma booked_then: "booked n r r1 \<Longrightarrow> (unreserved r1 \<Longrightarrow> booked 0 r1 r2) \<Longrightarrow> booked n r r2"
  using booked_trans [of n r r1 0 r2] booked_unreserved by simp

lemma booked_reaches:
  assumes "runtime_reaches en r n r'" "unreserved r"
  shows "booked n r r'"
  using assms(1)
proof induction
  case reaches_start
  show ?case using assms(2) by (rule booked_refl)
next
  case (reaches_submit n r1 i ds es ts r2 res)
  show ?case by (rule booked_trans [OF reaches_submit.IH booked_submit [OF reaches_submit(2) booked_unreserved [OF reaches_submit.IH]]])
next
  case (reaches_cancel n r1 oid ts r2 res)
  show ?case by (rule booked_then [OF reaches_cancel.IH booked_cancel [OF reaches_cancel(2)]])
next
  case (reaches_expire n r1 ts r2 res)
  show ?case by (rule booked_then [OF reaches_expire.IH booked_expire_orders [OF reaches_expire(2) [unfolded expire_stale_orders_def]]])
next
  case (reaches_status n r1 s ts r2 res)
  have "booked 0 r1 r2"
    by (rule booked_same)
      (use reaches_status booked_unreserved [OF reaches_status.IH] in
        \<open>auto simp: set_account_status_def unreserved_def with_status_Inr_iff split: sum.splits\<close>)
  then show ?case using booked_then [OF reaches_status.IH] by blast
next
  case (reaches_switch n r1 k)
  have "booked 0 r1 (set_kill_switch k r1)"
    by (rule booked_same)
      (use booked_unreserved [OF reaches_switch.IH] in \<open>simp_all add: set_kill_switch_def unreserved_def\<close>)
  then show ?case using booked_then [OF reaches_switch.IH] by blast
qed

lemma new_runtime_unreserved: "new_runtime en a = Inr r \<Longrightarrow> unreserved r"
  by (auto simp: new_runtime_def new_paper_ledger_def unreserved_def split: sum.splits option.splits if_splits)

lemma fresh_runtime:
  assumes "new_runtime en a = Inr r"
  shows "rt_account r = a" "rt_fills r = []" "rt_orders r = []" "rt_intents r = []"
    "new_paper_ledger (pa_account_id a) (ac_starting_cash (pa_config a)) = Some (rt_ledger r)"
  using assms by (auto simp: new_runtime_def split: sum.splits option.splits)

text \<open>
  Claim C10: The account is what its fills say. After any history of submissions, cancellations,
  expiries, status changes and kill-switch settings, the live cash, positions, P\&L, fees and applied set are
  the fold of a list of fills over the opening ledger, of which the recorded fills are exactly those whose
  costs can be summed; the others, at most one for each submission that ended in an exception of the price
  arithmetic, moved the book and left no record. Rebuilding a ledger from the opening cash and the recorded
  fills always succeeds, and gives the live book whenever no submission ended in such an exception; and
  nothing is ever reserved, so the cash the venue checks against is the whole cash.
\<close>

theorem runtime_book_is_its_fills:
  assumes "new_runtime en a = Inr r0" and "runtime_reaches en r0 n r"
  shows "(\<exists>fs. rt_fills r = filter priced_costs fs \<and> length (filter (\<lambda>f. \<not> priced_costs f) fs) \<le> n
      \<and> book_of (pl_inner (rt_ledger r)) = book_of (fold deliver fs (pl_inner (rt_ledger r0))))
    \<and> (\<exists>l. rebuild_ledger r (rt_fills r) = Some (Inr l)
      \<and> (n = 0 \<longrightarrow> book_of (pl_inner l) = book_of (pl_inner (rt_ledger r))))
    \<and> pl_reservations (rt_ledger r) = []"
proof -
  note new = fresh_runtime [OF assms(1)]
  have b: "booked n r0 r" by (rule booked_reaches [OF assms(2) new_runtime_unreserved [OF assms(1)]])
  then obtain fs where fs: "rt_fills r = filter priced_costs fs" "length (filter (\<lambda>f. \<not> priced_costs f) fs) \<le> n"
      "book_of (pl_inner (rt_ledger r)) = book_of (fold deliver fs (pl_inner (rt_ledger r0)))"
    and acc: "pa_config (rt_account r) = pa_config a" "pa_account_id (rt_account r) = pa_account_id a"
    using new by (auto simp: booked_def)
  have ok: "\<forall>f\<in>set (rt_fills r). \<exists>c. costs_total (fl_costs f) = Inr c" using fs(1) by (auto simp: priced_costs_def)
  from replay_loop_returns [OF ok] obtain l where l: "replay_loop (rt_ledger r0) (rt_fills r) = Inr l" by blast
  have "rebuild_ledger r (rt_fills r) = Some (Inr l)" using l acc new(5) by (simp add: rebuild_ledger_def replay_fills_def)
  moreover have "pl_inner l = fold deliver (rt_fills r) (pl_inner (rt_ledger r0))" using replay_loop_inner [OF l] by simp
  moreover have "rt_fills r = fs" if "n = 0"
    using fs(1,2) that by (simp add: filter_empty_conv)
  ultimately show ?thesis using fs b by (auto simp: booked_def)
qed

section \<open>A small runtime for the witnesses\<close>

definition sale_decision :: risk_decision where
  "sale_decision = sample_decision\<lparr>rd_approved_legs := [(0, 10)], rd_requested_quantity := 10, rd_approved_quantity := 10\<rparr>"

definition sample_env :: paper_env where
  "sample_env = \<lparr>en_hashes = sample_hashes, en_order_digest = (\<lambda>_. ''o''), en_config_digest = (\<lambda>_. ''c''),
     en_probe_digest = (\<lambda>_. ''x''), en_draw = (\<lambda>_. 0), en_context_digest = (\<lambda>_. ''b''), en_state_digest = (\<lambda>_. ''m''),
     en_event_ids = (\<lambda>n. replicate n CHR ''e''), en_gate = (\<lambda>_ _ _ _ _. Inr sale_decision), en_utc_offset = 0,
     en_execution = sample_execution\<rparr>"

definition sample_sale :: "instant \<Rightarrow> trade_intent" where
  "sample_sale knowledge = (two_leg_intent 10 10)\<lparr>ti_legs := [\<lparr>leg_instrument_id = 7, leg_side = SELL, leg_quantity = 10,
       leg_order_type = MARKET, leg_limit_price = None\<rparr>],
     ti_market_time := 90, ti_knowledge_time := knowledge, ti_decision_time := 100, ti_strategy_id := ''s''\<rparr>"

lemma sample_env_fields:
  "en_probe_digest sample_env = (\<lambda>_. ''x'')" "en_draw sample_env = (\<lambda>_. 0)"
  "en_execution sample_env = sample_execution" "ti_constraints (sample_sale n) = no_constraints"
  by (simp_all add: sample_env_def sample_sale_def two_leg_intent_def)

definition sample_runtime :: "account_status \<Rightarrow> paper_runtime" where
  "sample_runtime st = \<lparr>rt_account = sample_account\<lparr>pa_status := st, pa_opened_at := (if st = ACTIVE then Some 90 else None)\<rparr>,
     rt_ledger = sample_account_book, rt_orders = [], rt_intents = [], rt_decisions = [], rt_fills = [],
     rt_fills_by_order = [], rt_watermarks = [], rt_inbox = {}, rt_event_count = 0, rt_emitted = [],
     rt_duplicate_intents = 0, rt_kill_switch = switch_off\<rparr>"

lemma new_sample_runtime: "new_runtime sample_env sample_account = Inr (sample_runtime INITIALISED)"
  using new_sample_account_book
  by (simp add: new_runtime_def adapter_for_def resolve_execution_mode_def sample_account_def sample_config_def
      sample_runtime_def)

lemma activate_sample_runtime:
  "\<exists>a. set_account_status ACTIVE 90 (sample_runtime INITIALISED) = (sample_runtime ACTIVE, Inr a)"
  by (simp add: set_account_status_def with_status_def account_check_def sample_runtime_def sample_account_def Let_def)

lemma run_id_only:
  "si_instrument_id (i\<lparr>si_run_id := rid\<rparr>) = si_instrument_id i" "si_side (i\<lparr>si_run_id := rid\<rparr>) = si_side i"
  "si_quantity (i\<lparr>si_run_id := rid\<rparr>) = si_quantity i" "si_order_type (i\<lparr>si_run_id := rid\<rparr>) = si_order_type i"
  "si_limit_price (i\<lparr>si_run_id := rid\<rparr>) = si_limit_price i"
  "si_decision_time (i\<lparr>si_run_id := rid\<rparr>) = si_decision_time i"
  by simp_all

lemma settle_price_run_id: "settle_price m (i\<lparr>si_run_id := rid\<rparr>) = settle_price m i"
  by (intro ext) (unfold settle_price_def run_id_only, rule refl)

lemma simulate_fill_run_id: "simulate_fill (\<lambda>_. x) dr (i\<lparr>si_run_id := rid\<rparr>) s m = simulate_fill (\<lambda>_. x) dr i s m"
  unfolding simulate_fill_def strategy_intent_id_def settle_price_run_id run_id_only by (rule refl)

abbreviation sale_order :: "paper_runtime \<Rightarrow> paper_order" where
  "sale_order r \<equiv> leg_order sample_env r (sample_sale 100) sale_decision 100 0 (ti_legs (sample_sale 100) ! 0) 10"

lemma probe_of_sale: "probe_of (sale_order r\<lparr>po_state := st, po_events := es\<rparr>)
    = (market_order SELL 10)\<lparr>si_run_id := po_order_id (sale_order r)\<rparr>"
  by (simp add: probe_of_def leg_order_def sample_sale_def two_leg_intent_def market_order_def remaining_quantity_def)

lemma sale_order_ok: "order_ok (sale_order r)"
  by (simp add: order_ok_def leg_order_def sample_sale_def two_leg_intent_def derive_order_id_def risk_decision_id_def)

text \<open>The sale executes under any execution model that fills it.\<close>

lemma sale_executes:
  assumes "simulate_fill (\<lambda>_. ''x'') (\<lambda>_. 0) (market_order SELL 10) sample_market (em_fill_model xm) = Inr sim"
    and f: "fo_fill sim = Some f" "fl_price f = Dec 100 (- 2)" "fl_quantity f = 10"
  shows "\<exists>oc. paper_submit (\<lambda>_. ''x'') (\<lambda>_. 0) xm (sale_order r) sample_market 100 cash (Some no_constraints) None = Inr oc
     \<and> eo_fill oc = Some f \<and> po_order_id (eo_order oc) = po_order_id (sale_order r) \<and> map oe_sequence (po_events (eo_order oc)) = [1, 2]"
proof -
  obtain acc where acc: "transition (sale_order r) ACCEPTED 100 ''paper_venue_accept'' [] = Inr acc"
    by (simp add: transition_def leg_order_def Let_def)
  obtain es where es: "acc = sale_order r\<lparr>po_state := ACCEPTED, po_events := es\<rparr>" "map oe_sequence es = [1]"
    using acc by (auto simp: transition_Inr_iff next_sequence_def leg_order_def)
  have ok: "order_ok acc" using order_ok_transition [OF acc] sale_order_ok by simp
  have rem: "remaining_quantity acc = 10" using es by (simp add: remaining_quantity_def leg_order_def)
  have sell: "fl_side f = SELL"
    using simulated_fill(2) [OF assms(1) f(1)] by (simp add: market_order_def)
  obtain od' where od': "apply_fill acc (fl_quantity f) (fl_price f) 100 ''paper_fill'' = Inr od'"
    using apply_fill_returns [OF ok, of "fl_quantity f" "fl_price f" 100 "''paper_fill''"] f(3) rem es by auto
  have "settle_execution acc 100 cash no_constraints None f = Inr \<lparr>eo_order = od', eo_fill = Some f, eo_reject_reason = None\<rparr>"
    using sell od' by (simp add: settle_execution_def Let_def)
  moreover have "simulate_fill (\<lambda>_. ''x'') (\<lambda>_. 0) (probe_of acc) sample_market (em_fill_model xm) = Inr sim"
    using assms(1) by (simp add: es(1) probe_of_sale simulate_fill_run_id)
  moreover have "strategy_intent_check (probe_of acc) = None"
    by (simp add: es(1) probe_of_sale strategy_intent_check_def) (simp add: market_order_def leg_order_def derive_order_id_def)
  ultimately have "execute (\<lambda>_. ''x'') (\<lambda>_. 0) xm acc sample_market 100 cash (Some no_constraints) None
      = Inr \<lparr>eo_order = od', eo_fill = Some f, eo_reject_reason = None\<rparr>"
    using f(1) es(1) by (simp add: execute_def Let_def) (simp add: sample_market_def market_of_def)
  moreover have "po_state (sale_order r) = CREATED" by (simp add: leg_order_def)
  ultimately have "paper_submit (\<lambda>_. ''x'') (\<lambda>_. 0) xm (sale_order r) sample_market 100 cash
       (Some no_constraints) None = Inr \<lparr>eo_order = od', eo_fill = Some f, eo_reject_reason = None\<rparr>"
    using acc by (simp add: paper_submit_def)
  moreover have "po_order_id od' = po_order_id (sale_order r) \<and> map oe_sequence (po_events od') = [1, 2]"
    using od' ok es by (auto simp: apply_fill_Inr_iff transition_Inr_iff next_sequence_def)
  ultimately show ?thesis by auto
qed

lemma sample_sale_executes:
  "\<exists>oc f. paper_submit (\<lambda>_. ''x'') (\<lambda>_. 0) sample_execution (sale_order r) sample_market 100 cash
       (Some no_constraints) None = Inr oc
     \<and> eo_fill oc = Some f \<and> fl_quantity f = 10 \<and> fl_price f = Dec 100 (- 2) \<and> priced_costs f
     \<and> po_order_id (eo_order oc) = po_order_id (sale_order r) \<and> map oe_sequence (po_events (eo_order oc)) = [1, 2]"
proof -
  obtain sim f where f: "sample_fill_run TOUCH 0 (Dec 100 0) (Dec 101 0) SELL 10 = Inr sim" "fo_fill sim = Some f"
    "fl_price f = Dec 100 (- 2)" "fl_quantity f = 10" "\<not> isl (costs_total (fl_costs f))"
    using sample_touch_sale by (elim exE conjE)
  have "simulate_fill (\<lambda>_. ''x'') (\<lambda>_. 0) (market_order SELL 10) sample_market (em_fill_model sample_execution) = Inr sim"
    using f(1) by (simp add: sample_fill_run_def sample_market_def sample_execution_def)
  from sale_executes [OF this f(2-4), of r cash] f(3-5) show ?thesis
    by (cases "costs_total (fl_costs f)") (auto simp: priced_costs_def)
qed

text \<open>The whole submission: the sale fills, is booked, and its two order events and the intent event are recorded.\<close>

lemma sample_runtime_in_step: "events_in_step sample_env (sample_runtime st)" "inj (en_event_ids sample_env)"
  by (auto simp: events_in_step_def sample_runtime_def watermark_def emitted_for_def order_watermark_def
      sample_env_def inj_def)

lemma runtime_risk_state_returns: "\<exists>rs. runtime_risk_state en r ds ts (Some ts) = Inr rs"
  by (simp add: runtime_risk_state_def make_risk_state_def Let_def)

lemma sample_sale_facts:
  "dict_get (rt_intents (sample_runtime ACTIVE)) (runtime_key sample_env (sample_sale 100)) = None"
  "accepts_intents (pa_status (rt_account (sample_runtime ACTIVE)))"
  "\<not> has_expired (sample_sale 100) 100"
  "is_approved sale_decision" "is_actionable_at sale_decision 100"
  by (simp_all add: sample_runtime_def accepts_intents_def has_expired_def sample_sale_def two_leg_intent_def
      is_approved_def is_actionable_at_def sale_decision_def sample_decision_def)

lemma sample_booking:
  assumes "eo_fill oc = Some f" "priced_costs f" "map oe_sequence (po_events (eo_order oc)) = [1, 2]"
    and "events_in_step sample_env r" "rt_ledger r = sample_account_book" "rt_fills r = []"
  shows "\<exists>r'. book_execution sample_env 100 oc r = (r', Inr [f]) \<and> rt_fills r' = [f] \<and> events_in_step sample_env r'"
proof -
  obtain l where l: "paper_apply (rt_ledger r) f (Some (po_order_id (eo_order oc))) = (l, Inr True)"
    using assms(2,5) by (auto simp: paper_apply_def ledger_apply_def sample_account_book_def sample_book_def
        priced_costs_def Let_def split: prod.splits)
  let ?r1 = "book_applied (po_order_id (eo_order oc)) f l True r"
  have n: "numbered_events (po_events (eo_order oc))"
  proof -
    have "length (po_events (eo_order oc)) = 2" using arg_cong [OF assms(3), of length] by simp
    then show ?thesis using assms(3) by (simp add: numbered_events_def upto.simps)
  qed
  have "events_in_step sample_env ?r1"
    using assms(4) by (simp add: events_in_step_def book_applied_def order_watermark_def emitted_for_def)
  from record_order_events_in_step [OF n this sample_runtime_in_step(2)] obtain r' where
    r': "record_order_events sample_env ?r1 (eo_order oc) 100 = (r', None)" "events_in_step sample_env r'" by blast
  have "rt_fills r' = rt_fills ?r1" using record_frame(2) [of sample_env ?r1 "eo_order oc" 100] r'(1) by simp
  then show ?thesis using r' l assms(6) by (simp add: book_execution_priced [OF assms(1)] book_applied_def)
qed

text \<open>A submission of the sale under an execution model, from what the venue answers and how it is booked.\<close>

lemma sale_order_any: "leg_order (sample_env\<lparr>en_execution := xm\<rparr>) = leg_order sample_env"
  by (intro ext) (simp add: leg_order_def)

lemma sale_submission:
  assumes "\<And>r cash. \<exists>oc. paper_submit (\<lambda>_. ''x'') (\<lambda>_. 0) xm (sale_order r) es 100 cash
      (Some no_constraints) None = Inr oc \<and> P oc"
    and "\<And>oc r. P oc \<Longrightarrow> events_in_step sample_env r \<Longrightarrow> rt_ledger r = sample_account_book \<Longrightarrow> rt_fills r = [] \<Longrightarrow>
      rt_account r = rt_account (sample_runtime ACTIVE) \<Longrightarrow> \<exists>r' res. book_execution (sample_env\<lparr>en_execution := xm\<rparr>) 100 oc r = (r', res) \<and> Q oc r' res"
  shows "\<exists>r res oc. runtime_submit (sample_env\<lparr>en_execution := xm\<rparr>) (sample_sale 100) sample_market es 100 (sample_runtime ACTIVE)
       = (r, map_sum id (\<lambda>fs. (report (sample_sale 100) sale_decision)\<lparr>sr_orders := [eo_order oc], sr_fills := fs\<rparr>) res)
     \<and> P oc \<and> Q oc r res"
proof -
  let ?en = "sample_env\<lparr>en_execution := xm\<rparr>"
  let ?i = "sample_sale 100" and ?r = "sample_runtime ACTIVE"
  have fields: "en_probe_digest ?en = (\<lambda>_. ''x'')" "en_draw ?en = (\<lambda>_. 0)" "en_execution ?en = xm"
    by (simp_all add: sample_env_def)
  obtain rs where rs: "runtime_risk_state ?en ?r sample_market 100 (Some 100) = Inr rs"
    using runtime_risk_state_returns by blast
  have gate: "en_gate ?en ?i rs 1 100 None = Inr sale_decision" by (simp add: sample_env_def)
  let ?r1 = "remember_intent ?en ?i (append_decision ?en ?i sale_decision ?r)"
  have inj: "inj (en_event_ids ?en)" using sample_runtime_in_step(2) by simp
  have step_any: "events_in_step ?en r = events_in_step sample_env r" for r by (simp add: events_in_step_def)
  have "events_in_step ?en ?r1"
    using sample_runtime_in_step(1) [of ACTIVE]
    by (simp add: events_in_step_def remember_intent_def append_decision_def order_watermark_def emitted_for_def)
  from record_intent_in_step [OF this inj] obtain r2 where
    r2: "record_intent_event ?en ?r1 ?i 100 = (r2, None)" "events_in_step ?en r2" by blast
  have "core_of r2 = core_of ?r1" using core_emit r2(1) by (metis record_intent_event_def fst_conv)
  then have frame: "rt_ledger r2 = sample_account_book" "rt_fills r2 = []" "rt_account r2 = rt_account ?r"
    using core_eqD [of r2 ?r1] by (simp_all add: sample_runtime_def)
  obtain oc where x: "paper_submit (\<lambda>_. ''x'') (\<lambda>_. 0) xm (sale_order r2) es 100
      (pl_available_cash (rt_ledger r2)) (Some no_constraints) None = Inr oc" "P oc"
    using assms(1) by blast
  have "events_in_step sample_env (store_order (eo_order oc) r2)"
    using r2(2) unfolding step_any by (simp add: events_in_step_def store_order_def order_watermark_def)
  then obtain r3 res where r3: "book_execution ?en 100 oc (store_order (eo_order oc) r2) = (r3, res)" "Q oc r3 res"
    using assms(2) [OF x(2), of "store_order (eo_order oc) r2"] frame by (auto simp: store_order_def)
  have shape: "validate_shape (sale_order r2) (ac_max_order_quantity (pa_config (rt_account r2)))
      (ac_max_order_notional (pa_config (rt_account r2))) 100 = Inr None"
    by (simp add: frame validate_shape_def sample_runtime_def sample_account_def sample_config_def)
  have ref: "runtime_reference_price sample_market (po_instrument_id (sale_order r2)) = None"
    by (simp add: runtime_reference_price_def all_legs_of_def sample_market_def market_of_def plain_slice_def
        quoted_leg_def bare_leg_def)
  have exec: "execute_leg_order ?en ?i sample_market es 100 (sale_order r2) r2 = (r3, map_sum id (\<lambda>fs. (eo_order oc, fs)) res)"
    using x(1) r3(1) shape ref
    by (cases res) (simp_all add: execute_leg_order_def fields sample_env_fields(4))
  have legs: "enumerate 0 (ti_legs ?i) = [(0, ti_legs ?i ! 0)]"
    by (simp add: sample_sale_def)
  have q: "dict_get (dict_of (rd_approved_legs sale_decision)) 0 = Some 10"
    by (simp add: sale_decision_def dict_of_def dict_set_def dict_get_def)
  have sub: "submit_legs ?en ?i sale_decision sample_market es 100 (enumerate 0 (ti_legs ?i)) r2
      = (r3, map_sum id (\<lambda>fs. ([eo_order oc], fs)) res)"
    unfolding legs using exec q sale_order_ok by (cases res) (simp_all add: validated_def Let_def sale_order_any)
  have "evaluate_and_submit ?en ?i sample_market es 100 ?r
      = (r3, map_sum id (\<lambda>fs. (report ?i sale_decision)\<lparr>sr_orders := [eo_order oc], sr_fills := fs\<rparr>) res)"
    unfolding evaluate_and_submit_def using rs gate sample_sale_facts(4,5) r2(1) sub by (cases res) (simp_all add: Let_def)
  then have "runtime_submit ?en ?i sample_market es 100 ?r
      = (r3, map_sum id (\<lambda>fs. (report ?i sale_decision)\<lparr>sr_orders := [eo_order oc], sr_fills := fs\<rparr>) res)"
    using sample_sale_facts(1-3) by (simp add: runtime_submit_def)
  then show ?thesis using r3(2) x(2) by blast
qed

lemma sample_env_same: "sample_env\<lparr>en_execution := sample_execution\<rparr> = sample_env"
  by (simp add: sample_env_def)

lemma sample_submission_run:
  assumes "\<And>r cash. \<exists>oc. paper_submit (\<lambda>_. ''x'') (\<lambda>_. 0) sample_execution (sale_order r) es 100 cash
      (Some no_constraints) None = Inr oc \<and> P oc"
    and "\<And>oc r. P oc \<Longrightarrow> events_in_step sample_env r \<Longrightarrow> rt_ledger r = sample_account_book \<Longrightarrow> rt_fills r = [] \<Longrightarrow>
      \<exists>r' fs. book_execution sample_env 100 oc r = (r', Inr fs) \<and> Q oc r' fs"
  shows "\<exists>r rep oc. runtime_submit sample_env (sample_sale 100) sample_market es 100 (sample_runtime ACTIVE) = (r, Inr rep)
     \<and> P oc \<and> Q oc r (sr_fills rep) \<and> sr_orders rep = [eo_order oc] \<and> sr_risk_decision rep = sale_decision
     \<and> \<not> sr_duplicate rep \<and> \<not> sr_rejected rep"
proof -
  obtain r res oc where run: "runtime_submit (sample_env\<lparr>en_execution := sample_execution\<rparr>) (sample_sale 100) sample_market es 100 (sample_runtime ACTIVE)
       = (r, map_sum id (\<lambda>fs. (report (sample_sale 100) sale_decision)\<lparr>sr_orders := [eo_order oc], sr_fills := fs\<rparr>) res)"
    "P oc" "\<exists>fs. res = Inr fs \<and> Q oc r fs"
    using sale_submission [of sample_execution es P "\<lambda>oc r res. \<exists>fs. res = Inr fs \<and> Q oc r fs", OF assms(1)] assms(2)
    unfolding sample_env_same by metis
  then show ?thesis unfolding sample_env_same by (auto simp: report_def)
qed

lemma sample_submission:
  "\<exists>r rep f. runtime_submit sample_env (sample_sale 100) sample_market sample_market 100 (sample_runtime ACTIVE) = (r, Inr rep)
     \<and> rt_fills r = [f] \<and> sr_fills rep = [f] \<and> fl_quantity f = 10 \<and> sr_risk_decision rep = sale_decision
     \<and> \<not> sr_duplicate rep \<and> \<not> sr_rejected rep \<and> length (sr_orders rep) = 1"
proof -
  let ?P = "\<lambda>oc :: execution_outcome. \<exists>f. eo_fill oc = Some f \<and> fl_quantity f = 10 \<and> priced_costs f \<and> map oe_sequence (po_events (eo_order oc)) = [1, 2]"
  let ?Q = "\<lambda>(oc :: execution_outcome) (r :: paper_runtime) fs. \<exists>f. fs = [f] \<and> rt_fills r = [f] \<and> fl_quantity f = 10"
  have "\<exists>r rep (oc :: execution_outcome). runtime_submit sample_env (sample_sale 100) sample_market sample_market 100 (sample_runtime ACTIVE) = (r, Inr rep)
     \<and> ?P oc \<and> ?Q oc r (sr_fills rep) \<and> sr_orders rep = [eo_order oc] \<and> sr_risk_decision rep = sale_decision
     \<and> \<not> sr_duplicate rep \<and> \<not> sr_rejected rep"
  proof (rule sample_submission_run [where P = ?P and Q = ?Q])
    show "\<exists>oc. paper_submit (\<lambda>_. ''x'') (\<lambda>_. 0) sample_execution (sale_order r) sample_market 100 cash
      (Some no_constraints) None = Inr oc \<and> ?P oc" for r cash
      using sample_sale_executes [of r cash] by (elim exE conjE) (intro exI conjI)
    show "\<exists>r' fs. book_execution sample_env 100 oc r = (r', Inr fs) \<and> ?Q oc r' fs"
      if "?P oc" "events_in_step sample_env r" "rt_ledger r = sample_account_book" "rt_fills r = []" for oc r
    proof -
      note h = that
      obtain f where f: "eo_fill oc = Some f" "fl_quantity f = 10" "priced_costs f"
        "map oe_sequence (po_events (eo_order oc)) = [1, 2]" using h(1) by (elim exE conjE)
      obtain r' where "book_execution sample_env 100 oc r = (r', Inr [f])" "rt_fills r' = [f]"
        using sample_booking [OF f(1,3,4) h(2-4)] by (elim exE conjE)
      then show ?thesis using f(2) by (intro exI [of _ r'] exI [of _ "[f]"]) simp
    qed
  qed
  then show ?thesis by (elim exE conjE) simp
qed

text \<open>Against an empty market the same sale is ordered and not filled.\<close>

lemma sample_empty_market:
  "\<exists>r rep. runtime_submit sample_env (sample_sale 100) sample_market (market_of []) 100 (sample_runtime ACTIVE) = (r, Inr rep)
     \<and> sr_fills rep = []"
proof -
  have "\<exists>r rep (oc :: execution_outcome). runtime_submit sample_env (sample_sale 100) sample_market (market_of []) 100 (sample_runtime ACTIVE) = (r, Inr rep)
     \<and> eo_fill oc = None \<and> sr_fills rep = [] \<and> sr_orders rep = [eo_order oc] \<and> sr_risk_decision rep = sale_decision
     \<and> \<not> sr_duplicate rep \<and> \<not> sr_rejected rep"
  proof (rule sample_submission_run [where P = "\<lambda>oc :: execution_outcome. eo_fill oc = None" and Q = "\<lambda>oc r fs. fs = []"])
    show "\<exists>oc. paper_submit (\<lambda>_. ''x'') (\<lambda>_. 0) sample_execution (sale_order r) (market_of []) 100 cash
      (Some no_constraints) None = Inr oc \<and> eo_fill oc = None" for r cash
    proof -
      have c: "po_state (sale_order r) = CREATED" by (simp add: leg_order_def)
      obtain acc where acc: "transition (sale_order r) ACCEPTED 100 ''paper_venue_accept'' [] = Inr acc"
        by (simp add: transition_def leg_order_def Let_def)
      then have st: "po_state acc = ACCEPTED" by (simp add: transition_fields)
      have "strategy_intent_check (probe_of acc) = None"
        using acc by (auto simp: transition_Inr_iff probe_of_sale strategy_intent_check_def)
          (simp_all add: market_order_def leg_order_def derive_order_id_def)
      moreover have "simulate_fill (\<lambda>_. ''x'') (\<lambda>_. 0) (probe_of acc) (market_of []) m
          = Inr (rejected_fill (strategy_intent_id (\<lambda>_. ''x'') (probe_of acc)) FILL_NO_PRICE_AVAILABLE)" for m
        by (simp add: simulate_fill_def find_leg_def market_of_def plain_slice_def Let_def)
      moreover obtain od' where "reject acc NO_PRICE_AVAILABLE 100 = Inr od'"
        using st by (auto simp: reject_def transition_def Let_def)
      ultimately have "\<exists>oc. execute (\<lambda>_. ''x'') (\<lambda>_. 0) sample_execution acc (market_of []) 100 cash (Some no_constraints) None = Inr oc
          \<and> eo_fill oc = None"
        using st by (simp add: execute_def Let_def sample_execution_def reject_execution_def rejected_fill_def)
          (simp add: market_of_def)
      then show ?thesis using acc c by (simp add: paper_submit_def)
    qed
    show "\<exists>r' fs. book_execution sample_env 100 oc r = (r', Inr fs) \<and> fs = []" if "eo_fill oc = None" for oc r
      using that by (simp add: book_execution_def)
  qed
  then show ?thesis by blast
qed

theorem runtime_book_is_its_fills_witness:
  "\<exists>r f l. runtime_reaches sample_env (sample_runtime INITIALISED) 0 r \<and> rt_fills r = [f] \<and> fl_quantity f = 10
     \<and> rebuild_ledger r [f] = Some (Inr l) \<and> book_of (pl_inner l) = book_of (pl_inner (rt_ledger r))"
proof -
  obtain a where a: "set_account_status ACTIVE 90 (sample_runtime INITIALISED) = (sample_runtime ACTIVE, Inr a)"
    using activate_sample_runtime by blast
  obtain r rep f where s: "runtime_submit sample_env (sample_sale 100) sample_market sample_market 100 (sample_runtime ACTIVE) = (r, Inr rep)"
    "rt_fills r = [f]" "fl_quantity f = 10"
    using sample_submission by (elim exE conjE)
  have "runtime_reaches sample_env (sample_runtime INITIALISED) 0 (sample_runtime ACTIVE)"
    by (rule reaches_status [OF reaches_start a])
  from reaches_submit [OF this s(1)] have reach: "runtime_reaches sample_env (sample_runtime INITIALISED) 0 r" by simp
  from runtime_book_is_its_fills [OF new_sample_runtime reach] show ?thesis using reach s by auto
qed

section \<open>A fill that moves the book and is not recorded\<close>

text \<open>
  A cost schedule whose components can each be rounded to paise while their sum has more digits than the
  context carries: the charge of a sale of a thousand is computed, its total is not.
\<close>

definition ruinous_execution :: execution_model where
  "ruinous_execution = \<lparr>em_fill_model = (sample_model TOUCH 0)\<lparr>fm_cost_model := free_costs\<lparr>cm_brokerage_flat := Dec (6 * 10 ^ 25) 0,
     cm_brokerage_rate := Dec (6 * 10 ^ 22) 0, cm_exchange_rate := Dec (6 * 10 ^ 22) 0\<rparr>\<rparr>, em_reject_on_unreliable_state = True\<rparr>"

definition ruinous_env :: paper_env where
  "ruinous_env = sample_env\<lparr>en_execution := ruinous_execution\<rparr>"

lemma ruinous_sale:
  obtains sim f where "simulate_fill (\<lambda>_. ''x'') (\<lambda>_. 0) (market_order SELL 10) sample_market (em_fill_model ruinous_execution) = Inr sim"
    "fo_fill sim = Some f" "fl_price f = Dec 100 (- 2)" "fl_quantity f = 10" "costs_total (fl_costs f) = Inl InvalidOperation"
proof -
  have "case simulate_fill (\<lambda>_. ''x'') (\<lambda>_. 0) (market_order SELL 10) sample_market (em_fill_model ruinous_execution) of
      Inr oc \<Rightarrow> (case fo_fill oc of
          Some f \<Rightarrow> fl_price f = Dec 100 (- 2) \<and> fl_quantity f = 10 \<and> costs_total (fl_costs f) = Inl InvalidOperation
        | None \<Rightarrow> False)
    | Inl _ \<Rightarrow> False"
    by code_simp
  then show thesis using that by (auto split: sum.splits option.splits)
qed

text \<open>
  Where the book is not its fills. Under this schedule the submission of the sample sale ends in the
  exception, after the consideration of the fill has entered the cash: no fill is recorded and no position
  is open, and the rebuilt book lacks the thousand that the live book has.
\<close>

theorem unrecorded_fill_moves_the_book:
  "\<exists>r l. runtime_submit ruinous_env (sample_sale 100) sample_market sample_market 100 (sample_runtime ACTIVE)
       = (r, Inl (RT_Exec (Pricing_Error InvalidOperation)))
     \<and> runtime_reaches ruinous_env (sample_runtime ACTIVE) 1 r \<and> rt_fills r = [] \<and> lg_positions (pl_inner (rt_ledger r)) = []
     \<and> dval (lg_cash (pl_inner (rt_ledger r))) = dval (lg_cash (pl_inner (rt_ledger (sample_runtime ACTIVE)))) + 1000
     \<and> rebuild_ledger r (rt_fills r) = Some (Inr l)
     \<and> lg_cash (pl_inner l) = lg_cash (pl_inner (rt_ledger (sample_runtime ACTIVE)))"
proof -
  obtain sim f where f: "simulate_fill (\<lambda>_. ''x'') (\<lambda>_. 0) (market_order SELL 10) sample_market (em_fill_model ruinous_execution) = Inr sim"
    "fo_fill sim = Some f" "fl_price f = Dec 100 (- 2)" "fl_quantity f = 10" "costs_total (fl_costs f) = Inl InvalidOperation"
    by (rule ruinous_sale)
  have sell: "fl_side f = SELL" using simulated_fill(2) [OF f(1,2)] by (simp add: market_order_def)
  let ?P = "\<lambda>oc :: execution_outcome. eo_fill oc = Some f"
  let ?Q = "\<lambda>(oc :: execution_outcome) (r :: paper_runtime) (res :: runtime_error + fill list).
      res = Inl (RT_Exec (Pricing_Error InvalidOperation)) \<and> rt_fills r = [] \<and> rt_account r = rt_account (sample_runtime ACTIVE)
      \<and> lg_positions (pl_inner (rt_ledger r)) = [] \<and> dval (lg_cash (pl_inner (rt_ledger r))) = 1400"
  have "\<exists>r res (oc :: execution_outcome). runtime_submit ruinous_env (sample_sale 100) sample_market sample_market 100 (sample_runtime ACTIVE)
       = (r, map_sum id (\<lambda>fs. (report (sample_sale 100) sale_decision)\<lparr>sr_orders := [eo_order oc], sr_fills := fs\<rparr>) res)
     \<and> ?P oc \<and> ?Q oc r res"
    unfolding ruinous_env_def
  proof (rule sale_submission)
    show "\<exists>oc. paper_submit (\<lambda>_. ''x'') (\<lambda>_. 0) ruinous_execution (sale_order r) sample_market 100 cash
      (Some no_constraints) None = Inr oc \<and> ?P oc" for r cash
      using sale_executes [OF f(1-4), of r cash] by blast
    show "\<exists>r' res. book_execution (sample_env\<lparr>en_execution := ruinous_execution\<rparr>) 100 oc r = (r', res) \<and> ?Q oc r' res"
      if "?P oc" "rt_ledger r = sample_account_book" "rt_fills r = []" "rt_account r = rt_account (sample_runtime ACTIVE)" for oc r
      using that(2-4) f(3-5) sell unfolding book_execution_priced [OF that(1)]
      by (simp add: paper_apply_def ledger_apply_def sample_account_book_def sample_book_def signed_fill_def side_sign_def Let_def)
  qed
  then obtain r where r: "runtime_submit ruinous_env (sample_sale 100) sample_market sample_market 100 (sample_runtime ACTIVE)
       = (r, Inl (RT_Exec (Pricing_Error InvalidOperation)))" "rt_fills r = []" "lg_positions (pl_inner (rt_ledger r)) = []"
      "rt_account r = rt_account (sample_runtime ACTIVE)" "dval (lg_cash (pl_inner (rt_ledger r))) = 1400"
    by auto
  have book: "rt_ledger (sample_runtime ACTIVE) = sample_account_book" by (simp add: sample_runtime_def)
  have "rebuild_ledger r (rt_fills r) = Some (Inr sample_account_book)"
    using new_sample_account_book by (simp add: rebuild_ledger_def replay_fills_def r sample_runtime_def sample_account_def sample_config_def)
  moreover have "runtime_reaches ruinous_env (sample_runtime ACTIVE) 1 r"
    using reaches_submit [OF reaches_start r(1)] by simp
  ultimately show ?thesis using r unfolding book
    by (intro exI [of _ r] exI [of _ sample_account_book]) (simp add: sample_account_book_def sample_book_def)
qed

end
