(* ===== verification/Runtime_Contract.thy ===== *)
theory Runtime_Contract
  imports Runtime_Safety
begin

text \<open>
  What a submission to the runtime of \<^verbatim>\<open>trading/runtime.py\<close> promises: the orders are the approved legs,
  the fills stay inside them, and neither depends on the state the venue prices against beyond the
  fills themselves.
\<close>

section \<open>What an order keeps for life\<close>

type_synonym ticket =
  "(string \<times> string) \<times> (int \<times> side \<times> int) \<times> (order_type \<times> decimal option) \<times> (string \<times> int option)"

definition ticket :: "paper_order \<Rightarrow> ticket" where
  "ticket od = ((po_order_id od, po_intent_id od), (po_instrument_id od, po_side od, po_quantity od),
     (po_order_type od, po_limit_price od), (po_authorizing_risk_decision_id od, po_authorizing_decision_sequence od))"

definition ticket_kept :: "paper_order \<Rightarrow> paper_order \<Rightarrow> bool" where
  "ticket_kept od od' \<longleftrightarrow> ticket od' = ticket od \<and> (order_ok od \<longrightarrow> order_ok od')
     \<and> (numbered_events (po_events od) \<longrightarrow> numbered_events (po_events od'))"

named_theorems evolution

lemma ticket_kept_refl [simp]: "ticket_kept od od" by (simp add: ticket_kept_def)

lemma ticket_kept_trans: "ticket_kept od od1 \<Longrightarrow> ticket_kept od1 od2 \<Longrightarrow> ticket_kept od od2" by (simp add: ticket_kept_def)

lemma ticket_kept_transition [evolution]: "transition od target ts trigger payload = Inr od' \<Longrightarrow> ticket_kept od od'"
  using numbered_transition order_ok_transition
  by (auto simp: ticket_kept_def) (auto simp: ticket_def transition_Inr_iff)

lemma ticket_kept_apply_fill [evolution]: "apply_fill od q p ts trigger = Inr od' \<Longrightarrow> ticket_kept od od'"
  using numbered_apply_fill order_ok_apply_fill
  by (auto simp: ticket_kept_def)
    (auto simp: ticket_def apply_fill_def transition_Inr_iff Let_def bind_result_Inr_iff validated_def split: if_splits)

lemma ticket_kept_reject [evolution]: "reject od reason ts = Inr od' \<Longrightarrow> ticket_kept od od'"
  using numbered_reject order_ok_reject
  by (auto simp: ticket_kept_def) (auto simp: ticket_def reject_Inr_iff transition_Inr_iff)

lemma ticket_kept_cancel [evolution]: "cancel od ts = Inr od' \<Longrightarrow> ticket_kept od od'"
  by (auto simp: cancel_def evolution)

lemma ticket_kept_expire [evolution]: "expire od ts = Inr od' \<Longrightarrow> ticket_kept od od'"
  by (auto simp: expire_def evolution)

lemma ticket_kept_reject_execution [evolution]: "reject_execution od ts reason = Inr oc \<Longrightarrow> ticket_kept od (eo_order oc)"
  by (auto simp: reject_execution_def bind_result_Inr_iff evolution split: if_splits)

lemma ticket_kept_expire_execution [evolution]: "expire_execution od ts = Inr oc \<Longrightarrow> ticket_kept od (eo_order oc)"
  by (auto simp: expire_execution_def bind_result_Inr_iff evolution)

lemma ticket_kept_settle [evolution]: "settle_execution od ts cash c reference f = Inr oc \<Longrightarrow> ticket_kept od (eo_order oc)"
  by (auto simp: settle_execution_def Let_def bind_result_Inr_iff evolution split: if_splits option.splits)

lemma ticket_kept_execute [evolution]:
  "execute digest draw m od s ts cash constraints reference = Inr oc \<Longrightarrow> ticket_kept od (eo_order oc)"
  by (auto simp: execute_def Let_def bind_result_Inr_iff evolution split: if_splits option.splits)

lemma ticket_kept_paper_submit [evolution]:
  "paper_submit digest draw m od s ts cash constraints reference = Inr oc \<Longrightarrow> ticket_kept od (eo_order oc)"
  by (auto simp: paper_submit_def bind_result_Inr_iff split: if_splits intro: ticket_kept_trans evolution)

lemma ticket_kept_validate_shape [evolution]:
  "validate_shape od q n ts = Inr (Some oc) \<Longrightarrow> ticket_kept od (eo_order oc)"
  by (auto simp: validate_shape_def refuse_shape_def bind_result_Inr_iff evolution split: if_splits)

lemma validate_shape_fill: "validate_shape od q n ts = Inr (Some oc) \<Longrightarrow> eo_fill oc = None"
  by (auto simp: validate_shape_def refuse_shape_def bind_result_Inr_iff split: if_splits)

text \<open>A fill of a fresh order is for the order's instrument and side and is exactly what the order records as filled.\<close>

definition fills_order :: "paper_order \<Rightarrow> fill \<Rightarrow> bool" where
  "fills_order od f \<longleftrightarrow> fl_instrument_id f = po_instrument_id od \<and> fl_side f = po_side od
     \<and> 0 < fl_quantity f \<and> fl_quantity f = po_filled_quantity od
     \<and> (po_order_type od = LIMIT \<longrightarrow> po_limit_price od = Some (fl_price f))"

lemma execute_fills:
  assumes "execute digest draw m od s ts cash constraints reference = Inr oc" "eo_fill oc = Some f"
    "order_ok od" "po_filled_quantity od = 0"
  shows "fills_order (eo_order oc) f"
  using assms(1)
proof (cases rule: execute_cases)
  case (filled g sim)
  from filled(7) show ?thesis
  proof (cases rule: settle_execution_cases)
    case fin: (filled od')
    have t: "ticket od' = ticket od" using ticket_kept_apply_fill [OF fin(1)] by (simp add: ticket_kept_def)
    have g: "g = f" using fin(2) assms(2) by simp
    have "po_filled_quantity od' = fl_quantity f" using apply_fill_fields(1) [OF assms(3) fin(1)] assms(4) g by simp
    moreover have "fl_instrument_id f = po_instrument_id od" "fl_side f = po_side od" "0 < fl_quantity f"
      "po_order_type od = LIMIT \<longrightarrow> po_limit_price od = Some (fl_price f)"
      using simulated_fill [OF filled(5,6)] filled(4) by (auto simp: g probe_of_def strategy_intent_check_def split: if_splits)
    ultimately show ?thesis using t fin(2) by (auto simp: fills_order_def ticket_def)
  qed (use assms(2) in \<open>auto simp: refused_with_def\<close>)
qed (use assms(2) in \<open>auto simp: refused_with_def\<close>)

lemma paper_submit_fills:
  assumes "paper_submit digest draw m od s ts cash constraints reference = Inr oc" "eo_fill oc = Some f"
    "order_ok od" "po_filled_quantity od = 0"
  shows "fills_order (eo_order oc) f"
proof -
  obtain od1 where od1: "(if po_state od = CREATED then lift_order (transition od ACCEPTED ts ''paper_venue_accept'' []) else Inr od) = Inr od1"
    "execute digest draw m od1 s ts cash constraints reference = Inr oc"
    using assms(1) by (auto simp: paper_submit_def bind_result_Inr_iff)
  have "order_ok od1" "po_filled_quantity od1 = 0"
    using od1(1) assms(3,4) order_ok_transition transition_fields(4) by (auto split: if_splits)
  then show ?thesis by (rule execute_fills [OF od1(2) assms(2)])
qed

section \<open>What the legs of an intent become\<close>

lemma book_execution_cases:
  assumes "book_execution en ts oc r = (r', res)"
  obtains (nothing) "eo_fill oc = None" "r' = r" "res = Inr []"
  | (mispriced) l e where "r' = r\<lparr>rt_ledger := l\<rparr>" "res = Inl (RT_Exec (Pricing_Error e))"
  | (applied) f l b x where "eo_fill oc = Some f"
      "record_order_events en (book_applied (po_order_id (eo_order oc)) f l b r) (eo_order oc) ts = (r', x)"
      "res = (case x of Some g \<Rightarrow> Inl g | None \<Rightarrow> Inr (if b then [f] else []))"
proof (cases "eo_fill oc")
  case None
  show ?thesis by (rule nothing) (use assms None in \<open>simp_all add: book_execution_def\<close>)
next
  case (Some f)
  obtain l y where p: "paper_apply (rt_ledger r) f (Some (po_order_id (eo_order oc))) = (l, y)" by fastforce
  show ?thesis
  proof (cases y)
    case (Inl e)
    show ?thesis by (rule mispriced [of l e]) (use assms p Inl in \<open>simp_all add: book_execution_priced [OF Some]\<close>)
  next
    case (Inr b)
    obtain r1 x where x: "record_order_events en (book_applied (po_order_id (eo_order oc)) f l b r) (eo_order oc) ts = (r1, x)"
      by fastforce
    show ?thesis
      by (rule applied [OF Some, of l b x])
        (use assms p Inr x in \<open>auto simp: book_execution_priced [OF Some] split: option.splits\<close>)
  qed
qed

lemma book_applied_frame [simp]:
  "rt_account (book_applied i f l b r) = rt_account r" "rt_orders (book_applied i f l b r) = rt_orders r"
  "rt_intents (book_applied i f l b r) = rt_intents r" "rt_decisions (book_applied i f l b r) = rt_decisions r"
  "events_in_step en (book_applied i f l b r) = events_in_step en r"
  by (simp_all add: book_applied_def events_in_step_def emitted_for_def order_watermark_def)

lemma events_in_step_orders [simp]: "events_in_step en (store_order od r) = events_in_step en r"
  by (simp add: events_in_step_def store_order_def order_watermark_def)

text \<open>Booking leaves the account, the orders, the intents and the decisions alone.\<close>

lemma book_execution_frame:
  assumes "book_execution en ts oc r = (r', res)"
  shows "rt_account r' = rt_account r" "rt_orders r' = rt_orders r" "rt_intents r' = rt_intents r"
    "rt_decisions r' = rt_decisions r"
proof -
  have "rt_account r' = rt_account r \<and> rt_orders r' = rt_orders r \<and> rt_intents r' = rt_intents r
      \<and> rt_decisions r' = rt_decisions r"
    using assms
  proof (cases rule: book_execution_cases)
    case (applied f l b x)
    have "r' = fst (record_order_events en (book_applied (po_order_id (eo_order oc)) f l b r) (eo_order oc) ts)"
      using applied(2) by simp
    then show ?thesis by (simp add: record_frame)
  qed simp_all
  then show "rt_account r' = rt_account r" "rt_orders r' = rt_orders r" "rt_intents r' = rt_intents r"
    "rt_decisions r' = rt_decisions r" by simp_all
qed

lemma book_execution_fills: "book_execution en ts oc r = (r', Inr fs) \<Longrightarrow> fs = [] \<or> (\<exists>f. eo_fill oc = Some f \<and> fs = [f])"
  by (erule book_execution_cases) (simp_all split: option.splits if_splits)

text \<open>One leg: the stored order, the frame, and the fill if there is one.\<close>

definition leg_outcome :: "paper_order \<Rightarrow> paper_order \<Rightarrow> fill list \<Rightarrow> bool" where
  "leg_outcome od od' fs \<longleftrightarrow> ticket_kept od od' \<and> (fs = [] \<or> (\<exists>f. fs = [f] \<and> fills_order od' f))"

lemma execute_leg_outcome:
  assumes "execute_leg_order en i ds es ts od r = (r', Inr (od', fs))" "order_ok od" "po_filled_quantity od = 0"
  shows "leg_outcome od od' fs"
  using assms(1)
proof (cases rule: execute_leg_cases)
  case (shape refusal)
  then show ?thesis using ticket_kept_validate_shape by (simp add: leg_outcome_def)
next
  case (sent oc res')
  then obtain gs where res': "res' = Inr gs" "od' = eo_order oc" "fs = gs" by (cases res') simp_all
  have "gs = [] \<or> (\<exists>f. eo_fill oc = Some f \<and> gs = [f])"
    using sent(2) unfolding res'(1) by (rule book_execution_fills)
  then show ?thesis
    using ticket_kept_paper_submit [OF sent(1)] paper_submit_fills [OF sent(1) _ assms(2,3)] res'
    by (auto simp: leg_outcome_def)
qed simp

lemma execute_leg_frame:
  assumes "execute_leg_order en i ds es ts od r = (r', res)"
  shows "rt_account r' = rt_account r \<and> rt_intents r' = rt_intents r \<and> rt_decisions r' = rt_decisions r"
  using assms
proof (cases rule: execute_leg_cases)
  case (sent oc res')
  then show ?thesis using book_execution_frame [OF sent(2)] by (simp add: store_order_def)
qed (simp_all add: store_order_def)

lemma submit_legs_frame:
  "submit_legs en i d ds es ts xs r = (r', res) \<Longrightarrow>
   rt_account r' = rt_account r \<and> rt_intents r' = rt_intents r \<and> rt_decisions r' = rt_decisions r"
proof (induction xs arbitrary: r res)
  case (Cons x xs)
  from Cons.prems show ?case
  proof (cases rule: submit_legs_Cons_cases)
    case skipped
    then show ?thesis using Cons.IH by blast
  next
    case (failed err)
    then show ?thesis using execute_leg_frame by blast
  next
    case (placed r1 od fs res')
    then show ?thesis using Cons.IH [OF placed(4)] execute_leg_frame [OF placed(3)] by simp
  qed simp
qed simp

text \<open>The orders an intent asks for under a decision, in the order of its legs.\<close>

definition asked_orders :: "paper_env \<Rightarrow> paper_runtime \<Rightarrow> trade_intent \<Rightarrow> risk_decision \<Rightarrow> instant \<Rightarrow> (nat \<times> intent_leg) list \<Rightarrow> paper_order list" where
  "asked_orders en r i d ts xs =
     map (\<lambda>x. leg_order en r i d ts (int (fst x)) (snd x) (leg_quantity_of d x)) (filter (\<lambda>x. 0 < leg_quantity_of d x) xs)"

lemma leg_order_account: "rt_account r' = rt_account r \<Longrightarrow> leg_order en r' i d ts k l q = leg_order en r i d ts k l q"
  by (simp add: leg_order_def)

lemma submit_legs_outcome:
  "submit_legs en i d ds es ts xs r = (r', Inr (ods, fs)) \<Longrightarrow>
   map ticket ods = map ticket (asked_orders en r i d ts xs) \<and> (\<forall>od\<in>set ods. order_ok od)
   \<and> (\<forall>f\<in>set fs. \<exists>od\<in>set ods. fills_order od f)
   \<and> sum_list (map fl_quantity fs) \<le> sum_list (map po_filled_quantity ods)"
proof (induction xs arbitrary: r ods fs)
  case Nil
  then show ?case by (simp add: asked_orders_def)
next
  case (Cons x xs)
  from Cons.prems show ?case
  proof (cases rule: submit_legs_Cons_cases)
    case skipped
    then show ?thesis using Cons.IH [OF skipped(2)] by (simp add: asked_orders_def)
  next
    case (placed r1 od gs res')
    let ?o = "leg_order en r i d ts (int (fst x)) (snd x) (leg_quantity_of d x)"
    obtain ods' fs' where s: "res' = Inr (ods', fs')" "ods = od # ods'" "fs = gs @ fs'"
      using placed(5) by (cases res') auto
    have out: "leg_outcome ?o od gs"
      by (rule execute_leg_outcome [OF placed(3) placed(2)]) (simp add: leg_order_def)
    then have od: "ticket od = ticket ?o" "order_ok od" using placed(2) by (simp_all add: leg_outcome_def ticket_kept_def)
    have "rt_account r1 = rt_account r" using execute_leg_frame [OF placed(3)] by simp
    then have same: "asked_orders en r1 i d ts xs = asked_orders en r i d ts xs"
      by (simp add: asked_orders_def leg_order_account [of r1 r])
    have gs: "(\<forall>f\<in>set gs. fills_order od f) \<and> sum_list (map fl_quantity gs) \<le> po_filled_quantity od"
      using out od(2) by (auto simp: leg_outcome_def fills_order_def order_ok_def)
    note ih = Cons.IH [OF placed(4) [unfolded s(1)], unfolded same]
    have "asked_orders en r i d ts (x # xs) = ?o # asked_orders en r i d ts xs"
      using placed(1) by (simp add: asked_orders_def)
    then have "map ticket ods = map ticket (asked_orders en r i d ts (x # xs))"
      unfolding s(2) using ih [THEN conjunct1] od(1) by simp
    moreover have "\<forall>od\<in>set ods. order_ok od" unfolding s(2) using ih od(2) by simp
    moreover have "\<forall>f\<in>set fs. \<exists>od\<in>set ods. fills_order od f" unfolding s(2,3) using ih gs by auto
    moreover have "sum_list (map fl_quantity fs) \<le> sum_list (map po_filled_quantity ods)"
      unfolding s(2,3) using ih gs by (simp add: add_mono)
    ultimately show ?thesis by blast
  qed simp_all
qed

section \<open>Submission\<close>

lemma record_intent_account: "record_intent_event en r i ts = (r', x) \<Longrightarrow> rt_account r' = rt_account r"
  using emit_frame(3) by (metis record_intent_event_def fst_conv)

text \<open>The two ways a submission can return a report that is not a refusal.\<close>

lemma runtime_submit_orders:
  assumes "runtime_submit en i ds es ts r = (r', Inr rep)" "\<not> sr_duplicate rep" "sr_orders rep \<noteq> []"
  obtains rs d r2 where "accepts_intents (pa_status (rt_account r))" "\<not> has_expired i ts"
    "runtime_risk_state en r ds ts (Some ts) = Inr rs" "en_gate en i rs 1 ts None = Inr d"
    "is_approved d" "is_actionable_at d ts" "sr_risk_decision rep = d" "rt_account r2 = rt_account r"
    "submit_legs en i d ds es ts (enumerate 0 (ti_legs i)) r2 = (r', Inr (sr_orders rep, sr_fills rep))"
proof -
  have new: "dict_get (rt_intents r) (runtime_key en i) = None"
    using assms(1,2) by (auto simp: runtime_submit_def duplicate_report_def Let_def split: option.splits list.splits)
  have live: "accepts_intents (pa_status (rt_account r))" "\<not> has_expired i ts"
    using assms(1,3) new
    by (auto simp: runtime_submit_def refuse_intent_def report_def split: if_splits sum.splits)
  have ev: "evaluate_and_submit en i ds es ts r = (r', Inr rep)" using assms(1) new live by (simp add: runtime_submit_def)
  then show thesis
  proof (cases rule: evaluate_and_submit_cases)
    case (refused rs d)
    then show thesis using assms(3) by (simp add: report_def)
  next
    case (sent rs d r2 res')
    obtain ods fs where res': "res' = Inr (ods, fs)" using sent(7) by (cases res') auto
    have rep: "sr_risk_decision rep = d" "sr_orders rep = ods" "sr_fills rep = fs"
      using sent(7) by (simp_all add: res' report_def)
    have "rt_account r2 = rt_account r" using record_intent_account [OF sent(5)] by simp
    then show thesis using that [OF live sent(1-4) rep(1)] sent(6) by (simp add: res' rep)
  qed simp_all
qed

text \<open>
  Claim C16: only what risk approved is ordered, and only what is ordered is filled. If a submission
  reports orders, the account was active, the intent alive, and the gate, asked about the state the
  strategy saw, gave the reported decision, which is an actionable approval; the orders are the legs
  of the intent at the approved quantities, in order, each naming that decision; every fill is for
  one of these orders, at its limit if it has one; and together the fills are at most the quantities
  the orders record as filled, none above its order.
\<close>

theorem submission_stays_within_approval:
  assumes "runtime_submit en i ds es ts r = (r', Inr rep)" "\<not> sr_duplicate rep" "sr_orders rep \<noteq> []"
  shows "accepts_intents (pa_status (rt_account r)) \<and> \<not> has_expired i ts
    \<and> (\<exists>rs. runtime_risk_state en r ds ts (Some ts) = Inr rs \<and> en_gate en i rs 1 ts None = Inr (sr_risk_decision rep))
    \<and> is_approved (sr_risk_decision rep) \<and> is_actionable_at (sr_risk_decision rep) ts
    \<and> map ticket (sr_orders rep) = map ticket (asked_orders en r i (sr_risk_decision rep) ts (enumerate 0 (ti_legs i)))
    \<and> (\<forall>f\<in>set (sr_fills rep). \<exists>od\<in>set (sr_orders rep). fills_order od f)
    \<and> (\<forall>od\<in>set (sr_orders rep). 0 \<le> po_filled_quantity od \<and> po_filled_quantity od \<le> po_quantity od)
    \<and> sum_list (map fl_quantity (sr_fills rep)) \<le> sum_list (map po_filled_quantity (sr_orders rep))"
  using assms
proof (rule runtime_submit_orders)
  fix rs d r2
  assume a: "accepts_intents (pa_status (rt_account r))" "\<not> has_expired i ts"
    "runtime_risk_state en r ds ts (Some ts) = Inr rs" "en_gate en i rs 1 ts None = Inr d"
    "is_approved d" "is_actionable_at d ts" "sr_risk_decision rep = d" and acc: "rt_account r2 = rt_account r"
    and legs: "submit_legs en i d ds es ts (enumerate 0 (ti_legs i)) r2 = (r', Inr (sr_orders rep, sr_fills rep))"
  have "asked_orders en r2 i d ts xs = asked_orders en r i d ts xs" for xs
    using acc by (simp add: asked_orders_def leg_order_account [of r2 r])
  with submit_legs_outcome [OF legs] a show ?thesis by (auto simp: order_ok_def)
qed

theorem submission_stays_within_approval_witness:
  "\<exists>r rep. runtime_submit sample_env (sample_sale 100) sample_market sample_market 100 (sample_runtime ACTIVE) = (r, Inr rep)
     \<and> map ticket (sr_orders rep) = [ticket (sale_order (sample_runtime ACTIVE))]
     \<and> (\<exists>f od. sr_fills rep = [f] \<and> sr_orders rep = [od] \<and> fills_order od f)"
proof -
  obtain r rep f where s:
    "runtime_submit sample_env (sample_sale 100) sample_market sample_market 100 (sample_runtime ACTIVE) = (r, Inr rep)"
    "sr_fills rep = [f]" "sr_risk_decision rep = sale_decision" "\<not> sr_duplicate rep" "length (sr_orders rep) = 1"
    using sample_submission by (elim exE conjE)
  obtain od where od: "sr_orders rep = [od]" using s(5) by (cases "sr_orders rep") auto
  have "enumerate 0 (ti_legs (sample_sale 100)) = [(0, ti_legs (sample_sale 100) ! 0)]" by (simp add: sample_sale_def)
  moreover have "leg_quantity_of sale_decision (0, l) = 10" for l
    by (simp add: leg_quantity_of_def sale_decision_def dict_of_def dict_set_def dict_get_def)
  ultimately have "asked_orders sample_env (sample_runtime ACTIVE) (sample_sale 100) sale_decision 100
      (enumerate 0 (ti_legs (sample_sale 100))) = [sale_order (sample_runtime ACTIVE)]"
    by (simp add: asked_orders_def)
  then show ?thesis using submission_stays_within_approval [OF s(1,4)] s od by auto
qed

text \<open>
  Look-ahead has no way in. What risk decides, whether the intent is refused and why, and
  what is ordered - every order's identity, instrument, side, quantity and limit - are the same for
  any two states the venue might price against; these can only change the fills.
\<close>

theorem decision_blind_to_execution_state:
  assumes "runtime_submit en i ds es ts r = (r1, Inr rep)" "runtime_submit en i ds es' ts r = (r2, Inr rep')"
  shows "sr_risk_decision rep = sr_risk_decision rep' \<and> sr_rejected rep = sr_rejected rep'
    \<and> sr_reject_reason rep = sr_reject_reason rep' \<and> sr_duplicate rep = sr_duplicate rep'
    \<and> map ticket (sr_orders rep) = map ticket (sr_orders rep')"
proof (cases "dict_get (rt_intents r) (runtime_key en i) = None \<and> accepts_intents (pa_status (rt_account r)) \<and> \<not> has_expired i ts")
  case False
  then have "runtime_submit en i ds es ts r = runtime_submit en i ds es' ts r"
    by (auto simp: runtime_submit_def split: option.split)
  then show ?thesis using assms by simp
next
  case True
  then have a: "evaluate_and_submit en i ds es ts r = (r1, Inr rep)" "evaluate_and_submit en i ds es' ts r = (r2, Inr rep')"
    using assms by (simp_all add: runtime_submit_def)
  from a(1) show ?thesis
  proof (cases rule: evaluate_and_submit_cases)
    case (refused rs d)
    then show ?thesis using a(2) by (simp add: evaluate_and_submit_def Let_def)
  next
    case (sent rs d r3 res)
    from a(2) show ?thesis
    proof (cases rule: evaluate_and_submit_cases)
      case (refused rs' d')
      then show ?thesis using sent by simp
    next
      case again: (sent rs' d' r4 res')
      have same: "d' = d" "r4 = r3" using sent(1,2,5) again(1,2,5) by simp_all
      obtain ods fs ods' fs' where o: "res = Inr (ods, fs)" "res' = Inr (ods', fs')"
        using sent(7) again(7) by (cases res; cases res') auto
      have "map ticket ods = map ticket ods'"
        using submit_legs_outcome [OF sent(6) [unfolded o]] submit_legs_outcome [OF again(6) [unfolded o same]] by simp
      then show ?thesis using sent(7) again(7) by (simp add: o same report_def)
    qed simp_all
  qed simp_all
qed

theorem decision_blind_to_execution_state_witness:
  "\<exists>r rep r' rep'. runtime_submit sample_env (sample_sale 100) sample_market sample_market 100 (sample_runtime ACTIVE) = (r, Inr rep)
     \<and> runtime_submit sample_env (sample_sale 100) sample_market (market_of []) 100 (sample_runtime ACTIVE) = (r', Inr rep')
     \<and> sr_fills rep' = [] \<and> sr_fills rep \<noteq> [] \<and> map ticket (sr_orders rep) = map ticket (sr_orders rep')"
proof -
  obtain r rep f where a:
    "runtime_submit sample_env (sample_sale 100) sample_market sample_market 100 (sample_runtime ACTIVE) = (r, Inr rep)"
    "sr_fills rep = [f]"
    using sample_submission by (elim exE conjE)
  obtain r' rep' where b:
    "runtime_submit sample_env (sample_sale 100) sample_market (market_of []) 100 (sample_runtime ACTIVE) = (r', Inr rep')"
    "sr_fills rep' = []"
    using sample_empty_market by (elim exE conjE)
  from decision_blind_to_execution_state [OF a(1) b(1)] show ?thesis using a b by auto
qed

end
