(* ===== verification/Runtime_History.thy ===== *)
theory Runtime_History
  imports Runtime_Contract
begin

text \<open>
  The runtime of \<^verbatim>\<open>trading/runtime.py\<close> over whole histories: an intent is processed once whatever
  happens after it, and the events recorded along any history are without gaps.
\<close>

section \<open>An intent is processed once\<close>

definition processed :: "string \<Rightarrow> paper_runtime \<Rightarrow> bool" where
  "processed k r \<longleftrightarrow> dict_get (rt_intents r) k \<noteq> None"

lemma processed_remember: "processed k (remember_intent en i r) \<longleftrightarrow> k = runtime_key en i \<or> k = runtime_intent_id en i \<or> processed k r"
  by (simp add: processed_def remember_intent_def)

lemma processed_same: "rt_intents r' = rt_intents r \<Longrightarrow> processed k r' = processed k r"
  by (simp add: processed_def)

lemma remembered_intents: "rt_intents (remember_intent en i (append_decision en j d r)) = rt_intents (remember_intent en i r)"
  "rt_intents (append_decision en j d (remember_intent en i r)) = rt_intents (remember_intent en i r)"
  "rt_decisions (remember_intent en i (append_decision en j d r)) = dict_set (runtime_intent_id en j) [d] (rt_decisions r)"
  "rt_decisions (append_decision en j d (remember_intent en i r)) = dict_set (runtime_intent_id en j) [d] (rt_decisions r)"
  by (simp_all add: remember_intent_def append_decision_def)

lemma record_intent_intents:
  "record_intent_event en r i ts = (r', x) \<Longrightarrow> rt_intents r' = rt_intents r \<and> rt_decisions r' = rt_decisions r"
  using emit_frame(5,6) by (metis record_intent_event_def fst_conv)

text \<open>What an evaluation leaves of the intents and the decisions, whatever its result.\<close>

lemma evaluate_remembers:
  assumes "evaluate_and_submit en i ds es ts r = (r', res)"
  shows "rt_intents r' = rt_intents r \<and> (\<forall>rep. res \<noteq> Inr rep)
    \<or> rt_intents r' = rt_intents (remember_intent en i r)
       \<and> (\<exists>d. rt_decisions r' = dict_set (runtime_intent_id en i) [d] (rt_decisions r)
            \<and> (\<forall>rep. res = Inr rep \<longrightarrow> sr_risk_decision rep = d \<and> sr_intent rep = i))"
  using assms
proof (cases rule: evaluate_and_submit_cases)
  case (gap rs d x)
  then show ?thesis using record_intent_intents [OF gap(3)] by (auto simp: remembered_intents)
next
  case (sent rs d r2 res')
  have "rt_intents r' = rt_intents (remember_intent en i r) \<and> rt_decisions r' = dict_set (runtime_intent_id en i) [d] (rt_decisions r)"
    using record_intent_intents [OF sent(5)] submit_legs_frame [OF sent(6)] by (simp add: remembered_intents)
  moreover have "res = Inr rep \<Longrightarrow> sr_risk_decision rep = d \<and> sr_intent rep = i" for rep
    using sent(7) by (cases res') (auto simp: report_def)
  ultimately show ?thesis by blast
qed (auto simp: remembered_intents report_def)

lemma refuse_remembers:
  "refuse_intent en r i ts reason = (r', Inr rep) \<Longrightarrow> rt_intents r' = rt_intents (remember_intent en i r)
     \<and> rt_decisions r' = dict_set (runtime_intent_id en i) [sr_risk_decision rep] (rt_decisions r) \<and> sr_intent rep = i"
  by (auto simp: refuse_intent_def report_def remembered_intents split: sum.splits)

lemma submit_keeps_processed:
  assumes "runtime_submit en i ds es ts r = (r', res)" "processed k r"
  shows "processed k r'"
proof (cases "dict_get (rt_intents r) (runtime_key en i)")
  case (Some x)
  then show ?thesis using assms by (auto simp: runtime_submit_def Let_def processed_def)
next
  case None
  have ref: "processed k r'" if "refuse_intent en r i ts reason = (r', res)" for reason
    using that assms(2) processed_remember [of k en i r]
    by (auto simp: refuse_intent_def processed_def remembered_intents split: sum.splits)
  have "processed k r'" if "evaluate_and_submit en i ds es ts r = (r', res)"
    using evaluate_remembers [OF that] assms(2) processed_remember [of k en i r] by (auto simp: processed_def)
  then show ?thesis using assms(1) None ref by (simp add: runtime_submit_def split: if_splits)
qed

lemma moved_intents: "record_order_events en r od ts = (r', x) \<Longrightarrow> rt_intents r' = rt_intents r"
  using record_frame(5) by (metis fst_conv)

lemma cancel_intents: "runtime_cancel en oid ts r = (r', res) \<Longrightarrow> rt_intents r' = rt_intents r"
  by (auto simp: runtime_cancel_def store_order_def split: option.splits sum.splits prod.splits dest!: moved_intents)

lemma expire_intents: "expire_orders en ts ods r = (r', res) \<Longrightarrow> rt_intents r' = rt_intents r"
proof (induction ods arbitrary: r r' res)
  case (Cons od ods)
  show ?case
  proof (cases "\<exists>i moved. dict_get (rt_intents r) (po_intent_id od) = Some i \<and> has_expired i ts \<and> expire od ts = Inr moved")
    case True
    then obtain i moved where h: "dict_get (rt_intents r) (po_intent_id od) = Some i" "has_expired i ts" "expire od ts = Inr moved"
      by blast
    obtain r1 x where
      m: "record_order_events en (store_order moved (r\<lparr>rt_ledger := fst (release (rt_ledger r) (po_order_id od))\<rparr>)) moved ts = (r1, x)"
      by fastforce
    obtain r2 res2 where t: "expire_orders en ts ods r1 = (r2, res2)" by fastforce
    have "rt_intents r1 = rt_intents r" using moved_intents [OF m] by (simp add: store_order_def)
    moreover have "r' = r1 \<or> r' = r2" using Cons.prems h m t by (cases x; cases res2; simp)
    ultimately show ?thesis using Cons.IH [OF t] by auto
  next
    case False
    then have "r' = r \<or> expire_orders en ts ods r = (r', res)"
      using Cons.prems by (auto split: option.splits if_splits sum.splits)
    then show ?thesis using Cons.IH by blast
  qed
qed simp

lemma processed_reaches: "runtime_reaches en r n r' \<Longrightarrow> processed k r \<Longrightarrow> processed k r'"
proof (induction rule: runtime_reaches.induct)
  case (reaches_submit n r1 i ds es ts r2 res)
  then show ?case using submit_keeps_processed by blast
next
  case (reaches_cancel n r1 oid ts r2 res)
  then show ?case using cancel_intents processed_same by blast
next
  case (reaches_expire n r1 ts r2 res)
  then show ?case using expire_intents processed_same unfolding expire_stale_orders_def by blast
next
  case (reaches_status n r1 s ts r2 res)
  then show ?case by (auto simp: set_account_status_def processed_def split: sum.splits)
qed (simp_all add: processed_def set_kill_switch_def)

lemma submit_processes:
  assumes "runtime_submit en i ds es ts r = (r', Inr rep)"
  shows "processed (runtime_key en i) r'"
proof (cases "dict_get (rt_intents r) (runtime_key en i)")
  case (Some x)
  then show ?thesis using submit_keeps_processed [OF assms] by (simp add: processed_def)
next
  case None
  have "rt_intents r' = rt_intents (remember_intent en i r)"
    using assms None evaluate_remembers [of en i ds es ts r r' "Inr rep"] refuse_remembers [of en r i ts _ r' rep]
    by (auto simp: runtime_submit_def split: if_splits)
  then show ?thesis using processed_remember [of "runtime_key en i" en i r] by (simp add: processed_def)
qed

text \<open>
  Resubmission is idempotent. Once a submission has reported, then whatever else happens to
  the account, any later submission under the same key changes nothing but the count of duplicates;
  and if it follows at once it reports the same intent and the same decision.
\<close>

theorem intent_processed_once:
  assumes "runtime_submit en i ds es ts r = (r1, Inr rep)" and "runtime_reaches en r1 n r2"
    and "runtime_key en j = runtime_key en i"
  shows "fst (runtime_submit en j ds' es' ts' r2) = r2\<lparr>rt_duplicate_intents := rt_duplicate_intents r2 + 1\<rparr>
    \<and> (\<exists>rep'. snd (runtime_submit en j ds' es' ts' r1) = Inr rep' \<and> sr_duplicate rep'
          \<and> sr_intent rep' = sr_intent rep \<and> sr_risk_decision rep' = sr_risk_decision rep)"
proof
  have "processed (runtime_key en i) r2" using processed_reaches [OF assms(2)] submit_processes [OF assms(1)] by blast
  then show "fst (runtime_submit en j ds' es' ts' r2) = r2\<lparr>rt_duplicate_intents := rt_duplicate_intents r2 + 1\<rparr>"
    using assms(3) by (auto simp: runtime_submit_def processed_def Let_def)
next
  let ?k = "runtime_key en i"
  have dup: "snd (runtime_submit en j ds' es' ts' r1) = duplicate_report en x (r1\<lparr>rt_duplicate_intents := rt_duplicate_intents r1 + 1\<rparr>)"
    if "dict_get (rt_intents r1) ?k = Some x" for x
    using that assms(3) by (simp add: runtime_submit_def Let_def)
  have rep: "\<exists>rep'. duplicate_report en x (r1\<lparr>rt_duplicate_intents := n\<rparr>) = Inr rep' \<and> sr_duplicate rep'
      \<and> sr_intent rep' = x \<and> sr_risk_decision rep' = d"
    if "decisions_for r1 (runtime_intent_id en x) \<noteq> []" "last (decisions_for r1 (runtime_intent_id en x)) = d" for x d n
    using that by (cases "decisions_for r1 (runtime_intent_id en x)")
      (simp_all add: duplicate_report_def decisions_for_def report_def Let_def)
  show "\<exists>rep'. snd (runtime_submit en j ds' es' ts' r1) = Inr rep' \<and> sr_duplicate rep'
          \<and> sr_intent rep' = sr_intent rep \<and> sr_risk_decision rep' = sr_risk_decision rep"
  proof (cases "dict_get (rt_intents r) ?k")
    case (Some x)
    have r1: "r1 = r\<lparr>rt_duplicate_intents := rt_duplicate_intents r + 1\<rparr>" "duplicate_report en x r1 = Inr rep"
      using assms(1) Some by (auto simp: runtime_submit_def Let_def)
    have "decisions_for r1 (runtime_intent_id en x) \<noteq> []" "sr_intent rep = x"
      "last (decisions_for r1 (runtime_intent_id en x)) = sr_risk_decision rep"
      using r1(2) by (auto simp: duplicate_report_def Let_def report_def split: list.splits)
    moreover have "dict_get (rt_intents r1) ?k = Some x" using Some r1(1) by simp
    ultimately show ?thesis using dup rep by metis
  next
    case None
    have "rt_intents r1 = rt_intents (remember_intent en i r)
       \<and> rt_decisions r1 = dict_set (runtime_intent_id en i) [sr_risk_decision rep] (rt_decisions r) \<and> sr_intent rep = i"
      using assms(1) None evaluate_remembers [of en i ds es ts r r1 "Inr rep"] refuse_remembers [of en r i ts _ r1 rep]
      by (auto simp: runtime_submit_def split: if_splits)
    then have "dict_get (rt_intents r1) ?k = Some i" "decisions_for r1 (runtime_intent_id en i) = [sr_risk_decision rep]"
      "sr_intent rep = i"
      by (simp_all add: remember_intent_def decisions_for_def)
    then show ?thesis using dup [of i] rep [of i "sr_risk_decision rep"] by auto
  qed
qed

theorem intent_processed_once_witness:
  "\<exists>r rep. runtime_submit sample_env (sample_sale 100) sample_market sample_market 100 (sample_runtime ACTIVE) = (r, Inr rep)
     \<and> rt_duplicate_intents (fst (runtime_submit sample_env (sample_sale 100) sample_market sample_market 200
          (set_kill_switch switch_off r))) = rt_duplicate_intents r + 1
     \<and> (\<exists>rep'. snd (runtime_submit sample_env (sample_sale 100) sample_market sample_market 200 r) = Inr rep'
          \<and> sr_duplicate rep' \<and> sr_risk_decision rep' = sale_decision)"
proof -
  obtain r rep where s:
    "runtime_submit sample_env (sample_sale 100) sample_market sample_market 100 (sample_runtime ACTIVE) = (r, Inr rep)"
    "sr_risk_decision rep = sale_decision"
    using sample_submission by (elim exE conjE)
  have "runtime_reaches sample_env r 0 (set_kill_switch switch_off r)" by (rule reaches_switch [OF reaches_start])
  note once = intent_processed_once [OF s(1) this refl, of sample_market sample_market 200]
  then obtain rep' where rep': "snd (runtime_submit sample_env (sample_sale 100) sample_market sample_market 200 r) = Inr rep'"
    "sr_duplicate rep'" "sr_risk_decision rep' = sale_decision"
    using s(2) by (elim exE conjE) simp
  have "rt_duplicate_intents (fst (runtime_submit sample_env (sample_sale 100) sample_market sample_market 200
          (set_kill_switch switch_off r))) = rt_duplicate_intents r + 1"
    unfolding once [THEN conjunct1] by (simp add: set_kill_switch_def)
  then show ?thesis using s(1) rep' by blast
qed

text \<open>
  The key is taken before the orders are built: an intent whose knowledge precedes its decision passes
  its own checks and the gate, is remembered, and then raises out of the pricing of its first order. A
  retry is answered as a duplicate that was not rejected, with no order and no fill.
\<close>

theorem failed_submission_answers_retry_as_done:
  "\<exists>r rep. runtime_submit sample_env (sample_sale 90) sample_market sample_market 100 (sample_runtime ACTIVE)
         = (r, Inl (RT_Exec (Intent_Error HorizonBeforeDecision)))
     \<and> trade_intent_ok (sample_sale 90) \<and> rt_orders r = []
     \<and> snd (runtime_submit sample_env (sample_sale 90) sample_market sample_market 100 r) = Inr rep
     \<and> sr_duplicate rep \<and> \<not> sr_rejected rep \<and> is_approved (sr_risk_decision rep) \<and> sr_orders rep = [] \<and> sr_fills rep = []"
proof -
  let ?i = "sample_sale 90" and ?r = "sample_runtime ACTIVE"
  obtain rs where rs: "runtime_risk_state sample_env ?r sample_market 100 (Some 100) = Inr rs"
    using runtime_risk_state_returns by blast
  have gate: "en_gate sample_env ?i rs 1 100 None = Inr sale_decision" by (simp add: sample_env_def)
  have live: "dict_get (rt_intents ?r) (runtime_key sample_env ?i) = None" "accepts_intents (pa_status (rt_account ?r))"
    "\<not> has_expired ?i 100"
    by (simp_all add: sample_runtime_def accepts_intents_def has_expired_def sample_sale_def two_leg_intent_def)
  let ?r1 = "remember_intent sample_env ?i (append_decision sample_env ?i sale_decision ?r)"
  have "events_in_step sample_env ?r1"
    using sample_runtime_in_step(1) [of ACTIVE]
    by (simp add: events_in_step_def remember_intent_def append_decision_def order_watermark_def emitted_for_def)
  from record_intent_in_step [OF this sample_runtime_in_step(2)] obtain r2 where
    r2: "record_intent_event sample_env ?r1 ?i 100 = (r2, None)" by blast
  have "core_of r2 = core_of ?r1" using core_emit r2 by (metis record_intent_event_def fst_conv)
  then have frame: "rt_orders r2 = []" "rt_account r2 = rt_account ?r" "rt_intents r2 = rt_intents ?r1" "rt_decisions r2 = rt_decisions ?r1"
    using core_eqD [of r2 ?r1] by (simp_all add: sample_runtime_def)
  let ?od = "leg_order sample_env r2 ?i sale_decision 100 0 (ti_legs ?i ! 0) 10"
  have fields: "po_state ?od = CREATED" "po_quantity ?od = 10" "po_filled_quantity ?od = 0" "po_order_type ?od = MARKET" "po_limit_price ?od = None"
    "po_strategy_id ?od = ''s''" "po_decision_time ?od = Some 100" "po_knowledge_time ?od = Some 90"
    and od_ok: "order_ok ?od"
    by (simp_all add: leg_order_def sample_sale_def two_leg_intent_def order_ok_def derive_order_id_def risk_decision_id_def)
  have shape: "validate_shape ?od (ac_max_order_quantity (pa_config (rt_account r2)))
      (ac_max_order_notional (pa_config (rt_account r2))) 100 = Inr None"
    by (simp add: frame validate_shape_def sample_runtime_def sample_account_def sample_config_def)
  obtain acc es where acc: "transition ?od ACCEPTED 100 ''paper_venue_accept'' [] = Inr acc"
    "acc = ?od\<lparr>po_state := ACCEPTED, po_events := es\<rparr>"
    using fields(1) by (simp add: transition_def Let_def)
  have "strategy_intent_check (probe_of acc) = Some HorizonBeforeDecision"
    using fields by (simp add: acc(2) probe_of_def strategy_intent_check_def remaining_quantity_def)
  then have "execute (\<lambda>_. ''x'') (\<lambda>_. 0) sample_execution acc sample_market 100 cash (Some no_constraints) ref
      = Inl (Intent_Error HorizonBeforeDecision)" for cash ref
    by (simp add: execute_def Let_def acc(2) sample_execution_def) (simp add: sample_market_def market_of_def)
  then have exec: "execute_leg_order sample_env ?i sample_market sample_market 100 ?od r2
      = (r2, Inl (RT_Exec (Intent_Error HorizonBeforeDecision)))"
    using acc(1) fields(1) shape by (simp add: execute_leg_order_def paper_submit_def sample_env_fields)
  have q: "dict_get (dict_of (rd_approved_legs sale_decision)) 0 = Some 10"
    by (simp add: sale_decision_def dict_of_def dict_set_def dict_get_def)
  have "enumerate 0 (ti_legs ?i) = [(0, ti_legs ?i ! 0)]" by (simp add: sample_sale_def)
  then have "submit_legs sample_env ?i sale_decision sample_market sample_market 100 (enumerate 0 (ti_legs ?i)) r2
      = (r2, Inl (RT_Exec (Intent_Error HorizonBeforeDecision)))"
    using exec q od_ok by (simp add: validated_def Let_def)
  then have first: "runtime_submit sample_env ?i sample_market sample_market 100 ?r
      = (r2, Inl (RT_Exec (Intent_Error HorizonBeforeDecision)))"
    using rs gate sample_sale_facts(4,5) r2 live by (simp add: runtime_submit_def evaluate_and_submit_def Let_def)
  have stored: "dict_get (rt_intents r2) (runtime_key sample_env ?i) = Some ?i"
    "decisions_for r2 (runtime_intent_id sample_env ?i) = [sale_decision]"
    by (simp_all add: frame remember_intent_def append_decision_def decisions_for_def)
  have "snd (runtime_submit sample_env ?i sample_market sample_market 100 r2)
      = Inr ((report ?i sale_decision)\<lparr>sr_orders := [], sr_fills := [], sr_duplicate := True\<rparr>)"
    using stored frame(1)
    by (simp add: runtime_submit_def duplicate_report_def runtime_orders_def decisions_for_def sorted_values_def
        dict_keys_def Let_def)
  moreover have "trade_intent_ok ?i"
    by (simp add: sample_sale_def two_leg_intent_def trade_intent_ok_def trade_intent_check_def leg_check_def)
  ultimately show ?thesis using first frame(1) sample_sale_facts(4) by (auto simp: report_def)
qed

section \<open>No event is ever deferred\<close>

definition events_ok :: "paper_env \<Rightarrow> paper_runtime \<Rightarrow> bool" where
  "events_ok en r \<longleftrightarrow> events_in_step en r
     \<and> (\<forall>k od. dict_get (rt_orders r) k = Some od \<longrightarrow> numbered_events (po_events od))"

definition no_gap :: "runtime_error + 'a \<Rightarrow> bool" where
  "no_gap res \<longleftrightarrow> (\<forall>g. res \<noteq> Inl (RT_Gap g))"

lemma no_gap_simps [simp]: "no_gap (Inr x)" "no_gap (Inl e) \<longleftrightarrow> (\<forall>g. e \<noteq> RT_Gap g)" "no_gap (map_sum id f res) = no_gap res"
  by (cases res; auto simp: no_gap_def)+

lemma events_ok_store: "events_ok en r \<Longrightarrow> numbered_events (po_events od) \<Longrightarrow> events_ok en (store_order od r)"
  by (auto simp: events_ok_def) (auto simp: store_order_def split: if_splits)

lemma events_ok_ledger [simp]: "events_ok en (r\<lparr>rt_ledger := l\<rparr>) = events_ok en r"
  "events_ok en (r\<lparr>rt_account := a\<rparr>) = events_ok en r" "events_ok en (r\<lparr>rt_kill_switch := k\<rparr>) = events_ok en r"
  by (simp_all add: events_ok_def events_in_step_def emitted_for_def order_watermark_def)

lemma events_ok_record:
  assumes "numbered_events (po_events od)" "events_ok en r" "inj (en_event_ids en)"
    and "record_order_events en r od ts = (r', x)"
  shows "x = None \<and> events_ok en r'"
  using record_order_events_in_step [OF assms(1) _ assms(3), of r ts] assms(2,4) record_frame(4) [of en r od ts]
  by (auto simp: events_ok_def)

lemma events_ok_book:
  assumes "book_execution en ts oc r = (r', res)" "numbered_events (po_events (eo_order oc))" "events_ok en r"
    "inj (en_event_ids en)"
  shows "events_ok en r' \<and> no_gap res"
  using assms(1)
proof (cases rule: book_execution_cases)
  case (applied f l b x)
  have "events_ok en (book_applied (po_order_id (eo_order oc)) f l b r)" using assms(3) by (simp add: events_ok_def)
  from events_ok_record [OF assms(2) this assms(4) applied(2)] show ?thesis using applied(3) by simp
qed (use assms(3) in simp_all)

lemma events_ok_execute_leg:
  assumes "execute_leg_order en i ds es ts od r = (r', res)" "numbered_events (po_events od)" "events_ok en r"
    "inj (en_event_ids en)"
  shows "events_ok en r' \<and> no_gap res"
  using assms(1)
proof (cases rule: execute_leg_cases)
  case (shape refusal)
  have "ticket_kept od (eo_order refusal)" by (rule ticket_kept_validate_shape [OF shape(1)])
  then show ?thesis using shape assms(2,3) events_ok_store by (simp add: ticket_kept_def)
next
  case (sent oc res')
  have n: "numbered_events (po_events (eo_order oc))"
    using ticket_kept_paper_submit [OF sent(1)] assms(2) by (simp add: ticket_kept_def)
  from events_ok_book [OF sent(2) n events_ok_store [OF assms(3) n] assms(4)] show ?thesis using sent(3) by simp
qed (use assms(3) in simp_all)

lemma events_ok_submit_legs:
  "submit_legs en i d ds es ts xs r = (r', res) \<Longrightarrow> events_ok en r \<Longrightarrow> inj (en_event_ids en) \<Longrightarrow>
   events_ok en r' \<and> no_gap res"
proof (induction xs arbitrary: r res)
  case (Cons x xs)
  have n: "numbered_events (po_events (leg_order en r i d ts k l q))" for k l q
    by (simp add: leg_order_def numbered_events_def)
  from Cons.prems(1) show ?case
  proof (cases rule: submit_legs_Cons_cases)
    case skipped
    then show ?thesis using Cons by blast
  next
    case (failed err)
    then show ?thesis using events_ok_execute_leg [OF failed(1) n Cons.prems(2,3)] by simp
  next
    case (placed r1 od fs res')
    have "events_ok en r1" using events_ok_execute_leg [OF placed(3) n Cons.prems(2,3)] by simp
    from Cons.IH [OF placed(4) this Cons.prems(3)] show ?thesis using placed(5) by simp
  qed (use Cons.prems in simp_all)
qed simp

lemma events_ok_remember [simp]:
  "events_ok en (remember_intent en i r) = events_ok en r" "events_ok en (append_decision en i d r) = events_ok en r"
  by (simp_all add: events_ok_def events_in_step_def remember_intent_def append_decision_def emitted_for_def order_watermark_def)

lemma events_ok_record_intent:
  assumes "record_intent_event en r i ts = (r', x)" "events_ok en r" "inj (en_event_ids en)"
  shows "x = None \<and> events_ok en r'"
proof -
  have "rt_orders r' = rt_orders r" using emit_frame(4) assms(1) by (metis record_intent_event_def fst_conv)
  then show ?thesis using record_intent_in_step [OF _ assms(3), of r i ts] assms(1,2) by (auto simp: events_ok_def)
qed

lemma events_ok_submit:
  assumes "runtime_submit en i ds es ts r = (r', res)" "events_ok en r" "inj (en_event_ids en)"
  shows "events_ok en r' \<and> no_gap res"
proof (cases "dict_get (rt_intents r) (runtime_key en i)")
  case (Some x)
  have "r' = r\<lparr>rt_duplicate_intents := rt_duplicate_intents r + 1\<rparr>" "res = duplicate_report en x r'"
    using assms(1) Some by (auto simp: runtime_submit_def Let_def)
  then show ?thesis using assms(2)
    by (auto simp: events_ok_def events_in_step_def emitted_for_def order_watermark_def duplicate_report_def Let_def
        split: list.splits)
next
  case None
  have ref: "events_ok en r' \<and> no_gap res" if "refuse_intent en r i ts reason = (r', res)" for reason
    using that assms(2) by (auto simp: refuse_intent_def split: sum.splits)
  have "events_ok en r' \<and> no_gap res" if "evaluate_and_submit en i ds es ts r = (r', res)"
    using that
  proof (cases rule: evaluate_and_submit_cases)
    case (raised e)
    then show ?thesis using assms(2) by simp
  next
    case (gap rs d x)
    then show ?thesis using events_ok_record_intent [OF gap(3)] assms(2,3) by simp
  next
    case (sent rs d r2 res')
    have "events_ok en r2" using events_ok_record_intent [OF sent(5)] assms(2,3) by simp
    from events_ok_submit_legs [OF sent(6) this assms(3)] show ?thesis using sent(7) by simp
  qed (use assms(2) in simp_all)
  then show ?thesis using assms(1) None ref by (simp add: runtime_submit_def split: if_splits)
qed

lemma events_ok_moved:
  assumes "record_order_events en (store_order moved (r\<lparr>rt_ledger := l\<rparr>)) moved ts = (r', x)"
    and "numbered_events (po_events moved)" "events_ok en r" "inj (en_event_ids en)"
  shows "x = None \<and> events_ok en r'"
  using events_ok_record [OF assms(2) events_ok_store [OF _ assms(2)] assms(4,1)] assms(3) by simp

lemma events_ok_cancel:
  assumes "runtime_cancel en oid ts r = (r', res)" "events_ok en r" "inj (en_event_ids en)"
  shows "events_ok en r' \<and> no_gap res"
proof (cases "dict_get (rt_orders r) oid")
  case None
  then show ?thesis using assms by (auto simp: runtime_cancel_def)
next
  case od: (Some od)
  show ?thesis
  proof (cases "paper_cancel od ts")
    case (Inl e)
    then show ?thesis using assms od by (auto simp: runtime_cancel_def)
  next
    case (Inr moved)
    obtain r1 x where
      m: "record_order_events en (store_order moved (r\<lparr>rt_ledger := fst (release (rt_ledger r) oid)\<rparr>)) moved ts = (r1, x)"
      by fastforce
    have "numbered_events (po_events od)" using assms(2) od by (simp add: events_ok_def)
    then have "numbered_events (po_events moved)"
      using ticket_kept_cancel Inr by (auto simp: paper_cancel_def ticket_kept_def)
    from events_ok_moved [OF m this assms(2,3)] show ?thesis using assms(1) od Inr m by (auto simp: runtime_cancel_def)
  qed
qed

lemma events_ok_expire_orders:
  "expire_orders en ts ods r = (r', res) \<Longrightarrow> \<forall>od\<in>set ods. numbered_events (po_events od) \<Longrightarrow> events_ok en r \<Longrightarrow>
   inj (en_event_ids en) \<Longrightarrow> events_ok en r' \<and> no_gap res"
proof (induction ods arbitrary: r r' res)
  case (Cons od ods)
  show ?case
  proof (cases "\<exists>i moved. dict_get (rt_intents r) (po_intent_id od) = Some i \<and> has_expired i ts \<and> expire od ts = Inr moved")
    case True
    then obtain i moved where h: "dict_get (rt_intents r) (po_intent_id od) = Some i" "has_expired i ts" "expire od ts = Inr moved"
      by blast
    obtain r1 x where
      m: "record_order_events en (store_order moved (r\<lparr>rt_ledger := fst (release (rt_ledger r) (po_order_id od))\<rparr>)) moved ts = (r1, x)"
      by fastforce
    obtain r2 res2 where t: "expire_orders en ts ods r1 = (r2, res2)" by fastforce
    have "numbered_events (po_events moved)"
      using ticket_kept_expire [OF h(3)] Cons.prems(2) by (simp add: ticket_kept_def)
    then have r1: "x = None" "events_ok en r1" using events_ok_moved [OF m _ Cons.prems(3,4)] by simp_all
    have "r' = r2 \<and> no_gap res = no_gap res2" using Cons.prems(1) h m t r1(1) by (cases res2) auto
    then show ?thesis using Cons.IH [OF t _ r1(2) Cons.prems(4)] Cons.prems(2) by simp
  next
    case False
    then have "r' = r \<and> no_gap res \<or> expire_orders en ts ods r = (r', res)"
      using Cons.prems(1) by (auto split: option.splits if_splits sum.splits)
    then show ?thesis using Cons.IH Cons.prems(2-4) by auto
  qed
qed simp

lemma events_ok_expire:
  assumes "expire_stale_orders en ts r = (r', res)" "events_ok en r" "inj (en_event_ids en)"
  shows "events_ok en r' \<and> no_gap res"
proof -
  have "\<forall>od\<in>set (Runtime.open_orders r). numbered_events (po_events od)"
    using assms(2) by (auto simp: Runtime.open_orders_def runtime_orders_def events_ok_def set_sorted_values)
  from events_ok_expire_orders [OF assms(1) [unfolded expire_stale_orders_def] this assms(2,3)] show ?thesis .
qed

lemma events_ok_reaches:
  "runtime_reaches en r n r' \<Longrightarrow> events_ok en r \<Longrightarrow> inj (en_event_ids en) \<Longrightarrow> events_ok en r'"
proof (induction rule: runtime_reaches.induct)
  case (reaches_submit n r1 i ds es ts r2 res)
  then show ?case using events_ok_submit by blast
next
  case (reaches_cancel n r1 oid ts r2 res)
  then show ?case using events_ok_cancel by blast
next
  case (reaches_expire n r1 ts r2 res)
  then show ?case using events_ok_expire by blast
next
  case (reaches_status n r1 s ts r2 res)
  then show ?case
    by (auto simp: set_account_status_def split: sum.splits)
next
  case (reaches_switch n r1 k)
  then show ?case
    by (simp add: set_kill_switch_def)
qed

lemma events_ok_new: "new_runtime en a = Inr r \<Longrightarrow> events_ok en r"
  by (auto simp: new_runtime_def events_ok_def events_in_step_def emitted_for_def order_watermark_def watermark_def
      split: sum.splits option.splits)

text \<open>
  No event is ever deferred. If the event ids are distinct, then after any history no
  submission, cancellation or expiry meets a sequence gap, and the numbers emitted for each order are
  exactly one to its watermark, so that none is missing.
\<close>

theorem events_never_deferred:
  assumes "new_runtime en a = Inr r0" and "runtime_reaches en r0 n r" and "inj (en_event_ids en)"
  shows "no_gap (snd (runtime_submit en i ds es ts r)) \<and> no_gap (snd (runtime_cancel en oid ts r))
    \<and> no_gap (snd (expire_stale_orders en ts r))
    \<and> (\<forall>j. set (emitted_for r j) = {1..watermark (rt_watermarks r) (AGG_ORDER, j)})"
proof -
  have ok: "events_ok en r" by (rule events_ok_reaches [OF assms(2) events_ok_new [OF assms(1)] assms(3)])
  obtain r1 x r2 y r3 z where c: "runtime_submit en i ds es ts r = (r1, x)" "runtime_cancel en oid ts r = (r2, y)"
    "expire_stale_orders en ts r = (r3, z)" by (metis surj_pair)
  show ?thesis
    using events_ok_submit [OF c(1) ok assms(3)] events_ok_cancel [OF c(2) ok assms(3)] events_ok_expire [OF c(3) ok assms(3)]
      ok c by (simp add: events_ok_def events_in_step_def order_watermark_def)
qed

theorem events_never_deferred_witness:
  "\<exists>r f. runtime_reaches sample_env (sample_runtime INITIALISED) 0 r \<and> rt_fills r = [f]
     \<and> no_gap (snd (runtime_cancel sample_env ''o'' 200 r))"
proof -
  obtain a where a: "set_account_status ACTIVE 90 (sample_runtime INITIALISED) = (sample_runtime ACTIVE, Inr a)"
    using activate_sample_runtime by blast
  obtain r rep f where s: "runtime_submit sample_env (sample_sale 100) sample_market sample_market 100 (sample_runtime ACTIVE) = (r, Inr rep)"
    "rt_fills r = [f]"
    using sample_submission by (elim exE conjE)
  from reaches_submit [OF reaches_status [OF reaches_start a] s(1)]
  have reach: "runtime_reaches sample_env (sample_runtime INITIALISED) 0 r" by simp
  from events_never_deferred [OF new_sample_runtime reach sample_runtime_in_step(2)] reach s(2) show ?thesis by blast
qed

end
