(* ===== verification/OIP_Time.thy ===== *)
theory OIP_Time
  imports OIP_Prelude
begin

text \<open>
  Calendar dates and \<open>isoformat()\<close> of UTC datetimes, as CPython computes them. Day zero is 1970-01-01;
  an instant is a number of microseconds from its midnight. What the identities need of the rendering
  is that it is injective on the range of years a datetime can have.
\<close>

section \<open>Dates\<close>

text \<open>\<open>_ord2ymd\<close>, on the days since 0001-01-01.\<close>

fun days_before_month :: "int \<Rightarrow> int" where
  "days_before_month m = (if m \<le> 1 then 0 else if m = 2 then 31 else if m = 3 then 59 else if m = 4 then 90
     else if m = 5 then 120 else if m = 6 then 151 else if m = 7 then 181 else if m = 8 then 212
     else if m = 9 then 243 else if m = 10 then 273 else if m = 11 then 304 else 334)"

definition month_start :: "bool \<Rightarrow> int \<Rightarrow> int" where
  "month_start leap m = days_before_month m + (if 2 < m \<and> leap then 1 else 0)"

definition month_day :: "bool \<Rightarrow> int \<Rightarrow> int \<times> int" where
  "month_day leap n =
     (let m = (n + 50) div 32; m' = (if n < month_start leap m then m - 1 else m)
      in (m', n - month_start leap m' + 1))"

definition date_of_ordinal :: "int \<Rightarrow> int \<times> int \<times> int" where
  "date_of_ordinal z =
     (let n400 = z div 146097; a = z mod 146097;
          n100 = a div 36524; b = a mod 36524;
          n4 = b div 1461; c = b mod 1461;
          n1 = c div 365; n = c mod 365;
          y = 400 * n400 + 1 + 100 * n100 + 4 * n4 + n1
      in if n1 = 4 \<or> n100 = 4 then (y - 1, 12, 31)
         else (y, month_day (n1 = 3 \<and> (n4 \<noteq> 24 \<or> n100 = 3)) n))"

definition epoch_ordinal :: int where
  "epoch_ordinal = 719162"

definition date_of_day :: "int \<Rightarrow> int \<times> int \<times> int" where
  "date_of_day d = date_of_ordinal (d + epoch_ordinal)"

text \<open>\<open>_ymd2ord\<close>, its inverse.\<close>

definition is_leap :: "int \<Rightarrow> bool" where
  "is_leap y \<longleftrightarrow> y mod 4 = 0 \<and> (y mod 100 \<noteq> 0 \<or> y mod 400 = 0)"

definition days_before_year :: "int \<Rightarrow> int" where
  "days_before_year y = (y - 1) * 365 + (y - 1) div 4 - (y - 1) div 100 + (y - 1) div 400"

definition ordinal_of_date :: "int \<times> int \<times> int \<Rightarrow> int" where
  "ordinal_of_date = (\<lambda>(y, m, d). days_before_year y + month_start (is_leap y) m + d - 1)"

text \<open>\<open>weekday()\<close>: Monday is 0, and day zero was a Thursday.\<close>

definition weekday_of :: "int \<Rightarrow> int" where
  "weekday_of d = (d + 3) mod 7"

lemma year_digits:
  assumes "0 \<le> b" "b \<le> 3" "0 \<le> c" "c \<le> 24" "0 \<le> d" "d \<le> (3 :: int)"
  shows "days_before_year (400 * a + 1 + 100 * b + 4 * c + d) = 146097 * a + 36524 * b + 1461 * c + 365 * d"
proof -
  let ?N = "400 * a + 100 * b + 4 * c + d"
  have q: "?N div 4 = 100 * a + 25 * b + c" "?N div 100 = 4 * a + b" "?N div 400 = a"
    using assms by (intro int_div_pos_eq [where r = d] int_div_pos_eq [where r = "4 * c + d"]
      int_div_pos_eq [where r = "100 * b + 4 * c + d"]; simp)+
  have N: "400 * a + 1 + 100 * b + 4 * c + d - 1 = ?N" by simp
  have "days_before_year (400 * a + 1 + 100 * b + 4 * c + d) = ?N * 365 + ?N div 4 - ?N div 100 + ?N div 400"
    by (simp only: days_before_year_def N)
  also have "\<dots> = ?N * 365 + (100 * a + 25 * b + c) - (4 * a + b) + a" by (simp only: q)
  finally show ?thesis by simp
qed

lemma mod_zero_last: "1 \<le> w \<Longrightarrow> w \<le> n \<Longrightarrow> w mod n = 0 \<longleftrightarrow> w = (n :: int)"
  by (cases "w = n") (simp_all add: mod_pos_pos_trivial)

lemma leap_digits:
  assumes "0 \<le> b" "b \<le> 3" "0 \<le> c" "c \<le> 24" "0 \<le> d" "d \<le> (3 :: int)"
  shows "is_leap (400 * a + 1 + 100 * b + 4 * c + d) \<longleftrightarrow> d = 3 \<and> (c \<noteq> 24 \<or> b = 3)"
proof -
  let ?y = "400 * a + 1 + 100 * b + 4 * c + d"
  have "?y = (d + 1) + 4 * (100 * a + 25 * b + c)" by simp
  then have "?y mod 4 = (d + 1) mod 4" by (simp only: mod_mult_self2)
  then have "?y mod 4 = 0 \<longleftrightarrow> d + 1 = 4" using mod_zero_last [of "d + 1" 4] assms by simp
  moreover have "?y = (4 * c + d + 1) + 100 * (4 * a + b)" by simp
  then have "?y mod 100 = (4 * c + d + 1) mod 100" by (simp only: mod_mult_self2)
  then have "?y mod 100 = 0 \<longleftrightarrow> 4 * c + d + 1 = 100" using mod_zero_last [of "4 * c + d + 1" 100] assms by simp
  moreover have "?y = (100 * b + 4 * c + d + 1) + 400 * a" by simp
  then have "?y mod 400 = (100 * b + 4 * c + d + 1) mod 400" by (simp only: mod_mult_self2)
  then have "?y mod 400 = 0 \<longleftrightarrow> 100 * b + 4 * c + d + 1 = 400"
    using mod_zero_last [of "100 * b + 4 * c + d + 1" 400] assms by simp
  ultimately show ?thesis using assms unfolding is_leap_def by auto
qed

lemma month_day_start:
  "fst (month_day leap n) = m \<Longrightarrow> month_start leap m + snd (month_day leap n) - 1 = n"
  by (auto simp: month_day_def Let_def)

text \<open>Day and month are in their ranges, by inspection of the days of a year.\<close>

lemma month_day_range_all:
  "list_all (\<lambda>n. \<forall>leap\<in>{True, False}. 1 \<le> fst (month_day leap n) \<and> fst (month_day leap n) \<le> 12
     \<and> 1 \<le> snd (month_day leap n) \<and> snd (month_day leap n) \<le> 31) [0..364]"
  by code_simp

lemma month_day_range:
  assumes "0 \<le> n" "n < 365"
  shows "1 \<le> fst (month_day leap n)" "fst (month_day leap n) \<le> 12"
    "1 \<le> snd (month_day leap n)" "snd (month_day leap n) \<le> 31"
  using month_day_range_all assms by (cases leap; auto simp: list_all_iff)+

lemma date_parts:
  obtains a b c d n where "z = 146097 * a + 36524 * b + 1461 * c + 365 * d + n" "0 \<le> b" "0 \<le> c" "c \<le> 24" "0 \<le> d" "0 \<le> n" "n < 365"
    "b \<le> 3 \<and> d \<le> 3 \<and> date_of_ordinal z = (400 * a + 1 + 100 * b + 4 * c + d, month_day (d = 3 \<and> (c \<noteq> 24 \<or> b = 3)) n)
     \<or> b = 4 \<and> c = 0 \<and> d = 0 \<and> n = 0 \<and> date_of_ordinal z = (400 * a + 400, 12, 31)
     \<or> b \<le> 3 \<and> d = 4 \<and> c \<noteq> 24 \<and> n = 0 \<and> date_of_ordinal z = (400 * a + 100 * b + 4 * c + 4, 12, 31)"
proof -
  define a where "a = z div 146097"
  define r where "r = z mod 146097"
  define b where "b = r div 36524"
  define s where "s = r mod 36524"
  define c where "c = s div 1461"
  define t where "t = s mod 1461"
  define d where "d = t div 365"
  define n where "n = t mod 365"
  have r: "z = 146097 * a + r" "0 \<le> r" "r < 146097" by (simp_all add: a_def r_def)
  have s: "r = 36524 * b + s" "0 \<le> s" "s < 36524" by (simp_all add: b_def s_def)
  have t: "s = 1461 * c + t" "0 \<le> t" "t < 1461" by (simp_all add: c_def t_def)
  have n: "t = 365 * d + n" "0 \<le> n" "n < 365" by (simp_all add: d_def n_def)
  have range: "0 \<le> b" "b \<le> 4" "0 \<le> c" "c \<le> 24" "0 \<le> d" "d \<le> 4" "d = 4 \<longrightarrow> n = 0" "d = 4 \<longrightarrow> c \<noteq> 24"
    "b = 4 \<or> b \<le> 3"
    using r s t n by linarith+
  have last: "c = 0 \<and> d = 0 \<and> n = 0" if "b = 4"
  proof -
    have "s = 0" using r s that by linarith
    then have "c = 0" "t = 0" using t range by linarith+
    then show ?thesis using n range(5) by auto
  qed
  have z: "z = 146097 * a + 36524 * b + 1461 * c + 365 * d + n" using r s t n by linarith
  have date: "date_of_ordinal z = (if d = 4 \<or> b = 4 then (400 * a + 100 * b + 4 * c + d, 12, 31)
      else (400 * a + 1 + 100 * b + 4 * c + d, month_day (d = 3 \<and> (c \<noteq> 24 \<or> b = 3)) n))"
    by (simp add: date_of_ordinal_def Let_def a_def r_def b_def s_def c_def t_def d_def n_def)
  show thesis by (rule that [OF z range(1,3,4,5) n(2,3)]) (use date range last in \<open>auto split: if_splits\<close>)
qed

lemma ordinal_of_date_of_ordinal: "ordinal_of_date (date_of_ordinal z) = z"
proof (cases rule: date_parts [of z])
  case (1 a b c d n)
  have last: "ordinal_of_date (y, 12, 31) = days_before_year y + (if is_leap y then 365 else 364)" for y
    by (simp add: ordinal_of_date_def month_start_def)
  from 1(8) show ?thesis
  proof (elim disjE conjE)
    assume r: "b \<le> 3" "d \<le> 3" and e: "date_of_ordinal z = (400 * a + 1 + 100 * b + 4 * c + d, month_day (d = 3 \<and> (c \<noteq> 24 \<or> b = 3)) n)"
    obtain m k where md: "month_day (d = 3 \<and> (c \<noteq> 24 \<or> b = 3)) n = (m, k)" by fastforce
    then have "month_start (d = 3 \<and> (c \<noteq> 24 \<or> b = 3)) m + k - 1 = n" using month_day_start [of "d = 3 \<and> (c \<noteq> 24 \<or> b = 3)" n m] by simp
    then show ?thesis unfolding e md
      using 1(1-7) r by (simp add: ordinal_of_date_def year_digits leap_digits)
  next
    assume e: "b = 4" "c = 0" "d = 0" "n = 0" "date_of_ordinal z = (400 * a + 400, 12, 31)"
    have y: "400 * a + 400 = 400 * a + 1 + 100 * 3 + 4 * 24 + (3 :: int)" by simp
    have "is_leap (400 * a + 400)" "days_before_year (400 * a + 400) = 146097 * a + 36524 * 3 + 1461 * 24 + 365 * 3"
      unfolding y using year_digits [of 3 24 3 a] leap_digits [of 3 24 3 a] by simp_all
    then show ?thesis unfolding e(5) last using 1(1) e(1-4) by simp
  next
    assume e: "b \<le> 3" "d = 4" "c \<noteq> 24" "n = 0" "date_of_ordinal z = (400 * a + 100 * b + 4 * c + 4, 12, 31)"
    have y: "400 * a + 100 * b + 4 * c + 4 = 400 * a + 1 + 100 * b + 4 * c + (3 :: int)" by simp
    have "is_leap (400 * a + 100 * b + 4 * c + 4)"
      "days_before_year (400 * a + 100 * b + 4 * c + 4) = 146097 * a + 36524 * b + 1461 * c + 365 * 3"
      unfolding y using year_digits [of b c 3 a] leap_digits [of b c 3 a] 1(2-4) e by simp_all
    then show ?thesis unfolding e(5) last using 1(1) e by simp
  qed
qed

section \<open>\<open>isoformat()\<close>\<close>

primrec digits :: "nat \<Rightarrow> nat \<Rightarrow> string" where
  "digits 0 n = []"
| "digits (Suc w) n = digits w (n div 10) @ [digit_char (n mod 10)]"

lemma length_digits [simp]: "length (digits w n) = w"
  by (induction w arbitrary: n) simp_all

lemma digits_value_digits: "digits_value (digits w n) = n mod 10 ^ w"
proof (induction w arbitrary: n)
  case (Suc w)
  have "n mod 10 ^ Suc w = 10 * (n div 10 mod 10 ^ w) + n mod 10"
    using mod_mult2_eq [of n 10 "10 ^ w"] by simp
  then show ?case by (simp add: digits_value_append Suc.IH digit_char_ge)
qed simp

lemma digits_inject: "m < 10 ^ w \<Longrightarrow> n < 10 ^ w \<Longrightarrow> digits w m = digits w n \<longleftrightarrow> m = n"
  by (metis digits_value_digits mod_less)

definition padded :: "nat \<Rightarrow> int \<Rightarrow> string" where
  "padded w n = digits w (nat n)"

lemma length_padded [simp]: "length (padded w n) = w"
  by (simp add: padded_def)

lemma padded_inject: "0 \<le> m \<Longrightarrow> m < 10 ^ w \<Longrightarrow> 0 \<le> n \<Longrightarrow> n < 10 ^ w \<Longrightarrow> padded w m = padded w n \<longleftrightarrow> m = n"
proof -
  assume a: "0 \<le> m" "m < 10 ^ w" "0 \<le> n" "n < 10 ^ w"
  have "nat m < 10 ^ w" "nat n < 10 ^ w" using a by (simp_all add: nat_less_iff)
  then show ?thesis using a by (simp add: padded_def digits_inject eq_nat_nat_iff)
qed

definition day_of :: "instant \<Rightarrow> int" where
  "day_of t = t div 86400000000"

definition micros_of_day :: "instant \<Rightarrow> int" where
  "micros_of_day t = t mod 86400000000"

definition iso_date :: "int \<Rightarrow> string" where
  "iso_date d = (case date_of_day d of (y, m, k) \<Rightarrow> padded 4 y @ ''-'' @ padded 2 m @ ''-'' @ padded 2 k)"

definition iso_fraction :: "int \<Rightarrow> string" where
  "iso_fraction us = (if us = 0 then [] else ''.'' @ padded 6 us)"

definition iso_instant :: "instant \<Rightarrow> string" where
  "iso_instant t =
     (let u = micros_of_day t; s = u div 1000000; us = u mod 1000000
      in iso_date (day_of t) @ ''T'' @ padded 2 (s div 3600) @ '':'' @ padded 2 (s div 60 mod 60) @ '':'' @ padded 2 (s mod 60)
         @ iso_fraction us @ ''+00:00'')"

text \<open>Years one to 9999.\<close>

definition datetime_ok :: "instant \<Rightarrow> bool" where
  "datetime_ok t \<longleftrightarrow> 0 \<le> day_of t + epoch_ordinal \<and> day_of t + epoch_ordinal < 3652059"

lemma date_ranges:
  assumes "0 \<le> z" "z < 3652059" "date_of_ordinal z = (y, m, k)"
  shows "0 \<le> y" "y < 10 ^ 4" "0 \<le> m" "m < 10 ^ 2" "0 \<le> k" "k < 10 ^ 2"
proof -
  have "0 \<le> y \<and> y < 10 ^ 4 \<and> 0 \<le> m \<and> m < 10 ^ 2 \<and> 0 \<le> k \<and> k < 10 ^ 2"
  proof (cases rule: date_parts [of z])
    case (1 a b c d n)
    have a: "0 \<le> a" "a \<le> 24" using 1 assms(1,2) by linarith+
    have md: "0 \<le> fst (month_day l n) \<and> fst (month_day l n) < 100 \<and> 0 \<le> snd (month_day l n) \<and> snd (month_day l n) < 100" for l
      using month_day_range [OF 1(6,7), of l] by simp
    from 1(8) show ?thesis
    proof (elim disjE conjE)
      assume e: "b \<le> 3" "d \<le> 3" "date_of_ordinal z = (400 * a + 1 + 100 * b + 4 * c + d, month_day (d = 3 \<and> (c \<noteq> 24 \<or> b = 3)) n)"
      have "a = 24 \<longrightarrow> 36524 * b + 1461 * c + 365 * d + n < 145731" using 1(1) assms(2) by linarith
      then have "400 * a + 1 + 100 * b + 4 * c + d < 10000" using a 1(2-7) e(1,2) by auto
      then show ?thesis using e(3) assms(3) md [of "d = 3 \<and> (c \<noteq> 24 \<or> b = 3)"] a 1(2-5) by (auto simp: prod_eq_iff)
    next
      assume e: "b = 4" "c = 0" "d = 0" "n = 0" "date_of_ordinal z = (400 * a + 400, 12, 31)"
      have "a \<noteq> 24" using 1(1) assms(2) e by linarith
      then show ?thesis using e assms(3) a by auto
    next
      assume e: "b \<le> 3" "d = 4" "c \<noteq> 24" "n = 0" "date_of_ordinal z = (400 * a + 100 * b + 4 * c + 4, 12, 31)"
      have "a = 24 \<longrightarrow> 400 * a + 100 * b + 4 * c + 4 < 10000" using 1(3,4) e by linarith
      then have "400 * a + 100 * b + 4 * c + 4 < 10000" using a 1(4) e(1) by linarith
      then show ?thesis using e assms(3) a 1(2,3) by auto
    qed
  qed
  then show "0 \<le> y" "y < 10 ^ 4" "0 \<le> m" "m < 10 ^ 2" "0 \<le> k" "k < 10 ^ 2" by simp_all
qed

lemma iso_date_inject:
  assumes "0 \<le> d + epoch_ordinal" "d + epoch_ordinal < 3652059" "0 \<le> d' + epoch_ordinal" "d' + epoch_ordinal < 3652059"
    and "iso_date d = iso_date d'"
  shows "d = d'"
proof -
  obtain y m k y' m' k' where e: "date_of_day d = (y, m, k)" "date_of_day d' = (y', m', k')" by (metis prod_cases3)
  note r = date_ranges [OF assms(1,2) e(1) [unfolded date_of_day_def]] date_ranges [OF assms(3,4) e(2) [unfolded date_of_day_def]]
  have "padded 4 y = padded 4 y' \<and> padded 2 m = padded 2 m' \<and> padded 2 k = padded 2 k'"
    using assms(5) by (simp add: iso_date_def e)
  then have "y = y'" "m = m'" "k = k'" using r by (simp_all add: padded_inject)
  then have "date_of_ordinal (d + epoch_ordinal) = date_of_ordinal (d' + epoch_ordinal)" using e by (simp add: date_of_day_def)
  then have "d + epoch_ordinal = d' + epoch_ordinal" by (metis ordinal_of_date_of_ordinal)
  then show ?thesis by simp
qed

lemma length_iso_date [simp]: "length (iso_date d) = 10"
  by (simp add: iso_date_def split: prod.split)

lemma iso_fraction_inject:
  assumes "0 \<le> m" "m < 10 ^ 6" "0 \<le> n" "n < 10 ^ 6" shows "iso_fraction m = iso_fraction n \<longleftrightarrow> m = n"
  using padded_inject [OF assms] by (simp add: iso_fraction_def)

lemma iso_instant_inject:
  assumes "datetime_ok t" "datetime_ok t'" "iso_instant t = iso_instant t'"
  shows "t = t'"
proof -
  define u where "u = micros_of_day t"
  define u' where "u' = micros_of_day t'"
  have u: "0 \<le> u" "u < 86400000000" "0 \<le> u'" "u' < 86400000000" by (simp_all add: u_def u'_def micros_of_day_def)
  have parts: "iso_date (day_of t) = iso_date (day_of t')"
    "padded 2 (u div 1000000 div 3600) = padded 2 (u' div 1000000 div 3600)"
    "padded 2 (u div 1000000 div 60 mod 60) = padded 2 (u' div 1000000 div 60 mod 60)"
    "padded 2 (u div 1000000 mod 60) = padded 2 (u' div 1000000 mod 60)"
    "iso_fraction (u mod 1000000) = iso_fraction (u' mod 1000000)"
    using assms(3) by (simp_all add: iso_instant_def Let_def u_def u'_def)
  have "u div 1000000 div 3600 < 10 ^ 2" "u' div 1000000 div 3600 < 10 ^ 2"
    "0 \<le> u div 1000000 div 3600" "0 \<le> u' div 1000000 div 3600"
    using u by (simp_all add: zdiv_zmult2_eq [symmetric] div_less_iff_less_mult pos_imp_zdiv_nonneg_iff)
  then have h: "u div 1000000 div 3600 = u' div 1000000 div 3600" using parts(2) by (simp only: padded_inject)
  have sixty: "0 \<le> x mod 60" "x mod 60 < (10 :: int) ^ 2" for x :: int
    using pos_mod_bound [of 60 x] by simp_all
  have m: "u div 1000000 div 60 mod 60 = u' div 1000000 div 60 mod 60"
    using parts(3) by (simp only: padded_inject [OF sixty sixty])
  have s: "u div 1000000 mod 60 = u' div 1000000 mod 60"
    using parts(4) by (simp only: padded_inject [OF sixty sixty])
  have us: "u mod 1000000 = u' mod 1000000"
    using parts(5) iso_fraction_inject [of "u mod 1000000" "u' mod 1000000"] by simp
  have "day_of t = day_of t'" using assms(1,2) parts(1) iso_date_inject by (simp add: datetime_ok_def)
  moreover have "u div 1000000 div 60 = u' div 1000000 div 60"
  proof -
    have "x div 3600 = x div 60 div 60" for x :: int by (simp add: zdiv_zmult2_eq [symmetric])
    then show ?thesis using h m by (metis div_mult_mod_eq)
  qed
  then have "u div 1000000 = u' div 1000000" using s by (metis div_mult_mod_eq)
  then have "u = u'" using us by (metis div_mult_mod_eq)
  ultimately show ?thesis unfolding u_def u'_def day_of_def micros_of_day_def by (metis div_mult_mod_eq)
qed

end
