(* ===== verification/Observations.thy ===== *)
theory Observations
  imports Market_State OIP_Time "HOL-Library.Product_Lexorder"
begin

text \<open>
  \<^verbatim>\<open>oipulse/marketdata/identity.py\<close>, \<^verbatim>\<open>oipulse/marketdata/observations.py\<close>,
  \<^verbatim>\<open>oipulse/core/timemode.py\<close>, \<^verbatim>\<open>oipulse/persistence/repository.py\<close> and
  \<^verbatim>\<open>oipulse/marketdata/store/memory.py\<close>: the identity of an observation, the observation with its two
  time axes, the three temporal modes and their one translation into storage predicates, and the
  append-only bitemporal store. Vendor fields that are carried along unread (\<open>raw_extra\<close>) are left out.
\<close>

section \<open>Identity (identity.py)\<close>

datatype ordering_authority = PROVIDER_SEQUENCE | OBSERVED_TIME

definition supports_gap_detection :: "ordering_authority \<Rightarrow> bool" where
  "supports_gap_detection a \<longleftrightarrow> a = PROVIDER_SEQUENCE"

datatype identity_tier = PROVIDER_EVENT_ID | FEED_SEQUENCE | CONTENT_HASH

definition tier_provider_supplied :: "identity_tier \<Rightarrow> bool" where
  "tier_provider_supplied t \<longleftrightarrow> t \<noteq> CONTENT_HASH"

datatype identity_confidence = STRONG | WEAK

definition supports_sequence_gap_detection :: "identity_confidence \<Rightarrow> bool" where
  "supports_sequence_gap_detection c \<longleftrightarrow> c = STRONG"

record observation_identity =
  oi_tier :: identity_tier
  oi_confidence :: identity_confidence
  oi_provider_event_id :: "string option"
  oi_feed_session_id :: "string option"
  oi_channel :: "string option"
  oi_channel_sequence :: "int option"
  oi_content_digest :: "string option"
  oi_received_seq :: "int option"

text \<open>\<open>str(x)\<close> of an optional string and of an optional int.\<close>

definition str_text :: "string option \<Rightarrow> string" where
  "str_text x = (case x of None \<Rightarrow> ''None'' | Some s \<Rightarrow> s)"

definition str_number :: "int option \<Rightarrow> string" where
  "str_number x = (case x of None \<Rightarrow> ''None'' | Some n \<Rightarrow> str_int n)"

definition dedup_key :: "observation_identity \<Rightarrow> string list" where
  "dedup_key i = (case oi_tier i of
      PROVIDER_EVENT_ID \<Rightarrow> [''provider_event_id'', str_text (oi_feed_session_id i), str_text (oi_provider_event_id i)]
    | FEED_SEQUENCE \<Rightarrow> [''feed_sequence'', str_text (oi_feed_session_id i), str_text (oi_channel i), str_number (oi_channel_sequence i)]
    | CONTENT_HASH \<Rightarrow> [''content_hash'', str_text (oi_content_digest i)])"

definition identity_provider_supplied :: "observation_identity \<Rightarrow> bool" where
  "identity_provider_supplied i = tier_provider_supplied (oi_tier i)"

definition ordering_authority_of :: "observation_identity \<Rightarrow> ordering_authority" where
  "ordering_authority_of i =
     (if oi_tier i = FEED_SEQUENCE \<and> oi_channel_sequence i \<noteq> None then PROVIDER_SEQUENCE else OBSERVED_TIME)"

definition is_session_scoped :: "observation_identity \<Rightarrow> bool" where
  "is_session_scoped i \<longleftrightarrow> oi_tier i \<in> {FEED_SEQUENCE, PROVIDER_EVENT_ID} \<and> oi_feed_session_id i \<noteq> None"

text \<open>
  The decoded payload is a dictionary of scalars. The digest sees it with its keys sorted, as
  \<^verbatim>\<open>json.dumps(sort_keys=True)\<close> writes it; the hash function itself is the parameter.
\<close>

datatype wire_value = PV_Null | PV_Int int | PV_Text string | PV_Decimal decimal

type_synonym payload = "(string, wire_value) dict"

type_synonym payload_hash = "(string \<times> wire_value) list \<Rightarrow> string"

definition content_hash :: "payload_hash \<Rightarrow> payload \<Rightarrow> string" where
  "content_hash hash p = hash (map (\<lambda>k. (k, the (dict_get p k))) (sort (dict_keys p)))"

text \<open>\<^verbatim>\<open>{"instrument_id": \<dots>, "observed_at": \<dots>, "source": \<dots>, **payload}\<close>\<close>

definition identity_payload :: "int \<Rightarrow> instant \<Rightarrow> string \<Rightarrow> payload \<Rightarrow> payload" where
  "identity_payload instrument observed source p =
     foldl (\<lambda>d (k, v). dict_set k v d)
       [(''instrument_id'', PV_Int instrument), (''observed_at'', PV_Text (iso_instant observed)), (''source'', PV_Text source)] p"

definition resolve_identity ::
  "payload_hash \<Rightarrow> int \<Rightarrow> instant \<Rightarrow> string \<Rightarrow> payload \<Rightarrow> string option \<Rightarrow> string option \<Rightarrow> string option
   \<Rightarrow> int option \<Rightarrow> int option \<Rightarrow> observation_identity" where
  "resolve_identity hash instrument observed source p event session channel sequence received =
     (let digest = content_hash hash (identity_payload instrument observed source p)
      in if event \<noteq> None \<and> event \<noteq> Some [] then
        \<lparr>oi_tier = PROVIDER_EVENT_ID, oi_confidence = STRONG, oi_provider_event_id = event,
         oi_feed_session_id = session, oi_channel = channel, oi_channel_sequence = sequence,
         oi_content_digest = Some digest, oi_received_seq = received\<rparr>
      else if session \<noteq> None \<and> session \<noteq> Some [] \<and> sequence \<noteq> None then
        \<lparr>oi_tier = FEED_SEQUENCE, oi_confidence = STRONG, oi_provider_event_id = None,
         oi_feed_session_id = session, oi_channel = channel, oi_channel_sequence = sequence,
         oi_content_digest = Some digest, oi_received_seq = received\<rparr>
      else
        \<lparr>oi_tier = CONTENT_HASH, oi_confidence = WEAK, oi_provider_event_id = None,
         oi_feed_session_id = session, oi_channel = channel, oi_channel_sequence = None,
         oi_content_digest = Some digest, oi_received_seq = received\<rparr>)"

section \<open>Observations (observations.py)\<close>

datatype observation_source = SRC_WS | SRC_REST_CHAIN | SRC_REST_QUOTE | SRC_REST_HIST_OI | SRC_REST_OHLC

datatype observation_kind = K_QUOTE | K_GREEKS | K_DEPTH | K_OHLC | K_INDEX | K_HISTORICAL_DAILY_OI

fun kind_word :: "observation_kind \<Rightarrow> string" where
  "kind_word K_QUOTE = ''quote''"
| "kind_word K_GREEKS = ''greeks''"
| "kind_word K_DEPTH = ''depth''"
| "kind_word K_OHLC = ''ohlc''"
| "kind_word K_INDEX = ''index''"
| "kind_word K_HISTORICAL_DAILY_OI = ''historical_daily_oi''"

record quote_body =
  qu_ltp :: "decimal option"
  qu_bid :: "decimal option"
  qu_ask :: "decimal option"
  qu_bid_qty :: "int option"
  qu_ask_qty :: "int option"
  qu_volume :: "int option"
  qu_oi :: "int option"
  qu_provider_prev_oi :: "int option"
  qu_prev_close :: "decimal option"

record greeks_body =
  gr_iv :: "decimal option"
  gr_delta :: "decimal option"
  gr_gamma :: "decimal option"
  gr_theta :: "decimal option"
  gr_vega :: "decimal option"
  gr_rho :: "decimal option"

record obs_depth_level =
  od_price :: decimal
  od_quantity :: int
  od_orders :: "int option"

record depth_body =
  dp_bids :: "obs_depth_level list"
  dp_asks :: "obs_depth_level list"

record ohlc_body =
  oh_interval :: string
  oh_open :: "decimal option"
  oh_high :: "decimal option"
  oh_low :: "decimal option"
  oh_close :: "decimal option"
  oh_volume :: "int option"
  oh_oi :: "int option"

record index_body =
  ix_ltp :: "decimal option"
  ix_prev_close :: "decimal option"
  ix_open :: "decimal option"
  ix_high :: "decimal option"
  ix_low :: "decimal option"

record daily_oi_body =
  do_observation_date :: "int option"
  do_valid_from :: "instant option"
  do_valid_to :: "instant option"
  do_oi :: "int option"
  do_close_spot :: "decimal option"

datatype observation_body =
    Quote_Body quote_body
  | Greeks_Body greeks_body
  | Depth_Body depth_body
  | OHLC_Body ohlc_body
  | Index_Body index_body
  | Daily_OI_Body daily_oi_body

record observation =
  ob_instrument_id :: int
  ob_observed_at :: instant
  ob_ingested_at :: instant
  ob_source :: observation_source
  ob_identity :: observation_identity
  ob_supersedes :: "int option"
  ob_body :: observation_body

fun body_kind :: "observation_body \<Rightarrow> observation_kind" where
  "body_kind (Quote_Body _) = K_QUOTE"
| "body_kind (Greeks_Body _) = K_GREEKS"
| "body_kind (Depth_Body _) = K_DEPTH"
| "body_kind (OHLC_Body _) = K_OHLC"
| "body_kind (Index_Body _) = K_INDEX"
| "body_kind (Daily_OI_Body _) = K_HISTORICAL_DAILY_OI"

definition ob_kind :: "observation \<Rightarrow> observation_kind" where
  "ob_kind r = body_kind (ob_body r)"

text \<open>\<open>ingestion_lag_seconds\<close>, here in microseconds.\<close>

definition ingestion_lag :: "observation \<Rightarrow> duration" where
  "ingestion_lag r = ob_ingested_at r - ob_observed_at r"

text \<open>The ValueErrors of the two constructors that check something.\<close>

datatype observation_error = Negative_Quantity | Missing_Observation_Date | Missing_Interval | Empty_Interval

definition check_body :: "observation_body \<Rightarrow> observation_error option" where
  "check_body b = (case b of
      Quote_Body q \<Rightarrow>
        if list_ex (\<lambda>v. case v of None \<Rightarrow> False | Some n \<Rightarrow> n < 0)
             [qu_oi q, qu_volume q, qu_bid_qty q, qu_ask_qty q, qu_provider_prev_oi q]
        then Some Negative_Quantity else None
    | Daily_OI_Body d \<Rightarrow>
        if do_observation_date d = None then Some Missing_Observation_Date
        else (case (do_valid_from d, do_valid_to d) of
            (Some f, Some t) \<Rightarrow> if t \<le> f then Some Empty_Interval else None
          | _ \<Rightarrow> Some Missing_Interval)
    | _ \<Rightarrow> None)"

definition covers_instant :: "daily_oi_body \<Rightarrow> instant \<Rightarrow> bool" where
  "covers_instant d at' = (case (do_valid_from d, do_valid_to d) of
      (Some f, Some t) \<Rightarrow> f \<le> at' \<and> at' < t
    | _ \<Rightarrow> False)"

section \<open>Temporal bounds (timemode.py, repository.py)\<close>

datatype temporal_bound =
    Market_Truth_At instant instant
  | Knowledge_At instant
  | Tradable_Information_At instant

datatype read_error = Unbounded_Query | Incoherent_Bound | No_Availability

record resolved_bound =
  rb_observed_at_max :: instant
  rb_ingested_at_max :: instant
  rb_available_at_max :: "instant option"
  rb_mode :: string

definition filters_availability :: "resolved_bound \<Rightarrow> bool" where
  "filters_availability b \<longleftrightarrow> rb_available_at_max b \<noteq> None"

definition resolve_bound :: "temporal_bound option \<Rightarrow> read_error + resolved_bound" where
  "resolve_bound b = (case b of
      None \<Rightarrow> Inl Unbounded_Query
    | Some (Market_Truth_At v k) \<Rightarrow>
        if k < v then Inl Incoherent_Bound
        else Inr \<lparr>rb_observed_at_max = v, rb_ingested_at_max = k, rb_available_at_max = None, rb_mode = ''market_truth_at''\<rparr>
    | Some (Knowledge_At t) \<Rightarrow>
        Inr \<lparr>rb_observed_at_max = t, rb_ingested_at_max = t, rb_available_at_max = None, rb_mode = ''knowledge_at''\<rparr>
    | Some (Tradable_Information_At t) \<Rightarrow>
        Inr \<lparr>rb_observed_at_max = t, rb_ingested_at_max = t, rb_available_at_max = Some t,
             rb_mode = ''tradable_information_at''\<rparr>)"

text \<open>\<open>TemporalRepository.fetch\<close>, over the subclass's \<open>_fetch\<close> and its \<open>supports_availability\<close>.\<close>

definition repository_fetch :: "bool \<Rightarrow> (resolved_bound \<Rightarrow> 'r list) \<Rightarrow> temporal_bound option \<Rightarrow> read_error + 'r list" where
  "repository_fetch supports fetch' b = bind_result (resolve_bound b)
     (\<lambda>r. if filters_availability r \<and> \<not> supports then Inl No_Availability else Inr (fetch' r))"

section \<open>The store (memory.py)\<close>

text \<open>
  A row is the observation with the id under which \<open>_ids\<close> holds that very object; the object's
  identity, which \<open>_id_of\<close> looks for, is that id.
\<close>

record write_result =
  wr_inserted :: int
  wr_duplicates :: int

record obs_store =
  st_rows :: "(int \<times> observation) list"
  st_seen :: "string list list"
  st_next_id :: int

definition empty_store :: obs_store where
  "empty_store = \<lparr>st_rows = [], st_seen = [], st_next_id = 1\<rparr>"

definition row_key :: "observation \<Rightarrow> string list" where
  "row_key r = kind_word (ob_kind r) # dedup_key (ob_identity r)"

fun store_append :: "obs_store \<Rightarrow> observation list \<Rightarrow> obs_store \<times> write_result" where
  "store_append s [] = (s, \<lparr>wr_inserted = 0, wr_duplicates = 0\<rparr>)"
| "store_append s (r # rs) =
     (if row_key r \<in> set (st_seen s) then
        (case store_append s rs of (s', w) \<Rightarrow> (s', w\<lparr>wr_duplicates := wr_duplicates w + 1\<rparr>))
      else
        (case store_append \<lparr>st_rows = st_rows s @ [(st_next_id s, r)], st_seen = row_key r # st_seen s,
                            st_next_id = st_next_id s + 1\<rparr> rs of
           (s', w) \<Rightarrow> (s', w\<lparr>wr_inserted := wr_inserted w + 1\<rparr>)))"

definition row_visible :: "resolved_bound \<Rightarrow> int option \<Rightarrow> observation_kind option \<Rightarrow> observation \<Rightarrow> bool" where
  "row_visible b instrument kind r \<longleftrightarrow>
     \<not> rb_observed_at_max b < ob_observed_at r \<and> \<not> rb_ingested_at_max b < ob_ingested_at r
     \<and> (case instrument of None \<Rightarrow> True | Some i \<Rightarrow> ob_instrument_id r = i)
     \<and> (case kind of None \<Rightarrow> True | Some k \<Rightarrow> ob_kind r = k)"

definition row_order :: "int \<times> observation \<Rightarrow> instant \<times> string list" where
  "row_order e = (ob_observed_at (snd e), dedup_key (ob_identity (snd e)))"

definition store_fetch ::
  "obs_store \<Rightarrow> int option \<Rightarrow> observation_kind option \<Rightarrow> resolved_bound \<Rightarrow> (int \<times> observation) list" where
  "store_fetch s instrument kind b = sort_key row_order (filter (\<lambda>e. row_visible b instrument kind (snd e)) (st_rows s))"

definition live_rows :: "(int \<times> observation) list \<Rightarrow> (int \<times> observation) list" where
  "live_rows rows =
     (let superseded = {i \<in> set (List.map_filter (\<lambda>e. ob_supersedes (snd e)) rows). i \<noteq> 0}
      in filter (\<lambda>e. fst e \<notin> superseded) rows)"

definition latest_in :: "(int \<times> observation) list \<Rightarrow> observation option" where
  "latest_in rows = (case live_rows rows of [] \<Rightarrow> None | live \<Rightarrow> Some (snd (last live)))"

definition store_latest ::
  "obs_store \<Rightarrow> temporal_bound \<Rightarrow> int \<Rightarrow> observation_kind \<Rightarrow> read_error + observation option" where
  "store_latest s b instrument kind = bind_result (resolve_bound (Some b))
     (\<lambda>r. Inr (latest_in (store_fetch s (Some instrument) (Some kind) r)))"

definition store_count :: "obs_store \<Rightarrow> int" where
  "store_count s = int (length (st_rows s))"

definition all_rows :: "obs_store \<Rightarrow> observation list" where
  "all_rows s = map snd (st_rows s)"

text \<open>Each row's key is seen, once, and the ids are given out in order.\<close>

definition store_ok :: "obs_store \<Rightarrow> bool" where
  "store_ok s \<longleftrightarrow> st_next_id s = store_count s + 1
     \<and> map fst (st_rows s) = [1..store_count s]
     \<and> st_seen s = rev (map row_key (all_rows s)) \<and> distinct (st_seen s)"

end
