(* ===== verification/Observation_Store.thy ===== *)
theory Observation_Store
  imports Observations
begin

text \<open>
  What the observation store promises: identity resolution keeps feed sessions apart, appending is
  idempotent, and a read under a temporal bound depends on nothing that lies outside the bound. The
  locale at the end is the read surface a client of the store relies on.
\<close>

section \<open>Identity\<close>

text \<open>The digest is a function of the payload as a mapping, not of the order of its fields.\<close>

lemma content_hash_order_free:
  assumes "dict_ok p" "dict_ok p'" "\<And>k. dict_get p k = dict_get p' k"
  shows "content_hash hash p = content_hash hash p'"
proof -
  have "set (dict_keys p) = set (dict_keys p')" using assms(3) by (auto simp: dict_keys_get)
  then have "sort (dict_keys p) = sort (dict_keys p')"
    using assms(1,2) by (metis dict_keys_def dict_ok_def sorted_list_of_set_sort_remdups distinct_remdups_id)
  then show ?thesis by (simp add: content_hash_def assms(3))
qed

lemma str_number_inject: "str_number (Some m) = str_number (Some n) \<longleftrightarrow> m = n"
proof -
  have minus: "CHR ''-'' # str_nat a \<noteq> str_nat b" for a b
  proof
    assume "CHR ''-'' # str_nat a = str_nat b"
    then have "CHR ''-'' \<in> set (str_nat b)" by (metis list.set_intros(1))
    from str_nat_digits [OF this] show False by simp
  qed
  note minus' = minus [symmetric]
  show ?thesis by (auto simp: str_number_def str_int_def str_nat_inject minus minus' split: if_splits)
qed

text \<open>
  Claim C0: What a dedup key can collapse. Two resolved identities share a key only when they were
  resolved at the same tier; then provider event ids agree and so do the feed sessions, or in-session
  sequences agree and so do sessions and channels, or, where nothing was supplied by the provider, the
  content digests agree. The one exception is in the rendering of an absent session or channel: it is
  the word None, which a feed that names its session or channel so would share.
\<close>

definition same_text :: "string option \<Rightarrow> string option \<Rightarrow> bool" where
  "same_text x y \<longleftrightarrow> x = y \<or> {x, y} = {None, Some ''None''}"

lemma str_text_eq: "str_text x = str_text y \<longleftrightarrow> same_text x y"
  by (cases x; cases y) (auto simp: str_text_def same_text_def doubleton_eq_iff)

lemma same_text_Some [simp]: "same_text (Some x) (Some y) \<longleftrightarrow> x = y"
  by (auto simp: same_text_def doubleton_eq_iff)

lemma resolve_identity_cases:
  obtains (event) e where "event = Some e" "e \<noteq> []"
      "oi_tier (resolve_identity hash i t src p event session channel sequence rcv) = PROVIDER_EVENT_ID"
  | (sequence) f n where "event = None \<or> event = Some []" "session = Some f" "f \<noteq> []" "sequence = Some n"
      "oi_tier (resolve_identity hash i t src p event session channel sequence rcv) = FEED_SEQUENCE"
  | (content) "event = None \<or> event = Some []" "session = None \<or> session = Some [] \<or> sequence = None"
      "oi_tier (resolve_identity hash i t src p event session channel sequence rcv) = CONTENT_HASH"
  by (cases event; cases session; cases sequence) (auto simp: resolve_identity_def Let_def split: if_splits)

theorem dedup_key_collisions:
  assumes a_def: "a = resolve_identity hash i t src p event session channel sequence rcv"
    and b_def: "b = resolve_identity hash i' t' src' p' event' session' channel' sequence' rcv'"
    and key: "dedup_key a = dedup_key b"
  shows "oi_tier a = oi_tier b
    \<and> (oi_tier a = PROVIDER_EVENT_ID \<longrightarrow> event = event' \<and> same_text session session')
    \<and> (oi_tier a = FEED_SEQUENCE \<longrightarrow> session = session' \<and> sequence = sequence' \<and> same_text channel channel')
    \<and> (oi_tier a = CONTENT_HASH \<longrightarrow>
         content_hash hash (identity_payload i t src p) = content_hash hash (identity_payload i' t' src' p'))"
proof -
  have tier: "oi_tier a = oi_tier b"
    using key by (cases "oi_tier a"; cases "oi_tier b") (simp_all add: dedup_key_def)
  show ?thesis
  proof (cases rule: resolve_identity_cases [of event hash i t src p session channel sequence rcv])
    case (event e)
    with tier obtain e' where "event' = Some e'" "e' \<noteq> []"
      unfolding a_def b_def
      by (cases rule: resolve_identity_cases [of event' hash i' t' src' p' session' channel' sequence' rcv']) auto
    with event key tier show ?thesis
      unfolding a_def b_def by (simp add: dedup_key_def resolve_identity_def Let_def str_text_eq)
  next
    case (sequence f n)
    with tier obtain f' n' where "event' = None \<or> event' = Some []" "session' = Some f'" "f' \<noteq> []" "sequence' = Some n'"
      unfolding a_def b_def
      by (cases rule: resolve_identity_cases [of event' hash i' t' src' p' session' channel' sequence' rcv']) auto
    with sequence key tier show ?thesis
      unfolding a_def b_def
      by (auto simp: dedup_key_def resolve_identity_def Let_def str_text_eq str_number_inject)
  next
    case content
    with tier have "(event' = None \<or> event' = Some []) \<and> (session' = None \<or> session' = Some [] \<or> sequence' = None)"
      unfolding a_def b_def
      by (cases rule: resolve_identity_cases [of event' hash i' t' src' p' session' channel' sequence' rcv']) auto
    with content key tier show ?thesis
      unfolding a_def b_def by (auto simp: dedup_key_def resolve_identity_def Let_def str_text_def)
  qed
qed

theorem dedup_key_collisions_witness:
  "oi_tier (resolve_identity (\<lambda>_. ''h'') 7 0 ''ws'' [] (Some ''e1'') None None None None)
     = oi_tier (resolve_identity (\<lambda>_. ''h'') 7 60 ''ws'' [] (Some ''e1'') (Some ''None'') None None None)"
proof -
  have "dedup_key (resolve_identity (\<lambda>_. ''h'') 7 0 ''ws'' [] (Some ''e1'') None None None None)
      = dedup_key (resolve_identity (\<lambda>_. ''h'') 7 60 ''ws'' [] (Some ''e1'') (Some ''None'') None None None)"
    by (simp add: dedup_key_def resolve_identity_def str_text_def)
  from dedup_key_collisions [OF refl refl this] show ?thesis by blast
qed

section \<open>Appending\<close>

text \<open>The rows that a batch adds, in order: those whose key is new.\<close>

fun fresh_rows :: "string list set \<Rightarrow> observation list \<Rightarrow> observation list" where
  "fresh_rows seen [] = []"
| "fresh_rows seen (r # rs) =
     (if row_key r \<in> seen then fresh_rows seen rs else r # fresh_rows (insert (row_key r) seen) rs)"

lemma fresh_rows_subset: "set (fresh_rows seen rs) \<subseteq> set rs"
  by (induction seen rs rule: fresh_rows.induct) auto

lemma fresh_rows_keys: "row_key ` set (fresh_rows seen rs) \<union> seen = row_key ` set rs \<union> seen"
proof (induction seen rs rule: fresh_rows.induct)
  case (2 seen r rs)
  then show ?case by (cases "row_key r \<in> seen") (simp, blast, simp)
qed simp

lemma fresh_rows_none: "row_key ` set rs \<subseteq> seen \<Longrightarrow> fresh_rows seen rs = []"
  by (induction seen rs rule: fresh_rows.induct) auto

lemma upto_append_one: "0 \<le> n \<Longrightarrow> [1..n + 1] = [1..n] @ [n + 1 :: int]"
  using upto_rec2 [of 1 "n + 1"] by simp

lemma store_append_rows:
  assumes "store_ok s"
  shows "store_ok (fst (store_append s rs))
    \<and> all_rows (fst (store_append s rs)) = all_rows s @ fresh_rows (set (st_seen s)) rs
    \<and> wr_inserted (snd (store_append s rs)) = int (length (fresh_rows (set (st_seen s)) rs))
    \<and> wr_inserted (snd (store_append s rs)) + wr_duplicates (snd (store_append s rs)) = int (length rs)"
  using assms
proof (induction s rs rule: store_append.induct)
  case (2 s r rs)
  show ?case
  proof (cases "row_key r \<in> set (st_seen s)")
    case True
    with "2.IH"(1) "2.prems" show ?thesis by (auto split: prod.splits)
  next
    case False
    let ?s = "\<lparr>st_rows = st_rows s @ [(st_next_id s, r)], st_seen = row_key r # st_seen s, st_next_id = st_next_id s + 1\<rparr>"
    have ok: "store_ok ?s"
    proof -
      have h: "st_next_id s = int (length (st_rows s)) + 1" "map fst (st_rows s) = [1..int (length (st_rows s))]"
        "st_seen s = rev (map row_key (all_rows s))" "distinct (st_seen s)"
        using "2.prems" unfolding store_ok_def store_count_def by blast+
      have seen: "row_key r # st_seen s = rev (map row_key (all_rows s @ [r]))" by (simp add: h(3))
      have ids: "map fst (st_rows s @ [(st_next_id s, r)]) = [1..int (length (st_rows s)) + 1]"
        by (simp only: map_append h(1,2) upto_append_one [OF of_nat_0_le_iff]) simp
      show ?thesis unfolding store_ok_def store_count_def all_rows_def
        using ids seen h(1,4) False by (simp add: all_rows_def add.commute)
    qed
    have rows: "all_rows ?s = all_rows s @ [r]" by (simp add: all_rows_def)
    from "2.IH"(2) [OF False ok] False rows show ?thesis by (auto split: prod.splits)
  qed
qed simp

lemma store_ok_append [intro]: "store_ok s \<Longrightarrow> store_ok (fst (store_append s rs))"
  using store_append_rows by blast

lemma store_ok_empty [simp]: "store_ok empty_store"
  by (simp add: store_ok_def empty_store_def store_count_def all_rows_def)

text \<open>What is appended goes behind what is there, under ids that are not in use.\<close>

lemma store_append_extends:
  "\<exists>new. st_rows (fst (store_append s rs)) = st_rows s @ new \<and> snd ` set new \<subseteq> set rs"
proof (induction s rs rule: store_append.induct)
  case (2 s r rs)
  then show ?case by (cases "row_key r \<in> set (st_seen s)") (auto split: prod.splits; force)+
qed simp

lemma all_seen_after: "store_ok s \<Longrightarrow> row_key ` set rs \<subseteq> set (st_seen (fst (store_append s rs)))"
proof -
  assume ok: "store_ok s"
  have seen: "set (st_seen t) = row_key ` set (all_rows t)" if "store_ok t" for t
    using that by (simp add: store_ok_def)
  have "row_key ` set rs \<subseteq> row_key ` set (fresh_rows (set (st_seen s)) rs) \<union> set (st_seen s)"
    using fresh_rows_keys [of "set (st_seen s)" rs] by blast
  then show ?thesis using store_append_rows [OF ok, of rs] seen [OF ok] seen [of "fst (store_append s rs)"] by auto
qed

lemma store_append_known:
  "row_key ` set rs \<subseteq> set (st_seen s) \<Longrightarrow> store_append s rs = (s, \<lparr>wr_inserted = 0, wr_duplicates = int (length rs)\<rparr>)"
  by (induction s rs rule: store_append.induct) auto

text \<open>
  Claim C31: Appending is idempotent. Whatever was delivered once, in any order, any number of times and
  in any grouping, is suppressed when it comes again: the store is unchanged and the write reports
  nothing but duplicates. Every observation of a batch is either inserted or counted as a duplicate, the
  rows already there keep their places, and no two rows ever have the same key.
\<close>

theorem append_is_idempotent:
  assumes "store_ok s" and "set again \<subseteq> set batch"
  shows "store_append (fst (store_append s batch)) again
      = (fst (store_append s batch), \<lparr>wr_inserted = 0, wr_duplicates = int (length again)\<rparr>)
    \<and> wr_inserted (snd (store_append s batch)) + wr_duplicates (snd (store_append s batch)) = int (length batch)
    \<and> store_count (fst (store_append s batch)) = store_count s + wr_inserted (snd (store_append s batch))
    \<and> take (length (st_rows s)) (st_rows (fst (store_append s batch))) = st_rows s
    \<and> distinct (map row_key (all_rows (fst (store_append s batch))))"
proof (intro conjI)
  have "row_key ` set again \<subseteq> set (st_seen (fst (store_append s batch)))"
    using all_seen_after [OF assms(1), of batch] assms(2) by blast
  then show "store_append (fst (store_append s batch)) again
      = (fst (store_append s batch), \<lparr>wr_inserted = 0, wr_duplicates = int (length again)\<rparr>)"
    by (rule store_append_known)
  note rows = store_append_rows [OF assms(1), of batch]
  show "wr_inserted (snd (store_append s batch)) + wr_duplicates (snd (store_append s batch)) = int (length batch)"
    using rows by blast
  have count: "store_count t = int (length (all_rows t))" for t by (simp add: store_count_def all_rows_def)
  show "store_count (fst (store_append s batch)) = store_count s + wr_inserted (snd (store_append s batch))"
    using rows unfolding count by simp
  show "take (length (st_rows s)) (st_rows (fst (store_append s batch))) = st_rows s"
    using store_append_extends [of s batch] by auto
  have "store_ok (fst (store_append s batch))" using rows by blast
  then show "distinct (map row_key (all_rows (fst (store_append s batch))))"
    by (metis distinct_rev store_ok_def)
qed

definition sample_tick :: "int \<Rightarrow> instant \<Rightarrow> instant \<Rightarrow> int \<Rightarrow> int option \<Rightarrow> observation" where
  "sample_tick instrument observed ingested sequence corrects =
     \<lparr>ob_instrument_id = instrument, ob_observed_at = observed, ob_ingested_at = ingested, ob_source = SRC_WS,
      ob_identity = \<lparr>oi_tier = FEED_SEQUENCE, oi_confidence = STRONG, oi_provider_event_id = None,
        oi_feed_session_id = Some ''f1'', oi_channel = Some ''ticks'', oi_channel_sequence = Some sequence,
        oi_content_digest = Some ''d'', oi_received_seq = None\<rparr>,
      ob_supersedes = corrects,
      ob_body = Index_Body \<lparr>ix_ltp = Some (Dec 22000 0), ix_prev_close = None, ix_open = None, ix_high = None, ix_low = None\<rparr>\<rparr>"

theorem append_is_idempotent_witness:
  "store_append (fst (store_append empty_store [sample_tick 1 0 10 1 None, sample_tick 1 5 15 2 None])) [sample_tick 1 0 10 1 None]
     = (fst (store_append empty_store [sample_tick 1 0 10 1 None, sample_tick 1 5 15 2 None]), \<lparr>wr_inserted = 0, wr_duplicates = 1\<rparr>)"
  using append_is_idempotent [OF store_ok_empty, of "[sample_tick 1 0 10 1 None]" "[sample_tick 1 0 10 1 None, sample_tick 1 5 15 2 None]"]
  by simp

section \<open>Reading\<close>

lemma store_fetch_set: "set (store_fetch s i k b) = {e \<in> set (st_rows s). row_visible b i k (snd e)}"
  by (auto simp: store_fetch_def)

lemma store_fetch_sorted: "sorted (map row_order (store_fetch s i k b))"
  by (simp add: store_fetch_def)

lemma store_fetch_append_invisible:
  assumes "\<And>r. r \<in> set rs \<Longrightarrow> \<not> row_visible b i k r"
  shows "store_fetch (fst (store_append s rs)) i k b = store_fetch s i k b"
proof -
  obtain new where "st_rows (fst (store_append s rs)) = st_rows s @ new" "snd ` set new \<subseteq> set rs"
    using store_append_extends by blast
  moreover from this(2) assms have "filter (\<lambda>e. row_visible b i k (snd e)) new = []" by (auto simp: filter_empty_conv)
  ultimately show ?thesis by (simp add: store_fetch_def)
qed

text \<open>\<open>beyond b r\<close>: the row is outside the bound on one of its two axes.\<close>

definition beyond :: "temporal_bound \<Rightarrow> observation \<Rightarrow> bool" where
  "beyond b r \<longleftrightarrow> (case b of
      Market_Truth_At v k \<Rightarrow> v < ob_observed_at r \<or> k < ob_ingested_at r
    | Knowledge_At t \<Rightarrow> t < ob_observed_at r \<or> t < ob_ingested_at r
    | Tradable_Information_At t \<Rightarrow> t < ob_observed_at r \<or> t < ob_ingested_at r)"

lemma resolved_limits:
  "resolve_bound (Some b) = Inr rb \<Longrightarrow>
     (rb_observed_at_max rb < ob_observed_at r \<or> rb_ingested_at_max rb < ob_ingested_at r) = beyond b r"
  by (cases b) (auto simp: resolve_bound_def beyond_def split: if_splits)

lemma row_visible_within:
  "resolve_bound (Some b) = Inr rb \<Longrightarrow> row_visible rb i k r \<Longrightarrow> \<not> beyond b r"
  using resolved_limits by (auto simp: row_visible_def)

text \<open>
  No read sees past its bound. Observations appended to the store that lie beyond a temporal bound,
  because they were observed later or because they arrived later, change no answer given under it:
  neither what a fetch returns nor the latest observation of any instrument, errors included. An answer
  recorded under a bound that has passed can be reproduced from the store at any later time.
\<close>

theorem later_arrivals_change_no_bounded_read:
  assumes "\<And>r. r \<in> set late \<Longrightarrow> beyond b r"
  shows "store_latest (fst (store_append s late)) b instrument kind = store_latest s b instrument kind
    \<and> repository_fetch False (store_fetch (fst (store_append s late)) i k) (Some b) = repository_fetch False (store_fetch s i k) (Some b)"
proof (cases "resolve_bound (Some b)")
  case (Inr rb)
  have "store_fetch (fst (store_append s late)) i k rb = store_fetch s i k rb" for i k
    by (rule store_fetch_append_invisible) (use assms row_visible_within [OF Inr] in blast)
  then show ?thesis by (simp add: store_latest_def repository_fetch_def Inr)
qed (simp add: store_latest_def repository_fetch_def)

text \<open>The late tick of the worked example: true at 11:40, received at 11:44, asked for at 11:42.\<close>

theorem later_arrivals_change_no_bounded_read_witness:
  "store_latest (fst (store_append (fst (store_append empty_store [sample_tick 1 36000 36010 1 None])) [sample_tick 1 40000 44000 2 None]))
     (Knowledge_At 42000) 1 K_INDEX
   = store_latest (fst (store_append empty_store [sample_tick 1 36000 36010 1 None])) (Knowledge_At 42000) 1 K_INDEX"
  using later_arrivals_change_no_bounded_read [of "[sample_tick 1 40000 44000 2 None]" "Knowledge_At 42000"
      "fst (store_append empty_store [sample_tick 1 36000 36010 1 None])" 1 K_INDEX]
  by (simp add: beyond_def sample_tick_def)

text \<open>Corrections point at earlier rows.\<close>

definition corrects_earlier :: "obs_store \<Rightarrow> bool" where
  "corrects_earlier s \<longleftrightarrow> list_all (\<lambda>(i, r). case ob_supersedes r of None \<Rightarrow> True | Some j \<Rightarrow> j < i) (st_rows s)"

lemma superseded_set:
  "set (List.map_filter (\<lambda>e. ob_supersedes (snd e)) rows) = {j. \<exists>e\<in>set rows. ob_supersedes (snd e) = Some j}"
  by (auto simp: map_filter_def image_iff) (force, metis option.sel)

lemma live_rows_set:
  "set (live_rows rows) = {e \<in> set rows. fst e = 0 \<or> (\<forall>e'\<in>set rows. ob_supersedes (snd e') \<noteq> Some (fst e))}"
  by (auto simp: live_rows_def Let_def superseded_set)

lemma live_rows_sorted: "sorted (map f rows) \<Longrightarrow> sorted (map f (live_rows rows))"
  by (simp add: live_rows_def Let_def sorted_filter)

lemma latest_in_Some:
  assumes "latest_in rows = Some r" "sorted (map row_order rows)"
  shows "\<exists>i. (i, r) \<in> set (live_rows rows) \<and> (\<forall>e\<in>set (live_rows rows). row_order e \<le> row_order (i, r))"
proof -
  have ne: "live_rows rows \<noteq> []" and r: "r = snd (last (live_rows rows))"
    using assms(1) by (auto simp: latest_in_def split: list.splits)
  have s: "sorted (map row_order (live_rows rows))" using assms(2) by (rule live_rows_sorted)
  have "row_order e \<le> row_order (last (live_rows rows))" if "e \<in> set (live_rows rows)" for e
  proof -
    from that obtain n where n: "n < length (live_rows rows)" "live_rows rows ! n = e" by (auto simp: in_set_conv_nth)
    have "map row_order (live_rows rows) ! n \<le> map row_order (live_rows rows) ! (length (live_rows rows) - 1)"
      by (rule sorted_nth_mono [OF s]) (use n in auto)
    then show ?thesis using n ne by (simp add: last_conv_nth)
  qed
  moreover have "(fst (last (live_rows rows)), r) \<in> set (live_rows rows)" using ne r by simp
  ultimately show ?thesis using r by (metis prod.collapse)
qed

definition corrected_in_view ::
  "obs_store \<Rightarrow> resolved_bound \<Rightarrow> int \<Rightarrow> observation_kind \<Rightarrow> int \<Rightarrow> bool" where
  "corrected_in_view s rb instrument kind n \<longleftrightarrow>
     list_ex (\<lambda>e. row_visible rb (Some instrument) (Some kind) (snd e) \<and> ob_supersedes (snd e) = Some n) (st_rows s)"

lemma row_id_positive: "store_ok s \<Longrightarrow> e \<in> set (st_rows s) \<Longrightarrow> 0 < fst e"
proof -
  assume "store_ok s" "e \<in> set (st_rows s)"
  then have "fst e \<in> set [1..store_count s]" unfolding store_ok_def by (metis image_eqI list.set_map)
  then show "0 < fst e" by simp
qed

lemma live_in_view:
  assumes "store_ok s"
  shows "set (live_rows (store_fetch s (Some i) (Some k) rb))
    = {e \<in> set (st_rows s). row_visible rb (Some i) (Some k) (snd e) \<and> \<not> corrected_in_view s rb i k (fst e)}"
  using row_id_positive [OF assms]
  by (fastforce simp: live_rows_set store_fetch_set corrected_in_view_def list_ex_iff)

lemma newest_id_is_live:
  assumes "store_ok s" "corrects_earlier s" "e \<in> set (st_rows s)" "row_visible rb (Some i) (Some k) (snd e)"
  shows "live_rows (store_fetch s (Some i) (Some k) rb) \<noteq> []"
proof -
  let ?V = "{e \<in> set (st_rows s). row_visible rb (Some i) (Some k) (snd e)}"
  have "e \<in> ?V" using assms(3,4) by simp
  then have fin: "finite (fst ` ?V)" and ne: "fst ` ?V \<noteq> {}" by (simp, blast)
  obtain m where m: "m \<in> ?V" "fst m = Max (fst ` ?V)" using Max_in [OF fin ne] by auto
  have "\<not> corrected_in_view s rb i k (fst m)"
  proof
    assume "corrected_in_view s rb i k (fst m)"
    then obtain c where c: "c \<in> ?V" "ob_supersedes (snd c) = Some (fst m)" by (auto simp: corrected_in_view_def list_ex_iff)
    then have "fst m < fst c" using assms(2) by (auto simp: corrects_earlier_def list_all_iff split: option.splits)
    moreover have "fst c \<le> fst m" using c(1) fin unfolding m(2) by (auto intro: Max_ge)
    ultimately show False by simp
  qed
  then have "m \<in> set (live_rows (store_fetch s (Some i) (Some k) rb))" using m(1) by (simp add: live_in_view [OF assms(1)])
  then show ?thesis by auto
qed

text \<open>
  Claim C17: The latest observation of an instrument under a bound is the right one. The read never fails for
  a coherent bound; it answers nothing exactly when no observation of that instrument and kind lies within
  the bound; and otherwise it answers a stored observation of that instrument and kind, within the bound on
  both time axes, that no observation within the bound corrects, and that is newest, by the time it was true,
  among all such. So a correction takes effect from the moment it is known and not before.
\<close>

theorem latest_is_newest_uncorrected:
  assumes "store_ok s" "corrects_earlier s" "resolve_bound (Some b) = Inr rb"
  shows "case store_latest s b i k of
      Inl _ \<Rightarrow> False
    | Inr None \<Rightarrow> (\<forall>r\<in>set (all_rows s). \<not> row_visible rb (Some i) (Some k) r)
    | Inr (Some r) \<Rightarrow> \<not> beyond b r \<and> ob_instrument_id r = i \<and> ob_kind r = k
        \<and> (\<exists>n. (n, r) \<in> set (st_rows s) \<and> \<not> corrected_in_view s rb i k n)
        \<and> (\<forall>(m, q)\<in>set (st_rows s). row_visible rb (Some i) (Some k) q \<and> \<not> corrected_in_view s rb i k m
              \<longrightarrow> ob_observed_at q \<le> ob_observed_at r)"
proof -
  let ?rows = "store_fetch s (Some i) (Some k) rb"
  have read: "store_latest s b i k = Inr (latest_in ?rows)" by (simp add: store_latest_def assms(3))
  show ?thesis
  proof (cases "latest_in ?rows")
    case None
    then have "live_rows ?rows = []" by (simp add: latest_in_def split: list.splits)
    then have "\<not> row_visible rb (Some i) (Some k) (snd e)" if "e \<in> set (st_rows s)" for e
      using newest_id_is_live [OF assms(1,2) that] by blast
    then show ?thesis by (auto simp: read None all_rows_def)
  next
    case (Some r)
    then obtain n where n: "(n, r) \<in> set (live_rows ?rows)" "\<And>e. e \<in> set (live_rows ?rows) \<Longrightarrow> row_order e \<le> row_order (n, r)"
      using latest_in_Some [OF Some store_fetch_sorted] by blast
    have live: "(n, r) \<in> set (st_rows s)" "row_visible rb (Some i) (Some k) r" "\<not> corrected_in_view s rb i k n"
      using n(1) by (simp_all add: live_in_view [OF assms(1)])
    have "ob_observed_at q \<le> ob_observed_at r"
      if "(m, q) \<in> set (st_rows s)" "row_visible rb (Some i) (Some k) q" "\<not> corrected_in_view s rb i k m" for m q
      using n(2) [of "(m, q)"] that by (auto simp: live_in_view [OF assms(1)] row_order_def less_eq_prod_def)
    moreover have "\<not> beyond b r" by (rule row_visible_within [OF assms(3) live(2)])
    moreover have "ob_instrument_id r = i" "ob_kind r = k" using live(2) by (auto simp: row_visible_def)
    ultimately show ?thesis using live by (auto simp: read Some)
  qed
qed

text \<open>A correction received at 15: at 12 the original is the answer, at 20 the correction.\<close>

definition corrected_store :: obs_store where
  "corrected_store = fst (store_append empty_store [sample_tick 1 0 10 1 None, sample_tick 1 0 15 2 (Some 1)])"

theorem latest_is_newest_uncorrected_witness:
  "store_latest corrected_store (Knowledge_At 12) 1 K_INDEX = Inr (Some (sample_tick 1 0 10 1 None))
   \<and> store_latest corrected_store (Knowledge_At 20) 1 K_INDEX = Inr (Some (sample_tick 1 0 15 2 (Some 1)))
   \<and> \<not> beyond (Knowledge_At 20) (sample_tick 1 0 15 2 (Some 1))"
proof -
  have ok: "store_ok corrected_store" unfolding corrected_store_def by (rule store_ok_append [OF store_ok_empty])
  have early: "store_latest corrected_store (Knowledge_At 12) 1 K_INDEX = Inr (Some (sample_tick 1 0 10 1 None))" by code_simp
  have late: "store_latest corrected_store (Knowledge_At 20) 1 K_INDEX = Inr (Some (sample_tick 1 0 15 2 (Some 1)))" by code_simp
  have older: "corrects_earlier corrected_store" by code_simp
  have bound: "resolve_bound (Some (Knowledge_At 20)) = Inr \<lparr>rb_observed_at_max = 20, rb_ingested_at_max = 20, rb_available_at_max = None, rb_mode = ''knowledge_at''\<rparr>"
    by (simp add: resolve_bound_def)
  from latest_is_newest_uncorrected [OF ok older bound, of 1 K_INDEX] have "\<not> beyond (Knowledge_At 20) (sample_tick 1 0 15 2 (Some 1))"
    by (simp add: late)
  with early late show ?thesis by blast
qed

text \<open>
  The store refuses to fetch raw observations under a bound on availability, which they do not
  have. The read that assembly uses does not go through that refusal: under such a bound it answers as if it
  had been asked for the knowledge at that moment.
\<close>

theorem latest_answers_a_refused_mode:
  "repository_fetch False (store_fetch s i k) (Some (Tradable_Information_At t)) = Inl No_Availability
   \<and> store_latest s (Tradable_Information_At t) instrument kind = store_latest s (Knowledge_At t) instrument kind"
proof -
  have same: "store_fetch s i k \<lparr>rb_observed_at_max = t, rb_ingested_at_max = t, rb_available_at_max = Some t, rb_mode = m\<rparr>
      = store_fetch s i k \<lparr>rb_observed_at_max = t, rb_ingested_at_max = t, rb_available_at_max = None, rb_mode = m'\<rparr>" for i k m m'
    by (simp add: store_fetch_def row_visible_def)
  show ?thesis
    by (simp add: repository_fetch_def store_latest_def resolve_bound_def filters_availability_def
      same [of _ _ "''tradable_information_at''" "''knowledge_at''"])
qed

section \<open>The read surface\<close>

text \<open>
  What assembly relies on: a coherent bound is always answered, and the answer is within the bound and of
  the instrument and kind asked for.
\<close>

locale observation_reads =
  fixes read :: "temporal_bound \<Rightarrow> int \<Rightarrow> observation_kind \<Rightarrow> read_error + observation option"
  assumes read_answers: "resolve_bound (Some b) = Inr rb \<Longrightarrow> \<exists>x. read b i k = Inr x"
    and read_within: "read b i k = Inr (Some r) \<Longrightarrow> \<not> beyond b r \<and> ob_instrument_id r = i \<and> ob_kind r = k"

lemma store_latest_view:
  assumes "store_latest s b i k = Inr (Some r)"
  shows "\<not> beyond b r \<and> ob_instrument_id r = i \<and> ob_kind r = k"
proof -
  from assms obtain rb where rb: "resolve_bound (Some b) = Inr rb"
      and some: "latest_in (store_fetch s (Some i) (Some k) rb) = Some r"
    by (cases "resolve_bound (Some b)") (auto simp: store_latest_def)
  obtain n where "(n, r) \<in> set (live_rows (store_fetch s (Some i) (Some k) rb))"
    using latest_in_Some [OF some store_fetch_sorted] by blast
  then have vis: "row_visible rb (Some i) (Some k) r" by (auto simp: live_rows_set store_fetch_set)
  then show ?thesis using row_visible_within [OF rb vis] by (auto simp: row_visible_def)
qed

interpretation memory_reads: observation_reads "store_latest s" for s
  by unfold_locales (auto simp: store_latest_def store_latest_view [unfolded store_latest_def])

end
