(* ===== verification/Instruments.thy ===== *)
theory Instruments
  imports OIP_Decimal OIP_Time "HOL-Library.Product_Lexorder" "HOL-Library.Multiset"
begin

text \<open>
  \<^verbatim>\<open>oipulse/instruments/models.py\<close>, \<^verbatim>\<open>oipulse/instruments/universe.py\<close> and
  \<^verbatim>\<open>oipulse/marketstate/universe.py\<close>: instruments with their historised metadata and vendor keys, the
  selectors that choose expiries and strikes, and the universe that exists for an underlying at a market
  time. A date is its day number. Notes, symbols' free attributes and the names of universes are text
  that nothing reads; the notes are left out.
\<close>

section \<open>Identity, versions, vendor keys (instruments/models.py)\<close>

datatype instrument_type = IT_INDEX | IT_EQUITY | IT_FUTURE | IT_OPTION

datatype option_type = OPT_CALL | OPT_PUT

fun option_word :: "option_type \<Rightarrow> string" where
  "option_word OPT_CALL = ''CE''"
| "option_word OPT_PUT = ''PE''"

datatype exchange = EX_NSE | EX_BSE | EX_NFO | EX_BFO

datatype expiry_type = EXP_WEEKLY | EXP_MONTHLY | EXP_QUARTERLY

record expiry =
  xp_id :: int
  xp_underlying_id :: int
  xp_expiry_date :: int
  xp_expiry_type :: expiry_type
  xp_is_active :: bool

definition days_to_expiry :: "expiry \<Rightarrow> int \<Rightarrow> int" where
  "days_to_expiry e as_of = xp_expiry_date e - as_of"

definition is_expired :: "expiry \<Rightarrow> int \<Rightarrow> bool" where
  "is_expired e as_of \<longleftrightarrow> xp_expiry_date e < as_of"

record instrument =
  in_id :: int
  in_instrument_type :: instrument_type
  in_underlying_id :: "int option"
  in_expiry_id :: "int option"
  in_strike :: "decimal option"
  in_option_type :: "option_type option"

datatype instrument_error =
    Option_Requires "string list"
  | Strike_Not_Positive
  | Future_Requires
  | Version_Interval
  | Lot_Size_Not_Positive
  | Universe_Unnamed
  | Universe_Without_Underlying

definition check_instrument :: "instrument \<Rightarrow> instrument_error option" where
  "check_instrument i =
     (let missing = map fst (filter snd
        [(''underlying_id'', in_underlying_id i = None), (''expiry_id'', in_expiry_id i = None),
         (''strike'', in_strike i = None), (''option_type'', in_option_type i = None)])
      in if in_instrument_type i = IT_OPTION \<and> missing \<noteq> [] then Some (Option_Requires missing)
         else if in_instrument_type i = IT_OPTION \<and> (case in_strike i of None \<Rightarrow> False | Some s \<Rightarrow> s \<le> 0)
           then Some Strike_Not_Positive
         else if in_instrument_type i = IT_FUTURE \<and> (in_underlying_id i = None \<or> in_expiry_id i = None)
           then Some Future_Requires
         else None)"

definition is_derivative :: "instrument \<Rightarrow> bool" where
  "is_derivative i \<longleftrightarrow> in_instrument_type i = IT_OPTION \<or> in_instrument_type i = IT_FUTURE"

record instrument_version =
  iv_instrument_id :: int
  iv_valid_from :: instant
  iv_valid_to :: "instant option"
  iv_symbol :: string
  iv_exchange :: exchange
  iv_lot_size :: int
  iv_tick_size :: decimal
  iv_trading_symbol :: "string option"

definition check_version :: "instrument_version \<Rightarrow> instrument_error option" where
  "check_version v =
     (if (case iv_valid_to v of None \<Rightarrow> False | Some t \<Rightarrow> t \<le> iv_valid_from v) then Some Version_Interval
      else if iv_lot_size v \<le> 0 then Some Lot_Size_Not_Positive
      else None)"

definition interval_covers :: "instant \<Rightarrow> instant option \<Rightarrow> instant \<Rightarrow> bool" where
  "interval_covers from_t to_t t \<longleftrightarrow> from_t \<le> t \<and> (case to_t of None \<Rightarrow> True | Some u \<Rightarrow> t < u)"

definition version_covers :: "instrument_version \<Rightarrow> instant \<Rightarrow> bool" where
  "version_covers v t = interval_covers (iv_valid_from v) (iv_valid_to v) t"

record vendor_mapping =
  vm_instrument_id :: int
  vm_vendor :: string
  vm_vendor_key :: string
  vm_valid_from :: instant
  vm_valid_to :: "instant option"

definition check_mapping :: "vendor_mapping \<Rightarrow> instrument_error option" where
  "check_mapping m =
     (if (case vm_valid_to m of None \<Rightarrow> False | Some t \<Rightarrow> t \<le> vm_valid_from m) then Some Version_Interval else None)"

definition mapping_covers :: "vendor_mapping \<Rightarrow> instant \<Rightarrow> bool" where
  "mapping_covers m t = interval_covers (vm_valid_from m) (vm_valid_to m) t"

section \<open>Selectors (instruments/universe.py)\<close>

text \<open>A slice \<^verbatim>\<open>xs[: max(n, 0)]\<close>.\<close>

definition first_n :: "int \<Rightarrow> 'a list \<Rightarrow> 'a list" where
  "first_n n xs = take (nat n) xs"

datatype expiry_selector =
    Front_N int
  | Monthly_N int
  | Weekly_Expiries "int option"
  | Explicit_Expiries "int list"
  | All_Expiries

definition live_sorted :: "expiry list \<Rightarrow> int \<Rightarrow> expiry list" where
  "live_sorted es as_of = sort_key xp_expiry_date (filter (\<lambda>e. xp_is_active e \<and> \<not> is_expired e as_of) es)"

fun select_expiries :: "expiry_selector \<Rightarrow> expiry list \<Rightarrow> int \<Rightarrow> expiry list" where
  "select_expiries (Front_N n) es as_of = first_n n (live_sorted es as_of)"
| "select_expiries (Monthly_N n) es as_of =
     first_n n (filter (\<lambda>e. xp_expiry_type e = EXP_MONTHLY) (live_sorted es as_of))"
| "select_expiries (Weekly_Expiries n) es as_of =
     (let weekly = filter (\<lambda>e. xp_expiry_type e = EXP_WEEKLY) (live_sorted es as_of)
      in case n of None \<Rightarrow> weekly | Some k \<Rightarrow> first_n k weekly)"
| "select_expiries (Explicit_Expiries ids) es as_of = filter (\<lambda>e. xp_id e \<in> set ids) (live_sorted es as_of)"
| "select_expiries All_Expiries es as_of = live_sorted es as_of"

datatype strike_selector =
    Atm_Range int
  | Moneyness_Band decimal decimal
  | All_Strikes

text \<open>Sorting by the key \<^verbatim>\<open>(abs(s - spot), s)\<close> and by the strike; decimals compare by value.\<close>

definition by_distance :: "decimal list \<Rightarrow> decimal \<Rightarrow> decimal list" where
  "by_distance strikes spot = sort_key (\<lambda>s. (dval \<bar>s - spot\<bar>, dval s)) strikes"

fun select_strikes :: "strike_selector \<Rightarrow> decimal list \<Rightarrow> decimal \<Rightarrow> decimal list" where
  "select_strikes (Atm_Range n) strikes spot =
     (if strikes = [] then [] else sort_key dval (first_n (2 * max n 0 + 1) (by_distance strikes spot)))"
| "select_strikes (Moneyness_Band low high) strikes spot =
     (if spot \<le> 0 then []
      else sort_key dval (filter (\<lambda>s. low \<le> dec_div s spot \<and> dec_div s spot \<le> high) strikes))"
| "select_strikes All_Strikes strikes spot = sort_key dval strikes"

datatype data_mode = DM_LTPC | DM_GREEKS | DM_FULL

record instrument_universe =
  iu_name :: string
  iu_underlying_ids :: "int list"
  iu_expiry_selector :: expiry_selector
  iu_strike_selector :: strike_selector
  iu_option_mode :: data_mode
  iu_future_mode :: data_mode
  iu_index_mode :: data_mode
  iu_include_futures :: bool
  iu_is_active :: bool

definition check_universe :: "instrument_universe \<Rightarrow> instrument_error option" where
  "check_universe u =
     (if iu_name u = [] then Some Universe_Unnamed
      else if iu_underlying_ids u = [] then Some Universe_Without_Underlying else None)"

section \<open>The universe at a market time (marketstate/universe.py)\<close>

record expiry_universe =
  eu_expiry :: expiry
  eu_legs :: "instrument list"

definition eu_expiry_id :: "expiry_universe \<Rightarrow> int" where
  "eu_expiry_id e = xp_id (eu_expiry e)"

record resolved_universe =
  ru_underlying_id :: int
  ru_spot_instrument_id :: "int option"
  ru_futures :: "instrument list"
  ru_expiries :: "expiry_universe list"
  ru_subscribed_expiry_ids :: "int list"

definition sorted_expiries :: "resolved_universe \<Rightarrow> expiry_universe list" where
  "sorted_expiries u = sort_key (\<lambda>e. (xp_expiry_date (eu_expiry e), xp_id (eu_expiry e))) (ru_expiries u)"

type_synonym universes = "(int, resolved_universe) dict"

definition register_universe :: "universes \<Rightarrow> resolved_universe \<Rightarrow> universes" where
  "register_universe us u = dict_set (ru_underlying_id u) u us"

definition static_resolve :: "universes \<Rightarrow> int \<Rightarrow> instant \<Rightarrow> resolved_universe" where
  "static_resolve us underlying t = (case dict_get us underlying of
      None \<Rightarrow> \<lparr>ru_underlying_id = underlying, ru_spot_instrument_id = None, ru_futures = [], ru_expiries = [],
               ru_subscribed_expiry_ids = []\<rparr>
    | Some u \<Rightarrow> u\<lparr>ru_expiries := filter (\<lambda>e. xp_is_active (eu_expiry e) \<and> \<not> is_expired (eu_expiry e) (day_of t)) (ru_expiries u)\<rparr>)"

section \<open>Selection\<close>

lemma in_first_n: "x \<in> set (first_n n xs) \<Longrightarrow> x \<in> set xs"
  by (auto simp: first_n_def dest: in_set_takeD)

lemma live_sorted_props:
  "set (live_sorted es as_of) = {e \<in> set es. xp_is_active e \<and> \<not> is_expired e as_of}"
  "sorted (map xp_expiry_date (live_sorted es as_of))"
  by (simp_all add: live_sorted_def set_eq_iff)

lemma sorted_map_take: "sorted (map f xs) \<Longrightarrow> sorted (map f (take n xs))"
  by (simp add: sorted_wrt_take flip: take_map)

text \<open>
  Every expiry selector chooses among the live expiries only, nearest first: nothing inactive or
  already expired on the date asked for is ever selected, and what is selected comes in the order of the
  expiry dates. \<open>Front_N\<close> leaves out no live expiry that is nearer than one it selects.
\<close>

theorem expiry_selection_is_live_and_ordered:
  "set (select_expiries sel es as_of) \<subseteq> {e \<in> set es. xp_is_active e \<and> as_of \<le> xp_expiry_date e}
   \<and> sorted (map xp_expiry_date (select_expiries sel es as_of))
   \<and> (\<forall>e\<in>set (select_expiries (Front_N n) es as_of).
        {f \<in> set es. xp_is_active f \<and> as_of \<le> xp_expiry_date f \<and> xp_expiry_date f < xp_expiry_date e}
          \<subseteq> set (select_expiries (Front_N n) es as_of))"
proof (intro conjI ballI)
  note live = live_sorted_props [of es as_of]
  show "set (select_expiries sel es as_of) \<subseteq> {e \<in> set es. xp_is_active e \<and> as_of \<le> xp_expiry_date e}"
  proof -
    have "set (select_expiries sel es as_of) \<subseteq> set (live_sorted es as_of)"
    proof (cases sel)
      case (Weekly_Expiries k)
      then show ?thesis by (cases k) (auto simp: Let_def dest!: in_first_n)
    qed (auto dest!: in_first_n)
    then show ?thesis using live(1) by (auto simp: is_expired_def)
  qed
  show "sorted (map xp_expiry_date (select_expiries sel es as_of))"
  proof (cases sel)
    case (Weekly_Expiries k)
    then show ?thesis by (cases k) (simp_all add: Let_def first_n_def sorted_map_take sorted_filter live(2))
  qed (simp_all add: first_n_def sorted_map_take sorted_filter live(2))
  fix e
  assume "e \<in> set (select_expiries (Front_N n) es as_of)"
  then obtain j where j: "j < nat n" "j < length (live_sorted es as_of)" "e = live_sorted es as_of ! j"
    by (auto simp: first_n_def in_set_conv_nth)
  show "{f \<in> set es. xp_is_active f \<and> as_of \<le> xp_expiry_date f \<and> xp_expiry_date f < xp_expiry_date e}
      \<subseteq> set (select_expiries (Front_N n) es as_of)"
  proof
    fix f
    assume f: "f \<in> {f \<in> set es. xp_is_active f \<and> as_of \<le> xp_expiry_date f \<and> xp_expiry_date f < xp_expiry_date e}"
    then have "f \<in> set (live_sorted es as_of)" using live(1) by (auto simp: is_expired_def)
    then obtain i where i: "i < length (live_sorted es as_of)" "f = live_sorted es as_of ! i" by (metis in_set_conv_nth)
    have "i < j"
    proof (rule ccontr)
      assume "\<not> i < j"
      then have "xp_expiry_date e \<le> xp_expiry_date f"
        using sorted_nth_mono [OF live(2), of j i] i j by simp
      then show False using f by simp
    qed
    then have "i < length (take (nat n) (live_sorted es as_of))" "take (nat n) (live_sorted es as_of) ! i = f" using i j by auto
    then show "f \<in> set (select_expiries (Front_N n) es as_of)" by (metis first_n_def nth_mem select_expiries.simps(1))
  qed
qed

text \<open>
  The at-the-money range selects the nearest strikes, in ascending order: as many as twice its width
  and one, or all there are, and no strike left out is nearer to the spot than one selected.
\<close>

theorem atm_range_selects_the_nearest:
  "length (select_strikes (Atm_Range n) strikes spot) = min (nat (2 * max n 0 + 1)) (length strikes)
   \<and> sorted (map dval (select_strikes (Atm_Range n) strikes spot))
   \<and> (\<exists>rest. mset strikes = mset (select_strikes (Atm_Range n) strikes spot) + mset rest
        \<and> (\<forall>s\<in>set (select_strikes (Atm_Range n) strikes spot). \<forall>r\<in>set rest. dval \<bar>s - spot\<bar> \<le> dval \<bar>r - spot\<bar>))"
proof (cases "strikes = []")
  case False
  let ?d = "by_distance strikes spot" and ?m = "nat (2 * max n 0 + 1)"
  have s: "sorted (map (\<lambda>s. (dval \<bar>s - spot\<bar>, dval s)) ?d)" by (simp add: by_distance_def)
  have m: "mset ?d = mset strikes" by (simp add: by_distance_def)
  have sel: "select_strikes (Atm_Range n) strikes spot = sort_key dval (take ?m ?d)" using False by (simp add: first_n_def)
  have "dval \<bar>a - spot\<bar> \<le> dval \<bar>r - spot\<bar>" if a: "a \<in> set (take ?m ?d)" and r: "r \<in> set (drop ?m ?d)" for a r
  proof -
    have "sorted (map (\<lambda>s. (dval \<bar>s - spot\<bar>, dval s)) (take ?m ?d @ drop ?m ?d))" using s by simp
    then have "(dval \<bar>a - spot\<bar>, dval a) \<le> (dval \<bar>r - spot\<bar>, dval r)"
      using a r by (simp only: map_append sorted_append) auto
    then show ?thesis by (auto simp: less_eq_prod_def)
  qed
  then have "mset strikes = mset (sort_key dval (take ?m ?d)) + mset (drop ?m ?d)
      \<and> (\<forall>s\<in>set (sort_key dval (take ?m ?d)). \<forall>r\<in>set (drop ?m ?d). dval \<bar>s - spot\<bar> \<le> dval \<bar>r - spot\<bar>)"
    using m by (metis append_take_drop_id mset_append mset_sort set_sort)
  moreover have "length ?d = length strikes" by (simp add: by_distance_def)
  ultimately show ?thesis unfolding sel by (auto simp: min.commute)
qed simp

end
