(* ===== verification/State_Builder.thy ===== *)
theory State_Builder
  imports Observation_Store Instruments
begin

text \<open>
  \<^verbatim>\<open>oipulse/marketstate/builder.py\<close>: the single construction of a market state from the observations, the
  universe and the policy, for a market time \<open>T\<close> and a knowledge horizon \<open>K\<close>. The collaborators are the
  fields of \<open>builder\<close>; the chain-snapshot source has no implementation in the repository and stays a
  parameter. The lists that the methods append to are one record, threaded through. The only exceptions are
  those of the reads and the KeyError of a category without a budget; \<open>now\<close> is the clock's reading.
\<close>

section \<open>Collaborators\<close>

record chain_anchor =
  an_reference :: string
  an_expiry_id :: int
  an_observed_at :: instant

record builder =
  bd_read :: "temporal_bound \<Rightarrow> int \<Rightarrow> observation_kind \<Rightarrow> read_error + observation option"
  bd_resolve :: "int \<Rightarrow> instant \<Rightarrow> resolved_universe"
  bd_policy :: staleness_policy
  bd_anchors :: "(int \<Rightarrow> int \<Rightarrow> temporal_bound \<Rightarrow> chain_anchor option) option"
  bd_anchor_max_age :: duration
  bd_context :: build_context

definition default_anchor_max_age :: duration where
  "default_anchor_max_age = seconds 15 * 2"

datatype build_error = Read_Failed read_error | No_Budget data_category

text \<open>\<open>issues\<close>, the two lists of \<open>_InputTrail\<close>, \<open>ages\<close> and \<open>breached\<close>.\<close>

record trail =
  tr_refs :: "string list"
  tr_ingested :: "instant list"
  tr_ages :: "duration list"
  tr_issues :: "quality_issue list"
  tr_breached :: "data_category list"

definition empty_trail :: trail where
  "empty_trail = \<lparr>tr_refs = [], tr_ingested = [], tr_ages = [], tr_issues = [], tr_breached = []\<rparr>"

section \<open>Phase, bound, bookkeeping\<close>

definition session_phase_of :: "instant \<Rightarrow> session_phase" where
  "session_phase_of t =
     (let minutes = micros_of_day t div 3600000000 * 60 + micros_of_day t div 60000000 mod 60 + 330;
          ist = minutes mod 1440;
          weekday = (weekday_of (day_of t) + minutes div 1440) mod 7
      in if 5 \<le> weekday then SESSION_CLOSED
         else if ist < 555 - 15 then SESSION_CLOSED
         else if ist < 555 then PRE_OPEN
         else if ist < 930 then SESSION_OPEN
         else if ist < 930 + 30 then POST_CLOSE
         else SESSION_CLOSED)"

definition bound_for :: "instant \<Rightarrow> instant \<Rightarrow> temporal_bound" where
  "bound_for t k =
     (if k = t then Knowledge_At t else if k < t then Knowledge_At k else Market_Truth_At t k)"

definition age_of :: "instant \<Rightarrow> instant option \<Rightarrow> duration option" where
  "age_of t observed = map_option (\<lambda>o'. t - o') observed"

definition observation_ref :: "observation \<Rightarrow> string" where
  "observation_ref r = kind_word (ob_kind r) @ '':'' @ str_int (ob_instrument_id r) @ '':'' @ iso_instant (ob_observed_at r)"

definition record_input :: "observation option \<Rightarrow> trail \<Rightarrow> trail" where
  "record_input r tr = (case r of
      None \<Rightarrow> tr
    | Some r \<Rightarrow> tr\<lparr>tr_refs := tr_refs tr @ [observation_ref r], tr_ingested := tr_ingested tr @ [ob_ingested_at r]\<rparr>)"

definition add_age :: "duration option \<Rightarrow> trail \<Rightarrow> trail" where
  "add_age a tr = (case a of None \<Rightarrow> tr | Some d \<Rightarrow> tr\<lparr>tr_ages := tr_ages tr @ [d]\<rparr>)"

definition add_issue :: "quality_issue \<Rightarrow> trail \<Rightarrow> trail" where
  "add_issue i tr = tr\<lparr>tr_issues := tr_issues tr @ [i]\<rparr>"

definition breach :: "data_category \<Rightarrow> trail \<Rightarrow> trail" where
  "breach c tr = tr\<lparr>tr_breached := List.insert c (tr_breached tr)\<rparr>"

definition flag_stale ::
  "staleness_policy \<Rightarrow> data_category \<Rightarrow> duration option \<Rightarrow> instant \<Rightarrow> int option \<Rightarrow> trail \<Rightarrow> build_error + trail \<times> bool" where
  "flag_stale p c age t instrument tr = (case age of
      None \<Rightarrow> Inr (tr, False)
    | Some a \<Rightarrow> (case budget_for p c of
        None \<Rightarrow> Inl (No_Budget c)
      | Some b \<Rightarrow>
          if \<not> cbu_max_age b < a then Inr (tr, False)
          else (let tr = add_issue ((plain_issue STALE_PRICE (cbu_severity b) t)\<lparr>qi_instrument_id := instrument\<rparr>) tr
                in Inr (if cbu_drop_on_breach b then tr else breach c tr, True))))"

definition read_latest :: "builder \<Rightarrow> temporal_bound \<Rightarrow> int \<Rightarrow> observation_kind \<Rightarrow> build_error + observation option" where
  "read_latest bd b i k = (case bd_read bd b i k of Inl e \<Rightarrow> Inl (Read_Failed e) | Inr x \<Rightarrow> Inr x)"

definition quote_of :: "observation option \<Rightarrow> quote_body option" where
  "quote_of r = (case r of None \<Rightarrow> None | Some r \<Rightarrow> (case ob_body r of Quote_Body q \<Rightarrow> Some q | _ \<Rightarrow> None))"

definition greeks_of :: "observation option \<Rightarrow> greeks_body option" where
  "greeks_of r = (case r of None \<Rightarrow> None | Some r \<Rightarrow> (case ob_body r of Greeks_Body g \<Rightarrow> Some g | _ \<Rightarrow> None))"

definition index_body_of :: "observation option \<Rightarrow> index_body option" where
  "index_body_of r = (case r of None \<Rightarrow> None | Some r \<Rightarrow> (case ob_body r of Index_Body x \<Rightarrow> Some x | _ \<Rightarrow> None))"

text \<open>\<^verbatim>\<open>x.field if x else None\<close> for a field that is itself optional.\<close>

definition field_of :: "('b \<Rightarrow> 'a option) \<Rightarrow> 'b option \<Rightarrow> 'a option" where
  "field_of f x = Option.bind x f"

section \<open>Components\<close>

definition build_spot ::
  "builder \<Rightarrow> resolved_universe \<Rightarrow> instant \<Rightarrow> temporal_bound \<Rightarrow> trail \<Rightarrow> build_error + trail \<times> spot_view" where
  "build_spot bd u t b tr = (case ru_spot_instrument_id u of
      None \<Rightarrow>
        Inr (breach CAT_SPOT (add_issue ((plain_issue MISSING_OBSERVATION SEV_CRITICAL t)\<lparr>qi_underlying_id := Some (ru_underlying_id u)\<rparr>) tr), no_spot)
    | Some spot \<Rightarrow> bind_result (read_latest bd b spot K_INDEX) (\<lambda>obs. case obs of
        None \<Rightarrow>
          Inr (breach CAT_SPOT (add_issue ((plain_issue MISSING_OBSERVATION SEV_CRITICAL t)\<lparr>qi_instrument_id := Some spot\<rparr>) tr), no_spot)
      | Some r \<Rightarrow>
          let age = age_of t (Some (ob_observed_at r)); x = index_body_of (Some r)
          in bind_result (flag_stale (bd_policy bd) CAT_SPOT age t (Some (ob_instrument_id r)) (add_age age (record_input (Some r) tr)))
            (\<lambda>(tr, stale). Inr (tr, \<lparr>sv_ltp = field_of ix_ltp x, sv_observed_at = Some (ob_observed_at r), sv_age = age,
               sv_prev_close = field_of ix_prev_close x, sv_open = field_of ix_open x, sv_high = field_of ix_high x,
               sv_low = field_of ix_low x, sv_stale = stale\<rparr>))))"

definition build_future ::
  "builder \<Rightarrow> instrument \<Rightarrow> instant \<Rightarrow> temporal_bound \<Rightarrow> trail \<Rightarrow> build_error + trail \<times> futures_leg" where
  "build_future bd c t b tr = bind_result (read_latest bd b (in_id c) K_QUOTE) (\<lambda>obs.
     let q = quote_of obs; observed = map_option ob_observed_at obs; age = age_of t observed
     in bind_result (flag_stale (bd_policy bd) CAT_FUTURES age t (Some (in_id c)) (record_input obs (add_age age tr)))
       (\<lambda>(tr, stale). Inr (tr, \<lparr>fu_instrument_id = in_id c, fu_expiry_id = in_expiry_id c, fu_ltp = field_of qu_ltp q,
          fu_oi = field_of qu_oi q, fu_volume = field_of qu_volume q, fu_observed_at = observed, fu_age = age,
          fu_stale = stale\<rparr>)))"

fun build_each :: "('a \<Rightarrow> trail \<Rightarrow> build_error + trail \<times> 'b) \<Rightarrow> 'a list \<Rightarrow> trail \<Rightarrow> build_error + trail \<times> 'b list" where
  "build_each f [] tr = Inr (tr, [])"
| "build_each f (x # xs) tr = bind_result (f x tr) (\<lambda>(tr, y). bind_result (build_each f xs tr) (\<lambda>(tr, ys). Inr (tr, y # ys)))"

definition build_futures ::
  "builder \<Rightarrow> resolved_universe \<Rightarrow> instant \<Rightarrow> temporal_bound \<Rightarrow> trail \<Rightarrow> build_error + trail \<times> futures_leg list" where
  "build_futures bd u t b = build_each (\<lambda>c. build_future bd c t b) (sort_key in_id (ru_futures u))"

definition build_leg ::
  "builder \<Rightarrow> int \<Rightarrow> instrument \<Rightarrow> instant \<Rightarrow> temporal_bound \<Rightarrow> trail \<Rightarrow> build_error + trail \<times> option_leg option" where
  "build_leg bd expiry c t b tr = bind_result (read_latest bd b (in_id c) K_QUOTE) (\<lambda>qo.
     bind_result (read_latest bd b (in_id c) K_GREEKS) (\<lambda>go.
     if qo = None \<and> go = None then Inr (tr, None)
     else
       let q = quote_of qo; g = greeks_of go;
           quote_at = map_option ob_observed_at qo; greeks_at = map_option ob_observed_at go;
           quote_age = age_of t quote_at; greeks_age = age_of t greeks_at;
           tr = add_age greeks_age (add_age quote_age (record_input go (record_input qo tr)))
       in bind_result (flag_stale (bd_policy bd) CAT_OPTION_QUOTE quote_age t (Some (in_id c)) tr) (\<lambda>(tr, quote_stale).
          bind_result (flag_stale (bd_policy bd) CAT_OPTION_OI quote_age t (Some (in_id c)) tr) (\<lambda>(tr, oi_stale).
          bind_result (flag_stale (bd_policy bd) CAT_GREEKS greeks_age t (Some (in_id c)) tr) (\<lambda>(tr, greeks_stale).
          Inr (tr, Some \<lparr>ol_instrument_id = in_id c, ol_expiry_id = expiry,
            ol_strike = (case in_strike c of None \<Rightarrow> 0 | Some s \<Rightarrow> s),
            ol_option_type = option_word (case in_option_type c of None \<Rightarrow> OPT_CALL | Some o' \<Rightarrow> o'),
            ol_ltp = field_of qu_ltp q, ol_bid = field_of qu_bid q, ol_ask = field_of qu_ask q,
            ol_volume = field_of qu_volume q, ol_oi = field_of qu_oi q, ol_provider_prev_oi = field_of qu_provider_prev_oi q,
            ol_iv = field_of gr_iv g, ol_delta = field_of gr_delta g, ol_gamma = field_of gr_gamma g,
            ol_theta = field_of gr_theta g, ol_vega = field_of gr_vega g,
            ol_quote_observed_at = quote_at, ol_greeks_observed_at = greeks_at,
            ol_quote_age = quote_age, ol_greeks_age = greeks_age,
            ol_quote_stale = quote_stale, ol_oi_stale = oi_stale, ol_greeks_stale = greeks_stale\<rparr>))))))"

section \<open>Surfaces and aggregates\<close>

text \<open>One of the three tables of \<open>_surfaces\<close>: a value per strike for the call and for the put.\<close>

definition surface_put ::
  "(option_leg \<Rightarrow> 'v option) \<Rightarrow> option_leg \<Rightarrow> (rat, 'v option \<times> 'v option) dict \<Rightarrow> (rat, 'v option \<times> 'v option) dict" where
  "surface_put f l d =
     (let (call, put) = (case dict_get d (dval (ol_strike l)) of None \<Rightarrow> (None, None) | Some p \<Rightarrow> p)
      in dict_set (dval (ol_strike l)) (if ol_option_type l = ''CE'' then (f l, put) else (call, f l)) d)"

definition surface_of :: "(option_leg \<Rightarrow> 'v option) \<Rightarrow> option_leg list \<Rightarrow> (rat \<times> 'v option \<times> 'v option) list" where
  "surface_of f legs = sort_key fst (fold (surface_put f) (sort_key (\<lambda>l. (dval (ol_strike l), ol_option_type l)) legs) [])"

definition surfaces_of :: "option_leg list \<Rightarrow> surfaces" where
  "surfaces_of legs = \<lparr>sf_oi = surface_of ol_oi legs, sf_iv = surface_of ol_iv legs, sf_gamma = surface_of ol_gamma legs\<rparr>"

text \<open>A set of decimals keeps the first of those that are equal.\<close>

definition distinct_strikes :: "option_leg list \<Rightarrow> decimal list" where
  "distinct_strikes legs = sort_key dval (fold (\<lambda>l ss. if dval (ol_strike l) \<in> dval ` set ss then ss else ss @ [ol_strike l]) legs [])"

definition nearest_strike :: "decimal list \<Rightarrow> decimal \<Rightarrow> decimal option" where
  "nearest_strike ss spot = (case ss of [] \<Rightarrow> None
      | s # rest \<Rightarrow> Some (foldl (\<lambda>m x. if \<bar>x - spot\<bar> < \<bar>m - spot\<bar> then x else m) s rest))"

definition observed_oi :: "string \<Rightarrow> option_leg list \<Rightarrow> int list" where
  "observed_oi word legs = List.map_filter ol_oi (filter (\<lambda>l. ol_option_type l = word) legs)"

definition sum_observed :: "int list \<Rightarrow> int option" where
  "sum_observed xs = (if xs = [] then None else Some (sum_list xs))"

definition aggregates_of :: "option_leg list \<Rightarrow> decimal option \<Rightarrow> expiry_aggregates" where
  "aggregates_of legs spot = \<lparr>ea_total_call_oi = sum_observed (observed_oi ''CE'' legs),
     ea_total_put_oi = sum_observed (observed_oi ''PE'' legs),
     ea_atm_strike = (case spot of None \<Rightarrow> None | Some s \<Rightarrow> nearest_strike (distinct_strikes legs) s)\<rparr>"

definition coverage_of :: "expiry_slice list \<Rightarrow> rat" where
  "coverage_of slices =
     (let present = sum_list (map (\<lambda>s. int (length (es_legs s))) slices);
          expected = present + sum_list (map es_missing_leg_count slices)
      in if expected = 0 then 1 else int_truediv present expected)"

definition p95 :: "duration list \<Rightarrow> duration option" where
  "p95 ages =
     (if ages = [] then None
      else let ordered = sort ages; last_index = int (length ordered) - 1;
               i = min last_index (round_half_even (rnd53 (rnd53 (95 / 100) * rnd53 (of_int last_index))))
           in Some (ordered ! nat i))"

section \<open>Expiries\<close>

definition contract_order :: "instrument \<Rightarrow> rat \<times> string \<times> int" where
  "contract_order i = (case in_strike i of None \<Rightarrow> 0 | Some s \<Rightarrow> dval s,
     case in_option_type i of None \<Rightarrow> ''None'' | Some o' \<Rightarrow> option_word o', in_id i)"

text \<open>The legs that are present, how many are missing, and how many quotes are newer than the anchor.\<close>

definition merged :: "chain_anchor option \<Rightarrow> option_leg \<Rightarrow> bool" where
  "merged anchor l = (case (anchor, ol_quote_observed_at l) of
      (Some a, Some q) \<Rightarrow> an_observed_at a < q
    | _ \<Rightarrow> False)"

definition spot_hint :: "builder \<Rightarrow> resolved_universe \<Rightarrow> temporal_bound \<Rightarrow> build_error + decimal option" where
  "spot_hint bd u b = (case ru_spot_instrument_id u of
      None \<Rightarrow> Inr None
    | Some spot \<Rightarrow> bind_result (read_latest bd b spot K_INDEX) (\<lambda>obs. Inr (field_of ix_ltp (index_body_of obs))))"

record expiry_progress =
  ep_slices :: "expiry_slice list"
  ep_merge_count :: int
  ep_anchor_at :: "instant option"
  ep_anchor_ref :: "string option"
  ep_anchored_all :: bool

definition build_expiry ::
  "builder \<Rightarrow> resolved_universe \<Rightarrow> instant \<Rightarrow> temporal_bound \<Rightarrow> expiry_universe \<Rightarrow> trail \<times> expiry_progress
   \<Rightarrow> build_error + trail \<times> expiry_progress" where
  "build_expiry bd u t b entry = (\<lambda>(tr, pr).
     let anchor = (case bd_anchors bd of None \<Rightarrow> None | Some f \<Rightarrow> f (ru_underlying_id u) (eu_expiry_id entry) b);
         pr = (case anchor of
             None \<Rightarrow> pr\<lparr>ep_anchored_all := False\<rparr>
           | Some a \<Rightarrow>
               if (case ep_anchor_at pr of None \<Rightarrow> True | Some m \<Rightarrow> m < an_observed_at a)
               then pr\<lparr>ep_anchor_at := Some (an_observed_at a), ep_anchor_ref := Some (an_reference a)\<rparr> else pr)
     in bind_result (build_each (\<lambda>c. build_leg bd (eu_expiry_id entry) c t b) (sort_key contract_order (eu_legs entry)) tr) (\<lambda>(tr, found).
        let legs = List.map_filter id found; missing = int (length (filter (\<lambda>l. l = None) found));
            tr = (if missing = 0 then tr
                  else add_issue ((plain_issue INCOMPLETE_CHAIN SEV_DEGRADED t)\<lparr>qi_underlying_id := Some (ru_underlying_id u)\<rparr>) tr)
        in bind_result (spot_hint bd u b) (\<lambda>spot.
          Inr (tr, pr\<lparr>ep_merge_count := ep_merge_count pr + int (length (filter (merged anchor) legs)),
            ep_slices := ep_slices pr @ [\<lparr>es_expiry_id = eu_expiry_id entry, es_expiry_date = xp_expiry_date (eu_expiry entry),
              es_legs = legs, es_surfaces = surfaces_of legs, es_aggregates = aggregates_of legs spot,
              es_missing_leg_count = missing\<rparr>]\<rparr>))))"

fun fold_result :: "('a \<Rightarrow> 's \<Rightarrow> 'e + 's) \<Rightarrow> 'a list \<Rightarrow> 's \<Rightarrow> 'e + 's" where
  "fold_result f [] s = Inr s"
| "fold_result f (x # xs) s = bind_result (f x s) (fold_result f xs)"

definition build_expiries ::
  "builder \<Rightarrow> resolved_universe \<Rightarrow> instant \<Rightarrow> temporal_bound \<Rightarrow> trail \<Rightarrow> build_error + trail \<times> expiry_progress" where
  "build_expiries bd u t b tr = fold_result (build_expiry bd u t b) (sorted_expiries u)
     (tr, \<lparr>ep_slices = [], ep_merge_count = 0, ep_anchor_at = None, ep_anchor_ref = None, ep_anchored_all = (ru_expiries u \<noteq> [])\<rparr>)"

definition coherence_mode_of ::
  "builder \<Rightarrow> instant option \<Rightarrow> instant \<Rightarrow> bool \<Rightarrow> quality_issue list \<Rightarrow> coherence_mode" where
  "coherence_mode_of bd anchor_at t anchored_all issues =
     (if list_ex (\<lambda>i. qi_type i = WEBSOCKET_GAP \<or> qi_type i = RECONNECT_GAP) issues then RECOVERING
      else case anchor_at of
        None \<Rightarrow> STREAM_ONLY
      | Some a \<Rightarrow> if \<not> anchored_all then STREAM_ONLY
                  else if bd_anchor_max_age bd < t - a then SNAPSHOT_STALE
                  else SNAPSHOT_ANCHORED)"

definition missing_subscribed_expiry :: "resolved_universe \<Rightarrow> expiry_slice list \<Rightarrow> bool" where
  "missing_subscribed_expiry u slices \<longleftrightarrow>
     list_ex (\<lambda>i. i \<notin> set (map es_expiry_id (filter (\<lambda>s. es_legs s \<noteq> []) slices))) (ru_subscribed_expiry_ids u)"

section \<open>Assembly\<close>

text \<open>\<open>max(xs) if xs else None\<close>\<close>

definition max_of :: "int list \<Rightarrow> int option" where
  "max_of xs = (case xs of [] \<Rightarrow> None | x # rest \<Rightarrow> Some (foldl max x rest))"

definition build_state ::
  "(build_context \<Rightarrow> string) \<Rightarrow> builder \<Rightarrow> instant \<Rightarrow> int \<Rightarrow> instant \<Rightarrow> instant option \<Rightarrow> build_error + market_state" where
  "build_state digest bd now underlying t horizon =
     (let k = (case horizon of None \<Rightarrow> t | Some h \<Rightarrow> h); b = bound_for t k; u = bd_resolve bd underlying t
      in bind_result (build_spot bd u t b empty_trail) (\<lambda>(tr, spot).
         bind_result (build_futures bd u t b tr) (\<lambda>(tr, futures).
         bind_result (build_expiries bd u t b tr) (\<lambda>(tr, pr).
         let coverage = coverage_of (ep_slices pr);
             missing_expiry = missing_subscribed_expiry u (ep_slices pr);
             tr = (if missing_expiry
                   then add_issue ((plain_issue INCOMPLETE_CHAIN SEV_CRITICAL t)\<lparr>qi_underlying_id := Some underlying\<rparr>) tr else tr)
         in Inr \<lparr>
           mst_identity = \<lparr>id_underlying_id = underlying, id_market_time = t, id_knowledge_horizon = k,
             id_build_context_id = build_context_id_of digest (bd_context bd)\<rparr>,
           mst_session_phase = session_phase_of t,
           mst_spot = spot,
           mst_futures = futures,
           mst_expiries = ep_slices pr,
           mst_coherence = \<lparr>co_mode = coherence_mode_of bd (ep_anchor_at pr) t (ep_anchored_all pr) (tr_issues tr),
             co_max_component_age = max_of (tr_ages tr), co_chain_snapshot_ref = ep_anchor_ref pr,
             co_ws_merge_count = ep_merge_count pr, co_anchor_observed_at = ep_anchor_at pr\<rparr>,
           mst_quality = \<lparr>q_status = escalate (bd_policy bd) (set (tr_breached tr)) coverage missing_expiry,
             q_coverage_ratio = coverage, q_staleness_p95 = p95 (tr_ages tr), q_issues = tr_issues tr\<rparr>,
           mst_provenance = \<lparr>pr_build_context = bd_context bd, pr_observation_refs = sort (tr_refs tr), pr_assembled_at = now,
             pr_source_kinds = [''observation''], pr_max_input_ingested_at = max_of (tr_ingested tr)\<rparr>,
           mst_session_date = Some (day_of t)\<rparr>))))"

end
