(* ===== verification/State_Assembly.thy ===== *)
theory State_Assembly
  imports State_Builder
begin

text \<open>
  What assembly guarantees, proved once over the read surface \<open>observation_reads\<close> and then applied to the
  in-memory store: everything in a state lies within the market time and the knowledge horizon of its
  identity, the legs of an expiry are all accounted for, and a status that allows signals means a spot
  within its budget.
\<close>

section \<open>Rules for the loops\<close>

lemma build_each_rule:
  assumes "\<And>x tr tr' y. x \<in> set xs \<Longrightarrow> P tr \<Longrightarrow> f x tr = Inr (tr', y) \<Longrightarrow> P tr' \<and> Q x y"
    and "P tr" "build_each f xs tr = Inr (tr', ys)"
  shows "P tr' \<and> list_all2 Q xs ys"
  using assms
proof (induction xs arbitrary: tr tr' ys)
  case (Cons x xs)
  from Cons.prems(3) obtain tr1 y ys' where step: "f x tr = Inr (tr1, y)" "build_each f xs tr1 = Inr (tr', ys')" "ys = y # ys'"
    by (auto simp: bind_result_Inr_iff)
  have "P tr1 \<and> Q x y" using Cons.prems(1) [of x tr tr1 y] Cons.prems(2) step(1) by simp
  moreover from this have "P tr' \<and> list_all2 Q xs ys'" using Cons.IH [OF Cons.prems(1) _ step(2)] by simp
  ultimately show ?case using step(3) by simp
qed simp

text \<open>The same for a loop that collects: what each round adds to a list \<open>rows\<close> of which \<open>P\<close> speaks is shown by its result.\<close>

lemma build_each_collects:
  assumes "\<And>x tr tr' y rows. x \<in> set xs \<Longrightarrow> P rows tr \<Longrightarrow> f x tr = Inr (tr', y) \<Longrightarrow> Q x y \<and> (\<exists>new. P (rows @ new) tr' \<and> map tag new = g y)"
    and "P rows tr" "build_each f xs tr = Inr (tr', ys)"
  shows "list_all2 Q xs ys \<and> (\<exists>new. P (rows @ new) tr' \<and> map tag new = concat (map g ys))"
  using assms
proof (induction xs arbitrary: rows tr tr' ys)
  case Nil
  then show ?case by (auto intro!: exI [of _ "[]"])
next
  case (Cons x xs)
  from Cons.prems(3) obtain tr1 y ys' where step: "f x tr = Inr (tr1, y)" "build_each f xs tr1 = Inr (tr', ys')" "ys = y # ys'"
    by (auto simp: bind_result_Inr_iff)
  from Cons.prems(1) [OF _ Cons.prems(2) step(1)] obtain new1 where
    one: "Q x y" "P (rows @ new1) tr1" "map tag new1 = g y" by auto
  have "list_all2 Q xs ys' \<and> (\<exists>new. P ((rows @ new1) @ new) tr' \<and> map tag new = concat (map g ys'))"
    by (rule Cons.IH [OF _ one(2) step(2)]) (rule Cons.prems(1); simp)
  then obtain new2 where "list_all2 Q xs ys'" "P (rows @ new1 @ new2) tr'" "map tag new2 = concat (map g ys')" by auto
  then show ?case using one(1,3) step(3) by (auto intro!: exI [of _ "new1 @ new2"])
qed

lemma fold_result_rule:
  assumes "\<And>x s s'. x \<in> set xs \<Longrightarrow> P s \<Longrightarrow> f x s = Inr s' \<Longrightarrow> P s'"
    and "P s" "fold_result f xs s = Inr s'"
  shows "P s'"
  using assms by (induction xs arbitrary: s) (auto simp: bind_result_Inr_iff)

lemma build_each_cong:
  "(\<And>x tr. x \<in> set xs \<Longrightarrow> f x tr = g x tr) \<Longrightarrow> build_each f xs tr = build_each g xs tr"
  by (induction xs arbitrary: tr) (simp_all cong: if_cong)

lemma fold_result_cong:
  "(\<And>x s. x \<in> set xs \<Longrightarrow> f x s = g x s) \<Longrightarrow> fold_result f xs s = fold_result g xs s"
proof (induction xs arbitrary: s)
  case (Cons x xs)
  then have "fold_result f xs = fold_result g xs" by auto
  then show ?case using Cons.prems by simp
qed simp

section \<open>The bound\<close>

lemma bound_for_resolves: "\<exists>rb. resolve_bound (Some (bound_for t k)) = Inr rb"
  by (auto simp: bound_for_def resolve_bound_def)

lemma within_bound_for: "\<not> beyond (bound_for t k) r \<Longrightarrow> ob_observed_at r \<le> t \<and> ob_ingested_at r \<le> k"
  by (auto simp: bound_for_def beyond_def split: if_splits)

text \<open>
  The one bound every read of an assembly goes through is the point-in-time rule. It is coherent for
  every pair of times, so no read is refused; for an observation that was not received before it was true
  it admits exactly those true by \<open>T\<close> and received by \<open>K\<close>; and for the others, whose clock ran ahead, it
  admits no more than that.
\<close>

theorem bound_is_point_in_time:
  "is_ok (resolve_bound (Some (bound_for t k)))
   \<and> (\<not> beyond (bound_for t k) r \<longrightarrow> ob_observed_at r \<le> t \<and> ob_ingested_at r \<le> k)
   \<and> (0 \<le> ingestion_lag r \<longrightarrow> (\<not> beyond (bound_for t k) r) = (ob_observed_at r \<le> t \<and> ob_ingested_at r \<le> k))"
  using bound_for_resolves [of t k]
  by (auto simp: is_ok_iff bound_for_def beyond_def ingestion_lag_def split: if_splits)

text \<open>The worked example of the module: true at 11:40, received at 11:44, asked for at 11:45 as known at 11:42 and at 11:45.\<close>

theorem bound_is_point_in_time_witness:
  "beyond (bound_for (seconds 42300) (seconds 42120)) (sample_tick 1 (seconds 42000) (seconds 42240) 1 None)
   \<and> \<not> beyond (bound_for (seconds 42300) (seconds 42300)) (sample_tick 1 (seconds 42000) (seconds 42240) 1 None)"
proof -
  let ?r = "sample_tick 1 (seconds 42000) (seconds 42240) 1 None"
  have lag: "0 \<le> ingestion_lag ?r" by (simp add: ingestion_lag_def sample_tick_def seconds_def)
  have "ob_observed_at ?r = 42000000000" "ob_ingested_at ?r = 42240000000" by (simp_all add: sample_tick_def seconds_def)
  then show ?thesis
    using bound_is_point_in_time [of "seconds 42300" "seconds 42120" ?r] bound_is_point_in_time [of "seconds 42300" "seconds 42300" ?r] lag
    by (simp add: seconds_def)
qed

section \<open>Times and ages\<close>

definition timed :: "instant \<Rightarrow> instant option \<Rightarrow> duration option \<Rightarrow> bool" where
  "timed t observed age \<longleftrightarrow> age = age_of t observed \<and> (case observed of None \<Rightarrow> True | Some o' \<Rightarrow> o' \<le> t)"

definition leg_timed :: "instant \<Rightarrow> option_leg \<Rightarrow> bool" where
  "leg_timed t l \<longleftrightarrow> timed t (ol_quote_observed_at l) (ol_quote_age l) \<and> timed t (ol_greeks_observed_at l) (ol_greeks_age l)
     \<and> (has_quote l \<or> has_greeks l)"

lemma nothing_recorded [simp]: "add_age None tr = tr" "record_input None tr = tr" "age_of t None = None"
  by (simp_all add: add_age_def record_input_def age_of_def)

text \<open>
  The trail, accounted for: it refers to, dates and ages one list of rows, and each of them is what the read
  of an instrument and a kind answered at the bound of the state, true by \<open>T\<close> and received by \<open>K\<close>.
\<close>

type_synonym reader = "temporal_bound \<Rightarrow> int \<Rightarrow> observation_kind \<Rightarrow> read_error + observation option"

definition is_input :: "reader \<Rightarrow> instant \<Rightarrow> instant \<Rightarrow> observation \<Rightarrow> bool" where
  "is_input rd t k r \<longleftrightarrow> ob_observed_at r \<le> t \<and> ob_ingested_at r \<le> k
     \<and> rd (bound_for t k) (ob_instrument_id r) (ob_kind r) = Inr (Some r)"

definition trail_of :: "reader \<Rightarrow> instant \<Rightarrow> instant \<Rightarrow> observation list \<Rightarrow> trail \<Rightarrow> bool" where
  "trail_of rd t k rows tr \<longleftrightarrow> tr_refs tr = map observation_ref rows \<and> tr_ingested tr = map ob_ingested_at rows
     \<and> tr_ages tr = map (\<lambda>r. t - ob_observed_at r) rows \<and> list_all (is_input rd t k) rows"

abbreviation rows_of :: "observation option \<Rightarrow> observation list" where
  "rows_of obs \<equiv> (case obs of None \<Rightarrow> [] | Some r \<Rightarrow> [r])"

lemma trail_of_empty [simp]: "trail_of rd t k [] empty_trail"
  by (simp add: trail_of_def empty_trail_def)

lemma trail_of_keep [simp]:
  "trail_of rd t k rows (add_issue i tr) = trail_of rd t k rows tr" "trail_of rd t k rows (breach c tr) = trail_of rd t k rows tr"
  by (simp_all add: trail_of_def add_issue_def breach_def)

lemma age_recorded_either_way: "add_age a (record_input r tr) = record_input r (add_age a tr)"
  by (cases a; cases r) (simp_all add: add_age_def record_input_def)

lemma trail_of_input:
  assumes "trail_of rd t k rows tr" "\<And>r. obs = Some r \<Longrightarrow> is_input rd t k r"
  shows "trail_of rd t k (rows @ rows_of obs) (record_input obs (add_age (age_of t (map_option ob_observed_at obs)) tr))"
  using assms by (cases obs) (auto simp: trail_of_def record_input_def add_age_def age_of_def)

lemma trail_of_inputs:
  assumes "trail_of rd t k rows tr" "\<And>r. qo = Some r \<Longrightarrow> is_input rd t k r" "\<And>r. go = Some r \<Longrightarrow> is_input rd t k r"
  shows "trail_of rd t k (rows @ rows_of qo @ rows_of go)
    (add_age (age_of t (map_option ob_observed_at go)) (add_age (age_of t (map_option ob_observed_at qo)) (record_input go (record_input qo tr))))"
  using assms by (cases qo; cases go) (auto simp: trail_of_def record_input_def add_age_def age_of_def)

text \<open>The input a row is, and the inputs that the parts of a state show: instrument, kind and market time.\<close>

type_synonym input_tag = "int option \<times> observation_kind \<times> instant"

definition input_tag :: "observation \<Rightarrow> input_tag" where
  "input_tag r = (Some (ob_instrument_id r), ob_kind r, ob_observed_at r)"

definition shown_at :: "int option \<Rightarrow> observation_kind \<Rightarrow> instant option \<Rightarrow> input_tag list" where
  "shown_at i kd seen = (case seen of None \<Rightarrow> [] | Some x \<Rightarrow> [(i, kd, x)])"

definition future_inputs :: "futures_leg \<Rightarrow> input_tag list" where
  "future_inputs f = shown_at (Some (fu_instrument_id f)) K_QUOTE (fu_observed_at f)"

definition leg_inputs :: "option_leg \<Rightarrow> input_tag list" where
  "leg_inputs l = shown_at (Some (ol_instrument_id l)) K_QUOTE (ol_quote_observed_at l)
     @ shown_at (Some (ol_instrument_id l)) K_GREEKS (ol_greeks_observed_at l)"

definition slice_inputs :: "expiry_slice \<Rightarrow> input_tag list" where
  "slice_inputs e = concat (map leg_inputs (es_legs e))"

lemma shown_at_None [simp]: "shown_at i kd None = []"
  by (simp add: shown_at_def)

lemma shown_rows:
  assumes "\<And>r. obs = Some r \<Longrightarrow> ob_instrument_id r = i \<and> ob_kind r = kd"
  shows "map input_tag (rows_of obs) = shown_at (Some i) kd (map_option ob_observed_at obs)"
  using assms by (cases obs) (auto simp: shown_at_def input_tag_def)

lemma flag_stale_cases:
  assumes "flag_stale p c age t i tr = Inr (tr', stale)"
  obtains (fresh) "tr' = tr" "\<not> stale" "age = None \<or> (\<exists>b a. budget_for p c = Some b \<and> age = Some a \<and> a \<le> cbu_max_age b)"
  | (stale) b a where "budget_for p c = Some b" "age = Some a" "cbu_max_age b < a" "stale"
      "tr' = (let x = add_issue ((plain_issue STALE_PRICE (cbu_severity b) t)\<lparr>qi_instrument_id := i\<rparr>) tr
              in if cbu_drop_on_breach b then x else breach c x)"
  using assms by (cases age; cases "budget_for p c") (auto simp: flag_stale_def Let_def split: if_splits)

lemma flag_stale_within: "flag_stale p c age t i tr = Inr (tr', stale) \<Longrightarrow> trail_of rd u k rows tr' = trail_of rd u k rows tr"
  by (erule flag_stale_cases) (auto simp: Let_def)

lemma flag_stale_breached: "flag_stale p c age t i tr = Inr (tr', stale) \<Longrightarrow> set (tr_breached tr) \<subseteq> set (tr_breached tr')"
  by (erule flag_stale_cases) (auto simp: Let_def add_issue_def breach_def)

lemma build_leg_shows:
  assumes "build_leg bd x c t b tr = Inr (tr', l)" "read_latest bd b (in_id c) K_QUOTE = Inr qo"
    "read_latest bd b (in_id c) K_GREEKS = Inr go" "\<not> (qo = None \<and> go = None)"
  shows "\<exists>lg. l = Some lg \<and> ol_instrument_id lg = in_id c
    \<and> ol_quote_observed_at lg = map_option ob_observed_at qo \<and> ol_greeks_observed_at lg = map_option ob_observed_at go
    \<and> ol_quote_age lg = age_of t (map_option ob_observed_at qo) \<and> ol_greeks_age lg = age_of t (map_option ob_observed_at go)
    \<and> (\<forall>ws. trail_of rd u k ws tr' = trail_of rd u k ws (add_age (age_of t (map_option ob_observed_at go))
        (add_age (age_of t (map_option ob_observed_at qo)) (record_input go (record_input qo tr)))))"
proof -
  let ?tr = "add_age (age_of t (map_option ob_observed_at go)) (add_age (age_of t (map_option ob_observed_at qo)) (record_input go (record_input qo tr)))"
  from assms obtain tr1 tr2 qs os gs where flags:
      "flag_stale (bd_policy bd) CAT_OPTION_QUOTE (age_of t (map_option ob_observed_at qo)) t (Some (in_id c)) ?tr = Inr (tr1, qs)"
      "flag_stale (bd_policy bd) CAT_OPTION_OI (age_of t (map_option ob_observed_at qo)) t (Some (in_id c)) tr1 = Inr (tr2, os)"
      "flag_stale (bd_policy bd) CAT_GREEKS (age_of t (map_option ob_observed_at go)) t (Some (in_id c)) tr2 = Inr (tr', gs)"
    and l: "\<exists>lg. l = Some lg \<and> ol_instrument_id lg = in_id c
      \<and> ol_quote_observed_at lg = map_option ob_observed_at qo \<and> ol_greeks_observed_at lg = map_option ob_observed_at go
      \<and> ol_quote_age lg = age_of t (map_option ob_observed_at qo) \<and> ol_greeks_age lg = age_of t (map_option ob_observed_at go)"
    by (auto simp: build_leg_def bind_result_Inr_iff Let_def)
  from flag_stale_within [OF flags(1)] flag_stale_within [OF flags(2)] flag_stale_within [OF flags(3)]
  have "\<forall>ws. trail_of rd u k ws tr' = trail_of rd u k ws ?tr" by metis
  with l show ?thesis by blast
qed

text \<open>Every contract the universe expects of an expiry is a leg of the slice or is counted as missing.\<close>

definition slice_accounts :: "instant \<Rightarrow> expiry_universe \<Rightarrow> expiry_slice \<Rightarrow> bool" where
  "slice_accounts t entry e \<longleftrightarrow> es_expiry_id e = eu_expiry_id entry \<and> es_expiry_date e = xp_expiry_date (eu_expiry entry)
     \<and> list_all (leg_timed t) (es_legs e) \<and> 0 \<le> es_missing_leg_count e
     \<and> int (length (es_legs e)) + es_missing_leg_count e = int (length (eu_legs entry))"

lemma length_found_or_missing: "length (List.map_filter id xs) + length (filter (\<lambda>l. l = None) xs) = length xs"
  by (induction xs) (auto simp: map_filter_def)

lemma set_found: "set (List.map_filter id xs) = {x. Some x \<in> set xs}"
  by (force simp: map_filter_def image_iff)

context observation_reads
begin

lemma read_view:
  assumes "bd_read bd = read" "read_latest bd (bound_for t k) i kd = Inr (Some r)"
  shows "ob_observed_at r \<le> t" "ob_ingested_at r \<le> k" "ob_instrument_id r = i" "ob_kind r = kd"
proof -
  from assms have "read (bound_for t k) i kd = Inr (Some r)" by (simp add: read_latest_def split: sum.splits)
  from read_within [OF this] show "ob_observed_at r \<le> t" "ob_ingested_at r \<le> k" "ob_instrument_id r = i" "ob_kind r = kd"
    using within_bound_for by blast+
qed

lemma read_succeeds:
  assumes "bd_read bd = read"
  shows "\<exists>x. read_latest bd (bound_for t k) i kd = Inr x"
proof -
  obtain rb where "resolve_bound (Some (bound_for t k)) = Inr rb" using bound_for_resolves by blast
  from read_answers [OF this] obtain x where "read (bound_for t k) i kd = Inr x" by blast
  then show ?thesis using assms by (simp add: read_latest_def)
qed

lemma read_option_view:
  assumes "bd_read bd = read" "read_latest bd (bound_for t k) i kd = Inr obs"
  shows "timed t (map_option ob_observed_at obs) (age_of t (map_option ob_observed_at obs))"
    "\<And>r. obs = Some r \<Longrightarrow> is_input read t k r"
    "map input_tag (rows_of obs) = shown_at (Some i) kd (map_option ob_observed_at obs)"
proof -
  note view = read_view [OF assms(1), of t k i kd]
  have same: "read (bound_for t k) i kd = Inr obs" using assms by (simp add: read_latest_def split: sum.splits)
  show "timed t (map_option ob_observed_at obs) (age_of t (map_option ob_observed_at obs))"
    using view assms(2) by (cases obs) (auto simp: timed_def age_of_def)
  show "is_input read t k r" if "obs = Some r" for r
    using view [of r] assms(2) same that by (simp add: is_input_def)
  show "map input_tag (rows_of obs) = shown_at (Some i) kd (map_option ob_observed_at obs)"
    by (rule shown_rows) (use view assms(2) in simp)
qed

lemma build_spot_within:
  assumes "bd_read bd = read" "trail_of read t k rows tr" "build_spot bd u t (bound_for t k) tr = Inr (tr', v)"
  shows "timed t (sv_observed_at v) (sv_age v)
    \<and> (\<exists>new. trail_of read t k (rows @ new) tr' \<and> map input_tag new = shown_at (ru_spot_instrument_id u) K_INDEX (sv_observed_at v))"
proof (cases "ru_spot_instrument_id u")
  case None
  then show ?thesis using assms by (auto simp: build_spot_def no_spot_def timed_def intro!: exI [of _ "[]"])
next
  case (Some spot)
  then obtain obs where obs: "read_latest bd (bound_for t k) spot K_INDEX = Inr obs"
    using assms(3) by (auto simp: build_spot_def bind_result_Inr_iff)
  note view = read_option_view [OF assms(1) obs]
  show ?thesis
  proof (cases obs)
    case None
    then show ?thesis using assms Some obs by (auto simp: build_spot_def no_spot_def timed_def intro!: exI [of _ "[]"])
  next
    case r: (Some r)
    have "trail_of read t k (rows @ [r]) (add_age (age_of t (Some (ob_observed_at r))) (record_input (Some r) tr))"
      using trail_of_input [OF assms(2), of "Some r"] view(2) [OF r] by (simp add: age_recorded_either_way)
    then show ?thesis using assms(3) Some obs r view(1,3)
      by (auto simp: build_spot_def bind_result_Inr_iff Let_def flag_stale_within intro!: exI [of _ "[r]"])
  qed
qed

lemma build_future_within:
  assumes "bd_read bd = read" "trail_of read t k rows tr" "build_future bd c t (bound_for t k) tr = Inr (tr', f)"
  shows "timed t (fu_observed_at f) (fu_age f) \<and> (\<exists>new. trail_of read t k (rows @ new) tr' \<and> map input_tag new = future_inputs f)"
proof -
  from assms(3) obtain obs where obs: "read_latest bd (bound_for t k) (in_id c) K_QUOTE = Inr obs"
    by (auto simp: build_future_def bind_result_Inr_iff)
  note view = read_option_view [OF assms(1) obs]
  have "trail_of read t k (rows @ rows_of obs) (record_input obs (add_age (age_of t (map_option ob_observed_at obs)) tr))"
    by (rule trail_of_input [OF assms(2) view(2)])
  then show ?thesis using assms(3) obs view(1,3)
    by (auto simp: build_future_def bind_result_Inr_iff Let_def flag_stale_within future_inputs_def intro!: exI [of _ "rows_of obs"])
qed

lemma build_leg_within:
  assumes "bd_read bd = read" "trail_of read t k rows tr" "build_leg bd x c t (bound_for t k) tr = Inr (tr', l)"
  shows "(case l of None \<Rightarrow> True | Some l \<Rightarrow> leg_timed t l)
    \<and> (\<exists>new. trail_of read t k (rows @ new) tr' \<and> map input_tag new = (case l of None \<Rightarrow> [] | Some l \<Rightarrow> leg_inputs l))"
proof -
  from assms(3) obtain qo go where q: "read_latest bd (bound_for t k) (in_id c) K_QUOTE = Inr qo"
      and g: "read_latest bd (bound_for t k) (in_id c) K_GREEKS = Inr go"
    by (auto simp: build_leg_def bind_result_Inr_iff)
  note qv = read_option_view [OF assms(1) q] and gv = read_option_view [OF assms(1) g]
  show ?thesis
  proof (cases "qo = None \<and> go = None")
    case True
    then show ?thesis using assms(2,3) q g by (auto simp: build_leg_def intro!: exI [of _ "[]"])
  next
    case False
    have "trail_of read t k (rows @ rows_of qo @ rows_of go) (add_age (age_of t (map_option ob_observed_at go))
        (add_age (age_of t (map_option ob_observed_at qo)) (record_input go (record_input qo tr))))"
      by (rule trail_of_inputs [OF assms(2) qv(2) gv(2)])
    moreover from build_leg_shows [OF assms(3) q g False] obtain lg where l: "l = Some lg" "ol_instrument_id lg = in_id c"
        "ol_quote_observed_at lg = map_option ob_observed_at qo" "ol_greeks_observed_at lg = map_option ob_observed_at go"
        "ol_quote_age lg = age_of t (map_option ob_observed_at qo)" "ol_greeks_age lg = age_of t (map_option ob_observed_at go)"
      and tr': "\<forall>ws. trail_of read t k ws tr' = trail_of read t k ws (add_age (age_of t (map_option ob_observed_at go))
        (add_age (age_of t (map_option ob_observed_at qo)) (record_input go (record_input qo tr))))"
      by blast
    ultimately have "trail_of read t k (rows @ rows_of qo @ rows_of go) tr'" by simp
    moreover have "map input_tag (rows_of qo @ rows_of go) = leg_inputs lg"
      using qv(3) gv(3) by (simp add: leg_inputs_def l)
    moreover have "leg_timed t lg"
      using qv(1) gv(1) False by (auto simp: leg_timed_def l has_quote_def has_greeks_def)
    ultimately show ?thesis using l(1) by auto
  qed
qed

lemma build_futures_within:
  assumes "bd_read bd = read" "trail_of read t k rows tr" "build_futures bd u t (bound_for t k) tr = Inr (tr', fs)"
  shows "list_all2 (\<lambda>c f. timed t (fu_observed_at f) (fu_age f)) (sort_key in_id (ru_futures u)) fs
    \<and> (\<exists>new. trail_of read t k (rows @ new) tr' \<and> map input_tag new = concat (map future_inputs fs))"
  by (rule build_each_collects [where P = "trail_of read t k", OF _ assms(2) assms(3) [unfolded build_futures_def]])
    (rule build_future_within [OF assms(1)])

lemma leg_inputs_found:
  "concat (map (\<lambda>l. case l of None \<Rightarrow> [] | Some l \<Rightarrow> leg_inputs l) found) = concat (map leg_inputs (List.map_filter id found))"
  by (induction found) (auto simp: map_filter_def split: option.split)

lemma build_expiry_within:
  assumes "bd_read bd = read" "trail_of read t k rows tr" "build_expiry bd u t (bound_for t k) entry (tr, pr) = Inr (tr', pr')"
  shows "\<exists>e new. ep_slices pr' = ep_slices pr @ [e] \<and> slice_accounts t entry e
    \<and> trail_of read t k (rows @ new) tr' \<and> map input_tag new = slice_inputs e"
proof -
  let ?legs = "sort_key contract_order (eu_legs entry)"
  from assms(3) obtain tr1 found where each: "build_each (\<lambda>c. build_leg bd (eu_expiry_id entry) c t (bound_for t k)) ?legs tr = Inr (tr1, found)"
    by (auto simp: build_expiry_def Let_def bind_result_Inr_iff)
  have "list_all2 (\<lambda>c l. case l of None \<Rightarrow> True | Some l \<Rightarrow> leg_timed t l) ?legs found
      \<and> (\<exists>new. trail_of read t k (rows @ new) tr1
          \<and> map input_tag new = concat (map (\<lambda>l. case l of None \<Rightarrow> [] | Some l \<Rightarrow> leg_inputs l) found))"
    by (rule build_each_collects [where P = "trail_of read t k", OF _ assms(2) each]) (rule build_leg_within [OF assms(1)])
  then obtain new where tr1: "trail_of read t k (rows @ new) tr1" "map input_tag new = concat (map leg_inputs (List.map_filter id found))"
    and timed: "list_all2 (\<lambda>c l. case l of None \<Rightarrow> True | Some l \<Rightarrow> leg_timed t l) ?legs found"
    unfolding leg_inputs_found by blast
  from timed have legs: "list_all (leg_timed t) (List.map_filter id found)" and len: "length found = length (eu_legs entry)"
    by (auto simp: list_all_iff set_found list_all2_conv_all_nth in_set_conv_nth)
  have "int (length (List.map_filter id found)) + int (length (filter (\<lambda>l. l = None) found)) = int (length (eu_legs entry))"
    using length_found_or_missing [of found] len by linarith
  with assms(3) each tr1 legs show ?thesis
    by (auto simp: build_expiry_def Let_def bind_result_Inr_iff slice_accounts_def slice_inputs_def split: option.splits)
qed

lemma build_expiries_within:
  assumes "bd_read bd = read" "trail_of read t k rows tr" "build_expiries bd u t (bound_for t k) tr = Inr (tr', pr)"
  shows "list_all2 (slice_accounts t) (sorted_expiries u) (ep_slices pr)
    \<and> (\<exists>new. trail_of read t k (rows @ new) tr' \<and> map input_tag new = concat (map slice_inputs (ep_slices pr)))"
proof -
  have steps: "trail_of read t k rows tr \<Longrightarrow> fold_result (build_expiry bd u t (bound_for t k)) es (tr, pr0) = Inr (tr', pr) \<Longrightarrow>
      \<exists>slices new. ep_slices pr = ep_slices pr0 @ slices \<and> list_all2 (slice_accounts t) es slices
        \<and> trail_of read t k (rows @ new) tr' \<and> map input_tag new = concat (map slice_inputs slices)" for es rows tr pr0
  proof (induction es arbitrary: rows tr pr0)
    case Nil
    then show ?case by (auto intro!: exI [of _ "[]"])
  next
    case (Cons entry es)
    from Cons.prems(2) obtain tr1 pr1 where step: "build_expiry bd u t (bound_for t k) entry (tr, pr0) = Inr (tr1, pr1)"
        "fold_result (build_expiry bd u t (bound_for t k)) es (tr1, pr1) = Inr (tr', pr)"
      by (auto simp: bind_result_Inr_iff)
    from build_expiry_within [OF assms(1) Cons.prems(1) step(1)] obtain e new1 where
      e: "ep_slices pr1 = ep_slices pr0 @ [e]" "slice_accounts t entry e"
         "trail_of read t k (rows @ new1) tr1" "map input_tag new1 = slice_inputs e" by blast
    from Cons.IH [OF e(3) step(2)] obtain slices new2 where
      "ep_slices pr = ep_slices pr1 @ slices" "list_all2 (slice_accounts t) es slices"
      "trail_of read t k ((rows @ new1) @ new2) tr'" "map input_tag new2 = concat (map slice_inputs slices)" by blast
    with e show ?case by (auto intro!: exI [of _ "e # slices"] exI [of _ "new1 @ new2"])
  qed
  from steps [OF assms(2) assms(3) [unfolded build_expiries_def]] show ?thesis by auto
qed

end

section \<open>The whole state\<close>

lemma build_state_parts:
  assumes "build_state digest bd now u t h = Inr s"
  obtains tr1 tr2 tr3 pr where
    "build_spot bd (bd_resolve bd u t) t (bound_for t (case h of None \<Rightarrow> t | Some k \<Rightarrow> k)) empty_trail = Inr (tr1, mst_spot s)"
    "build_futures bd (bd_resolve bd u t) t (bound_for t (case h of None \<Rightarrow> t | Some k \<Rightarrow> k)) tr1 = Inr (tr2, mst_futures s)"
    "build_expiries bd (bd_resolve bd u t) t (bound_for t (case h of None \<Rightarrow> t | Some k \<Rightarrow> k)) tr2 = Inr (tr3, pr)"
    "mst_expiries s = ep_slices pr"
    "mst_identity s = \<lparr>id_underlying_id = u, id_market_time = t, id_knowledge_horizon = (case h of None \<Rightarrow> t | Some k \<Rightarrow> k),
       id_build_context_id = build_context_id_of digest (bd_context bd)\<rparr>"
    "co_max_component_age (mst_coherence s) = max_of (tr_ages tr3)"
    "q_staleness_p95 (mst_quality s) = p95 (tr_ages tr3)"
    "pr_max_input_ingested_at (mst_provenance s) = max_of (tr_ingested tr3)"
    "pr_observation_refs (mst_provenance s) = sort (tr_refs tr3)"
    "q_coverage_ratio (mst_quality s) = coverage_of (mst_expiries s)"
    "q_status (mst_quality s) = escalate (bd_policy bd) (set (tr_breached tr3)) (coverage_of (mst_expiries s))
       (missing_subscribed_expiry (bd_resolve bd u t) (mst_expiries s))"
  using assms unfolding build_state_def Let_def
  by (auto simp: bind_result_Inr_iff add_issue_def split: if_splits)

lemma max_of_in: "max_of xs = Some m \<Longrightarrow> m \<in> set xs \<and> (\<forall>x\<in>set xs. x \<le> m)"
proof -
  have "foldl max a xs \<in> insert a (set xs) \<and> (\<forall>x\<in>insert a (set xs). x \<le> foldl max a xs)" for a :: int and xs
  proof (induction xs arbitrary: a)
    case (Cons y ys)
    from Cons.IH [of "max a y"] show ?case by (auto simp: max_def split: if_splits)
  qed simp
  then show "max_of xs = Some m \<Longrightarrow> m \<in> set xs \<and> (\<forall>x\<in>set xs. x \<le> m)" by (auto simp: max_of_def split: list.splits)
qed

lemma rnd53_nonneg: "0 \<le> x \<Longrightarrow> 0 \<le> rnd53 x"
  by (rule flt.nonneg)

lemma p95_None: "p95 ages = None \<longleftrightarrow> ages = []"
  by (simp add: p95_def Let_def)

lemma p95_in: "p95 ages = Some p \<Longrightarrow> p \<in> set ages"
proof -
  assume h: "p95 ages = Some p"
  let ?n = "int (length (sort ages)) - 1"
  let ?r = "round_half_even (rnd53 (rnd53 (95 / 100) * rnd53 (of_int ?n)))"
  have ne: "ages \<noteq> []" using h by (auto simp: p95_def)
  then have "0 < length (sort ages)" by simp
  then have n: "0 \<le> ?n" by linarith
  have "0 \<le> rnd53 (rnd53 (95 / 100) * rnd53 (of_int ?n))"
    by (intro rnd53_nonneg mult_nonneg_nonneg) (simp, simp only: of_int_0_le_iff n)
  then have "round_half_even 0 \<le> ?r" by (rule round_half_even_mono)
  then have "0 \<le> ?r" using round_half_even_of_int [of 0] by simp
  then have "nat (min ?n ?r) < length (sort ages)" using n by linarith
  then have "sort ages ! nat (min ?n ?r) \<in> set (sort ages)" by (rule nth_mem)
  moreover have "p = sort ages ! nat (min ?n ?r)" using h ne by (simp add: p95_def Let_def)
  ultimately show "p \<in> set ages" by simp
qed

text \<open>
  The inputs of a state, as its parts show them, in the order of assembly; and what it means that a list of
  rows is what the state was made of: each is the answer of a read at its bound, true by \<open>T\<close> and received by
  \<open>K\<close>; the parts of the state show exactly these rows; and the references, the latest reception, the worst age
  and the p95 age of the state are those of these rows.
\<close>

definition shown_inputs :: "int option \<Rightarrow> market_state \<Rightarrow> input_tag list" where
  "shown_inputs spot s = shown_at spot K_INDEX (sv_observed_at (mst_spot s)) @ concat (map future_inputs (mst_futures s))
     @ concat (map slice_inputs (mst_expiries s))"

definition made_of :: "reader \<Rightarrow> int option \<Rightarrow> market_state \<Rightarrow> observation list \<Rightarrow> bool" where
  "made_of rd spot s rows \<longleftrightarrow>
     (let t = id_market_time (mst_identity s); k = id_knowledge_horizon (mst_identity s) in
       list_all (is_input rd t k) rows
       \<and> map input_tag rows = shown_inputs spot s
       \<and> pr_observation_refs (mst_provenance s) = sort (map observation_ref rows)
       \<and> pr_max_input_ingested_at (mst_provenance s) = max_of (map ob_ingested_at rows)
       \<and> co_max_component_age (mst_coherence s) = max_of (map (\<lambda>r. t - ob_observed_at r) rows)
       \<and> q_staleness_p95 (mst_quality s) = p95 (map (\<lambda>r. t - ob_observed_at r) rows))"

definition state_within :: "market_state \<Rightarrow> bool" where
  "state_within s \<longleftrightarrow>
     (let t = id_market_time (mst_identity s); k = id_knowledge_horizon (mst_identity s) in
       timed t (sv_observed_at (mst_spot s)) (sv_age (mst_spot s))
       \<and> list_all (\<lambda>f. timed t (fu_observed_at f) (fu_age f)) (mst_futures s)
       \<and> list_all (\<lambda>e. list_all (leg_timed t) (es_legs e)) (mst_expiries s)
       \<and> (case co_max_component_age (mst_coherence s) of
            None \<Rightarrow> q_staleness_p95 (mst_quality s) = None
          | Some a \<Rightarrow> 0 \<le> a \<and> (case q_staleness_p95 (mst_quality s) of None \<Rightarrow> False | Some p \<Rightarrow> 0 \<le> p \<and> p \<le> a))
       \<and> (case pr_max_input_ingested_at (mst_provenance s) of
            None \<Rightarrow> pr_observation_refs (mst_provenance s) = []
          | Some i \<Rightarrow> i \<le> k))"

lemma list_all2_right: "list_all2 (\<lambda>x y. P y) xs ys \<Longrightarrow> list_all P ys"
  by (auto simp: list_all2_conv_all_nth list_all_length)

lemma max_of_None: "max_of xs = None \<longleftrightarrow> xs = []"
  by (auto simp: max_of_def split: list.splits)

lemma ages_summary:
  assumes "\<forall>a\<in>set ages. 0 \<le> a"
  shows "case max_of ages of None \<Rightarrow> p95 ages = None
    | Some a \<Rightarrow> 0 \<le> a \<and> (case p95 ages of None \<Rightarrow> False | Some p \<Rightarrow> 0 \<le> p \<and> p \<le> a)"
proof (cases "max_of ages")
  case None
  then have "ages = []" by (simp add: max_of_None)
  then show ?thesis using None by (simp add: p95_def)
next
  case (Some a)
  note m = max_of_in [OF Some]
  then obtain p where p: "p95 ages = Some p" using p95_None [of ages] by (cases "p95 ages") auto
  then show ?thesis using Some m p95_in [OF p] assms by auto
qed

lemma reception_summary:
  assumes "list_all (is_input rd t k) rows"
  shows "case max_of (map ob_ingested_at rows) of None \<Rightarrow> sort (map observation_ref rows) = [] | Some i \<Rightarrow> i \<le> k"
  using assms max_of_in [of "map ob_ingested_at rows"] max_of_None [of "map ob_ingested_at rows"]
  by (auto simp: list_all_iff is_input_def split: option.split)

context observation_reads
begin

lemma state_within_horizon:
  assumes "bd_read bd = read" "build_state digest bd now u t h = Inr s"
  shows "state_within s \<and> list_all2 (slice_accounts t) (sorted_expiries (bd_resolve bd u t)) (mst_expiries s)
    \<and> (\<exists>rows. made_of read (ru_spot_instrument_id (bd_resolve bd u t)) s rows)
    \<and> mst_identity s = \<lparr>id_underlying_id = u, id_market_time = t, id_knowledge_horizon = (case h of None \<Rightarrow> t | Some k \<Rightarrow> k),
        id_build_context_id = build_context_id_of digest (bd_context bd)\<rparr>"
  using assms(2)
proof (cases rule: build_state_parts)
  case (1 tr1 tr2 tr3 pr)
  let ?k = "case h of None \<Rightarrow> t | Some k \<Rightarrow> k" and ?spot = "ru_spot_instrument_id (bd_resolve bd u t)"
  obtain r1 where spot: "trail_of read t ?k r1 tr1" "timed t (sv_observed_at (mst_spot s)) (sv_age (mst_spot s))"
      "map input_tag r1 = shown_at ?spot K_INDEX (sv_observed_at (mst_spot s))"
    using build_spot_within [OF assms(1) trail_of_empty 1(1)] by auto
  obtain r2 where fut: "trail_of read t ?k (r1 @ r2) tr2" "list_all (\<lambda>f. timed t (fu_observed_at f) (fu_age f)) (mst_futures s)"
      "map input_tag r2 = concat (map future_inputs (mst_futures s))"
    using build_futures_within [OF assms(1) spot(1) 1(2)] list_all2_right by blast
  obtain r3 where exps: "trail_of read t ?k ((r1 @ r2) @ r3) tr3"
      "list_all2 (slice_accounts t) (sorted_expiries (bd_resolve bd u t)) (mst_expiries s)"
      "map input_tag r3 = concat (map slice_inputs (mst_expiries s))"
    using build_expiries_within [OF assms(1) fut(1) 1(3)] 1(4) by auto
  let ?rows = "(r1 @ r2) @ r3" and ?ages = "map (\<lambda>r. t - ob_observed_at r) ((r1 @ r2) @ r3)"
  have shown: "map input_tag ?rows = shown_inputs ?spot s"
    unfolding shown_inputs_def map_append spot(3) fut(3) exps(3) by simp
  have trail: "tr_refs tr3 = map observation_ref ?rows" "tr_ingested tr3 = map ob_ingested_at ?rows" "tr_ages tr3 = ?ages"
      "list_all (is_input read t ?k) ?rows"
    using exps(1) unfolding trail_of_def by blast+
  have made: "made_of read ?spot s ?rows"
    using trail(4) shown unfolding made_of_def Let_def 1(5) 1(6) 1(7) 1(8) 1(9) trail(1-3) by simp
  have legs: "list_all (\<lambda>e. list_all (leg_timed t) (es_legs e)) (mst_expiries s)"
    using exps(2) by (auto simp: list_all2_conv_all_nth list_all_length slice_accounts_def)
  have ages: "\<forall>a\<in>set ?ages. 0 \<le> a" using trail(4) by (auto simp: list_all_iff is_input_def)
  have "state_within s"
    using spot(2) fut(2) legs ages_summary [OF ages] reception_summary [OF trail(4)]
    unfolding state_within_def Let_def 1(5) 1(6) 1(7) 1(8) 1(9) trail(1-3) by (simp split: option.splits)
  then show ?thesis using exps(2) made 1(5) by blast
qed

end

text \<open>A policy that has a budget for every category that is judged.\<close>

definition judges_all :: "staleness_policy \<Rightarrow> bool" where
  "judges_all p \<longleftrightarrow> list_all (\<lambda>c. budget_for p c \<noteq> None) [CAT_SPOT, CAT_FUTURES, CAT_OPTION_QUOTE, CAT_OPTION_OI, CAT_GREEKS]"

lemma judges_all_default: "judges_all default_staleness_policy"
  by (simp add: judges_all_def budget_for_def default_staleness_policy_def plain_budget_def)

lemma is_ok_bind: "is_ok r \<Longrightarrow> (\<And>x. r = Inr x \<Longrightarrow> is_ok (f x)) \<Longrightarrow> is_ok (bind_result r f)"
  by (cases r) auto

lemma is_ok_build_each: "(\<And>x tr. is_ok (f x tr)) \<Longrightarrow> is_ok (build_each f xs tr)"
  by (induction xs arbitrary: tr) (auto intro!: is_ok_bind split: prod.split)

lemma is_ok_fold_result: "(\<And>x s. is_ok (f x s)) \<Longrightarrow> is_ok (fold_result f xs s)"
  by (induction xs arbitrary: s) (auto intro!: is_ok_bind)

lemma is_ok_flag_stale: "budget_for p c \<noteq> None \<Longrightarrow> is_ok (flag_stale p c age t i tr)"
  by (cases age) (auto simp: flag_stale_def Let_def)

context observation_reads
begin

lemma is_ok_read: "bd_read bd = read \<Longrightarrow> is_ok (read_latest bd (bound_for t k) i kd)"
  using read_succeeds by (auto simp: is_ok_iff)

lemma build_state_total:
  assumes "bd_read bd = read" "judges_all (bd_policy bd)"
  shows "is_ok (build_state digest bd now u t h)"
proof -
  have budget: "\<exists>y. budget_for (bd_policy bd) c = Some y" if "c \<in> {CAT_SPOT, CAT_FUTURES, CAT_OPTION_QUOTE, CAT_OPTION_OI, CAT_GREEKS}" for c
    using assms(2) that by (auto simp: judges_all_def)
  note steps = is_ok_bind is_ok_read [OF assms(1)] is_ok_flag_stale is_ok_build_each is_ok_fold_result
  have spot: "is_ok (build_spot bd w t (bound_for t k) tr)" for w k tr
    unfolding build_spot_def Let_def
    by (auto intro!: steps simp: budget split: option.split prod.split)
  have future: "is_ok (build_future bd c t (bound_for t k) tr)" for c k tr
    unfolding build_future_def Let_def
    by (auto intro!: steps simp: budget split: option.split prod.split)
  have leg: "is_ok (build_leg bd x c t (bound_for t k) tr)" for x c k tr
    unfolding build_leg_def Let_def
    by (auto intro!: steps simp: budget split: option.split prod.split if_split)
  have hint: "is_ok (spot_hint bd w (bound_for t k))" for w k
    unfolding spot_hint_def by (auto intro!: steps split: option.split)
  have expiry: "is_ok (build_expiry bd w t (bound_for t k) e x)" for w k e x
    unfolding build_expiry_def Let_def
    by (cases x) (auto intro!: steps leg hint split: option.split prod.split)
  show ?thesis
    unfolding build_state_def build_futures_def build_expiries_def Let_def
    by (auto intro!: is_ok_bind spot future expiry is_ok_build_each is_ok_fold_result split: prod.split)
qed

end

end
