(* ===== verification/State_Guarantees.thy ===== *)
theory State_Guarantees
  imports State_Assembly
begin

text \<open>
  The properties of assembly over the in-memory store: point-in-time correctness (nothing later is seen, and
  everything in the state lies within its horizon), the accounting of coverage, what a usable status promises,
  that assembly always produces a state, and that neither the order of arrival nor the order of the universe
  matters.
\<close>

definition loaded :: "observation list \<Rightarrow> obs_store" where
  "loaded rs = fst (store_append empty_store rs)"

section \<open>A sample market\<close>

text \<open>One underlying with its spot, and one expiry with a call and a put.\<close>

definition sample_contract :: "int \<Rightarrow> option_type \<Rightarrow> instrument" where
  "sample_contract i o' = \<lparr>in_id = i, in_instrument_type = IT_OPTION, in_underlying_id = Some 1, in_expiry_id = Some 5,
     in_strike = Some (Dec 22000 0), in_option_type = Some o'\<rparr>"

definition sample_universe :: resolved_universe where
  "sample_universe = \<lparr>ru_underlying_id = 1, ru_spot_instrument_id = Some 1, ru_futures = [],
     ru_expiries = [\<lparr>eu_expiry = \<lparr>xp_id = 5, xp_underlying_id = 1, xp_expiry_date = 7, xp_expiry_type = EXP_WEEKLY, xp_is_active = True\<rparr>,
       eu_legs = [sample_contract 12 OPT_PUT, sample_contract 11 OPT_CALL]\<rparr>],
     ru_subscribed_expiry_ids = [5]\<rparr>"

definition spot_only :: resolved_universe where
  "spot_only = sample_universe\<lparr>ru_expiries := [], ru_subscribed_expiry_ids := []\<rparr>"

definition sample_builder :: "resolved_universe \<Rightarrow> builder" where
  "sample_builder u = \<lparr>bd_read = store_latest empty_store, bd_resolve = static_resolve [(1, u)], bd_policy = default_staleness_policy,
     bd_anchors = None, bd_anchor_max_age = default_anchor_max_age,
     bd_context = \<lparr>bc_builder_version = ''1.0.0'', bc_staleness_policy_version = ''1.0.0'', bc_feature_set_version = ''1.0.0'',
       bc_configuration_digest = ''cfg''\<rparr>\<rparr>"

definition sample_quote :: "int \<Rightarrow> instant \<Rightarrow> instant \<Rightarrow> int \<Rightarrow> int \<Rightarrow> observation" where
  "sample_quote i observed ingested sequence oi =
     (sample_tick i observed ingested sequence None)\<lparr>ob_body := Quote_Body \<lparr>qu_ltp = Some (Dec 150 0), qu_bid = None, qu_ask = None,
        qu_bid_qty = None, qu_ask_qty = None, qu_volume = None, qu_oi = Some oi, qu_provider_prev_oi = None, qu_prev_close = None\<rparr>\<rparr>"

definition unpriced_tick :: observation where
  "unpriced_tick = (sample_tick 1 0 10 1 None)\<lparr>ob_body := Index_Body \<lparr>ix_ltp = None, ix_prev_close = None, ix_open = None,
     ix_high = None, ix_low = None\<rparr>\<rparr>"

definition sample_feed :: obs_store where
  "sample_feed = loaded [sample_tick 1 0 10 1 None, sample_quote 11 5 12 2 4000]"

definition sample_digest :: "build_context \<Rightarrow> string" where
  "sample_digest c = bc_configuration_digest c"

section \<open>Only the bounded reads matter\<close>

lemma build_state_cong:
  assumes "\<And>i k. read' (bound_for t (case h of None \<Rightarrow> t | Some k \<Rightarrow> k)) i k = bd_read bd (bound_for t (case h of None \<Rightarrow> t | Some k \<Rightarrow> k)) i k"
  shows "build_state digest (bd\<lparr>bd_read := read'\<rparr>) now u t h = build_state digest bd now u t h"
proof -
  let ?b = "bound_for t (case h of None \<Rightarrow> t | Some k \<Rightarrow> k)" and ?bd = "bd\<lparr>bd_read := read'\<rparr>"
  have reads: "read_latest ?bd ?b i k = read_latest bd ?b i k" for i k
    by (simp add: read_latest_def assms)
  have fields: "bd_policy ?bd = bd_policy bd" "bd_resolve ?bd = bd_resolve bd" "bd_anchors ?bd = bd_anchors bd"
    "bd_anchor_max_age ?bd = bd_anchor_max_age bd" "bd_context ?bd = bd_context bd" by simp_all
  have spot: "build_spot ?bd w t ?b tr = build_spot bd w t ?b tr" for w tr
    unfolding build_spot_def reads fields ..
  have future: "build_future ?bd c t ?b tr = build_future bd c t ?b tr" for c tr
    unfolding build_future_def reads fields ..
  have futures: "build_futures ?bd w t ?b tr = build_futures bd w t ?b tr" for w tr
    unfolding build_futures_def future ..
  have legs: "build_leg ?bd x c t ?b tr = build_leg bd x c t ?b tr" for x c tr
    unfolding build_leg_def reads fields ..
  have expiries: "build_expiries ?bd w t ?b tr = build_expiries bd w t ?b tr" for w tr
    unfolding build_expiries_def build_expiry_def spot_hint_def legs reads fields ..
  show ?thesis
    unfolding build_state_def Let_def coherence_mode_of_def fields spot futures expiries ..
qed

definition on_store :: "builder \<Rightarrow> obs_store \<Rightarrow> builder" where
  "on_store bd s = bd\<lparr>bd_read := store_latest s\<rparr>"

lemma beyond_bound_forI: "t < ob_observed_at r \<or> k < ob_ingested_at r \<Longrightarrow> beyond (bound_for t k) r"
  using within_bound_for by fastforce

lemma build_state_append:
  assumes "\<And>r. r \<in> set late \<Longrightarrow> t < ob_observed_at r \<or> (case h of None \<Rightarrow> t | Some k \<Rightarrow> k) < ob_ingested_at r"
  shows "build_state digest (on_store bd (fst (store_append s late))) now u t h = build_state digest (on_store bd s) now u t h"
proof -
  let ?b = "bound_for t (case h of None \<Rightarrow> t | Some k \<Rightarrow> k)"
  have "store_latest (fst (store_append s late)) ?b i k = store_latest s ?b i k" for i k
  proof (cases "resolve_bound (Some ?b)")
    case (Inr rb)
    have "\<not> row_visible rb (Some i) (Some k) r" if "r \<in> set late" for r
      using row_visible_within [OF Inr] beyond_bound_forI [OF assms [OF that]] by blast
    then show ?thesis by (simp add: store_latest_def Inr store_fetch_append_invisible)
  qed (simp add: store_latest_def)
  then show ?thesis
    using build_state_cong [of "store_latest (fst (store_append s late))" t h "on_store bd s" digest now u]
    by (simp add: on_store_def)
qed

text \<open>
  Claim C2: No look-ahead. A state assembled for a market time \<open>T\<close> as known at \<open>K\<close> is the same whether it is
  assembled then or at any later moment: observations appended to the store since, each of them true only
  after \<open>T\<close> or received only after \<open>K\<close>, change nothing in it, down to the references to its inputs.
\<close>

theorem assembly_never_looks_ahead:
  assumes "\<And>r. r \<in> set late \<Longrightarrow> t < ob_observed_at r \<or> (case h of None \<Rightarrow> t | Some k \<Rightarrow> k) < ob_ingested_at r"
  shows "build_state digest (on_store bd (fst (store_append s late))) now u t h = build_state digest (on_store bd s) now u t h"
  using assms by (rule build_state_append)

theorem assembly_never_looks_ahead_witness:
  "build_state sample_digest (on_store (sample_builder sample_universe) (fst (store_append sample_feed [sample_quote 12 5 40 3 900]))) 99 1 30 None
   = build_state sample_digest (on_store (sample_builder sample_universe) sample_feed) 99 1 30 None"
  by (rule assembly_never_looks_ahead) (simp add: sample_quote_def sample_tick_def)

section \<open>Within the horizon\<close>

text \<open>
  Claim C20: Everything in an assembled state lies within its identity, and its summaries are those of its inputs.
  There is a list of rows such that each of them is what the store answers for its instrument and kind at the
  bound of the state, was true by \<open>T\<close> and was received by \<open>K\<close>; the spot, the futures and the quotes and greeks of
  the legs show exactly these rows, in this order and with their market times; the references of the
  provenance are the references of these rows, sorted; the latest reception is the latest of theirs, and
  absent exactly when there is none; the worst age and the p95 age are the greatest and the p95 of their ages,
  each \<open>T\<close> minus the time of a row. Every age shown is \<open>T\<close> minus the time shown and never negative, the p95 is no
  worse than the worst, and a leg that is listed has at least one observation.
\<close>

theorem state_lies_within_its_identity:
  assumes "build_state digest (on_store bd s) now u t h = Inr m"
  shows "(\<exists>rows. made_of (store_latest s) (ru_spot_instrument_id (bd_resolve bd u t)) m rows)
    \<and> state_within m
    \<and> mst_identity m = \<lparr>id_underlying_id = u, id_market_time = t, id_knowledge_horizon = (case h of None \<Rightarrow> t | Some k \<Rightarrow> k),
        id_build_context_id = build_context_id_of digest (bd_context bd)\<rparr>"
  using memory_reads.state_within_horizon [OF _ assms] by (simp add: on_store_def)

lemma sample_judges: "judges_all (bd_policy (sample_builder u))"
  by (simp add: sample_builder_def judges_all_default)

lemma sample_state:
  obtains m where "build_state sample_digest (on_store (sample_builder u) s) 99 1 t h = Inr m"
proof -
  have "is_ok (build_state sample_digest (on_store (sample_builder u) s) 99 1 t h)"
    by (rule memory_reads.build_state_total) (simp_all add: on_store_def sample_judges)
  then show thesis using that by (auto simp: is_ok_iff)
qed

text \<open>At a horizon of 11 the spot row is known, the quote received at 12 is not; at 30 both are.\<close>

lemma sample_receptions:
  "(case build_state sample_digest (on_store (sample_builder sample_universe) sample_feed) 99 1 30 (Some 11) of
      Inl _ \<Rightarrow> False | Inr m \<Rightarrow> pr_max_input_ingested_at (mst_provenance m) = Some 10)"
  "(case build_state sample_digest (on_store (sample_builder sample_universe) sample_feed) 99 1 30 None of
      Inl _ \<Rightarrow> False | Inr m \<Rightarrow> pr_max_input_ingested_at (mst_provenance m) = Some 12)"
  by code_simp+

theorem state_lies_within_its_identity_witness:
  "(\<exists>m rows. build_state sample_digest (on_store (sample_builder sample_universe) sample_feed) 99 1 30 (Some 11) = Inr m
     \<and> made_of (store_latest sample_feed) (Some 1) m rows \<and> max_of (map ob_ingested_at rows) = Some 10 \<and> state_within m)
   \<and> (\<exists>m rows. build_state sample_digest (on_store (sample_builder sample_universe) sample_feed) 99 1 30 None = Inr m
     \<and> made_of (store_latest sample_feed) (Some 1) m rows \<and> max_of (map ob_ingested_at rows) = Some 12 \<and> state_within m)"
proof -
  have spot: "ru_spot_instrument_id (bd_resolve (sample_builder sample_universe) 1 30) = Some 1"
    by (simp add: sample_builder_def static_resolve_def sample_universe_def)
  obtain m where m: "build_state sample_digest (on_store (sample_builder sample_universe) sample_feed) 99 1 30 (Some 11) = Inr m"
    by (rule sample_state)
  obtain n where n: "build_state sample_digest (on_store (sample_builder sample_universe) sample_feed) 99 1 30 None = Inr n"
    by (rule sample_state)
  from state_lies_within_its_identity [OF m] state_lies_within_its_identity [OF n] m n sample_receptions show ?thesis
    by (auto simp: made_of_def Let_def spot)
qed

section \<open>Coverage\<close>

lemma rnd53_one: "rnd53 1 = 1"
  using rnd_sig_int [of 2 53 1] by (simp add: rnd53_def)

lemma int_truediv_unit: "0 \<le> p \<Longrightarrow> p \<le> q \<Longrightarrow> 0 < q \<Longrightarrow> 0 \<le> int_truediv p q \<and> int_truediv p q \<le> 1"
proof -
  assume h: "0 \<le> p" "p \<le> q" "0 < q"
  have "(0 :: rat) \<le> of_int p / of_int q" "(of_int p :: rat) / of_int q \<le> 1" using h by simp_all
  from flt.sandwich [OF this flt.rnd_zero rnd53_one] show ?thesis by (simp add: int_truediv_def)
qed

lemma int_truediv_self: "0 < p \<Longrightarrow> int_truediv p p = 1"
  by (simp add: int_truediv_def rnd53_one)

lemma sum_missing_none: "list_all (\<lambda>e. es_missing_leg_count e = 0) es \<Longrightarrow> sum_list (map es_missing_leg_count es) = 0"
  by (induction es) auto

lemma sum_expected:
  "list_all2 (\<lambda>entry e. es_expiry_id e = eu_expiry_id entry
      \<and> int (length (es_legs e)) + es_missing_leg_count e = int (length (eu_legs entry))) xs es \<Longrightarrow>
   sum_list (map (\<lambda>entry. int (length (eu_legs entry))) xs)
     = sum_list (map (\<lambda>e. int (length (es_legs e))) es) + sum_list (map es_missing_leg_count es)"
  by (induction rule: list_all2_induct) auto

text \<open>
  Claim C32: Coverage is a measurement. The slices of a state are the expiries of the universe at \<open>T\<close>, in the
  order of their dates; in each of them the legs present and the legs counted as missing are together
  exactly the contracts the universe expects; the coverage ratio is the share of the legs present in the
  legs that the universe expects over all expiries, and one where it expects none; so it lies between zero
  and one, and is one when nothing is missing.
\<close>

theorem coverage_accounts_for_every_leg:
  assumes "build_state digest (on_store bd s) now u t h = Inr m"
  shows "list_all2 (\<lambda>entry e. es_expiry_id e = eu_expiry_id entry
            \<and> int (length (es_legs e)) + es_missing_leg_count e = int (length (eu_legs entry)))
          (sorted_expiries (bd_resolve bd u t)) (mst_expiries m)
    \<and> q_coverage_ratio (mst_quality m)
        = (let expected = sum_list (map (\<lambda>entry. int (length (eu_legs entry))) (sorted_expiries (bd_resolve bd u t)))
           in if expected = 0 then 1 else int_truediv (sum_list (map (\<lambda>e. int (length (es_legs e))) (mst_expiries m))) expected)
    \<and> 0 \<le> q_coverage_ratio (mst_quality m) \<and> q_coverage_ratio (mst_quality m) \<le> 1
    \<and> (list_all (\<lambda>e. es_missing_leg_count e = 0) (mst_expiries m) \<longrightarrow> q_coverage_ratio (mst_quality m) = 1)"
proof -
  have slices: "list_all2 (slice_accounts t) (sorted_expiries (bd_resolve bd u t)) (mst_expiries m)"
    using memory_reads.state_within_horizon [OF _ assms] by (simp add: on_store_def)
  have cov: "q_coverage_ratio (mst_quality m) = coverage_of (mst_expiries m)"
    using assms by (rule build_state_parts)
  let ?p = "sum_list (map (\<lambda>e. int (length (es_legs e))) (mst_expiries m))"
  let ?q = "sum_list (map es_missing_leg_count (mst_expiries m))"
  have "0 \<le> es_missing_leg_count e" if "e \<in> set (mst_expiries m)" for e
    using slices that by (auto simp: list_all2_conv_all_nth in_set_conv_nth slice_accounts_def)
  then have q: "0 \<le> ?q" by (intro sum_list_nonneg) auto
  have p: "0 \<le> ?p" by (intro sum_list_nonneg) auto
  have unit: "0 \<le> coverage_of (mst_expiries m) \<and> coverage_of (mst_expiries m) \<le> 1"
    using int_truediv_unit [of ?p "?p + ?q"] p q by (auto simp: coverage_of_def Let_def)
  have "?q = 0" if "list_all (\<lambda>e. es_missing_leg_count e = 0) (mst_expiries m)"
    using that by (rule sum_missing_none)
  then have "list_all (\<lambda>e. es_missing_leg_count e = 0) (mst_expiries m) \<longrightarrow> coverage_of (mst_expiries m) = 1"
    using p by (auto simp: coverage_of_def Let_def int_truediv_self)
  moreover have "list_all2 (\<lambda>entry e. es_expiry_id e = eu_expiry_id entry
            \<and> int (length (es_legs e)) + es_missing_leg_count e = int (length (eu_legs entry)))
          (sorted_expiries (bd_resolve bd u t)) (mst_expiries m)"
    by (rule list_all2_mono [OF slices]) (simp add: slice_accounts_def)
  moreover from this have "sum_list (map (\<lambda>entry. int (length (eu_legs entry))) (sorted_expiries (bd_resolve bd u t))) = ?p + ?q"
    by (rule sum_expected)
  ultimately show ?thesis using unit cov by (simp add: coverage_of_def Let_def)
qed

theorem coverage_accounts_for_every_leg_witness:
  "\<exists>m. build_state sample_digest (on_store (sample_builder sample_universe) sample_feed) 99 1 30 None = Inr m
     \<and> 0 \<le> q_coverage_ratio (mst_quality m) \<and> q_coverage_ratio (mst_quality m) \<le> 1"
proof -
  obtain m where m: "build_state sample_digest (on_store (sample_builder sample_universe) sample_feed) 99 1 30 None = Inr m"
    by (rule sample_state)
  from coverage_accounts_for_every_leg [OF m] m show ?thesis by auto
qed

section \<open>What a usable status promises\<close>

text \<open>A breach, once noted, stays noted.\<close>

lemma breached_keep [simp]:
  "tr_breached (add_issue i tr) = tr_breached tr" "tr_breached (add_age a tr) = tr_breached tr"
  "tr_breached (record_input r tr) = tr_breached tr" "set (tr_breached (breach c tr)) = insert c (set (tr_breached tr))"
  by (auto simp: add_issue_def add_age_def record_input_def breach_def split: option.split)

lemma build_future_breached:
  "build_future bd c t b tr = Inr (tr', f) \<Longrightarrow> set (tr_breached tr) \<subseteq> set (tr_breached tr')"
  by (auto simp: build_future_def bind_result_Inr_iff Let_def dest!: flag_stale_breached)

lemma build_leg_breached:
  "build_leg bd x c t b tr = Inr (tr', l) \<Longrightarrow> set (tr_breached tr) \<subseteq> set (tr_breached tr')"
  by (auto simp: build_leg_def bind_result_Inr_iff Let_def dest!: flag_stale_breached split: if_splits) blast+

lemma build_each_breached:
  assumes "\<And>x tr tr' y. f x tr = Inr (tr', y) \<Longrightarrow> set (tr_breached tr) \<subseteq> set (tr_breached tr')"
    and "build_each f xs tr = Inr (tr', ys)" "c \<in> set (tr_breached tr)"
  shows "c \<in> set (tr_breached tr')"
  using build_each_rule [where P = "\<lambda>tr. c \<in> set (tr_breached tr)" and Q = "\<lambda>_ _. True", OF _ assms(3,2)] assms(1) by blast

lemma build_futures_breached:
  assumes "build_futures bd u t b tr = Inr (tr', fs)" "c \<in> set (tr_breached tr)"
  shows "c \<in> set (tr_breached tr')"
  by (rule build_each_breached [OF _ assms(1) [unfolded build_futures_def] assms(2)]) (rule build_future_breached)

lemma build_expiry_breached:
  assumes "build_expiry bd u t b entry (tr, pr) = Inr (tr', pr')" "c \<in> set (tr_breached tr)"
  shows "c \<in> set (tr_breached tr')"
proof -
  from assms(1) obtain tr1 found where
    each: "build_each (\<lambda>c. build_leg bd (eu_expiry_id entry) c t b) (sort_key contract_order (eu_legs entry)) tr = Inr (tr1, found)"
    and tr': "tr_breached tr' = tr_breached tr1"
    by (auto simp: build_expiry_def Let_def bind_result_Inr_iff split: if_splits)
  then show ?thesis using build_each_breached [OF build_leg_breached each assms(2)] by simp
qed

lemma build_expiries_breached:
  assumes "build_expiries bd u t b tr = Inr (tr', pr)" "c \<in> set (tr_breached tr)"
  shows "c \<in> set (tr_breached tr')"
  using fold_result_rule [where P = "\<lambda>x. c \<in> set (tr_breached (fst x))", OF _ _ assms(1) [unfolded build_expiries_def]]
    build_expiry_breached assms(2) by fastforce

lemma unbreached_spot:
  assumes "build_spot bd u t b tr = Inr (tr', v)" "CAT_SPOT \<notin> set (tr_breached tr')"
    and "budget_for (bd_policy bd) CAT_SPOT = Some bu" "\<not> cbu_drop_on_breach bu"
  shows "\<exists>o'. sv_observed_at v = Some o' \<and> sv_age v = Some (t - o') \<and> t - o' \<le> cbu_max_age bu \<and> \<not> sv_stale v"
proof (cases "ru_spot_instrument_id u")
  case None
  then show ?thesis using assms by (auto simp: build_spot_def)
next
  case (Some spot)
  then obtain obs where obs: "read_latest bd b spot K_INDEX = Inr obs"
    using assms(1) by (auto simp: build_spot_def bind_result_Inr_iff)
  show ?thesis
  proof (cases obs)
    case None
    then show ?thesis using assms Some obs by (auto simp: build_spot_def)
  next
    case r: (Some r)
    then obtain tr2 stale where flag: "flag_stale (bd_policy bd) CAT_SPOT (age_of t (Some (ob_observed_at r))) t (Some (ob_instrument_id r))
        (add_age (age_of t (Some (ob_observed_at r))) (record_input (Some r) tr)) = Inr (tr2, stale)"
      and v: "tr' = tr2" "sv_observed_at v = Some (ob_observed_at r)" "sv_age v = age_of t (Some (ob_observed_at r))" "sv_stale v = stale"
      using assms(1) Some obs by (auto simp: build_spot_def bind_result_Inr_iff Let_def)
    show ?thesis
      using flag
      by (cases rule: flag_stale_cases) (use assms(2-4) v in \<open>auto simp: age_of_def Let_def\<close>)
  qed
qed

text \<open>
  A state whose status allows signals has a spot observation that is within the spot budget and not
  marked stale, covers at least the lower coverage threshold, and has at least one leg of every subscribed
  expiry. It does not promise a spot price: an index observation that carries no price counts as present.
\<close>

theorem usable_status_means_fresh_spot:
  assumes "build_state digest bd now u t h = Inr m" "is_usable_for_signals (mst_quality m)"
    and "budget_for (bd_policy bd) CAT_SPOT = Some b" "\<not> cbu_drop_on_breach b"
  shows "(case sv_age (mst_spot m) of None \<Rightarrow> False | Some a \<Rightarrow> a \<le> cbu_max_age b) \<and> \<not> sv_stale (mst_spot m)
    \<and> sp_coverage_degraded (bd_policy bd) \<le> q_coverage_ratio (mst_quality m)
    \<and> set (ru_subscribed_expiry_ids (bd_resolve bd u t)) \<subseteq> es_expiry_id ` {e \<in> set (mst_expiries m). es_legs e \<noteq> []}"
  using assms(1)
proof (cases rule: build_state_parts)
  case (1 tr1 tr2 tr3 pr)
  from 1(11) assms(2) have ok: "CAT_SPOT \<notin> set (tr_breached tr3)"
      "sp_coverage_degraded (bd_policy bd) \<le> coverage_of (mst_expiries m)"
      "\<not> missing_subscribed_expiry (bd_resolve bd u t) (mst_expiries m)"
    by (auto simp: is_usable_for_signals_def escalate_def split: if_splits)
  have "CAT_SPOT \<notin> set (tr_breached tr1)"
    using ok(1) build_expiries_breached [OF 1(3)] build_futures_breached [OF 1(2)] by blast
  from unbreached_spot [OF 1(1) this assms(3,4)] show ?thesis
    using ok(2,3) 1(10) by (auto simp: missing_subscribed_expiry_def list_ex_iff)
qed

text \<open>The witness is usable and has no spot price.\<close>

lemma unpriced_state:
  "(case build_state sample_digest (on_store (sample_builder spot_only) (loaded [unpriced_tick])) 99 1 30 None of
      Inl _ \<Rightarrow> False
    | Inr m \<Rightarrow> is_usable_for_signals (mst_quality m) \<and> sv_ltp (mst_spot m) = None)"
  by code_simp

theorem usable_status_means_fresh_spot_witness:
  "\<exists>m. build_state sample_digest (on_store (sample_builder spot_only) (loaded [unpriced_tick])) 99 1 30 None = Inr m
     \<and> sv_ltp (mst_spot m) = None \<and> \<not> sv_stale (mst_spot m)"
proof -
  obtain m where m: "build_state sample_digest (on_store (sample_builder spot_only) (loaded [unpriced_tick])) 99 1 30 None = Inr m"
    by (rule sample_state)
  from unpriced_state have u: "is_usable_for_signals (mst_quality m)" "sv_ltp (mst_spot m) = None" by (simp_all add: m)
  have b: "budget_for (bd_policy (on_store (sample_builder spot_only) (loaded [unpriced_tick]))) CAT_SPOT
      = Some ((plain_budget CAT_SPOT 5 QS_UNRELIABLE SEV_CRITICAL)\<lparr>cbu_required := True\<rparr>)"
    by (simp add: on_store_def sample_builder_def budget_for_def default_staleness_policy_def plain_budget_def)
  have "\<not> sv_stale (mst_spot m)"
    using usable_status_means_fresh_spot [OF m u(1) b] by (simp add: plain_budget_def)
  with m u(2) show ?thesis by blast
qed

text \<open>
  Assembly always produces a state. With a budget for each category that is judged, as in the default
  policy, no request for any underlying at any pair of times fails, whatever is in the store and whatever
  the universe is: what is absent is reported in the state, not raised.
\<close>

theorem assembly_always_succeeds:
  assumes "judges_all (bd_policy bd)"
  shows "is_ok (build_state digest (on_store bd s) now u t h)"
  by (rule memory_reads.build_state_total) (use assms in \<open>simp_all add: on_store_def\<close>)

theorem assembly_always_succeeds_witness:
  "is_ok (build_state sample_digest (on_store (sample_builder sample_universe) sample_feed) 99 1 30 None)"
  by (rule assembly_always_succeeds [OF sample_judges])

section \<open>Order of arrival\<close>

lemma sort_key_permutation:
  assumes "mset xs = mset ys" "inj_on f (set xs)"
  shows "sort_key f xs = sort_key f ys"
proof -
  have sorts: "sort (map f zs) = map f (sort_key f zs)" for zs
    by (rule properties_for_sort) simp_all
  have "sort (map f xs) = map f (sort_key f ys)"
    by (rule properties_for_sort) (simp_all add: assms(1))
  then have "map f (sort_key f xs) = map f (sort_key f ys)" by (simp add: sorts)
  moreover have "set (sort_key f xs) \<union> set (sort_key f ys) = set xs" using assms(1) by (auto dest: mset_eq_setD)
  ultimately show ?thesis using assms(2) by (metis inj_on_map_eq_map)
qed

lemma fresh_rows_all: "distinct (map row_key rs) \<Longrightarrow> row_key ` set rs \<inter> seen = {} \<Longrightarrow> fresh_rows seen rs = rs"
  by (induction seen rs rule: fresh_rows.induct) auto

lemma all_rows_loaded: "distinct (map row_key rs) \<Longrightarrow> all_rows (loaded rs) = rs"
  using store_append_rows [OF store_ok_empty, of rs] fresh_rows_all [of rs "{}"]
  by (simp add: loaded_def empty_store_def all_rows_def)

lemma map_snd_store_fetch:
  "map snd (store_fetch s i k b) = sort_key (\<lambda>r. (ob_observed_at r, dedup_key (ob_identity r))) (filter (row_visible b i k) (all_rows s))"
proof -
  have "map snd (sort_key (g \<circ> snd) zs) = sort_key g (map snd zs)" for g :: "observation \<Rightarrow> instant \<times> string list" and zs :: "(int \<times> observation) list"
  proof (induction zs)
    case (Cons z zs)
    have "map snd (insort_key (g \<circ> snd) z ws) = insort_key g (snd z) (map snd ws)" for ws
      by (induction ws) auto
    then show ?case using Cons.IH by (simp add: comp_def)
  qed simp
  from this [of "\<lambda>r. (ob_observed_at r, dedup_key (ob_identity r))"] show ?thesis
    by (simp add: store_fetch_def row_order_def [abs_def] comp_def filter_map all_rows_def)
qed

lemma latest_in_uncorrected:
  assumes "\<And>e. e \<in> set rows \<Longrightarrow> ob_supersedes (snd e) = None"
  shows "latest_in rows = (if rows = [] then None else Some (last (map snd rows)))"
proof -
  have "live_rows rows = rows" using assms by (auto simp: live_rows_def Let_def superseded_set intro!: filter_True)
  then show ?thesis by (cases rows) (simp_all add: latest_in_def last_map)
qed

text \<open>
  The order in which observations arrived cannot change a state. For observations with distinct
  identities and no corrections among them, two stores that received them in different orders give the same
  state for every underlying and every pair of times.
\<close>

theorem arrival_order_is_irrelevant:
  assumes "mset xs = mset ys" "distinct (map row_key xs)" "\<And>r. r \<in> set xs \<Longrightarrow> ob_supersedes r = None"
  shows "build_state digest (on_store bd (loaded xs)) now u t h = build_state digest (on_store bd (loaded ys)) now u t h"
proof -
  have ys: "distinct (map row_key ys)" using assms(1,2) by (metis mset_eq_imp_distinct_iff mset_map)
  have rows: "all_rows (loaded xs) = xs" "all_rows (loaded ys) = ys" using assms(2) ys by (simp_all add: all_rows_loaded)
  let ?ord = "\<lambda>r. (ob_observed_at r, dedup_key (ob_identity r))"
  have inj: "inj_on ?ord (set (filter (row_visible rb (Some i) (Some k)) xs))" for rb i k
  proof (rule inj_onI)
    fix a b
    assume h: "a \<in> set (filter (row_visible rb (Some i) (Some k)) xs)" "b \<in> set (filter (row_visible rb (Some i) (Some k)) xs)" "?ord a = ?ord b"
    then have "row_key a = row_key b" by (auto simp: row_key_def row_visible_def)
    then show "a = b" using h(1,2) assms(2) by (auto simp: distinct_map dest: inj_onD)
  qed
  have fetch: "map snd (store_fetch (loaded xs) (Some i) (Some k) rb) = map snd (store_fetch (loaded ys) (Some i) (Some k) rb)" for i k rb
    unfolding map_snd_store_fetch rows by (rule sort_key_permutation [OF _ inj]) (simp add: assms(1) mset_filter)
  have none: "ob_supersedes (snd e) = None" if "e \<in> set (store_fetch (loaded zs) i k rb)" "zs = xs \<or> zs = ys" for e zs i k rb
  proof -
    have "snd e \<in> set (all_rows (loaded zs))" using that(1) by (auto simp: store_fetch_set all_rows_def)
    then have "snd e \<in> set xs" using that(2) rows assms(1) by (auto dest: mset_eq_setD)
    then show ?thesis by (rule assms(3))
  qed
  have "store_latest (loaded xs) b i k = store_latest (loaded ys) b i k" for b i k
  proof (cases "resolve_bound (Some b)")
    case (Inr rb)
    have "latest_in (store_fetch (loaded xs) (Some i) (Some k) rb) = latest_in (store_fetch (loaded ys) (Some i) (Some k) rb)"
      using fetch [of i k rb] none [of _ xs] none [of _ ys] by (metis latest_in_uncorrected map_is_Nil_conv)
    then show ?thesis by (simp add: store_latest_def Inr)
  qed (simp add: store_latest_def)
  then show ?thesis
    using build_state_cong [of "store_latest (loaded xs)" t h "on_store bd (loaded ys)" digest now u] by (simp add: on_store_def)
qed

theorem arrival_order_is_irrelevant_witness:
  "build_state sample_digest (on_store (sample_builder sample_universe) (loaded [sample_tick 1 0 10 1 None, sample_quote 11 5 12 2 4000])) 99 1 30 None
   = build_state sample_digest (on_store (sample_builder sample_universe) (loaded [sample_quote 11 5 12 2 4000, sample_tick 1 0 10 1 None])) 99 1 30 None"
proof (rule arrival_order_is_irrelevant)
  show "distinct (map row_key [sample_tick 1 0 10 1 None, sample_quote 11 5 12 2 4000])" by code_simp
qed (auto simp: sample_quote_def sample_tick_def)

end
