(* ===== verification/Checkpoints.thy ===== *)
theory Checkpoints
  imports State_Guarantees
begin

text \<open>
  \<^verbatim>\<open>oipulse/marketstate/checkpoints.py\<close>: materialised states, their store with exact-match lookup, and the
  service that answers a request from a checkpoint or by assembly. The specification is the service without
  any checkpoint; the refinement theorem says that checkpoints are invisible to those who ask, as long as the
  knowledge horizons asked for are settled. \<open>digest\<close> is the hash of a build context, \<open>hash\<close> that of the
  comparable content of a state.
\<close>

section \<open>Checkpoints and their store\<close>

datatype checkpoint_trigger = CADENCE | CHAIN_SNAPSHOT | SESSION_BOUNDARY | QUALITY_TRANSITION | MANUAL

record checkpoint =
  cp_state :: market_state
  cp_trigger :: checkpoint_trigger
  cp_built_at :: instant

definition cp_identity :: "checkpoint \<Rightarrow> state_identity" where
  "cp_identity c = mst_identity (cp_state c)"

type_synonym identity_key = "int \<times> string \<times> string \<times> string"

definition as_key :: "state_identity \<Rightarrow> identity_key" where
  "as_key i = (id_underlying_id i, iso_instant (id_market_time i), iso_instant (id_knowledge_horizon i), id_build_context_id i)"

type_synonym context_digest = "build_context \<Rightarrow> string"

type_synonym state_digest = "state_content \<Rightarrow> string"

definition cp_content_digest :: "context_digest \<Rightarrow> state_digest \<Rightarrow> checkpoint \<Rightarrow> string" where
  "cp_content_digest digest hash c = hash (as_comparable digest (cp_state c))"

record checkpoint_store =
  cs_by_identity :: "(identity_key, checkpoint) dict"
  cs_skipped :: int

definition no_checkpoints :: checkpoint_store where
  "no_checkpoints = \<lparr>cs_by_identity = [], cs_skipped = 0\<rparr>"

definition checkpoint_get :: "checkpoint_store \<Rightarrow> state_identity \<Rightarrow> checkpoint option" where
  "checkpoint_get cs i = dict_get (cs_by_identity cs) (as_key i)"

definition checkpoint_put ::
  "context_digest \<Rightarrow> state_digest \<Rightarrow> checkpoint_store \<Rightarrow> checkpoint \<Rightarrow> checkpoint_store \<times> bool" where
  "checkpoint_put digest hash cs c =
     (let key = as_key (cp_identity c)
      in if (case dict_get (cs_by_identity cs) key of
               None \<Rightarrow> False
             | Some e \<Rightarrow> cp_content_digest digest hash e = cp_content_digest digest hash c)
         then (cs\<lparr>cs_skipped := cs_skipped cs + 1\<rparr>, False)
         else (cs\<lparr>cs_by_identity := dict_set key c (cs_by_identity cs)\<rparr>, True))"

definition checkpoint_count :: "checkpoint_store \<Rightarrow> int" where
  "checkpoint_count cs = int (length (cs_by_identity cs))"

definition all_checkpoints :: "checkpoint_store \<Rightarrow> checkpoint list" where
  "all_checkpoints cs = sorted_values (cs_by_identity cs)"

section \<open>The service\<close>

record state_service =
  ss_store :: "checkpoint_store option"
  ss_cache :: bool
  ss_reused :: int
  ss_reconstructed :: int

datatype service_error = No_Checkpoint_Store | Build_Failed build_error

definition manual_checkpoint :: "market_state \<Rightarrow> checkpoint_trigger \<Rightarrow> checkpoint" where
  "manual_checkpoint m trigger = \<lparr>cp_state = m, cp_trigger = trigger, cp_built_at = pr_assembled_at (mst_provenance m)\<rparr>"

definition get_state ::
  "context_digest \<Rightarrow> state_digest \<Rightarrow> builder \<Rightarrow> instant \<Rightarrow> int \<Rightarrow> instant \<Rightarrow> instant option \<Rightarrow> state_service
   \<Rightarrow> state_service \<times> (service_error + market_state)" where
  "get_state digest hash bd now u t h svc =
     (let k = (case h of None \<Rightarrow> t | Some k \<Rightarrow> k);
          i = \<lparr>id_underlying_id = u, id_market_time = t, id_knowledge_horizon = k,
               id_build_context_id = build_context_id_of digest (bd_context bd)\<rparr>
      in case (case ss_store svc of None \<Rightarrow> None | Some cs \<Rightarrow> checkpoint_get cs i) of
        Some c \<Rightarrow> (svc\<lparr>ss_reused := ss_reused svc + 1\<rparr>, Inr (cp_state c))
      | None \<Rightarrow>
          (case build_state digest bd now u t (Some k) of
             Inl e \<Rightarrow> (svc, Inl (Build_Failed e))
           | Inr m \<Rightarrow>
               (let svc = svc\<lparr>ss_reconstructed := ss_reconstructed svc + 1\<rparr>
                in (if ss_cache svc
                    then svc\<lparr>ss_store := map_option (\<lambda>cs. fst (checkpoint_put digest hash cs (manual_checkpoint m MANUAL))) (ss_store svc)\<rparr>
                    else svc, Inr m))))"

definition take_checkpoint ::
  "context_digest \<Rightarrow> state_digest \<Rightarrow> builder \<Rightarrow> instant \<Rightarrow> int \<Rightarrow> instant \<Rightarrow> instant option \<Rightarrow> checkpoint_trigger
   \<Rightarrow> state_service \<Rightarrow> state_service \<times> (service_error + checkpoint)" where
  "take_checkpoint digest hash bd now u t h trigger svc = (case ss_store svc of
      None \<Rightarrow> (svc, Inl No_Checkpoint_Store)
    | Some cs \<Rightarrow>
        (case build_state digest bd now u t h of
           Inl e \<Rightarrow> (svc, Inl (Build_Failed e))
         | Inr m \<Rightarrow>
             (let c = manual_checkpoint m trigger
              in (svc\<lparr>ss_store := Some (fst (checkpoint_put digest hash cs c))\<rparr>, Inr c))))"

section \<open>Runs of the service and of its specification\<close>

text \<open>What happens around the service: observations arrive, states are asked for, checkpoints are taken.\<close>

datatype service_step =
    Ingest "observation list"
  | Get_State int instant "instant option" instant
  | Take_Checkpoint int instant "instant option" checkpoint_trigger instant

datatype service_reply =
    Ingested write_result
  | State_Reply "service_error + market_state"
  | Checkpoint_Reply "service_error + checkpoint"

fun service_run ::
  "context_digest \<Rightarrow> state_digest \<Rightarrow> builder \<Rightarrow> obs_store \<times> state_service \<Rightarrow> service_step list \<Rightarrow> service_reply list" where
  "service_run digest hash bd (obs, svc) [] = []"
| "service_run digest hash bd (obs, svc) (Ingest rs # steps) =
     (case store_append obs rs of (obs', w) \<Rightarrow> Ingested w # service_run digest hash bd (obs', svc) steps)"
| "service_run digest hash bd (obs, svc) (Get_State u t h now # steps) =
     (case get_state digest hash (on_store bd obs) now u t h svc of
        (svc', r) \<Rightarrow> State_Reply r # service_run digest hash bd (obs, svc') steps)"
| "service_run digest hash bd (obs, svc) (Take_Checkpoint u t h trigger now # steps) =
     (case take_checkpoint digest hash (on_store bd obs) now u t h trigger svc of
        (svc', r) \<Rightarrow> Checkpoint_Reply r # service_run digest hash bd (obs, svc') steps)"

text \<open>The specification: every request is answered by assembling the state from the observations.\<close>

definition assembled :: "build_error + market_state \<Rightarrow> service_error + market_state" where
  "assembled r = (case r of Inl e \<Rightarrow> Inl (Build_Failed e) | Inr m \<Rightarrow> Inr m)"

fun direct_run ::
  "context_digest \<Rightarrow> builder \<Rightarrow> bool \<Rightarrow> obs_store \<Rightarrow> service_step list \<Rightarrow> service_reply list" where
  "direct_run digest bd stores obs [] = []"
| "direct_run digest bd stores obs (Ingest rs # steps) =
     (case store_append obs rs of (obs', w) \<Rightarrow> Ingested w # direct_run digest bd stores obs' steps)"
| "direct_run digest bd stores obs (Get_State u t h now # steps) =
     State_Reply (assembled (build_state digest (on_store bd obs) now u t h)) # direct_run digest bd stores obs steps"
| "direct_run digest bd stores obs (Take_Checkpoint u t h trigger now # steps) =
     Checkpoint_Reply (if \<not> stores then Inl No_Checkpoint_Store
        else map_sum id (\<lambda>m. manual_checkpoint m trigger) (assembled (build_state digest (on_store bd obs) now u t h)))
     # direct_run digest bd stores obs steps"

text \<open>
  Replies are compared by what the content digest covers, so not by the moment of assembly.
\<close>

type_synonym reply_content =
  "write_result option \<times> (service_error + state_content) option \<times> (service_error + state_content \<times> checkpoint_trigger) option"

fun reply_content :: "context_digest \<Rightarrow> service_reply \<Rightarrow> reply_content" where
  "reply_content digest (Ingested w) = (Some w, None, None)"
| "reply_content digest (State_Reply r) = (None, Some (map_sum id (as_comparable digest) r), None)"
| "reply_content digest (Checkpoint_Reply r) =
     (None, None, Some (map_sum id (\<lambda>c. (as_comparable digest (cp_state c), cp_trigger c)) r))"

text \<open>
  A run is settled when no observation arrives behind a pair of times that was asked for before, and the
  times asked for are dates the calendar has.
\<close>

fun settled_run :: "(instant \<times> instant) list \<Rightarrow> service_step list \<Rightarrow> bool" where
  "settled_run asked [] \<longleftrightarrow> True"
| "settled_run asked (Ingest rs # steps) \<longleftrightarrow>
     list_all (\<lambda>r. list_all (\<lambda>(t, k). t < ob_observed_at r \<or> k < ob_ingested_at r) asked) rs \<and> settled_run asked steps"
| "settled_run asked (Get_State u t h now # steps) \<longleftrightarrow>
     datetime_ok t \<and> datetime_ok (case h of None \<Rightarrow> t | Some k \<Rightarrow> k) \<and> settled_run ((t, case h of None \<Rightarrow> t | Some k \<Rightarrow> k) # asked) steps"
| "settled_run asked (Take_Checkpoint u t h trigger now # steps) \<longleftrightarrow>
     datetime_ok t \<and> datetime_ok (case h of None \<Rightarrow> t | Some k \<Rightarrow> k) \<and> settled_run ((t, case h of None \<Rightarrow> t | Some k \<Rightarrow> k) # asked) steps"

section \<open>Refinement\<close>

lemma as_key_inject:
  assumes "datetime_ok (id_market_time i)" "datetime_ok (id_knowledge_horizon i)"
    and "datetime_ok (id_market_time j)" "datetime_ok (id_knowledge_horizon j)"
  shows "as_key i = as_key j \<longleftrightarrow> i = j"
  using assms by (cases i; cases j) (auto simp: as_key_def dest: iso_instant_inject)

lemma bind_result_map: "map_sum id g (bind_result r f) = bind_result r (\<lambda>x. map_sum id g (f x))"
  by (cases r) simp_all

lemma bind_result_congI: "(\<And>x. r = Inr x \<Longrightarrow> f x = g x) \<Longrightarrow> bind_result r f = bind_result r g"
  by (cases r) simp_all

text \<open>Assembly at another moment differs only in the moment recorded.\<close>

lemma build_state_now:
  "map_sum id (as_comparable digest) (build_state digest bd now u t h) = map_sum id (as_comparable digest) (build_state digest bd now' u t h)"
proof -
  have "build_state digest bd now u t h = map_sum id (\<lambda>m. m\<lparr>mst_provenance := (mst_provenance m)\<lparr>pr_assembled_at := now\<rparr>\<rparr>) (build_state digest bd now' u t h)"
    unfolding build_state_def Let_def bind_result_map
    by (intro bind_result_congI) (auto simp: bind_result_map intro!: bind_result_congI split: prod.split)
  then show ?thesis
    by (cases "build_state digest bd now' u t h") (simp_all add: as_comparable_def Let_def)
qed

text \<open>
  The invariant: every checkpoint that is stored has the content that assembly gives now for the identity
  under whose key it is stored, and that identity was asked for.
\<close>

definition cached_ok :: "context_digest \<Rightarrow> builder \<Rightarrow> obs_store \<Rightarrow> (instant \<times> instant) list \<Rightarrow> checkpoint_store \<Rightarrow> bool" where
  "cached_ok digest bd obs asked cs \<longleftrightarrow> (\<forall>key c. dict_get (cs_by_identity cs) key = Some c \<longrightarrow>
     (\<exists>u t k. key = as_key \<lparr>id_underlying_id = u, id_market_time = t, id_knowledge_horizon = k,
                id_build_context_id = build_context_id_of digest (bd_context bd)\<rparr>
        \<and> datetime_ok t \<and> datetime_ok k \<and> (t, k) \<in> set asked
        \<and> map_sum id (as_comparable digest) (build_state digest (on_store bd obs) 0 u t (Some k)) = Inr (as_comparable digest (cp_state c))))"

definition service_ok ::
  "context_digest \<Rightarrow> builder \<Rightarrow> obs_store \<Rightarrow> (instant \<times> instant) list \<Rightarrow> state_service \<Rightarrow> bool" where
  "service_ok digest bd obs asked svc \<longleftrightarrow> (case ss_store svc of None \<Rightarrow> True | Some cs \<Rightarrow> cached_ok digest bd obs asked cs)"

lemma cached_ok_ingest:
  assumes "cached_ok digest bd obs asked cs" "\<And>r t k. r \<in> set rs \<Longrightarrow> (t, k) \<in> set asked \<Longrightarrow> t < ob_observed_at r \<or> k < ob_ingested_at r"
  shows "cached_ok digest bd (fst (store_append obs rs)) asked cs"
proof -
  have same: "build_state digest (on_store bd (fst (store_append obs rs))) 0 u t (Some k) = build_state digest (on_store bd obs) 0 u t (Some k)"
    if "(t, k) \<in> set asked" for u t k
    by (rule build_state_append) (use assms(2) that in auto)
  show ?thesis unfolding cached_ok_def
  proof (intro allI impI)
    fix key c
    assume "dict_get (cs_by_identity cs) key = Some c"
    then show "\<exists>u t k. key = as_key \<lparr>id_underlying_id = u, id_market_time = t, id_knowledge_horizon = k,
          id_build_context_id = build_context_id_of digest (bd_context bd)\<rparr>
        \<and> datetime_ok t \<and> datetime_ok k \<and> (t, k) \<in> set asked
        \<and> map_sum id (as_comparable digest) (build_state digest (on_store bd (fst (store_append obs rs))) 0 u t (Some k)) = Inr (as_comparable digest (cp_state c))"
      using assms(1) same unfolding cached_ok_def by metis
  qed
qed

lemma cached_ok_more: "cached_ok digest bd obs asked cs \<Longrightarrow> cached_ok digest bd obs (x # asked) cs"
  unfolding cached_ok_def by (meson list.set_intros(2))

lemma on_store_context [simp]: "bd_context (on_store bd obs) = bd_context bd"
  by (simp add: on_store_def)

lemma cached_ok_put:
  assumes "cached_ok digest bd obs asked cs" "(t, k) \<in> set asked" "datetime_ok t" "datetime_ok k"
    and "build_state digest (on_store bd obs) now u t (Some k) = Inr m" "cp_state c = m"
  shows "cached_ok digest bd obs asked (fst (checkpoint_put digest hash cs c))"
proof -
  have i: "cp_identity c = \<lparr>id_underlying_id = u, id_market_time = t, id_knowledge_horizon = k,
      id_build_context_id = build_context_id_of digest (bd_context bd)\<rparr>"
    using assms(5,6) by (auto simp: cp_identity_def elim: build_state_parts)
  have "map_sum id (as_comparable digest) (build_state digest (on_store bd obs) 0 u t (Some k)) = Inr (as_comparable digest (cp_state c))"
    using build_state_now [of digest "on_store bd obs" 0 u t "Some k" now] assms(5,6) by simp
  then have new: "\<exists>u t k. as_key (cp_identity c) = as_key \<lparr>id_underlying_id = u, id_market_time = t, id_knowledge_horizon = k,
          id_build_context_id = build_context_id_of digest (bd_context bd)\<rparr>
        \<and> datetime_ok t \<and> datetime_ok k \<and> (t, k) \<in> set asked
        \<and> map_sum id (as_comparable digest) (build_state digest (on_store bd obs) 0 u t (Some k)) = Inr (as_comparable digest (cp_state c))"
    unfolding i using assms(2-4) by blast
  show ?thesis using assms(1) new
    unfolding cached_ok_def checkpoint_put_def Let_def by (auto split: if_splits)
qed

lemma get_state_refines:
  assumes "service_ok digest bd obs asked svc" "datetime_ok t" "datetime_ok (case h of None \<Rightarrow> t | Some k \<Rightarrow> k)"
    and "get_state digest hash (on_store bd obs) now u t h svc = (svc', r)"
  shows "service_ok digest bd obs ((t, case h of None \<Rightarrow> t | Some k \<Rightarrow> k) # asked) svc'
    \<and> map_sum id (as_comparable digest) r = map_sum id (as_comparable digest) (assembled (build_state digest (on_store bd obs) now u t h))
    \<and> (ss_store svc' = None) = (ss_store svc = None)"
proof -
  let ?k = "case h of None \<Rightarrow> t | Some k \<Rightarrow> k"
  let ?i = "\<lparr>id_underlying_id = u, id_market_time = t, id_knowledge_horizon = ?k, id_build_context_id = build_context_id_of digest (bd_context bd)\<rparr>"
  have default: "build_state digest (on_store bd obs) now u t h = build_state digest (on_store bd obs) now u t (Some ?k)"
    by (simp add: build_state_def split: option.split)
  have keep: "service_ok digest bd obs ((t, ?k) # asked) svc"
    using assms(1) by (auto simp: service_ok_def cached_ok_more split: option.splits)
  show ?thesis
  proof (cases "case ss_store svc of None \<Rightarrow> None | Some cs \<Rightarrow> checkpoint_get cs ?i")
    case (Some c)
    then obtain cs where cs: "ss_store svc = Some cs" "dict_get (cs_by_identity cs) (as_key ?i) = Some c"
      by (auto simp: checkpoint_get_def split: option.splits)
    from assms(1) cs(1) have "cached_ok digest bd obs asked cs" by (simp add: service_ok_def)
    then obtain u' t' k' where e: "as_key ?i = as_key \<lparr>id_underlying_id = u', id_market_time = t', id_knowledge_horizon = k',
            id_build_context_id = build_context_id_of digest (bd_context bd)\<rparr>"
        "datetime_ok t'" "datetime_ok k'"
        "map_sum id (as_comparable digest) (build_state digest (on_store bd obs) 0 u' t' (Some k')) = Inr (as_comparable digest (cp_state c))"
      using cs(2) unfolding cached_ok_def by blast
    from e(1) have "u' = u" "t' = t" "k' = ?k"
      using as_key_inject [of ?i "\<lparr>id_underlying_id = u', id_market_time = t', id_knowledge_horizon = k',
            id_build_context_id = build_context_id_of digest (bd_context bd)\<rparr>"] assms(2,3) e(2,3) by simp_all
    with e(4) have "map_sum id (as_comparable digest) (build_state digest (on_store bd obs) now u t h) = Inr (as_comparable digest (cp_state c))"
      using build_state_now [of digest "on_store bd obs" now u t "Some ?k" 0] default by simp
    moreover have "svc' = svc\<lparr>ss_reused := ss_reused svc + 1\<rparr>" "r = Inr (cp_state c)"
      using assms(4) Some by (auto simp: get_state_def Let_def)
    ultimately show ?thesis using keep
      by (cases "build_state digest (on_store bd obs) now u t h") (auto simp: service_ok_def assembled_def)
  next
    case None
    show ?thesis
    proof (cases "build_state digest (on_store bd obs) now u t (Some ?k)")
      case (Inl e)
      then show ?thesis using assms(4) None keep default by (auto simp: get_state_def Let_def assembled_def)
    next
      case (Inr m)
      have "service_ok digest bd obs ((t, ?k) # asked) svc'"
      proof (cases "ss_store svc")
        case None
        then show ?thesis using assms(4) Inr by (auto simp: get_state_def Let_def service_ok_def)
      next
        case (Some cs)
        then have "cached_ok digest bd obs ((t, ?k) # asked) cs" using keep by (simp add: service_ok_def)
        then have "cached_ok digest bd obs ((t, ?k) # asked) (fst (checkpoint_put digest hash cs (manual_checkpoint m MANUAL)))"
          by (rule cached_ok_put [OF _ _ assms(2,3) Inr]) (simp_all add: manual_checkpoint_def)
        then show ?thesis using assms(4) Inr Some None keep by (auto simp: get_state_def Let_def service_ok_def split: if_splits)
      qed
      moreover have "r = Inr m" "(ss_store svc' = None) = (ss_store svc = None)"
        using assms(4) Inr None by (auto simp: get_state_def Let_def split: if_splits)
      ultimately show ?thesis using Inr default by (simp add: assembled_def)
    qed
  qed
qed

lemma take_checkpoint_refines:
  assumes "service_ok digest bd obs asked svc" "datetime_ok t" "datetime_ok (case h of None \<Rightarrow> t | Some k \<Rightarrow> k)"
    and "take_checkpoint digest hash (on_store bd obs) now u t h trigger svc = (svc', r)"
  shows "service_ok digest bd obs ((t, case h of None \<Rightarrow> t | Some k \<Rightarrow> k) # asked) svc'
    \<and> r = (if ss_store svc = None then Inl No_Checkpoint_Store
           else map_sum id (\<lambda>m. manual_checkpoint m trigger) (assembled (build_state digest (on_store bd obs) now u t h)))
    \<and> (ss_store svc' = None) = (ss_store svc = None)"
proof (cases "ss_store svc")
  case None
  then show ?thesis using assms(4) by (auto simp: take_checkpoint_def service_ok_def)
next
  case (Some cs)
  let ?k = "case h of None \<Rightarrow> t | Some k \<Rightarrow> k"
  have cs: "cached_ok digest bd obs ((t, ?k) # asked) cs" using assms(1) Some by (simp add: service_ok_def cached_ok_more)
  have default: "build_state digest (on_store bd obs) now u t h = build_state digest (on_store bd obs) now u t (Some ?k)"
    by (simp add: build_state_def split: option.split)
  show ?thesis
  proof (cases "build_state digest (on_store bd obs) now u t h")
    case (Inl e)
    then show ?thesis using assms(4) Some cs by (auto simp: take_checkpoint_def service_ok_def assembled_def)
  next
    case (Inr m)
    have "cached_ok digest bd obs ((t, ?k) # asked) (fst (checkpoint_put digest hash cs (manual_checkpoint m trigger)))"
      by (rule cached_ok_put [OF cs _ assms(2,3), of now u m]) (use Inr default in \<open>simp_all add: manual_checkpoint_def\<close>)
    then show ?thesis using assms(4) Some Inr by (auto simp: take_checkpoint_def service_ok_def assembled_def Let_def)
  qed
qed

lemma service_run_refines:
  assumes "service_ok digest bd obs asked svc" "settled_run asked steps"
  shows "map (reply_content digest) (service_run digest hash bd (obs, svc) steps)
    = map (reply_content digest) (direct_run digest bd (ss_store svc \<noteq> None) obs steps)"
  using assms
proof (induction steps arbitrary: asked obs svc)
  case (Cons step steps)
  show ?case
  proof (cases step)
    case (Ingest rs)
    have late: "t < ob_observed_at r \<or> k < ob_ingested_at r" if "r \<in> set rs" "(t, k) \<in> set asked" for r t k
      using Cons.prems(2) that by (fastforce simp: Ingest list_all_iff)
    have "service_ok digest bd (fst (store_append obs rs)) asked svc"
      using Cons.prems(1) cached_ok_ingest [OF _ late] by (cases "ss_store svc") (simp_all add: service_ok_def)
    moreover obtain obs' w where "store_append obs rs = (obs', w)" by fastforce
    ultimately show ?thesis using Cons.IH [of obs' asked svc] Cons.prems(2) by (simp add: Ingest)
  next
    case (Get_State u t h now)
    obtain svc' r where get: "get_state digest hash (on_store bd obs) now u t h svc = (svc', r)" by fastforce
    have ok: "datetime_ok t" "datetime_ok (case h of None \<Rightarrow> t | Some k \<Rightarrow> k)"
        "settled_run ((t, case h of None \<Rightarrow> t | Some k \<Rightarrow> k) # asked) steps"
      using Cons.prems(2) by (simp_all add: Get_State)
    note step = get_state_refines [OF Cons.prems(1) ok(1,2) get]
    show ?thesis using Cons.IH [OF conjunct1 [OF step] ok(3)] step by (simp add: Get_State get)
  next
    case (Take_Checkpoint u t h trigger now)
    obtain svc' r where take: "take_checkpoint digest hash (on_store bd obs) now u t h trigger svc = (svc', r)" by fastforce
    have ok: "datetime_ok t" "datetime_ok (case h of None \<Rightarrow> t | Some k \<Rightarrow> k)"
        "settled_run ((t, case h of None \<Rightarrow> t | Some k \<Rightarrow> k) # asked) steps"
      using Cons.prems(2) by (simp_all add: Take_Checkpoint)
    note step = take_checkpoint_refines [OF Cons.prems(1) ok(1,2) take]
    show ?thesis using Cons.IH [OF conjunct1 [OF step] ok(3)] step by (simp add: Take_Checkpoint take)
  qed
qed simp

definition fresh_service :: "bool \<Rightarrow> bool \<Rightarrow> state_service" where
  "fresh_service stores cache = \<lparr>ss_store = (if stores then Some no_checkpoints else None), ss_cache = cache,
     ss_reused = 0, ss_reconstructed = 0\<rparr>"

text \<open>
  Claim C6: Checkpoints are a materialisation and not a truth. A service with a checkpoint store, whether it caches
  its reconstructions or not, answers every sequence of ingestion, requests and checkpoints with the same
  states, errors and write results as the service without any, which assembles each state from the
  observations: the run of the first refines that of the second. The condition is that the horizons asked for
  are settled: nothing arrives behind a pair of times that was asked for earlier.
\<close>

theorem checkpoints_are_transparent:
  assumes "settled_run [] steps"
  shows "map (reply_content digest) (service_run digest hash bd (obs, fresh_service stores cache) steps)
    = map (reply_content digest) (direct_run digest bd stores obs steps)"
proof -
  have "service_ok digest bd obs [] (fresh_service stores cache)"
    by (simp add: service_ok_def fresh_service_def cached_ok_def no_checkpoints_def)
  from service_run_refines [OF this assms, of hash] show ?thesis by (cases stores) (simp_all add: fresh_service_def)
qed

text \<open>Two requests for the same state, the second of them answered from the first's checkpoint.\<close>

definition settled_steps :: "service_step list" where
  "settled_steps = [Ingest [sample_tick 1 0 10 1 None], Get_State 1 30 None 40, Ingest [sample_tick 1 50 60 2 None], Get_State 1 30 None 70]"

theorem checkpoints_are_transparent_witness:
  "map (reply_content sample_digest) (service_run sample_digest (\<lambda>_. ''h'') (sample_builder spot_only) (empty_store, fresh_service True True) settled_steps)
   = map (reply_content sample_digest) (direct_run sample_digest (sample_builder spot_only) True empty_store settled_steps)"
  by (rule checkpoints_are_transparent)
    (simp add: settled_steps_def datetime_ok_def day_of_def epoch_ordinal_def sample_tick_def)

text \<open>
  The condition is needed. What a caching service has answered once it never revises: whatever is stored
  afterwards, a request for the same times gets the first answer. So where a row that was received within the
  horizon reaches the store only after the first request, the second answer is not the one of assembly.
\<close>

lemma first_answer_is_kept:
  assumes "build_state digest (on_store bd obs) now u t h = Inr m"
  shows "service_run digest hash bd (obs, fresh_service True True) [Get_State u t h now, Ingest rs, Get_State u t h now']
    = [State_Reply (Inr m), Ingested (snd (store_append obs rs)), State_Reply (Inr m)]"
proof -
  let ?k = "case h of None \<Rightarrow> t | Some k \<Rightarrow> k"
  have m: "build_state digest (on_store bd obs) now u t (Some ?k) = Inr m"
    using assms by (simp add: build_state_def split: option.split)
  have i: "mst_identity m = \<lparr>id_underlying_id = u, id_market_time = t, id_knowledge_horizon = ?k,
      id_build_context_id = build_context_id_of digest (bd_context bd)\<rparr>"
    using assms by (auto elim: build_state_parts)
  obtain cs where first: "get_state digest hash (on_store bd obs) now u t h (fresh_service True True)
      = (\<lparr>ss_store = Some cs, ss_cache = True, ss_reused = 0, ss_reconstructed = 1\<rparr>, Inr m)"
      "dict_get (cs_by_identity cs) (as_key (mst_identity m)) = Some (manual_checkpoint m MANUAL)"
    using m by (simp add: get_state_def fresh_service_def checkpoint_get_def checkpoint_put_def no_checkpoints_def
        cp_identity_def manual_checkpoint_def Let_def)
  have "snd (get_state digest hash (on_store bd obs') now' u t h \<lparr>ss_store = Some cs, ss_cache = True, ss_reused = 0, ss_reconstructed = 1\<rparr>)
      = Inr m" for obs'
    using first(2) i by (simp add: get_state_def checkpoint_get_def manual_checkpoint_def Let_def)
  then show ?thesis using first(1) by (simp split: prod.splits) (metis snd_conv)
qed

lemma direct_run_twice:
  assumes "build_state digest (on_store bd obs) now u t h = Inr m"
    and "build_state digest (on_store bd (fst (store_append obs rs))) now' u t h = Inr m'"
  shows "direct_run digest bd stores obs [Get_State u t h now, Ingest rs, Get_State u t h now']
    = [State_Reply (Inr m), Ingested (snd (store_append obs rs)), State_Reply (Inr m')]"
  using assms by (cases "store_append obs rs") (simp add: assembled_def)

lemma sample_spots:
  "(case build_state sample_digest (on_store (sample_builder spot_only) (loaded [sample_tick 1 0 10 1 None])) 40 1 30 None of
      Inl _ \<Rightarrow> False | Inr m \<Rightarrow> sv_observed_at (mst_spot m) = Some 0)"
  "(case build_state sample_digest (on_store (sample_builder spot_only) (fst (store_append (loaded [sample_tick 1 0 10 1 None]) [sample_tick 1 20 25 2 None]))) 70 1 30 None of
      Inl _ \<Rightarrow> False | Inr m \<Rightarrow> sv_observed_at (mst_spot m) = Some 20)"
  by code_simp+

theorem late_row_is_not_seen:
  "\<exists>m m' w. service_run sample_digest hash (sample_builder spot_only) (loaded [sample_tick 1 0 10 1 None], fresh_service True True)
        [Get_State 1 30 None 40, Ingest [sample_tick 1 20 25 2 None], Get_State 1 30 None 70]
      = [State_Reply (Inr m), Ingested w, State_Reply (Inr m)]
    \<and> direct_run sample_digest (sample_builder spot_only) True (loaded [sample_tick 1 0 10 1 None])
        [Get_State 1 30 None 40, Ingest [sample_tick 1 20 25 2 None], Get_State 1 30 None 70]
      = [State_Reply (Inr m), Ingested w, State_Reply (Inr m')]
    \<and> sv_observed_at (mst_spot m) = Some 0 \<and> sv_observed_at (mst_spot m') = Some 20"
proof -
  let ?obs = "loaded [sample_tick 1 0 10 1 None]"
  let ?late = "store_append ?obs [sample_tick 1 20 25 2 None]"
  obtain m where m: "build_state sample_digest (on_store (sample_builder spot_only) ?obs) 40 1 30 None = Inr m"
      "sv_observed_at (mst_spot m) = Some 0"
    using sample_spots(1) by (auto split: sum.splits)
  obtain m' where m': "build_state sample_digest (on_store (sample_builder spot_only) (fst ?late)) 70 1 30 None = Inr m'"
      "sv_observed_at (mst_spot m') = Some 20"
    using sample_spots(2) by (auto split: sum.splits)
  have "direct_run sample_digest (sample_builder spot_only) True ?obs
        [Get_State 1 30 None 40, Ingest [sample_tick 1 20 25 2 None], Get_State 1 30 None 70]
      = [State_Reply (Inr m), Ingested (snd ?late), State_Reply (Inr m')]"
    by (rule direct_run_twice [OF m(1) m'(1)])
  then show ?thesis using first_answer_is_kept [OF m(1)] m(2) m'(2) by blast
qed

end
