(* ===== verification/State_Views.thy ===== *)
theory State_Views
  imports State_Guarantees Fills
begin

text \<open>
  The derived parts of a state: the surfaces lose nothing of the legs, the aggregates are sums of what was
  observed, the at-the-money strike is a nearest one, and the session phase is the phase of Indian time.
\<close>

section \<open>Surfaces\<close>

text \<open>The value of the call and of the put at a strike, read off the legs.\<close>

definition side_value :: "(option_leg \<Rightarrow> 'v option) \<Rightarrow> option_leg list \<Rightarrow> bool \<Rightarrow> rat \<Rightarrow> 'v option" where
  "side_value f legs call s =
     (case find (\<lambda>l. dval (ol_strike l) = s \<and> (ol_option_type l = ''CE'') = call) (rev legs) of None \<Rightarrow> None | Some l \<Rightarrow> f l)"

definition surface_cells :: "(option_leg \<Rightarrow> 'v option) \<Rightarrow> option_leg list \<Rightarrow> (rat, 'v option \<times> 'v option) dict" where
  "surface_cells f legs = fold (surface_put f) legs []"

lemma surface_cells_snoc: "surface_cells f (legs @ [l]) = surface_put f l (surface_cells f legs)"
  by (simp add: surface_cells_def)

lemma surface_cells_read:
  "dict_ok (surface_cells f legs)
   \<and> dict_get (surface_cells f legs) s =
      (if s \<in> (\<lambda>l. dval (ol_strike l)) ` set legs then Some (side_value f legs True s, side_value f legs False s) else None)"
proof (induction legs arbitrary: s rule: rev_induct)
  case (snoc l legs)
  note at_l = snoc.IH [of "dval (ol_strike l)"] and at_s = snoc.IH [of s]
  have empty: "side_value f legs c (dval (ol_strike l)) = None" if "dval (ol_strike l) \<notin> (\<lambda>l. dval (ol_strike l)) ` set legs" for c
  proof -
    have "find (\<lambda>x. dval (ol_strike x) = dval (ol_strike l) \<and> (ol_option_type x = ''CE'') = c) (rev legs) = None"
      using that by (auto simp: find_None_iff image_iff)
    then show ?thesis by (simp add: side_value_def)
  qed
  have "side_value f (legs @ [l]) c x = (if dval (ol_strike l) = x \<and> (ol_option_type l = ''CE'') = c then f l else side_value f legs c x)" for c x
    by (simp add: side_value_def)
  with at_l at_s empty show ?case
    by (auto simp: surface_cells_snoc surface_put_def split: option.splits if_splits)
qed (simp add: surface_cells_def side_value_def)

lemma dict_get_sort_key: "dict_ok d \<Longrightarrow> dict_get (sort_key fst d) k = dict_get d k"
proof -
  assume ok: "dict_ok d"
  have "distinct (map fst (sort_key fst d))"
    using ok by (simp add: dict_ok_def distinct_map inj_on_def)
  then have "dict_get (sort_key fst d) k = Some v \<longleftrightarrow> dict_get d k = Some v" for v
    using ok by (simp add: dict_get_def dict_ok_def)
  then show ?thesis by (metis not_None_eq)
qed

text \<open>
  The surfaces reorganise the legs by strike and lose nothing. For legs of which no two are the same
  side of the same strike, reading a surface back at the strike of a leg, on its side, gives the leg's value;
  the strikes of a surface are those of the legs, each once and in ascending order; and a side that no leg
  observed is empty.
\<close>

theorem surfaces_lose_nothing:
  assumes "distinct (map (\<lambda>l. (dval (ol_strike l), ol_option_type l = ''CE'')) legs)"
  shows "list_all (\<lambda>l. case dict_get (surface_of f legs) (dval (ol_strike l)) of
            None \<Rightarrow> False | Some (call, put) \<Rightarrow> (if ol_option_type l = ''CE'' then call else put) = f l) legs
    \<and> map fst (surface_of f legs) = sorted_list_of_set ((\<lambda>l. dval (ol_strike l)) ` set legs)
    \<and> (\<forall>s call put. dict_get (surface_of f legs) s = Some (call, put) \<longrightarrow>
         (call \<noteq> None \<longrightarrow> (s, True) \<in> (\<lambda>l. (dval (ol_strike l), ol_option_type l = ''CE'')) ` set legs)
         \<and> (put \<noteq> None \<longrightarrow> (s, False) \<in> (\<lambda>l. (dval (ol_strike l), ol_option_type l = ''CE'')) ` set legs))"
proof -
  let ?ls = "sort_key (\<lambda>l. (dval (ol_strike l), ol_option_type l)) legs"
  let ?key = "\<lambda>l. (dval (ol_strike l), ol_option_type l = ''CE'')"
  have ok: "dict_ok (surface_cells f ?ls)" using surface_cells_read by blast
  have get: "dict_get (surface_of f legs) s =
      (if s \<in> (\<lambda>l. dval (ol_strike l)) ` set legs then Some (side_value f ?ls True s, side_value f ?ls False s) else None)" for s
    using dict_get_sort_key [OF ok, of s] surface_cells_read [of f ?ls s] by (simp add: surface_of_def surface_cells_def)
  have found: "side_value f ?ls c s \<noteq> None \<Longrightarrow> (s, c) \<in> ?key ` set legs" for c s
    by (auto simp: side_value_def image_iff split: option.splits dest!: find_Some_iff_first)
  have inj: "inj_on ?key (set legs)" using assms by (simp add: distinct_map)
  have mine: "side_value f ?ls (ol_option_type l = ''CE'') (dval (ol_strike l)) = f l" if "l \<in> set legs" for l
  proof -
    let ?P = "\<lambda>x. dval (ol_strike x) = dval (ol_strike l) \<and> (ol_option_type x = ''CE'') = (ol_option_type l = ''CE'')"
    have "find ?P (rev ?ls) \<noteq> None"
    proof
      assume "find ?P (rev ?ls) = None"
      then have "\<not> ?P l" using that by (simp only: find_None_iff set_rev set_sort) blast
      then show False by simp
    qed
    then obtain x where x: "find ?P (rev ?ls) = Some x" by blast
    from find_Some_iff_first [OF x] have "x \<in> set legs" "?key x = ?key l" by auto
    then have "x = l" using inj that by (auto dest: inj_onD)
    then show ?thesis using x by (simp add: side_value_def)
  qed
  have "map fst (surface_of f legs) = sort (map fst (surface_cells f ?ls))"
    unfolding surface_of_def surface_cells_def by (rule properties_for_sort [symmetric]) simp_all
  also have "\<dots> = sorted_list_of_set (set (map fst (surface_cells f ?ls)))"
    by (simp only: sorted_list_of_set_sort_remdups distinct_remdups_id [OF ok [unfolded dict_ok_def]])
  also have "set (map fst (surface_cells f ?ls)) = (\<lambda>l. dval (ol_strike l)) ` set legs"
  proof (rule set_eqI)
    fix k
    have "k \<in> set (map fst (surface_cells f ?ls)) \<longleftrightarrow> (\<exists>v. dict_get (surface_cells f ?ls) k = Some v)"
      by (simp only: dict_keys_def [symmetric] dict_keys_get)
    then show "k \<in> set (map fst (surface_cells f ?ls)) \<longleftrightarrow> k \<in> (\<lambda>l. dval (ol_strike l)) ` set legs"
      using surface_cells_read [of f ?ls k] by simp
  qed
  finally have keys: "map fst (surface_of f legs) = sorted_list_of_set ((\<lambda>l. dval (ol_strike l)) ` set legs)" .
  have reads: "(if ol_option_type l = ''CE'' then side_value f ?ls True (dval (ol_strike l)) else side_value f ?ls False (dval (ol_strike l))) = f l"
    if "l \<in> set legs" for l
    using mine [OF that] by (cases "ol_option_type l = ''CE''") simp_all
  have "list_all (\<lambda>l. case dict_get (surface_of f legs) (dval (ol_strike l)) of
      None \<Rightarrow> False | Some (call, put) \<Rightarrow> (if ol_option_type l = ''CE'' then call else put) = f l) legs"
    using reads by (simp add: list_all_iff get)
  with keys show ?thesis using found by (auto simp: get split: if_splits)
qed

theorem surfaces_lose_nothing_witness:
  "list_all (\<lambda>l. case dict_get (surface_of ol_oi [bare_leg 1]) (dval (ol_strike l)) of
       None \<Rightarrow> False | Some (call, put) \<Rightarrow> (if ol_option_type l = ''CE'' then call else put) = ol_oi l) [bare_leg 1]"
  using surfaces_lose_nothing [of "[bare_leg 1]" ol_oi] by simp

section \<open>Aggregates\<close>

lemma nearest_strike_in:
  assumes "nearest_strike ss spot = Some s"
  shows "s \<in> set ss \<and> (\<forall>x\<in>set ss. \<bar>s - spot\<bar> \<le> \<bar>x - spot\<bar>)"
proof -
  have "foldl (\<lambda>m x. if \<bar>x - spot\<bar> < \<bar>m - spot\<bar> then x else m) a xs \<in> insert a (set xs)
      \<and> (\<forall>x\<in>insert a (set xs). \<bar>foldl (\<lambda>m x. if \<bar>x - spot\<bar> < \<bar>m - spot\<bar> then x else m) a xs - spot\<bar> \<le> \<bar>x - spot\<bar>)" for a xs
  proof (induction xs arbitrary: a)
    case (Cons y ys)
    from Cons.IH [of "if \<bar>y - spot\<bar> < \<bar>a - spot\<bar> then y else a"] show ?case
      by (auto simp: dec_not_less dec_le_iff dec_less_iff split: if_splits; fastforce)
  qed (simp add: dec_le_iff)
  with assms show ?thesis by (auto simp: nearest_strike_def split: list.splits)
qed

lemma distinct_strikes_set: "dval ` set (distinct_strikes legs) = (\<lambda>l. dval (ol_strike l)) ` set legs
    \<and> set (distinct_strikes legs) \<subseteq> ol_strike ` set legs"
proof -
  let ?f = "\<lambda>l ss. if dval (ol_strike l) \<in> dval ` set ss then ss else ss @ [ol_strike l]"
  have "dval ` set (fold ?f ls ss) = dval ` set ss \<union> (\<lambda>l. dval (ol_strike l)) ` set ls
      \<and> set (fold ?f ls ss) \<subseteq> set ss \<union> ol_strike ` set ls" for ls ss
  proof (induction ls arbitrary: ss)
    case (Cons l ls)
    note known = Cons.IH [of ss] and new = Cons.IH [of "ss @ [ol_strike l]"]
    show ?case
    proof (cases "dval (ol_strike l) \<in> dval ` set ss")
      case True
      with known show ?thesis by (simp only: fold_simps if_True list.set image_insert) blast
    next
      case False
      with new show ?thesis by (simp only: fold_simps if_False list.set image_insert set_append image_Un) blast
    qed
  qed simp
  from this [of legs "[]"] show ?thesis by (simp add: distinct_strikes_def)
qed

section \<open>Session phase\<close>

text \<open>The phase as a reading of a clock that shows Indian time, five and a half hours ahead.\<close>

definition indian_phase :: "instant \<Rightarrow> session_phase" where
  "indian_phase t =
     (let local = t + 330 * 60000000; minute = micros_of_day local div 60000000
      in if weekday_of (day_of local) \<in> {5, 6} then SESSION_CLOSED
         else if 9 * 60 \<le> minute \<and> minute < 9 * 60 + 15 then PRE_OPEN
         else if 9 * 60 + 15 \<le> minute \<and> minute < 15 * 60 + 30 then SESSION_OPEN
         else if 15 * 60 + 30 \<le> minute \<and> minute < 16 * 60 then POST_CLOSE
         else SESSION_CLOSED)"

lemma local_clock:
  fixes t :: int
  defines "m \<equiv> micros_of_day t div 3600000000 * 60 + micros_of_day t div 60000000 mod 60 + 330"
  shows "day_of (t + 330 * 60000000) = day_of t + m div 1440"
    "micros_of_day (t + 330 * 60000000) div 60000000 = m mod 1440"
proof -
  define u where "u = micros_of_day t"
  have t: "t = 86400000000 * day_of t + u" "0 \<le> u" "u < 86400000000"
    by (simp_all add: day_of_def micros_of_day_def u_def)
  define q where "q = u div 60000000"
  define r where "r = u mod 60000000"
  have u: "u = 60000000 * q + r" "0 \<le> r" "r < 60000000" by (simp_all add: q_def r_def)
  have "u div 3600000000 = q div 60" by (simp add: q_def zdiv_zmult2_eq [symmetric])
  then have m: "m = q + 330" by (simp add: m_def u_def [symmetric] q_def)
  define d where "d = m div 1440"
  define n where "n = m mod 1440"
  have dn: "m = 1440 * d + n" "0 \<le> n" "n < 1440" by (simp_all add: d_def n_def)
  have total: "t + 330 * 60000000 = 86400000000 * (day_of t + d) + (60000000 * n + r)"
  proof -
    have "t + 330 * 60000000 = 86400000000 * day_of t + (60000000 * (q + 330) + r)" using t(1) u(1) by simp
    also have "q + 330 = 1440 * d + n" using m dn(1) by simp
    finally show ?thesis by (simp add: algebra_simps)
  qed
  have small: "0 \<le> 60000000 * n + r" "60000000 * n + r < 86400000000" using dn u by linarith+
  show "day_of (t + 330 * 60000000) = day_of t + m div 1440"
    unfolding day_of_def [of "t + 330 * 60000000"] d_def [symmetric]
    by (rule int_div_pos_eq [OF total small])
  have "micros_of_day (t + 330 * 60000000) = 60000000 * n + r"
    unfolding micros_of_day_def by (rule int_mod_pos_eq [OF total small])
  then show "micros_of_day (t + 330 * 60000000) div 60000000 = m mod 1440"
    using int_div_pos_eq [of "60000000 * n + r" 60000000 n r] u n_def by simp
qed

text \<open>
  The session phase, which the code computes on the hour, the minute and the weekday of the UTC time,
  is the phase of the Indian clock at that moment, weekends included: the market is open exactly from 9:15 to
  15:30 of a Monday to Friday there.
\<close>

theorem session_phase_is_indian_time: "session_phase_of t = indian_phase t"
proof -
  define m where "m = micros_of_day t div 3600000000 * 60 + micros_of_day t div 60000000 mod 60 + 330"
  note clock = local_clock [of t, folded m_def]
  have week: "weekday_of (day_of t + m div 1440) = (weekday_of (day_of t) + m div 1440) mod 7"
    by (simp add: weekday_of_def mod_add_left_eq algebra_simps)
  have range: "0 \<le> (weekday_of (day_of t) + m div 1440) mod 7" "(weekday_of (day_of t) + m div 1440) mod 7 < 7" by simp_all
  have weekend: "(weekday_of (day_of t + m div 1440) \<in> {5, 6}) = (5 \<le> (weekday_of (day_of t) + m div 1440) mod 7)"
    unfolding week using range by auto
  show ?thesis
    unfolding session_phase_of_def indian_phase_def Let_def m_def [symmetric] clock weekend by auto
qed


end
