(* ===== verification/Replay.thy ===== *)
theory Replay
  imports Checkpoints
begin

text \<open>
  \<^verbatim>\<open>oipulse/replay/context.py\<close>, \<^verbatim>\<open>ordering.py\<close>, \<^verbatim>\<open>timeline.py\<close> and \<^verbatim>\<open>engine.py\<close>, with the \<open>ReplayClock\<close> of
  \<^verbatim>\<open>oipulse/core/clock.py\<close>: the configuration of a run, the total order of observations, the steps, and the walk
  over them through the state service. The engine's own reference to a checkpoint store is none, the very
  store of its service, or another one.
\<close>

section \<open>The context of a run (context.py)\<close>

datatype step_mode = STEP_CHECKPOINT | STEP_FIXED_INTERVAL | STEP_EVENT

datatype knowledge_mode = LOCKSTEP | MARKET_TRUTH

definition mode_is_hindsight :: "knowledge_mode \<Rightarrow> bool" where
  "mode_is_hindsight m \<longleftrightarrow> m = MARKET_TRUTH"

datatype replay_speed = SPEED_X1 | SPEED_X5 | SPEED_X10 | SPEED_MAX

datatype replay_error =
    Period_Reversed
  | Pinned_Horizon_Required
  | Incoherent_Replay_Horizon
  | Interval_Not_Positive
  | Clock_Backwards
  | Resume_Context_Differs
  | Resume_Horizon_Later
  | State_Failed service_error

record replay_period =
  pe_start :: instant
  pe_end :: instant

definition check_period :: "replay_period \<Rightarrow> replay_error option" where
  "check_period p = (if pe_end p < pe_start p then Some Period_Reversed else None)"

definition period_contains :: "replay_period \<Rightarrow> instant \<Rightarrow> bool" where
  "period_contains p t \<longleftrightarrow> pe_start p \<le> t \<and> t \<le> pe_end p"

record replay_context =
  rc_run_id :: string
  rc_underlying_ids :: "int list"
  rc_period :: replay_period
  rc_build_context_id :: string
  rc_feature_versions :: "(string \<times> int) list"
  rc_rule_versions :: "(string \<times> int) list"
  rc_step_mode :: step_mode
  rc_knowledge_mode :: knowledge_mode
  rc_pinned_knowledge_horizon :: "instant option"
  rc_interval :: duration
  rc_speed :: replay_speed
  rc_expiry_ids :: "int list"

text \<open>The period's own check comes first, where it is constructed.\<close>

definition check_context :: "replay_context \<Rightarrow> replay_error option" where
  "check_context c = (case check_period (rc_period c) of
      Some e \<Rightarrow> Some e
    | None \<Rightarrow>
        if rc_knowledge_mode c = MARKET_TRUTH \<and> rc_pinned_knowledge_horizon c = None then Some Pinned_Horizon_Required
        else if rc_knowledge_mode c = MARKET_TRUTH
          \<and> (case rc_pinned_knowledge_horizon c of None \<Rightarrow> False | Some k \<Rightarrow> k < pe_end (rc_period c))
        then Some Incoherent_Replay_Horizon
        else if rc_interval c \<le> 0 then Some Interval_Not_Positive
        else None)"

text \<open>A context in market-truth mode without a pinned horizon, which the constructor refuses, fails an assertion here.\<close>

definition knowledge_horizon_at :: "replay_context \<Rightarrow> instant \<Rightarrow> instant" where
  "knowledge_horizon_at c t =
     (if rc_knowledge_mode c = MARKET_TRUTH then (case rc_pinned_knowledge_horizon c of None \<Rightarrow> t | Some k \<Rightarrow> k) else t)"

definition is_hindsight :: "replay_context \<Rightarrow> bool" where
  "is_hindsight c = mode_is_hindsight (rc_knowledge_mode c)"

definition version_label :: "string \<times> int \<Rightarrow> string" where
  "version_label v = fst v @ ''@v'' @ str_int (snd v)"

text \<open>What the digest covers: everything but the run id and the speed.\<close>

type_synonym replay_content =
  "(int list \<times> int list \<times> (instant \<times> instant) \<times> string) \<times> (string list \<times> string list)
   \<times> (step_mode \<times> knowledge_mode \<times> instant option \<times> duration)"

definition replay_content :: "replay_context \<Rightarrow> replay_content" where
  "replay_content c =
     ((sort (rc_underlying_ids c), sort (rc_expiry_ids c), (pe_start (rc_period c), pe_end (rc_period c)), rc_build_context_id c),
      (map version_label (sort (rc_feature_versions c)), map version_label (sort (rc_rule_versions c))),
      (rc_step_mode c, rc_knowledge_mode c, rc_pinned_knowledge_horizon c, rc_interval c))"

definition replay_context_digest :: "(replay_content \<Rightarrow> string) \<Rightarrow> replay_context \<Rightarrow> string" where
  "replay_context_digest hash c = ''rpc_'' @ take 32 (hash (replay_content c))"

section \<open>Ordering (ordering.py)\<close>

definition missing_sequence :: int where
  "missing_sequence = - 1"

type_synonym session_ordinals = "(string \<times> int) list"

definition ordinals_of :: "(string, int) dict \<Rightarrow> session_ordinals" where
  "ordinals_of d = sort d"

definition ordinal :: "session_ordinals \<Rightarrow> string option \<Rightarrow> int" where
  "ordinal os session = (case session of
      None \<Rightarrow> missing_sequence
    | Some s \<Rightarrow> (case map_of os s of None \<Rightarrow> int (length os) | Some n \<Rightarrow> n))"

definition order_key :: "session_ordinals \<Rightarrow> int \<Rightarrow> observation \<Rightarrow> instant \<times> int \<times> int \<times> int" where
  "order_key os identity r =
     (ob_observed_at r, ordinal os (oi_feed_session_id (ob_identity r)),
      (case oi_channel_sequence (ob_identity r) of None \<Rightarrow> missing_sequence | Some n \<Rightarrow> n), identity)"

text \<open>\<^verbatim>\<open>"|".join(dedup_key)\<close>; the digest reduced to an integer is the parameter.\<close>

fun join_bars :: "string list \<Rightarrow> string" where
  "join_bars [] = []"
| "join_bars [s] = s"
| "join_bars (s # ss) = s @ ''|'' @ join_bars ss"

definition digest_identity :: "(string \<Rightarrow> int) \<Rightarrow> observation \<Rightarrow> int" where
  "digest_identity hash r = hash (join_bars (dedup_key (ob_identity r)))"

definition replay_order :: "(observation \<Rightarrow> int) \<Rightarrow> session_ordinals \<Rightarrow> observation list \<Rightarrow> observation list" where
  "replay_order identity os rs = sort_key (\<lambda>r. order_key os (identity r) r) rs"

section \<open>The timeline (timeline.py)\<close>

record replay_step =
  sp_index :: int
  sp_market_time :: instant
  sp_knowledge_horizon :: instant

definition is_lockstep :: "replay_step \<Rightarrow> bool" where
  "is_lockstep s \<longleftrightarrow> sp_market_time s = sp_knowledge_horizon s"

record replay_timeline =
  tl_context :: replay_context
  tl_steps :: "replay_step list"
  tl_observations :: "observation list"

definition visible_observations :: "replay_timeline \<Rightarrow> replay_step \<Rightarrow> observation list" where
  "visible_observations tln s =
     filter (\<lambda>r. ob_observed_at r \<le> sp_market_time s \<and> ob_ingested_at r \<le> sp_knowledge_horizon s) (tl_observations tln)"

definition step_at :: "replay_timeline \<Rightarrow> instant \<Rightarrow> replay_step option" where
  "step_at tln t = find (\<lambda>s. sp_market_time s = t) (tl_steps tln)"

definition steps_from :: "replay_timeline \<Rightarrow> instant \<Rightarrow> replay_step list" where
  "steps_from tln t = filter (\<lambda>s. t \<le> sp_market_time s) (tl_steps tln)"

text \<open>
  The loop from the start of the period by the interval. A context has a positive interval; for any other the
  loop would not end, and the model stops instead.
\<close>

function interval_instants :: "instant \<Rightarrow> instant \<Rightarrow> duration \<Rightarrow> instant list" where
  "interval_instants cursor last_t d =
     (if last_t < cursor \<or> d \<le> 0 then [] else cursor # interval_instants (cursor + d) last_t d)"
  by pat_completeness auto
termination
  by (relation "measure (\<lambda>(cursor, last_t, d). nat (last_t + 1 - cursor))") auto

declare interval_instants.simps [simp del]

text \<open>\<^verbatim>\<open>sorted({\<dots>})\<close>\<close>

definition sorted_distinct :: "instant list \<Rightarrow> instant list" where
  "sorted_distinct ts = sort (remdups ts)"

definition instants_of :: "replay_context \<Rightarrow> observation list \<Rightarrow> instant list \<Rightarrow> instant list" where
  "instants_of c in_period checkpoint_times = (case rc_step_mode c of
      STEP_CHECKPOINT \<Rightarrow> sorted_distinct (filter (period_contains (rc_period c)) checkpoint_times)
    | STEP_FIXED_INTERVAL \<Rightarrow> interval_instants (pe_start (rc_period c)) (pe_end (rc_period c)) (rc_interval c)
    | STEP_EVENT \<Rightarrow> sorted_distinct (map ob_observed_at in_period))"

definition make_step :: "replay_context \<Rightarrow> int \<times> instant \<Rightarrow> replay_step" where
  "make_step c = (\<lambda>(i, t). \<lparr>sp_index = i, sp_market_time = t, sp_knowledge_horizon = knowledge_horizon_at c t\<rparr>)"

definition build_timeline ::
  "(observation \<Rightarrow> int) \<Rightarrow> replay_context \<Rightarrow> observation list \<Rightarrow> instant list \<Rightarrow> session_ordinals \<Rightarrow> replay_timeline" where
  "build_timeline identity c rs checkpoint_times os =
     (let in_period = filter (\<lambda>r. period_contains (rc_period c) (ob_observed_at r)) (replay_order identity os rs);
          instants = instants_of c in_period checkpoint_times
      in \<lparr>tl_context = c, tl_steps = map (make_step c) (zip [0..int (length instants) - 1] instants),
          tl_observations = in_period\<rparr>)"

definition lockstep_horizons :: "replay_timeline \<Rightarrow> bool" where
  "lockstep_horizons tln \<longleftrightarrow> rc_knowledge_mode (tl_context tln) = LOCKSTEP \<and> list_all is_lockstep (tl_steps tln)"

section \<open>The engine (engine.py)\<close>

record stepped_state =
  st_step :: replay_step
  st_underlying_id :: int
  st_state :: market_state
  st_from_checkpoint :: bool

record replay_progress =
  pg_steps_completed :: int
  pg_states_built :: int
  pg_checkpoint_hits :: int
  pg_checkpoint_misses :: int
  pg_observations_visible :: int

definition no_progress :: replay_progress where
  "no_progress = \<lparr>pg_steps_completed = 0, pg_states_built = 0, pg_checkpoint_hits = 0, pg_checkpoint_misses = 0,
     pg_observations_visible = 0\<rparr>"

datatype engine_store = NO_STORE | SERVICE_STORE | OTHER_STORE checkpoint_store

record replay_engine =
  re_service :: state_service
  re_checkpoints :: engine_store
  re_progress :: replay_progress

text \<open>The collaborators of the service that do not change in a run: digests, builder and the readings of the builder's clock.\<close>

record service_env =
  se_digest :: context_digest
  se_hash :: state_digest
  se_builder :: builder
  se_now :: "replay_step \<Rightarrow> int \<Rightarrow> instant"

definition engine_probe :: "replay_engine \<Rightarrow> state_identity \<Rightarrow> checkpoint option" where
  "engine_probe e i = (case re_checkpoints e of
      NO_STORE \<Rightarrow> None
    | SERVICE_STORE \<Rightarrow> (case ss_store (re_service e) of None \<Rightarrow> None | Some cs \<Rightarrow> checkpoint_get cs i)
    | OTHER_STORE cs \<Rightarrow> checkpoint_get cs i)"

definition engine_state_at ::
  "service_env \<Rightarrow> replay_context \<Rightarrow> replay_step \<Rightarrow> int \<Rightarrow> replay_engine \<Rightarrow> replay_engine \<times> (replay_error + stepped_state)" where
  "engine_state_at en c s u e =
     (let hit = engine_probe e \<lparr>id_underlying_id = u, id_market_time = sp_market_time s,
                  id_knowledge_horizon = sp_knowledge_horizon s, id_build_context_id = rc_build_context_id c\<rparr> \<noteq> None;
          p = re_progress e;
          p = (if hit then p\<lparr>pg_checkpoint_hits := pg_checkpoint_hits p + 1\<rparr>
               else p\<lparr>pg_checkpoint_misses := pg_checkpoint_misses p + 1\<rparr>)
      in case get_state (se_digest en) (se_hash en) (se_builder en) (se_now en s u) u (sp_market_time s)
             (Some (sp_knowledge_horizon s)) (re_service e) of
           (svc, Inl x) \<Rightarrow> (e\<lparr>re_service := svc, re_progress := p\<rparr>, Inl (State_Failed x))
         | (svc, Inr m) \<Rightarrow>
             (e\<lparr>re_service := svc, re_progress := p\<lparr>pg_states_built := pg_states_built p + 1\<rparr>\<rparr>,
              Inr \<lparr>st_step = s, st_underlying_id = u, st_state = m, st_from_checkpoint = hit\<rparr>))"

text \<open>A loop that stops at the first exception, the engine being left as it is then.\<close>

fun engine_states ::
  "service_env \<Rightarrow> replay_context \<Rightarrow> replay_step \<Rightarrow> int list \<Rightarrow> replay_engine \<Rightarrow> replay_engine \<times> (replay_error + stepped_state list)" where
  "engine_states en c s [] e = (e, Inr [])"
| "engine_states en c s (u # us) e = (case engine_state_at en c s u e of
      (e, Inl x) \<Rightarrow> (e, Inl x)
    | (e, Inr st) \<Rightarrow> (case engine_states en c s us e of (e, Inl x) \<Rightarrow> (e, Inl x) | (e, Inr sts) \<Rightarrow> (e, Inr (st # sts))))"

definition advance_to :: "instant \<Rightarrow> instant \<Rightarrow> replay_error + instant" where
  "advance_to clock target = (if target < clock then Inl Clock_Backwards else Inr target)"

fun engine_walk ::
  "service_env \<Rightarrow> replay_timeline \<Rightarrow> replay_step list \<Rightarrow> instant \<Rightarrow> replay_engine \<Rightarrow> replay_engine \<times> (replay_error + stepped_state list)" where
  "engine_walk en tln [] clock e = (e, Inr [])"
| "engine_walk en tln (s # ss) clock e = (case advance_to clock (sp_market_time s) of
      Inl x \<Rightarrow> (e, Inl x)
    | Inr clock \<Rightarrow>
        (let p = re_progress e;
             e = e\<lparr>re_progress := p\<lparr>pg_observations_visible := pg_observations_visible p + int (length (visible_observations tln s))\<rparr>\<rparr>
         in case engine_states en (tl_context tln) s (sort (rc_underlying_ids (tl_context tln))) e of
              (e, Inl x) \<Rightarrow> (e, Inl x)
            | (e, Inr sts) \<Rightarrow>
                (let p = re_progress e; e = e\<lparr>re_progress := p\<lparr>pg_steps_completed := pg_steps_completed p + 1\<rparr>\<rparr>
                 in case engine_walk en tln ss clock e of (e, Inl x) \<Rightarrow> (e, Inl x) | (e, Inr rest) \<Rightarrow> (e, Inr (sts @ rest)))))"

text \<open>The caller may supply the clock; otherwise it starts at the first step.\<close>

definition engine_run ::
  "service_env \<Rightarrow> replay_timeline \<Rightarrow> instant option \<Rightarrow> instant option \<Rightarrow> replay_engine \<Rightarrow> replay_engine \<times> (replay_error + stepped_state list)" where
  "engine_run en tln from_t clock e =
     (let steps = (case from_t of None \<Rightarrow> tl_steps tln | Some t \<Rightarrow> steps_from tln t)
      in case steps of
           [] \<Rightarrow> (e, Inr [])
         | s # _ \<Rightarrow> engine_walk en tln steps (case clock of None \<Rightarrow> sp_market_time s | Some c \<Rightarrow> c) e)"

section \<open>Resuming\<close>

record resume_point =
  rp_run_id :: string
  rp_step_index :: int
  rp_market_time :: instant
  rp_knowledge_horizon :: instant
  rp_build_context_id :: string

definition resume_matches :: "resume_point \<Rightarrow> replay_context \<Rightarrow> bool" where
  "resume_matches p c \<longleftrightarrow> rp_build_context_id p = rc_build_context_id c"

definition validate_resume :: "resume_point \<Rightarrow> replay_context \<Rightarrow> replay_error option" where
  "validate_resume p c =
     (if \<not> resume_matches p c then Some Resume_Context_Differs
      else if knowledge_horizon_at c (rp_market_time p) < rp_knowledge_horizon p then Some Resume_Horizon_Later
      else None)"

end
