(* ===== verification/Replay_Guarantees.thy ===== *)
theory Replay_Guarantees
  imports Replay
begin

text \<open>
  What a replay promises: the timeline of a run is a strictly increasing sequence of instants of the period with
  horizons that never lie before them, and does not depend on the order of the rows; the walk over it
  yields the states that assembly gives, whatever checkpoints are used; a resumed run is the rest of the
  whole run; nothing that becomes known later changes what was replayed before.
\<close>

section \<open>The timeline\<close>

lemma interval_instants_strict:
  "sorted_wrt (<) (interval_instants cursor last_t d) \<and> (\<forall>t \<in> set (interval_instants cursor last_t d). cursor \<le> t \<and> t \<le> last_t)"
proof (induction cursor last_t d rule: interval_instants.induct)
  case (1 cursor last_t d)
  then show ?case by (subst (1 2) interval_instants.simps) (fastforce split: if_splits)
qed

lemma interval_instants_complete:
  assumes "0 < d" "cursor + int n * d \<le> last_t"
  shows "cursor + int n * d \<in> set (interval_instants cursor last_t d)"
  using assms
proof (induction n arbitrary: cursor)
  case 0
  then show ?case by (subst interval_instants.simps) simp
next
  case (Suc n)
  have "(cursor + d) + int n * d \<in> set (interval_instants (cursor + d) last_t d)"
    by (rule Suc.IH) (use Suc.prems in \<open>simp_all add: algebra_simps\<close>)
  moreover have "\<not> last_t < cursor"
    using Suc.prems by (smt (verit, best) mult_nonneg_nonneg of_nat_0_le_iff)
  ultimately show ?case using Suc.prems by (subst interval_instants.simps) (simp add: algebra_simps)
qed

lemma sorted_distinct_strict: "sorted_wrt (<) (sorted_distinct ts)"
  by (simp add: sorted_distinct_def strict_sorted_iff)

lemma sorted_distinct_set [simp]: "set (sorted_distinct ts) = set ts"
  by (simp add: sorted_distinct_def)

lemma check_context_sound:
  assumes "check_context c = None"
  shows "0 < rc_interval c" "pe_start (rc_period c) \<le> pe_end (rc_period c)"
    "t \<le> pe_end (rc_period c) \<Longrightarrow> t \<le> knowledge_horizon_at c t"
  using assms by (auto simp: check_context_def check_period_def knowledge_horizon_at_def split: if_splits option.splits)

lemma instants_of_strict: "sorted_wrt (<) (instants_of c obs cps)"
  by (cases "rc_step_mode c") (simp_all add: instants_of_def sorted_distinct_strict interval_instants_strict)

lemma instants_of_period:
  assumes "\<forall>r \<in> set obs. period_contains (rc_period c) (ob_observed_at r)" "t \<in> set (instants_of c obs cps)"
  shows "period_contains (rc_period c) t"
  using assms interval_instants_strict [of "pe_start (rc_period c)" "pe_end (rc_period c)" "rc_interval c"]
  by (cases "rc_step_mode c") (auto simp: instants_of_def period_contains_def)

definition in_period :: "(observation \<Rightarrow> int) \<Rightarrow> replay_context \<Rightarrow> observation list \<Rightarrow> session_ordinals \<Rightarrow> observation list" where
  "in_period identity c rs os = filter (\<lambda>r. period_contains (rc_period c) (ob_observed_at r)) (replay_order identity os rs)"

lemma timeline_steps:
  "tl_steps (build_timeline identity c rs cps os) = map (make_step c) (zip [0..int (length (instants_of c (in_period identity c rs os) cps)) - 1]
      (instants_of c (in_period identity c rs os) cps))"
  by (simp add: build_timeline_def Let_def in_period_def)

lemma timeline_times:
  "map sp_market_time (tl_steps (build_timeline identity c rs cps os)) = instants_of c (in_period identity c rs os) cps"
proof -
  have "map sp_market_time (map (make_step c) (zip is ts)) = ts" if "length is = length ts" for "is" ts
    using that by (induction "is" ts rule: list_induct2) (simp_all add: make_step_def)
  then show ?thesis by (simp add: timeline_steps)
qed

lemma timeline_indices:
  "map sp_index (tl_steps (build_timeline identity c rs cps os)) = [0..int (length (tl_steps (build_timeline identity c rs cps os))) - 1]"
proof -
  have "map sp_index (map (make_step c) (zip is ts)) = is" if "length is = length ts" for "is" ts
    using that by (induction "is" ts rule: list_induct2) (simp_all add: make_step_def)
  then show ?thesis by (simp add: timeline_steps)
qed

lemma timeline_horizons:
  "s \<in> set (tl_steps (build_timeline identity c rs cps os)) \<Longrightarrow> sp_knowledge_horizon s = knowledge_horizon_at c (sp_market_time s)"
  by (auto simp: timeline_steps make_step_def)

lemma timeline_in_period:
  assumes "s \<in> set (tl_steps (build_timeline identity c rs cps os))"
  shows "period_contains (rc_period c) (sp_market_time s)"
proof -
  have "sp_market_time s \<in> set (instants_of c (in_period identity c rs os) cps)"
    using assms unfolding timeline_times [symmetric] by simp
  then show ?thesis by (rule instants_of_period [rotated]) (simp add: in_period_def)
qed

lemma timeline_context [simp]: "tl_context (build_timeline identity c rs cps os) = c"
  by (simp add: build_timeline_def Let_def)

text \<open>
  Claim C36: The timeline of a context that the constructor accepts has strictly increasing market times, all of
  them inside the period, is numbered from 0, and gives every step the horizon of its context, which
  never lies before the step: no step can be asked for a state of which less could be known than its own time.
  In lockstep mode the two are equal at every step.
\<close>

theorem timeline_is_sound:
  assumes "check_context c = None" "tln = build_timeline identity c rs cps os"
  shows "sorted_wrt (<) (map sp_market_time (tl_steps tln))
    \<and> map sp_index (tl_steps tln) = [0..int (length (tl_steps tln)) - 1]
    \<and> (\<forall>s \<in> set (tl_steps tln). period_contains (rc_period c) (sp_market_time s)
          \<and> sp_knowledge_horizon s = knowledge_horizon_at c (sp_market_time s) \<and> sp_market_time s \<le> sp_knowledge_horizon s)
    \<and> lockstep_horizons tln = (rc_knowledge_mode c = LOCKSTEP)"
proof -
  have "sp_market_time s \<le> sp_knowledge_horizon s" if "s \<in> set (tl_steps tln)" for s
    using timeline_in_period [of s] timeline_horizons [of s] check_context_sound(3) [OF assms(1)] that
    by (simp add: assms(2) period_contains_def)
  moreover have "lockstep_horizons tln = (rc_knowledge_mode c = LOCKSTEP)"
    using timeline_horizons [of _ identity c rs cps os]
    by (auto simp: assms(2) lockstep_horizons_def list_all_iff is_lockstep_def knowledge_horizon_at_def)
  ultimately show ?thesis
    using timeline_in_period timeline_horizons
    by (simp add: assms(2) timeline_times instants_of_strict timeline_indices)
qed

definition sample_period :: replay_period where
  "sample_period = \<lparr>pe_start = 0, pe_end = 100\<rparr>"

definition sample_context :: "step_mode \<Rightarrow> replay_context" where
  "sample_context m = \<lparr>rc_run_id = ''run'', rc_underlying_ids = [1], rc_period = sample_period, rc_build_context_id = ''b'',
     rc_feature_versions = [], rc_rule_versions = [], rc_step_mode = m, rc_knowledge_mode = MARKET_TRUTH,
     rc_pinned_knowledge_horizon = Some 200, rc_interval = 40, rc_speed = SPEED_MAX, rc_expiry_ids = []\<rparr>"

theorem timeline_is_sound_witness:
  "sorted_wrt (<) (map sp_market_time (tl_steps (build_timeline (\<lambda>_. 0) (sample_context STEP_FIXED_INTERVAL) [] [] [])))"
  by (rule conjunct1 [OF timeline_is_sound [OF _ refl]])
    (simp add: check_context_def check_period_def sample_context_def sample_period_def)

text \<open>
  The steps are complete for their mode. A run at fixed intervals visits exactly the start of the
  period and every whole number of intervals after it up to the end, a run over checkpoints every checkpoint
  time of the period, and a run over events every market time at which a row of the period was observed.
\<close>

theorem timeline_is_complete:
  assumes "check_context c = None"
  shows "set (map sp_market_time (tl_steps (build_timeline identity c rs cps os))) =
    (case rc_step_mode c of
       STEP_CHECKPOINT \<Rightarrow> {t \<in> set cps. period_contains (rc_period c) t}
     | STEP_FIXED_INTERVAL \<Rightarrow> {t. \<exists>n. t = pe_start (rc_period c) + int n * rc_interval c \<and> t \<le> pe_end (rc_period c)}
     | STEP_EVENT \<Rightarrow> {t \<in> ob_observed_at ` set rs. period_contains (rc_period c) t})"
proof -
  have sound: "t \<in> set (interval_instants a b d) \<Longrightarrow> \<exists>n. t = a + int n * d" for t a b d
  proof (induction a b d rule: interval_instants.induct)
    case (1 a b d)
    show ?case
    proof (cases "t = a")
      case True
      then show ?thesis by (intro exI [of _ 0]) simp
    next
      case False
      have step: "interval_instants a b d = (if b < a \<or> d \<le> 0 then [] else a # interval_instants (a + d) b d)"
        by (rule interval_instants.simps)
      then have "\<not> (b < a \<or> d \<le> 0)" "t \<in> set (interval_instants (a + d) b d)"
        using 1(2) False by (simp_all split: if_splits)
      then obtain n where "t = a + d + int n * d" using 1(1) by blast
      then show ?thesis by (intro exI [of _ "Suc n"]) (simp add: algebra_simps)
    qed
  qed
  have "set (interval_instants a b (rc_interval c)) = {t. \<exists>n. t = a + int n * rc_interval c \<and> t \<le> b}" for a b
    using sound interval_instants_strict interval_instants_complete [OF check_context_sound(1) [OF assms]] by blast
  then show ?thesis
    unfolding set_map [symmetric] timeline_times
    by (cases "rc_step_mode c") (auto simp: instants_of_def in_period_def replay_order_def)
qed

theorem timeline_is_complete_witness:
  "80 \<in> set (map sp_market_time (tl_steps (build_timeline (\<lambda>_. 0) (sample_context STEP_FIXED_INTERVAL) [] [] [])))"
proof -
  have "check_context (sample_context STEP_FIXED_INTERVAL) = None"
    by (simp add: check_context_def check_period_def sample_context_def sample_period_def)
  then show ?thesis
    by (subst timeline_is_complete) (auto simp: sample_context_def sample_period_def intro: exI [of _ 2])
qed

text \<open>
  Replay does not depend on the order in which the rows were loaded. When the order key tells the rows
  apart (the identity is the last component of the key), every permutation of the rows gives the same order
  and the same timeline, so a reconnect that resets the channel's sequence numbers cannot reorder a run.
\<close>

theorem timeline_ignores_row_order:
  assumes "mset rs' = mset rs" "inj_on (\<lambda>r. order_key os (identity r) r) (set rs)"
  shows "build_timeline identity c rs' cps os = build_timeline identity c rs cps os"
proof -
  have "set rs' = set rs" using assms(1) by (rule mset_eq_setD)
  then have "replay_order identity os rs' = replay_order identity os rs"
    unfolding replay_order_def by (intro sort_key_inj_key_eq) (simp_all add: assms)
  then show ?thesis by (simp add: build_timeline_def)
qed

theorem timeline_ignores_row_order_witness:
  "build_timeline (\<lambda>r. ob_ingested_at r) (sample_context STEP_EVENT) [sample_tick 1 20 30 2 None, sample_tick 1 20 25 1 None] [] []
   = build_timeline (\<lambda>r. ob_ingested_at r) (sample_context STEP_EVENT) [sample_tick 1 20 25 1 None, sample_tick 1 20 30 2 None] [] []"
  by (rule timeline_ignores_row_order) (simp_all add: order_key_def sample_tick_def)

section \<open>The walk\<close>

text \<open>
  The specification: the visits of a run, one per step and underlying, each answered by assembly alone, up
  to the first failure.
\<close>

definition visits :: "replay_step list \<Rightarrow> int list \<Rightarrow> (replay_step \<times> int) list" where
  "visits steps us = concat (map (\<lambda>s. map (Pair s) us) steps)"

type_synonym stepped_content = "replay_step \<times> int \<times> state_content"

definition stepped_content :: "context_digest \<Rightarrow> stepped_state \<Rightarrow> stepped_content" where
  "stepped_content digest st = (st_step st, st_underlying_id st, as_comparable digest (st_state st))"

fun direct_visits :: "context_digest \<Rightarrow> builder \<Rightarrow> (replay_step \<times> int) list \<Rightarrow> replay_error + stepped_content list" where
  "direct_visits digest bd [] = Inr []"
| "direct_visits digest bd ((s, u) # vs) =
     (case build_state digest bd 0 u (sp_market_time s) (Some (sp_knowledge_horizon s)) of
        Inl x \<Rightarrow> Inl (State_Failed (Build_Failed x))
      | Inr m \<Rightarrow> map_sum id (Cons (s, u, as_comparable digest m)) (direct_visits digest bd vs))"

lemma direct_visits_append:
  "direct_visits digest bd (vs @ ws) = (case direct_visits digest bd vs of
     Inl x \<Rightarrow> Inl x | Inr xs \<Rightarrow> map_sum id (append xs) (direct_visits digest bd ws))"
proof (induction vs)
  case Nil
  then show ?case by (cases "direct_visits digest bd ws") simp_all
next
  case (Cons v vs)
  obtain s u where "v = (s, u)" by fastforce
  then show ?case using Cons by (cases "direct_visits digest bd ws") (auto split: sum.splits)
qed

lemma direct_visits_filter:
  "direct_visits digest bd vs = Inr xs \<Longrightarrow> direct_visits digest bd (filter (\<lambda>v. P (fst v)) vs) = Inr (filter (\<lambda>x. P (fst x)) xs)"
proof (induction vs arbitrary: xs)
  case (Cons v vs)
  obtain s u where v: "v = (s, u)" by fastforce
  obtain m where m: "build_state digest bd 0 u (sp_market_time s) (Some (sp_knowledge_horizon s)) = Inr m"
    using Cons.prems by (auto simp: v split: sum.splits)
  obtain ys where ys: "direct_visits digest bd vs = Inr ys"
    using Cons.prems by (cases "direct_visits digest bd vs") (simp_all add: v m)
  show ?case using Cons.IH [OF ys] Cons.prems ys by (auto simp: v m)
qed simp

lemma direct_visits_cong:
  assumes "\<And>s u. (s, u) \<in> set vs \<Longrightarrow> build_state digest bd 0 u (sp_market_time s) (Some (sp_knowledge_horizon s))
    = build_state digest bd' 0 u (sp_market_time s) (Some (sp_knowledge_horizon s))"
  shows "direct_visits digest bd vs = direct_visits digest bd' vs"
  using assms by (induction vs) (auto split: sum.split)

lemma filter_visits: "filter (\<lambda>v. P (fst v)) (visits steps us) = visits (filter P steps) us"
proof -
  have "filter (\<lambda>v. P (fst v)) (map (Pair s) us) = (if P s then map (Pair s) us else [])" for s
    by (induction us) auto
  then show ?thesis by (induction steps) (simp_all add: visits_def)
qed

text \<open>
  An engine is sound for an environment over given observations when its service is: every checkpoint stored there has the content of assembly.
\<close>

definition engine_ok :: "service_env \<Rightarrow> builder \<Rightarrow> obs_store \<Rightarrow> replay_engine \<Rightarrow> bool" where
  "engine_ok en bd obs e \<longleftrightarrow> se_builder en = on_store bd obs \<and> (\<exists>asked. service_ok (se_digest en) bd obs asked (re_service e))"

lemma engine_ok_progress [simp]: "engine_ok en bd obs (e\<lparr>re_progress := p\<rparr>) = engine_ok en bd obs e"
  by (simp add: engine_ok_def)

definition step_dates_ok :: "replay_step \<Rightarrow> bool" where
  "step_dates_ok s \<longleftrightarrow> datetime_ok (sp_market_time s) \<and> datetime_ok (sp_knowledge_horizon s)"

lemma engine_state_at_refines:
  assumes "engine_ok en bd obs e" "step_dates_ok s" "engine_state_at en c s u e = (e', r)"
  shows "engine_ok en bd obs e' \<and> map_sum id (\<lambda>st. [stepped_content (se_digest en) st]) r = direct_visits (se_digest en) (on_store bd obs) [(s, u)]"
proof -
  let ?digest = "se_digest en"
  let ?k = "Some (sp_knowledge_horizon s)"
  from assms(1) obtain asked where ok: "se_builder en = on_store bd obs" "service_ok ?digest bd obs asked (re_service e)"
    by (auto simp: engine_ok_def)
  obtain svc' q where get: "get_state ?digest (se_hash en) (on_store bd obs) (se_now en s u) u (sp_market_time s) ?k (re_service e) = (svc', q)"
    by fastforce
  have "datetime_ok (sp_market_time s)" "datetime_ok (case ?k of None \<Rightarrow> sp_market_time s | Some k \<Rightarrow> k)"
    using assms(2) by (simp_all add: step_dates_ok_def)
  note g = get_state_refines [OF ok(2) this get]
  have "re_service e' = svc'"
    "map_sum id (stepped_content ?digest) r = map_sum State_Failed (\<lambda>m. (s, u, as_comparable ?digest m)) q"
    using assms(3) get ok(1)
    by (auto simp: engine_state_at_def Let_def stepped_content_def split: sum.splits)
  moreover have "map_sum id (as_comparable ?digest) q
      = map_sum Build_Failed (as_comparable ?digest) (build_state ?digest (on_store bd obs) 0 u (sp_market_time s) ?k)"
    using g build_state_now [of ?digest "on_store bd obs" "se_now en s u" u "sp_market_time s" ?k 0]
    by (cases "build_state ?digest (on_store bd obs) (se_now en s u) u (sp_market_time s) ?k";
        cases "build_state ?digest (on_store bd obs) 0 u (sp_market_time s) ?k") (auto simp: assembled_def)
  ultimately show ?thesis using g ok(1)
    by (cases q; cases r; cases "build_state ?digest (on_store bd obs) 0 u (sp_market_time s) ?k") (auto simp: engine_ok_def)
qed

lemma engine_states_refines:
  assumes "engine_ok en bd obs e" "step_dates_ok s" "engine_states en c s us e = (e', r)"
  shows "engine_ok en bd obs e' \<and> map_sum id (map (stepped_content (se_digest en))) r = direct_visits (se_digest en) (on_store bd obs) (map (Pair s) us)"
  using assms(1,3)
proof (induction us arbitrary: e e' r)
  case (Cons u us)
  obtain e1 q where at: "engine_state_at en c s u e = (e1, q)" by fastforce
  note one = engine_state_at_refines [OF Cons.prems(1) assms(2) at]
  obtain e2 q2 where rest: "engine_states en c s us e1 = (e2, q2)" by fastforce
  note more = Cons.IH [OF conjunct1 [OF one] rest]
  have split: "direct_visits (se_digest en) (on_store bd obs) (map (Pair s) (u # us))
      = (case direct_visits (se_digest en) (on_store bd obs) [(s, u)] of
           Inl x \<Rightarrow> Inl x | Inr xs \<Rightarrow> map_sum id (append xs) (direct_visits (se_digest en) (on_store bd obs) (map (Pair s) us)))"
    using direct_visits_append [of "se_digest en" "on_store bd obs" "[(s, u)]" "map (Pair s) us"] by simp
  have "e' = (case q of Inl _ \<Rightarrow> e1 | Inr _ \<Rightarrow> e2)"
    "map_sum id (map (stepped_content (se_digest en))) r = (case map_sum id (\<lambda>st. [stepped_content (se_digest en) st]) q of
        Inl x \<Rightarrow> Inl x | Inr xs \<Rightarrow> map_sum id (append xs) (map_sum id (map (stepped_content (se_digest en))) q2))"
    using Cons.prems(2) at rest by (cases q; cases q2; auto)+
  moreover have "engine_ok en bd obs (case q of Inl _ \<Rightarrow> e1 | Inr _ \<Rightarrow> e2)" using one more by (cases q) simp_all
  ultimately show ?case by (simp only: split one more)
qed simp

lemma engine_walk_refines:
  assumes "engine_ok en bd obs e" "list_all step_dates_ok ss" "sorted_wrt (<) (map sp_market_time ss)"
    and "\<forall>s \<in> set ss. clock \<le> sp_market_time s"
  shows "engine_walk en tln ss clock e = (e', r) \<Longrightarrow>
    map_sum id (map (stepped_content (se_digest en))) r
      = direct_visits (se_digest en) (on_store bd obs) (visits ss (sort (rc_underlying_ids (tl_context tln))))"
  using assms
proof (induction ss arbitrary: clock e e' r)
  case Nil
  then show ?case by (auto simp: visits_def)
next
  case (Cons s ss)
  let ?us = "sort (rc_underlying_ids (tl_context tln))"
  define e0 where "e0 = e\<lparr>re_progress := (re_progress e)\<lparr>pg_observations_visible :=
      pg_observations_visible (re_progress e) + int (length (visible_observations tln s))\<rparr>\<rparr>"
  obtain e1 q where at: "engine_states en (tl_context tln) s ?us e0 = (e1, q)" by fastforce
  have "engine_ok en bd obs e0" using Cons.prems(2) by (simp add: e0_def)
  note one = engine_states_refines [OF this _ at]
  define e2 where "e2 = e1\<lparr>re_progress := (re_progress e1)\<lparr>pg_steps_completed := pg_steps_completed (re_progress e1) + 1\<rparr>\<rparr>"
  obtain e3 q3 where rest: "engine_walk en tln ss (sp_market_time s) e2 = (e3, q3)" by fastforce
  have one: "engine_ok en bd obs e1" "map_sum id (map (stepped_content (se_digest en))) q
      = direct_visits (se_digest en) (on_store bd obs) (map (Pair s) ?us)"
    using one Cons.prems(3) by simp_all
  have more: "map_sum id (map (stepped_content (se_digest en))) q3 = direct_visits (se_digest en) (on_store bd obs) (visits ss ?us)"
    by (rule Cons.IH [OF rest]) (use one Cons.prems in \<open>auto simp: e2_def intro: less_imp_le\<close>)
  have "advance_to clock (sp_market_time s) = Inr (sp_market_time s)" using Cons.prems(5) by (simp add: advance_to_def)
  then have "r = (case q of Inl x \<Rightarrow> Inl x | Inr sts \<Rightarrow> (case q3 of Inl x \<Rightarrow> Inl x | Inr rest \<Rightarrow> Inr (sts @ rest)))"
    using Cons.prems(1) at rest by (auto simp: e0_def e2_def Let_def split: sum.splits)
  moreover have "visits (s # ss) ?us = map (Pair s) ?us @ visits ss ?us" by (simp add: visits_def)
  ultimately show ?case
    by (simp add: direct_visits_append one(2) [symmetric] more [symmetric] split: sum.split)
qed

lemma engine_run_refines:
  assumes "engine_ok en bd obs e" "tln = build_timeline identity c rs cps os" "list_all step_dates_ok (tl_steps tln)"
  shows "map_sum id (map (stepped_content (se_digest en))) (snd (engine_run en tln from_t None e))
    = direct_visits (se_digest en) (on_store bd obs)
        (visits (filter (\<lambda>s. case from_t of None \<Rightarrow> True | Some t \<Rightarrow> t \<le> sp_market_time s) (tl_steps tln)) (sort (rc_underlying_ids c)))"
proof -
  define ss where "ss = (case from_t of None \<Rightarrow> tl_steps tln | Some t \<Rightarrow> steps_from tln t)"
  have ss: "ss = filter (\<lambda>s. case from_t of None \<Rightarrow> True | Some t \<Rightarrow> t \<le> sp_market_time s) (tl_steps tln)"
    by (simp add: ss_def steps_from_def split: option.split)
  have "sorted_wrt (\<lambda>a b. sp_market_time a < sp_market_time b) (tl_steps tln)"
    using instants_of_strict [of c "in_period identity c rs os" cps]
    unfolding assms(2) timeline_times [symmetric] by (simp add: sorted_wrt_map)
  then have strict: "sorted_wrt (\<lambda>a b. sp_market_time a < sp_market_time b) ss"
    unfolding ss by (rule sorted_wrt_filter)
  have dates: "list_all step_dates_ok ss" using assms(3) by (auto simp: ss list_all_iff)
  show ?thesis
  proof (cases ss)
    case Nil
    then have "engine_run en tln from_t None e = (e, Inr [])" by (simp add: engine_run_def ss_def [symmetric])
    then show ?thesis using Nil by (simp add: ss [symmetric] visits_def)
  next
    case (Cons s tail)
    obtain e' r where walk: "engine_walk en tln ss (sp_market_time s) e = (e', r)" by fastforce
    have "engine_run en tln from_t None e = (e', r)"
      using walk Cons by (simp add: engine_run_def ss_def [symmetric])
    moreover have "map_sum id (map (stepped_content (se_digest en))) r
        = direct_visits (se_digest en) (on_store bd obs) (visits ss (sort (rc_underlying_ids (tl_context tln))))"
      by (rule engine_walk_refines [OF assms(1) dates _ _ walk]) (use strict in \<open>auto simp: Cons sorted_wrt_map intro: less_imp_le\<close>)
    ultimately show ?thesis unfolding ss [symmetric] by (simp add: assms(2))
  qed
qed

text \<open>
  Claim C5: A replay is the assembly of its steps and nothing else. Whatever checkpoints the service holds, as
  long as each has the content of assembly, and whether it caches or not, a run over a timeline yields for
  every step and every underlying, in the order of the steps and then of the ids, the state that
  the live assembly gives at that market time and horizon, and stops at the first one that
  assembly refuses, with its error. The forward-only clock never stops it. The times of the steps lie in the
  years a datetime has, so that the keys of checkpoints are distinct.
\<close>

theorem replay_is_assembly:
  assumes "engine_ok en bd obs e" "tln = build_timeline identity c rs cps os" "list_all step_dates_ok (tl_steps tln)"
  shows "map_sum id (map (stepped_content (se_digest en))) (snd (engine_run en tln None None e))
    = direct_visits (se_digest en) (on_store bd obs) (visits (tl_steps tln) (sort (rc_underlying_ids c)))"
  using engine_run_refines [OF assms, of None] by simp

definition sample_env :: "obs_store \<Rightarrow> service_env" where
  "sample_env obs = \<lparr>se_digest = sample_digest, se_hash = (\<lambda>_. ''h''), se_builder = on_store (sample_builder spot_only) obs, se_now = (\<lambda>_ _. 99)\<rparr>"

definition sample_engine :: replay_engine where
  "sample_engine = \<lparr>re_service = fresh_service True True, re_checkpoints = SERVICE_STORE, re_progress = no_progress\<rparr>"

lemma sample_engine_ok: "engine_ok (sample_env obs) (sample_builder spot_only) obs sample_engine"
  by (simp add: engine_ok_def sample_env_def sample_engine_def service_ok_def fresh_service_def cached_ok_def no_checkpoints_def)

definition sample_rows :: "observation list" where
  "sample_rows = [sample_tick 1 20 30 2 None, sample_tick 1 5 10 1 None]"

definition lockstep_context :: replay_context where
  "lockstep_context = (sample_context STEP_FIXED_INTERVAL)\<lparr>rc_knowledge_mode := LOCKSTEP, rc_pinned_knowledge_horizon := None\<rparr>"

definition sample_timeline :: replay_timeline where
  "sample_timeline = build_timeline ob_ingested_at lockstep_context sample_rows [] []"

lemma sample_steps: "tl_steps sample_timeline = map (\<lambda>(i, t). \<lparr>sp_index = i, sp_market_time = t, sp_knowledge_horizon = t\<rparr>) [(0, 0), (1, 40), (2, 80)]"
  by (simp add: sample_timeline_def timeline_steps instants_of_def lockstep_context_def sample_context_def sample_period_def
      interval_instants.simps make_step_def knowledge_horizon_at_def upto.simps)

lemma sample_dates: "list_all step_dates_ok (tl_steps sample_timeline)"
  by (simp add: sample_steps step_dates_ok_def datetime_ok_def day_of_def epoch_ordinal_def)

theorem replay_is_assembly_witness:
  "map_sum id (map (stepped_content sample_digest)) (snd (engine_run (sample_env (loaded sample_rows)) sample_timeline None None sample_engine))
   = direct_visits sample_digest (on_store (sample_builder spot_only) (loaded sample_rows)) (visits (tl_steps sample_timeline) [1])"
  using replay_is_assembly [OF sample_engine_ok [of "loaded sample_rows"] sample_timeline_def sample_dates]
  by (simp add: sample_env_def lockstep_context_def sample_context_def)

text \<open>Assembly under a policy that judges every category always succeeds, so a run over it does.\<close>

lemma direct_visits_total:
  assumes "judges_all (bd_policy bd)"
  obtains xs where "direct_visits digest (on_store bd obs) vs = Inr xs" "map (\<lambda>x. (fst x, fst (snd x))) xs = vs"
proof -
  have "\<exists>xs. direct_visits digest (on_store bd obs) vs = Inr xs \<and> map (\<lambda>x. (fst x, fst (snd x))) xs = vs"
  proof (induction vs)
    case (Cons v vs)
    obtain s u where v: "v = (s, u)" by fastforce
    have "is_ok (build_state digest (on_store bd obs) 0 u (sp_market_time s) (Some (sp_knowledge_horizon s)))"
      by (rule memory_reads.build_state_total) (use assms in \<open>simp_all add: on_store_def\<close>)
    then show ?case using Cons by (auto simp: v is_ok_iff)
  qed simp
  then show thesis using that by blast
qed

lemma engine_run_total:
  assumes "judges_all (bd_policy bd)" "engine_ok en bd obs e" "tln = build_timeline identity c rs cps os" "list_all step_dates_ok (tl_steps tln)"
  obtains e' sts where "engine_run en tln from_t None e = (e', Inr sts)"
    "map (\<lambda>st. (st_step st, st_underlying_id st)) sts = visits (filter (\<lambda>s. case from_t of None \<Rightarrow> True | Some t \<Rightarrow> t \<le> sp_market_time s) (tl_steps tln)) (sort (rc_underlying_ids c))"
proof -
  obtain xs where xs: "direct_visits (se_digest en) (on_store bd obs)
      (visits (filter (\<lambda>s. case from_t of None \<Rightarrow> True | Some t \<Rightarrow> t \<le> sp_market_time s) (tl_steps tln)) (sort (rc_underlying_ids c))) = Inr xs"
    "map (\<lambda>x. (fst x, fst (snd x))) xs = visits (filter (\<lambda>s. case from_t of None \<Rightarrow> True | Some t \<Rightarrow> t \<le> sp_market_time s) (tl_steps tln)) (sort (rc_underlying_ids c))"
    by (rule direct_visits_total [OF assms(1)])
  obtain e' r where run: "engine_run en tln from_t None e = (e', r)" by fastforce
  with engine_run_refines [OF assms(2-4), of from_t] xs(1)
  obtain sts where sts: "r = Inr sts" "map (stepped_content (se_digest en)) sts = xs" by (cases r) simp_all
  have "map (\<lambda>st. (st_step st, st_underlying_id st)) sts = map (\<lambda>x. (fst x, fst (snd x))) xs"
    by (simp add: sts(2) [symmetric] stepped_content_def)
  with that [OF run [unfolded sts(1)]] xs(2) show thesis by simp
qed

text \<open>
  Claim C34: Resuming is continuing. A run that was interrupted and is resumed from market time \<open>t\<close>, on
  another engine with other checkpoints, yields exactly the part of the uninterrupted run from \<open>t\<close> on.
  Both engines read the same store, their checkpoints have the content of assembly, and the times of
  the steps are dates a datetime has.
\<close>

theorem resumed_run_is_the_rest:
  assumes "engine_ok en bd obs e" "engine_ok en bd obs e'" "tln = build_timeline identity c rs cps os" "list_all step_dates_ok (tl_steps tln)"
    and "snd (engine_run en tln None None e) = Inr whole"
  shows "\<exists>part. snd (engine_run en tln (Some t) None e') = Inr part
    \<and> map (stepped_content (se_digest en)) part = filter (\<lambda>x. t \<le> sp_market_time (fst x)) (map (stepped_content (se_digest en)) whole)"
proof -
  have "direct_visits (se_digest en) (on_store bd obs) (visits (tl_steps tln) (sort (rc_underlying_ids c)))
      = Inr (map (stepped_content (se_digest en)) whole)"
    using engine_run_refines [OF assms(1,3,4), of None] assms(5) by simp
  from direct_visits_filter [OF this, of "\<lambda>s. t \<le> sp_market_time s"]
  have "direct_visits (se_digest en) (on_store bd obs) (visits (filter (\<lambda>s. t \<le> sp_market_time s) (tl_steps tln)) (sort (rc_underlying_ids c)))
      = Inr (filter (\<lambda>x. t \<le> sp_market_time (fst x)) (map (stepped_content (se_digest en)) whole))"
    by (simp only: filter_visits [of "\<lambda>s. t \<le> sp_market_time s"])
  with engine_run_refines [OF assms(2-4), of "Some t"] show ?thesis
    by (cases "snd (engine_run en tln (Some t) None e')") simp_all
qed

theorem resumed_run_is_the_rest_witness:
  "\<exists>whole part. snd (engine_run (sample_env (loaded sample_rows)) sample_timeline None None sample_engine) = Inr whole
     \<and> snd (engine_run (sample_env (loaded sample_rows)) sample_timeline (Some 40) None sample_engine) = Inr part
     \<and> map (stepped_content sample_digest) part = filter (\<lambda>x. 40 \<le> sp_market_time (fst x)) (map (stepped_content sample_digest) whole)"
proof -
  obtain e' whole where "engine_run (sample_env (loaded sample_rows)) sample_timeline None None sample_engine = (e', Inr whole)"
    by (rule engine_run_total [OF sample_judges sample_engine_ok sample_timeline_def sample_dates])
  then have "snd (engine_run (sample_env (loaded sample_rows)) sample_timeline None None sample_engine) = Inr whole" by simp
  from resumed_run_is_the_rest [OF sample_engine_ok sample_engine_ok sample_timeline_def sample_dates this, of 40] this
  show ?thesis by (auto simp: sample_env_def)
qed

text \<open>
  Claim C15: Nothing that becomes known after \<open>t\<close> changes what a lockstep replay showed up to \<open>t\<close>. Two runs over the
  same timeline, one of them with rows in the store that were observed or received only after
  \<open>t\<close>, agree on every step up to \<open>t\<close>. Each engine may hold checkpoints, as long as each has the content of
  assembly over the store of that engine, and the times of the steps are dates a datetime has.
\<close>

theorem replay_never_looks_ahead:
  assumes "engine_ok en bd obs e" "engine_ok en' bd (fst (store_append obs late)) e'" "se_digest en' = se_digest en"
    and "tln = build_timeline identity c rs cps os" "list_all step_dates_ok (tl_steps tln)" "rc_knowledge_mode c = LOCKSTEP"
    and "\<And>r. r \<in> set late \<Longrightarrow> t < ob_observed_at r \<or> t < ob_ingested_at r"
    and "snd (engine_run en tln None None e) = Inr xs" "snd (engine_run en' tln None None e') = Inr ys"
  shows "filter (\<lambda>x. sp_market_time (fst x) \<le> t) (map (stepped_content (se_digest en)) xs)
    = filter (\<lambda>x. sp_market_time (fst x) \<le> t) (map (stepped_content (se_digest en)) ys)"
proof -
  let ?vs = "visits (tl_steps tln) (sort (rc_underlying_ids c))"
  let ?P = "\<lambda>s. sp_market_time s \<le> t"
  have "sp_knowledge_horizon s = sp_market_time s" if "s \<in> set (tl_steps tln)" for s
    using timeline_horizons [of s identity c rs cps os] that assms(4,6) by (simp add: knowledge_horizon_at_def)
  then have "build_state (se_digest en) (on_store bd (fst (store_append obs late))) 0 u (sp_market_time s) (Some (sp_knowledge_horizon s))
      = build_state (se_digest en) (on_store bd obs) 0 u (sp_market_time s) (Some (sp_knowledge_horizon s))"
    if "(s, u) \<in> set (filter (\<lambda>v. ?P (fst v)) ?vs)" for s u
    by (intro build_state_append) (use assms(7) that in \<open>fastforce simp: visits_def\<close>)
  then have "direct_visits (se_digest en) (on_store bd (fst (store_append obs late))) (filter (\<lambda>v. ?P (fst v)) ?vs)
      = direct_visits (se_digest en) (on_store bd obs) (filter (\<lambda>v. ?P (fst v)) ?vs)"
    by (rule direct_visits_cong)
  moreover have "direct_visits (se_digest en) (on_store bd obs) ?vs = Inr (map (stepped_content (se_digest en)) xs)"
    using engine_run_refines [OF assms(1,4,5), of None] assms(8) by simp
  moreover have "direct_visits (se_digest en) (on_store bd (fst (store_append obs late))) ?vs = Inr (map (stepped_content (se_digest en)) ys)"
    using engine_run_refines [OF assms(2,4,5), of None] assms(9) by (simp add: assms(3))
  ultimately show ?thesis using direct_visits_filter [of "se_digest en" _ ?vs _ ?P] by (metis sum.inject(2))
qed

theorem replay_never_looks_ahead_witness:
  "\<exists>xs ys. snd (engine_run (sample_env (loaded sample_rows)) sample_timeline None None sample_engine) = Inr xs
     \<and> snd (engine_run (sample_env (fst (store_append (loaded sample_rows) [sample_tick 1 35 60 3 None]))) sample_timeline None None sample_engine) = Inr ys
     \<and> filter (\<lambda>x. sp_market_time (fst x) \<le> 40) (map (stepped_content sample_digest) xs)
       = filter (\<lambda>x. sp_market_time (fst x) \<le> 40) (map (stepped_content sample_digest) ys)"
proof -
  let ?en = "sample_env (loaded sample_rows)" and ?en' = "sample_env (fst (store_append (loaded sample_rows) [sample_tick 1 35 60 3 None]))"
  obtain e1 xs where "engine_run ?en sample_timeline None None sample_engine = (e1, Inr xs)"
    by (rule engine_run_total [OF sample_judges sample_engine_ok sample_timeline_def sample_dates])
  then have xs: "snd (engine_run ?en sample_timeline None None sample_engine) = Inr xs" by simp
  obtain e2 ys where "engine_run ?en' sample_timeline None None sample_engine = (e2, Inr ys)"
    by (rule engine_run_total [OF sample_judges sample_engine_ok sample_timeline_def sample_dates])
  then have ys: "snd (engine_run ?en' sample_timeline None None sample_engine) = Inr ys" by simp
  have "filter (\<lambda>x. sp_market_time (fst x) \<le> 40) (map (stepped_content (se_digest ?en)) xs)
      = filter (\<lambda>x. sp_market_time (fst x) \<le> 40) (map (stepped_content (se_digest ?en)) ys)"
    by (rule replay_never_looks_ahead [OF sample_engine_ok sample_engine_ok _ sample_timeline_def sample_dates _ _ xs ys])
      (simp_all add: sample_env_def lockstep_context_def sample_tick_def)
  with xs ys show ?thesis by (auto simp: sample_env_def)
qed

section \<open>Counters\<close>

lemma engine_state_at_counts:
  assumes "engine_state_at en c s u e = (e', Inr st)"
  shows "re_progress e' = (let p = re_progress e in p\<lparr>pg_states_built := pg_states_built p + 1,
    pg_checkpoint_hits := pg_checkpoint_hits p + of_bool (st_from_checkpoint st),
    pg_checkpoint_misses := pg_checkpoint_misses p + of_bool (\<not> st_from_checkpoint st)\<rparr>)"
  using assms by (auto simp: engine_state_at_def Let_def split: sum.splits prod.splits if_splits)

definition hits :: "stepped_state list \<Rightarrow> int" where
  "hits sts = int (length (filter st_from_checkpoint sts))"

lemma hits_simps [simp]: "hits [] = 0" "hits (st # sts) = of_bool (st_from_checkpoint st) + hits sts" "hits (xs @ ys) = hits xs + hits ys"
  by (simp_all add: hits_def)

lemma engine_states_counts:
  "engine_states en c s us e = (e', Inr sts) \<Longrightarrow> re_progress e' = (let p = re_progress e in p\<lparr>pg_states_built := pg_states_built p + int (length sts),
    pg_checkpoint_hits := pg_checkpoint_hits p + hits sts, pg_checkpoint_misses := pg_checkpoint_misses p + (int (length sts) - hits sts)\<rparr>)"
proof (induction us arbitrary: e sts)
  case (Cons u us)
  then obtain e1 st sts' where "engine_state_at en c s u e = (e1, Inr st)" "engine_states en c s us e1 = (e', Inr sts')" "sts = st # sts'"
    by (auto split: sum.splits prod.splits)
  with Cons.IH [of e1 sts'] engine_state_at_counts [of en c s u e e1 st] show ?case
    by (cases "st_from_checkpoint st") (simp_all add: Let_def)
qed simp

lemma engine_walk_counts:
  "engine_walk en tln ss clock e = (e', Inr sts) \<Longrightarrow> re_progress e' = (let p = re_progress e in
     \<lparr>pg_steps_completed = pg_steps_completed p + int (length ss), pg_states_built = pg_states_built p + int (length sts),
      pg_checkpoint_hits = pg_checkpoint_hits p + hits sts, pg_checkpoint_misses = pg_checkpoint_misses p + (int (length sts) - hits sts),
      pg_observations_visible = pg_observations_visible p + (\<Sum>s\<leftarrow>ss. int (length (visible_observations tln s)))\<rparr>)"
proof (induction ss arbitrary: clock e sts)
  case Nil
  then show ?case by (cases "re_progress e") simp
next
  case (Cons s ss)
  from Cons.prems obtain clock' e1 a e3 b where
    "engine_states en (tl_context tln) s (sort (rc_underlying_ids (tl_context tln)))
       (e\<lparr>re_progress := (re_progress e)\<lparr>pg_observations_visible := pg_observations_visible (re_progress e) + int (length (visible_observations tln s))\<rparr>\<rparr>) = (e1, Inr a)"
    "engine_walk en tln ss clock' (e1\<lparr>re_progress := (re_progress e1)\<lparr>pg_steps_completed := pg_steps_completed (re_progress e1) + 1\<rparr>\<rparr>) = (e', Inr b)"
    "sts = a @ b"
    by (auto simp: Let_def split: sum.splits prod.splits)
  with Cons.IH [OF this(2)] engine_states_counts [OF this(1)] show ?case by (simp add: Let_def)
qed

lemma length_visits: "length (visits ss us) = length ss * length us"
  by (induction ss) (simp_all add: visits_def)

text \<open>
  Claim C35: A replay whose policy judges every category always completes, with one state per step and
  underlying, and its progress counts what happened: every step completed, every state built, each of them
  either a hit or a miss, the hits being the states reported as from a checkpoint, and the rows visible
  at each step. Its checkpoints have the content of assembly and the times of the steps are dates a
  datetime has.
\<close>

theorem replay_completes_and_counts:
  assumes "judges_all (bd_policy bd)" "engine_ok en bd obs e" "re_progress e = no_progress"
    and "tln = build_timeline identity c rs cps os" "list_all step_dates_ok (tl_steps tln)"
  shows "\<exists>e' sts. engine_run en tln None None e = (e', Inr sts)
    \<and> map (\<lambda>st. (st_step st, st_underlying_id st)) sts = visits (tl_steps tln) (sort (rc_underlying_ids c))
    \<and> length sts = length (tl_steps tln) * length (rc_underlying_ids c)
    \<and> re_progress e' = \<lparr>pg_steps_completed = int (length (tl_steps tln)), pg_states_built = int (length sts),
        pg_checkpoint_hits = int (length (filter st_from_checkpoint sts)),
        pg_checkpoint_misses = int (length (filter (\<lambda>st. \<not> st_from_checkpoint st) sts)),
        pg_observations_visible = (\<Sum>s\<leftarrow>tl_steps tln. int (length (visible_observations tln s)))\<rparr>"
proof -
  obtain e' sts where run: "engine_run en tln None None e = (e', Inr sts)"
    and at: "map (\<lambda>st. (st_step st, st_underlying_id st)) sts = visits (tl_steps tln) (sort (rc_underlying_ids c))"
    by (rule engine_run_total [OF assms(1,2,4,5), of None]) simp
  have len: "length sts = length (tl_steps tln) * length (rc_underlying_ids c)"
    using arg_cong [OF at, of length] by (simp add: length_visits)
  have misses: "int (length sts) - hits sts = int (length (filter (\<lambda>st. \<not> st_from_checkpoint st) sts))"
    using sum_length_filter_compl [of st_from_checkpoint sts] by (simp add: hits_def)
  have "re_progress e' = \<lparr>pg_steps_completed = int (length (tl_steps tln)), pg_states_built = int (length sts),
        pg_checkpoint_hits = hits sts, pg_checkpoint_misses = int (length sts) - hits sts,
        pg_observations_visible = (\<Sum>s\<leftarrow>tl_steps tln. int (length (visible_observations tln s)))\<rparr>"
  proof (cases "tl_steps tln")
    case Nil
    then have "engine_run en tln None None e = (e, Inr [])" by (simp add: engine_run_def)
    with run assms(3) Nil show ?thesis by (simp add: no_progress_def)
  next
    case (Cons s ss)
    then have "engine_walk en tln (tl_steps tln) (sp_market_time s) e = (e', Inr sts)" using run by (simp add: engine_run_def)
    from engine_walk_counts [OF this] show ?thesis by (simp add: assms(3) no_progress_def)
  qed
  then show ?thesis using run at len misses by (simp add: hits_def)
qed

theorem replay_completes_and_counts_witness:
  "\<exists>e' sts. engine_run (sample_env (loaded sample_rows)) sample_timeline None None sample_engine = (e', Inr sts)
     \<and> length sts = 3 \<and> pg_steps_completed (re_progress e') = 3 \<and> pg_states_built (re_progress e') = 3"
proof -
  have "re_progress sample_engine = no_progress" by (simp add: sample_engine_def)
  from replay_completes_and_counts [OF sample_judges sample_engine_ok this sample_timeline_def sample_dates, of "loaded sample_rows"]
  show ?thesis by (auto simp: sample_steps lockstep_context_def sample_context_def)
qed

end
