(* ===== verification/Metrics.thy ===== *)
theory Metrics
  imports Market_State OIP_Time "HOL-Library.Product_Lexorder"
begin

text \<open>
  \<^verbatim>\<open>oipulse/analytics/values.py\<close>, \<^verbatim>\<open>oipulse/signals/model.py\<close> and \<^verbatim>\<open>oipulse/research/access.py\<close>: computed values and
  signals with their identities, and the accessor through which research and backtests read them.
\<close>

section \<open>Values (analytics/values.py)\<close>

datatype scope_kind = SCOPE_UNDERLYING | SCOPE_EXPIRY | SCOPE_STRIKE | SCOPE_CONTRACT

fun scope_word :: "scope_kind \<Rightarrow> string" where
  "scope_word SCOPE_UNDERLYING = ''underlying''"
| "scope_word SCOPE_EXPIRY = ''expiry''"
| "scope_word SCOPE_STRIKE = ''strike''"
| "scope_word SCOPE_CONTRACT = ''contract''"

datatype unavailable_reason =
  QUALITY_NOT_MET | MISSING_INPUT | INSUFFICIENT_HISTORY | DEPENDENCY_UNAVAILABLE | UNDEFINED_VALUE | INVALID_PARAMS

record scope_ref =
  sr_kind :: scope_kind
  sr_ref :: string

definition underlying_scope :: "int \<Rightarrow> scope_ref" where
  "underlying_scope i = \<lparr>sr_kind = SCOPE_UNDERLYING, sr_ref = str_int i\<rparr>"

definition expiry_scope :: "int \<Rightarrow> scope_ref" where
  "expiry_scope i = \<lparr>sr_kind = SCOPE_EXPIRY, sr_ref = str_int i\<rparr>"

definition strike_scope :: "int \<Rightarrow> decimal \<Rightarrow> scope_ref" where
  "strike_scope i k = \<lparr>sr_kind = SCOPE_STRIKE, sr_ref = str_int i @ '':'' @ dec_str k\<rparr>"

definition contract_scope :: "int \<Rightarrow> scope_ref" where
  "contract_scope i = \<lparr>sr_kind = SCOPE_CONTRACT, sr_ref = str_int i\<rparr>"

datatype metric_payload =
    Decimal_Value decimal
  | Int_Value int
  | Text_Value string
  | Table_Value "(string \<times> (decimal + int) option) list"
  | No_Value

record metric_value =
  mv_feature_id :: string
  mv_feature_version :: int
  mv_scope :: scope_ref
  mv_value :: metric_payload
  mv_unit :: string
  mv_observed_at :: instant
  mv_knowledge_horizon :: instant
  mv_computed_at :: instant
  mv_available_at :: instant
  mv_build_context_id :: string
  mv_inputs_digest :: string
  mv_quality_status :: quality_status
  mv_evidence :: "string list"

text \<open>\<open>__post_init__\<close>: True is the ValueError.\<close>

definition metric_refused :: "metric_value \<Rightarrow> bool" where
  "metric_refused v \<longleftrightarrow> mv_available_at v < mv_computed_at v"

type_synonym metric_key = "string \<times> int \<times> string \<times> string \<times> string \<times> string \<times> string"

definition metric_identity :: "metric_value \<Rightarrow> metric_key" where
  "metric_identity v = (mv_feature_id v, mv_feature_version v, scope_word (sr_kind (mv_scope v)), sr_ref (mv_scope v),
     iso_instant (mv_observed_at v), iso_instant (mv_knowledge_horizon v), mv_build_context_id v)"

record unavailable_value =
  ua_feature_id :: string
  ua_feature_version :: int
  ua_scope :: scope_ref
  ua_reason :: unavailable_reason
  ua_detail :: string

section \<open>Signals (signals/model.py)\<close>

datatype signal_status = SIG_FORMING | SIG_ACTIVE | SIG_CONFIRMED | SIG_INVALIDATED | SIG_EXPIRED | SIG_FADED

fun signal_word :: "signal_status \<Rightarrow> string" where
  "signal_word SIG_FORMING = ''FORMING''"
| "signal_word SIG_ACTIVE = ''ACTIVE''"
| "signal_word SIG_CONFIRMED = ''CONFIRMED''"
| "signal_word SIG_INVALIDATED = ''INVALIDATED''"
| "signal_word SIG_EXPIRED = ''EXPIRED''"
| "signal_word SIG_FADED = ''FADED''"

definition signal_terminal :: "signal_status \<Rightarrow> bool" where
  "signal_terminal s \<longleftrightarrow> s = SIG_INVALIDATED \<or> s = SIG_EXPIRED \<or> s = SIG_FADED"

definition signal_actionable :: "signal_status \<Rightarrow> bool" where
  "signal_actionable s \<longleftrightarrow> s = SIG_ACTIVE \<or> s = SIG_CONFIRMED"

datatype evidence_kind = SUPPORTING | CONTRADICTING

record metric_ref =
  mr_feature_id :: string
  mr_feature_version :: int
  mr_scope_kind :: string
  mr_scope_ref :: string
  mr_observed_at :: instant
  mr_knowledge_horizon :: instant
  mr_build_context_id :: string
  mr_inputs_digest :: string
  mr_available_at :: instant

definition versioned :: "string \<Rightarrow> int \<Rightarrow> string" where
  "versioned i v = i @ ''@v'' @ str_int v"

definition metric_ref_label :: "metric_ref \<Rightarrow> string" where
  "metric_ref_label r = versioned (mr_feature_id r) (mr_feature_version r)"

definition metric_ref_key :: "metric_ref \<Rightarrow> metric_key" where
  "metric_ref_key r = (mr_feature_id r, mr_feature_version r, mr_scope_kind r, mr_scope_ref r,
     iso_instant (mr_observed_at r), iso_instant (mr_knowledge_horizon r), mr_build_context_id r)"

record evidence =
  ev_kind :: evidence_kind
  ev_metric :: metric_ref
  ev_statement :: string
  ev_weight :: decimal
  ev_observed_at :: instant
  ev_observation_refs :: "string list"

definition evidence_refused :: "evidence \<Rightarrow> bool" where
  "evidence_refused e \<longleftrightarrow>
     ev_kind e = SUPPORTING \<and> ev_weight e < 0 \<or> ev_kind e = CONTRADICTING \<and> 0 < ev_weight e"

definition evidence_label :: "evidence \<Rightarrow> string" where
  "evidence_label e = metric_ref_label (ev_metric e)"

datatype contradiction = None_Observed | Assessed "evidence list"

record signal_provenance =
  sg_rule_type :: string
  sg_rule_version :: int
  sg_config_digest :: string
  sg_feature_versions :: "(string \<times> int) list"
  sg_inputs_digest :: string
  sg_strength_function :: string
  sg_strength_function_version :: int
  sg_build_context_id :: string
  sg_state_checkpoint_ref :: "string option"

record signal_identity =
  sy_signal_type :: string
  sy_rule_version :: int
  sy_underlying_id :: int
  sy_expiry_id :: "int option"
  sy_market_time :: instant
  sy_knowledge_horizon :: instant
  sy_build_context_id :: string
  sy_config_digest :: string
  sy_occurrence :: int

text \<open>The id is a digest of the whole identity, the parameter \<open>digest\<close>.\<close>

type_synonym signal_digest = "signal_identity \<Rightarrow> string"

definition signal_id_of :: "signal_digest \<Rightarrow> signal_identity \<Rightarrow> string" where
  "signal_id_of digest i = ''sig_'' @ take 32 (digest i)"

type_synonym stream_key = "(string \<times> int \<times> int \<times> int option) \<times> int"

definition stream_key :: "signal_identity \<Rightarrow> stream_key" where
  "stream_key i = ((sy_signal_type i, sy_rule_version i, sy_underlying_id i, sy_expiry_id i), sy_occurrence i)"

record signal =
  sg_identity :: signal_identity
  sg_horizon :: duration
  sg_status :: signal_status
  sg_strength :: decimal
  sg_evidence :: "evidence list"
  sg_contradiction :: contradiction
  sg_invalidation_condition :: string
  sg_provenance :: signal_provenance
  sg_created_at :: instant
  sg_updated_at :: instant
  sg_available_at :: instant
  sg_expires_at :: instant
  sg_quality_status :: quality_status
  sg_history :: "(string \<times> instant) list"

text \<open>\<open>str.strip\<close> of a string of bytes read as Latin-1.\<close>

definition is_blank :: "char \<Rightarrow> bool" where
  "is_blank c \<longleftrightarrow> (let n = (of_char c :: nat) in 9 \<le> n \<and> n \<le> 13 \<or> 28 \<le> n \<and> n \<le> 32 \<or> n = 133 \<or> n = 160)"

definition str_strip :: "string \<Rightarrow> string" where
  "str_strip s = rev (dropWhile is_blank (rev (dropWhile is_blank s)))"

datatype signal_error =
    Blank_Invalidation
  | Available_Before_Market
  | Illegal_Signal_Transition signal_status signal_status
  | Knowledge_Before_Market
  | Bad_Interval
  | Unorderable_Inputs

definition check_signal :: "signal \<Rightarrow> signal_error option" where
  "check_signal s =
     (if str_strip (sg_invalidation_condition s) = [] then Some Blank_Invalidation
      else if sg_available_at s < sy_market_time (sg_identity s) then Some Available_Before_Market
      else None)"

definition construct_signal :: "signal \<Rightarrow> signal_error + signal" where
  "construct_signal s = (case check_signal s of Some e \<Rightarrow> Inl e | None \<Rightarrow> Inr s)"

definition signal_id :: "signal_digest \<Rightarrow> signal \<Rightarrow> string" where
  "signal_id digest s = signal_id_of digest (sg_identity s)"

definition signal_supporting :: "signal \<Rightarrow> evidence list" where
  "signal_supporting s = filter (\<lambda>e. ev_kind e = SUPPORTING) (sg_evidence s)"

definition assessed_evidence :: "contradiction \<Rightarrow> evidence list" where
  "assessed_evidence c = (case c of None_Observed \<Rightarrow> [] | Assessed es \<Rightarrow> es)"

definition contradiction_was_assessed :: "signal \<Rightarrow> bool" where
  "contradiction_was_assessed s \<longleftrightarrow> sg_contradiction s = None_Observed \<or> assessed_evidence (sg_contradiction s) \<noteq> []"

definition signal_metric_refs :: "signal \<Rightarrow> metric_ref list" where
  "signal_metric_refs s = sort_key (\<lambda>r. (mr_feature_id r, mr_feature_version r, mr_scope_ref r))
     (map ev_metric (signal_supporting s @ assessed_evidence (sg_contradiction s)))"

section \<open>The accessor (research/access.py)\<close>

datatype access_error =
    Feature_Not_Present string int
  | Feature_Look_Ahead string int instant instant
  | Signal_Not_Present string
  | Signal_Look_Ahead string instant instant

record accessor =
  ac_metrics :: "metric_value list"
  ac_signals :: "signal list"

text \<open>\<open>max(xs, key=f)\<close> and \<open>min(xs, key=f)\<close> keep the first of equals; they are only applied to non-empty lists.\<close>

fun max_by :: "('a \<Rightarrow> 'b :: linorder) \<Rightarrow> 'a \<Rightarrow> 'a list \<Rightarrow> 'a" where
  "max_by f x [] = x"
| "max_by f x (y # ys) = max_by f (if f x < f y then y else x) ys"

fun min_by :: "('a \<Rightarrow> 'b :: linorder) \<Rightarrow> 'a \<Rightarrow> 'a list \<Rightarrow> 'a" where
  "min_by f x [] = x"
| "min_by f x (y # ys) = min_by f (if f y < f x then y else x) ys"

definition is_candidate :: "string \<Rightarrow> int \<Rightarrow> string option \<Rightarrow> metric_value \<Rightarrow> bool" where
  "is_candidate i v scope m \<longleftrightarrow> mv_feature_id m = i \<and> mv_feature_version m = v
     \<and> (case scope of None \<Rightarrow> True | Some r \<Rightarrow> sr_ref (mv_scope m) = r)"

definition get_feature :: "accessor \<Rightarrow> string \<Rightarrow> int \<Rightarrow> instant \<Rightarrow> string option \<Rightarrow> access_error + metric_value" where
  "get_feature a i v t scope =
     (case filter (is_candidate i v scope) (ac_metrics a) of
        [] \<Rightarrow> Inl (Feature_Not_Present i v)
      | c # cs \<Rightarrow>
          (case filter (\<lambda>m. mv_available_at m \<le> t) (c # cs) of
             [] \<Rightarrow> Inl (Feature_Look_Ahead i v (mv_available_at (min_by mv_available_at c cs)) t)
           | m # ms \<Rightarrow> Inr (max_by (\<lambda>m. (mv_available_at m, mv_observed_at m)) m ms)))"

definition try_feature :: "accessor \<Rightarrow> string \<Rightarrow> int \<Rightarrow> instant \<Rightarrow> string option \<Rightarrow> metric_value option" where
  "try_feature a i v t scope = (case get_feature a i v t scope of Inl _ \<Rightarrow> None | Inr m \<Rightarrow> Some m)"

definition available_features :: "accessor \<Rightarrow> instant \<Rightarrow> metric_value list" where
  "available_features a t =
     sort_key (\<lambda>m. (mv_feature_id m, mv_feature_version m, sr_ref (mv_scope m), mv_observed_at m))
       (filter (\<lambda>m. mv_available_at m \<le> t) (ac_metrics a))"

definition get_signal :: "signal_digest \<Rightarrow> accessor \<Rightarrow> string \<Rightarrow> instant \<Rightarrow> access_error + signal" where
  "get_signal digest a i t = (case find (\<lambda>s. signal_id digest s = i) (ac_signals a) of
      None \<Rightarrow> Inl (Signal_Not_Present i)
    | Some s \<Rightarrow> if t < sg_available_at s then Inl (Signal_Look_Ahead i (sg_available_at s) t) else Inr s)"

definition available_signals :: "signal_digest \<Rightarrow> accessor \<Rightarrow> instant \<Rightarrow> signal list" where
  "available_signals digest a t =
     sort_key (\<lambda>s. (sg_available_at s, signal_id digest s)) (filter (\<lambda>s. sg_available_at s \<le> t) (ac_signals a))"

definition knowledge_at :: "accessor \<Rightarrow> instant \<Rightarrow> accessor" where
  "knowledge_at a k = \<lparr>ac_metrics = filter (\<lambda>m. mv_knowledge_horizon m \<le> k) (ac_metrics a),
     ac_signals = filter (\<lambda>s. sy_knowledge_horizon (sg_identity s) \<le> k) (ac_signals a)\<rparr>"

definition accessor_coverage :: "accessor \<Rightarrow> int \<times> int" where
  "accessor_coverage a = (int (length (ac_metrics a)), int (length (ac_signals a)))"

definition sorted_metrics :: "metric_value list \<Rightarrow> metric_value list" where
  "sorted_metrics vs = sort_key (\<lambda>m. (mv_feature_id m, mv_feature_version m, scope_word (sr_kind (mv_scope m)),
     sr_ref (mv_scope m), mv_observed_at m, mv_knowledge_horizon m, mv_inputs_digest m)) vs"

section \<open>What the accessor serves\<close>

lemma max_by_greatest: "y \<in> set (x # ys) \<Longrightarrow> f y \<le> f (max_by f x ys)"
proof (induction ys arbitrary: x y)
  case (Cons z zs)
  have "f (if f x < f z then z else x) \<le> f (max_by f x (z # zs))" using Cons.IH by simp
  moreover have "f y \<le> f (if f x < f z then z else x) \<or> y \<in> set zs" using Cons.prems by auto
  ultimately show ?case using Cons.IH [of y "if f x < f z then z else x"] by (metis list.set_intros(2) max_by.simps(2) order_trans)
qed simp

lemma max_by_member: "max_by f x ys \<in> set (x # ys)"
proof (induction ys arbitrary: x)
  case (Cons z zs)
  have "max_by f (if f x < f z then z else x) zs \<in> set ((if f x < f z then z else x) # zs)" by (rule Cons.IH)
  then show ?case by (auto split: if_splits)
qed simp

lemma get_feature_Inr:
  assumes "get_feature a i v t scope = Inr m"
  shows "m \<in> set (ac_metrics a) \<and> is_candidate i v scope m \<and> mv_available_at m \<le> t
    \<and> (\<forall>n \<in> set (ac_metrics a). is_candidate i v scope n \<and> mv_available_at n \<le> t
         \<longrightarrow> (mv_available_at n, mv_observed_at n) \<le> (mv_available_at m, mv_observed_at m))"
proof -
  let ?f = "\<lambda>m. (mv_available_at m, mv_observed_at m)"
  from assms obtain c cs n ns where e: "filter (is_candidate i v scope) (ac_metrics a) = c # cs"
      "filter (\<lambda>m. mv_available_at m \<le> t) (c # cs) = n # ns" "m = max_by ?f n ns"
    unfolding get_feature_def by (auto split: list.splits)
  have s: "set (n # ns) = {m \<in> set (ac_metrics a). is_candidate i v scope m \<and> mv_available_at m \<le> t}"
    unfolding e(2) [symmetric] e(1) [symmetric] by auto
  have "m \<in> set (n # ns)" unfolding e(3) by (rule max_by_member)
  moreover have "\<forall>k \<in> set (n # ns). ?f k \<le> ?f m" unfolding e(3) using max_by_greatest [of _ n ns ?f] by blast
  ultimately show ?thesis unfolding s by blast
qed

text \<open>
  Claim C37: The accessor never serves what was not available. A feature that is served is a row of the
  dataset of exactly the pinned version and scope, available by the decision point, and the latest such row;
  a request fails exactly when no such row exists, and then says whether there is a later one. The listings
  contain exactly what was available.
\<close>

theorem accessor_refuses_look_ahead:
  shows "(get_feature a i v t scope = Inr m \<longrightarrow>
      m \<in> set (ac_metrics a) \<and> is_candidate i v scope m \<and> mv_available_at m \<le> t
      \<and> (\<forall>n \<in> set (ac_metrics a). is_candidate i v scope n \<and> mv_available_at n \<le> t \<longrightarrow> mv_available_at n \<le> mv_available_at m))
    \<and> (is_ok (get_feature a i v t scope) \<longleftrightarrow> (\<exists>n \<in> set (ac_metrics a). is_candidate i v scope n \<and> mv_available_at n \<le> t))
    \<and> (get_feature a i v t scope = Inl (Feature_Not_Present i v) \<longleftrightarrow> \<not> (\<exists>n \<in> set (ac_metrics a). is_candidate i v scope n))
    \<and> set (available_features a t) = {n \<in> set (ac_metrics a). mv_available_at n \<le> t}
    \<and> set (available_signals digest a t) = {s \<in> set (ac_signals a). sg_available_at s \<le> t}"
proof (intro conjI impI)
  assume "get_feature a i v t scope = Inr m"
  from get_feature_Inr [OF this]
  show "m \<in> set (ac_metrics a)" "is_candidate i v scope m" "mv_available_at m \<le> t"
    "\<forall>n \<in> set (ac_metrics a). is_candidate i v scope n \<and> mv_available_at n \<le> t \<longrightarrow> mv_available_at n \<le> mv_available_at m"
    by auto
next
  have "is_ok (get_feature a i v t scope) \<longleftrightarrow> filter (\<lambda>m. mv_available_at m \<le> t) (filter (is_candidate i v scope) (ac_metrics a)) \<noteq> []"
    unfolding get_feature_def
    by (cases "filter (is_candidate i v scope) (ac_metrics a)";
        cases "filter (\<lambda>m. mv_available_at m \<le> t) (filter (is_candidate i v scope) (ac_metrics a))") simp_all
  then show "is_ok (get_feature a i v t scope) \<longleftrightarrow> (\<exists>n \<in> set (ac_metrics a). is_candidate i v scope n \<and> mv_available_at n \<le> t)"
    by (auto simp: filter_empty_conv)
next
  have "get_feature a i v t scope = Inl (Feature_Not_Present i v) \<longleftrightarrow> filter (is_candidate i v scope) (ac_metrics a) = []"
    unfolding get_feature_def
    by (cases "filter (is_candidate i v scope) (ac_metrics a)") (simp_all split: list.split)
  then show "get_feature a i v t scope = Inl (Feature_Not_Present i v) \<longleftrightarrow> \<not> (\<exists>n \<in> set (ac_metrics a). is_candidate i v scope n)"
    by (auto simp: filter_empty_conv)
qed (simp_all add: available_features_def available_signals_def)

definition sample_metric :: "string \<Rightarrow> int \<Rightarrow> instant \<Rightarrow> instant \<Rightarrow> metric_value" where
  "sample_metric i v observed available = \<lparr>mv_feature_id = i, mv_feature_version = v, mv_scope = underlying_scope 1, mv_value = Int_Value 7,
     mv_unit = ''ratio'', mv_observed_at = observed, mv_knowledge_horizon = observed, mv_computed_at = observed,
     mv_available_at = available, mv_build_context_id = ''bc'', mv_inputs_digest = ''d'', mv_quality_status = QS_OK, mv_evidence = []\<rparr>"

definition sample_accessor :: accessor where
  "sample_accessor = \<lparr>ac_metrics = [sample_metric ''pcr'' 2 0 5, sample_metric ''pcr'' 3 10 12, sample_metric ''pcr'' 2 10 15, sample_metric ''pcr'' 2 20 25],
     ac_signals = []\<rparr>"

theorem accessor_refuses_look_ahead_witness:
  "get_feature sample_accessor ''pcr'' 2 20 None = Inr (sample_metric ''pcr'' 2 10 15) \<and> mv_available_at (sample_metric ''pcr'' 2 10 15) \<le> 20"
proof -
  have "get_feature sample_accessor ''pcr'' 2 20 None = Inr (sample_metric ''pcr'' 2 10 15)"
    by (simp add: get_feature_def sample_accessor_def is_candidate_def sample_metric_def)
  with accessor_refuses_look_ahead [where a = sample_accessor and i = "''pcr''" and v = 2 and t = 20 and scope = None]
  show ?thesis by blast
qed

end
