(* ===== verification/Backtest.thy ===== *)
theory Backtest
  imports Replay_Guarantees Metrics Ledger_Guarantees
begin

text \<open>
  \<^verbatim>\<open>oipulse/backtest/strategy.py\<close>, \<^verbatim>\<open>risk.py\<close>, \<^verbatim>\<open>runner.py\<close> and \<^verbatim>\<open>result.py\<close>: what a strategy sees, the seam for a risk
  engine, the walk over the timeline with a strategy attached, and the result with its statistics. A strategy
  is a function from its own state and the context to its next state and its intents, or \<open>None\<close> where it
  raises; its intents are those their constructor accepts. An exception ends the run with an error, and what
  the objects the caller passed in hold after that is not modelled.
\<close>

section \<open>What a strategy sees (strategy.py)\<close>

record strategy_spec =
  ssp_strategy_id :: string
  ssp_version :: int
  ssp_definition :: string
  ssp_config :: "(string \<times> string) list"

definition spec_label :: "strategy_spec \<Rightarrow> string" where
  "spec_label s = versioned (ssp_strategy_id s) (ssp_version s)"

definition spec_get :: "strategy_spec \<Rightarrow> string \<Rightarrow> string \<Rightarrow> string" where
  "spec_get s name otherwise = (case map_of (ssp_config s) name of None \<Rightarrow> otherwise | Some v \<Rightarrow> v)"

text \<open>The digest covers the id, the version and the configuration as a dictionary, where the last of equal keys wins.\<close>

type_synonym spec_content = "string \<times> int \<times> (string, string) dict"

definition spec_content :: "strategy_spec \<Rightarrow> spec_content" where
  "spec_content s = (ssp_strategy_id s, ssp_version s, foldl (\<lambda>d (k, v). dict_set k v d) [] (sort (ssp_config s)))"

definition spec_digest :: "(spec_content \<Rightarrow> string) \<Rightarrow> strategy_spec \<Rightarrow> string" where
  "spec_digest hash s = ''stg_'' @ take 24 (hash (spec_content s))"

record feature_view =
  fv_accessor :: accessor
  fv_at :: instant

definition view_feature :: "feature_view \<Rightarrow> string \<Rightarrow> int \<Rightarrow> string option \<Rightarrow> access_error + metric_value" where
  "view_feature v i n scope = get_feature (fv_accessor v) i n (fv_at v) scope"

definition view_features :: "feature_view \<Rightarrow> metric_value list" where
  "view_features v = available_features (fv_accessor v) (fv_at v)"

definition view_has :: "feature_view \<Rightarrow> string \<Rightarrow> int \<Rightarrow> bool" where
  "view_has v i n \<longleftrightarrow> is_ok (get_feature (fv_accessor v) i n (fv_at v) None)"

record signal_view =
  gv_accessor :: accessor
  gv_at :: instant

definition view_signals :: "signal_digest \<Rightarrow> signal_view \<Rightarrow> signal list" where
  "view_signals digest v = available_signals digest (gv_accessor v) (gv_at v)"

definition signals_of_type :: "signal_digest \<Rightarrow> signal_view \<Rightarrow> string \<Rightarrow> signal list" where
  "signals_of_type digest v t = filter (\<lambda>s. sy_signal_type (sg_identity s) = t) (view_signals digest v)"

record account_view =
  av_cash :: decimal
  av_positions :: "(int \<times> int) list"

definition view_position :: "account_view \<Rightarrow> int \<Rightarrow> int" where
  "view_position v i = (case map_of (av_positions v) i of None \<Rightarrow> 0 | Some q \<Rightarrow> q)"

definition view_is_flat :: "account_view \<Rightarrow> bool" where
  "view_is_flat v \<longleftrightarrow> list_all (\<lambda>p. snd p = 0) (av_positions v)"

record strategy_context =
  cx_run_id :: string
  cx_state :: market_state
  cx_features :: feature_view
  cx_signals :: signal_view
  cx_account :: account_view
  cx_now :: instant
  cx_knowledge_horizon :: instant

definition build_strategy_context ::
  "string \<Rightarrow> market_state \<Rightarrow> accessor \<Rightarrow> account_view \<Rightarrow> instant \<Rightarrow> instant \<Rightarrow> strategy_context" where
  "build_strategy_context run m a account t k =
     (let narrowed = knowledge_at a k
      in \<lparr>cx_run_id = run, cx_state = m, cx_features = \<lparr>fv_accessor = narrowed, fv_at = t\<rparr>,
          cx_signals = \<lparr>gv_accessor = narrowed, gv_at = t\<rparr>, cx_account = account, cx_now = t, cx_knowledge_horizon = k\<rparr>)"

section \<open>The risk seam (risk.py)\<close>

datatype risk_verdict = VERDICT_APPROVED | VERDICT_REJECTED

record risk_stub =
  rk_intent_id :: string
  rk_verdict :: risk_verdict
  rk_evaluated :: bool

record backtest_gate =
  gt_name :: string
  gt_evaluates_risk :: bool
  gt_evaluate :: "strategy_intent \<Rightarrow> risk_stub"

definition unconstrained_risk :: "(strategy_content \<Rightarrow> string) \<Rightarrow> backtest_gate" where
  "unconstrained_risk digest = \<lparr>gt_name = ''UNCONSTRAINED'', gt_evaluates_risk = False,
     gt_evaluate = (\<lambda>i. \<lparr>rk_intent_id = strategy_intent_id digest i, rk_verdict = VERDICT_APPROVED, rk_evaluated = False\<rparr>)\<rparr>"

section \<open>The runner (runner.py)\<close>

record scheduled_intent =
  sd_intent :: strategy_intent
  sd_due :: nat

datatype backtest_error =
    Replay_Failed replay_error
  | Pricing_Failed pricing_error
  | Strategy_Raised
  | Opening_Cash_Negative

record 's backtest_setup =
  bk_env :: service_env
  bk_fill_model :: fill_model
  bk_opening_cash :: decimal
  bk_gate :: backtest_gate
  bk_accessor :: accessor
  bk_intent_digest :: "strategy_content \<Rightarrow> string"
  bk_draw :: "string \<Rightarrow> int"
  bk_spec :: strategy_spec
  bk_on_state :: "'s \<Rightarrow> strategy_context \<Rightarrow> ('s \<times> strategy_intent list) option"

record 's backtest =
  bt_engine :: replay_engine
  bt_strategy :: 's
  bt_book :: ledger
  bt_pending :: "(nat, scheduled_intent list) dict"
  bt_outcomes :: "fill_outcome list"
  bt_fills :: "fill list"
  bt_generated :: int
  bt_risk_rejected :: int
  bt_expired :: int
  bt_peak :: decimal
  bt_drawdown :: decimal
  bt_last_states :: "market_state list"

text \<open>The first step at or after the decision plus the latency.\<close>

fun first_index :: "('a \<Rightarrow> bool) \<Rightarrow> nat \<Rightarrow> 'a list \<Rightarrow> nat option" where
  "first_index P n [] = None"
| "first_index P n (x # xs) = (if P x then Some n else first_index P (Suc n) xs)"

definition execution_step_index :: "fill_model \<Rightarrow> replay_timeline \<Rightarrow> instant \<Rightarrow> nat option" where
  "execution_step_index m tln decided_at =
     (let target = decided_at + fm_latency m in first_index (\<lambda>s. target \<le> sp_market_time s) 0 (tl_steps tln))"

definition closing_marks :: "market_state list \<Rightarrow> (int, decimal) dict" where
  "closing_marks ms =
     foldl (\<lambda>d l. case ol_ltp l of None \<Rightarrow> d | Some p \<Rightarrow> dict_set (ol_instrument_id l) p d) []
       (concat (map (\<lambda>m. concat (map es_legs (mst_expiries m))) ms))"

text \<open>\<open>_execute\<close>: the states in order, until one of them gives a fill or a real rejection.\<close>

fun execute_intent ::
  "(strategy_content \<Rightarrow> string) \<Rightarrow> (string \<Rightarrow> int) \<Rightarrow> fill_model \<Rightarrow> strategy_intent \<Rightarrow> market_state list \<Rightarrow> fill_outcome option
   \<Rightarrow> ledger \<Rightarrow> backtest_error + ledger \<times> fill_outcome" where
  "execute_intent digest draw m i [] latest book =
     Inr (book, case latest of None \<Rightarrow> rejected_fill (strategy_intent_id digest i) FILL_NO_PRICE_AVAILABLE | Some oc \<Rightarrow> oc)"
| "execute_intent digest draw m i (c # cs) latest book =
     (case simulate_fill digest draw i c m of
        Inl e \<Rightarrow> Inl (Pricing_Failed e)
      | Inr oc \<Rightarrow>
          (case fo_fill oc of
             Some f \<Rightarrow> (case ledger_apply book f of (_, Inl e) \<Rightarrow> Inl (Pricing_Failed e) | (book', Inr _) \<Rightarrow> Inr (book', oc))
           | None \<Rightarrow>
               if fo_rejection oc \<noteq> Some FILL_NO_PRICE_AVAILABLE then Inr (book, oc)
               else execute_intent digest draw m i cs (Some oc) book))"

fun execute_due ::
  "'s backtest_setup \<Rightarrow> market_state list \<Rightarrow> scheduled_intent list \<Rightarrow> 's backtest \<Rightarrow> backtest_error + 's backtest" where
  "execute_due k ms [] bt = Inr bt"
| "execute_due k ms (sd # sds) bt =
     bind_result (execute_intent (bk_intent_digest k) (bk_draw k) (bk_fill_model k) (sd_intent sd) ms None (bt_book bt))
       (\<lambda>(book, oc). execute_due k ms sds (bt\<lparr>bt_book := book, bt_outcomes := bt_outcomes bt @ [oc],
          bt_fills := bt_fills bt @ (case fo_fill oc of None \<Rightarrow> [] | Some f \<Rightarrow> [f])\<rparr>))"

definition measure_drawdown :: "replay_step \<Rightarrow> 's backtest \<Rightarrow> 's backtest" where
  "measure_drawdown s bt =
     (let snapshot = ledger_snapshot_at (bt_book bt) (sp_market_time s) (closing_marks (bt_last_states bt));
          peak = dec_max (bt_peak bt) (equity snapshot)
      in bt\<lparr>bt_peak := peak, bt_drawdown := dec_max (bt_drawdown bt) (peak - equity snapshot)\<rparr>)"

text \<open>Gating and scheduling one intent.\<close>

definition schedule_intent :: "'s backtest_setup \<Rightarrow> replay_timeline \<Rightarrow> 's backtest \<Rightarrow> strategy_intent \<Rightarrow> 's backtest" where
  "schedule_intent k tln bt i =
     (if rk_verdict (gt_evaluate (bk_gate k) i) = VERDICT_REJECTED then bt\<lparr>bt_risk_rejected := bt_risk_rejected bt + 1\<rparr>
      else case execution_step_index (bk_fill_model k) tln (si_decision_time i) of
             None \<Rightarrow> bt\<lparr>bt_expired := bt_expired bt + 1\<rparr>
           | Some due \<Rightarrow>
               bt\<lparr>bt_pending := dict_set due
                    ((case dict_get (bt_pending bt) due of None \<Rightarrow> [] | Some sds \<Rightarrow> sds) @ [\<lparr>sd_intent = i, sd_due = due\<rparr>])
                    (bt_pending bt)\<rparr>)"

definition account_view_of :: "ledger \<Rightarrow> account_view" where
  "account_view_of book = \<lparr>av_cash = lg_cash book,
     av_positions = map (\<lambda>p. (pos_instrument_id p, pos_quantity p)) (open_positions book)\<rparr>"

definition decide ::
  "'s backtest_setup \<Rightarrow> replay_timeline \<Rightarrow> replay_step \<Rightarrow> stepped_state \<Rightarrow> 's backtest \<Rightarrow> backtest_error + 's backtest" where
  "decide k tln s st bt =
     (case bk_on_state k (bt_strategy bt)
        (build_strategy_context (rc_run_id (tl_context tln)) (st_state st) (bk_accessor k) (account_view_of (bt_book bt))
           (sp_market_time s) (sp_knowledge_horizon s)) of
        None \<Rightarrow> Inl Strategy_Raised
      | Some (strategy, intents) \<Rightarrow>
          Inr (foldl (schedule_intent k tln) (bt\<lparr>bt_strategy := strategy, bt_generated := bt_generated bt + int (length intents)\<rparr>) intents))"

fun decide_all ::
  "'s backtest_setup \<Rightarrow> replay_timeline \<Rightarrow> replay_step \<Rightarrow> stepped_state list \<Rightarrow> 's backtest \<Rightarrow> backtest_error + 's backtest" where
  "decide_all k tln s [] bt = Inr bt"
| "decide_all k tln s (st # sts) bt = bind_result (decide k tln s st bt) (decide_all k tln s sts)"

text \<open>One turn of the loop; \<open>by_instrument\<close> is a dictionary read in the order of its keys.\<close>

definition by_instrument :: "stepped_state list \<Rightarrow> stepped_state list" where
  "by_instrument sts = sorted_values (foldl (\<lambda>d st. dict_set (st_underlying_id st) st d) [] sts)"

definition backtest_step ::
  "'s backtest_setup \<Rightarrow> replay_timeline \<Rightarrow> nat \<Rightarrow> replay_step \<Rightarrow> 's backtest \<Rightarrow> backtest_error + 's backtest" where
  "backtest_step k tln n s bt =
     (case engine_states (bk_env k) (tl_context tln) s (sort (rc_underlying_ids (tl_context tln))) (bt_engine bt) of
        (_, Inl e) \<Rightarrow> Inl (Replay_Failed e)
      | (engine, Inr sts) \<Rightarrow>
          (let due = (case dict_get (bt_pending bt) n of None \<Rightarrow> [] | Some sds \<Rightarrow> sds);
               bt = bt\<lparr>bt_engine := engine, bt_last_states := map st_state sts, bt_pending := dict_pop n (bt_pending bt)\<rparr>
           in bind_result (execute_due k (map st_state sts) due bt)
                (\<lambda>bt. decide_all k tln s (by_instrument sts) (measure_drawdown s bt))))"

fun backtest_loop ::
  "'s backtest_setup \<Rightarrow> replay_timeline \<Rightarrow> nat \<Rightarrow> replay_step list \<Rightarrow> 's backtest \<Rightarrow> backtest_error + 's backtest" where
  "backtest_loop k tln n [] bt = Inr bt"
| "backtest_loop k tln n (s # ss) bt = bind_result (backtest_step k tln n s bt) (backtest_loop k tln (Suc n) ss)"

definition still_pending :: "(nat, scheduled_intent list) dict \<Rightarrow> int" where
  "still_pending d = sum_list (map (\<lambda>e. int (length (snd e))) d)"

section \<open>The result (result.py)\<close>

fun rejection_word :: "rejection_reason \<Rightarrow> string" where
  "rejection_word FILL_NO_PRICE_AVAILABLE = ''NO_PRICE_AVAILABLE''"
| "rejection_word FILL_LIMIT_NOT_MARKETABLE = ''LIMIT_NOT_MARKETABLE''"
| "rejection_word FILL_NO_LIQUIDITY = ''NO_LIQUIDITY''"
| "rejection_word FILL_STALE_QUOTE = ''STALE_QUOTE''"
| "rejection_word FILL_MODELLED_REJECTION = ''MODELLED_REJECTION''"

record backtest_statistics =
  bs_intents_generated :: int
  bs_intents_rejected_by_risk :: int
  bs_orders_submitted :: int
  bs_fills :: int
  bs_partial_fills :: int
  bs_rejections :: int
  bs_assumption_based_fills :: int
  bs_rejection_reasons :: "(string \<times> int) list"
  bs_gross_pnl :: decimal
  bs_fees :: decimal
  bs_slippage_cost :: decimal
  bs_net_pnl :: decimal
  bs_realized_pnl :: decimal
  bs_unrealized_pnl :: decimal
  bs_max_drawdown :: decimal
  bs_turnover :: decimal

definition fill_rate :: "backtest_statistics \<Rightarrow> rat" where
  "fill_rate s = (if bs_orders_submitted s = 0 then 0 else int_truediv (bs_fills s) (bs_orders_submitted s))"

datatype coverage_warning = Expired_Unfilled int duration | Never_Executed int

text \<open>
  The fill model stands for its digest and its assumption set, which is a rendering of its fields; the
  metadata of the execution is a separate part that the content hash does not receive.
\<close>

record backtest_result =
  br_run_id :: string
  br_strategy_digest :: string
  br_strategy_label :: string
  br_replay_digest :: string
  br_build_context_id :: string
  br_fill_model :: fill_model
  br_statistics :: backtest_statistics
  br_final_ledger :: ledger_snapshot
  br_fills :: "fill list"
  br_outcomes :: "fill_outcome list"
  br_assumption_based :: bool
  br_risk_evaluated :: bool
  br_coverage_warnings :: "coverage_warning list"
  br_executed_at :: "instant option"

type_synonym result_content =
  "(string \<times> string \<times> string \<times> fill_model) \<times> backtest_statistics \<times> ledger_snapshot \<times> fill list
   \<times> bool \<times> bool \<times> coverage_warning list"

definition result_content :: "backtest_result \<Rightarrow> result_content" where
  "result_content r = ((br_strategy_digest r, br_replay_digest r, br_build_context_id r, br_fill_model r), br_statistics r,
     br_final_ledger r, br_fills r, br_assumption_based r, br_risk_evaluated r, br_coverage_warnings r)"

datatype caveat =
    Assumed_Spread_Fills int
  | No_Risk_Engine
  | Unmarked_Positions int
  | Coverage coverage_warning
  | Model_Not_Certainty

definition caveats :: "backtest_result \<Rightarrow> caveat list" where
  "caveats r =
     (if br_assumption_based r then [Assumed_Spread_Fills (bs_assumption_based_fills (br_statistics r))] else [])
     @ (if \<not> br_risk_evaluated r then [No_Risk_Engine] else [])
     @ (if ls_unmarked_instruments (br_final_ledger r) \<noteq> [] then [Unmarked_Positions (int (length (ls_unmarked_instruments (br_final_ledger r))))] else [])
     @ map Coverage (br_coverage_warnings r) @ [Model_Not_Certainty]"

definition rejection_counts :: "fill_outcome list \<Rightarrow> (string, int) dict" where
  "rejection_counts ocs =
     foldl (\<lambda>d oc. case fo_rejection oc of None \<Rightarrow> d
              | Some r \<Rightarrow> dict_set (rejection_word r) ((case dict_get d (rejection_word r) of None \<Rightarrow> 0 | Some n \<Rightarrow> n) + 1) d) [] ocs"

definition backtest_statistics_of :: "'s backtest \<Rightarrow> ledger_snapshot \<Rightarrow> backtest_statistics" where
  "backtest_statistics_of bt snapshot = \<lparr>
     bs_intents_generated = bt_generated bt,
     bs_intents_rejected_by_risk = bt_risk_rejected bt,
     bs_orders_submitted = int (length (bt_outcomes bt)),
     bs_fills = int (length (bt_fills bt)),
     bs_partial_fills = int (length (filter is_partial (bt_fills bt))),
     bs_rejections = int (length (filter (\<lambda>oc. fo_rejection oc \<noteq> None) (bt_outcomes bt))),
     bs_assumption_based_fills = int (length (filter fl_assumption_based (bt_fills bt))),
     bs_rejection_reasons = sort (rejection_counts (bt_outcomes bt)),
     bs_gross_pnl = gross_pnl snapshot,
     bs_fees = ls_fees snapshot,
     bs_slippage_cost = ls_slippage_cost snapshot,
     bs_net_pnl = net_pnl snapshot,
     bs_realized_pnl = ls_realized_pnl snapshot,
     bs_unrealized_pnl = ls_unrealized_pnl snapshot,
     bs_max_drawdown = bt_drawdown bt,
     bs_turnover = dec_sum (map fill_turnover (bt_fills bt))\<rparr>"

definition start_backtest :: "'s backtest_setup \<Rightarrow> ledger option \<Rightarrow> replay_engine \<Rightarrow> 's \<Rightarrow> backtest_error + 's backtest" where
  "start_backtest k carried e strategy =
     (case (case carried of Some l \<Rightarrow> Some l | None \<Rightarrow> new_ledger (bk_opening_cash k)) of
        None \<Rightarrow> Inl Opening_Cash_Negative
      | Some book \<Rightarrow> Inr \<lparr>bt_engine = e, bt_strategy = strategy, bt_book = book, bt_pending = [], bt_outcomes = [], bt_fills = [],
          bt_generated = 0, bt_risk_rejected = 0, bt_expired = 0, bt_peak = lg_opening_cash book, bt_drawdown = 0, bt_last_states = []\<rparr>)"

definition finish_backtest ::
  "'s backtest_setup \<Rightarrow> (spec_content \<Rightarrow> string) \<Rightarrow> (replay_content \<Rightarrow> string) \<Rightarrow> replay_timeline \<Rightarrow> instant option \<Rightarrow> 's backtest \<Rightarrow> backtest_result" where
  "finish_backtest k hash_spec hash_replay tln executed_at bt =
     (let final_time = (if tl_steps tln = [] then pe_end (rc_period (tl_context tln)) else sp_market_time (last (tl_steps tln)));
          final = ledger_snapshot_at (bt_book bt) final_time (closing_marks (bt_last_states bt));
          statistics = backtest_statistics_of bt final
      in \<lparr>br_run_id = rc_run_id (tl_context tln),
          br_strategy_digest = spec_digest hash_spec (bk_spec k),
          br_strategy_label = spec_label (bk_spec k),
          br_replay_digest = replay_context_digest hash_replay (tl_context tln),
          br_build_context_id = rc_build_context_id (tl_context tln),
          br_fill_model = bk_fill_model k,
          br_statistics = statistics,
          br_final_ledger = final,
          br_fills = bt_fills bt,
          br_outcomes = bt_outcomes bt,
          br_assumption_based = (0 < bs_assumption_based_fills statistics),
          br_risk_evaluated = gt_evaluates_risk (bk_gate k),
          br_coverage_warnings =
            (if bt_expired bt \<noteq> 0 then [Expired_Unfilled (bt_expired bt) (fm_latency (bk_fill_model k))] else [])
            @ (if still_pending (bt_pending bt) \<noteq> 0 then [Never_Executed (still_pending (bt_pending bt))] else []),
          br_executed_at = executed_at\<rparr>)"

definition backtest_run ::
  "'s backtest_setup \<Rightarrow> (spec_content \<Rightarrow> string) \<Rightarrow> (replay_content \<Rightarrow> string) \<Rightarrow> replay_timeline \<Rightarrow> nat \<Rightarrow> ledger option \<Rightarrow> instant option
   \<Rightarrow> replay_engine \<Rightarrow> 's \<Rightarrow> backtest_error + backtest_result" where
  "backtest_run k hash_spec hash_replay tln from_index carried executed_at e strategy =
     bind_result (start_backtest k carried e strategy)
       (\<lambda>bt. bind_result (backtest_loop k tln from_index (drop from_index (tl_steps tln)) bt)
          (\<lambda>bt. Inr (finish_backtest k hash_spec hash_replay tln executed_at bt)))"

end
