(* ===== verification/Exact_Checkpoints.thy ===== *)
theory Exact_Checkpoints
  imports Replay_Guarantees
begin

text \<open>
  Checkpoints that hold a whole assembled state and not only its content: what the in-memory store of
  \<^verbatim>\<open>marketstate/checkpoints.py\<close> keeps, which stores the state object that assembly returned. An engine with such
  checkpoints serves, step by step, the states of assembly, up to the moment at which each was assembled; this
  is an invariant of its requests, and it is what a backtest needs, whose strategy is given the whole state.
\<close>

section \<open>States up to the moment of assembly\<close>

definition timeless :: "market_state \<Rightarrow> market_state" where
  "timeless m = m\<lparr>mst_provenance := (mst_provenance m)\<lparr>pr_assembled_at := 0\<rparr>\<rparr>"

lemma timeless_simps [simp]: "timeless (timeless m) = timeless m" "mst_expiries (timeless m) = mst_expiries m"
  "mst_identity (timeless m) = mst_identity m"
  by (simp_all add: timeless_def)

lemma build_state_moment: "map_sum id timeless (build_state digest bd now u t h) = build_state digest bd 0 u t h"
  unfolding build_state_def Let_def bind_result_map
  by (intro bind_result_congI) (auto simp: bind_result_map timeless_def intro!: bind_result_congI split: prod.split)

lemma build_state_Inr_moment: "build_state digest bd now u t h = Inr m \<Longrightarrow> build_state digest bd 0 u t h = Inr (timeless m)"
  using build_state_moment [of digest bd now u t h] by simp

lemma build_state_Inl_moment: "build_state digest bd now u t h = Inl x \<Longrightarrow> build_state digest bd 0 u t h = Inl x"
  using build_state_moment [of digest bd now u t h] by simp

section \<open>Exact stores\<close>

definition stored_exactly :: "context_digest \<Rightarrow> builder \<Rightarrow> obs_store \<Rightarrow> checkpoint_store \<Rightarrow> bool" where
  "stored_exactly digest bd obs cs \<longleftrightarrow> (\<forall>key c. dict_get (cs_by_identity cs) key = Some c \<longrightarrow>
     (\<exists>u t k. key = as_key \<lparr>id_underlying_id = u, id_market_time = t, id_knowledge_horizon = k,
                id_build_context_id = build_context_id_of digest (bd_context bd)\<rparr>
        \<and> datetime_ok t \<and> datetime_ok k
        \<and> build_state digest (on_store bd obs) 0 u t (Some k) = Inr (timeless (cp_state c))))"

definition exact_service :: "context_digest \<Rightarrow> builder \<Rightarrow> obs_store \<Rightarrow> state_service \<Rightarrow> bool" where
  "exact_service digest bd obs svc \<longleftrightarrow> (case ss_store svc of None \<Rightarrow> True | Some cs \<Rightarrow> stored_exactly digest bd obs cs)"

lemma fresh_exact [simp]: "exact_service digest bd obs (fresh_service stores cache)"
  by (simp add: exact_service_def fresh_service_def stored_exactly_def no_checkpoints_def)

lemma exact_counts [simp]:
  "exact_service digest bd obs (svc\<lparr>ss_reused := n\<rparr>) = exact_service digest bd obs svc"
  "exact_service digest bd obs (svc\<lparr>ss_reconstructed := n\<rparr>) = exact_service digest bd obs svc"
  by (simp_all add: exact_service_def)

lemma stored_exactly_put:
  assumes "stored_exactly digest bd obs cs" "datetime_ok t" "datetime_ok k"
    and "build_state digest (on_store bd obs) now u t (Some k) = Inr m" "cp_state c = m"
  shows "stored_exactly digest bd obs (fst (checkpoint_put digest hash cs c))"
proof -
  have i: "cp_identity c = \<lparr>id_underlying_id = u, id_market_time = t, id_knowledge_horizon = k,
      id_build_context_id = build_context_id_of digest (bd_context bd)\<rparr>"
    using assms(4,5) by (auto simp: cp_identity_def elim: build_state_parts)
  have "build_state digest (on_store bd obs) 0 u t (Some k) = Inr (timeless (cp_state c))"
    using build_state_Inr_moment [OF assms(4)] assms(5) by simp
  then have "\<exists>u t k. as_key (cp_identity c) = as_key \<lparr>id_underlying_id = u, id_market_time = t, id_knowledge_horizon = k,
          id_build_context_id = build_context_id_of digest (bd_context bd)\<rparr>
        \<and> datetime_ok t \<and> datetime_ok k \<and> build_state digest (on_store bd obs) 0 u t (Some k) = Inr (timeless (cp_state c))"
    unfolding i using assms(2,3) by blast
  with assms(1) show ?thesis unfolding stored_exactly_def checkpoint_put_def Let_def by (auto split: if_splits)
qed

lemma stored_exactly_get:
  assumes "stored_exactly digest bd obs cs" "datetime_ok t" "datetime_ok k"
    and "checkpoint_get cs \<lparr>id_underlying_id = u, id_market_time = t, id_knowledge_horizon = k,
      id_build_context_id = build_context_id_of digest (bd_context bd)\<rparr> = Some c"
  shows "build_state digest (on_store bd obs) 0 u t (Some k) = Inr (timeless (cp_state c))"
proof -
  let ?i = "\<lambda>u t k. \<lparr>id_underlying_id = u, id_market_time = t, id_knowledge_horizon = k,
      id_build_context_id = build_context_id_of digest (bd_context bd)\<rparr>"
  from assms(1,4) obtain u' t' k' where e: "as_key (?i u t k) = as_key (?i u' t' k')" "datetime_ok t'" "datetime_ok k'"
      "build_state digest (on_store bd obs) 0 u' t' (Some k') = Inr (timeless (cp_state c))"
    unfolding stored_exactly_def checkpoint_get_def by blast
  then show ?thesis using as_key_inject [of "?i u t k" "?i u' t' k'"] assms(2,3) by simp
qed

text \<open>A request keeps the store exact, and is answered with the state of assembly.\<close>

lemma get_state_exact:
  assumes "exact_service digest bd obs svc" "datetime_ok t" "datetime_ok k"
    and "get_state digest hash (on_store bd obs) now u t (Some k) svc = (svc', r)"
  shows "exact_service digest bd obs svc'
    \<and> map_sum id timeless r = map_sum Build_Failed id (build_state digest (on_store bd obs) 0 u t (Some k))"
proof -
  let ?i = "\<lparr>id_underlying_id = u, id_market_time = t, id_knowledge_horizon = k, id_build_context_id = build_context_id_of digest (bd_context bd)\<rparr>"
  show ?thesis
  proof (cases "case ss_store svc of None \<Rightarrow> None | Some cs \<Rightarrow> checkpoint_get cs ?i")
    case (Some c)
    then obtain cs where cs: "ss_store svc = Some cs" "checkpoint_get cs ?i = Some c" by (auto split: option.splits)
    have "stored_exactly digest bd obs cs" using assms(1) cs(1) by (simp add: exact_service_def)
    from stored_exactly_get [OF this assms(2,3) cs(2)] show ?thesis
      using assms(1,4) Some by (auto simp: get_state_def Let_def)
  next
    case None
    show ?thesis
    proof (cases "build_state digest (on_store bd obs) now u t (Some k)")
      case (Inl e)
      then show ?thesis using assms(1,4) None build_state_Inl_moment [OF Inl] by (auto simp: get_state_def Let_def)
    next
      case (Inr m)
      have "stored_exactly digest bd obs (fst (checkpoint_put digest hash cs (manual_checkpoint m MANUAL)))" if "ss_store svc = Some cs" for cs
        using stored_exactly_put [OF _ assms(2,3) Inr, of cs "manual_checkpoint m MANUAL"] assms(1) that
        by (simp add: exact_service_def manual_checkpoint_def)
      then have "exact_service digest bd obs svc'" "r = Inr m"
        using assms(1,4) Inr None by (auto simp: get_state_def Let_def exact_service_def split: if_splits option.splits)
      then show ?thesis using build_state_Inr_moment [OF Inr] by simp
    qed
  qed
qed

section \<open>Exact engines\<close>

definition exact_engine :: "service_env \<Rightarrow> builder \<Rightarrow> obs_store \<Rightarrow> replay_engine \<Rightarrow> bool" where
  "exact_engine en bd obs e \<longleftrightarrow> se_builder en = on_store bd obs \<and> exact_service (se_digest en) bd obs (re_service e)"

definition plain_step :: "stepped_state \<Rightarrow> stepped_state" where
  "plain_step st = st\<lparr>st_state := timeless (st_state st), st_from_checkpoint := False\<rparr>"

text \<open>The specification: a step for each underlying, each with the state of assembly, up to the first error.\<close>

fun assembled_steps :: "context_digest \<Rightarrow> builder \<Rightarrow> replay_step \<Rightarrow> int list \<Rightarrow> replay_error + stepped_state list" where
  "assembled_steps digest bd s [] = Inr []"
| "assembled_steps digest bd s (u # us) =
     (case build_state digest bd 0 u (sp_market_time s) (Some (sp_knowledge_horizon s)) of
        Inl x \<Rightarrow> Inl (State_Failed (Build_Failed x))
      | Inr m \<Rightarrow> map_sum id (Cons \<lparr>st_step = s, st_underlying_id = u, st_state = m, st_from_checkpoint = False\<rparr>) (assembled_steps digest bd s us))"

lemma engine_state_at_exact:
  assumes "exact_engine en bd obs e" "step_dates_ok s" "engine_state_at en c s u e = (e', r)"
  shows "exact_engine en bd obs e' \<and> map_sum id (\<lambda>st. [plain_step st]) r = assembled_steps (se_digest en) (on_store bd obs) s [u]"
proof -
  from assms(1) have ok: "se_builder en = on_store bd obs" "exact_service (se_digest en) bd obs (re_service e)"
    by (simp_all add: exact_engine_def)
  obtain svc' q where get: "get_state (se_digest en) (se_hash en) (on_store bd obs) (se_now en s u) u (sp_market_time s)
      (Some (sp_knowledge_horizon s)) (re_service e) = (svc', q)"
    by fastforce
  have "datetime_ok (sp_market_time s)" "datetime_ok (sp_knowledge_horizon s)" using assms(2) by (simp_all add: step_dates_ok_def)
  note g = get_state_exact [OF ok(2) this get]
  have "re_service e' = svc'"
    "map_sum id plain_step r = map_sum State_Failed (\<lambda>m. \<lparr>st_step = s, st_underlying_id = u, st_state = timeless m, st_from_checkpoint = False\<rparr>) q"
    using assms(3) get ok(1) by (auto simp: engine_state_at_def Let_def plain_step_def split: sum.splits)
  then show ?thesis using g ok(1)
    by (cases q; cases r; cases "build_state (se_digest en) (on_store bd obs) 0 u (sp_market_time s) (Some (sp_knowledge_horizon s))")
      (auto simp: exact_engine_def)
qed

lemma assembled_steps_Cons:
  "assembled_steps digest bd s (u # us) = (case assembled_steps digest bd s [u] of
     Inl x \<Rightarrow> Inl x | Inr sts \<Rightarrow> map_sum id (append sts) (assembled_steps digest bd s us))"
  by (cases "assembled_steps digest bd s us") (simp_all split: sum.split)

lemma engine_states_exact:
  assumes "exact_engine en bd obs e" "step_dates_ok s" "engine_states en c s us e = (e', r)"
  shows "exact_engine en bd obs e' \<and> map_sum id (map plain_step) r = assembled_steps (se_digest en) (on_store bd obs) s us"
  using assms(1,3)
proof (induction us arbitrary: e e' r)
  case (Cons u us)
  obtain e1 q where at: "engine_state_at en c s u e = (e1, q)" by fastforce
  note one = engine_state_at_exact [OF Cons.prems(1) assms(2) at]
  obtain e2 q2 where rest: "engine_states en c s us e1 = (e2, q2)" by fastforce
  note more = Cons.IH [OF conjunct1 [OF one] rest]
  have "e' = (case q of Inl _ \<Rightarrow> e1 | Inr _ \<Rightarrow> e2)"
    "map_sum id (map plain_step) r = (case map_sum id (\<lambda>st. [plain_step st]) q of
        Inl x \<Rightarrow> Inl x | Inr xs \<Rightarrow> map_sum id (append xs) (map_sum id (map plain_step) q2))"
    using Cons.prems(2) at rest by (cases q; cases q2; auto)+
  moreover have "exact_engine en bd obs (case q of Inl _ \<Rightarrow> e1 | Inr _ \<Rightarrow> e2)" using one more by (cases q) simp_all
  ultimately show ?case by (simp only: assembled_steps_Cons [of _ _ s u us] one more)
qed simp

lemma assembled_steps_append:
  assumes "\<And>r. r \<in> set late \<Longrightarrow> sp_market_time s < ob_observed_at r \<or> sp_knowledge_horizon s < ob_ingested_at r"
  shows "assembled_steps digest (on_store bd (fst (store_append obs late))) s us = assembled_steps digest (on_store bd obs) s us"
proof (induction us)
  case (Cons u us)
  have "build_state digest (on_store bd (fst (store_append obs late))) 0 u (sp_market_time s) (Some (sp_knowledge_horizon s))
      = build_state digest (on_store bd obs) 0 u (sp_market_time s) (Some (sp_knowledge_horizon s))"
    by (rule build_state_append) (use assms in simp)
  then show ?case using Cons by (simp split: sum.split)
qed simp

text \<open>What a replay leaves behind is exact.\<close>

lemma exact_engine_progress [simp]: "exact_engine en bd obs (e\<lparr>re_progress := p\<rparr>) = exact_engine en bd obs e"
  by (simp add: exact_engine_def)

lemma engine_walk_exact:
  "engine_walk en tln ss clock e = (e', r) \<Longrightarrow> exact_engine en bd obs e \<Longrightarrow> list_all step_dates_ok ss \<Longrightarrow> exact_engine en bd obs e'"
proof (induction ss arbitrary: clock e r)
  case (Cons s ss)
  let ?e = "e\<lparr>re_progress := (re_progress e)\<lparr>pg_observations_visible :=
      pg_observations_visible (re_progress e) + int (length (visible_observations tln s))\<rparr>\<rparr>"
  obtain e1 q where at: "engine_states en (tl_context tln) s (sort (rc_underlying_ids (tl_context tln))) ?e = (e1, q)" by fastforce
  have e1: "exact_engine en bd obs e1"
    using engine_states_exact [OF _ _ at] Cons.prems(2,3) by simp
  show ?case using Cons.prems at e1 Cons.IH by (auto simp: Let_def split: sum.splits prod.splits)
qed simp

lemma engine_run_exact:
  assumes "exact_engine en bd obs e" "list_all step_dates_ok (tl_steps tln)" "engine_run en tln None None e = (e', r)"
  shows "exact_engine en bd obs e'"
proof (cases "tl_steps tln")
  case Nil
  then show ?thesis using assms by (simp add: engine_run_def)
next
  case (Cons s ss)
  then have "engine_walk en tln (tl_steps tln) (sp_market_time s) e = (e', r)" using assms(3) by (simp add: engine_run_def)
  from engine_walk_exact [OF this assms(1,2)] show ?thesis .
qed

end
