(* ===== verification/Backtest_Guarantees.thy ===== *)
theory Backtest_Guarantees
  imports Backtest Exact_Checkpoints
begin

text \<open>
  What a backtest promises: every intent is accounted for, the final book is the fold of the listed fills, nothing
  is executed before its decision and latency, and nothing that becomes known after the end of the period
  changes the result. The last section has two places where the loop does not do what it is meant to.
\<close>

section \<open>One execution\<close>

lemma simulate_fill_law:
  assumes "simulate_fill digest draw i m fm = Inr oc"
  shows "(fo_fill oc = None) = (fo_rejection oc \<noteq> None) \<and> fo_intent_id oc = strategy_intent_id digest i
    \<and> (\<forall>f. fo_fill oc = Some f \<longrightarrow> fl_intent_id f = strategy_intent_id digest i \<and> fl_filled_at f = si_decision_time i + fm_latency fm
         \<and> 0 < fl_quantity f \<and> fl_quantity f \<le> si_quantity i)"
  using assms
proof (cases rule: simulate_fill_Inr)
  case (rejected r)
  then show ?thesis by (simp add: rejected_fill_def)
next
  case (filled leg q n ref p)
  then show ?thesis using fillable_bounds(1) [of fm "si_quantity i" q] settle_price_Inr [OF filled(7)]
    by (auto simp: rejected_fill_def)
qed

text \<open>What an outcome says about the scheduled intent it answers.\<close>

definition answers :: "'s backtest_setup \<Rightarrow> scheduled_intent \<Rightarrow> fill_outcome \<Rightarrow> bool" where
  "answers k sd oc \<longleftrightarrow> (fo_fill oc = None) = (fo_rejection oc \<noteq> None)
     \<and> fo_intent_id oc = strategy_intent_id (bk_intent_digest k) (sd_intent sd)
     \<and> (\<forall>f. fo_fill oc = Some f \<longrightarrow> fl_intent_id f = fo_intent_id oc
          \<and> fl_filled_at f = si_decision_time (sd_intent sd) + fm_latency (bk_fill_model k)
          \<and> 0 < fl_quantity f \<and> fl_quantity f \<le> si_quantity (sd_intent sd))"

definition fills_of :: "fill_outcome list \<Rightarrow> fill list" where
  "fills_of ocs = List.map_filter fo_fill ocs"

lemma fills_of_simps [simp]: "fills_of [] = []" "fills_of (oc # ocs) = (case fo_fill oc of None \<Rightarrow> [] | Some f \<Rightarrow> [f]) @ fills_of ocs"
  "fills_of (xs @ ys) = fills_of xs @ fills_of ys"
proof -
  show one: "fills_of [] = []" "fills_of (oc # ocs) = (case fo_fill oc of None \<Rightarrow> [] | Some f \<Rightarrow> [f]) @ fills_of ocs" for oc ocs
    by (simp_all add: fills_of_def map_filter_def split: option.split)
  show "fills_of (xs @ ys) = fills_of xs @ fills_of ys" by (induction xs) (simp_all add: one)
qed

lemma execute_intent_law:
  assumes "execute_intent digest draw fm i ms latest book = Inr (book', oc)"
    and "\<forall>l. latest = Some l \<longrightarrow> fo_fill l = None \<and> fo_rejection l \<noteq> None \<and> fo_intent_id l = strategy_intent_id digest i"
  shows "(fo_fill oc = None) = (fo_rejection oc \<noteq> None) \<and> fo_intent_id oc = strategy_intent_id digest i
    \<and> (\<forall>f. fo_fill oc = Some f \<longrightarrow> fl_intent_id f = strategy_intent_id digest i \<and> fl_filled_at f = si_decision_time i + fm_latency fm
         \<and> 0 < fl_quantity f \<and> fl_quantity f \<le> si_quantity i)
    \<and> book' = fold deliver (fills_of [oc]) book"
  using assms
proof (induction ms arbitrary: latest)
  case Nil
  then show ?case by (auto simp: rejected_fill_def split: option.splits)
next
  case (Cons c cs)
  from Cons.prems(1) obtain q where sim: "simulate_fill digest draw i c fm = Inr q" by (auto split: sum.splits)
  note law = simulate_fill_law [OF sim]
  show ?case
  proof (cases "fo_fill q")
    case (Some f)
    with Cons.prems(1) sim obtain b where "ledger_apply book f = (book', Inr b)" "oc = q"
      by (auto split: sum.splits prod.splits)
    then show ?thesis using law Some by (simp add: deliver_def)
  next
    case None
    show ?thesis
    proof (cases "fo_rejection q = Some FILL_NO_PRICE_AVAILABLE")
      case True
      with Cons.prems(1) sim None have "execute_intent digest draw fm i cs (Some q) book = Inr (book', oc)" by simp
      from Cons.IH [OF this] law None True show ?thesis by simp
    next
      case False
      with Cons.prems(1) sim None law show ?thesis by simp
    qed
  qed
qed

lemma execute_due_law:
  assumes "execute_due k ms sds bt = Inr bt'"
  obtains ocs where "list_all2 (answers k) sds ocs"
    "bt' = bt\<lparr>bt_outcomes := bt_outcomes bt @ ocs, bt_fills := bt_fills bt @ fills_of ocs, bt_book := fold deliver (fills_of ocs) (bt_book bt)\<rparr>"
proof -
  have "\<exists>ocs. list_all2 (answers k) sds ocs
    \<and> bt' = bt\<lparr>bt_outcomes := bt_outcomes bt @ ocs, bt_fills := bt_fills bt @ fills_of ocs, bt_book := fold deliver (fills_of ocs) (bt_book bt)\<rparr>"
    using assms
  proof (induction sds arbitrary: bt)
    case Nil
    then show ?case by simp
  next
    case (Cons sd sds)
    from Cons.prems obtain book oc where
      one: "execute_intent (bk_intent_digest k) (bk_draw k) (bk_fill_model k) (sd_intent sd) ms None (bt_book bt) = Inr (book, oc)"
      and rest: "execute_due k ms sds (bt\<lparr>bt_book := book, bt_outcomes := bt_outcomes bt @ [oc], bt_fills := bt_fills bt @ fills_of [oc]\<rparr>) = Inr bt'"
      by (auto simp: bind_result_Inr_iff)
    have law: "answers k sd oc" "book = fold deliver (fills_of [oc]) (bt_book bt)"
      using execute_intent_law [OF one] by (simp_all add: answers_def)
    from Cons.IH [OF rest] obtain ocs where "list_all2 (answers k) sds ocs"
      "bt' = (bt\<lparr>bt_book := book, bt_outcomes := bt_outcomes bt @ [oc], bt_fills := bt_fills bt @ fills_of [oc]\<rparr>)
         \<lparr>bt_outcomes := bt_outcomes bt @ [oc] @ ocs, bt_fills := bt_fills bt @ fills_of [oc] @ fills_of ocs, bt_book := fold deliver (fills_of ocs) book\<rparr>"
      by auto
    then show ?case using law by (intro exI [of _ "oc # ocs"]) simp
  qed
  then show thesis using that by blast
qed

section \<open>The invariant of the loop\<close>

lemma still_pending_pop:
  assumes "dict_ok d"
  shows "still_pending (dict_pop n d) + int (length (case dict_get d n of None \<Rightarrow> [] | Some sds \<Rightarrow> sds)) = still_pending d"
  using assms
proof (induction d)
  case (Cons e d)
  have "fst e \<notin> fst ` set d" using Cons.prems by (simp add: dict_ok_def)
  then have "\<forall>x \<in> set d. fst x \<noteq> fst e" by (metis image_eqI)
  then have "fst e = n \<Longrightarrow> dict_pop n d = d" "fst e = n \<Longrightarrow> dict_get d n = None"
    by (auto simp: dict_pop_def dict_get_def filter_id_conv map_of_eq_None_iff)
  then show ?case using Cons
    by (cases e) (auto simp: dict_ok_def still_pending_def dict_pop_def dict_get_def split: option.splits)
qed (simp add: still_pending_def dict_pop_def)

lemma still_pending_set:
  "still_pending (dict_set n sds d) + int (length (case dict_get d n of None \<Rightarrow> [] | Some old \<Rightarrow> old)) = still_pending d + int (length sds)"
  by (induction d) (auto simp: still_pending_def dict_set_def dict_get_def split: option.splits)

definition due_now :: "'s backtest \<Rightarrow> nat \<Rightarrow> scheduled_intent list" where
  "due_now bt n = (case dict_get (bt_pending bt) n of None \<Rightarrow> [] | Some sds \<Rightarrow> sds)"

definition scheduled_ok :: "'s backtest_setup \<Rightarrow> replay_timeline \<Rightarrow> 's backtest \<Rightarrow> bool" where
  "scheduled_ok k tln bt \<longleftrightarrow> dict_ok (bt_pending bt) \<and> (\<forall>n. \<forall>sd \<in> set (due_now bt n). sd_due sd = n
     \<and> execution_step_index (bk_fill_model k) tln (si_decision_time (sd_intent sd)) = Some n
     \<and> rk_verdict (gt_evaluate (bk_gate k) (sd_intent sd)) \<noteq> VERDICT_REJECTED)"

definition accounted :: "ledger \<Rightarrow> 's backtest \<Rightarrow> bool" where
  "accounted book bt \<longleftrightarrow>
     bt_generated bt = bt_risk_rejected bt + bt_expired bt + int (length (bt_outcomes bt)) + still_pending (bt_pending bt)
     \<and> bt_fills bt = fills_of (bt_outcomes bt)
     \<and> list_all (\<lambda>oc. (fo_fill oc = None) = (fo_rejection oc \<noteq> None)) (bt_outcomes bt)
     \<and> bt_book bt = fold deliver (bt_fills bt) book
     \<and> 0 \<le> dval (bt_drawdown bt) \<and> 0 \<le> bt_risk_rejected bt \<and> 0 \<le> bt_expired bt"

lemma schedule_intent_keeps:
  assumes "scheduled_ok k tln bt" "accounted book (bt\<lparr>bt_generated := bt_generated bt - 1\<rparr>)"
  shows "scheduled_ok k tln (schedule_intent k tln bt i) \<and> accounted book (schedule_intent k tln bt i)
    \<and> bt_generated (schedule_intent k tln bt i) = bt_generated bt \<and> bt_outcomes (schedule_intent k tln bt i) = bt_outcomes bt"
proof -
  have "still_pending (dict_set n (due_now bt n @ [sd]) (bt_pending bt)) = still_pending (bt_pending bt) + 1" for n sd
    using still_pending_set [of n "due_now bt n @ [sd]" "bt_pending bt"] by (simp add: due_now_def)
  then show ?thesis using assms
    unfolding schedule_intent_def due_now_def [symmetric]
    by (auto simp: scheduled_ok_def accounted_def due_now_def split: option.split)
qed

lemma strategy_is_no_account [simp]:
  "accounted book (bt\<lparr>bt_strategy := x\<rparr>) = accounted book bt" "scheduled_ok k tln (bt\<lparr>bt_strategy := x, bt_generated := g\<rparr>) = scheduled_ok k tln bt"
  by (simp_all add: accounted_def scheduled_ok_def due_now_def)

lemma generated_same [simp]: "bt\<lparr>bt_strategy := x, bt_generated := bt_generated bt\<rparr> = bt\<lparr>bt_strategy := x\<rparr>"
  by (cases bt) simp

lemma foldl_schedule_keeps:
  assumes "scheduled_ok k tln bt" "accounted book (bt\<lparr>bt_generated := bt_generated bt - int (length is)\<rparr>)"
  shows "scheduled_ok k tln (foldl (schedule_intent k tln) bt is) \<and> accounted book (foldl (schedule_intent k tln) bt is)
    \<and> bt_outcomes (foldl (schedule_intent k tln) bt is) = bt_outcomes bt"
  using assms
proof (induction "is" arbitrary: bt)
  case Nil
  then show ?case by simp
next
  case (Cons i "is")
  let ?bt = "bt\<lparr>bt_generated := bt_generated bt - int (length is)\<rparr>"
  have commute: "schedule_intent k tln ?bt i = (schedule_intent k tln bt i)\<lparr>bt_generated := bt_generated bt - int (length is)\<rparr>"
    by (simp add: schedule_intent_def split: option.split)
  have "scheduled_ok k tln ?bt" using Cons.prems(1) by (simp add: scheduled_ok_def due_now_def)
  moreover have "accounted book (?bt\<lparr>bt_generated := bt_generated ?bt - 1\<rparr>)" using Cons.prems(2) by (simp add: algebra_simps)
  ultimately have step: "scheduled_ok k tln (schedule_intent k tln ?bt i)" "accounted book (schedule_intent k tln ?bt i)"
    "bt_outcomes (schedule_intent k tln ?bt i) = bt_outcomes bt" "bt_generated (schedule_intent k tln bt i) = bt_generated bt"
    using schedule_intent_keeps [of k tln ?bt book i] by (simp_all add: schedule_intent_def split: option.split)
  have "scheduled_ok k tln (schedule_intent k tln bt i)" using step(1) unfolding commute by (simp add: scheduled_ok_def due_now_def)
  moreover have "accounted book ((schedule_intent k tln bt i)\<lparr>bt_generated := bt_generated (schedule_intent k tln bt i) - int (length is)\<rparr>)"
    using step(2,4) unfolding commute by simp
  ultimately show ?case using Cons.IH [of "schedule_intent k tln bt i"] step(3) unfolding commute by simp
qed

lemma decide_keeps:
  assumes "decide k tln s st bt = Inr bt'" "scheduled_ok k tln bt" "accounted book bt"
  shows "scheduled_ok k tln bt' \<and> accounted book bt' \<and> bt_outcomes bt' = bt_outcomes bt"
proof -
  from assms(1) obtain strategy intents where
    "bt' = foldl (schedule_intent k tln) (bt\<lparr>bt_strategy := strategy, bt_generated := bt_generated bt + int (length intents)\<rparr>) intents"
    by (auto simp: decide_def split: option.splits)
  then show ?thesis
    using foldl_schedule_keeps [of k tln "bt\<lparr>bt_strategy := strategy, bt_generated := bt_generated bt + int (length intents)\<rparr>" book intents] assms(2,3)
    by simp
qed

lemma decide_all_keeps:
  "decide_all k tln s sts bt = Inr bt' \<Longrightarrow> scheduled_ok k tln bt \<Longrightarrow> accounted book bt
    \<Longrightarrow> scheduled_ok k tln bt' \<and> accounted book bt' \<and> bt_outcomes bt' = bt_outcomes bt"
proof (induction sts arbitrary: bt)
  case (Cons st sts)
  from Cons.prems(1) obtain b where "decide k tln s st bt = Inr b" "decide_all k tln s sts b = Inr bt'"
    by (auto simp: bind_result_Inr_iff)
  with decide_keeps [OF this(1) Cons.prems(2,3)] Cons.IH [of b] show ?case by auto
qed simp

lemma dval_dec_max: "dval (dec_max a b) = max (dval a) (dval b)"
  by (simp add: dec_max_def dec_less_iff max_def)

lemma backtest_step_keeps:
  assumes "backtest_step k tln n s bt = Inr bt'" "scheduled_ok k tln bt" "accounted book bt"
  shows "scheduled_ok k tln bt' \<and> accounted book bt'
    \<and> (\<exists>ocs. bt_outcomes bt' = bt_outcomes bt @ ocs \<and> list_all2 (answers k) (due_now bt n) ocs)"
proof -
  from assms(1) obtain engine sts b1 where
    b1: "execute_due k (map st_state sts) (due_now bt n) (bt\<lparr>bt_engine := engine, bt_last_states := map st_state sts, bt_pending := dict_pop n (bt_pending bt)\<rparr>) = Inr b1"
    and decided: "decide_all k tln s (by_instrument sts) (measure_drawdown s b1) = Inr bt'"
    by (auto simp: backtest_step_def Let_def due_now_def bind_result_Inr_iff split: prod.splits sum.splits)
  from b1 obtain ocs where ocs: "list_all2 (answers k) (due_now bt n) ocs"
    "b1 = bt\<lparr>bt_engine := engine, bt_last_states := map st_state sts, bt_pending := dict_pop n (bt_pending bt),
       bt_outcomes := bt_outcomes bt @ ocs, bt_fills := bt_fills bt @ fills_of ocs, bt_book := fold deliver (fills_of ocs) (bt_book bt)\<rparr>"
    by (rule execute_due_law) auto
  have len: "length ocs = length (due_now bt n)" using ocs(1) by (simp add: list_all2_lengthD)
  have pending: "still_pending (dict_pop n (bt_pending bt)) = still_pending (bt_pending bt) - int (length (due_now bt n))"
    using still_pending_pop [of "bt_pending bt" n] assms(2) by (simp add: scheduled_ok_def due_now_def)
  have all: "list_all (\<lambda>oc. (fo_fill oc = None) = (fo_rejection oc \<noteq> None)) ocs"
    using ocs(1) by (induction rule: list_all2_induct) (simp_all add: answers_def)
  have "scheduled_ok k tln (measure_drawdown s b1)"
    using assms(2) by (auto simp: scheduled_ok_def due_now_def measure_drawdown_def Let_def ocs(2))
  moreover have "accounted book (measure_drawdown s b1)"
    using assms(3) all by (auto simp: accounted_def measure_drawdown_def Let_def ocs(2) pending len dval_dec_max)
  moreover have "bt_outcomes (measure_drawdown s b1) = bt_outcomes bt @ ocs" by (simp add: measure_drawdown_def Let_def ocs(2))
  ultimately show ?thesis using decide_all_keeps [OF decided] ocs(1) by auto
qed

lemma backtest_loop_keeps:
  "backtest_loop k tln n ss bt = Inr bt' \<Longrightarrow> scheduled_ok k tln bt \<Longrightarrow> accounted book bt \<Longrightarrow> scheduled_ok k tln bt' \<and> accounted book bt'"
proof (induction ss arbitrary: n bt)
  case (Cons s ss)
  from Cons.prems(1) obtain b where "backtest_step k tln n s bt = Inr b" "backtest_loop k tln (Suc n) ss b = Inr bt'"
    by (auto simp: bind_result_Inr_iff)
  with backtest_step_keeps [OF this(1) Cons.prems(2,3)] Cons.IH show ?case by blast
qed simp

lemma start_backtest_ok:
  assumes "start_backtest k carried e strategy = Inr bt"
  shows "scheduled_ok k tln bt \<and> accounted (bt_book bt) bt \<and> bt_pending bt = [] \<and> bt_outcomes bt = []
    \<and> (case carried of Some l \<Rightarrow> bt_book bt = l | None \<Rightarrow> new_ledger (bk_opening_cash k) = Some (bt_book bt))"
  using assms
  by (auto simp: start_backtest_def scheduled_ok_def accounted_def due_now_def still_pending_def split: option.splits)

section \<open>The account of a run\<close>

definition warned_expired :: "coverage_warning list \<Rightarrow> int" where
  "warned_expired ws = sum_list (map (\<lambda>w. case w of Expired_Unfilled n _ \<Rightarrow> n | Never_Executed _ \<Rightarrow> 0) ws)"

definition warned_pending :: "coverage_warning list \<Rightarrow> int" where
  "warned_pending ws = sum_list (map (\<lambda>w. case w of Expired_Unfilled _ _ \<Rightarrow> 0 | Never_Executed n \<Rightarrow> n) ws)"

lemma backtest_run_Inr:
  assumes "backtest_run k hs hr tln n carried x e strategy = Inr r"
  obtains bt0 bt where "start_backtest k carried e strategy = Inr bt0" "backtest_loop k tln n (drop n (tl_steps tln)) bt0 = Inr bt"
    "r = finish_backtest k hs hr tln x bt" "scheduled_ok k tln bt" "accounted (bt_book bt0) bt"
proof -
  from assms obtain bt0 bt where run: "start_backtest k carried e strategy = Inr bt0" "backtest_loop k tln n (drop n (tl_steps tln)) bt0 = Inr bt"
      "r = finish_backtest k hs hr tln x bt"
    by (auto simp: backtest_run_def bind_result_Inr_iff)
  with start_backtest_ok [OF run(1)] backtest_loop_keeps [OF run(2)] that show thesis by blast
qed

lemma outcomes_split:
  "list_all (\<lambda>oc. (fo_fill oc = None) = (fo_rejection oc \<noteq> None)) ocs
    \<Longrightarrow> length ocs = length (fills_of ocs) + length (filter (\<lambda>oc. fo_rejection oc \<noteq> None) ocs)"
  by (induction ocs) (auto split: option.splits)

text \<open>
  Claim C11: A backtest accounts for every intent. Each one the strategy returned was rejected by risk, or submitted
  and then either filled or rejected, or expired, or is still scheduled at the end: the numbers of the result add
  up to the intents generated, with the last two as stated in the warnings; the fills are those of the
  outcomes, and the drawdown is never negative.
\<close>

theorem backtest_accounts_for_every_intent:
  assumes "backtest_run k hs hr tln n carried x e strategy = Inr r"
  shows "bs_intents_generated (br_statistics r) = bs_intents_rejected_by_risk (br_statistics r) + bs_orders_submitted (br_statistics r)
      + warned_expired (br_coverage_warnings r) + warned_pending (br_coverage_warnings r)
    \<and> bs_orders_submitted (br_statistics r) = bs_fills (br_statistics r) + bs_rejections (br_statistics r)
    \<and> br_fills r = fills_of (br_outcomes r) \<and> 0 \<le> dval (bs_max_drawdown (br_statistics r))"
proof -
  obtain bt0 bt where run: "start_backtest k carried e strategy = Inr bt0" "backtest_loop k tln n (drop n (tl_steps tln)) bt0 = Inr bt"
    and r: "r = finish_backtest k hs hr tln x bt" and ok: "scheduled_ok k tln bt" "accounted (bt_book bt0) bt"
    by (rule backtest_run_Inr [OF assms])
  let ?s = "br_statistics r"
  have numbers: "bs_intents_generated ?s = bt_generated bt" "bs_intents_rejected_by_risk ?s = bt_risk_rejected bt"
      "bs_orders_submitted ?s = int (length (bt_outcomes bt))" "bs_fills ?s = int (length (bt_fills bt))"
      "bs_rejections ?s = int (length (filter (\<lambda>oc. fo_rejection oc \<noteq> None) (bt_outcomes bt)))"
      "bs_max_drawdown ?s = bt_drawdown bt" "br_fills r = bt_fills bt" "br_outcomes r = bt_outcomes bt"
    unfolding r finish_backtest_def Let_def by (simp_all add: backtest_statistics_of_def)
  have warned: "warned_expired (br_coverage_warnings r) = bt_expired bt" "warned_pending (br_coverage_warnings r) = still_pending (bt_pending bt)"
    unfolding r finish_backtest_def Let_def by (simp_all add: warned_expired_def warned_pending_def)
  have "bt_generated bt = bt_risk_rejected bt + bt_expired bt + int (length (bt_outcomes bt)) + still_pending (bt_pending bt)"
      "bt_fills bt = fills_of (bt_outcomes bt)" "0 \<le> dval (bt_drawdown bt)"
      "length (bt_outcomes bt) = length (fills_of (bt_outcomes bt)) + length (filter (\<lambda>oc. fo_rejection oc \<noteq> None) (bt_outcomes bt))"
    using ok outcomes_split unfolding accounted_def by blast+
  then show ?thesis unfolding numbers warned by simp
qed

text \<open>
  Claim C33: The final ledger is the fold of the listed fills and nothing else: it is the snapshot of the ledger that
  results from delivering the fills of the result, in their order, to the carried ledger or to a new one with
  the opening cash, taken at the market time of the last step, or at the end of the period where the
  timeline has no step, and valued at some marks.
\<close>

theorem backtest_ledger_is_fold:
  assumes "backtest_run k hs hr tln n carried x e strategy = Inr r"
  shows "\<exists>book marks. (case carried of Some l \<Rightarrow> book = l | None \<Rightarrow> new_ledger (bk_opening_cash k) = Some book)
    \<and> br_final_ledger r = ledger_snapshot_at (fold deliver (br_fills r) book)
        (if tl_steps tln = [] then pe_end (rc_period (tl_context tln)) else sp_market_time (last (tl_steps tln))) marks"
proof -
  obtain bt0 bt where run: "start_backtest k carried e strategy = Inr bt0" "backtest_loop k tln n (drop n (tl_steps tln)) bt0 = Inr bt"
    and r: "r = finish_backtest k hs hr tln x bt" and ok: "scheduled_ok k tln bt" "accounted (bt_book bt0) bt"
    by (rule backtest_run_Inr [OF assms])
  from ok(2) have "bt_book bt = fold deliver (bt_fills bt) (bt_book bt0)" unfolding accounted_def by blast
  then have "br_final_ledger r = ledger_snapshot_at (fold deliver (br_fills r) (bt_book bt0))
      (if tl_steps tln = [] then pe_end (rc_period (tl_context tln)) else sp_market_time (last (tl_steps tln))) (closing_marks (bt_last_states bt))"
    unfolding r finish_backtest_def Let_def by simp
  moreover have "case carried of Some l \<Rightarrow> bt_book bt0 = l | None \<Rightarrow> new_ledger (bk_opening_cash k) = Some (bt_book bt0)"
    using start_backtest_ok [OF run(1)] by blast
  ultimately show ?thesis by blast
qed

section \<open>Decision and execution\<close>

lemma first_index_Some:
  assumes "first_index P n xs = Some m"
  shows "n \<le> m \<and> m < n + length xs \<and> P (xs ! (m - n)) \<and> (\<forall>j. n \<le> j \<and> j < m \<longrightarrow> \<not> P (xs ! (j - n)))"
  using assms
proof (induction xs arbitrary: n)
  case (Cons x xs)
  show ?case
  proof (cases "P x")
    case True
    then show ?thesis using Cons.prems by auto
  next
    case False
    then have m: "first_index P (Suc n) xs = Some m" using Cons.prems by simp
    have shift: "(x # xs) ! (j - n) = xs ! (j - Suc n)" if "Suc n \<le> j" for j
      using that by (simp add: nth_Cons')
    have "\<not> P ((x # xs) ! (j - n))" if "n \<le> j" "j < m" for j
    proof (cases "j = n")
      case True
      then show ?thesis using False by simp
    next
      case False
      then have "Suc n \<le> j" using that(1) by simp
      then show ?thesis using Cons.IH [OF m] shift that(2) by simp
    qed
    then show ?thesis using Cons.IH [OF m] shift [of m] by auto
  qed
qed simp

lemma execution_step_index_Some:
  assumes "execution_step_index fm tln t = Some m"
  shows "m < length (tl_steps tln)" "t + fm_latency fm \<le> sp_market_time (tl_steps tln ! m)"
    "j < m \<Longrightarrow> sp_market_time (tl_steps tln ! j) < t + fm_latency fm"
  using first_index_Some [OF assms [unfolded execution_step_index_def Let_def]] by (auto simp: not_le)

text \<open>
  Claim C12: A decision is not a fill. At every step of a run that has come this far, the new outcomes answer, one by
  one and in order, the intents that were scheduled for it in earlier steps, each of which risk did not
  reject; the step is the first of the timeline at or after the decision plus the latency, and no fill is
  dated after it.
\<close>

theorem execution_waits_for_latency:
  assumes "start_backtest k carried e strategy = Inr bt0" "backtest_loop k tln 0 (take n (tl_steps tln)) bt0 = Inr bt"
    and "backtest_step k tln n (tl_steps tln ! n) bt = Inr bt'"
  shows "\<exists>ocs. bt_outcomes bt' = bt_outcomes bt @ ocs \<and> list_all2 (\<lambda>sd oc. answers k sd oc
      \<and> rk_verdict (gt_evaluate (bk_gate k) (sd_intent sd)) \<noteq> VERDICT_REJECTED
      \<and> si_decision_time (sd_intent sd) + fm_latency (bk_fill_model k) \<le> sp_market_time (tl_steps tln ! n)
      \<and> (\<forall>j < n. sp_market_time (tl_steps tln ! j) < si_decision_time (sd_intent sd) + fm_latency (bk_fill_model k))
      \<and> (\<forall>f. fo_fill oc = Some f \<longrightarrow> fl_filled_at f \<le> sp_market_time (tl_steps tln ! n))) (due_now bt n) ocs"
proof -
  have ok: "scheduled_ok k tln bt" "accounted (bt_book bt0) bt"
    using start_backtest_ok [OF assms(1)] backtest_loop_keeps [OF assms(2)] by blast+
  obtain ocs where ocs: "bt_outcomes bt' = bt_outcomes bt @ ocs" "list_all2 (answers k) (due_now bt n) ocs"
    using backtest_step_keeps [OF assms(3) ok] by blast
  have sched: "execution_step_index (bk_fill_model k) tln (si_decision_time (sd_intent sd)) = Some n"
      "rk_verdict (gt_evaluate (bk_gate k) (sd_intent sd)) \<noteq> VERDICT_REJECTED" if "sd \<in> set (due_now bt n)" for sd
    using ok(1) that unfolding scheduled_ok_def by blast+
  have "list_all2 (\<lambda>sd oc. answers k sd oc \<and> rk_verdict (gt_evaluate (bk_gate k) (sd_intent sd)) \<noteq> VERDICT_REJECTED
      \<and> si_decision_time (sd_intent sd) + fm_latency (bk_fill_model k) \<le> sp_market_time (tl_steps tln ! n)
      \<and> (\<forall>j < n. sp_market_time (tl_steps tln ! j) < si_decision_time (sd_intent sd) + fm_latency (bk_fill_model k))
      \<and> (\<forall>f. fo_fill oc = Some f \<longrightarrow> fl_filled_at f \<le> sp_market_time (tl_steps tln ! n))) (due_now bt n) ocs"
  proof (rule list_all2_all_nthI)
    show "length (due_now bt n) = length ocs" using ocs(2) by (rule list_all2_lengthD)
  next
    fix j assume j: "j < length (due_now bt n)"
    then have a: "answers k (due_now bt n ! j) (ocs ! j)" using ocs(2) by (simp add: list_all2_nthD)
    note s = sched [OF nth_mem [OF j]]
    note i = execution_step_index_Some [OF s(1)]
    show "answers k (due_now bt n ! j) (ocs ! j) \<and> rk_verdict (gt_evaluate (bk_gate k) (sd_intent (due_now bt n ! j))) \<noteq> VERDICT_REJECTED
      \<and> si_decision_time (sd_intent (due_now bt n ! j)) + fm_latency (bk_fill_model k) \<le> sp_market_time (tl_steps tln ! n)
      \<and> (\<forall>i < n. sp_market_time (tl_steps tln ! i) < si_decision_time (sd_intent (due_now bt n ! j)) + fm_latency (bk_fill_model k))
      \<and> (\<forall>f. fo_fill (ocs ! j) = Some f \<longrightarrow> fl_filled_at f \<le> sp_market_time (tl_steps tln ! n))"
      using a s(2) i by (simp add: answers_def)
  qed
  with ocs(1) show ?thesis by blast
qed

section \<open>Nothing that becomes known later matters\<close>

text \<open>
  Two setups that differ only in what became known after \<open>t\<close>: the second has more rows in its store, each observed or
  received after \<open>t\<close>, and more values and signals in its accessor, each with a horizon after \<open>t\<close>.
\<close>

definition with_late :: "service_env \<Rightarrow> metric_value list \<Rightarrow> signal list \<Rightarrow> 's backtest_setup \<Rightarrow> 's backtest_setup" where
  "with_late en metrics signals k =
     k\<lparr>bk_env := en,
       bk_accessor := \<lparr>ac_metrics = ac_metrics (bk_accessor k) @ metrics, ac_signals = ac_signals (bk_accessor k) @ signals\<rparr>\<rparr>"

lemma with_late_simps [simp]:
  "bk_fill_model (with_late en ms ss k) = bk_fill_model k" "bk_gate (with_late en ms ss k) = bk_gate k"
  "bk_intent_digest (with_late en ms ss k) = bk_intent_digest k" "bk_draw (with_late en ms ss k) = bk_draw k"
  "bk_on_state (with_late en ms ss k) = bk_on_state k" "bk_opening_cash (with_late en ms ss k) = bk_opening_cash k"
  "bk_spec (with_late en ms ss k) = bk_spec k" "bk_env (with_late en ms ss k) = en"
  by (simp_all add: with_late_def)

lemma execute_due_late [simp]: "execute_due (with_late en ms ss k) m sds bt = execute_due k m sds bt"
  by (induction sds arbitrary: bt) simp_all

lemma schedule_intent_late [simp]: "schedule_intent (with_late en ms ss k) tln = schedule_intent k tln"
  by (intro ext) (simp add: schedule_intent_def)

definition late_after :: "instant \<Rightarrow> observation list \<Rightarrow> metric_value list \<Rightarrow> signal list \<Rightarrow> bool" where
  "late_after t late metrics signals \<longleftrightarrow> list_all (\<lambda>r. t < ob_observed_at r \<or> t < ob_ingested_at r) late
     \<and> list_all (\<lambda>m. t < mv_knowledge_horizon m) metrics \<and> list_all (\<lambda>s. t < sy_knowledge_horizon (sg_identity s)) signals"

lemma knowledge_at_late:
  assumes "late_after t late ms ss" "K \<le> t"
  shows "knowledge_at (bk_accessor (with_late en ms ss k)) K = knowledge_at (bk_accessor k) K"
proof -
  have "filter (\<lambda>m. mv_knowledge_horizon m \<le> K) ms = []" "filter (\<lambda>s. sy_knowledge_horizon (sg_identity s) \<le> K) ss = []"
    using assms unfolding filter_empty_conv late_after_def list_all_iff by fastforce+
  then show ?thesis by (simp add: with_late_def knowledge_at_def)
qed

lemma decide_all_late:
  assumes "late_after t late ms ss" "sp_knowledge_horizon s \<le> t"
  shows "decide_all (with_late en ms ss k) tln s sts bt = decide_all k tln s sts bt"
proof (induction sts arbitrary: bt)
  case (Cons st sts)
  have "decide (with_late en ms ss k) tln s st bt = decide k tln s st bt"
    by (simp add: decide_def build_strategy_context_def knowledge_at_late [OF assms] split: option.split)
  then show ?case using Cons by (cases "decide k tln s st bt") simp_all
qed simp

text \<open>Nothing in a turn depends on the moment at which a state was assembled, where the strategy does not.\<close>

definition heedless :: "('s \<Rightarrow> strategy_context \<Rightarrow> 'r) \<Rightarrow> bool" where
  "heedless f \<longleftrightarrow> (\<forall>st cx m. f st (cx\<lparr>cx_state := timeless m\<rparr>) = f st (cx\<lparr>cx_state := m\<rparr>))"

abbreviation on_engine :: "replay_engine \<Rightarrow> market_state list \<Rightarrow> 's backtest \<Rightarrow> 's backtest" where
  "on_engine e ms bt \<equiv> bt\<lparr>bt_engine := e, bt_last_states := ms\<rparr>"

lemma simulate_fill_timeless: "simulate_fill digest draw i (timeless m) fm = simulate_fill digest draw i m fm"
  by (simp add: simulate_fill_def find_leg_def)

lemma execute_intent_timeless:
  "execute_intent digest draw fm i (map timeless ms) latest book = execute_intent digest draw fm i ms latest book"
  by (induction ms arbitrary: latest) (simp_all add: simulate_fill_timeless split: sum.split option.split)

lemma execute_due_timeless: "execute_due k (map timeless ms) sds bt = execute_due k ms sds bt"
  by (induction sds arbitrary: bt) (simp_all add: execute_intent_timeless)

lemma on_engine_commutes:
  "(on_engine e l bt)\<lparr>bt_book := b, bt_outcomes := os, bt_fills := fs\<rparr> = on_engine e l (bt\<lparr>bt_book := b, bt_outcomes := os, bt_fills := fs\<rparr>)"
  "(on_engine e l bt)\<lparr>bt_strategy := st, bt_generated := n\<rparr> = on_engine e l (bt\<lparr>bt_strategy := st, bt_generated := n\<rparr>)"
  by simp_all

lemma execute_due_on_engine:
  "execute_due k ms sds (on_engine e l bt) = map_sum id (on_engine e l) (execute_due k ms sds bt)"
proof (induction sds arbitrary: bt)
  case (Cons sd sds)
  show ?case
  proof (cases "execute_intent (bk_intent_digest k) (bk_draw k) (bk_fill_model k) (sd_intent sd) ms None (bt_book bt)")
    case (Inr x)
    obtain book oc where x: "x = (book, oc)" by fastforce
    show ?thesis
      using Cons.IH [of "bt\<lparr>bt_book := book, bt_outcomes := bt_outcomes bt @ [oc], bt_fills := bt_fills bt @ (case fo_fill oc of None \<Rightarrow> [] | Some f \<Rightarrow> [f])\<rparr>"]
      by (simp add: Inr x on_engine_commutes(1))
  qed simp
qed simp

lemma closing_marks_timeless: "closing_marks (map timeless ms) = closing_marks ms"
  by (simp add: closing_marks_def comp_def)

lemma closing_marks_same: "map timeless ms = map timeless ms' \<Longrightarrow> closing_marks ms = closing_marks ms'"
  using closing_marks_timeless by metis

lemma measure_drawdown_on_engine:
  assumes "map timeless l = map timeless (bt_last_states bt)"
  shows "measure_drawdown s (on_engine e l bt) = on_engine e l (measure_drawdown s bt)"
  using closing_marks_same [OF assms] by (simp add: measure_drawdown_def Let_def)

lemma foldl_schedule_on_engine:
  "foldl (schedule_intent k tln) (on_engine e l bt) intents = on_engine e l (foldl (schedule_intent k tln) bt intents)"
proof (induction intents arbitrary: bt)
  case (Cons i intents)
  have "schedule_intent k tln (on_engine e l bt) i = on_engine e l (schedule_intent k tln bt i)"
    by (simp add: schedule_intent_def split: option.split)
  then show ?case using Cons by simp
qed simp

lemma foldl_schedule_last: "bt_last_states (foldl (schedule_intent k tln) bt is) = bt_last_states bt"
  by (induction "is" arbitrary: bt) (simp_all add: schedule_intent_def split: option.split)

lemma decide_plain:
  assumes "heedless (bk_on_state k)"
  shows "decide k tln s (plain_step st) bt = decide k tln s st bt"
proof -
  have cx: "build_strategy_context run m a account t K = (build_strategy_context run m' a account t K)\<lparr>cx_state := m\<rparr>" for run m m' a account t K
    by (simp add: build_strategy_context_def Let_def)
  have "bk_on_state k x (build_strategy_context run (timeless m) a account t K) = bk_on_state k x (build_strategy_context run m a account t K)"
    for x run m a account t K
    using assms cx [of run "timeless m" a account t K m] cx [of run m a account t K m] unfolding heedless_def by metis
  then show ?thesis by (simp add: decide_def plain_step_def)
qed

lemma decide_on_engine: "decide k tln s st (on_engine e l bt) = map_sum id (on_engine e l) (decide k tln s st bt)"
proof (cases "bk_on_state k (bt_strategy bt) (build_strategy_context (rc_run_id (tl_context tln)) (st_state st) (bk_accessor k)
    (account_view_of (bt_book bt)) (sp_market_time s) (sp_knowledge_horizon s))")
  case (Some x)
  obtain strategy intents where x: "x = (strategy, intents)" by fastforce
  show ?thesis
    using Some x foldl_schedule_on_engine [where k = k and tln = tln and e = e and l = l and intents = intents and bt = "bt\<lparr>bt_strategy := strategy, bt_generated := bt_generated bt + int (length intents)\<rparr>"]
    by (simp add: decide_def on_engine_commutes(2))
qed (simp add: decide_def)

lemma decide_all_on_engine:
  assumes "heedless (bk_on_state k)"
  shows "map plain_step sts = map plain_step sts' \<Longrightarrow>
    decide_all k tln s sts' (on_engine e l bt) = map_sum id (on_engine e l) (decide_all k tln s sts bt)"
proof (induction sts arbitrary: sts' bt)
  case (Cons st sts)
  then obtain st' ts where sts': "sts' = st' # ts" "plain_step st' = plain_step st" "map plain_step sts = map plain_step ts" by auto
  have "decide k tln s st' (on_engine e l bt) = map_sum id (on_engine e l) (decide k tln s st bt)"
    using decide_plain [OF assms, of tln s st] decide_plain [OF assms, of tln s st'] sts'(2) decide_on_engine by metis
  then show ?case using Cons.IH [OF sts'(3)] by (cases "decide k tln s st bt") (simp_all add: sts'(1))
qed simp

lemma decide_all_last: "decide_all k tln s sts bt = Inr bt' \<Longrightarrow> bt_engine bt' = bt_engine bt \<and> bt_last_states bt' = bt_last_states bt"
proof (induction sts arbitrary: bt)
  case (Cons st sts)
  have sched: "bt_engine (foldl (schedule_intent k tln) b is) = bt_engine b" for b "is"
    by (induction "is" arbitrary: b) (simp_all add: schedule_intent_def split: option.split)
  show ?case using Cons by (auto simp: bind_result_Inr_iff decide_def sched foldl_schedule_last split: option.splits)
qed simp

text \<open>The dictionary of a step's states maps over its values.\<close>

lemma sorted_values_map:
  assumes "dict_ok d"
  shows "sorted_values (map (\<lambda>(k, v). (k, f v)) d) = map f (sorted_values d)"
proof -
  have keys: "dict_keys (map (\<lambda>(k, v). (k, f v)) d) = dict_keys d" by (simp add: dict_keys_def comp_def case_prod_beta)
  have get: "dict_get (map (\<lambda>(k, v). (k, f v)) d) k = map_option f (dict_get d k)" for k
    by (induction d) (auto simp: dict_get_def)
  have "the (dict_get (map (\<lambda>(k, v). (k, f v)) d) k) = f (the (dict_get d k))" if "k \<in> set (dict_keys d)" for k
  proof -
    have "dict_get d k \<noteq> None" using that by (auto simp: dict_get_def dict_keys_def map_of_eq_None_iff)
    then show ?thesis unfolding get by auto
  qed
  then show ?thesis by (simp add: sorted_values_def keys)
qed

lemma by_instrument_plain: "by_instrument (map plain_step sts) = map plain_step (by_instrument sts)"
proof -
  let ?put = "\<lambda>d st. dict_set (st_underlying_id st) st d" and ?m = "map (\<lambda>(k, v). (k, plain_step v))"
  have put: "dict_set u (plain_step st) (?m d) = ?m (dict_set u st d)" for u st d
    by (induction d) (auto simp: dict_set_def)
  have "foldl ?put (?m d) (map plain_step sts) = ?m (foldl ?put d sts)" for d
    by (induction sts arbitrary: d) (simp_all add: put plain_step_def [of _, THEN arg_cong [where f = st_underlying_id]])
  from this [of "[]"] have "foldl ?put [] (map plain_step sts) = ?m (foldl ?put [] sts)" by simp
  moreover have "dict_ok (foldl ?put d sts)" if "dict_ok d" for d
    using that by (induction sts arbitrary: d) simp_all
  ultimately show ?thesis using sorted_values_map [of "foldl ?put [] sts" plain_step] by (simp add: by_instrument_def dict_ok_def)
qed

text \<open>One turn on two engines, the second over the store with the late rows.\<close>

lemma execute_due_last:
  "execute_due k ms sds bt = Inr bt' \<Longrightarrow> bt_engine bt' = bt_engine bt \<and> bt_last_states bt' = bt_last_states bt"
  by (rule execute_due_law) auto

lemma backtest_step_late:
  assumes late: "late_after t late ms ss" and s: "sp_market_time s \<le> t" "sp_knowledge_horizon s \<le> t" "step_dates_ok s"
    and ok: "exact_engine (bk_env k) bd obs (bt_engine bt)" "exact_engine en bd (fst (store_append obs late)) e"
    and digest: "se_digest en = se_digest (bk_env k)" and heedless: "heedless (bk_on_state k)"
  shows "case backtest_step k tln n s bt of
      Inl x \<Rightarrow> backtest_step (with_late en ms ss k) tln n s (on_engine e l bt) = Inl x
    | Inr b \<Rightarrow> (\<exists>e' l'. backtest_step (with_late en ms ss k) tln n s (on_engine e l bt) = Inr (on_engine e' l' b)
        \<and> map timeless l' = map timeless (bt_last_states b)
        \<and> exact_engine (bk_env k) bd obs (bt_engine b) \<and> exact_engine en bd (fst (store_append obs late)) e')"
proof -
  let ?us = "sort (rc_underlying_ids (tl_context tln))" and ?k = "with_late en ms ss k"
  obtain e1 q1 where one: "engine_states (bk_env k) (tl_context tln) s ?us (bt_engine bt) = (e1, q1)" by fastforce
  obtain e2 q2 where two: "engine_states en (tl_context tln) s ?us e = (e2, q2)" by fastforce
  note x1 = engine_states_exact [OF ok(1) s(3) one] and x2 = engine_states_exact [OF ok(2) s(3) two]
  have "assembled_steps (se_digest (bk_env k)) (on_store bd (fst (store_append obs late))) s ?us
      = assembled_steps (se_digest (bk_env k)) (on_store bd obs) s ?us"
    by (rule assembled_steps_append) (use late s(1,2) in \<open>fastforce simp: late_after_def list_all_iff\<close>)
  with x1 x2 have same: "map_sum id (map plain_step) q2 = map_sum id (map plain_step) q1" by (simp add: digest)
  show ?thesis
  proof (cases q1)
    case (Inl x)
    with same have "q2 = Inl x" by (cases q2) simp_all
    then show ?thesis using one two Inl by (simp add: backtest_step_def)
  next
    case (Inr sts)
    with same obtain ts where ts: "q2 = Inr ts" "map plain_step sts = map plain_step ts" by (cases q2) auto
    have "map timeless (map st_state xs) = map st_state (map plain_step xs)" for xs by (simp add: plain_step_def)
    with ts(2) have states: "map timeless (map st_state sts) = map timeless (map st_state ts)" by metis
    define b0 where "b0 = bt\<lparr>bt_engine := e1, bt_last_states := map st_state sts, bt_pending := dict_pop n (bt_pending bt)\<rparr>"
    have b0': "bt\<lparr>bt_engine := e2, bt_last_states := map st_state ts, bt_pending := dict_pop n (bt_pending bt)\<rparr>
        = on_engine e2 (map st_state ts) b0" by (simp add: b0_def)
    define due where "due = (case dict_get (bt_pending bt) n of None \<Rightarrow> [] | Some sds \<Rightarrow> sds)"
    have "execute_due k (map st_state ts) due (on_engine e2 (map st_state ts) b0)
        = map_sum id (on_engine e2 (map st_state ts)) (execute_due k (map st_state sts) due b0)"
      using execute_due_timeless [of k "map st_state ts"] execute_due_timeless [of k "map st_state sts"] states
      by (metis execute_due_on_engine)
    moreover have run1: "backtest_step k tln n s bt = bind_result (execute_due k (map st_state sts) due b0)
        (\<lambda>b. decide_all k tln s (by_instrument sts) (measure_drawdown s b))"
      using one Inr by (simp add: backtest_step_def Let_def b0_def due_def)
    moreover have "backtest_step ?k tln n s (on_engine e l bt) = bind_result (execute_due k (map st_state ts) due (on_engine e2 (map st_state ts) b0))
        (\<lambda>b. decide_all k tln s (by_instrument ts) (measure_drawdown s b))"
      using two ts(1) by (simp add: backtest_step_def Let_def b0' [symmetric] due_def decide_all_late [OF late s(2)])
    ultimately have run2: "backtest_step ?k tln n s (on_engine e l bt)
        = bind_result (map_sum id (on_engine e2 (map st_state ts)) (execute_due k (map st_state sts) due b0))
            (\<lambda>b. decide_all k tln s (by_instrument ts) (measure_drawdown s b))" by simp
    show ?thesis
    proof (cases "execute_due k (map st_state sts) due b0")
      case (Inl x)
      then show ?thesis using run1 run2 by simp
    next
      case (Inr b1)
      note frame = execute_due_last [OF this]
      have "map timeless (map st_state ts) = map timeless (bt_last_states b1)" using frame states by (simp add: b0_def)
      then have "measure_drawdown s (on_engine e2 (map st_state ts) b1) = on_engine e2 (map st_state ts) (measure_drawdown s b1)"
        by (rule measure_drawdown_on_engine)
      moreover have "map plain_step (by_instrument sts) = map plain_step (by_instrument ts)"
        using ts(2) by_instrument_plain by metis
      ultimately have run2: "backtest_step ?k tln n s (on_engine e l bt)
          = map_sum id (on_engine e2 (map st_state ts)) (decide_all k tln s (by_instrument sts) (measure_drawdown s b1))"
        using run2 Inr decide_all_on_engine [OF heedless, of "by_instrument sts" "by_instrument ts"] by simp
      show ?thesis
      proof (cases "decide_all k tln s (by_instrument sts) (measure_drawdown s b1)")
        case (Inl x)
        then show ?thesis using run1 run2 Inr by simp
      next
        case b2: (Inr b2)
        have "bt_engine b2 = e1" "bt_last_states b2 = map st_state sts"
          using decide_all_last [OF b2] frame by (simp_all add: measure_drawdown_def Let_def b0_def)
        with run1 run2 Inr b2 x1 x2 states show ?thesis
          by (auto intro!: exI [of _ e2] exI [of _ "map st_state ts"])
      qed
    qed
  qed
qed

lemma backtest_loop_late:
  assumes late: "late_after t late ms ss" and digest: "se_digest en = se_digest (bk_env k)" and heedless: "heedless (bk_on_state k)"
    and "\<forall>s \<in> set steps. sp_market_time s \<le> t \<and> sp_knowledge_horizon s \<le> t \<and> step_dates_ok s"
    and "exact_engine (bk_env k) bd obs (bt_engine bt)" "exact_engine en bd (fst (store_append obs late)) e"
    and "map timeless l = map timeless (bt_last_states bt)"
  shows "case backtest_loop k tln n steps bt of
      Inl x \<Rightarrow> backtest_loop (with_late en ms ss k) tln n steps (on_engine e l bt) = Inl x
    | Inr b \<Rightarrow> (\<exists>e' l'. backtest_loop (with_late en ms ss k) tln n steps (on_engine e l bt) = Inr (on_engine e' l' b)
        \<and> map timeless l' = map timeless (bt_last_states b))"
  using assms(4-7)
proof (induction steps arbitrary: n bt e l)
  case Nil
  then show ?case by auto
next
  case (Cons s steps)
  from Cons.prems(1) have s: "sp_market_time s \<le> t" "sp_knowledge_horizon s \<le> t" "step_dates_ok s" by simp_all
  note step = backtest_step_late [OF late s Cons.prems(2,3) digest heedless, of tln n l]
  show ?case
  proof (cases "backtest_step k tln n s bt")
    case (Inl x)
    then show ?thesis using step by simp
  next
    case (Inr b)
    with step obtain e' l' where b: "backtest_step (with_late en ms ss k) tln n s (on_engine e l bt) = Inr (on_engine e' l' b)"
        "map timeless l' = map timeless (bt_last_states b)"
        "exact_engine (bk_env k) bd obs (bt_engine b)" "exact_engine en bd (fst (store_append obs late)) e'"
      by auto
    have "\<forall>s \<in> set steps. sp_market_time s \<le> t \<and> sp_knowledge_horizon s \<le> t \<and> step_dates_ok s" using Cons.prems(1) by simp
    from Cons.IH [OF this b(3,4,2), of "Suc n"] Inr b(1) show ?thesis by (simp split: sum.splits)
  qed
qed

text \<open>
  Claim C4: A backtest over a period depends on nothing that became known after it. Take two runs of the same setup
  whose strategy does not read the moment at which a state was assembled. The second has more rows in its
  store, each observed or received only after the last step, more values and signals in its dataset, each
  with a later horizon, and another engine and clock. Each engine may have a checkpoint store, with or
  without caching, and whatever is in it, as long as each checkpoint holds the state that assembly gives for
  its key over the rows of its own run, up to the moment of assembly. Then both end in the same error or in
  the same result: no fill, rejection, statistic, ledger or warning differs.
\<close>

theorem backtest_never_looks_ahead:
  assumes "late_after t late metrics signals"
    and "\<forall>s \<in> set (tl_steps tln). sp_market_time s \<le> t \<and> sp_knowledge_horizon s \<le> t \<and> step_dates_ok s"
    and "exact_engine (bk_env k) bd obs e" "exact_engine en bd (fst (store_append obs late)) e'"
    and "se_digest en = se_digest (bk_env k)" "heedless (bk_on_state k)"
  shows "backtest_run (with_late en metrics signals k) hs hr tln n carried x e' strategy
    = backtest_run k hs hr tln n carried x e strategy"
proof (cases "start_backtest k carried e strategy")
  case (Inl y)
  then have "start_backtest (with_late en metrics signals k) carried e' strategy = Inl y"
    by (auto simp: start_backtest_def split: option.splits)
  then show ?thesis using Inl by (simp add: backtest_run_def)
next
  case (Inr bt0)
  then have start: "start_backtest (with_late en metrics signals k) carried e' strategy = Inr (on_engine e' [] bt0)"
      "bt_engine bt0 = e" "bt_last_states bt0 = []"
    by (auto simp: start_backtest_def split: option.splits)
  have steps: "\<forall>s \<in> set (drop n (tl_steps tln)). sp_market_time s \<le> t \<and> sp_knowledge_horizon s \<le> t \<and> step_dates_ok s"
    using assms(2) by (meson in_set_dropD)
  have finish: "finish_backtest (with_late en metrics signals k) hs hr tln x (on_engine e2 l b) = finish_backtest k hs hr tln x b"
    if "map timeless l = map timeless (bt_last_states b)" for e2 l b
    using closing_marks_same [OF that] by (simp add: finish_backtest_def backtest_statistics_of_def Let_def)
  note loop = backtest_loop_late [OF assms(1,5,6) steps, of bd obs bt0 e' "[]" tln n]
  show ?thesis
    using loop assms(3,4) start Inr finish
    by (cases "backtest_loop k tln n (drop n (tl_steps tln)) bt0") (auto simp: backtest_run_def)
qed

section \<open>Where the loop does not do what it is meant to\<close>

text \<open>A strategy dates its intents with the instant it is asked at.\<close>

definition decides_now :: "('s \<Rightarrow> strategy_context \<Rightarrow> ('s \<times> strategy_intent list) option) \<Rightarrow> bool" where
  "decides_now f \<longleftrightarrow> (\<forall>st cx st' is. f st cx = Some (st', is) \<longrightarrow> (\<forall>i \<in> set is. si_decision_time i = cx_now cx))"

lemma decide_due_by_now:
  assumes "decide k tln s st bt = Inr bt'" "fm_latency (bk_fill_model k) \<le> 0" "tl_steps tln ! n = s"
    and "decides_now (bk_on_state k)"
    and "\<forall>m. due_now bt m \<noteq> [] \<longrightarrow> m \<le> n"
  shows "\<forall>m. due_now bt' m \<noteq> [] \<longrightarrow> m \<le> n"
proof -
  have one: "\<forall>m. due_now (schedule_intent k tln b i) m \<noteq> [] \<longrightarrow> m \<le> n"
    if b: "\<forall>m. due_now b m \<noteq> [] \<longrightarrow> m \<le> n" and i: "si_decision_time i = sp_market_time s" for b i
  proof -
    have "due \<le> n" if "execution_step_index (bk_fill_model k) tln (si_decision_time i) = Some due" for due
    proof (rule ccontr)
      assume "\<not> due \<le> n"
      then have "sp_market_time (tl_steps tln ! n) < si_decision_time i + fm_latency (bk_fill_model k)"
        using execution_step_index_Some(3) [OF that, of n] by simp
      then show False using assms(2,3) i by simp
    qed
    then show ?thesis using b unfolding schedule_intent_def by (auto simp: due_now_def split: option.split)
  qed
  have all: "\<forall>m. due_now (foldl (schedule_intent k tln) b is) m \<noteq> [] \<longrightarrow> m \<le> n"
    if "\<forall>m. due_now b m \<noteq> [] \<longrightarrow> m \<le> n" "\<forall>i \<in> set is. si_decision_time i = sp_market_time s" for b "is"
    using that
  proof (induction "is" arbitrary: b)
    case (Cons i "is")
    from Cons.IH [of "schedule_intent k tln b i"] one [of b i] Cons.prems show ?case by simp
  qed simp
  from assms(1) obtain strategy intents where d: "bk_on_state k (bt_strategy bt) (build_strategy_context (rc_run_id (tl_context tln)) (st_state st)
        (bk_accessor k) (account_view_of (bt_book bt)) (sp_market_time s) (sp_knowledge_horizon s)) = Some (strategy, intents)"
    "bt' = foldl (schedule_intent k tln) (bt\<lparr>bt_strategy := strategy, bt_generated := bt_generated bt + int (length intents)\<rparr>) intents"
    by (auto simp: decide_def split: option.splits)
  have "\<forall>i \<in> set intents. si_decision_time i = sp_market_time s"
    using assms(4) d(1) unfolding decides_now_def by (fastforce simp: build_strategy_context_def Let_def)
  from all [OF _ this, of "bt\<lparr>bt_strategy := strategy, bt_generated := bt_generated bt + int (length intents)\<rparr>"] assms(5)
  show ?thesis unfolding d(2) by (simp add: due_now_def)
qed

lemma decide_all_due_by_now:
  assumes "decide_all k tln s sts bt = Inr bt'" "fm_latency (bk_fill_model k) \<le> 0" "tl_steps tln ! n = s"
    and "decides_now (bk_on_state k)"
    and "\<forall>m. due_now bt m \<noteq> [] \<longrightarrow> m \<le> n"
  shows "\<forall>m. due_now bt' m \<noteq> [] \<longrightarrow> m \<le> n"
  using assms(1,5)
proof (induction sts arbitrary: bt)
  case (Cons st sts)
  from Cons.prems(1) obtain b where b: "decide k tln s st bt = Inr b" "decide_all k tln s sts b = Inr bt'"
    by (auto simp: bind_result_Inr_iff)
  from decide_due_by_now [OF b(1) assms(2-4) Cons.prems(2)] Cons.IH [OF b(2)] show ?case by blast
qed simp

lemma decide_all_fills: "decide_all k tln s sts bt = Inr bt' \<Longrightarrow> bt_outcomes bt' = bt_outcomes bt \<and> bt_fills bt' = bt_fills bt"
proof (induction sts arbitrary: bt)
  case (Cons st sts)
  have "bt_outcomes (foldl (schedule_intent k tln) b is) = bt_outcomes b \<and> bt_fills (foldl (schedule_intent k tln) b is) = bt_fills b" for b "is"
    by (induction "is" arbitrary: b) (simp_all add: schedule_intent_def split: option.split)
  then show ?case using Cons by (auto simp: bind_result_Inr_iff decide_def split: option.splits)
qed simp

lemma backtest_loop_idle:
  assumes "fm_latency (bk_fill_model k) \<le> 0"
    and "decides_now (bk_on_state k)"
  shows "backtest_loop k tln n (drop n (tl_steps tln)) bt = Inr bt' \<Longrightarrow> \<forall>m. due_now bt m \<noteq> [] \<longrightarrow> m < n
    \<Longrightarrow> bt_outcomes bt' = bt_outcomes bt \<and> bt_fills bt' = bt_fills bt"
proof (induction "drop n (tl_steps tln)" arbitrary: n bt)
  case (Cons s ss)
  from Cons.hyps(2) have s: "tl_steps tln ! n = s" "drop (Suc n) (tl_steps tln) = ss"
    by (metis nth_via_drop) (metis Cons.hyps(2) drop_Suc list.sel(3) tl_drop)
  from Cons.prems(1) [folded Cons.hyps(2)] s(2) obtain b where
    step: "backtest_step k tln n s bt = Inr b" and rest: "backtest_loop k tln (Suc n) (drop (Suc n) (tl_steps tln)) b = Inr bt'"
    by (auto simp: bind_result_Inr_iff)
  have none: "due_now bt n = []" using Cons.prems(2) by blast
  from step obtain engine sts where
    "decide_all k tln s (by_instrument sts) (measure_drawdown s (bt\<lparr>bt_engine := engine, bt_last_states := map st_state sts, bt_pending := dict_pop n (bt_pending bt)\<rparr>)) = Inr b"
    using none by (auto simp: backtest_step_def Let_def due_now_def split: prod.splits sum.splits option.splits)
  note d = decide_all_due_by_now [OF this assms(1) s(1) assms(2)] decide_all_fills [OF this]
  have "\<forall>m. due_now (measure_drawdown s (bt\<lparr>bt_engine := engine, bt_last_states := map st_state sts, bt_pending := dict_pop n (bt_pending bt)\<rparr>)) m \<noteq> [] \<longrightarrow> m \<le> n"
    using Cons.prems(2) by (auto simp: measure_drawdown_def Let_def due_now_def less_imp_le split: option.splits if_splits)
  from d(1) [OF this] have "\<forall>m. due_now b m \<noteq> [] \<longrightarrow> m < Suc n" by (auto simp: less_Suc_eq_le)
  with Cons.hyps(1) [of "Suc n" b] rest s(2) d(2) show ?case by (simp add: measure_drawdown_def Let_def)
next
  case Nil
  then show ?case by simp
qed

text \<open>
  A fill model without latency never fills. An intent decided at a step with no latency is due at that very
  step, which has executed its intents before the strategy is asked; no later step looks at it again. So
  whatever the strategy and the market, such a run submits no order, and reports the intents as still scheduled.
\<close>

theorem zero_latency_never_executes:
  assumes "backtest_run k hs hr tln n carried x e strategy = Inr r" "fm_latency (bk_fill_model k) \<le> 0"
    and "decides_now (bk_on_state k)"
  shows "br_outcomes r = [] \<and> br_fills r = [] \<and> bs_orders_submitted (br_statistics r) = 0"
proof -
  obtain bt0 bt where run: "start_backtest k carried e strategy = Inr bt0" "backtest_loop k tln n (drop n (tl_steps tln)) bt0 = Inr bt"
    and r: "r = finish_backtest k hs hr tln x bt" and ok: "scheduled_ok k tln bt" "accounted (bt_book bt0) bt"
    by (rule backtest_run_Inr [OF assms(1)])
  have start: "bt_outcomes bt0 = []" "bt_fills bt0 = []" "\<forall>m. due_now bt0 m = []"
    using run(1) by (auto simp: start_backtest_def due_now_def split: option.splits)
  have "bt_outcomes bt = [] \<and> bt_fills bt = []" using backtest_loop_idle [OF assms(2,3) run(2)] start by auto
  then show ?thesis unfolding r finish_backtest_def Let_def by (simp add: backtest_statistics_of_def)
qed

text \<open>
  Two equal intents that are due at once have the same id, so the ledger takes the second fill for a redelivery of
  the first; the result still lists and counts both.
\<close>

lemma execute_intent_outcome:
  assumes "execute_intent digest draw fm i ms latest book = Inr (b1, oc1)" "execute_intent digest draw fm i ms latest book' = Inr (b2, oc2)"
  shows "oc2 = oc1"
  using assms
proof (induction ms arbitrary: latest)
  case (Cons c cs)
  then show ?case by (auto split: sum.splits option.splits prod.splits if_splits)
qed simp

theorem equal_intents_are_listed_twice:
  assumes "execute_due k ms [sd, sd'] bt = Inr bt'" "sd_intent sd' = sd_intent sd"
    and "execute_intent (bk_intent_digest k) (bk_draw k) (bk_fill_model k) (sd_intent sd) ms None (bt_book bt) = Inr (book, oc)"
    and "fo_fill oc = Some f" "fill_key f \<notin> lg_applied (bt_book bt)"
  shows "bt_fills bt' = bt_fills bt @ [f, f] \<and> bt_book bt' = book\<lparr>lg_duplicates := lg_duplicates book + 1\<rparr>"
proof -
  from assms(1-3) obtain book2 oc2 where two:
      "execute_intent (bk_intent_digest k) (bk_draw k) (bk_fill_model k) (sd_intent sd) ms None book = Inr (book2, oc2)"
      "bt_fills bt' = bt_fills bt @ fills_of [oc] @ fills_of [oc2]" "bt_book bt' = book2"
    by (auto simp: bind_result_Inr_iff)
  have same: "oc2 = oc" by (rule execute_intent_outcome [OF assms(3) two(1)])
  have "fills_of [oc] = [f]" using assms(4) by simp
  moreover have "book = fold deliver (fills_of [oc]) (bt_book bt)" using execute_intent_law [OF assms(3)] by blast
  moreover have "book2 = fold deliver (fills_of [oc]) book" using execute_intent_law [OF two(1)] unfolding same by blast
  ultimately have b: "book = deliver f (bt_book bt)" "book2 = deliver f book" by simp_all
  have "fill_key f \<in> lg_applied book" unfolding b(1) deliver_def by (simp add: applied_ledger_apply)
  then have "book2 = book\<lparr>lg_duplicates := lg_duplicates book + 1\<rparr>" unfolding b(2) by (simp add: deliver_def ledger_apply_def)
  then show ?thesis unfolding two(2,3) same using assms(4) by simp
qed

section \<open>A small run\<close>

text \<open>A strategy that buys once, at its first call, a fill model that always rejects after 30 microseconds, and the lockstep timeline.\<close>

definition buy_once :: "nat \<Rightarrow> strategy_context \<Rightarrow> (nat \<times> strategy_intent list) option" where
  "buy_once n cx = Some (Suc n, if n = 0
     then [(market_order BUY 5)\<lparr>si_decision_time := cx_now cx, si_knowledge_horizon := cx_knowledge_horizon cx\<rparr>] else [])"

definition sample_setup :: "duration \<Rightarrow> obs_store \<Rightarrow> nat backtest_setup" where
  "sample_setup latency obs = \<lparr>bk_env = sample_env obs,
     bk_fill_model = (sample_model TOUCH 0)\<lparr>fm_latency := latency, fm_rejection_rate := Dec 1 0\<rparr>,
     bk_opening_cash = Dec 400 0, bk_gate = unconstrained_risk (\<lambda>_. ''x''), bk_accessor = sample_accessor, bk_intent_digest = (\<lambda>_. ''x''),
     bk_draw = (\<lambda>_. 0), bk_spec = \<lparr>ssp_strategy_id = ''s'', ssp_version = 1, ssp_definition = ''buy once'', ssp_config = []\<rparr>,
     bk_on_state = buy_once\<rparr>"

definition storeless_engine :: replay_engine where
  "storeless_engine = \<lparr>re_service = fresh_service False False, re_checkpoints = NO_STORE, re_progress = no_progress\<rparr>"

lemma storeless_engine_ok: "engine_ok (sample_env obs) (sample_builder spot_only) obs storeless_engine"
  by (simp add: engine_ok_def sample_env_def storeless_engine_def service_ok_def fresh_service_def)

lemma sample_rejects: "\<exists>r. simulate_fill digest (\<lambda>_. 0) i m ((sample_model TOUCH 0)\<lparr>fm_latency := d, fm_rejection_rate := Dec 1 0\<rparr>)
    = Inr (rejected_fill (strategy_intent_id digest i) r)"
proof -
  have "unit_draw (\<lambda>_. 0) x y < Dec 1 0" "0 < Dec 1 0" for x y
    by (simp_all add: unit_draw_def dec_less_iff dec_int_def)
  then show ?thesis by (auto simp: simulate_fill_def Let_def split: option.split)
qed

lemma rejecting_execute: "\<exists>oc. execute_intent digest (\<lambda>_. 0) ((sample_model TOUCH 0)\<lparr>fm_latency := d, fm_rejection_rate := Dec 1 0\<rparr>) i ms latest book = Inr (book, oc)"
proof (induction ms arbitrary: latest)
  case (Cons c cs)
  obtain r where "simulate_fill digest (\<lambda>_. 0) i c ((sample_model TOUCH 0)\<lparr>fm_latency := d, fm_rejection_rate := Dec 1 0\<rparr>)
      = Inr (rejected_fill (strategy_intent_id digest i) r)" using sample_rejects by blast
  then show ?case using Cons by (simp add: rejected_fill_def)
qed simp

lemma sample_setup_simps [simp]:
  "bk_env (sample_setup d obs) = sample_env obs" "bk_on_state (sample_setup d obs) = buy_once" "bk_draw (sample_setup d obs) = (\<lambda>_. 0)"
  "bk_fill_model (sample_setup d obs) = (sample_model TOUCH 0)\<lparr>fm_latency := d, fm_rejection_rate := Dec 1 0\<rparr>"
  "bk_intent_digest (sample_setup d obs) = (\<lambda>_. ''x'')" "bk_opening_cash (sample_setup d obs) = Dec 400 0"
  by (simp_all add: sample_setup_def)

lemma rejecting_execute_due: "\<exists>bt'. execute_due (sample_setup d obs) ms sds bt = Inr bt' \<and> bt_engine bt' = bt_engine bt"
proof (induction sds arbitrary: bt)
  case (Cons sd sds)
  obtain oc where "execute_intent (\<lambda>_. ''x'') (\<lambda>_. 0) ((sample_model TOUCH 0)\<lparr>fm_latency := d, fm_rejection_rate := Dec 1 0\<rparr>) (sd_intent sd) ms None (bt_book bt)
      = Inr (bt_book bt, oc)" using rejecting_execute by blast
  then show ?case
    using Cons.IH [of "bt\<lparr>bt_outcomes := bt_outcomes bt @ [oc], bt_fills := bt_fills bt @ (case fo_fill oc of None \<Rightarrow> [] | Some f \<Rightarrow> [f])\<rparr>"]
    by simp
qed simp

lemma sample_decide_all: "\<exists>bt'. decide_all (sample_setup d obs) tln s sts bt = Inr bt'"
proof (induction sts arbitrary: bt)
  case (Cons st sts)
  obtain b where "decide (sample_setup d obs) tln s st bt = Inr b"
    by (simp add: decide_def buy_once_def)
  then show ?case using Cons by simp
qed simp

lemma sample_engine_states:
  assumes "engine_ok (sample_env obs) (sample_builder spot_only) obs e" "step_dates_ok s"
  obtains e' sts where "engine_states (sample_env obs) c s us e = (e', Inr sts)" "engine_ok (sample_env obs) (sample_builder spot_only) obs e'"
proof -
  obtain e' r where run: "engine_states (sample_env obs) c s us e = (e', r)" by fastforce
  note ref = engine_states_refines [OF assms run]
  obtain xs where "direct_visits (se_digest (sample_env obs)) (on_store (sample_builder spot_only) obs) (map (Pair s) us) = Inr xs"
    by (rule direct_visits_total [OF sample_judges])
  with ref run that show thesis by (cases r) simp_all
qed

lemma sample_loop:
  "engine_ok (sample_env obs) (sample_builder spot_only) obs (bt_engine bt) \<Longrightarrow> list_all step_dates_ok ss
    \<Longrightarrow> \<exists>bt'. backtest_loop (sample_setup d obs) tln n ss bt = Inr bt'"
proof (induction ss arbitrary: n bt)
  case (Cons s ss)
  obtain e' sts where eng: "engine_states (sample_env obs) (tl_context tln) s (sort (rc_underlying_ids (tl_context tln))) (bt_engine bt) = (e', Inr sts)"
    and ok: "engine_ok (sample_env obs) (sample_builder spot_only) obs e'"
    by (rule sample_engine_states [OF Cons.prems(1), of s]) (use Cons.prems(2) in auto)
  obtain b where b: "execute_due (sample_setup d obs) (map st_state sts) (due_now bt n)
        (bt\<lparr>bt_engine := e', bt_last_states := map st_state sts, bt_pending := dict_pop n (bt_pending bt)\<rparr>) = Inr b" "bt_engine b = e'"
    using rejecting_execute_due [of d obs "map st_state sts" "due_now bt n"
        "bt\<lparr>bt_engine := e', bt_last_states := map st_state sts, bt_pending := dict_pop n (bt_pending bt)\<rparr>"] by auto
  obtain b2 where b2: "decide_all (sample_setup d obs) tln s (by_instrument sts) (measure_drawdown s b) = Inr b2"
    using sample_decide_all by blast
  have "bt_engine b2 = e'" using decide_all_last [OF b2] b(2) by (simp add: measure_drawdown_def Let_def)
  moreover have "backtest_step (sample_setup d obs) tln n s bt = Inr b2"
    using eng b(1) b2 by (simp add: backtest_step_def Let_def due_now_def)
  ultimately show ?case using Cons.IH [of b2 "Suc n"] ok Cons.prems(2) by simp
qed simp

lemma sample_start: "start_backtest (sample_setup d obs) None e (0::nat) = Inr \<lparr>bt_engine = e, bt_strategy = 0, bt_book = sample_book,
    bt_pending = [], bt_outcomes = [], bt_fills = [], bt_generated = 0, bt_risk_rejected = 0, bt_expired = 0, bt_peak = Dec 400 0,
    bt_drawdown = 0, bt_last_states = []\<rparr>"
  by (simp add: start_backtest_def sample_setup_def new_sample_book) (simp add: sample_book_def)

lemma sample_backtest:
  obtains r where "backtest_run (sample_setup d obs) (\<lambda>_. ''c'') (\<lambda>_. ''p'') sample_timeline 0 None None storeless_engine 0 = Inr r"
proof -
  obtain bt where "backtest_loop (sample_setup d obs) sample_timeline 0 (tl_steps sample_timeline) \<lparr>bt_engine = storeless_engine, bt_strategy = 0, bt_book = sample_book,
    bt_pending = [], bt_outcomes = [], bt_fills = [], bt_generated = 0, bt_risk_rejected = 0, bt_expired = 0, bt_peak = Dec 400 0,
    bt_drawdown = 0, bt_last_states = []\<rparr> = Inr bt"
    using sample_loop [OF _ sample_dates, of obs "\<lparr>bt_engine = storeless_engine, bt_strategy = 0, bt_book = sample_book,
    bt_pending = [], bt_outcomes = [], bt_fills = [], bt_generated = 0, bt_risk_rejected = 0, bt_expired = 0, bt_peak = Dec 400 0,
    bt_drawdown = 0, bt_last_states = []\<rparr>" d sample_timeline 0] storeless_engine_ok by auto
  then show thesis using that by (simp add: backtest_run_def sample_start)
qed

theorem backtest_accounts_for_every_intent_witness:
  "\<exists>r. backtest_run (sample_setup 30 (loaded sample_rows)) (\<lambda>_. ''c'') (\<lambda>_. ''p'') sample_timeline 0 None None storeless_engine 0 = Inr r
     \<and> bs_orders_submitted (br_statistics r) = bs_fills (br_statistics r) + bs_rejections (br_statistics r)"
proof -
  obtain r where r: "backtest_run (sample_setup 30 (loaded sample_rows)) (\<lambda>_. ''c'') (\<lambda>_. ''p'') sample_timeline 0 None None storeless_engine 0 = Inr r"
    by (rule sample_backtest)
  from backtest_accounts_for_every_intent [OF r] r show ?thesis by blast
qed

theorem backtest_ledger_is_fold_witness:
  "\<exists>r marks. backtest_run (sample_setup 30 (loaded sample_rows)) (\<lambda>_. ''c'') (\<lambda>_. ''p'') sample_timeline 0 None None storeless_engine 0 = Inr r
     \<and> br_final_ledger r = ledger_snapshot_at (fold deliver (br_fills r) sample_book)
         (if tl_steps sample_timeline = [] then pe_end (rc_period (tl_context sample_timeline))
          else sp_market_time (last (tl_steps sample_timeline))) marks"
proof -
  obtain r where r: "backtest_run (sample_setup 30 (loaded sample_rows)) (\<lambda>_. ''c'') (\<lambda>_. ''p'') sample_timeline 0 None None storeless_engine 0 = Inr r"
    by (rule sample_backtest)
  from backtest_ledger_is_fold [OF r] r show ?thesis by (auto simp: sample_setup_def new_sample_book)
qed

theorem execution_waits_for_latency_witness:
  "\<exists>bt bt' ocs. backtest_step (sample_setup 30 (loaded sample_rows)) sample_timeline 1 (tl_steps sample_timeline ! 1) bt = Inr bt'
     \<and> bt_outcomes bt' = bt_outcomes bt @ ocs \<and> length ocs = length (due_now bt 1)"
proof -
  let ?k = "sample_setup 30 (loaded sample_rows)"
  obtain bt0 where bt0: "start_backtest ?k None storeless_engine (0::nat) = Inr bt0" "bt_engine bt0 = storeless_engine"
    by (simp add: sample_start)
  have two: "take (Suc 1) (tl_steps sample_timeline) = take 1 (tl_steps sample_timeline) @ [tl_steps sample_timeline ! 1]"
    by (rule take_Suc_conv_app_nth) (simp add: sample_steps)
  have "list_all step_dates_ok (take (Suc 1) (tl_steps sample_timeline))"
    using sample_dates by (auto simp: list_all_iff dest: in_set_takeD)
  then obtain b where "backtest_loop ?k sample_timeline 0 (take (Suc 1) (tl_steps sample_timeline)) bt0 = Inr b"
    using sample_loop [of "loaded sample_rows" bt0 _ 30 sample_timeline 0] bt0(2) storeless_engine_ok by auto
  then obtain bt bt' where "backtest_loop ?k sample_timeline 0 (take 1 (tl_steps sample_timeline)) bt0 = Inr bt"
      "backtest_step ?k sample_timeline 1 (tl_steps sample_timeline ! 1) bt = Inr bt'"
    by (auto simp: sample_steps bind_result_Inr_iff)
  from execution_waits_for_latency [OF bt0(1) this] this(2) show ?thesis by (blast dest: list_all2_lengthD [symmetric])
qed

text \<open>
  The second run starts from the engine that a caching replay over the store with the late row has left, with
  its checkpoints; the first has no store.
\<close>

definition late_rows :: "observation list" where
  "late_rows = [sample_tick 1 35 90 3 None]"

definition late_env :: service_env where
  "late_env = sample_env (fst (store_append (loaded sample_rows) late_rows))"

definition left_engine :: replay_engine where
  "left_engine = fst (engine_run late_env sample_timeline None None sample_engine)"

lemma exact_storeless: "exact_engine (sample_env obs) (sample_builder spot_only) obs storeless_engine"
  by (simp add: exact_engine_def sample_env_def storeless_engine_def)

lemma exact_left: "exact_engine late_env (sample_builder spot_only) (fst (store_append (loaded sample_rows) late_rows)) left_engine"
proof -
  have "exact_engine late_env (sample_builder spot_only) (fst (store_append (loaded sample_rows) late_rows)) sample_engine"
    by (simp add: exact_engine_def late_env_def sample_env_def sample_engine_def)
  from engine_run_exact [OF this sample_dates] show ?thesis unfolding left_engine_def by (metis prod.collapse)
qed

theorem backtest_never_looks_ahead_witness:
  "\<exists>r. backtest_run (sample_setup 30 (loaded sample_rows)) (\<lambda>_. ''c'') (\<lambda>_. ''p'') sample_timeline 0 None None storeless_engine 0 = Inr r
     \<and> backtest_run (with_late late_env [sample_metric ''pcr'' 2 90 95] [] (sample_setup 30 (loaded sample_rows)))
       (\<lambda>_. ''c'') (\<lambda>_. ''p'') sample_timeline 0 None None left_engine 0 = Inr r"
proof -
  let ?k = "sample_setup 30 (loaded sample_rows)"
  obtain r where r: "backtest_run ?k (\<lambda>_. ''c'') (\<lambda>_. ''p'') sample_timeline 0 None None storeless_engine 0 = Inr r"
    by (rule sample_backtest)
  have late: "late_after 80 late_rows [sample_metric ''pcr'' 2 90 95] []"
    by (simp add: late_after_def late_rows_def sample_tick_def sample_metric_def)
  have steps: "\<forall>s \<in> set (tl_steps sample_timeline). sp_market_time s \<le> 80 \<and> sp_knowledge_horizon s \<le> 80 \<and> step_dates_ok s"
    using sample_dates by (simp add: sample_steps)
  have first: "exact_engine (bk_env ?k) (sample_builder spot_only) (loaded sample_rows) storeless_engine"
    using exact_storeless by simp
  have digest: "se_digest late_env = se_digest (bk_env ?k)" by (simp add: late_env_def sample_env_def)
  have heedless: "heedless (bk_on_state ?k)" by (simp add: heedless_def buy_once_def)
  show ?thesis using backtest_never_looks_ahead [OF late steps first exact_left digest heedless] r by auto
qed

theorem zero_latency_never_executes_witness:
  "\<exists>r. backtest_run (sample_setup 0 (loaded sample_rows)) (\<lambda>_. ''c'') (\<lambda>_. ''p'') sample_timeline 0 None None storeless_engine 0 = Inr r
     \<and> br_outcomes r = []"
proof -
  obtain r where r: "backtest_run (sample_setup 0 (loaded sample_rows)) (\<lambda>_. ''c'') (\<lambda>_. ''p'') sample_timeline 0 None None storeless_engine 0 = Inr r"
    by (rule sample_backtest)
  have "decides_now (bk_on_state (sample_setup 0 (loaded sample_rows)))"
    by (auto simp: decides_now_def sample_setup_def buy_once_def split: if_splits)
  from zero_latency_never_executes [OF r _ this] r show ?thesis by (simp add: sample_setup_def)
qed

end
