(* ===== verification/Signals.thy ===== *)
theory Signals
  imports Metrics State_Machine
begin

text \<open>
  \<^verbatim>\<open>oipulse/signals/strength.py\<close>, \<^verbatim>\<open>lifecycle.py\<close>, \<^verbatim>\<open>context.py\<close>, \<^verbatim>\<open>rules.py\<close>, \<^verbatim>\<open>evaluation.py\<close> and the builders of
  evidence in \<^verbatim>\<open>catalogue/_shared.py\<close>: from a market state and computed values to signals. A rule is a function
  of its context, \<open>None\<close> where it raises. The values of a rule's configuration are strings, as the registered
  defaults are. Digests over canonical JSON are the parameters in \<open>signal_hashes\<close>.
\<close>

section \<open>Strength (strength.py)\<close>

definition normalized_weighted_sum :: "evidence list \<Rightarrow> evidence list \<Rightarrow> decimal" where
  "normalized_weighted_sum supporting contradicting =
     (let support = dec_sum (map ev_weight supporting);
          against = dec_sum (map (\<lambda>e. \<bar>ev_weight e\<bar>) contradicting);
          total = support + against
      in if dval total = 0 then 0
         else dec_min (dec_max (dec_div (support - against) total) 0) (dec_int 1))"

record strength_function =
  sf_name :: string
  sf_version :: int
  sf_derive :: "evidence list \<Rightarrow> evidence list \<Rightarrow> decimal"

definition normalized_strength :: strength_function where
  "normalized_strength = \<lparr>sf_name = ''NORMALIZED_WEIGHTED_SUM'', sf_version = 1, sf_derive = normalized_weighted_sum\<rparr>"

text \<open>\<open>None\<close> is the KeyError.\<close>

definition resolve_strength_function :: "string \<Rightarrow> int \<Rightarrow> strength_function option" where
  "resolve_strength_function name v =
     dict_get [((sf_name normalized_strength, sf_version normalized_strength), normalized_strength)] (name, v)"

section \<open>The lifecycle (lifecycle.py)\<close>

datatype signal_trigger =
  ENTRY_PARTIAL | ENTRY_FULL | EVIDENCE_UPDATED | PERSISTENCE_MET | INVALIDATION_TRUE | EVIDENCE_DECAYED | EXPIRY_REACHED

fun trigger_word :: "signal_trigger \<Rightarrow> string" where
  "trigger_word ENTRY_PARTIAL = ''entry_conditions_partially_met''"
| "trigger_word ENTRY_FULL = ''all_entry_conditions_met''"
| "trigger_word EVIDENCE_UPDATED = ''evidence_updated''"
| "trigger_word PERSISTENCE_MET = ''persistence_criteria_met''"
| "trigger_word INVALIDATION_TRUE = ''invalidation_condition_true''"
| "trigger_word EVIDENCE_DECAYED = ''evidence_decayed_below_threshold''"
| "trigger_word EXPIRY_REACHED = ''expires_at_reached''"

fun permitted_signal :: "signal_status \<Rightarrow> signal_status list" where
  "permitted_signal SIG_FORMING = [SIG_ACTIVE, SIG_FADED, SIG_EXPIRED]"
| "permitted_signal SIG_ACTIVE = [SIG_ACTIVE, SIG_CONFIRMED, SIG_INVALIDATED, SIG_FADED, SIG_EXPIRED]"
| "permitted_signal SIG_CONFIRMED = [SIG_CONFIRMED, SIG_INVALIDATED, SIG_FADED, SIG_EXPIRED]"
| "permitted_signal SIG_INVALIDATED = []"
| "permitted_signal SIG_EXPIRED = []"
| "permitted_signal SIG_FADED = []"

definition is_permitted :: "signal_status option \<Rightarrow> signal_status \<Rightarrow> bool" where
  "is_permitted current target \<longleftrightarrow> (case current of None \<Rightarrow> target = SIG_FORMING | Some s \<Rightarrow> target \<in> set (permitted_signal s))"

definition history_entry :: "signal_status \<Rightarrow> signal_trigger \<Rightarrow> instant \<Rightarrow> string \<times> instant" where
  "history_entry s t moment = (signal_word s @ '':'' @ trigger_word t, moment)"

text \<open>\<open>replace\<close> runs the constructor's check again.\<close>

definition apply_signal_transition ::
  "signal \<Rightarrow> signal_status \<Rightarrow> signal_trigger \<Rightarrow> instant \<Rightarrow> decimal option \<Rightarrow> signal_error + signal" where
  "apply_signal_transition s target trigger moment strength =
     (if \<not> is_permitted (Some (sg_status s)) target then Inl (Illegal_Signal_Transition (sg_status s) target)
      else construct_signal (s\<lparr>sg_status := target, sg_strength := (case strength of None \<Rightarrow> sg_strength s | Some x \<Rightarrow> x),
             sg_updated_at := moment, sg_history := sg_history s @ [history_entry target trigger moment]\<rparr>))"

section \<open>The context of a rule (context.py)\<close>

definition metric_ref_of :: "metric_value \<Rightarrow> metric_ref" where
  "metric_ref_of v = \<lparr>mr_feature_id = mv_feature_id v, mr_feature_version = mv_feature_version v,
     mr_scope_kind = scope_word (sr_kind (mv_scope v)), mr_scope_ref = sr_ref (mv_scope v), mr_observed_at = mv_observed_at v,
     mr_knowledge_horizon = mv_knowledge_horizon v, mr_build_context_id = mv_build_context_id v,
     mr_inputs_digest = mv_inputs_digest v, mr_available_at = mv_available_at v\<rparr>"

type_synonym rule_config = "(string \<times> string) list"

definition rule_config_of :: "(string, string) dict \<Rightarrow> rule_config" where
  "rule_config_of d = sort d"

definition config_get :: "rule_config \<Rightarrow> string \<Rightarrow> string option" where
  "config_get c name = map_of c name"

record rule_context =
  rx_state :: market_state
  rx_knowledge_override :: "instant option"
  rx_metrics :: "(string \<times> metric_value) list"
  rx_config :: rule_config
  rx_prior_strengths :: "decimal list"

definition rx_market_time :: "rule_context \<Rightarrow> instant" where
  "rx_market_time c = id_market_time (mst_identity (rx_state c))"

definition rx_knowledge_horizon :: "rule_context \<Rightarrow> instant" where
  "rx_knowledge_horizon c =
     (case rx_knowledge_override c of Some k \<Rightarrow> k | None \<Rightarrow> id_knowledge_horizon (mst_identity (rx_state c)))"

definition rx_metric :: "rule_context \<Rightarrow> string \<Rightarrow> int \<Rightarrow> metric_value option" where
  "rx_metric c i v = map_of (rx_metrics c) (versioned i v)"

definition rx_has :: "rule_context \<Rightarrow> string \<Rightarrow> int \<Rightarrow> bool" where
  "rx_has c i v \<longleftrightarrow> rx_metric c i v \<noteq> None"

definition rx_numeric :: "rule_context \<Rightarrow> string \<Rightarrow> int \<Rightarrow> decimal option" where
  "rx_numeric c i v = (case map_option mv_value (rx_metric c i v) of
      Some (Decimal_Value d) \<Rightarrow> Some d | Some (Int_Value n) \<Rightarrow> Some (dec_int n) | _ \<Rightarrow> None)"

definition rx_categorical :: "rule_context \<Rightarrow> string \<Rightarrow> int \<Rightarrow> string option" where
  "rx_categorical c i v = (case map_option mv_value (rx_metric c i v) of Some (Text_Value s) \<Rightarrow> Some s | _ \<Rightarrow> None)"

definition latest_input_available_at :: "rule_context \<Rightarrow> instant option" where
  "latest_input_available_at c = (case map (mv_available_at \<circ> snd) (rx_metrics c) of [] \<Rightarrow> None | t # ts \<Rightarrow> Some (foldl max t ts))"

type_synonym inputs_content = "string \<times> (string \<times> string) list \<times> string \<times> string list"

record signal_hashes =
  sh_signal :: signal_digest
  sh_context :: "build_context \<Rightarrow> string"
  sh_state :: "state_content \<Rightarrow> string"
  sh_config :: "(string \<times> string) list \<Rightarrow> string"
  sh_inputs :: "inputs_content \<Rightarrow> string"

definition config_digest :: "signal_hashes \<Rightarrow> rule_config \<Rightarrow> string" where
  "config_digest h c = ''cfg_'' @ take 24 (sh_config h c)"

text \<open>
  \<open>sorted(self.metrics)\<close> compares pairs of a name and a value. Two different values under one name are then
  compared themselves, which their class does not support: that is the TypeError.
\<close>

definition unorderable :: "(string \<times> metric_value) list \<Rightarrow> bool" where
  "unorderable ms \<longleftrightarrow> list_ex (\<lambda>a. list_ex (\<lambda>b. fst a = fst b \<and> snd a \<noteq> snd b) ms) ms"

definition rule_inputs_digest :: "signal_hashes \<Rightarrow> rule_context \<Rightarrow> signal_error + string" where
  "rule_inputs_digest h c =
     (if unorderable (rx_metrics c) then Inl Unorderable_Inputs
      else Inr (sh_inputs h (sh_state h (as_comparable (sh_context h) (rx_state c)),
             foldl (\<lambda>d (n, v). dict_set n (mv_inputs_digest v) d) [] (sort_key fst (rx_metrics c)),
             config_digest h (rx_config c), map dec_str (rx_prior_strengths c))))"

definition available_only :: "metric_value list \<Rightarrow> instant \<Rightarrow> (string \<times> metric_value) list" where
  "available_only vs k =
     sort_key fst (map (\<lambda>v. (versioned (mv_feature_id v) (mv_feature_version v), v)) (filter (\<lambda>v. mv_available_at v \<le> k) vs))"

section \<open>Building evidence (catalogue/\_shared.py)\<close>

text \<open>\<open>None\<close> is the ValueError of the constructor.\<close>

definition evidence_from :: "metric_value \<Rightarrow> string \<Rightarrow> decimal \<Rightarrow> evidence_kind \<Rightarrow> evidence option" where
  "evidence_from v statement magnitude kind =
     (let e = \<lparr>ev_kind = kind, ev_metric = metric_ref_of v, ev_statement = statement,
                ev_weight = (if kind = SUPPORTING then magnitude else - \<bar>magnitude\<bar>), ev_observed_at = mv_observed_at v, ev_observation_refs = []\<rparr>
      in if evidence_refused e then None else Some e)"

section \<open>Rules and their registry (rules.py)\<close>

text \<open>
  \<open>^(\d+(?:\.\d+)?)(s|m|h|d)$\<close>, the number read as a float; the seconds of a timedelta are split into their
  whole and fractional part and the latter rounded to microseconds.
\<close>

definition is_digit :: "char \<Rightarrow> bool" where
  "is_digit c \<longleftrightarrow> 48 \<le> (of_char c :: nat) \<and> of_char c \<le> (57 :: nat)"

definition unit_seconds :: "string \<Rightarrow> int option" where
  "unit_seconds s = map_of [(''s'', 1), (''m'', 60), (''h'', 3600), (''d'', 86400)] s"

definition timedelta_seconds :: "rat \<Rightarrow> signal_error + duration" where
  "timedelta_seconds x =
     (let whole = \<lfloor>x\<rfloor>; us = whole * 1000000 + round_half_even (rnd53 ((x - of_int whole) * 1000000))
      in if 86400000000 * 1000000000 \<le> us then Inl Bad_Interval else Inr us)"

definition parse_interval :: "string \<Rightarrow> signal_error + duration" where
  "parse_interval text =
     (let t = str_strip text; ds = takeWhile is_digit t; r = dropWhile is_digit t;
          fs = (case r of c # r' \<Rightarrow> if c = CHR ''.'' then takeWhile is_digit r' else [] | [] \<Rightarrow> []);
          unit = (if fs = [] then r else drop (Suc (length fs)) r)
      in if ds = [] then Inl Bad_Interval
         else case unit_seconds unit of
                None \<Rightarrow> Inl Bad_Interval
              | Some n \<Rightarrow> timedelta_seconds (rnd53 (rnd53 (of_nat (digits_value (ds @ fs)) / 10 ^ length fs) * of_int n)))"

record rule_outcome =
  ro_fired :: bool
  ro_entry_conditions_met :: bool
  ro_supporting :: "evidence list"
  ro_contradiction :: contradiction
  ro_invalidation_condition :: string
  ro_invalidated :: bool

definition no_signal :: rule_outcome where
  "no_signal = \<lparr>ro_fired = False, ro_entry_conditions_met = False, ro_supporting = [], ro_contradiction = None_Observed,
     ro_invalidation_condition = [], ro_invalidated = False\<rparr>"

record signal_rule =
  ru_signal_type :: string
  ru_version :: int
  ru_horizon :: string
  ru_evaluation_interval :: string
  ru_requires_features :: "(string \<times> int) list"
  ru_quality_requirements :: "string list"
  ru_evaluate :: "rule_context \<Rightarrow> rule_outcome option"
  ru_strength_function :: strength_function
  ru_persistence_evaluations :: int
  ru_default_config :: "(string \<times> string) list"

definition rule_key :: "signal_rule \<Rightarrow> string \<times> int" where
  "rule_key r = (ru_signal_type r, ru_version r)"

definition rule_label :: "signal_rule \<Rightarrow> string" where
  "rule_label r = versioned (ru_signal_type r) (ru_version r)"

text \<open>The first requirement that refuses or is not understood refuses.\<close>

definition refuses_quality :: "signal_rule \<Rightarrow> quality_status \<Rightarrow> bool" where
  "refuses_quality r status \<longleftrightarrow> list_ex (\<lambda>raw.
     let n = filter (\<lambda>c. c \<noteq> CHR '' '') raw
     in if n = ''quality!=UNRELIABLE'' then status = QS_UNRELIABLE
        else if n = ''quality==OK'' then status \<noteq> QS_OK
        else True) (ru_quality_requirements r)"

datatype registry_error = Duplicate_Rule | Unknown_Rule | Unparseable_Interval | No_Pinned_Features

type_synonym rule_registry = "(string \<times> int, signal_rule) dict"

definition register_rule :: "rule_registry \<Rightarrow> signal_rule \<Rightarrow> registry_error + rule_registry" where
  "register_rule reg r = (case dict_get reg (rule_key r) of
      Some _ \<Rightarrow> Inl Duplicate_Rule | None \<Rightarrow> Inr (dict_set (rule_key r) r reg))"

text \<open>The decorator: the intervals and the pinned features are checked before the registration.\<close>

definition declare_rule :: "rule_registry \<Rightarrow> signal_rule \<Rightarrow> registry_error + rule_registry" where
  "declare_rule reg r =
     (if \<not> is_ok (parse_interval (ru_horizon r)) \<or> \<not> is_ok (parse_interval (ru_evaluation_interval r)) then Inl Unparseable_Interval
      else if ru_requires_features r = [] then Inl No_Pinned_Features
      else register_rule reg r)"

definition get_rule :: "rule_registry \<Rightarrow> string \<Rightarrow> int \<Rightarrow> registry_error + signal_rule" where
  "get_rule reg t v = (case dict_get reg (t, v) of None \<Rightarrow> Inl Unknown_Rule | Some r \<Rightarrow> Inr r)"

definition latest_rule :: "rule_registry \<Rightarrow> string \<Rightarrow> registry_error + signal_rule" where
  "latest_rule reg t = (case map snd (filter (\<lambda>k. fst k = t) (dict_keys reg)) of
      [] \<Rightarrow> Inl Unknown_Rule
    | v # vs \<Rightarrow> get_rule reg t (foldl max v vs))"

definition all_rules :: "rule_registry \<Rightarrow> signal_rule list" where
  "all_rules reg = sorted_values reg"

definition rule_types :: "rule_registry \<Rightarrow> string list" where
  "rule_types reg = sort (remdups (map fst (dict_keys reg)))"

section \<open>Evaluation (evaluation.py)\<close>

datatype skip_reason = SKIP_QUALITY_NOT_MET | SKIP_FEATURE_UNAVAILABLE | SKIP_CONDITIONS_NOT_MET | SKIP_RULE_ERROR

record evaluation_report =
  er_signals :: "signal list"
  er_skipped :: "(signal_rule \<times> skip_reason) list"
  er_none_observed :: "string list"

definition default_signal_delay :: duration where
  "default_signal_delay = 2000000"

record evaluator =
  se_registry :: rule_registry
  se_delay :: duration
  se_hashes :: signal_hashes

definition available_at_for :: "evaluator \<Rightarrow> rule_context \<Rightarrow> instant \<Rightarrow> instant" where
  "available_at_for ev c evaluated_at =
     (let candidates = max (rx_market_time c) evaluated_at
      in (case latest_input_available_at c of None \<Rightarrow> candidates | Some t \<Rightarrow> max candidates t) + se_delay ev)"

fun due_rules :: "signal_rule list \<Rightarrow> rat \<Rightarrow> signal_error + signal_rule list" where
  "due_rules [] elapsed = Inr []"
| "due_rules (r # rs) elapsed =
     bind_result (parse_interval (ru_evaluation_interval r)) (\<lambda>d.
       bind_result (due_rules rs elapsed) (\<lambda>due. Inr (if int_truediv d 1000000 \<le> elapsed then r # due else due)))"

text \<open>\<open>sustained[-n:]\<close>, for any integer.\<close>

definition last_slice :: "int \<Rightarrow> 'a list \<Rightarrow> 'a list" where
  "last_slice n xs = (if 0 < n then drop (length xs - nat n) xs else drop (nat (- n)) xs)"

definition target_status ::
  "signal_rule \<Rightarrow> rule_outcome \<Rightarrow> rule_context \<Rightarrow> signal option \<Rightarrow> decimal \<Rightarrow> signal_status \<times> signal_trigger" where
  "target_status r oc c previous strength =
     (if ro_invalidated oc then (SIG_INVALIDATED, INVALIDATION_TRUE)
      else if (case previous of None \<Rightarrow> False | Some p \<Rightarrow> sg_expires_at p \<le> rx_market_time c) then (SIG_EXPIRED, EXPIRY_REACHED)
      else if \<not> ro_entry_conditions_met oc then (SIG_FORMING, ENTRY_PARTIAL)
      else
        let sustained = rx_prior_strengths c @ [strength]
        in if (case previous of None \<Rightarrow> False | Some p \<Rightarrow> signal_actionable (sg_status p))
              \<and> ru_persistence_evaluations r \<le> int (length sustained)
              \<and> list_all (\<lambda>s. 0 < s) (last_slice (ru_persistence_evaluations r) sustained)
           then (SIG_CONFIRMED, PERSISTENCE_MET)
           else if (case previous of None \<Rightarrow> False | Some p \<Rightarrow> sg_status p = SIG_CONFIRMED) then (SIG_CONFIRMED, EVIDENCE_UPDATED)
           else (SIG_ACTIVE, if (case previous of None \<Rightarrow> False | Some p \<Rightarrow> sg_status p = SIG_ACTIVE) then EVIDENCE_UPDATED else ENTRY_FULL))"

type_synonym live_signals = "(stream_key, signal) dict"

text \<open>The latest occurrence of the stream: a terminal one is followed by a new occurrence, a live one is continued.\<close>

definition latest_occurrence :: "live_signals \<Rightarrow> string \<times> int \<times> int \<times> int option \<Rightarrow> int option" where
  "latest_occurrence live base = (case map snd (filter (\<lambda>k. fst k = base) (dict_keys live)) of
      [] \<Rightarrow> None | n # ns \<Rightarrow> Some (foldl max n ns))"

definition occurrence_and_previous :: "live_signals \<Rightarrow> string \<times> int \<times> int \<times> int option \<Rightarrow> int \<times> signal option" where
  "occurrence_and_previous live base = (case latest_occurrence live base of
      None \<Rightarrow> (1, None)
    | Some n \<Rightarrow>
        (case dict_get live (base, n) of
           None \<Rightarrow> (1, None)
         | Some candidate \<Rightarrow> if signal_terminal (sg_status candidate) then (n + 1, None) else (n, Some candidate)))"

definition describe_identity :: "state_identity \<Rightarrow> string" where
  "describe_identity i = ''MarketState(underlying='' @ str_int (id_underlying_id i) @ '', T='' @ iso_instant (id_market_time i)
     @ '', K='' @ iso_instant (id_knowledge_horizon i) @ '', B='' @ id_build_context_id i @ '')''"

definition evidence_order :: "evidence list \<Rightarrow> evidence list" where
  "evidence_order es = sort_key (\<lambda>e. (evidence_label e, ev_statement e)) es"

definition outcome_contradiction :: "rule_outcome \<Rightarrow> contradiction" where
  "outcome_contradiction oc = (case ro_contradiction oc of None_Observed \<Rightarrow> None_Observed | Assessed es \<Rightarrow> Assessed (evidence_order es))"

definition outcome_strength :: "signal_rule \<Rightarrow> rule_outcome \<Rightarrow> decimal" where
  "outcome_strength r oc =
     sf_derive (ru_strength_function r) (evidence_order (ro_supporting oc)) (evidence_order (assessed_evidence (ro_contradiction oc)))"

definition signal_base :: "signal_rule \<Rightarrow> rule_context \<Rightarrow> int option \<Rightarrow> string \<times> int \<times> int \<times> int option" where
  "signal_base r c x = (ru_signal_type r, ru_version r, id_underlying_id (mst_identity (rx_state c)), x)"

definition identity_for :: "evaluator \<Rightarrow> signal_rule \<Rightarrow> rule_context \<Rightarrow> int option \<Rightarrow> int \<Rightarrow> signal_identity" where
  "identity_for ev r c x n = \<lparr>sy_signal_type = ru_signal_type r, sy_rule_version = ru_version r,
     sy_underlying_id = id_underlying_id (mst_identity (rx_state c)), sy_expiry_id = x, sy_market_time = rx_market_time c,
     sy_knowledge_horizon = rx_knowledge_horizon c, sy_build_context_id = id_build_context_id (mst_identity (rx_state c)),
     sy_config_digest = config_digest (se_hashes ev) (rx_config c), sy_occurrence = n\<rparr>"

definition provenance_for :: "evaluator \<Rightarrow> signal_rule \<Rightarrow> rule_context \<Rightarrow> string \<Rightarrow> signal_provenance" where
  "provenance_for ev r c inputs = \<lparr>sg_rule_type = ru_signal_type r, sg_rule_version = ru_version r,
     sg_config_digest = config_digest (se_hashes ev) (rx_config c), sg_feature_versions = sort (ru_requires_features r),
     sg_inputs_digest = inputs, sg_strength_function = sf_name (ru_strength_function r),
     sg_strength_function_version = sf_version (ru_strength_function r),
     sg_build_context_id = id_build_context_id (mst_identity (rx_state c)),
     sg_state_checkpoint_ref = Some (describe_identity (mst_identity (rx_state c)))\<rparr>"

text \<open>The two instances that \<open>_build\<close> constructs before the transition: a created and a refreshed one.\<close>

definition new_signal ::
  "evaluator \<Rightarrow> signal_rule \<Rightarrow> rule_context \<Rightarrow> rule_outcome \<Rightarrow> instant \<Rightarrow> int option \<Rightarrow> int \<Rightarrow> string \<Rightarrow> duration \<Rightarrow> signal" where
  "new_signal ev r c oc evaluated_at x n inputs horizon = \<lparr>sg_identity = identity_for ev r c x n, sg_horizon = horizon,
     sg_status = SIG_FORMING, sg_strength = outcome_strength r oc, sg_evidence = evidence_order (ro_supporting oc),
     sg_contradiction = outcome_contradiction oc, sg_invalidation_condition = ro_invalidation_condition oc,
     sg_provenance = provenance_for ev r c inputs, sg_created_at = evaluated_at, sg_updated_at = evaluated_at,
     sg_available_at = available_at_for ev c evaluated_at, sg_expires_at = rx_market_time c + horizon,
     sg_quality_status = q_status (mst_quality (rx_state c)), sg_history = [history_entry SIG_FORMING ENTRY_PARTIAL evaluated_at]\<rparr>"

definition refreshed_signal ::
  "evaluator \<Rightarrow> signal_rule \<Rightarrow> rule_context \<Rightarrow> rule_outcome \<Rightarrow> instant \<Rightarrow> int option \<Rightarrow> int \<Rightarrow> string \<Rightarrow> signal \<Rightarrow> signal" where
  "refreshed_signal ev r c oc evaluated_at x n inputs p = p\<lparr>sg_identity := identity_for ev r c x n, sg_strength := outcome_strength r oc,
     sg_evidence := evidence_order (ro_supporting oc), sg_contradiction := outcome_contradiction oc,
     sg_invalidation_condition := ro_invalidation_condition oc, sg_provenance := provenance_for ev r c inputs,
     sg_available_at := available_at_for ev c evaluated_at, sg_quality_status := q_status (mst_quality (rx_state c))\<rparr>"

definition build_signal ::
  "evaluator \<Rightarrow> signal_rule \<Rightarrow> rule_context \<Rightarrow> rule_outcome \<Rightarrow> instant \<Rightarrow> int option \<Rightarrow> live_signals \<Rightarrow> signal_error + signal" where
  "build_signal ev r c oc evaluated_at x live =
     (let strength = outcome_strength r oc; (n, previous) = occurrence_and_previous live (signal_base r c x);
          (target, trigger) = target_status r oc c previous strength
      in bind_result (rule_inputs_digest (se_hashes ev) c) (\<lambda>inputs. case previous of
           None \<Rightarrow>
             bind_result (parse_interval (ru_horizon r)) (\<lambda>horizon.
             bind_result (construct_signal (new_signal ev r c oc evaluated_at x n inputs horizon)) (\<lambda>created.
             if target = SIG_FORMING then Inr created
             else apply_signal_transition created target trigger evaluated_at (Some strength)))
         | Some p \<Rightarrow>
             bind_result (construct_signal (refreshed_signal ev r c oc evaluated_at x n inputs p)) (\<lambda>refreshed.
             if \<not> is_permitted (Some (sg_status refreshed)) target then Inr refreshed
             else apply_signal_transition refreshed target trigger evaluated_at (Some strength))))"

text \<open>One rule of an evaluation: a signal, or the reason why there is none.\<close>

datatype rule_verdict = Skipped_Rule skip_reason | Fired_Rule signal bool

record evaluation =
  en_state :: market_state
  en_available :: "(string \<times> metric_value) list"
  en_evaluated_at :: instant
  en_horizon :: instant
  en_config :: "rule_config option"
  en_expiry_id :: "int option"
  en_priors :: "(string \<times> int, decimal list) dict"
  en_live :: live_signals

definition is_pinned :: "signal_rule \<Rightarrow> string \<Rightarrow> bool" where
  "is_pinned r name \<longleftrightarrow> list_ex (\<lambda>(i, v). name = versioned i v) (ru_requires_features r)"

definition missing_features :: "signal_rule \<Rightarrow> (string \<times> metric_value) list \<Rightarrow> string list" where
  "missing_features r available =
     filter (\<lambda>n. \<not> list_ex (\<lambda>m. fst m = n) available) (map (\<lambda>(i, v). versioned i v) (ru_requires_features r))"

definition context_for :: "evaluation \<Rightarrow> signal_rule \<Rightarrow> rule_context" where
  "context_for en r = \<lparr>rx_state = en_state en, rx_knowledge_override = Some (en_horizon en),
     rx_metrics = filter (\<lambda>m. is_pinned r (fst m)) (en_available en),
     rx_config = (case en_config en of Some c \<Rightarrow> c | None \<Rightarrow> rule_config_of (foldl (\<lambda>d (k, v). dict_set k v d) [] (ru_default_config r))),
     rx_prior_strengths = (case dict_get (en_priors en) (rule_key r) of None \<Rightarrow> [] | Some ss \<Rightarrow> ss)\<rparr>"

definition evaluate_rule :: "evaluator \<Rightarrow> evaluation \<Rightarrow> signal_rule \<Rightarrow> signal_error + rule_verdict" where
  "evaluate_rule ev en r =
     (if refuses_quality r (q_status (mst_quality (en_state en))) then Inr (Skipped_Rule SKIP_QUALITY_NOT_MET)
      else if missing_features r (en_available en) \<noteq> [] then Inr (Skipped_Rule SKIP_FEATURE_UNAVAILABLE)
      else case ru_evaluate r (context_for en r) of
             None \<Rightarrow> Inr (Skipped_Rule SKIP_RULE_ERROR)
           | Some oc \<Rightarrow>
               if \<not> ro_fired oc then Inr (Skipped_Rule SKIP_CONDITIONS_NOT_MET)
               else bind_result (build_signal ev r (context_for en r) oc (en_evaluated_at en) (en_expiry_id en) (en_live en))
                      (\<lambda>s. Inr (Fired_Rule s (ro_contradiction oc = None_Observed))))"

fun evaluate_rules :: "evaluator \<Rightarrow> evaluation \<Rightarrow> signal_rule list \<Rightarrow> signal_error + evaluation_report" where
  "evaluate_rules ev en [] = Inr \<lparr>er_signals = [], er_skipped = [], er_none_observed = []\<rparr>"
| "evaluate_rules ev en (r # rs) =
     bind_result (evaluate_rule ev en r) (\<lambda>v.
     bind_result (evaluate_rules ev en rs) (\<lambda>rep. Inr (case v of
         Skipped_Rule reason \<Rightarrow> rep\<lparr>er_skipped := (r, reason) # er_skipped rep\<rparr>
       | Fired_Rule s none \<Rightarrow> rep\<lparr>er_signals := s # er_signals rep,
           er_none_observed := (if none then [rule_label r] else []) @ er_none_observed rep\<rparr>)))"

definition evaluate_signals ::
  "evaluator \<Rightarrow> market_state \<Rightarrow> metric_value list \<Rightarrow> instant \<Rightarrow> instant option \<Rightarrow> signal_rule list option \<Rightarrow> rule_config option
   \<Rightarrow> int option \<Rightarrow> (string \<times> int, decimal list) dict \<Rightarrow> live_signals \<Rightarrow> signal_error + evaluation_report" where
  "evaluate_signals ev m values evaluated_at horizon specs config expiry_id priors live =
     (let chosen = (case specs of Some rs \<Rightarrow> rs | None \<Rightarrow> all_rules (se_registry ev));
          k = (case horizon of Some k \<Rightarrow> k | None \<Rightarrow> evaluated_at)
      in if k < id_market_time (mst_identity m) then Inl Knowledge_Before_Market
         else bind_result (evaluate_rules ev \<lparr>en_state = m, en_available = available_only values k, en_evaluated_at = evaluated_at,
                  en_horizon = k, en_config = config, en_expiry_id = expiry_id, en_priors = priors, en_live = live\<rparr> chosen)
                (\<lambda>rep. Inr (rep\<lparr>er_none_observed := sort (er_none_observed rep)\<rparr>)))"

end
