(* ===== verification/Signal_Guarantees.thy ===== *)
theory Signal_Guarantees
  imports Signals State_Guarantees Fills
begin

text \<open>
  What the evaluator promises: signals follow the normative table and their history tells how; they consume only
  what was available and are available no earlier than their inputs; their strength is a ratio that no
  contradicting evidence raises; every rule yields a signal or a reason. The last section has what the table and
  the documentation allow and the evaluator never does, or does by failing.
\<close>

interpretation signal_machine: state_machine permitted_signal signal_terminal
proof
  fix s show "signal_terminal s \<longleftrightarrow> permitted_signal s = []" by (cases s) (simp_all add: signal_terminal_def)
qed

section \<open>Histories\<close>

text \<open>
  A history tells a path: its entries name the states of a legal path that starts with forming and ends in
  the status of the signal.
\<close>

definition history_tells :: "(string \<times> instant) list \<Rightarrow> signal_status \<Rightarrow> bool" where
  "history_tells h st \<longleftrightarrow> (\<exists>path triggers times. length triggers = Suc (length path) \<and> length times = Suc (length path)
     \<and> legal_path permitted_signal SIG_FORMING path \<and> path_end SIG_FORMING path = st
     \<and> h = map (\<lambda>(s, t, m). history_entry s t m) (zip (SIG_FORMING # path) (zip triggers times)))"

definition signal_ok :: "signal \<Rightarrow> bool" where
  "signal_ok s \<longleftrightarrow> check_signal s = None \<and> history_tells (sg_history s) (sg_status s)"

lemma history_tells_start: "history_tells [history_entry SIG_FORMING tr m] SIG_FORMING"
  unfolding history_tells_def by (intro exI [of _ "[]"] exI [of _ "[tr]"] exI [of _ "[m]"]) simp

lemma history_tells_step:
  assumes "history_tells h st" "st' \<in> set (permitted_signal st)"
  shows "history_tells (h @ [history_entry st' tr m]) st'"
proof -
  from assms(1) obtain path triggers times where p: "length triggers = Suc (length path)" "length times = Suc (length path)"
     "legal_path permitted_signal SIG_FORMING path" "path_end SIG_FORMING path = st"
     "h = map (\<lambda>(s, t, m). history_entry s t m) (zip (SIG_FORMING # path) (zip triggers times))"
    unfolding history_tells_def by blast
  have "h @ [history_entry st' tr m]
      = map (\<lambda>(s, t, m). history_entry s t m) (zip (SIG_FORMING # (path @ [st'])) (zip (triggers @ [tr]) (times @ [m])))"
    using p(1,2) by (simp add: p(5) zip_append flip: append_Cons)
  then show ?thesis unfolding history_tells_def
    using p(1-4) assms(2) by (intro exI [of _ "path @ [st']"] exI [of _ "triggers @ [tr]"] exI [of _ "times @ [m]"]) (simp add: legal_path_append)
qed

section \<open>Building one signal\<close>

lemma apply_signal_transition_Inr:
  assumes "apply_signal_transition s target trigger m strength = Inr s'"
  shows "target \<in> set (permitted_signal (sg_status s)) \<and> check_signal s' = None
    \<and> s' = s\<lparr>sg_status := target, sg_strength := (case strength of None \<Rightarrow> sg_strength s | Some x \<Rightarrow> x),
             sg_updated_at := m, sg_history := sg_history s @ [history_entry target trigger m]\<rparr>"
  using assms by (auto simp: apply_signal_transition_def construct_signal_def is_permitted_def split: if_splits option.splits)

lemma target_never_faded: "fst (target_status r oc c previous strength) \<noteq> SIG_FADED"
  by (simp add: target_status_def Let_def)

text \<open>How a signal continues the one before it in its stream, if any.\<close>

definition continues_signal :: "signal option \<Rightarrow> instant \<Rightarrow> signal \<Rightarrow> bool" where
  "continues_signal previous t s \<longleftrightarrow> (case previous of
      None \<Rightarrow> sg_created_at s = t \<and> (\<exists>tr. sg_status s = SIG_FORMING \<and> sg_history s = [history_entry SIG_FORMING ENTRY_PARTIAL t]
        \<or> sg_status s \<in> set (permitted_signal SIG_FORMING)
          \<and> sg_history s = [history_entry SIG_FORMING ENTRY_PARTIAL t, history_entry (sg_status s) tr t])
    | Some p \<Rightarrow> sg_created_at s = sg_created_at p \<and> sg_expires_at s = sg_expires_at p
        \<and> (\<exists>tr. sg_status s = sg_status p \<and> sg_history s = sg_history p
           \<or> sg_status s \<in> set (permitted_signal (sg_status p)) \<and> sg_history s = sg_history p @ [history_entry (sg_status s) tr t]))"

lemma construct_signal_Inr: "construct_signal s = Inr s' \<longleftrightarrow> s' = s \<and> check_signal s = None"
  by (auto simp: construct_signal_def split: option.splits)

lemma new_signal_simps [simp]:
  "sg_status (new_signal ev r c oc t x n i h) = SIG_FORMING" "sg_created_at (new_signal ev r c oc t x n i h) = t"
  "sg_history (new_signal ev r c oc t x n i h) = [history_entry SIG_FORMING ENTRY_PARTIAL t]"
  "sg_available_at (new_signal ev r c oc t x n i h) = available_at_for ev c t" "sg_strength (new_signal ev r c oc t x n i h) = outcome_strength r oc"
  "sg_identity (new_signal ev r c oc t x n i h) = identity_for ev r c x n"
  by (simp_all add: new_signal_def)

lemma refreshed_signal_simps [simp]:
  "sg_status (refreshed_signal ev r c oc t x n i p) = sg_status p" "sg_created_at (refreshed_signal ev r c oc t x n i p) = sg_created_at p"
  "sg_history (refreshed_signal ev r c oc t x n i p) = sg_history p" "sg_expires_at (refreshed_signal ev r c oc t x n i p) = sg_expires_at p"
  "sg_available_at (refreshed_signal ev r c oc t x n i p) = available_at_for ev c t" "sg_strength (refreshed_signal ev r c oc t x n i p) = outcome_strength r oc"
  "sg_identity (refreshed_signal ev r c oc t x n i p) = identity_for ev r c x n"
  by (simp_all add: refreshed_signal_def)

lemma stream_key_identity [simp]: "stream_key (identity_for ev r c x n) = (signal_base r c x, n)"
  by (simp add: stream_key_def identity_for_def signal_base_def)

lemma build_signal_Inr:
  assumes "build_signal ev r c oc t x live = Inr s" "occurrence_and_previous live (signal_base r c x) = (n, previous)"
  shows "sg_identity s = identity_for ev r c x n \<and> check_signal s = None \<and> continues_signal previous t s
    \<and> sg_available_at s = available_at_for ev c t \<and> \<not> unorderable (rx_metrics c) \<and> sg_strength s = outcome_strength r oc
    \<and> ((\<forall>p. previous = Some p \<longrightarrow> sg_status p \<noteq> SIG_FADED) \<longrightarrow> sg_status s \<noteq> SIG_FADED)"
proof -
  obtain target trigger where tg: "target_status r oc c previous (outcome_strength r oc) = (target, trigger)" by fastforce
  have faded: "target \<noteq> SIG_FADED" using target_never_faded [of r oc c previous "outcome_strength r oc"] tg by simp
  obtain inputs where inputs: "rule_inputs_digest (se_hashes ev) c = Inr inputs"
    using assms(1) by (auto simp: build_signal_def Let_def assms(2) tg bind_result_Inr_iff)
  have ord: "\<not> unorderable (rx_metrics c)" using inputs by (auto simp: rule_inputs_digest_def split: if_splits)
  show ?thesis
  proof (cases previous)
    case None
    obtain horizon where ok: "check_signal (new_signal ev r c oc t x n inputs horizon) = None"
      and s: "(if target = SIG_FORMING then Inr (new_signal ev r c oc t x n inputs horizon)
          else apply_signal_transition (new_signal ev r c oc t x n inputs horizon) target trigger t (Some (outcome_strength r oc))) = Inr s"
      using assms(1) inputs None
      by (auto simp: build_signal_def Let_def assms(2) tg [unfolded None] bind_result_Inr_iff construct_signal_Inr)
    show ?thesis
    proof (cases "target = SIG_FORMING")
      case True
      then have "s = new_signal ev r c oc t x n inputs horizon" using s by simp
      then show ?thesis using ok ord None by (simp add: continues_signal_def)
    next
      case False
      then have "apply_signal_transition (new_signal ev r c oc t x n inputs horizon) target trigger t (Some (outcome_strength r oc)) = Inr s"
        using s by simp
      from apply_signal_transition_Inr [OF this] ord None faded show ?thesis by (auto simp: continues_signal_def)
    qed
  next
    case (Some p)
    have ok: "check_signal (refreshed_signal ev r c oc t x n inputs p) = None"
      and s: "(if \<not> is_permitted (Some (sg_status p)) target then Inr (refreshed_signal ev r c oc t x n inputs p)
          else apply_signal_transition (refreshed_signal ev r c oc t x n inputs p) target trigger t (Some (outcome_strength r oc))) = Inr s"
      using assms(1) inputs Some
      by (auto simp: build_signal_def Let_def assms(2) tg [unfolded Some] bind_result_Inr_iff construct_signal_Inr)
    show ?thesis
    proof (cases "is_permitted (Some (sg_status p)) target")
      case False
      then have "s = refreshed_signal ev r c oc t x n inputs p" using s by simp
      then show ?thesis using ok ord Some by (simp add: continues_signal_def)
    next
      case True
      then have "apply_signal_transition (refreshed_signal ev r c oc t x n inputs p) target trigger t (Some (outcome_strength r oc)) = Inr s"
        using s by simp
      from apply_signal_transition_Inr [OF this] ord Some faded show ?thesis by (auto simp: continues_signal_def)
    qed
  qed
qed

section \<open>Evaluating rules\<close>

definition fired_of :: "rule_verdict list \<Rightarrow> signal list" where
  "fired_of vs = List.map_filter (\<lambda>v. case v of Skipped_Rule _ \<Rightarrow> None | Fired_Rule s _ \<Rightarrow> Some s) vs"

lemma list_all2_partner: "list_all2 P xs ys \<Longrightarrow> y \<in> set ys \<Longrightarrow> \<exists>x\<in>set xs. P x y"
  by (induction rule: list_all2_induct) auto

text \<open>The verdicts on the rules, in their order, and the report that collects them.\<close>

definition report_of :: "evaluator \<Rightarrow> evaluation \<Rightarrow> signal_rule list \<Rightarrow> rule_verdict list \<Rightarrow> evaluation_report \<Rightarrow> bool" where
  "report_of ev en rs vs rep \<longleftrightarrow> list_all2 (\<lambda>r v. evaluate_rule ev en r = Inr v) rs vs \<and> er_signals rep = fired_of vs
     \<and> er_skipped rep = List.map_filter (\<lambda>(r, v). case v of Skipped_Rule why \<Rightarrow> Some (r, why) | Fired_Rule _ _ \<Rightarrow> None) (zip rs vs)"

lemma evaluate_rules_Inr: "evaluate_rules ev en rs = Inr rep \<Longrightarrow> \<exists>vs. report_of ev en rs vs rep"
proof (induction rs arbitrary: rep)
  case Nil
  then show ?case by (auto simp: report_of_def fired_of_def map_filter_def)
next
  case (Cons r rs)
  then obtain v rep' where v: "evaluate_rule ev en r = Inr v" "evaluate_rules ev en rs = Inr rep'"
    and rep: "rep = (case v of Skipped_Rule reason \<Rightarrow> rep'\<lparr>er_skipped := (r, reason) # er_skipped rep'\<rparr>
     | Fired_Rule s none \<Rightarrow> rep'\<lparr>er_signals := s # er_signals rep', er_none_observed := (if none then [rule_label r] else []) @ er_none_observed rep'\<rparr>)"
    by (auto simp: bind_result_Inr_iff)
  from Cons.IH [OF v(2)] obtain vs where "report_of ev en rs vs rep'" ..
  then show ?case
    using v(1) rep by (intro exI [of _ "v # vs"]) (auto simp: report_of_def fired_of_def map_filter_def split: rule_verdict.splits)
qed

lemma report_verdicts: "report_of ev en rs vs rep \<Longrightarrow> list_all2 (\<lambda>r v. evaluate_rule ev en r = Inr v) rs vs"
  unfolding report_of_def by (elim conjE)

lemma report_signals: "report_of ev en rs vs rep \<Longrightarrow> er_signals rep = fired_of vs"
  unfolding report_of_def by (elim conjE)

lemma report_skips:
  "report_of ev en rs vs rep \<Longrightarrow>
     er_skipped rep = List.map_filter (\<lambda>(r, v). case v of Skipped_Rule why \<Rightarrow> Some (r, why) | Fired_Rule _ _ \<Rightarrow> None) (zip rs vs)"
  unfolding report_of_def by (elim conjE)

lemma report_of_update: "report_of ev en rs vs rep \<Longrightarrow> report_of ev en rs vs (rep\<lparr>er_none_observed := ns\<rparr>)"
proof -
  have "er_signals (rep\<lparr>er_none_observed := ns\<rparr>) = er_signals rep" "er_skipped (rep\<lparr>er_none_observed := ns\<rparr>) = er_skipped rep"
    by simp_all
  then show "report_of ev en rs vs rep \<Longrightarrow> report_of ev en rs vs (rep\<lparr>er_none_observed := ns\<rparr>)"
    unfolding report_of_def by (simp only:)
qed

text \<open>A signal comes from a rule that fired on all its features.\<close>

definition signal_from :: "evaluator \<Rightarrow> evaluation \<Rightarrow> signal_rule \<Rightarrow> rule_outcome \<Rightarrow> signal \<Rightarrow> bool" where
  "signal_from ev en r oc s \<longleftrightarrow> ru_evaluate r (context_for en r) = Some oc \<and> ro_fired oc \<and> missing_features r (en_available en) = []
     \<and> build_signal ev r (context_for en r) oc (en_evaluated_at en) (en_expiry_id en) (en_live en) = Inr s"

lemma evaluate_rule_Fired: "evaluate_rule ev en r = Inr (Fired_Rule s b) \<Longrightarrow> \<exists>oc. signal_from ev en r oc s"
  by (auto simp: signal_from_def evaluate_rule_def bind_result_Inr_iff split: if_splits option.splits)

definition evaluation_of ::
  "market_state \<Rightarrow> metric_value list \<Rightarrow> instant \<Rightarrow> instant option \<Rightarrow> rule_config option \<Rightarrow> int option
   \<Rightarrow> (string \<times> int, decimal list) dict \<Rightarrow> live_signals \<Rightarrow> evaluation" where
  "evaluation_of m values t horizon config x priors live = (let k = (case horizon of Some k \<Rightarrow> k | None \<Rightarrow> t) in
     \<lparr>en_state = m, en_available = available_only values k, en_evaluated_at = t, en_horizon = k, en_config = config,
      en_expiry_id = x, en_priors = priors, en_live = live\<rparr>)"

lemma evaluation_of_fields:
  "en_evaluated_at (evaluation_of m values t horizon config x priors live) = t"
  "en_expiry_id (evaluation_of m values t horizon config x priors live) = x"
  "en_live (evaluation_of m values t horizon config x priors live) = live"
  by (simp_all add: evaluation_of_def Let_def)

abbreviation chosen_rules :: "evaluator \<Rightarrow> signal_rule list option \<Rightarrow> signal_rule list" where
  "chosen_rules ev specs \<equiv> (case specs of Some rs \<Rightarrow> rs | None \<Rightarrow> all_rules (se_registry ev))"

lemma evaluate_signals_alt:
  "evaluate_signals ev m values t horizon specs config x priors live =
     (if (case horizon of Some k \<Rightarrow> k | None \<Rightarrow> t) < id_market_time (mst_identity m) then Inl Knowledge_Before_Market
      else bind_result (evaluate_rules ev (evaluation_of m values t horizon config x priors live) (chosen_rules ev specs))
             (\<lambda>rep. Inr (rep\<lparr>er_none_observed := sort (er_none_observed rep)\<rparr>)))"
  unfolding evaluate_signals_def evaluation_of_def Let_def by (rule refl)

lemma evaluate_signals_rules:
  assumes "evaluate_signals ev m values t horizon specs config x priors live = Inr rep"
  shows "\<exists>vs. report_of ev (evaluation_of m values t horizon config x priors live) (chosen_rules ev specs) vs rep"
proof (cases "evaluate_rules ev (evaluation_of m values t horizon config x priors live) (chosen_rules ev specs)")
  case (Inl e)
  have False using assms unfolding evaluate_signals_alt Inl by (simp split: if_splits)
  then show ?thesis ..
next
  case (Inr rep')
  have rep: "rep = rep'\<lparr>er_none_observed := sort (er_none_observed rep')\<rparr>"
    using assms unfolding evaluate_signals_alt Inr by (simp split: if_splits)
  from evaluate_rules_Inr [OF Inr] obtain vs where "report_of ev (evaluation_of m values t horizon config x priors live) (chosen_rules ev specs) vs rep'" ..
  then show ?thesis unfolding rep by (blast intro: report_of_update)
qed

lemma evaluate_signals_Inr:
  assumes "evaluate_signals ev m values t horizon specs config x priors live = Inr rep" "s \<in> set (er_signals rep)"
  shows "\<exists>r oc. r \<in> set (chosen_rules ev specs) \<and> signal_from ev (evaluation_of m values t horizon config x priors live) r oc s"
proof -
  let ?en = "evaluation_of m values t horizon config x priors live"
  from evaluate_signals_rules [OF assms(1)] obtain vs where vs: "report_of ev ?en (chosen_rules ev specs) vs rep" ..
  have "s \<in> set (fired_of vs)" using assms(2) unfolding report_signals [OF vs] .
  then obtain b where "Fired_Rule s b \<in> set vs"
    by (auto simp: fired_of_def map_filter_def split: rule_verdict.splits)
  then obtain r where r: "r \<in> set (chosen_rules ev specs)" "evaluate_rule ev ?en r = Inr (Fired_Rule s b)"
    using list_all2_partner [OF report_verdicts [OF vs]] by blast
  from evaluate_rule_Fired [OF r(2)] r(1) show ?thesis by blast
qed

lemma latest_occurrence_Some:
  assumes "latest_occurrence live base = Some n"
  shows "(base, n) \<in> set (dict_keys live) \<and> (\<forall>j. (base, j) \<in> set (dict_keys live) \<longrightarrow> j \<le> n)"
proof -
  let ?ns = "map snd (filter (\<lambda>k. fst k = base) (dict_keys live))"
  obtain j js where ns: "?ns = j # js" "n = foldl max j js"
    using assms by (auto simp: latest_occurrence_def split: list.splits)
  have n: "n = Max (set (j # js))" unfolding ns(2) Max.set_eq_fold foldl_conv_fold
    by (rule fold_cong) (simp_all add: max.commute fun_eq_iff)
  have set_ns: "set (j # js) = {n. (base, n) \<in> set (dict_keys live)}" unfolding ns(1) [symmetric] by force
  have "n \<in> set (j # js)" unfolding n by (rule Max_in) simp_all
  moreover have "i \<le> n" if "i \<in> set (j # js)" for i unfolding n by (rule Max_ge) (use that in simp_all)
  ultimately show ?thesis unfolding set_ns by blast
qed

lemma latest_occurrence_None: "latest_occurrence live base = None \<Longrightarrow> (base, n) \<notin> set (dict_keys live)"
  by (auto simp: latest_occurrence_def filter_empty_conv split: list.splits)

lemma dict_get_key: "dict_get d k = Some v \<Longrightarrow> k \<in> set (dict_keys d)"
  by (force simp: dict_get_def dict_keys_def dest: map_of_SomeD)

lemma occurrence_previous_live:
  assumes "occurrence_and_previous live base = (n, Some p)"
  shows "dict_get live (base, n) = Some p \<and> \<not> signal_terminal (sg_status p)"
  using assms by (auto simp: occurrence_and_previous_def split: option.splits if_splits)

lemma new_occurrence_is_fresh:
  assumes "occurrence_and_previous live base = (n, None)"
  shows "(base, n) \<notin> set (dict_keys live)"
proof (cases "latest_occurrence live base")
  case None
  then show ?thesis by (rule latest_occurrence_None)
next
  case (Some k)
  note k = latest_occurrence_Some [OF Some]
  then obtain c where "dict_get live (base, k) = Some c"
    by (cases "dict_get live (base, k)") (auto simp: dict_get_def dict_keys_def map_of_eq_None_iff)
  then have "n = k + 1" using assms Some by (simp add: occurrence_and_previous_def split: if_splits)
  then show ?thesis using k by force
qed

text \<open>
  Claim C7: Every signal of an evaluation is one its constructor accepts, with a history that tells a legal path of the
  normative table from forming to its status, provided this held of the live signals it may continue. It continues
  the signal that its stream already has, by one permitted transition at most and with the dates of creation and
  expiry kept, or opens an occurrence that the stream does not have yet; a terminal signal is never
  continued or replaced.
\<close>

theorem signals_follow_the_table:
  assumes "evaluate_signals ev m values t horizon specs config x priors live = Inr rep" "s \<in> set (er_signals rep)"
    and "\<And>p. p \<in> snd ` set live \<Longrightarrow> signal_ok p"
  shows "signal_ok s \<and> continues_signal (dict_get live (stream_key (sg_identity s))) t s
    \<and> (\<forall>p. dict_get live (stream_key (sg_identity s)) = Some p \<longrightarrow> \<not> signal_terminal (sg_status p))"
proof -
  let ?en = "evaluation_of m values t horizon config x priors live"
  obtain r oc where "signal_from ev ?en r oc s"
    using evaluate_signals_Inr [OF assms(1,2)] by blast
  then have b: "build_signal ev r (context_for ?en r) oc t x live = Inr s" by (simp add: signal_from_def evaluation_of_fields)
  define base where "base = signal_base r (context_for ?en r) x"
  obtain n previous where np: "occurrence_and_previous live base = (n, previous)" by fastforce
  note facts = build_signal_Inr [OF b np [unfolded base_def]]
  have key: "stream_key (sg_identity s) = (base, n)" using facts unfolding base_def by simp
  have live: "dict_get live (base, n) = previous"
  proof (cases previous)
    case None
    then show ?thesis using new_occurrence_is_fresh np dict_get_key by (metis option.exhaust)
  qed (use np occurrence_previous_live in blast)
  have "history_tells (sg_history s) (sg_status s)"
  proof (cases previous)
    case None
    then show ?thesis
      using facts history_tells_step [OF history_tells_start] history_tells_start by (auto simp: continues_signal_def)
  next
    case (Some p)
    then have "signal_ok p" using assms(3) live by (force simp: dict_get_def dest: map_of_SomeD)
    then show ?thesis using Some facts history_tells_step by (auto simp: continues_signal_def signal_ok_def)
  qed
  moreover have "check_signal s = None" "continues_signal previous t s" using facts by simp_all
  moreover have "\<not> signal_terminal (sg_status p)" if "previous = Some p" for p using np that occurrence_previous_live by blast
  ultimately show ?thesis unfolding signal_ok_def key live by blast
qed

definition sample_rule :: "string \<Rightarrow> (rule_context \<Rightarrow> rule_outcome option) \<Rightarrow> signal_rule" where
  "sample_rule n f = \<lparr>ru_signal_type = n, ru_version = 1, ru_horizon = ''5m'', ru_evaluation_interval = ''30s'',
     ru_requires_features = [(''pcr'', 2)], ru_quality_requirements = [''quality != UNRELIABLE''], ru_evaluate = f,
     ru_strength_function = normalized_strength, ru_persistence_evaluations = 2, ru_default_config = [(''min'', ''1'')]\<rparr>"

definition sample_firing :: "rule_context \<Rightarrow> rule_outcome option" where
  "sample_firing c = Some \<lparr>ro_fired = True, ro_entry_conditions_met = True,
     ro_supporting = (case rx_metric c ''pcr'' 2 of None \<Rightarrow> []
       | Some v \<Rightarrow> (case evidence_from v ''high'' (dec_int 1) SUPPORTING of None \<Rightarrow> [] | Some e \<Rightarrow> [e])),
     ro_contradiction = None_Observed, ro_invalidation_condition = ''below 1'', ro_invalidated = False\<rparr>"

definition sample_signal_hashes :: signal_hashes where
  "sample_signal_hashes = \<lparr>sh_signal = (\<lambda>_. ''s''), sh_context = (\<lambda>_. ''b''), sh_state = (\<lambda>_. ''m''), sh_config = (\<lambda>_. ''c''), sh_inputs = (\<lambda>_. ''i'')\<rparr>"

definition sample_evaluator :: evaluator where
  "sample_evaluator = \<lparr>se_registry = [], se_delay = default_signal_delay, se_hashes = sample_signal_hashes\<rparr>"

definition sample_evaluation :: "signal_rule list \<Rightarrow> metric_value list \<Rightarrow> live_signals \<Rightarrow> signal_error + evaluation_report" where
  "sample_evaluation rs vs live = evaluate_signals sample_evaluator (market_of []) vs 200 None (Some rs) None None [] live"

text \<open>One evaluation that fires, reports a broken rule and a missing feature.\<close>

definition sample_rules :: "signal_rule list" where
  "sample_rules = [sample_rule ''A'' sample_firing, sample_rule ''B'' (\<lambda>_. None), (sample_rule ''C'' sample_firing)\<lparr>ru_requires_features := [(''pcr'', 3)]\<rparr>]"

definition sample_values :: "metric_value list" where
  "sample_values = [sample_metric ''pcr'' 2 90 195, sample_metric ''pcr'' 3 90 201]"

lemma sample_evaluation_fires:
  "(case sample_evaluation sample_rules sample_values [] of
      Inr rep \<Rightarrow> map (\<lambda>s. (sg_status s, sg_available_at s, sg_updated_at s)) (er_signals rep) = [(SIG_ACTIVE, 2000200, 200)]
         \<and> map snd (er_skipped rep) = [SKIP_RULE_ERROR, SKIP_FEATURE_UNAVAILABLE] | Inl _ \<Rightarrow> False)"
  by code_simp

lemma sample_evaluation_result:
  obtains rep s where "evaluate_signals sample_evaluator (market_of []) sample_values 200 None (Some sample_rules) None None [] [] = Inr rep"
    "s \<in> set (er_signals rep)" "sg_status s = SIG_ACTIVE" "sg_available_at s = 2000200"
    "map snd (er_skipped rep) = [SKIP_RULE_ERROR, SKIP_FEATURE_UNAVAILABLE]"
proof -
  obtain rep where rep: "sample_evaluation sample_rules sample_values [] = Inr rep"
    using sample_evaluation_fires by (cases "sample_evaluation sample_rules sample_values []") simp_all
  have r: "map (\<lambda>s. (sg_status s, sg_available_at s, sg_updated_at s)) (er_signals rep) = [(SIG_ACTIVE, 2000200, 200)]"
    "map snd (er_skipped rep) = [SKIP_RULE_ERROR, SKIP_FEATURE_UNAVAILABLE]"
    using sample_evaluation_fires unfolding rep by simp_all
  then obtain s where "er_signals rep = [s]" "sg_status s = SIG_ACTIVE" "sg_available_at s = 2000200" by auto
  with that [of rep s] rep r(2) show thesis unfolding sample_evaluation_def by simp
qed

theorem signals_follow_the_table_witness:
  "\<exists>rep s. evaluate_signals sample_evaluator (market_of []) sample_values 200 None (Some sample_rules) None None [] [] = Inr rep
     \<and> s \<in> set (er_signals rep) \<and> sg_status s = SIG_ACTIVE \<and> history_tells (sg_history s) SIG_ACTIVE"
proof -
  obtain rep s where e: "evaluate_signals sample_evaluator (market_of []) sample_values 200 None (Some sample_rules) None None [] [] = Inr rep"
    "s \<in> set (er_signals rep)" "sg_status s = SIG_ACTIVE" "sg_available_at s = 2000200"
    "map snd (er_skipped rep) = [SKIP_RULE_ERROR, SKIP_FEATURE_UNAVAILABLE]"
    by (rule sample_evaluation_result)
  have "signal_ok s" using signals_follow_the_table [OF e(1,2)] by simp
  then show ?thesis using e unfolding signal_ok_def by metis
qed

section \<open>No look-ahead\<close>

lemma latest_input_bounds:
  "latest_input_available_at c = Some b \<longleftrightarrow> rx_metrics c \<noteq> [] \<and> b = Max (mv_available_at ` snd ` set (rx_metrics c))"
proof (cases "map (mv_available_at \<circ> snd) (rx_metrics c)")
  case (Cons t ts)
  have "foldl max t ts = Max (set (t # ts))" unfolding Max.set_eq_fold foldl_conv_fold
    by (rule fold_cong) (simp_all add: max.commute fun_eq_iff)
  moreover have "set (t # ts) = mv_available_at ` snd ` set (rx_metrics c)"
    unfolding Cons [symmetric] by (simp add: image_comp)
  ultimately show ?thesis using Cons by (auto simp: latest_input_available_at_def)
qed (simp add: latest_input_available_at_def)

lemma available_at_for_ge:
  "rx_market_time c + se_delay ev \<le> available_at_for ev c t" "t + se_delay ev \<le> available_at_for ev c t"
  "(n, v) \<in> set (rx_metrics c) \<Longrightarrow> mv_available_at v + se_delay ev \<le> available_at_for ev c t"
proof -
  show "rx_market_time c + se_delay ev \<le> available_at_for ev c t" "t + se_delay ev \<le> available_at_for ev c t"
    by (auto simp: available_at_for_def Let_def split: option.split)
  assume v: "(n, v) \<in> set (rx_metrics c)"
  then have "mv_available_at v \<le> Max (mv_available_at ` snd ` set (rx_metrics c))" by (intro Max_ge) force+
  moreover have "latest_input_available_at c = Some (Max (mv_available_at ` snd ` set (rx_metrics c)))"
    using v latest_input_bounds by fastforce
  ultimately show "mv_available_at v + se_delay ev \<le> available_at_for ev c t"
    by (simp add: available_at_for_def Let_def)
qed

lemma available_at_for_le:
  assumes "rx_market_time c \<le> k" "t \<le> k" "\<forall>(n, v) \<in> set (rx_metrics c). mv_available_at v \<le> k"
  shows "available_at_for ev c t \<le> k + se_delay ev"
proof (cases "latest_input_available_at c")
  case (Some b)
  then have "b \<le> k" using assms(3) latest_input_bounds [of c b] by (auto split: prod.splits)
  then show ?thesis using assms(1,2) Some by (simp add: available_at_for_def Let_def)
qed (use assms(1,2) in \<open>simp add: available_at_for_def Let_def\<close>)

lemma available_only_members:
  "(n, v) \<in> set (available_only vs k) \<longleftrightarrow> v \<in> set vs \<and> mv_available_at v \<le> k \<and> n = versioned (mv_feature_id v) (mv_feature_version v)"
  by (auto simp: available_only_def)

text \<open>The name under which a value is pinned.\<close>

definition metric_name :: "metric_value \<Rightarrow> string" where
  "metric_name v = versioned (mv_feature_id v) (mv_feature_version v)"

text \<open>
  Claim C38: A signal is available no earlier than what it rests on. It comes from a rule all of whose pinned
  features were available at the knowledge horizon of the evaluation, carries that horizon, and becomes available
  the delay after the latest of the market time, the evaluation and every value of a pinned feature that was
  available, and at most the delay after the horizon where the evaluation is not later than that.
\<close>

theorem signals_wait_for_their_inputs:
  assumes "evaluate_signals ev m values t horizon specs config x priors live = Inr rep" "s \<in> set (er_signals rep)"
    and "k = (case horizon of Some k \<Rightarrow> k | None \<Rightarrow> t)"
  shows "\<exists>r \<in> set (chosen_rules ev specs). sy_signal_type (sg_identity s) = ru_signal_type r
      \<and> sy_rule_version (sg_identity s) = ru_version r \<and> sy_knowledge_horizon (sg_identity s) = k
      \<and> (\<forall>(i, n) \<in> set (ru_requires_features r). \<exists>v \<in> set values. mv_available_at v \<le> k \<and> metric_name v = versioned i n)
      \<and> (\<forall>v \<in> set values. mv_available_at v \<le> k \<and> is_pinned r (metric_name v) \<longrightarrow> mv_available_at v + se_delay ev \<le> sg_available_at s)
      \<and> id_market_time (mst_identity m) + se_delay ev \<le> sg_available_at s \<and> t + se_delay ev \<le> sg_available_at s
      \<and> (t \<le> k \<longrightarrow> sg_available_at s \<le> k + se_delay ev)"
proof -
  let ?en = "evaluation_of m values t horizon config x priors live"
  obtain r oc where r: "r \<in> set (chosen_rules ev specs)" and so: "signal_from ev ?en r oc s"
    using evaluate_signals_Inr [OF assms(1,2)] by blast
  let ?c = "context_for ?en r"
  have avail: "en_available ?en = available_only values k" by (simp add: evaluation_of_def Let_def assms(3))
  have c: "rx_market_time ?c = id_market_time (mst_identity m)" "rx_knowledge_horizon ?c = k"
    "rx_metrics ?c = filter (\<lambda>m. is_pinned r (fst m)) (available_only values k)"
    by (simp_all add: context_for_def rx_market_time_def rx_knowledge_horizon_def evaluation_of_def Let_def assms(3))
  obtain n previous where np: "occurrence_and_previous live (signal_base r ?c x) = (n, previous)" by fastforce
  from so have b: "build_signal ev r ?c oc t x live = Inr s" by (simp add: signal_from_def evaluation_of_fields)
  note facts = build_signal_Inr [OF b np]
  have at: "sg_available_at s = available_at_for ev ?c t" "sg_identity s = identity_for ev r ?c x n" using facts by simp_all
  have mk: "id_market_time (mst_identity m) \<le> k"
    using assms(1) unfolding evaluate_signals_alt assms(3) by (simp split: if_splits)
  have "missing_features r (en_available ?en) = []" using so by (simp add: signal_from_def)
  then have pins: "\<forall>(i, n) \<in> set (ru_requires_features r). \<exists>v \<in> set values. mv_available_at v \<le> k \<and> metric_name v = versioned i n"
    unfolding avail missing_features_def
    by (fastforce simp: filter_empty_conv list_ex_iff available_only_members metric_name_def)
  have "mv_available_at v + se_delay ev \<le> sg_available_at s"
    if "v \<in> set values" "mv_available_at v \<le> k" "is_pinned r (metric_name v)" for v
    unfolding at(1) by (rule available_at_for_ge(3) [of "metric_name v"])
      (use that in \<open>simp add: c(3) available_only_members metric_name_def\<close>)
  moreover have "sg_available_at s \<le> k + se_delay ev" if "t \<le> k"
    unfolding at(1) by (rule available_at_for_le) (use that mk in \<open>auto simp: c available_only_members\<close>)
  moreover have "id_market_time (mst_identity m) + se_delay ev \<le> sg_available_at s" "t + se_delay ev \<le> sg_available_at s"
    using available_at_for_ge(1,2) [where c = "?c" and ev = ev and t = t] unfolding at(1) c(1) by simp_all
  moreover have "sy_signal_type (sg_identity s) = ru_signal_type r" "sy_rule_version (sg_identity s) = ru_version r"
      "sy_knowledge_horizon (sg_identity s) = k"
    unfolding at(2) by (simp_all add: identity_for_def c(2))
  ultimately show ?thesis using r pins by (intro bexI [OF _ r]) blast
qed

theorem signals_wait_for_their_inputs_witness:
  "\<exists>rep s. evaluate_signals sample_evaluator (market_of []) sample_values 200 None (Some sample_rules) None None [] [] = Inr rep
     \<and> s \<in> set (er_signals rep) \<and> sg_available_at s = 2000200 \<and> 200 + se_delay sample_evaluator \<le> sg_available_at s"
proof -
  obtain rep s where e: "evaluate_signals sample_evaluator (market_of []) sample_values 200 None (Some sample_rules) None None [] [] = Inr rep"
    "s \<in> set (er_signals rep)" "sg_status s = SIG_ACTIVE" "sg_available_at s = 2000200"
    "map snd (er_skipped rep) = [SKIP_RULE_ERROR, SKIP_FEATURE_UNAVAILABLE]"
    by (rule sample_evaluation_result)
  from signals_wait_for_their_inputs [OF e(1,2) refl] have "200 + se_delay sample_evaluator \<le> sg_available_at s" by blast
  then show ?thesis using e by blast
qed

text \<open>
  Claim C14: An evaluation never looks ahead and does not depend on the order of its inputs. Values that were not
  available at its knowledge horizon change nothing at all: two batches that agree on what was available give the
  same report, or the same error; and where no name is carried by two available values, the order in which they
  arrive does not matter either.
\<close>

theorem evaluation_never_looks_ahead:
  assumes "k = (case horizon of Some k \<Rightarrow> k | None \<Rightarrow> t)"
    and "mset (filter (\<lambda>v. mv_available_at v \<le> k) values) = mset (filter (\<lambda>v. mv_available_at v \<le> k) values')"
    and "distinct (map metric_name (filter (\<lambda>v. mv_available_at v \<le> k) values))
      \<or> filter (\<lambda>v. mv_available_at v \<le> k) values = filter (\<lambda>v. mv_available_at v \<le> k) values'"
  shows "evaluate_signals ev m values t horizon specs config x priors live
    = evaluate_signals ev m values' t horizon specs config x priors live"
proof -
  have "available_only values k = available_only values' k"
    using assms(3)
  proof
    assume d: "distinct (map metric_name (filter (\<lambda>v. mv_available_at v \<le> k) values))"
    let ?named = "\<lambda>vs. map (\<lambda>v. (versioned (mv_feature_id v) (mv_feature_version v), v)) (filter (\<lambda>v. mv_available_at v \<le> k) vs)"
    have "map fst (?named values) = map metric_name (filter (\<lambda>v. mv_available_at v \<le> k) values)" by (simp add: metric_name_def)
    then have "distinct (map fst (?named values))" using d by (simp only:)
    then have "inj_on fst (set (?named values))" by (rule conjunct2 [OF distinct_map [THEN iffD1]])
    then show ?thesis unfolding available_only_def
      by (intro sort_key_permutation) (simp_all only: mset_map assms(2))
  qed (simp add: available_only_def)
  then have "evaluation_of m values t horizon config x priors live = evaluation_of m values' t horizon config x priors live"
    by (simp add: evaluation_of_def Let_def assms(1))
  then show ?thesis unfolding evaluate_signals_alt by simp
qed

theorem evaluation_never_looks_ahead_witness:
  "evaluate_signals sample_evaluator (market_of []) (rev sample_values @ [sample_metric ''pcr'' 2 90 300]) 200 None (Some sample_rules) None None [] []
     = evaluate_signals sample_evaluator (market_of []) sample_values 200 None (Some sample_rules) None None [] []"
  by (rule evaluation_never_looks_ahead [OF refl]) (simp_all add: sample_values_def sample_metric_def)

section \<open>Every rule answers\<close>

text \<open>What the report says of one rule.\<close>

definition skip_for :: "evaluation \<Rightarrow> signal_rule \<Rightarrow> skip_reason option" where
  "skip_for en r =
     (if refuses_quality r (q_status (mst_quality (en_state en))) then Some SKIP_QUALITY_NOT_MET
      else if \<not> set (map (\<lambda>(i, v). versioned i v) (ru_requires_features r)) \<subseteq> fst ` set (en_available en) then Some SKIP_FEATURE_UNAVAILABLE
      else if ru_evaluate r (context_for en r) = None then Some SKIP_RULE_ERROR
      else if \<not> ro_fired (the (ru_evaluate r (context_for en r))) then Some SKIP_CONDITIONS_NOT_MET
      else None)"

lemma missing_features_Nil:
  "missing_features r available = [] \<longleftrightarrow> set (map (\<lambda>(i, v). versioned i v) (ru_requires_features r)) \<subseteq> fst ` set available"
  by (force simp: missing_features_def filter_empty_conv list_ex_iff image_iff)

lemma evaluate_rule_verdict:
  assumes "evaluate_rule ev en r = Inr v"
  shows "(case v of Skipped_Rule why \<Rightarrow> skip_for en r = Some why | Fired_Rule s b \<Rightarrow> skip_for en r = None)"
  using assms unfolding evaluate_rule_def missing_features_Nil skip_for_def
  by (auto simp: bind_result_Inr_iff split: if_splits option.splits rule_verdict.splits)

lemma verdict_counts:
  "list_all2 (\<lambda>r v. evaluate_rule ev en r = Inr v) rs vs \<Longrightarrow>
     length (fired_of vs) = length (filter (\<lambda>r. skip_for en r = None) rs)
     \<and> List.map_filter (\<lambda>(r, v). case v of Skipped_Rule why \<Rightarrow> Some (r, why) | Fired_Rule _ _ \<Rightarrow> None) (zip rs vs)
       = List.map_filter (\<lambda>r. map_option (Pair r) (skip_for en r)) rs"
proof (induction rule: list_all2_induct)
  case (Cons r rs v vs)
  show ?case using Cons.IH evaluate_rule_verdict [OF Cons.hyps(1)]
    by (cases v) (simp_all add: fired_of_def map_filter_simps)
qed (simp add: fired_of_def map_filter_simps)

text \<open>
  Every rule answers. The report of an evaluation has exactly one signal for each rule that is not
  skipped, and lists the skipped ones in the order of the rules with the first reason that applies: the quality
  of the state, then a feature that is not available at the horizon, then a rule that raised, then conditions
  that are not met. A rule that raises never disturbs the others.
\<close>

theorem every_rule_answers:
  assumes "evaluate_signals ev m values t horizon specs config x priors live = Inr rep"
  shows "er_skipped rep = List.map_filter (\<lambda>r. map_option (Pair r) (skip_for (evaluation_of m values t horizon config x priors live) r)) (chosen_rules ev specs)
    \<and> length (er_signals rep) + length (er_skipped rep) = length (chosen_rules ev specs)"
proof -
  let ?en = "evaluation_of m values t horizon config x priors live"
  let ?rs = "chosen_rules ev specs"
  from evaluate_signals_rules [OF assms] obtain vs where vs: "report_of ev ?en ?rs vs rep" ..
  note c = verdict_counts [OF report_verdicts [OF vs]]
  have skipped: "er_skipped rep = List.map_filter (\<lambda>r. map_option (Pair r) (skip_for ?en r)) ?rs"
    unfolding report_skips [OF vs] using c by blast
  have fired: "length (er_signals rep) = length (filter (\<lambda>r. skip_for ?en r = None) ?rs)"
    unfolding report_signals [OF vs] using c by blast
  have "length (List.map_filter (\<lambda>r. map_option (Pair r) (f r)) rs) + length (filter (\<lambda>r. f r = None) rs) = length rs"
    for f :: "signal_rule \<Rightarrow> skip_reason option" and rs
    by (induction rs) (auto simp: map_filter_simps split: option.split)
  from this [of "skip_for ?en" ?rs] show ?thesis unfolding skipped fired by simp
qed

theorem every_rule_answers_witness:
  "\<exists>rep. evaluate_signals sample_evaluator (market_of []) sample_values 200 None (Some sample_rules) None None [] [] = Inr rep
     \<and> map snd (er_skipped rep) = [SKIP_RULE_ERROR, SKIP_FEATURE_UNAVAILABLE] \<and> length (er_signals rep) = 1"
proof -
  obtain rep s where e: "evaluate_signals sample_evaluator (market_of []) sample_values 200 None (Some sample_rules) None None [] [] = Inr rep"
    "s \<in> set (er_signals rep)" "sg_status s = SIG_ACTIVE" "sg_available_at s = 2000200"
    "map snd (er_skipped rep) = [SKIP_RULE_ERROR, SKIP_FEATURE_UNAVAILABLE]"
    by (rule sample_evaluation_result)
  have "length (er_skipped rep) = 2" using arg_cong [OF e(5), of length] by simp
  have "length (chosen_rules sample_evaluator (Some sample_rules)) = 3" by (simp add: sample_rules_def)
  then have "length (er_signals rep) = 1" using \<open>length (er_skipped rep) = 2\<close> every_rule_answers [OF e(1), THEN conjunct2] by linarith
  with e(1,5) show ?thesis by (intro exI [of _ rep] conjI)
qed

section \<open>Strength\<close>

lemma dec_sum_ge: "dval acc \<le> dval acc' \<Longrightarrow> dval (foldl (+) acc xs) \<le> dval (foldl (+) acc' xs)"
  by (induction xs arbitrary: acc acc') (simp_all add: ctx.rnd_mono)

lemma dec_sum_nonneg: "0 \<le> dval acc \<Longrightarrow> \<forall>x \<in> set xs. 0 \<le> dval x \<Longrightarrow> 0 \<le> dval (foldl (+) acc xs)"
  by (induction xs arbitrary: acc) (simp_all add: ctx.nonneg)

lemma dec_sum_fixed: "rnd28 (dval acc) = dval acc \<Longrightarrow> rnd28 (dval (foldl (+) acc xs)) = dval (foldl (+) acc xs)"
  by (induction xs arbitrary: acc) (simp_all add: ctx.rnd_idem)

lemma dec_sum_insert:
  assumes "0 \<le> dval a"
  shows "dval (dec_sum (xs @ ys)) \<le> dval (dec_sum (xs @ a # ys))"
proof -
  let ?s = "foldl (+) 0 xs"
  have "rnd28 (dval ?s) = dval ?s" by (rule dec_sum_fixed) simp
  then have "dval ?s \<le> dval (?s + a)" using assms by (simp add: ctx.ge_fixed)
  then show ?thesis by (simp add: dec_sum_def dec_sum_ge)
qed

text \<open>The value of the strength: the clamp of the rounded ratio.\<close>

definition clamped_ratio :: "rat \<Rightarrow> rat \<Rightarrow> rat" where
  "clamped_ratio s a = (if rnd28 (s + a) = 0 then 0 else min (max (rnd28 (rnd28 (s - a) / rnd28 (s + a))) 0) 1)"

lemma dval_normalized:
  "dval (normalized_weighted_sum us con) = clamped_ratio (dval (dec_sum (map ev_weight us))) (dval (dec_sum (map (\<lambda>e. \<bar>ev_weight e\<bar>) con)))"
  by (simp add: clamped_ratio_def normalized_weighted_sum_def Let_def dec_min_def dec_max_def dec_less_iff)

lemma clamped_ratio_range: "0 \<le> clamped_ratio s a \<and> clamped_ratio s a \<le> 1"
  by (simp add: clamped_ratio_def)

lemma clamped_ratio_antimono:
  assumes "0 \<le> s" "0 \<le> a" "a \<le> a'"
  shows "clamped_ratio s a' \<le> clamped_ratio s a"
proof (cases "rnd28 (s + a) = 0")
  case True
  then have z: "s = 0" "a = 0" using assms by (simp_all add: add_nonneg_eq_0_iff)
  have "rnd28 (rnd28 (s - a') / rnd28 (s + a')) \<le> 0"
    using assms z by (intro ctx.nonpos divide_nonpos_nonneg) (simp_all add: ctx.nonpos ctx.nonneg)
  then have "clamped_ratio s a' \<le> 0" by (simp add: clamped_ratio_def)
  then show ?thesis using clamped_ratio_range order_trans by blast
next
  case False
  have pos: "0 < rnd28 (s + a)" "rnd28 (s + a) \<le> rnd28 (s + a')"
    using False assms by (simp_all add: rnd28_pos ctx.rnd_mono add_nonneg_eq_0_iff ctx.nonneg less_le)
  have num: "rnd28 (s - a') \<le> rnd28 (s - a)" using assms by (simp add: ctx.rnd_mono)
  have "max (rnd28 (rnd28 (s - a') / rnd28 (s + a'))) 0 \<le> max (rnd28 (rnd28 (s - a) / rnd28 (s + a))) 0"
  proof (cases "0 \<le> rnd28 (s - a')")
    case True
    then have "rnd28 (s - a') / rnd28 (s + a') \<le> rnd28 (s - a) / rnd28 (s + a)"
      using num pos by (intro frac_le) simp_all
    then show ?thesis by (intro max.mono ctx.rnd_mono order_refl)
  next
    case False
    then have "rnd28 (rnd28 (s - a') / rnd28 (s + a')) \<le> 0"
      using pos by (intro ctx.nonpos [OF divide_nonpos_nonneg]) linarith+
    then show ?thesis by simp
  qed
  then show ?thesis unfolding clamped_ratio_def using pos False by (auto intro: min.mono)
qed

text \<open>
  Claim C39: Strength is a ratio that contradicting evidence never raises: it lies between zero and one for
  whatever evidence, and one more contradicting item, wherever the order puts it, leaves a strength that is
  at most the one without it, the rounding of every sum and quotient included.
\<close>

theorem contradiction_never_strengthens:
  assumes "\<forall>e \<in> set us. \<not> evidence_refused e \<and> ev_kind e = SUPPORTING"
  shows "0 \<le> dval (normalized_weighted_sum us con) \<and> dval (normalized_weighted_sum us con) \<le> 1
    \<and> dval (normalized_weighted_sum us (xs @ e # ys)) \<le> dval (normalized_weighted_sum us (xs @ ys))"
proof (intro conjI)
  show "0 \<le> dval (normalized_weighted_sum us con)" "dval (normalized_weighted_sum us con) \<le> 1"
    using clamped_ratio_range by (simp_all add: dval_normalized)
  show "dval (normalized_weighted_sum us (xs @ e # ys)) \<le> dval (normalized_weighted_sum us (xs @ ys))"
    unfolding dval_normalized
  proof (rule clamped_ratio_antimono)
    show "0 \<le> dval (dec_sum (map ev_weight us))" unfolding dec_sum_def
      by (rule dec_sum_nonneg) (use assms in \<open>auto simp: evidence_refused_def dec_not_less dec_le_iff\<close>)
    show "0 \<le> dval (dec_sum (map (\<lambda>e. \<bar>ev_weight e\<bar>) (xs @ ys)))" unfolding dec_sum_def
      by (rule dec_sum_nonneg) auto
    show "dval (dec_sum (map (\<lambda>e. \<bar>ev_weight e\<bar>) (xs @ ys))) \<le> dval (dec_sum (map (\<lambda>e. \<bar>ev_weight e\<bar>) (xs @ e # ys)))"
      unfolding map_append list.map by (rule dec_sum_insert) simp
  qed
qed

theorem contradiction_never_strengthens_witness:
  "let e = \<lparr>ev_kind = SUPPORTING, ev_metric = metric_ref_of (sample_metric ''pcr'' 2 90 95), ev_statement = ''high'',
       ev_weight = dec_int 3, ev_observed_at = 90, ev_observation_refs = []\<rparr>
   in dval (normalized_weighted_sum [e] [e\<lparr>ev_kind := CONTRADICTING, ev_weight := dec_int (- 1)\<rparr>]) = 1 / 2
      \<and> dval (normalized_weighted_sum [e] ([] @ e\<lparr>ev_kind := CONTRADICTING, ev_weight := dec_int (- 1)\<rparr> # []))
        \<le> dval (normalized_weighted_sum [e] ([] @ []))"
  unfolding Let_def
proof (intro conjI)
  let ?e = "\<lparr>ev_kind = SUPPORTING, ev_metric = metric_ref_of (sample_metric ''pcr'' 2 90 95), ev_statement = ''high'',
       ev_weight = dec_int 3, ev_observed_at = 90, ev_observation_refs = []\<rparr>"
  have half: "rnd28 (1 / 2) = 1 / 2" by code_simp
  show "dval (normalized_weighted_sum [?e] [?e\<lparr>ev_kind := CONTRADICTING, ev_weight := dec_int (- 1)\<rparr>]) = 1 / 2"
    by (simp add: dval_normalized clamped_ratio_def dec_sum_def half ctx.rnd_minus)
  show "dval (normalized_weighted_sum [?e] ([] @ ?e\<lparr>ev_kind := CONTRADICTING, ev_weight := dec_int (- 1)\<rparr> # []))
        \<le> dval (normalized_weighted_sum [?e] ([] @ []))"
    by (rule contradiction_never_strengthens [where con = "[]", THEN conjunct2, THEN conjunct2])
      (simp add: evidence_refused_def dec_not_less dec_le_iff)
qed

section \<open>What the table allows and the evaluator never does, or does by failing\<close>

text \<open>
  The table lets every live signal fade, and a trigger for it is declared, but no evaluation ever does it: the
  only ends of a signal that an evaluation reaches are invalidation and expiry.
\<close>

theorem no_signal_ever_fades:
  assumes "evaluate_signals ev m values t horizon specs config x priors live = Inr rep" "s \<in> set (er_signals rep)"
  shows "sg_status s \<noteq> SIG_FADED"
proof -
  let ?en = "evaluation_of m values t horizon config x priors live"
  obtain r oc where "signal_from ev ?en r oc s"
    using evaluate_signals_Inr [OF assms(1,2)] by blast
  then have b: "build_signal ev r (context_for ?en r) oc t x live = Inr s" by (simp add: signal_from_def evaluation_of_fields)
  obtain n previous where np: "occurrence_and_previous live (signal_base r (context_for ?en r) x) = (n, previous)" by fastforce
  have "sg_status p \<noteq> SIG_FADED" if "previous = Some p" for p
    using occurrence_previous_live np that by (fastforce simp: signal_terminal_def)
  then show ?thesis using build_signal_Inr [OF b np] by blast
qed

text \<open>A rule whose signal cannot be built fails the whole evaluation: only the call of the rule is guarded.\<close>

lemma evaluate_rules_Inl:
  assumes "r \<in> set rs" "evaluate_rule ev en r = Inl e"
  shows "evaluate_rules ev en rs \<noteq> Inr rep"
  using assms(1)
proof (induction rs arbitrary: rep)
  case (Cons q rs)
  then show ?case using assms(2) by (cases "q = r") (auto simp: bind_result_Inr_iff)
qed simp

lemma unbuildable_outcome:
  assumes "str_strip (ro_invalidation_condition oc) = [] \<or> ro_invalidated oc \<and> snd (occurrence_and_previous live (signal_base r c x)) = None"
  shows "build_signal ev r c oc t x live \<noteq> Inr s"
proof
  assume b: "build_signal ev r c oc t x live = Inr s"
  obtain n previous where np: "occurrence_and_previous live (signal_base r c x) = (n, previous)" by fastforce
  note f = build_signal_Inr [OF b np]
  from assms show False
  proof
    assume blank: "str_strip (ro_invalidation_condition oc) = []"
    have "construct_signal (new_signal ev r c oc t x n i h) \<noteq> Inr s'" "construct_signal (refreshed_signal ev r c oc t x n i p) \<noteq> Inr s'" for i h p s'
      by (simp_all add: construct_signal_def check_signal_def new_signal_def refreshed_signal_def blank)
    then show False using b by (auto simp: build_signal_def Let_def np bind_result_Inr_iff split: option.splits prod.splits)
  next
    assume i: "ro_invalidated oc \<and> snd (occurrence_and_previous live (signal_base r c x)) = None"
    have "apply_signal_transition (new_signal ev r c oc t x n i h) SIG_INVALIDATED tr t st \<noteq> Inr s" for i h tr st
      by (simp add: apply_signal_transition_def is_permitted_def)
    then show False using b i
      by (auto simp: build_signal_def Let_def np target_status_def bind_result_Inr_iff construct_signal_Inr)
  qed
qed

text \<open>
  Claim C40: One faulty outcome takes the whole batch down. If any rule that is not skipped has an outcome
  with a blank invalidation condition, or one that is invalidated before its stream has a live signal, the
  evaluation yields no report at all, whatever the other rules found.
\<close>

theorem faulty_outcome_takes_down_the_batch:
  assumes "r \<in> set (chosen_rules ev specs)" "en = evaluation_of m values t horizon config x priors live" "skip_for en r = None"
    and "ru_evaluate r (context_for en r) = Some oc"
    and "str_strip (ro_invalidation_condition oc) = [] \<or> ro_invalidated oc \<and> snd (occurrence_and_previous live (signal_base r (context_for en r) x)) = None"
  shows "\<not> is_ok (evaluate_signals ev m values t horizon specs config x priors live)"
proof -
  have b: "build_signal ev r (context_for en r) oc t x live \<noteq> Inr s" for s by (rule unbuildable_outcome [OF assms(5)])
  have "evaluate_rule ev en r \<noteq> Inr v" for v
  proof
    assume v: "evaluate_rule ev en r = Inr v"
    from evaluate_rule_verdict [OF v] assms(3) obtain s c where "v = Fired_Rule s c" by (cases v) simp_all
    then have "\<exists>oc. signal_from ev en r oc s" using evaluate_rule_Fired v by blast
    then show False using b assms(4) unfolding signal_from_def assms(2) evaluation_of_fields by auto
  qed
  then obtain e where "evaluate_rule ev en r = Inl e" by (cases "evaluate_rule ev en r") auto
  note none = evaluate_rules_Inl [OF assms(1) this]
  show ?thesis
  proof (cases "evaluate_rules ev en (chosen_rules ev specs)")
    case (Inl e)
    show ?thesis unfolding evaluate_signals_alt Inl [unfolded assms(2)] by simp
  next
    case (Inr rep)
    then show ?thesis using none by blast
  qed
qed

theorem faulty_outcome_takes_down_the_batch_witness:
  "\<not> is_ok (evaluate_signals sample_evaluator (market_of []) sample_values 200 None
     (Some (sample_rules @ [sample_rule ''D'' (\<lambda>c. Some (the (sample_firing c)\<lparr>ro_invalidated := True\<rparr>))])) None None [] [])"
proof (rule faulty_outcome_takes_down_the_batch [OF _ refl])
  let ?r = "sample_rule ''D'' (\<lambda>c. Some (the (sample_firing c)\<lparr>ro_invalidated := True\<rparr>))"
  let ?en = "evaluation_of (market_of []) sample_values 200 None None None [] []"
  show "?r \<in> set (chosen_rules sample_evaluator (Some (sample_rules @ [?r])))" by simp
  show f: "ru_evaluate ?r (context_for ?en ?r) = Some (the (sample_firing (context_for ?en ?r))\<lparr>ro_invalidated := True\<rparr>)"
    by (simp add: sample_rule_def)
  have a: "en_available ?en = [(versioned ''pcr'' 2, sample_metric ''pcr'' 2 90 195)]"
    by (simp add: evaluation_of_def Let_def available_only_def sample_values_def sample_metric_def)
  have q: "q_status (mst_quality (en_state ?en)) = QS_OK" by (simp add: evaluation_of_def Let_def market_of_def)
  show "skip_for ?en ?r = None" unfolding skip_for_def f q a
    by (simp add: refuses_quality_def sample_rule_def sample_firing_def)
  show "str_strip (ro_invalidation_condition (the (sample_firing (context_for ?en ?r))\<lparr>ro_invalidated := True\<rparr>)) = []
     \<or> ro_invalidated (the (sample_firing (context_for ?en ?r))\<lparr>ro_invalidated := True\<rparr>)
       \<and> snd (occurrence_and_previous [] (signal_base ?r (context_for ?en ?r) None)) = None"
    by (simp add: occurrence_and_previous_def latest_occurrence_def dict_keys_def)
qed

end
