(* ===== verification/Spec2Isabelle.thy ===== *)
theory Spec2Isabelle
  imports Order_History Risk_Engine Reconcile_Safety Runtime_History Checkpoints State_Views Backtest_Guarantees Signal_Guarantees
begin

text \<open>
  The trading core of OI Pulse: from the observation of a market to the book of a paper account, and the
  live boundary beside it. All source files are under \<^verbatim>\<open>src/oipulse/\<close>.

  \<^bold>\<open>How the program works.\<close> Feeds append observations to a bitemporal store: each says when a fact was
  true and when it arrived. For a market time and a knowledge horizon the state builder reads the store
  under one temporal bound and assembles an immutable market state, with its quality. A strategy turns a
  state into an intent; the risk engine decides on the intent; an approved intent becomes orders, which the
  paper venue fills against a later state; fills go into the ledger of the account, and every change is
  published as a numbered event. On the live side the order manager sends orders to a broker through a gate
  that asks for the decision, and a reconciler compares the broker's record with its own.

  \<^bold>\<open>The theories and what they model.\<close>
  \<^item> \<open>OIP_Prelude\<close>, \<open>OIP_Rounding\<close>, \<open>OIP_Decimal\<close>, \<open>OIP_Time\<close>: results, dictionaries, rendering of numbers;
    rounding to significant digits with its contract as a locale; \<^verbatim>\<open>Decimal\<close> in the default context and
    floats as the rationals they denote; calendar dates and \<^verbatim>\<open>isoformat()\<close>, which is shown injective.
  \<^item> \<open>Intents\<close>, \<open>Orders\<close>, \<open>State_Machine\<close>, \<open>Order_History\<close>: \<^verbatim>\<open>trading/intents.py\<close>, \<^verbatim>\<open>backtest/strategy.py\<close> (the
    intent), \<^verbatim>\<open>trading/orders.py\<close>. The order aggregate with its transition table; a locale for a machine
    driven by a table; every reachable order is told exactly by its events.
  \<^item> \<open>Risk_Inputs\<close>, \<open>Risk_Decision\<close>, \<open>Risk_Limits\<close>, \<open>Risk_Engine\<close>: \<^verbatim>\<open>trading/risk/\<close>. Policy, state, decision, the
    checks, the engine with its resizing; the engine approves exactly when a declarative reading of the
    limits holds, reduces only for size and to less than was asked, and otherwise approves nothing.
  \<^item> \<open>Broker\<close>, \<open>Paper_Venue\<close>, \<open>Submission\<close>, \<open>OMS\<close>, \<open>OMS_Safety\<close>, \<open>OMS_Guarantees\<close>: \<^verbatim>\<open>trading/brokers/\<close> and
    \<^verbatim>\<open>trading/oms/\<close>. An adapter is a record of functions over a venue state of any type, so what is proved of
    the manager holds for every broker.
  \<^item> \<open>Reconcile\<close>, \<open>Reconcile_Safety\<close>: \<^verbatim>\<open>trading/reconciliation/\<close>. The three passes of a run and the startup gate.
  \<^item> \<open>Costs\<close>, \<open>Fills\<close>, \<open>Ledger\<close>, \<open>Ledger_Guarantees\<close>: \<^verbatim>\<open>backtest/costs.py\<close>, \<^verbatim>\<open>fills.py\<close>, \<^verbatim>\<open>ledger.py\<close>.
  \<^item> \<open>Paper_Ledger\<close>, \<open>Accounts\<close>, \<open>Execution\<close>, \<open>Events\<close>: \<^verbatim>\<open>trading/ledger.py\<close>, \<^verbatim>\<open>accounts.py\<close>, \<^verbatim>\<open>execution.py\<close>,
    \<^verbatim>\<open>events.py\<close> with \<^verbatim>\<open>events/domain.py\<close> and \<^verbatim>\<open>events/inbox.py\<close>.
  \<^item> \<open>Runtime\<close>, \<open>Runtime_Events\<close>, \<open>Runtime_Safety\<close>, \<open>Runtime_Contract\<close>, \<open>Runtime_History\<close>: \<^verbatim>\<open>trading/runtime.py\<close>, the
    composition of all of the paper side. Its histories are an inductive relation; the last four theories are
    the frame lemmas, the book, the contract of a submission, and what holds along a history.
  \<^item> \<open>Observations\<close>, \<open>Observation_Store\<close>: \<^verbatim>\<open>marketdata/identity.py\<close>, \<^verbatim>\<open>observations.py\<close>, \<^verbatim>\<open>store/memory.py\<close>,
    \<^verbatim>\<open>core/timemode.py\<close>, \<^verbatim>\<open>persistence/repository.py\<close>; the locale \<open>observation_reads\<close> is what assembly asks of
    a store, and it is interpreted on the in-memory one.
  \<^item> \<open>Instruments\<close>: \<^verbatim>\<open>instruments/models.py\<close>, \<^verbatim>\<open>instruments/universe.py\<close>, \<^verbatim>\<open>marketstate/universe.py\<close>.
  \<^item> \<open>Market_State\<close>, \<open>State_Builder\<close>, \<open>State_Assembly\<close>, \<open>State_Guarantees\<close>, \<open>State_Views\<close>: \<^verbatim>\<open>marketstate/state.py\<close>,
    \<^verbatim>\<open>staleness.py\<close>, \<^verbatim>\<open>context.py\<close>, \<^verbatim>\<open>builder.py\<close>, \<^verbatim>\<open>dataquality/issues.py\<close>. The picture and its content; the
    assembly; what assembly guarantees over any store and then over the in-memory one.
  \<^item> \<open>Checkpoints\<close>, \<open>Exact_Checkpoints\<close>: \<^verbatim>\<open>marketstate/checkpoints.py\<close>, as a refinement of the service without
    checkpoints; the first compares the content of states, for any store, the second whole states up to the
    moment of their assembly, for a store that keeps the state object, which is what a backtest shows its
    strategy.
  \<^item> \<open>Replay\<close>, \<open>Replay_Guarantees\<close>: \<^verbatim>\<open>replay/\<close>. Contexts, timelines and the engine, which turns a timeline into the
    states of its steps; a replay refines assembly.
  \<^item> \<open>Metrics\<close>: \<^verbatim>\<open>analytics/values.py\<close>, \<^verbatim>\<open>signals/model.py\<close>, \<^verbatim>\<open>research/access.py\<close>. Values and signals as data, and the
    accessor that serves them up to a decision point.
  \<^item> \<open>Backtest\<close>, \<open>Backtest_Guarantees\<close>: \<^verbatim>\<open>backtest/strategy.py\<close>, \<^verbatim>\<open>risk.py\<close>, \<^verbatim>\<open>runner.py\<close>, \<^verbatim>\<open>result.py\<close>: a replay
    that asks a strategy at every step, executes what is due and folds the fills into a ledger.
  \<^item> \<open>Signals\<close>, \<open>Signal_Guarantees\<close>: \<^verbatim>\<open>signals/strength.py\<close>, \<^verbatim>\<open>lifecycle.py\<close>, \<^verbatim>\<open>context.py\<close>, \<^verbatim>\<open>rules.py\<close>,
    \<^verbatim>\<open>evaluation.py\<close>. Rules are functions of their context; the lifecycle is another instance of the locale of
    machines driven by a table.
\<close>

text \<open>
  \<^bold>\<open>What the groups of lemmas show.\<close>
  \<^item> Point in time: no answer of the store and no assembled state depends on what became true or arrived
    after it; a state is made of rows that the store answers within its identity, and its references, latest
    reception and ages are theirs; checkpoints change no answer, as long as nothing arrives behind a pair of
    times asked for earlier.
  \<^item> Authority: an order leaves only under a decision for exactly it; risk approves exactly what the policy
    permits; what the runtime orders is what was approved, whatever it is later priced against.
  \<^item> Lifecycle: orders follow the table, are told by their events, and are never sent twice; events are applied
    once each and in order.
  \<^item> Money: cash is conserved, positions and averages follow the fills, equity and net P\&L agree up to a
    stated rounding, and a live book is the replay of its fills. The one thing that moves a book without a record is an
    exception of the price arithmetic in the middle of a submission: histories include such submissions, each
    of which leaves at most one unrecorded fill, and \<open>unrecorded_fill_moves_the_book\<close> is a run that leaves one.
  \<^item> Agreement with the venue: a reconciliation changes orders only on evidence, absorbs each fill at most once,
    is idempotent and ends; an open startup gate means agreement.
  \<^item> Replay and backtest: a replay shows what assembly shows; a backtest accounts for every intent, executes none
    before its latency, has the ledger of its fills, and depends on nothing known after its last step, with or without
    checkpoints, on whatever engine. The conditions are on what the engine holds at the start: each checkpoint
    holds what assembly gives for its key over the rows of the run, which the requests of an engine preserve
    (\<open>engine_ok\<close>, \<open>exact_engine\<close>), and the times of the steps are dates a datetime has, since the keys of
    checkpoints contain rendered times.
  \<^item> Signals: they follow their table with the history to show it, wait for their inputs, and contradicting
    evidence never raises their strength.
  \<^item> Divergences: where the code does not do what its documentation says, a theorem states what it does.

  \<^bold>\<open>Conventions.\<close> A datetime is an instant in microseconds (naive datetimes and other zones, which the code
  rejects or converts at its boundary, are not represented); a date is a day number. Exceptions are the left
  of a sum; where the code changes state before it raises, the changed state is returned beside the error.
  Dictionaries keep insertion order. Hash functions over canonical JSON are parameters applied to the explicit
  content. Free text for people (\<open>detail\<close>, \<open>reason\<close>, notes) is left out, as are loggers. Random event ids
  are a supplied sequence. A coroutine runs from call to return, since each suspends only in its adapter.
  \<^verbatim>\<open>Decimal\<close> rounds to 28 digits half-even; its infinities, NaN and exponent limits are not represented, and
  floats are the rationals they denote, rounded to 53 bits, without overflow.

  \<^bold>\<open>Bounds.\<close> Loops of the code run over finite lists, so they are structural and nothing uses fuel. The exact
  statements about money carry the ranges in which 28 digits are exact: quantities to \<open>2 ^ 25\<close>, prices and
  amounts below \<open>10 ^ 20\<close> to \<open>10 ^ 25\<close> on a grid of hundredths; the agreement of equity and P\&L holds up to
  \<open>32 M / 10 ^ 27\<close> for a largest amount \<open>M\<close>. Keys that contain a rendered time are injective for the years that a
  datetime has.

  \<^bold>\<open>Not modelled.\<close> The feeds, the collector and PostgreSQL (asynchronous I/O around the store; their in-memory
  twins are modelled); the HTTP API, identity and sessions; observability; the portfolio views, attribution and
  journal, which are read from the fills of the runtime and decide nothing; alerts and the catalogue of rules
  (a rule is a function of its context); the serialisation of runs; analytics and research, which are
  formulas over states in floating point; the legacy backend. Chain snapshots have no source in the repository:
  they are a parameter of assembly.
\<close>

end
